(* ===== verification/A3Prelude.thy ===== *)
theory A3Prelude
  imports Main "HOL-Library.Word" "HOL-Library.Char_ord" "HOL-Library.List_Lexorder"
begin

text \<open>
  Shared ground of the development: the names of the machine types, the result type of the
  fallible functions, the decimal rendering of integers that Rust's \<open>to_string\<close> and
  \<open>parse\<close> use, and the theory of length-prefixed (self-delimiting) text.

  A Rust \<open>String\<close> is its UTF-8 bytes, so it is a \<open>char list\<close> here, one
  \<open>char\<close> per byte: \<open>length s\<close> is Rust's \<open>s.len()\<close>.  Errors are the left
  injection of a sum.
\<close>

section \<open>Machine types and results\<close>

type_synonym i64 = "64 word"
type_synonym u8 = "8 word"
type_synonym u32 = "32 word"
type_synonym u64 = "64 word"
type_synonym rstr = string

text \<open>\<open>Result<T, String>\<close>: the error is its message.\<close>

type_synonym 'a sres = "string + 'a"

text \<open>\<open>Result::and_then\<close> (the \<open>?\<close> operator).\<close>

definition bind_res :: "'e + 'a \<Rightarrow> ('a \<Rightarrow> 'e + 'b) \<Rightarrow> 'e + 'b" where
  "bind_res r f = (case r of Inl e \<Rightarrow> Inl e | Inr x \<Rightarrow> f x)"

lemma bind_res_simps [simp]:
  "bind_res (Inl e) f = Inl e"
  "bind_res (Inr x) f = f x"
  by (simp_all add: bind_res_def)

lemma bind_res_Inr_iff:
  "bind_res r f = Inr y \<longleftrightarrow> (\<exists>x. r = Inr x \<and> f x = Inr y)"
  by (cases r) simp_all

lemma bind_res_Inl_iff:
  "bind_res r f = Inl e \<longleftrightarrow> r = Inl e \<or> (\<exists>x. r = Inr x \<and> f x = Inl e)"
  by (cases r) simp_all

text \<open>Collecting fallible results over a list stops at the first error.\<close>

fun map_res :: "('a \<Rightarrow> 'e + 'b) \<Rightarrow> 'a list \<Rightarrow> 'e + 'b list" where
  "map_res f [] = Inr []"
| "map_res f (x # xs) = bind_res (f x) (\<lambda>y. bind_res (map_res f xs) (\<lambda>ys. Inr (y # ys)))"

lemma map_res_length: "map_res f xs = Inr ys \<Longrightarrow> length ys = length xs"
  by (induction xs arbitrary: ys) (auto simp: bind_res_Inr_iff)

lemma map_res_Inr_nth:
  "map_res f xs = Inr ys \<Longrightarrow> i < length xs \<Longrightarrow> f (xs ! i) = Inr (ys ! i)"
  by (induction xs arbitrary: ys i) (auto simp: bind_res_Inr_iff nth_Cons split: nat.splits)

lemma map_res_cong_Inr: "(\<And>x. x \<in> set xs \<Longrightarrow> f x = Inr (g x)) \<Longrightarrow> map_res f xs = Inr (map g xs)"
  by (induction xs) auto

text \<open>Termination of \<open>f\<close> recursive through \<open>map_res f xs\<close>.\<close>

lemma map_res_cong [fundef_cong]:
  "xs = ys \<Longrightarrow> (\<And>x. x \<in> set ys \<Longrightarrow> f x = g x) \<Longrightarrow> map_res f xs = map_res g ys"
  by (induction ys arbitrary: xs) auto

section \<open>Text helpers of the standard library\<close>

fun join :: "rstr \<Rightarrow> rstr list \<Rightarrow> rstr" where
  "join sep [] = []"
| "join sep [x] = x"
| "join sep (x # y # xs) = x @ sep @ join sep (y # xs)"

lemma length_join:
  "length (join sep xs) = sum_list (map length xs) + (length xs - 1) * length sep"
  by (induction sep xs rule: join.induct) auto

text \<open>\<open>starts_with\<close> and \<open>contains\<close>.\<close>

fun starts_with :: "'a list \<Rightarrow> 'a list \<Rightarrow> bool" where
  "starts_with s [] = True"
| "starts_with [] (p # ps) = False"
| "starts_with (c # s) (p # ps) = (c = p \<and> starts_with s ps)"

lemma starts_with_append [simp]: "starts_with (p @ s) p"
  by (induction p) auto

lemma starts_with_iff: "starts_with s p \<longleftrightarrow> (\<exists>t. s = p @ t)"
  by (induction s p rule: starts_with.induct) auto

text \<open>\<open>str::find\<close> of a substring: the byte offset of its first occurrence.\<close>

fun find_sub :: "'a list \<Rightarrow> 'a list \<Rightarrow> nat option" where
  "find_sub [] p = (if p = [] then Some 0 else None)"
| "find_sub (c # s) p = (if starts_with (c # s) p then Some 0 else map_option Suc (find_sub s p))"

definition contains_sub :: "'a list \<Rightarrow> 'a list \<Rightarrow> bool" where
  "contains_sub s p = (find_sub s p \<noteq> None)"

lemma find_sub_Some:
  "find_sub s p = Some i \<Longrightarrow> i + length p \<le> length s \<and> take (length p) (drop i s) = p"
proof (induction s p arbitrary: i rule: find_sub.induct)
  case (2 c s p)
  show ?case
  proof (cases "starts_with (c # s) p")
    case True
    then obtain t where t: "c # s = p @ t" by (auto simp: starts_with_iff)
    have "i = 0" using "2.prems" True by simp
    moreover have "length p \<le> Suc (length s)"
      using arg_cong [OF t, of length] by simp
    ultimately show ?thesis using t by simp
  next
    case False
    with 2 show ?thesis by auto
  qed
qed (auto split: if_splits)

lemma find_sub_first:
  "find_sub s p = Some i \<Longrightarrow> j < i \<Longrightarrow> \<not> starts_with (drop j s) p"
proof (induction s p arbitrary: i j rule: find_sub.induct)
  case (2 c s p)
  then show ?case
    by (cases j) (auto split: if_splits)
qed (auto split: if_splits)

lemma find_sub_None_iff:
  "find_sub s p = None \<longleftrightarrow> (\<forall>u v. s \<noteq> u @ p @ v)"
proof (induction s p rule: find_sub.induct)
  case (2 c s p)
  show ?case
  proof (cases "starts_with (c # s) p")
    case True
    then obtain t where "c # s = [] @ p @ t" by (auto simp: starts_with_iff)
    then have "\<exists>u v. c # s = u @ p @ v" by blast
    with True show ?thesis by simp
  next
    case False
    then have "(\<exists>u v. c # s = u @ p @ v) \<longleftrightarrow> (\<exists>u v. s = u @ p @ v)"
      by (auto simp: starts_with_iff Cons_eq_append_conv)
    with False 2 show ?thesis by auto
  qed
qed auto

text \<open>\<open>str::replace\<close>: non-overlapping occurrences, left to right; an empty pattern matches
  between all bytes.  Only non-empty patterns are used by the code's fixed replacements.\<close>

function replace_all :: "rstr \<Rightarrow> rstr \<Rightarrow> rstr \<Rightarrow> rstr" where
  "replace_all [] pat rep = []"
| "replace_all (c # s) pat rep =
     (if pat \<noteq> [] \<and> starts_with (c # s) pat
      then rep @ replace_all (drop (length pat) (c # s)) pat rep
      else c # replace_all s pat rep)"
  by pat_completeness auto
termination
  by (relation "measure (\<lambda>(s, pat, rep). length s)") auto

text \<open>Replacing one byte by a text.\<close>

definition replace_char :: "char \<Rightarrow> rstr \<Rightarrow> rstr \<Rightarrow> rstr" where
  "replace_char c rep s = concat (map (\<lambda>d. if d = c then rep else [d]) s)"

lemma replace_all_single: "replace_all s [c] rep = replace_char c rep s"
  by (induction s "[c]" rep rule: replace_all.induct) (auto simp: replace_char_def)

section \<open>Decimal numbers\<close>

definition digit_char :: "nat \<Rightarrow> char" where
  "digit_char d = char_of (48 + d)"

definition is_digit :: "char \<Rightarrow> bool" where
  "is_digit c = (48 \<le> (of_char c :: nat) \<and> (of_char c :: nat) \<le> 57)"

definition digit_val :: "char \<Rightarrow> nat" where
  "digit_val c = of_char c - 48"

lemma of_char_digit_char: "d < 10 \<Longrightarrow> (of_char (digit_char d) :: nat) = 48 + d"
  by (simp add: digit_char_def)

lemma is_digit_digit_char [simp]: "d < 10 \<Longrightarrow> is_digit (digit_char d)"
  by (simp add: is_digit_def of_char_digit_char)

lemma digit_val_digit_char [simp]: "d < 10 \<Longrightarrow> digit_val (digit_char d) = d"
  by (simp add: digit_val_def of_char_digit_char)

lemma digit_val_less: "is_digit c \<Longrightarrow> digit_val c < 10"
  unfolding is_digit_def digit_val_def by linarith

lemma digit_char_inject: "a < 10 \<Longrightarrow> b < 10 \<Longrightarrow> digit_char a = digit_char b \<longleftrightarrow> a = b"
  by (metis digit_val_digit_char)

fun dec_nat :: "nat \<Rightarrow> rstr" where
  "dec_nat n = (if n < 10 then [digit_char n] else dec_nat (n div 10) @ [digit_char (n mod 10)])"

declare dec_nat.simps [simp del]

definition digits_val :: "rstr \<Rightarrow> nat" where
  "digits_val s = foldl (\<lambda>a c. a * 10 + digit_val c) 0 s"

lemma digits_val_snoc: "digits_val (s @ [c]) = digits_val s * 10 + digit_val c"
  by (simp add: digits_val_def)

lemma digits_val_dec_nat [simp]: "digits_val (dec_nat n) = n"
proof (induction n rule: dec_nat.induct)
  case (1 n)
  show ?case
  proof (cases "n < 10")
    case True
    then show ?thesis by (simp add: dec_nat.simps [of n] digits_val_def)
  next
    case False
    then have "dec_nat n = dec_nat (n div 10) @ [digit_char (n mod 10)]"
      by (simp add: dec_nat.simps [of n])
    with False "1.IH" show ?thesis by (simp add: digits_val_snoc)
  qed
qed

lemma dec_nat_digits: "\<forall>c \<in> set (dec_nat n). is_digit c"
proof (induction n rule: dec_nat.induct)
  case (1 n)
  then show ?case
    by (cases "n < 10") (simp_all add: dec_nat.simps [of n])
qed

lemma dec_nat_nonempty [simp]: "dec_nat n \<noteq> []"
  by (cases "n < 10") (simp_all add: dec_nat.simps [of n])

lemma dec_nat_inject [simp]: "dec_nat a = dec_nat b \<longleftrightarrow> a = b"
  by (metis digits_val_dec_nat)

text \<open>\<open>i64::to_string\<close> and \<open>str::parse::<i64>\<close>.\<close>

definition dec_int :: "int \<Rightarrow> rstr" where
  "dec_int i = (if i < 0 then CHR ''-'' # dec_nat (nat (- i)) else dec_nat (nat i))"

definition i64_to_string :: "i64 \<Rightarrow> rstr" where
  "i64_to_string n = dec_int (sint n)"

definition i64_min :: int where "i64_min = - 9223372036854775808"
definition i64_max :: int where "i64_max = 9223372036854775807"

definition parse_int :: "rstr \<Rightarrow> int option" where
  "parse_int s =
     (let neg = (s \<noteq> [] \<and> hd s = CHR ''-'');
          ds = (if s \<noteq> [] \<and> (hd s = CHR ''-'' \<or> hd s = CHR ''+'') then tl s else s)
      in if ds = [] \<or> (\<exists>c \<in> set ds. \<not> is_digit c) then None
         else Some (if neg then - int (digits_val ds) else int (digits_val ds)))"

definition parse_i64 :: "rstr \<Rightarrow> i64 option" where
  "parse_i64 s = (case parse_int s of
      None \<Rightarrow> None
    | Some i \<Rightarrow> if i64_min \<le> i \<and> i \<le> i64_max then Some (word_of_int i) else None)"

lemma dec_nat_hd: "hd (dec_nat n) \<noteq> CHR ''-'' \<and> hd (dec_nat n) \<noteq> CHR ''+''"
proof -
  have "is_digit (hd (dec_nat n))"
    using dec_nat_digits [of n] hd_in_set [OF dec_nat_nonempty [of n]] by blast
  then show ?thesis by (auto simp: is_digit_def)
qed

lemma parse_int_dec_int [simp]: "parse_int (dec_int i) = Some i"
proof (cases "i < 0")
  case True
  then show ?thesis
    using dec_nat_digits [of "nat (- i)"] by (auto simp: parse_int_def dec_int_def Let_def)
next
  case False
  then show ?thesis
    using dec_nat_digits [of "nat i"] dec_nat_hd [of "nat i"]
    by (auto simp: parse_int_def dec_int_def Let_def)
qed

lemma sint64_bounds: "i64_min \<le> sint (n :: i64) \<and> sint n \<le> i64_max"
  using sint_greater_eq [of n] sint_lt [of n] by (simp add: i64_min_def i64_max_def)

lemma parse_i64_to_string [simp]: "parse_i64 (i64_to_string n) = Some n"
  using sint64_bounds [of n] by (simp add: parse_i64_def i64_to_string_def)

lemma i64_to_string_inject [simp]: "i64_to_string a = i64_to_string b \<longleftrightarrow> a = b"
  by (metis option.inject parse_i64_to_string)

text \<open>\<open>{:0w}\<close>: decimal, padded with zeros to \<open>w\<close> places.\<close>

definition pad_dec :: "nat \<Rightarrow> nat \<Rightarrow> rstr" where
  "pad_dec w n = replicate (w - length (dec_nat n)) CHR ''0'' @ dec_nat n"

section \<open>Length-prefixed text\<close>

text \<open>
  \<open>format!("{}:{}", s.len(), s)\<close>: the byte length in decimal, a colon, the bytes.
\<close>

definition len_prefixed :: "rstr \<Rightarrow> rstr" where
  "len_prefixed s = dec_nat (length s) @ CHR '':'' # s"

lemma not_digit_colon [simp]: "\<not> is_digit CHR '':''"
  by (simp add: is_digit_def)

lemma takeWhile_dec_colon:
  "takeWhile is_digit (dec_nat n @ CHR '':'' # xs) = dec_nat n"
  using dec_nat_digits [of n] by (simp add: takeWhile_append2)

lemma dec_colon_inject:
  assumes "dec_nat a @ CHR '':'' # xs = dec_nat b @ CHR '':'' # ys"
  shows "a = b \<and> xs = ys"
proof -
  have "dec_nat a = dec_nat b"
    using assms takeWhile_dec_colon by metis
  then show ?thesis using assms by simp
qed

text \<open>
  An encoding is self-delimiting when it can be read off the front of any text: two encoded
  values followed by anything agree only if the values do (up to \<open>same\<close>) and so do the
  remainders.  \<open>pk_key\<close> concatenates such encodings without a separator.
\<close>

locale self_delimiting =
  fixes enc :: "'a \<Rightarrow> 'c list" and same :: "'a \<Rightarrow> 'a \<Rightarrow> bool"
  assumes split_front: "enc a @ xs = enc b @ ys \<Longrightarrow> same a b \<and> xs = ys"
    and same_enc: "same a b \<Longrightarrow> enc a = enc b"
begin

lemma enc_eq_iff: "enc a = enc b \<longleftrightarrow> same a b"
  using split_front [of a "[]" b "[]"] same_enc [of a b] by auto

lemma concat_split:
  "length as = length bs \<Longrightarrow> concat (map enc as) @ xs = concat (map enc bs) @ ys \<Longrightarrow>
     list_all2 same as bs \<and> xs = ys"
proof (induction as bs rule: list_induct2)
  case Nil
  then show ?case by simp
next
  case (Cons a as b bs)
  from Cons.prems have "enc a @ (concat (map enc as) @ xs) = enc b @ (concat (map enc bs) @ ys)"
    by simp
  then have "same a b" and "concat (map enc as) @ xs = concat (map enc bs) @ ys"
    using split_front by blast+
  with Cons.IH show ?case by simp
qed

lemma concat_enc_same:
  "list_all2 same as bs \<Longrightarrow> concat (map enc as) = concat (map enc bs)"
  by (induction rule: list_all2_induct) (auto simp: same_enc)

lemma concat_enc_eq_iff:
  "length as = length bs \<Longrightarrow> concat (map enc as) = concat (map enc bs) \<longleftrightarrow> list_all2 same as bs"
  using concat_split [of as bs "[]" "[]"] concat_enc_same by auto

lemma concat_unbounded:
  assumes "\<And>a. enc a \<noteq> []"
  shows "concat (map enc as) = concat (map enc bs) \<Longrightarrow> list_all2 same as bs"
proof (induction as arbitrary: bs)
  case Nil
  then show ?case using assms by (cases bs) auto
next
  case (Cons a as)
  from Cons.prems assms obtain b bs' where bs: "bs = b # bs'"
    by (cases bs) auto
  with Cons.prems have "same a b" and "concat (map enc as) = concat (map enc bs')"
    using split_front [of a "concat (map enc as)" b "concat (map enc bs')"] by auto
  with Cons.IH bs show ?case by simp
qed

end

interpretation lp: self_delimiting len_prefixed "(=)"
proof
  fix a b xs ys
  assume "len_prefixed a @ xs = len_prefixed b @ ys"
  then have "dec_nat (length a) @ CHR '':'' # (a @ xs) = dec_nat (length b) @ CHR '':'' # (b @ ys)"
    by (simp add: len_prefixed_def)
  then have "length a = length b" and "a @ xs = b @ ys"
    using dec_colon_inject by blast+
  then show "a = b \<and> xs = ys" by simp
qed simp

lemma len_prefixed_nonempty [simp]: "len_prefixed s \<noteq> []"
  by (simp add: len_prefixed_def)

lemma concat_len_prefixed_inject [simp]:
  "concat (map len_prefixed as) = concat (map len_prefixed bs) \<longleftrightarrow> as = bs"
  using lp.concat_unbounded [of as bs] by (auto simp: list.rel_eq)

end
