(* ===== verification/Utf8.thy ===== *)
theory Utf8
  imports A3Prelude
begin

text \<open>
  UTF-8: a Rust \<open>str\<close> is a byte string whose decoding has no error.  This theory models the
  decoder of the standard library (\<open>chars\<close>, \<open>from_utf8\<close>, \<open>from_utf8_lossy\<close>), the encoder
  (\<open>String::push\<close>, \<open>collect\<close>), trimming, and case mapping.  Case mapping beyond ASCII needs the
  Unicode tables, which are a parameter: a record of functions, used on non-ASCII text only.
\<close>

section \<open>Bytes and scalar values\<close>

type_synonym uchar = nat

definition bytes_of :: "rstr \<Rightarrow> nat list" where
  "bytes_of s = map of_char s"

definition str_of :: "nat list \<Rightarrow> rstr" where
  "str_of bs = map char_of bs"

lemma length_bytes_of [simp]: "length (bytes_of s) = length s"
  by (simp add: bytes_of_def)

lemma bytes_of_append [simp]: "bytes_of (a @ b) = bytes_of a @ bytes_of b"
  by (simp add: bytes_of_def)

lemma str_of_append [simp]: "str_of (a @ b) = str_of a @ str_of b"
  by (simp add: str_of_def)

lemma bytes_of_str_of: "\<forall>b \<in> set bs. b < 256 \<Longrightarrow> bytes_of (str_of bs) = bs"
  by (simp add: bytes_of_def str_of_def list_eq_iff_nth_eq)

lemma str_of_bytes_of [simp]: "str_of (bytes_of s) = s"
  by (simp add: bytes_of_def str_of_def list_eq_iff_nth_eq)

definition is_scalar :: "uchar \<Rightarrow> bool" where
  "is_scalar c = (c < 55296 \<or> (57344 \<le> c \<and> c < 1114112))"

section \<open>Decoder\<close>

definition is_cont :: "nat \<Rightarrow> bool" where
  "is_cont b = (128 \<le> b \<and> b < 192)"

text \<open>The second byte allowed after a three-byte and a four-byte lead.\<close>

definition second3_ok :: "nat \<Rightarrow> nat \<Rightarrow> bool" where
  "second3_ok a b = (is_cont b \<and> (a = 224 \<longrightarrow> 160 \<le> b) \<and> (a = 237 \<longrightarrow> b < 160))"

definition second4_ok :: "nat \<Rightarrow> nat \<Rightarrow> bool" where
  "second4_ok a b = (is_cont b \<and> (a = 240 \<longrightarrow> 144 \<le> b) \<and> (a = 244 \<longrightarrow> b < 144))"

text \<open>One step: the character (or an error) and the number of bytes it takes.\<close>

fun step2 :: "nat \<Rightarrow> nat list \<Rightarrow> uchar option \<times> nat" where
  "step2 a (b # _) = (if is_cont b then (Some ((a - 192) * 64 + (b - 128)), 2) else (None, 1))"
| "step2 a [] = (None, 1)"

fun step3 :: "nat \<Rightarrow> nat list \<Rightarrow> uchar option \<times> nat" where
  "step3 a (b # c # _) =
     (if second3_ok a b
      then if is_cont c then (Some ((a - 224) * 4096 + (b - 128) * 64 + (c - 128)), 3) else (None, 2)
      else (None, 1))"
| "step3 a [b] = (None, if second3_ok a b then 2 else 1)"
| "step3 a [] = (None, 1)"

fun step4 :: "nat \<Rightarrow> nat list \<Rightarrow> uchar option \<times> nat" where
  "step4 a (b # c # d # _) =
     (if second4_ok a b
      then if is_cont c
           then if is_cont d
                then (Some ((a - 240) * 262144 + (b - 128) * 4096 + (c - 128) * 64 + (d - 128)), 4)
                else (None, 3)
           else (None, 2)
      else (None, 1))"
| "step4 a [b, c] = (None, if second4_ok a b then (if is_cont c then 3 else 2) else 1)"
| "step4 a [b] = (None, if second4_ok a b then 2 else 1)"
| "step4 a [] = (None, 1)"

definition utf8_step :: "nat \<Rightarrow> nat list \<Rightarrow> uchar option \<times> nat" where
  "utf8_step a bs =
     (if a < 128 then (Some a, 1)
      else if 194 \<le> a \<and> a \<le> 223 then step2 a bs
      else if 224 \<le> a \<and> a \<le> 239 then step3 a bs
      else if 240 \<le> a \<and> a \<le> 244 then step4 a bs
      else (None, 1))"

lemma step2_pos: "0 < snd (step2 a bs)" by (cases "(a, bs)" rule: step2.cases) auto
lemma step3_pos: "0 < snd (step3 a bs)" by (cases "(a, bs)" rule: step3.cases) auto
lemma step4_pos: "0 < snd (step4 a bs)" by (cases "(a, bs)" rule: step4.cases) auto

lemma utf8_step_pos: "0 < snd (utf8_step a bs)"
  by (simp add: utf8_step_def step2_pos step3_pos step4_pos)

function utf8_decode :: "nat list \<Rightarrow> uchar option list" where
  "utf8_decode [] = []"
| "utf8_decode (a # bs) =
     fst (utf8_step a bs) # utf8_decode (drop (snd (utf8_step a bs) - 1) bs)"
  by pat_completeness auto
termination
  by (relation "measure length") auto

definition valid_utf8 :: "nat list \<Rightarrow> bool" where
  "valid_utf8 bs = (None \<notin> set (utf8_decode bs))"

text \<open>\<open>str::chars\<close>.\<close>

definition chars :: "rstr \<Rightarrow> uchar list" where
  "chars s = map (\<lambda>c. case c of Some u \<Rightarrow> u | None \<Rightarrow> 65533) (utf8_decode (bytes_of s))"

section \<open>Encoder\<close>

definition utf8_encode_char :: "uchar \<Rightarrow> nat list" where
  "utf8_encode_char c =
     (if c < 128 then [c]
      else if c < 2048 then [192 + c div 64, 128 + c mod 64]
      else if c < 65536 then [224 + c div 4096, 128 + c div 64 mod 64, 128 + c mod 64]
      else [240 + c div 262144, 128 + c div 4096 mod 64, 128 + c div 64 mod 64, 128 + c mod 64])"

definition utf8 :: "uchar list \<Rightarrow> rstr" where
  "utf8 cs = str_of (concat (map utf8_encode_char cs))"

lemma utf8_Nil [simp]: "utf8 [] = []"
  by (simp add: utf8_def str_of_def)

lemma utf8_append [simp]: "utf8 (a @ b) = utf8 a @ utf8 b"
  by (simp add: utf8_def)

text \<open>\<open>String::from_utf8_lossy\<close>: each maximal invalid piece becomes U+FFFD.\<close>

definition from_utf8_lossy :: "rstr \<Rightarrow> rstr" where
  "from_utf8_lossy s = utf8 (chars s)"

lemma utf8_encode_char_byte: "is_scalar c \<Longrightarrow> b \<in> set (utf8_encode_char c) \<Longrightarrow> b < 256"
  by (auto simp: utf8_encode_char_def is_scalar_def split: if_splits)

lemma utf8_decode_encode_char:
  assumes c: "is_scalar c"
  shows "utf8_decode (utf8_encode_char c @ bs) = Some c # utf8_decode bs"
proof -
  consider "c < 128" | "128 \<le> c" "c < 2048" | "2048 \<le> c" "c < 65536" | "65536 \<le> c" by linarith
  then show ?thesis
  proof cases
    case 1
    then show ?thesis by (simp add: utf8_encode_char_def utf8_step_def)
  next
    case 2
    have "c div 64 * 64 + c mod 64 = c" by simp
    moreover have "2 \<le> c div 64" "c div 64 < 32" using 2 by auto
    ultimately show ?thesis
      using 2 by (simp add: utf8_encode_char_def utf8_step_def is_cont_def)
  next
    case 3
    define x y z where "x = c div 4096" and "y = c div 64 mod 64" and "z = c mod 64"
    have v: "x * 4096 + y * 64 + z = c"
    proof -
      have "c div 64 = x * 64 + y"
        unfolding x_def y_def using div_mult_mod_eq [of "c div 64" 64] div_mult2_eq [of c 64 64] by simp
      then show ?thesis unfolding z_def using div_mult_mod_eq [of c 64] by linarith
    qed
    have x: "x < 16" using 3 by (simp add: x_def)
    have y: "y < 64" and z: "z < 64" by (simp_all add: y_def z_def)
    have s: "second3_ok (224 + x) (128 + y)"
      using v x y z 3 c by (auto simp: second3_ok_def is_cont_def is_scalar_def)
    show ?thesis
      using 3 x y z s v
      by (simp add: utf8_encode_char_def utf8_step_def is_cont_def x_def [symmetric] y_def [symmetric] z_def [symmetric])
  next
    case 4
    define w x y z where "w = c div 262144" and "x = c div 4096 mod 64" and "y = c div 64 mod 64" and "z = c mod 64"
    have v: "w * 262144 + x * 4096 + y * 64 + z = c"
    proof -
      have "c div 4096 = w * 64 + x"
        unfolding w_def x_def using div_mult_mod_eq [of "c div 4096" 64] div_mult2_eq [of c 4096 64] by simp
      moreover have "c div 64 = c div 4096 * 64 + y"
        unfolding y_def using div_mult_mod_eq [of "c div 64" 64] div_mult2_eq [of c 64 64] by simp
      ultimately show ?thesis unfolding z_def using div_mult_mod_eq [of c 64] by linarith
    qed
    have w: "w < 5" using 4 c by (auto simp: w_def is_scalar_def)
    have x: "x < 64" and y: "y < 64" and z: "z < 64" by (simp_all add: x_def y_def z_def)
    have s: "second4_ok (240 + w) (128 + x)"
      using v x y z w 4 c by (auto simp: second4_ok_def is_cont_def is_scalar_def)
    show ?thesis
      using 4 w x y z s v
      by (simp add: utf8_encode_char_def utf8_step_def is_cont_def w_def [symmetric] x_def [symmetric] y_def [symmetric] z_def [symmetric])
  qed
qed

lemma utf8_decode_encode:
  "\<forall>c \<in> set cs. is_scalar c \<Longrightarrow>
     utf8_decode (concat (map utf8_encode_char cs) @ bs) = map Some cs @ utf8_decode bs"
  by (induction cs) (auto simp: utf8_decode_encode_char)

lemma bytes_of_utf8: "\<forall>c \<in> set cs. is_scalar c \<Longrightarrow> bytes_of (utf8 cs) = concat (map utf8_encode_char cs)"
  unfolding utf8_def by (rule bytes_of_str_of) (auto dest: utf8_encode_char_byte)

lemma chars_utf8 [simp]: "\<forall>c \<in> set cs. is_scalar c \<Longrightarrow> chars (utf8 cs) = cs"
  using utf8_decode_encode [of cs "[]"] by (simp add: chars_def bytes_of_utf8 comp_def)

lemma valid_utf8_utf8: "\<forall>c \<in> set cs. is_scalar c \<Longrightarrow> valid_utf8 (bytes_of (utf8 cs))"
  using utf8_decode_encode [of cs "[]"] by (auto simp: valid_utf8_def bytes_of_utf8)

section \<open>ASCII text\<close>

definition is_ascii :: "rstr \<Rightarrow> bool" where
  "is_ascii s = (\<forall>c \<in> set s. (of_char c :: nat) < 128)"

lemma utf8_decode_ascii: "\<forall>b \<in> set bs. b < 128 \<Longrightarrow> utf8_decode bs = map Some bs"
  by (induction bs) (auto simp: utf8_step_def)

lemma chars_ascii: "is_ascii s \<Longrightarrow> chars s = bytes_of s"
  by (simp add: chars_def is_ascii_def utf8_decode_ascii bytes_of_def comp_def)

lemma utf8_small: "\<forall>c \<in> set cs. c < 128 \<Longrightarrow> utf8 cs = str_of cs"
  by (induction cs) (auto simp: utf8_def utf8_encode_char_def str_of_def)

lemma utf8_chars_ascii: "is_ascii s \<Longrightarrow> utf8 (chars s) = s"
  by (simp add: chars_ascii utf8_small is_ascii_def bytes_of_def str_of_def list_eq_iff_nth_eq)

section \<open>Whitespace and case\<close>

text \<open>\<open>char::is_whitespace\<close>: the Unicode White_Space property.\<close>

definition is_whitespace :: "uchar \<Rightarrow> bool" where
  "is_whitespace c =
     ((9 \<le> c \<and> c \<le> 13) \<or> c = 32 \<or> c = 133 \<or> c = 160 \<or> c = 5760 \<or> (8192 \<le> c \<and> c \<le> 8202)
      \<or> c = 8232 \<or> c = 8233 \<or> c = 8239 \<or> c = 8287 \<or> c = 12288)"

definition trim_start :: "rstr \<Rightarrow> rstr" where
  "trim_start s = utf8 (dropWhile is_whitespace (chars s))"

definition trim_end :: "rstr \<Rightarrow> rstr" where
  "trim_end s = utf8 (rev (dropWhile is_whitespace (rev (chars s))))"

definition trim :: "rstr \<Rightarrow> rstr" where
  "trim s = utf8 (rev (dropWhile is_whitespace (rev (dropWhile is_whitespace (chars s)))))"

text \<open>The Unicode tables: full case mapping and Debug escaping of non-ASCII text, alphabetic and alphanumeric
  characters outside ASCII.\<close>

record unicode =
  uni_lower :: "rstr \<Rightarrow> rstr"
  uni_upper :: "rstr \<Rightarrow> rstr"
  uni_debug :: "rstr \<Rightarrow> rstr"
  uni_alphabetic :: "uchar \<Rightarrow> bool"
  uni_numeric :: "uchar \<Rightarrow> bool"

definition ascii_lower :: "char \<Rightarrow> char" where
  "ascii_lower c = (let n = of_char c :: nat in if 65 \<le> n \<and> n \<le> 90 then char_of (n + 32) else c)"

definition ascii_upper :: "char \<Rightarrow> char" where
  "ascii_upper c = (let n = of_char c :: nat in if 97 \<le> n \<and> n \<le> 122 then char_of (n - 32) else c)"

definition to_ascii_lowercase :: "rstr \<Rightarrow> rstr" where
  "to_ascii_lowercase s = map ascii_lower s"

definition to_ascii_uppercase :: "rstr \<Rightarrow> rstr" where
  "to_ascii_uppercase s = map ascii_upper s"

definition to_lowercase :: "unicode \<Rightarrow> rstr \<Rightarrow> rstr" where
  "to_lowercase U s = (if is_ascii s then to_ascii_lowercase s else uni_lower U s)"

definition to_uppercase :: "unicode \<Rightarrow> rstr \<Rightarrow> rstr" where
  "to_uppercase U s = (if is_ascii s then to_ascii_uppercase s else uni_upper U s)"

definition is_ascii_alphabetic :: "uchar \<Rightarrow> bool" where
  "is_ascii_alphabetic c = ((65 \<le> c \<and> c \<le> 90) \<or> (97 \<le> c \<and> c \<le> 122))"

definition is_ascii_digit :: "uchar \<Rightarrow> bool" where
  "is_ascii_digit c = (48 \<le> c \<and> c \<le> 57)"

definition is_alphanumeric :: "unicode \<Rightarrow> uchar \<Rightarrow> bool" where
  "is_alphanumeric U c =
     (if c < 128 then is_ascii_alphabetic c \<or> is_ascii_digit c
      else uni_alphabetic U c \<or> uni_numeric U c)"

lemma length_to_ascii_lowercase [simp]: "length (to_ascii_lowercase s) = length s"
  by (simp add: to_ascii_lowercase_def)

lemma of_char_ascii_lower:
  "(of_char (ascii_lower c) :: nat) = (let n = of_char c in if 65 \<le> n \<and> n \<le> 90 then n + 32 else n)"
  by (simp add: ascii_lower_def Let_def)

lemma ascii_lower_idem [simp]: "ascii_lower (ascii_lower c) = ascii_lower c"
  by (auto simp: ascii_lower_def [of "ascii_lower c"] of_char_ascii_lower Let_def)

lemma is_ascii_lowercase: "is_ascii s \<Longrightarrow> is_ascii (to_ascii_lowercase s)"
  by (auto simp: is_ascii_def to_ascii_lowercase_def of_char_ascii_lower Let_def)

lemma to_lowercase_idem_ascii: "is_ascii s \<Longrightarrow> to_lowercase U (to_lowercase U s) = to_lowercase U s"
  by (simp add: to_lowercase_def is_ascii_lowercase) (simp add: to_ascii_lowercase_def)

end
