(* ===== verification/EngineErrors.thy ===== *)
theory EngineErrors
  imports Utf8
begin

text \<open>
  \<open>engine/error.rs\<close>: the typed errors of the engine, their messages, the error code each one
  reports over the ABI, and the response strings.  An I/O error is its message.
\<close>

datatype error_code = Ok | Parse | Exec | Table | Type | Pk | Io | Internal | Auth

datatype engine_error =
    TableNotFound rstr
  | TableAlreadyExists rstr
  | ColumnNotFound rstr
  | ColumnNotFoundInTable rstr rstr  \<comment> \<open>name, table\<close>
  | ColumnAlreadyExists rstr
  | NullPrimaryKey rstr
  | DuplicateKey rstr
  | IndexNotFound rstr
  | IndexAlreadyExists rstr
  | ViewNotFound rstr
  | TriggerAlreadyExists rstr
  | ParseError rstr
  | ExecError rstr
  | TypeError rstr rstr  \<comment> \<open>expected, actual\<close>
  | IoError rstr
  | SavepointExists rstr
  | SavepointNotFound rstr
  | InternalError rstr

type_synonym 'a eres = "engine_error + 'a"

text \<open>The \<open>Display\<close> message.\<close>

fun error_message :: "engine_error \<Rightarrow> rstr" where
  "error_message (TableNotFound t) = ''Table '' @ [CHR 39] @ t @ [CHR 39] @ '' does not exist''"
| "error_message (TableAlreadyExists t) = ''Table '' @ [CHR 39] @ t @ [CHR 39] @ '' already exists''"
| "error_message (ColumnNotFound c) = ''Column '' @ [CHR 39] @ c @ [CHR 39] @ '' does not exist''"
| "error_message (ColumnNotFoundInTable c t) =
     ''Column '' @ [CHR 39] @ c @ [CHR 39] @ '' not found in table '' @ [CHR 39] @ t @ [CHR 39] @
     ''. Double quotes delimit identifiers in SQL, not string literals '' @ str_of [226, 128, 148] @
     '' use single quotes for values: '' @ [CHR 39] @ c @ [CHR 39]"
| "error_message (ColumnAlreadyExists c) = ''Column '' @ [CHR 39] @ c @ [CHR 39] @ '' already exists''"
| "error_message (NullPrimaryKey c) = ''NULL value in primary key column '' @ [CHR 39] @ c @ [CHR 39]"
| "error_message (DuplicateKey k) = ''Duplicate key '' @ [CHR 39] @ k @ [CHR 39]"
| "error_message (IndexNotFound i) = ''Index '' @ [CHR 39] @ i @ [CHR 39] @ '' does not exist''"
| "error_message (IndexAlreadyExists i) = ''Index '' @ [CHR 39] @ i @ [CHR 39] @ '' already exists''"
| "error_message (ViewNotFound v) = ''View '' @ [CHR 39] @ v @ [CHR 39] @ '' not found''"
| "error_message (TriggerAlreadyExists t) = ''Trigger '' @ [CHR 39] @ t @ [CHR 39] @ '' already exists''"
| "error_message (ParseError m) = ''Parse error: '' @ m"
| "error_message (ExecError m) = m"
| "error_message (TypeError e a) = ''Type error: expected '' @ e @ '', got '' @ a"
| "error_message (IoError m) = m"
| "error_message (SavepointExists s) = ''Savepoint '' @ [CHR 39] @ s @ [CHR 39] @ '' already exists''"
| "error_message (SavepointNotFound s) = ''Savepoint '' @ [CHR 39] @ s @ [CHR 39] @ '' not found''"
| "error_message (InternalError m) = ''Internal error: '' @ m"

text \<open>\<open>EngineError::code\<close>.\<close>

fun error_code_of :: "engine_error \<Rightarrow> error_code" where
  "error_code_of (TableNotFound _) = Table"
| "error_code_of (TableAlreadyExists _) = Table"
| "error_code_of (ColumnNotFound _) = Table"
| "error_code_of (ColumnNotFoundInTable _ _) = Table"
| "error_code_of (ColumnAlreadyExists _) = Table"
| "error_code_of (DuplicateKey _) = Pk"
| "error_code_of (NullPrimaryKey _) = Pk"
| "error_code_of (IndexNotFound _) = Table"
| "error_code_of (IndexAlreadyExists _) = Table"
| "error_code_of (ViewNotFound _) = Table"
| "error_code_of (TriggerAlreadyExists _) = Exec"
| "error_code_of (ParseError _) = Parse"
| "error_code_of (ExecError _) = Exec"
| "error_code_of (SavepointExists _) = Exec"
| "error_code_of (SavepointNotFound _) = Exec"
| "error_code_of (TypeError _ _) = Type"
| "error_code_of (IoError _) = Io"
| "error_code_of (InternalError _) = Internal"

text \<open>\<open>A3sqlError\<close>: the error at the ABI boundary.\<close>

record a3sql_error =
  err_code :: error_code
  err_message :: rstr

fun code_display :: "error_code \<Rightarrow> rstr" where
  "code_display Ok = ''OK''"
| "code_display Parse = ''ERR_PARSE''"
| "code_display Exec = ''ERR_EXEC''"
| "code_display Table = ''ERR_TABLE''"
| "code_display Type = ''ERR_TYPE''"
| "code_display Pk = ''ERR_PK''"
| "code_display Io = ''ERR_IO''"
| "code_display Internal = ''ERR_INTERNAL''"
| "code_display Auth = ''ERR_AUTH''"

definition code_from_str :: "unicode \<Rightarrow> rstr \<Rightarrow> error_code option" where
  "code_from_str U s =
     (let u = to_uppercase U s
      in if u = ''OK'' then Some Ok
         else if u = ''ERR_PARSE'' \<or> u = ''PARSE'' then Some Parse
         else if u = ''ERR_EXEC'' \<or> u = ''EXEC'' then Some Exec
         else if u = ''ERR_TABLE'' \<or> u = ''TABLE'' then Some Table
         else if u = ''ERR_TYPE'' \<or> u = ''TYPE'' then Some Type
         else if u = ''ERR_PK'' \<or> u = ''PK'' then Some Pk
         else if u = ''ERR_IO'' \<or> u = ''IO'' then Some Io
         else if u = ''ERR_INTERNAL'' \<or> u = ''INTERNAL'' then Some Internal
         else if u = ''ERR_AUTH'' \<or> u = ''AUTH'' then Some Auth
         else None)"

definition a3sql_error_of :: "engine_error \<Rightarrow> a3sql_error" where
  "a3sql_error_of e = \<lparr>err_code = error_code_of e, err_message = error_message e\<rparr>"

text \<open>\<open>From<(&str, String)>\<close>: an unknown code becomes \<open>Internal\<close>.\<close>

definition a3sql_error_from :: "unicode \<Rightarrow> rstr \<Rightarrow> rstr \<Rightarrow> a3sql_error" where
  "a3sql_error_from U code msg =
     \<lparr>err_code = (case code_from_str U code of Some c \<Rightarrow> c | None \<Rightarrow> Internal), err_message = msg\<rparr>"

definition error_response :: "error_code \<Rightarrow> rstr \<Rightarrow> rstr" where
  "error_response c msg = ''[-1,'' @ [CHR 34] @ code_display c @ [CHR 34] @ '','' @ [CHR 34] @ msg @ [CHR 34] @ '']''"

definition to_response :: "a3sql_error \<Rightarrow> rstr" where
  "to_response e = error_response (err_code e) (err_message e)"

definition a3sql_error_display :: "a3sql_error \<Rightarrow> rstr" where
  "a3sql_error_display e = code_display (err_code e) @ '': '' @ err_message e"

definition ok_response :: "rstr \<Rightarrow> rstr" where
  "ok_response data = ''[0,'' @ [CHR 34] @ ''OK'' @ [CHR 34] @ '','' @ data @ '']''"

text \<open>Bridges between \<open>String\<close> errors and engine errors.\<close>

definition lift_string_error :: "'a sres \<Rightarrow> 'a eres" where
  "lift_string_error r = (case r of Inl m \<Rightarrow> Inl (ExecError m) | Inr x \<Rightarrow> Inr x)"

definition drop_to_string :: "'a eres \<Rightarrow> 'a sres" where
  "drop_to_string r = (case r of Inl e \<Rightarrow> Inl (error_message e) | Inr x \<Rightarrow> Inr x)"

lemma code_display_ascii: "is_ascii (code_display c)"
  by (cases c) (simp_all add: is_ascii_def)

lemma code_display_upper: "to_uppercase U (code_display c) = code_display c"
  by (cases c) (simp_all add: to_uppercase_def code_display_ascii is_ascii_def to_ascii_uppercase_def ascii_upper_def)

lemma code_from_display: "code_from_str U (code_display c) = Some c"
  by (cases c) (simp_all add: code_from_str_def code_display_upper Let_def
      code_display_upper [of U Ok, simplified] code_display_upper [of U Parse, simplified]
      code_display_upper [of U Exec, simplified] code_display_upper [of U Table, simplified]
      code_display_upper [of U Type, simplified] code_display_upper [of U Pk, simplified]
      code_display_upper [of U Io, simplified] code_display_upper [of U Internal, simplified]
      code_display_upper [of U Auth, simplified])

lemma lift_drop_message: "drop_to_string (lift_string_error r) = r"
  by (cases r) (simp_all add: drop_to_string_def lift_string_error_def)

end
