(* ===== verification/Float64.thy ===== *)
theory Float64
  imports Utf8
begin

text \<open>
  Rust's \<open>f64\<close>, on its bits.  A value is the 64-bit word that \<open>to_bits\<close> returns: bit 63
  the sign, bits 52 to 62 the biased exponent, the rest the fraction.  Every operation the
  engine uses is defined on integers: a finite double is an exact fraction, arithmetic computes
  the exact result and rounds once (to nearest, ties to even), comparison is on the
  sign-magnitude reading, \<open>as i64\<close> truncates and saturates.  A NaN that an operation produces
  is the canonical quiet one (Rust leaves its payload unspecified).  Sizes are bounded by the
  format, so all recursions are on bit lengths.
\<close>

section \<open>Format\<close>

type_synonym f64 = "64 word"

definition f64_sign :: "f64 \<Rightarrow> bool" where
  "f64_sign x = (2 ^ 63 \<le> unat x)"

definition f64_mag :: "f64 \<Rightarrow> nat" where
  "f64_mag x = unat x mod 2 ^ 63"

definition f64_of_mag :: "bool \<Rightarrow> nat \<Rightarrow> f64" where
  "f64_of_mag s m = word_of_nat (if s then 2 ^ 63 + m else m)"

text \<open>The magnitude of infinity; NaNs lie above it.\<close>

definition inf_mag :: nat where
  "inf_mag = 2047 * 2 ^ 52"

definition f64_is_nan :: "f64 \<Rightarrow> bool" where
  "f64_is_nan x = (inf_mag < f64_mag x)"

definition f64_is_inf :: "f64 \<Rightarrow> bool" where
  "f64_is_inf x = (f64_mag x = inf_mag)"

definition f64_is_finite :: "f64 \<Rightarrow> bool" where
  "f64_is_finite x = (f64_mag x < inf_mag)"

definition f64_is_zero :: "f64 \<Rightarrow> bool" where
  "f64_is_zero x = (f64_mag x = 0)"

definition f64_nan :: f64 where "f64_nan = f64_of_mag False (inf_mag + 2 ^ 51)"
definition f64_zero :: f64 where "f64_zero = 0"

definition f64_neg :: "f64 \<Rightarrow> f64" where
  "f64_neg x = f64_of_mag (\<not> f64_sign x) (f64_mag x)"

definition f64_abs :: "f64 \<Rightarrow> f64" where
  "f64_abs x = f64_of_mag False (f64_mag x)"

lemma f64_mag_less: "f64_mag x < 2 ^ 63"
  by (simp add: f64_mag_def)

lemma f64_decompose: "f64_of_mag (f64_sign x) (f64_mag x) = x"
proof -
  have b: "unat x < 2 ^ 64" using unsigned_less [of x, where ?'a = nat] by simp
  have "(if f64_sign x then 2 ^ 63 + f64_mag x else f64_mag x) = unat x"
  proof (cases "f64_sign x")
    case True
    then have "unat x div 2 ^ 63 = 1"
      using b by (simp add: f64_sign_def div_eq_dividend_iff div_nat_eqI)
    then have "unat x = 2 ^ 63 + unat x mod 2 ^ 63"
      using mult_div_mod_eq [of "2 ^ 63" "unat x"] by simp
    with True show ?thesis by (simp add: f64_mag_def)
  next
    case False
    then show ?thesis by (simp add: f64_sign_def f64_mag_def)
  qed
  then show ?thesis by (simp add: f64_of_mag_def)
qed

lemma unat_f64_of_mag:
  "m < 2 ^ 63 \<Longrightarrow> unat (f64_of_mag s m) = (if s then 2 ^ 63 + m else m)"
  by (simp add: f64_of_mag_def unat_of_nat)

lemma f64_sign_of_mag [simp]: "m < 2 ^ 63 \<Longrightarrow> f64_sign (f64_of_mag s m) = s"
  by (auto simp: f64_sign_def unat_f64_of_mag)

lemma f64_mag_of_mag [simp]: "m < 2 ^ 63 \<Longrightarrow> f64_mag (f64_of_mag s m) = m"
  by (auto simp: f64_mag_def unat_f64_of_mag)

lemma f64_eqI:
  assumes "f64_sign x = f64_sign y" and "f64_mag x = f64_mag y"
  shows "x = y"
proof -
  have "f64_of_mag (f64_sign x) (f64_mag x) = f64_of_mag (f64_sign y) (f64_mag y)"
    by (simp only: assms)
  then show ?thesis by (simp only: f64_decompose)
qed

section \<open>Values as exact fractions\<close>

text \<open>
  A finite double has magnitude \<open>f64_sig x * 2 ^ (f64_bexp x) / 2 ^ 1074\<close>: significand and
  the exponent of its last place above the smallest subnormal.
\<close>

definition f64_sig :: "nat \<Rightarrow> nat" where
  "f64_sig m = (if m < 2 ^ 52 then m else 2 ^ 52 + m mod 2 ^ 52)"

definition f64_bexp :: "nat \<Rightarrow> nat" where
  "f64_bexp m = (if m < 2 ^ 52 then 0 else m div 2 ^ 52 - 1)"

text \<open>The magnitude in units of \<open>2 ^ -1074\<close>, an exact natural number.\<close>

definition f64_units :: "nat \<Rightarrow> nat" where
  "f64_units m = f64_sig m * 2 ^ f64_bexp m"

definition f64_unit_den :: nat where
  "f64_unit_den = 2 ^ 1074"

text \<open>The signed value in units of \<open>2 ^ -1074\<close>.\<close>

definition f64_num :: "f64 \<Rightarrow> int" where
  "f64_num x = (if f64_sign x then - int (f64_units (f64_mag x)) else int (f64_units (f64_mag x)))"

lemma f64_units_step: "f64_units m < f64_units (Suc m)"
proof -
  consider "Suc m < 2 ^ 52" | "Suc m = 2 ^ 52" | "2 ^ 52 \<le> m" by linarith
  then show ?thesis
  proof cases
    case 1
    then show ?thesis by (simp add: f64_units_def f64_sig_def f64_bexp_def)
  next
    case 2
    then show ?thesis by (simp add: f64_units_def f64_sig_def f64_bexp_def)
  next
    case 3
    define e r where "e = m div 2 ^ 52" and "r = m mod 2 ^ 52"
    have m: "m = 2 ^ 52 * e + r" and r: "r < 2 ^ 52"
      by (simp_all add: e_def r_def)
    have e: "1 \<le> e" using 3 by (simp add: e_def div_greater_zero_iff Suc_le_eq)
    show ?thesis
    proof (cases "Suc r < 2 ^ 52")
      case True
      then have "Suc m div 2 ^ 52 = e" and "Suc m mod 2 ^ 52 = Suc r"
        using m by (simp_all add: div_nat_eqI mod_nat_eqI)
      moreover have "m div 2 ^ 52 = e" and "m mod 2 ^ 52 = r" by (simp_all add: e_def r_def)
      ultimately show ?thesis
        using 3 by (simp add: f64_units_def f64_sig_def f64_bexp_def)
    next
      case False
      then have "r = 2 ^ 52 - 1" using r by simp
      then have "Suc m = 2 ^ 52 * Suc e" using m by simp
      then have "Suc m div 2 ^ 52 = Suc e" and "Suc m mod 2 ^ 52 = 0"
        by (simp_all only: nonzero_mult_div_cancel_left mod_mult_self1_is_0) simp_all
      moreover have "m div 2 ^ 52 = e" and "m mod 2 ^ 52 = r" by (simp_all add: e_def r_def)
      moreover obtain k where "e = Suc k" using e by (cases e) auto
      ultimately show ?thesis
        using 3 r by (simp add: f64_units_def f64_sig_def f64_bexp_def)
    qed
  qed
qed

lemma f64_units_mono: "m < n \<Longrightarrow> f64_units m < f64_units n"
  by (rule lift_Suc_mono_less) (rule f64_units_step)

lemma f64_units_less_iff: "f64_units m < f64_units n \<longleftrightarrow> m < n"
  using f64_units_mono by (metis less_irrefl linorder_neqE_nat order.strict_trans)

lemma f64_units_eq_iff: "f64_units m = f64_units n \<longleftrightarrow> m = n"
  using f64_units_less_iff by (metis less_irrefl linorder_neqE_nat)

lemma f64_units_0 [simp]: "f64_units 0 = 0"
  by (simp add: f64_units_def f64_sig_def)

section \<open>Comparison\<close>

datatype ordering = Less | Equal | Greater

fun ord_reverse :: "ordering \<Rightarrow> ordering" where
  "ord_reverse Less = Greater"
| "ord_reverse Equal = Equal"
| "ord_reverse Greater = Less"

definition cmp :: "'a::linorder \<Rightarrow> 'a \<Rightarrow> ordering" where
  "cmp a b = (if a < b then Less else if a = b then Equal else Greater)"

lemma cmp_simps [simp]:
  "cmp a b = Less \<longleftrightarrow> a < b"
  "cmp a b = Equal \<longleftrightarrow> a = b"
  "cmp a b = Greater \<longleftrightarrow> b < a"
  by (auto simp: cmp_def)

lemma cmp_refl [simp]: "cmp a a = Equal"
  by simp

lemma ord_reverse_cmp: "ord_reverse (cmp a b) = cmp b a"
  by (auto simp: cmp_def)

text \<open>Sign-magnitude key: both zeros are 0, the infinities are beyond every finite value.\<close>

definition f64_key :: "f64 \<Rightarrow> int" where
  "f64_key x = (if f64_sign x then - int (f64_mag x) else int (f64_mag x))"

definition f64_partial_cmp :: "f64 \<Rightarrow> f64 \<Rightarrow> ordering option" where
  "f64_partial_cmp x y =
     (if f64_is_nan x \<or> f64_is_nan y then None else Some (cmp (f64_key x) (f64_key y)))"

definition f64_eq :: "f64 \<Rightarrow> f64 \<Rightarrow> bool" where
  "f64_eq x y = (f64_partial_cmp x y = Some Equal)"

definition f64_lt :: "f64 \<Rightarrow> f64 \<Rightarrow> bool" where
  "f64_lt x y = (f64_partial_cmp x y = Some Less)"

definition f64_ge :: "f64 \<Rightarrow> f64 \<Rightarrow> bool" where
  "f64_ge x y = (f64_partial_cmp x y = Some Equal \<or> f64_partial_cmp x y = Some Greater)"

text \<open>On finite values the key order is the order of the exact values.\<close>

lemma f64_key_value_less: "f64_key x < f64_key y \<longleftrightarrow> f64_num x < f64_num y"
proof -
  have z: "f64_units m = 0 \<longleftrightarrow> m = 0" for m
    using f64_units_eq_iff [of m 0] by simp
  have p: "int (f64_units m) = 0 \<longleftrightarrow> m = 0" for m
    by (simp add: z)
  show ?thesis
    unfolding f64_key_def f64_num_def
    using f64_units_less_iff [of "f64_mag x" "f64_mag y"] f64_units_less_iff [of "f64_mag y" "f64_mag x"]
      z [of "f64_mag x"] z [of "f64_mag y"]
    by (cases "f64_sign x"; cases "f64_sign y") auto
qed

lemma f64_key_value_eq: "f64_key x = f64_key y \<longleftrightarrow> f64_num x = f64_num y"
  using f64_key_value_less [of x y] f64_key_value_less [of y x] by linarith

lemma f64_partial_cmp_finite:
  "f64_is_finite x \<Longrightarrow> f64_is_finite y \<Longrightarrow> f64_partial_cmp x y = Some (cmp (f64_num x) (f64_num y))"
  by (auto simp: f64_partial_cmp_def f64_is_finite_def f64_is_nan_def cmp_def
      f64_key_value_less f64_key_value_eq)

section \<open>Rounding\<close>

fun bit_len :: "nat \<Rightarrow> nat" where
  "bit_len n = (if n = 0 then 0 else Suc (bit_len (n div 2)))"

declare bit_len.simps [simp del]

lemma bit_len_unique: "2 ^ k \<le> n \<Longrightarrow> n < 2 ^ Suc k \<Longrightarrow> bit_len n = Suc k"
proof (induction k arbitrary: n)
  case 0
  then have "n = 1" by simp
  then show ?case by (simp add: bit_len.simps)
next
  case (Suc k)
  then have "2 ^ k \<le> n div 2" and "n div 2 < 2 ^ Suc k" by auto
  then have "bit_len (n div 2) = Suc k" by (rule Suc.IH)
  moreover have "n \<noteq> 0" using Suc.prems(1) by (cases n) auto
  ultimately show ?case by (simp add: bit_len.simps [of n])
qed

lemma bit_len_le: "n < 2 ^ k \<Longrightarrow> bit_len n \<le> k"
proof (induction k arbitrary: n)
  case 0
  then show ?case by (simp add: bit_len.simps)
next
  case (Suc k)
  then have "bit_len (n div 2) \<le> k" by auto
  then show ?case by (simp add: bit_len.simps [of n])
qed

text \<open>Division rounded to nearest, ties to even.\<close>

definition round_even :: "nat \<Rightarrow> nat \<Rightarrow> nat" where
  "round_even n d =
     (let t = n div d; r = n mod d
      in if 2 * r < d \<or> (2 * r = d \<and> even t) then t else t + 1)"

lemma round_even_exact: "0 < d \<Longrightarrow> round_even (t * d) d = t"
  by (simp add: round_even_def)

text \<open>The magnitude nearest to \<open>num / den\<close>.\<close>

definition round_mag :: "nat \<Rightarrow> nat \<Rightarrow> nat" where
  "round_mag num den =
     (let n = num * f64_unit_den;
          b = bit_len (n div den) - 53
      in min inf_mag (b * 2 ^ 52 + round_even n (den * 2 ^ b)))"

definition f64_round :: "bool \<Rightarrow> nat \<Rightarrow> nat \<Rightarrow> f64" where
  "f64_round s num den = f64_of_mag s (round_mag num den)"

lemma f64_bexp_bit_len: "m < inf_mag \<Longrightarrow> bit_len (f64_units m) - 53 = f64_bexp m"
proof (cases "m < 2 ^ 52")
  case True
  then have "bit_len (f64_units m) \<le> 52"
    by (intro bit_len_le) (simp add: f64_units_def f64_sig_def f64_bexp_def)
  with True show ?thesis by (simp add: f64_bexp_def)
next
  case False
  define r where "r = m mod 2 ^ 52"
  define e where "e = f64_bexp m"
  have r: "r < 2 ^ 52" by (simp add: r_def)
  have u: "f64_units m = (2 ^ 52 + r) * 2 ^ e"
    using False by (simp add: f64_units_def f64_sig_def r_def e_def)
  have "2 ^ (52 + e) \<le> f64_units m" using u by (simp add: power_add algebra_simps)
  moreover have "f64_units m < 2 ^ Suc (52 + e)"
  proof -
    have "(2 ^ 52 + r) * 2 ^ e < (2 ^ 53 :: nat) * 2 ^ e"
      using r by (intro mult_strict_right_mono) auto
    then show ?thesis by (simp add: u power_add algebra_simps)
  qed
  ultimately have "bit_len (f64_units m) = Suc (52 + e)" by (rule bit_len_unique)
  then show ?thesis by (simp add: e_def)
qed

lemma f64_bexp_sig: "f64_bexp m * 2 ^ 52 + f64_sig m = m"
proof (cases "m < 2 ^ 52")
  case True
  then show ?thesis by (simp add: f64_bexp_def f64_sig_def)
next
  case False
  then have "1 \<le> m div 2 ^ 52" by (simp add: div_greater_zero_iff Suc_le_eq)
  then have "(m div 2 ^ 52 - 1) * 2 ^ 52 + 2 ^ 52 = m div 2 ^ 52 * 2 ^ 52"
    by (cases "m div 2 ^ 52") auto
  moreover have "m div 2 ^ 52 * 2 ^ 52 + m mod 2 ^ 52 = m" by (rule div_mult_mod_eq)
  ultimately have "(m div 2 ^ 52 - 1) * 2 ^ 52 + (2 ^ 52 + m mod 2 ^ 52) = m" by linarith
  then show ?thesis using False by (simp add: f64_bexp_def f64_sig_def)
qed

text \<open>Every finite double rounds to itself.\<close>

lemma round_mag_exact: "m < inf_mag \<Longrightarrow> round_mag (f64_units m) f64_unit_den = m"
proof -
  assume m: "m < inf_mag"
  have d: "0 < f64_unit_den" by (simp add: f64_unit_den_def)
  have eq: "f64_units m * f64_unit_den = f64_sig m * (f64_unit_den * 2 ^ f64_bexp m)"
    by (simp add: f64_units_def mult.commute mult.left_commute)
  have "round_even (f64_units m * f64_unit_den) (f64_unit_den * 2 ^ f64_bexp m) = f64_sig m"
    unfolding eq by (rule round_even_exact) (use d in simp)
  then show ?thesis
    using m d f64_bexp_bit_len [OF m] f64_bexp_sig [of m] by (simp add: round_mag_def Let_def)
qed

lemma round_mag_le_inf: "round_mag n d \<le> inf_mag"
  by (simp add: round_mag_def Let_def)

lemma round_mag_less [simp]: "round_mag n d < 2 ^ 63"
  using round_mag_le_inf [of n d] by (simp add: inf_mag_def)

lemma round_mag_units:
  assumes "m < inf_mag" and "n * f64_unit_den = f64_units m"
  shows "round_mag n 1 = m"
proof -
  have "round_even (f64_sig m * 2 ^ f64_bexp m) (2 ^ f64_bexp m) = f64_sig m"
    by (rule round_even_exact) simp
  then show ?thesis
    using assms f64_bexp_bit_len [OF assms(1)] f64_bexp_sig [of m] by (simp add: round_mag_def Let_def f64_units_def)
qed

lemma bit_len_bounds: "0 < n \<Longrightarrow> 0 < bit_len n \<and> 2 ^ (bit_len n - 1) \<le> n \<and> n < 2 ^ bit_len n"
proof (induction n rule: bit_len.induct)
  case (1 n)
  show ?case
  proof (cases "n div 2 = 0")
    case True
    then have "n = 1" using 1 by auto
    then show ?thesis by (simp add: bit_len.simps)
  next
    case False
    then have "0 < bit_len (n div 2) \<and> 2 ^ (bit_len (n div 2) - 1) \<le> n div 2 \<and> n div 2 < 2 ^ bit_len (n div 2)"
      using 1 by auto
    moreover have "bit_len n = Suc (bit_len (n div 2))" using 1 by (simp add: bit_len.simps [of n])
    moreover obtain k where "bit_len (n div 2) = Suc k" using calculation by (cases "bit_len (n div 2)") auto
    ultimately show ?thesis by auto
  qed
qed

text \<open>A natural number below \<open>2 ^ 53\<close> is a double.\<close>

lemma small_nat_units:
  assumes "n < 2 ^ 53"
  shows "\<exists>m < inf_mag. n * f64_unit_den = f64_units m"
proof (cases "n = 0")
  case True
  then show ?thesis by (intro exI [of _ 0]) (simp add: inf_mag_def)
next
  case False
  define k where "k = bit_len n"
  define sig where "sig = n * 2 ^ (53 - k)"
  define m where "m = (1021 + k) * 2 ^ 52 + sig"
  have k: "0 < k" "2 ^ (k - 1) \<le> n" "n < 2 ^ k" using bit_len_bounds [of n] False by (simp_all add: k_def)
  have k53: "k \<le> 53" using bit_len_le [OF assms] by (simp add: k_def)
  have "2 ^ (k - 1) * 2 ^ (53 - k) \<le> sig" using k(2) by (simp add: sig_def)
  moreover have "(2::nat) ^ (k - 1) * 2 ^ (53 - k) = 2 ^ 52"
    using k(1) k53 by (simp flip: power_add)
  ultimately have lo: "2 ^ 52 \<le> sig" by simp
  have "sig < 2 ^ k * 2 ^ (53 - k)" using k(3) by (simp add: sig_def)
  moreover have "(2::nat) ^ k * 2 ^ (53 - k) = 2 ^ 53" using k53 by (simp flip: power_add)
  ultimately have hi: "sig < 2 ^ 53" by simp
  define r where "r = sig - 2 ^ 52"
  have r: "sig = 2 ^ 52 + r" "r < 2 ^ 52" using lo hi by (simp_all add: r_def)
  have m: "m = (1022 + k) * 2 ^ 52 + r" by (simp add: m_def r(1) algebra_simps)
  have d: "m div 2 ^ 52 = 1022 + k" "m mod 2 ^ 52 = r"
    using r(2) unfolding m by (simp_all only: div_mult_self3 mod_mult_self3 div_less mod_less)
  have "\<not> m < 2 ^ 52" by (simp add: m)
  then have "f64_units m = sig * 2 ^ (1021 + k)"
    using d by (simp add: f64_units_def f64_sig_def f64_bexp_def r(1))
  also have "\<dots> = n * (2 ^ (53 - k) * 2 ^ (1021 + k))" by (simp add: sig_def mult.assoc)
  also have "(2::nat) ^ (53 - k) * 2 ^ (1021 + k) = f64_unit_den"
    using k53 unfolding f64_unit_den_def by (simp flip: power_add)
  finally have "n * f64_unit_den = f64_units m" by simp
  moreover have "m < inf_mag"
  proof -
    have "(1022 + k) * 2 ^ 52 \<le> (1075 :: nat) * 2 ^ 52" using k53 by (intro mult_right_mono) simp_all
    then show ?thesis using r(2) by (simp add: m inf_mag_def)
  qed
  ultimately show ?thesis by blast
qed

section \<open>Arithmetic\<close>

definition f64_of_int :: "int \<Rightarrow> f64" where
  "f64_of_int i = f64_round (i < 0) (nat \<bar>i\<bar>) 1"

lemma f64_of_small: "\<bar>i\<bar> < 2 ^ 53 \<Longrightarrow> f64_num (f64_of_int i) = i * int f64_unit_den \<and> \<not> f64_is_nan (f64_of_int i)"
proof -
  assume i: "\<bar>i\<bar> < 2 ^ 53"
  then have "nat \<bar>i\<bar> < 2 ^ 53" by (simp add: nat_less_iff)
  then obtain m where m: "m < inf_mag" "nat \<bar>i\<bar> * f64_unit_den = f64_units m"
    using small_nat_units by blast
  then have e: "f64_of_int i = f64_of_mag (i < 0) m"
    using round_mag_units [OF m] by (simp add: f64_of_int_def f64_round_def)
  have l: "m < 2 ^ 63" using m(1) by (simp add: inf_mag_def)
  have "int (f64_units m) = \<bar>i\<bar> * int f64_unit_den"
    by (metis m(2) of_nat_mult int_nat_eq abs_ge_zero)
  then show ?thesis using l m(1) by (auto simp: e f64_num_def f64_is_nan_def)
qed

definition i64_as_f64 :: "i64 \<Rightarrow> f64" where
  "i64_as_f64 n = f64_of_int (sint n)"

definition f64_inf :: "bool \<Rightarrow> f64" where
  "f64_inf s = f64_of_mag s inf_mag"

definition f64_add :: "f64 \<Rightarrow> f64 \<Rightarrow> f64" where
  "f64_add x y =
     (if f64_is_nan x \<or> f64_is_nan y then f64_nan
      else if f64_is_inf x then (if f64_is_inf y \<and> f64_sign x \<noteq> f64_sign y then f64_nan else x)
      else if f64_is_inf y then y
      else let s = f64_num x + f64_num y
           in if s = 0 then f64_of_mag (f64_sign x \<and> f64_sign y) 0
              else f64_round (s < 0) (nat \<bar>s\<bar>) f64_unit_den)"

definition f64_sub :: "f64 \<Rightarrow> f64 \<Rightarrow> f64" where
  "f64_sub x y = f64_add x (f64_neg y)"

definition f64_mul :: "f64 \<Rightarrow> f64 \<Rightarrow> f64" where
  "f64_mul x y =
     (let s = (f64_sign x \<noteq> f64_sign y)
      in if f64_is_nan x \<or> f64_is_nan y then f64_nan
         else if f64_is_inf x \<or> f64_is_inf y then
           (if f64_is_zero x \<or> f64_is_zero y then f64_nan else f64_inf s)
         else f64_round s (f64_units (f64_mag x) * f64_units (f64_mag y)) (f64_unit_den * f64_unit_den))"

definition f64_div :: "f64 \<Rightarrow> f64 \<Rightarrow> f64" where
  "f64_div x y =
     (let s = (f64_sign x \<noteq> f64_sign y)
      in if f64_is_nan x \<or> f64_is_nan y then f64_nan
         else if f64_is_inf x then (if f64_is_inf y then f64_nan else f64_inf s)
         else if f64_is_inf y then f64_of_mag s 0
         else if f64_is_zero y then (if f64_is_zero x then f64_nan else f64_inf s)
         else f64_round s (f64_units (f64_mag x)) (f64_units (f64_mag y)))"

text \<open>Rust's \<open>%\<close> on floats: the exact remainder of truncated division.\<close>

definition f64_rem :: "f64 \<Rightarrow> f64 \<Rightarrow> f64" where
  "f64_rem x y =
     (if f64_is_nan x \<or> f64_is_nan y \<or> f64_is_inf x \<or> f64_is_zero y then f64_nan
      else if f64_is_inf y then x
      else f64_round (f64_sign x) (f64_units (f64_mag x) mod f64_units (f64_mag y)) f64_unit_den)"

text \<open>\<open>f as i64\<close>: towards zero, saturating, NaN to 0.\<close>

definition f64_as_i64 :: "f64 \<Rightarrow> i64" where
  "f64_as_i64 x =
     (if f64_is_nan x then 0
      else if f64_is_inf x then word_of_int (if f64_sign x then i64_min else i64_max)
      else let q = int (f64_units (f64_mag x) div f64_unit_den);
               i = (if f64_sign x then - q else q)
           in word_of_int (max i64_min (min i64_max i)))"

text \<open>\<open>f.fract() == 0.0 && f.is_finite()\<close>.\<close>

definition f64_is_integral :: "f64 \<Rightarrow> bool" where
  "f64_is_integral x = (f64_is_finite x \<and> f64_units (f64_mag x) mod f64_unit_den = 0)"

definition f64_trunc :: "f64 \<Rightarrow> f64" where
  "f64_trunc x = (if \<not> f64_is_finite x then x
     else f64_round (f64_sign x) (f64_units (f64_mag x) div f64_unit_den) 1)"

definition f64_floor :: "f64 \<Rightarrow> f64" where
  "f64_floor x = (if \<not> f64_is_finite x then x
     else let q = f64_units (f64_mag x) div f64_unit_den
          in f64_round (f64_sign x) (if f64_sign x \<and> \<not> f64_is_integral x then q + 1 else q) 1)"

definition f64_ceil :: "f64 \<Rightarrow> f64" where
  "f64_ceil x = (if \<not> f64_is_finite x then x
     else let q = f64_units (f64_mag x) div f64_unit_den
          in f64_round (f64_sign x) (if \<not> f64_sign x \<and> \<not> f64_is_integral x then q + 1 else q) 1)"

text \<open>\<open>f64::round\<close>: half away from zero.\<close>

definition f64_round_away :: "f64 \<Rightarrow> f64" where
  "f64_round_away x = (if \<not> f64_is_finite x then x
     else f64_round (f64_sign x) ((2 * f64_units (f64_mag x) + f64_unit_den) div (2 * f64_unit_den)) 1)"

text \<open>Integer square root, and the correctly rounded \<open>f64::sqrt\<close> from it: the root is taken
  with 600 extra bits and a sticky bit.\<close>

fun isqrt :: "nat \<Rightarrow> nat" where
  "isqrt n = (if n = 0 then 0
     else let r = 2 * isqrt (n div 4) in if (r + 1) * (r + 1) \<le> n then r + 1 else r)"

declare isqrt.simps [simp del]

definition f64_sqrt :: "f64 \<Rightarrow> f64" where
  "f64_sqrt x =
     (if f64_is_nan x then f64_nan
      else if f64_is_zero x then x
      else if f64_sign x then f64_nan
      else if f64_is_inf x then x
      else let v = f64_units (f64_mag x) * 2 ^ 1200; r = isqrt v
           in f64_round False (2 * r + (if r * r = v then 0 else 1)) (2 ^ 1138))"

section \<open>Text\<close>

text \<open>\<open>c * 10 ^ e\<close> as a fraction.\<close>

definition dec_frac :: "nat \<Rightarrow> int \<Rightarrow> nat \<times> nat" where
  "dec_frac c e = (if 0 \<le> e then (c * 10 ^ nat e, 1) else (c, 10 ^ nat (- e)))"

definition round_dec :: "nat \<Rightarrow> int \<Rightarrow> nat" where
  "round_dec c e = round_mag (fst (dec_frac c e)) (snd (dec_frac c e))"

text \<open>The decimal exponent \<open>k\<close> with \<open>10 ^ (k - 1) \<le> v < 10 ^ k\<close>.\<close>

fun leading_zeros :: "nat \<Rightarrow> nat \<Rightarrow> nat \<Rightarrow> nat" where
  "leading_zeros 0 u d = 0"
| "leading_zeros (Suc fuel) u d = (if d \<le> 10 * u then 0 else Suc (leading_zeros fuel (10 * u) d))"

definition dec_exponent :: "nat \<Rightarrow> int" where
  "dec_exponent u =
     (if f64_unit_den \<le> u then int (length (dec_nat (u div f64_unit_den)))
      else - int (leading_zeros 400 u f64_unit_den))"

text \<open>
  The shortest decimal that reads back as the double: for \<open>n = 1, 2, \<dots>\<close> digits the two
  neighbours of the exact value are tried, and of those that round to the double the closer one
  is taken (the upper one on a tie).  Seventeen digits are always enough for a double.
\<close>

fun shortest_from :: "nat \<Rightarrow> nat \<Rightarrow> nat \<Rightarrow> int \<Rightarrow> nat \<times> int" where
  "shortest_from 0 n m k = (f64_units m, 0)"
| "shortest_from (Suc fuel) n m k =
     (let e = k - int n;
          (p, q) = (if 0 \<le> e then (f64_units m, f64_unit_den * 10 ^ nat e)
                    else (f64_units m * 10 ^ nat (- e), f64_unit_den));
          lo = p div q; hi = lo + 1;
          lo_ok = (round_dec lo e = m); hi_ok = (round_dec hi e = m);
          pick = (\<lambda>c. if c = 10 ^ n then (c div 10, e + 1) else (c, e))
      in if lo_ok \<and> hi_ok then pick (if 2 * (p mod q) < q then lo else hi)
         else if lo_ok then pick lo
         else if hi_ok then pick hi
         else shortest_from fuel (Suc n) m k)"

definition shortest :: "nat \<Rightarrow> nat \<times> int" where
  "shortest m = shortest_from 17 1 m (dec_exponent (f64_units m))"

text \<open>Positional rendering of \<open>c * 10 ^ e\<close>, without an exponent.\<close>

definition render_dec :: "nat \<Rightarrow> int \<Rightarrow> rstr" where
  "render_dec c e =
     (let ds = dec_nat c; k = int (length ds) + e
      in if 0 \<le> e then ds @ replicate (nat e) CHR ''0''
         else if k \<le> 0 then ''0.'' @ replicate (nat (- k)) CHR ''0'' @ ds
         else take (nat k) ds @ ''.'' @ drop (nat k) ds)"

definition sign_str :: "bool \<Rightarrow> rstr" where
  "sign_str s = (if s then ''-'' else [])"

text \<open>\<open>Display for f64\<close>.\<close>

definition f64_to_string :: "f64 \<Rightarrow> rstr" where
  "f64_to_string x =
     (if f64_is_nan x then ''NaN''
      else if f64_is_inf x then sign_str (f64_sign x) @ ''inf''
      else sign_str (f64_sign x) @
        (if f64_is_zero x then ''0''
         else case shortest (f64_mag x) of (c, e) \<Rightarrow> render_dec c e))"

text \<open>\<open>format!("{:.1}", f)\<close> for an integral \<open>f\<close>: all digits of the integer, then \<open>.0\<close>.\<close>

definition f64_fixed1 :: "f64 \<Rightarrow> rstr" where
  "f64_fixed1 x = sign_str (f64_sign x) @ dec_nat (f64_units (f64_mag x) div f64_unit_den) @ ''.0''"

text \<open>The exponent part of a float literal: \<open>None\<close> if malformed.\<close>

definition parse_exponent :: "rstr \<Rightarrow> int option" where
  "parse_exponent s =
     (case s of [] \<Rightarrow> Some 0
      | c # r \<Rightarrow> if c = CHR ''e'' \<or> c = CHR ''E'' then parse_int r else None)"

text \<open>\<open>str::parse::<f64>\<close>.\<close>

definition parse_f64 :: "rstr \<Rightarrow> f64 option" where
  "parse_f64 s =
     (let neg = (s \<noteq> [] \<and> hd s = CHR ''-'');
          r = (if s \<noteq> [] \<and> (hd s = CHR ''-'' \<or> hd s = CHR ''+'') then tl s else s);
          l = to_ascii_lowercase r
      in if l = ''inf'' \<or> l = ''infinity'' then Some (f64_inf neg)
         else if l = ''nan'' then Some f64_nan
         else
           let ip = takeWhile is_digit r; r1 = dropWhile is_digit r;
               has_dot = (r1 \<noteq> [] \<and> hd r1 = CHR ''.'');
               fp = (if has_dot then takeWhile is_digit (tl r1) else []);
               r2 = (if has_dot then dropWhile is_digit (tl r1) else r1)
           in if ip = [] \<and> fp = [] then None
              else case parse_exponent r2 of
                     None \<Rightarrow> None
                   | Some e \<Rightarrow> Some (f64_of_mag neg
                       (round_dec (digits_val (ip @ fp)) (e - int (length fp)))))"

end
