(* ===== verification/DbValue.thy ===== *)
theory DbValue
  imports EngineErrors Float64
begin

text \<open>
  \<open>engine/value.rs\<close> and the value helpers of \<open>functions/eval/ops.rs\<close> and
  \<open>functions/builtin.rs\<close>: column types, runtime values, their texts, the ordering behind
  ORDER BY and the grouping key behind GROUP BY and DISTINCT.
\<close>

section \<open>Types\<close>

datatype column_type = TBool | TInt | TFloat | TString | TStrings | TFloats

fun column_type_display :: "column_type \<Rightarrow> rstr" where
  "column_type_display TBool = ''BOOL''"
| "column_type_display TInt = ''INT''"
| "column_type_display TFloat = ''FLOAT''"
| "column_type_display TString = ''STRING''"
| "column_type_display TStrings = ''STRINGS[]''"
| "column_type_display TFloats = ''FLOATS[]''"

datatype db_value =
    DNull
  | DBool bool
  | DInt i64
  | DFloat f64
  | DString rstr
  | DStrings "rstr list"
  | DFloats "f64 list"

text \<open>The derived \<open>PartialEq\<close>: floats compare as IEEE numbers, so NaN differs from itself.\<close>

fun db_eq :: "db_value \<Rightarrow> db_value \<Rightarrow> bool" where
  "db_eq DNull DNull = True"
| "db_eq (DBool a) (DBool b) = (a = b)"
| "db_eq (DInt a) (DInt b) = (a = b)"
| "db_eq (DFloat a) (DFloat b) = f64_eq a b"
| "db_eq (DString a) (DString b) = (a = b)"
| "db_eq (DStrings a) (DStrings b) = (a = b)"
| "db_eq (DFloats a) (DFloats b) = list_all2 f64_eq a b"
| "db_eq _ _ = False"

section \<open>Texts\<close>

definition bool_to_string :: "bool \<Rightarrow> rstr" where
  "bool_to_string b = (if b then ''true'' else ''false'')"

definition quoted :: "rstr \<Rightarrow> rstr" where
  "quoted s = CHR 34 # s @ [CHR 34]"

text \<open>\<open>DbValue::coerce\<close>: read \<open>raw\<close> as a value of the receiver's type.\<close>

fun coerce :: "unicode \<Rightarrow> db_value \<Rightarrow> rstr \<Rightarrow> db_value" where
  "coerce U (DInt _) raw = (case parse_i64 raw of Some n \<Rightarrow> DInt n | None \<Rightarrow> DString raw)"
| "coerce U DNull raw = (case parse_i64 raw of Some n \<Rightarrow> DInt n | None \<Rightarrow> DString raw)"
| "coerce U (DFloat _) raw = (case parse_f64 raw of Some f \<Rightarrow> DFloat f | None \<Rightarrow> DString raw)"
| "coerce U (DBool _) raw =
     (let l = to_lowercase U raw
      in if l = ''true'' \<or> l = ''1'' then DBool True
         else if l = ''false'' \<or> l = ''0'' then DBool False
         else DString raw)"
| "coerce U _ raw = DString raw"

fun to_json_string :: "db_value \<Rightarrow> rstr" where
  "to_json_string DNull = ''null''"
| "to_json_string (DBool b) = bool_to_string b"
| "to_json_string (DInt n) = i64_to_string n"
| "to_json_string (DFloat f) = (if f64_is_integral f then f64_fixed1 f else f64_to_string f)"
| "to_json_string (DString s) =
     quoted (replace_char (CHR 34) [CHR 92, CHR 34] (replace_char (CHR 92) [CHR 92, CHR 92] s))"
| "to_json_string (DStrings v) = ''['' @ join '','' (map quoted v) @ '']''"
| "to_json_string (DFloats v) = ''['' @ join '','' (map f64_to_string v) @ '']''"

text \<open>\<open>Display for DbValue\<close>.\<close>

fun db_display :: "db_value \<Rightarrow> rstr" where
  "db_display DNull = ''NULL''"
| "db_display (DBool b) = bool_to_string b"
| "db_display (DInt n) = i64_to_string n"
| "db_display (DFloat f) = f64_to_string f"
| "db_display (DString s) = CHR 39 # s @ [CHR 39]"
| "db_display (DStrings v) = ''['' @ join '','' v @ '']''"
| "db_display (DFloats v) = ''['' @ join '','' (map f64_to_string v) @ '']''"

text \<open>\<open>value_to_string\<close> of \<open>builtin.rs\<close>: the text without quotes.\<close>

fun value_to_string :: "db_value \<Rightarrow> rstr" where
  "value_to_string DNull = ''NULL''"
| "value_to_string (DBool b) = bool_to_string b"
| "value_to_string (DInt n) = i64_to_string n"
| "value_to_string (DFloat f) = f64_to_string f"
| "value_to_string (DString s) = s"
| "value_to_string (DStrings v) = join '','' v"
| "value_to_string (DFloats v) = join '','' (map f64_to_string v)"

text \<open>The derived \<open>Debug\<close> text, which error messages quote.  Floats use the shortest digits with
  at least one decimal, in exponent form below \<open>1e-4\<close> and from \<open>1e16\<close> on; a string is
  escaped, its non-ASCII part by the Unicode tables.\<close>

definition render_exp :: "nat \<Rightarrow> int \<Rightarrow> rstr" where
  "render_exp c e =
     (let ds = dec_nat c
      in hd ds # (if tl ds = [] then [] else ''.'' @ tl ds) @ ''e'' @ dec_int (e + int (length ds) - 1))"

definition f64_debug :: "f64 \<Rightarrow> rstr" where
  "f64_debug x =
     (if \<not> f64_is_finite x then f64_to_string x
      else if f64_is_zero x then sign_str (f64_sign x) @ ''0.0''
      else let u = f64_units (f64_mag x); (c, e) = shortest (f64_mag x)
           in if f64_unit_den * 10 ^ 16 \<le> u \<or> u * 10 ^ 4 < f64_unit_den
              then sign_str (f64_sign x) @ render_exp c e
              else if f64_is_integral x then f64_to_string x @ ''.0'' else f64_to_string x)"

definition hex_digit :: "nat \<Rightarrow> char" where
  "hex_digit d = (if d < 10 then char_of (48 + d) else char_of (87 + d))"

definition escape_debug_char :: "char \<Rightarrow> rstr" where
  "escape_debug_char c =
     (let n = of_char c :: nat
      in if n = 0 then [CHR 92, CHR 48]
         else if n = 9 then [CHR 92, CHR ''t'']
         else if n = 10 then [CHR 92, CHR ''n'']
         else if n = 13 then [CHR 92, CHR ''r'']
         else if n = 34 then [CHR 92, CHR 34]
         else if n = 92 then [CHR 92, CHR 92]
         else if n < 32 \<or> n = 127
           then CHR 92 # ''u{'' @ (if n < 16 then [] else [hex_digit (n div 16)]) @ [hex_digit (n mod 16)] @ ''}''
         else [c])"

definition str_debug :: "unicode \<Rightarrow> rstr \<Rightarrow> rstr" where
  "str_debug U s = quoted (if is_ascii s then concat (map escape_debug_char s) else uni_debug U s)"

fun db_debug :: "unicode \<Rightarrow> db_value \<Rightarrow> rstr" where
  "db_debug U DNull = ''Null''"
| "db_debug U (DBool b) = ''Bool('' @ bool_to_string b @ '')''"
| "db_debug U (DInt n) = ''Int('' @ i64_to_string n @ '')''"
| "db_debug U (DFloat f) = ''Float('' @ f64_debug f @ '')''"
| "db_debug U (DString s) = ''String('' @ str_debug U s @ '')''"
| "db_debug U (DStrings v) = ''Strings(['' @ join '', '' (map (str_debug U) v) @ ''])''"
| "db_debug U (DFloats v) = ''Floats(['' @ join '', '' (map f64_debug v) @ ''])''"

fun column_type_debug :: "column_type \<Rightarrow> rstr" where
  "column_type_debug TBool = ''Bool''"
| "column_type_debug TInt = ''Int''"
| "column_type_debug TFloat = ''Float''"
| "column_type_debug TString = ''String''"
| "column_type_debug TStrings = ''Strings''"
| "column_type_debug TFloats = ''Floats''"

section \<open>Order\<close>

text \<open>\<open>to_float\<close> of \<open>ops.rs\<close>: numbers and numeric text.\<close>

fun to_float :: "db_value \<Rightarrow> f64 option" where
  "to_float (DInt n) = Some (i64_as_f64 n)"
| "to_float (DFloat f) = Some f"
| "to_float (DString s) = parse_f64 s"
| "to_float _ = None"

definition db_value_cmp :: "db_value \<Rightarrow> db_value \<Rightarrow> ordering" where
  "db_value_cmp a b =
     (case (to_float a, to_float b) of
        (Some x, Some y) \<Rightarrow> (case f64_partial_cmp x y of Some r \<Rightarrow> r | None \<Rightarrow> Equal)
      | _ \<Rightarrow> cmp (value_to_string a) (value_to_string b))"

lemma db_value_cmp_reverse: "db_value_cmp b a = ord_reverse (db_value_cmp a b)"
  by (auto simp: db_value_cmp_def f64_partial_cmp_def ord_reverse_cmp split: option.splits)

lemma db_value_cmp_refl: "db_value_cmp a a = Equal"
  by (auto simp: db_value_cmp_def f64_partial_cmp_def split: option.splits)

text \<open>The values on which \<open>db_value_cmp\<close> compares numerically, NaN apart, and those on which it
  compares text.\<close>

definition is_number :: "db_value \<Rightarrow> bool" where
  "is_number v = (case to_float v of Some x \<Rightarrow> \<not> f64_is_nan x | None \<Rightarrow> False)"

definition is_text :: "db_value \<Rightarrow> bool" where
  "is_text v = (to_float v = None)"

lemma db_value_cmp_numbers:
  "is_number a \<Longrightarrow> is_number b \<Longrightarrow>
     db_value_cmp a b = cmp (f64_key (the (to_float a))) (f64_key (the (to_float b)))"
  by (auto simp: is_number_def db_value_cmp_def f64_partial_cmp_def split: option.splits)

lemma db_value_cmp_text:
  "is_text a \<or> is_text b \<Longrightarrow> db_value_cmp a b = cmp (value_to_string a) (value_to_string b)"
  by (auto simp: is_text_def db_value_cmp_def split: option.splits)

section \<open>Grouping keys\<close>

fun group_values_equal :: "db_value \<Rightarrow> db_value \<Rightarrow> bool" where
  "group_values_equal (DFloat x) (DFloat y) = (f64_eq x y \<or> (f64_is_nan x \<and> f64_is_nan y))"
| "group_values_equal (DFloats x) (DFloats y) =
     (length x = length y \<and>
      list_all (\<lambda>(x, y). f64_eq x y \<or> (f64_is_nan x \<and> f64_is_nan y)) (zip x y))"
| "group_values_equal a b = db_eq a b"

text \<open>\<open>GroupKey\<close> equality.\<close>

definition group_key_eq :: "db_value list \<Rightarrow> db_value list \<Rightarrow> bool" where
  "group_key_eq a b = (length a = length b \<and> list_all (\<lambda>(x, y). group_values_equal x y) (zip a b))"

text \<open>What a \<open>Hasher\<close> is fed, in order.\<close>

datatype hash_item = HU8 nat | HLen nat | HBool bool | HI64 i64 | HU64 u64 | HStr rstr

definition canonical_float_bits :: "f64 \<Rightarrow> u64" where
  "canonical_float_bits f =
     (if f64_is_nan f then f64_nan else if f64_is_zero f then f64_zero else f)"

fun hash_group_value :: "db_value \<Rightarrow> hash_item list" where
  "hash_group_value DNull = [HU8 0]"
| "hash_group_value (DBool b) = [HU8 1, HBool b]"
| "hash_group_value (DInt n) = [HU8 2, HI64 n]"
| "hash_group_value (DFloat f) = [HU8 3, HU64 (canonical_float_bits f)]"
| "hash_group_value (DString s) = [HU8 4, HStr s]"
| "hash_group_value (DStrings arr) = HU8 5 # HLen (length arr) # map HStr arr"
| "hash_group_value (DFloats arr) =
     HU8 6 # HLen (length arr) # map (\<lambda>f. HU64 (canonical_float_bits f)) arr"

definition hash_group_key :: "db_value list \<Rightarrow> hash_item list" where
  "hash_group_key k = HLen (length k) # concat (map hash_group_value k)"

lemma f64_nan_is_nan [simp]: "f64_is_nan f64_nan"
  by (simp add: f64_is_nan_def f64_nan_def inf_mag_def)

lemma f64_key_eq_iff: "f64_key x = f64_key y \<longleftrightarrow> x = y \<or> (f64_is_zero x \<and> f64_is_zero y)"
  by (auto simp: f64_key_def f64_is_zero_def intro: f64_eqI split: if_splits)

lemma f64_zero_is_zero [simp]: "f64_is_zero f64_zero"
  by (simp add: f64_is_zero_def f64_zero_def f64_mag_def)

lemma f64_nan_not_zero [simp]: "f64_is_nan x \<Longrightarrow> \<not> f64_is_zero x"
  by (simp add: f64_is_nan_def f64_is_zero_def inf_mag_def)

text \<open>The canonical bits are injective on the classes that grouping equality makes.\<close>

lemma canonical_float_bits_eq_iff:
  "canonical_float_bits x = canonical_float_bits y \<longleftrightarrow> f64_eq x y \<or> (f64_is_nan x \<and> f64_is_nan y)"
proof -
  have "f64_eq x y \<longleftrightarrow> \<not> f64_is_nan x \<and> \<not> f64_is_nan y \<and> (x = y \<or> (f64_is_zero x \<and> f64_is_zero y))"
    by (auto simp: f64_eq_def f64_partial_cmp_def f64_key_eq_iff)
  then show ?thesis
    by (auto simp: canonical_float_bits_def) (metis f64_nan_is_nan f64_nan_not_zero f64_zero_is_zero)+
qed

lemma map_HU64_eq_iff:
  "length x = length y \<Longrightarrow>
     map (\<lambda>f. HU64 (canonical_float_bits f)) x = map (\<lambda>f. HU64 (canonical_float_bits f)) y \<longleftrightarrow>
     list_all (\<lambda>(x, y). f64_eq x y \<or> (f64_is_nan x \<and> f64_is_nan y)) (zip x y)"
  by (induction x y rule: list_induct2) (auto simp: canonical_float_bits_eq_iff)

text \<open>The stream fed for a value is self-delimiting, so equal streams are equal keys.\<close>

lemma hash_front:
  assumes "hash_group_value a @ xs = hash_group_value b @ ys"
  shows "group_values_equal a b \<and> xs = ys"
proof (cases "\<exists>u v. a = DFloats u \<and> b = DFloats v")
  case True
  then obtain u v where ab: "a = DFloats u" "b = DFloats v" by blast
  with assms have l: "length u = length v"
    and e: "map (\<lambda>f. HU64 (canonical_float_bits f)) u @ xs = map (\<lambda>f. HU64 (canonical_float_bits f)) v @ ys"
    by auto
  from e l have "map (\<lambda>f. HU64 (canonical_float_bits f)) u = map (\<lambda>f. HU64 (canonical_float_bits f)) v"
    and "xs = ys" by (metis append_eq_append_conv length_map)+
  with l ab show ?thesis by (simp add: map_HU64_eq_iff)
next
  case F: False
  show ?thesis
  proof (cases "\<exists>u v. a = DStrings u \<and> b = DStrings v")
    case True
    then obtain u v where ab: "a = DStrings u" "b = DStrings v" by blast
    with assms have l: "length u = length v" and e: "map HStr u @ xs = map HStr v @ ys" by auto
    from e l have "map HStr u = map HStr v" and "xs = ys"
      by (metis append_eq_append_conv length_map)+
    moreover have "inj HStr" by (auto intro: injI)
    ultimately show ?thesis using ab by (simp add: inj_map_eq_map)
  next
    case False
    with F assms show ?thesis
      by (cases a; cases b) (auto simp: canonical_float_bits_eq_iff)
  qed
qed

lemma hash_same: "group_values_equal a b \<Longrightarrow> hash_group_value a = hash_group_value b"
  by (cases a; cases b) (auto simp: canonical_float_bits_eq_iff map_HU64_eq_iff)

interpretation hv: self_delimiting hash_group_value group_values_equal
  using hash_front hash_same by unfold_locales blast+

lemma list_all_zip_iff:
  "length a = length b \<Longrightarrow> list_all (\<lambda>(x, y). P x y) (zip a b) \<longleftrightarrow> list_all2 P a b"
  by (induction a b rule: list_induct2) auto

lemma group_key_eq_iff: "group_key_eq a b \<longleftrightarrow> list_all2 group_values_equal a b"
  by (cases "length a = length b") (auto simp: group_key_eq_def list_all_zip_iff dest: list_all2_lengthD)

end
