(* ===== verification/SqlAst.thy ===== *)
theory SqlAst
  imports DbValue
begin

text \<open>
  The part of the SQL abstract syntax that the evaluator takes apart, with the constructors
  the code matches on.  A node that no branch of the code looks into is kept as its \<open>Debug\<close>
  text, and a subquery as its SQL text.  Also the conversion of literals (\<open>sql_val_to_db\<close>).
\<close>

datatype sql_value =
    SqlNull
  | SqlBoolean bool
  | SqlNumber rstr
  | SqlSingleQuoted rstr
  | SqlDoubleQuoted rstr
  | SqlTripleQuoted rstr rstr  \<comment> \<open>the text of a triple-quoted string and its Debug text\<close>
  | SqlOtherValue rstr  \<comment> \<open>its Debug text\<close>

datatype bin_op =
    OpEq | OpNotEq | OpLt | OpLtEq | OpGt | OpGtEq
  | OpPlus | OpMinus | OpMultiply | OpDivide | OpModulo
  | OpAnd | OpOr | OpStringConcat | OpRegexp | OpMatch
  | OpOther rstr  \<comment> \<open>its Debug text\<close>

datatype un_op = UnNot | UnPlus | UnMinus | UnOther rstr

datatype data_type =
    DtBool | DtBoolean
  | DtInt | DtBigInt | DtSmallInt | DtTinyInt
  | DtFloat | DtDouble | DtReal | DtDecimal | DtNumeric
  | DtVarchar | DtChar | DtText | DtString | DtUuid
  | DtOther rstr

datatype frame_units = FrameRows | FrameRange | FrameGroups

datatype trim_where = Both | Leading | Trailing

type_synonym query = rstr

datatype sql_expr =
    Identifier rstr
  | CompoundIdentifier "rstr list"
  | Value sql_value
  | BinaryOp sql_expr bin_op sql_expr
  | UnaryOp un_op sql_expr
  | Nested sql_expr
  | IsNull sql_expr
  | IsNotNull sql_expr
  | Like bool sql_expr sql_expr "rstr option"  \<comment> \<open>negated, operands, ESCAPE\<close>
  | SimilarTo bool sql_expr sql_expr
  | RLike bool sql_expr sql_expr
  | InList sql_expr "sql_expr list" bool
  | TypedString data_type sql_value
  | Function rstr func_args call_mods
  | Ceil sql_expr
  | Floor sql_expr
  | Subquery query
  | InSubquery sql_expr query bool
  | Case "sql_expr option" "(sql_expr \<times> sql_expr) list" "sql_expr option"
  | Between sql_expr sql_expr sql_expr bool
  | Exists query bool
  | Cast sql_expr data_type
  | Trim sql_expr "trim_where option" "sql_expr list option"
  | Substring sql_expr "sql_expr option" "sql_expr option"
  | Array "sql_expr list"
  | OtherExpr rstr
and func_args = NoArgs | SubqueryArgs query | ArgList "func_arg list"
and func_arg = Unnamed arg_expr | Named arg_expr | ExprNamed arg_expr
and arg_expr = ArgExpr sql_expr | ArgWildcard | ArgQualifiedWildcard
and call_mods = CallMods bool "sql_expr option" "window_type option"
  \<comment> \<open>DISTINCT, FILTER (WHERE), OVER\<close>
and window_type =
    WindowSpec "sql_expr list" "(sql_expr \<times> bool option) list" "window_frame option"
  | NamedWindow rstr
and window_frame = WindowFrame frame_units frame_bound "frame_bound option"
and frame_bound = CurrentRow | Preceding "sql_expr option" | Following "sql_expr option"

text \<open>An ORDER BY item: the expression and its ASC (\<open>Some True\<close>) or DESC option.\<close>

type_synonym order_item = "sql_expr \<times> bool option"

text \<open>The clauses of a call.\<close>

fun call_distinct :: "call_mods \<Rightarrow> bool" where
  "call_distinct (CallMods d _ _) = d"

fun call_filter :: "call_mods \<Rightarrow> sql_expr option" where
  "call_filter (CallMods _ f _) = f"

fun call_over :: "call_mods \<Rightarrow> window_type option" where
  "call_over (CallMods _ _ ov) = ov"

abbreviation plain_call :: call_mods where
  "plain_call \<equiv> CallMods False None None"

text \<open>Which expressions are plain names and literals.\<close>

definition ident_of :: "sql_expr \<Rightarrow> rstr option" where
  "ident_of e = (case e of Identifier i \<Rightarrow> Some i | _ \<Rightarrow> None)"

definition value_of :: "sql_expr \<Rightarrow> sql_value option" where
  "value_of e = (case e of Value v \<Rightarrow> Some v | _ \<Rightarrow> None)"

text \<open>\<open>sql_val_to_db\<close>: a number with a point or an exponent is tried as a float first, any other
  as an integer first.\<close>

fun sql_val_to_db :: "sql_value \<Rightarrow> db_value" where
  "sql_val_to_db SqlNull = DNull"
| "sql_val_to_db (SqlBoolean b) = DBool b"
| "sql_val_to_db (SqlNumber s) =
     (if CHR ''.'' \<in> set s \<or> CHR ''e'' \<in> set s \<or> CHR ''E'' \<in> set s
      then (case parse_f64 s of
              Some f \<Rightarrow> DFloat f
            | None \<Rightarrow> (case parse_i64 s of Some n \<Rightarrow> DInt n | None \<Rightarrow> DString s))
      else (case parse_i64 s of
              Some n \<Rightarrow> DInt n
            | None \<Rightarrow> (case parse_f64 s of Some f \<Rightarrow> DFloat f | None \<Rightarrow> DString s)))"
| "sql_val_to_db (SqlSingleQuoted s) = DString s"
| "sql_val_to_db (SqlDoubleQuoted s) = DString s"
| "sql_val_to_db (SqlTripleQuoted s d) = DString d"
| "sql_val_to_db (SqlOtherValue d) = DString d"

text \<open>\<open>get_func_arg_unnamed\<close>.\<close>

fun get_func_arg_unnamed :: "func_arg \<Rightarrow> sql_expr eres" where
  "get_func_arg_unnamed (Unnamed (ArgExpr e)) = Inr e"
| "get_func_arg_unnamed (Unnamed _) = Inl (ExecError ''Expected expression argument'')"
| "get_func_arg_unnamed (Named (ArgExpr e)) = Inr e"
| "get_func_arg_unnamed (ExprNamed (ArgExpr e)) = Inr e"
| "get_func_arg_unnamed _ = Inl (ExecError ''Expected expression in named argument'')"

end
