(* ===== verification/ValueOps.thy ===== *)
theory ValueOps
  imports SqlAst "HOL-Library.Signed_Division"
begin

text \<open>
  \<open>functions/eval/ops.rs\<close>, \<open>functions/eval/cast.rs\<close> and the LIKE matcher of \<open>builtin.rs\<close>:
  arithmetic with SQL NULL, comparison, equality, the binary and unary operators, truthiness,
  CAST, and the two wildcard matchers.  A Rust panic is the result \<open>None\<close> of the type
  \<open>'a panicking\<close>; the release build, which the mod ships, wraps on overflow but still panics on
  the overflowing division.
\<close>

section \<open>Wildcard matching\<close>

text \<open>\<open>wildcard_match\<close> (REGEXP: \<open>*\<close> and \<open>?\<close>) and \<open>like_match\<close> (LIKE: \<open>%\<close> and \<open>_\<close>) have one shape:
  the characters for any run and for one character differ.  Positions \<open>vi\<close>, \<open>pi\<close> of the code are
  the remaining lists here.\<close>

fun glob_match :: "uchar \<Rightarrow> uchar \<Rightarrow> uchar list \<Rightarrow> uchar list \<Rightarrow> bool"
  and glob_any :: "uchar \<Rightarrow> uchar \<Rightarrow> uchar list \<Rightarrow> uchar list \<Rightarrow> bool" where
  "glob_match any one v [] = (v = [])"
| "glob_match any one v (p # ps) =
     (if p = any then glob_any any one v ps
      else if p = one then (case v of [] \<Rightarrow> False | c # v' \<Rightarrow> glob_match any one v' ps)
      else (case v of [] \<Rightarrow> False | c # v' \<Rightarrow> c = p \<and> glob_match any one v' ps))"
| "glob_any any one [] ps = glob_match any one [] ps"
| "glob_any any one (c # v) ps = (glob_match any one (c # v) ps \<or> glob_any any one v ps)"

definition wildcard_match :: "uchar list \<Rightarrow> uchar list \<Rightarrow> bool" where
  "wildcard_match v p = glob_match 42 63 v p"

definition like_match :: "uchar list \<Rightarrow> uchar list \<Rightarrow> bool" where
  "like_match v p = glob_match 37 95 v p"

definition simple_like :: "rstr \<Rightarrow> rstr \<Rightarrow> bool" where
  "simple_like value pattern = like_match (chars value) (chars pattern)"

text \<open>The language of a pattern, stated without the matcher.\<close>

inductive glob_lang :: "uchar \<Rightarrow> uchar \<Rightarrow> uchar list \<Rightarrow> uchar list \<Rightarrow> bool" for any one where
  glob_nil: "glob_lang any one [] []"
| glob_run: "glob_lang any one ps v \<Longrightarrow> glob_lang any one (any # ps) (u @ v)"
| glob_one: "one \<noteq> any \<Longrightarrow> glob_lang any one ps v \<Longrightarrow> glob_lang any one (one # ps) (c # v)"
| glob_lit: "p \<noteq> any \<Longrightarrow> p \<noteq> one \<Longrightarrow> glob_lang any one ps v \<Longrightarrow> glob_lang any one (p # ps) (p # v)"

inductive_simps glob_lang_Nil: "glob_lang any one [] v"
inductive_simps glob_lang_Cons: "glob_lang any one (p # ps) v"

lemma glob_any_iff:
  "glob_any any one v ps \<longleftrightarrow> (\<exists>u w. v = u @ w \<and> glob_match any one w ps)"
proof (induction v)
  case Nil
  then show ?case by simp
next
  case (Cons c v)
  then show ?case by (auto simp: Cons_eq_append_conv)
qed

lemma glob_match_iff_lang: "glob_match any one v ps \<longleftrightarrow> glob_lang any one ps v"
proof (induction ps arbitrary: v)
  case Nil
  then show ?case by (simp add: glob_lang_Nil)
next
  case (Cons p ps)
  show ?case
    by (cases v) (auto simp: glob_any_iff Cons.IH glob_lang_Cons)
qed

section \<open>Truth and numbers\<close>

fun is_truthy :: "db_value \<Rightarrow> bool" where
  "is_truthy DNull = False"
| "is_truthy (DBool b) = b"
| "is_truthy (DInt n) = (n \<noteq> 0)"
| "is_truthy (DFloat f) = (\<not> f64_eq f f64_zero)"
| "is_truthy (DString s) = (s \<noteq> [])"
| "is_truthy (DStrings a) = (a \<noteq> [])"
| "is_truthy (DFloats a) = (a \<noteq> [])"

text \<open>Rust's \<open>/\<close> on \<open>i64\<close>: truncating; \<open>None\<close> is the panic of \<open>i64::MIN / -1\<close> (a zero divisor is
  guarded before).\<close>

definition i64_div :: "i64 \<Rightarrow> i64 \<Rightarrow> i64 option" where
  "i64_div x y =
     (if y = 0 \<or> (sint x = i64_min \<and> sint y = -1) then None
      else Some (word_of_int (sint x sdiv sint y)))"

type_synonym 'a panicking = "'a option"

datatype arith = AAdd | ASub | AMul | ADiv

fun int_arith :: "arith \<Rightarrow> i64 \<Rightarrow> i64 \<Rightarrow> i64 option" where
  "int_arith AAdd x y = Some (x + y)"
| "int_arith ASub x y = Some (x - y)"
| "int_arith AMul x y = Some (x * y)"
| "int_arith ADiv x y = i64_div x y"

fun float_arith :: "arith \<Rightarrow> f64 \<Rightarrow> f64 \<Rightarrow> f64" where
  "float_arith AAdd x y = f64_add x y"
| "float_arith ASub x y = f64_sub x y"
| "float_arith AMul x y = f64_mul x y"
| "float_arith ADiv x y = f64_div x y"

text \<open>\<open>arith_op\<close>.  \<open>None\<close> is a panic.\<close>

definition arith_op :: "arith \<Rightarrow> db_value \<Rightarrow> db_value \<Rightarrow> db_value eres panicking" where
  "arith_op op a b =
     (if a = DNull \<or> b = DNull then Some (Inr DNull)
      else case (a, b) of
        (DInt x, DInt y) \<Rightarrow>
          (if op = ADiv \<and> y = 0 then Some (Inl (ExecError ''Division by zero''))
           else map_option (\<lambda>n. Inr (DInt n)) (int_arith op x y))
      | _ \<Rightarrow> (case (to_float a, to_float b) of
                (Some x, Some y) \<Rightarrow> Some (Inr (DFloat (float_arith op x y)))
              | _ \<Rightarrow> Some (Inl (TypeError ''numeric type'' (db_display a @ '' vs '' @ db_display b)))))"

text \<open>\<open>cmp_values\<close>: a comparison with NULL is false.\<close>

definition cmp_values :: "(ordering \<Rightarrow> bool) \<Rightarrow> db_value \<Rightarrow> db_value \<Rightarrow> db_value" where
  "cmp_values p a b =
     (if a = DNull \<or> b = DNull then DBool False else DBool (p (db_value_cmp a b)))"

text \<open>\<open>f64::EPSILON\<close> is \<open>2 ^ -52\<close>.\<close>

definition f64_epsilon :: f64 where
  "f64_epsilon = f64_of_mag False (971 * 2 ^ 52)"

definition f64_close :: "f64 \<Rightarrow> f64 \<Rightarrow> bool" where
  "f64_close x y = f64_lt (f64_abs (f64_sub x y)) f64_epsilon"

text \<open>\<open>values_equal_builtin\<close>, the \<open>=\<close> of SQL.\<close>

definition values_equal :: "db_value \<Rightarrow> db_value \<Rightarrow> bool" where
  "values_equal a b =
     (if a = DNull \<or> b = DNull then False
      else case (a, b) of
        (DInt x, DInt y) \<Rightarrow> x = y
      | (DFloat x, DFloat y) \<Rightarrow> f64_close x y
      | (DInt x, DFloat y) \<Rightarrow> f64_close (i64_as_f64 x) y
      | (DFloat x, DInt y) \<Rightarrow> f64_close x (i64_as_f64 y)
      | (DBool x, DBool y) \<Rightarrow> x = y
      | (DString x, DString y) \<Rightarrow> x = y
      | _ \<Rightarrow> value_to_string a = value_to_string b)"

section \<open>Operators\<close>

fun apply_binary_op :: "unicode \<Rightarrow> db_value \<Rightarrow> bin_op \<Rightarrow> db_value \<Rightarrow> db_value eres panicking" where
  "apply_binary_op U l OpEq r = Some (Inr (DBool (values_equal l r)))"
| "apply_binary_op U l OpNotEq r = Some (Inr (DBool (\<not> values_equal l r)))"
| "apply_binary_op U l OpLt r = Some (Inr (cmp_values (\<lambda>c. c = Less) l r))"
| "apply_binary_op U l OpLtEq r = Some (Inr (cmp_values (\<lambda>c. c \<noteq> Greater) l r))"
| "apply_binary_op U l OpGt r = Some (Inr (cmp_values (\<lambda>c. c = Greater) l r))"
| "apply_binary_op U l OpGtEq r = Some (Inr (cmp_values (\<lambda>c. c \<noteq> Less) l r))"
| "apply_binary_op U l OpPlus r = arith_op AAdd l r"
| "apply_binary_op U l OpMinus r = arith_op ASub l r"
| "apply_binary_op U l OpMultiply r = arith_op AMul l r"
| "apply_binary_op U l OpDivide r = arith_op ADiv l r"
| "apply_binary_op U l OpModulo r =
     (case (to_float l, to_float r) of
        (Some a, Some b) \<Rightarrow>
          (if \<not> f64_eq b f64_zero then Some (Inr (DFloat (f64_rem a b)))
           else Some (Inl (TypeError ''numeric operands'' (db_debug U l @ '' and '' @ db_debug U r))))
      | _ \<Rightarrow> Some (Inl (TypeError ''numeric operands'' (db_debug U l @ '' and '' @ db_debug U r))))"
| "apply_binary_op U l OpAnd r = Some (Inr (DBool (is_truthy l \<and> is_truthy r)))"
| "apply_binary_op U l OpOr r = Some (Inr (DBool (is_truthy l \<or> is_truthy r)))"
| "apply_binary_op U l OpStringConcat r = Some (Inr (DString (value_to_string l @ value_to_string r)))"
| "apply_binary_op U l OpRegexp r =
     Some (Inr (DBool (wildcard_match (chars (value_to_string l)) (chars (value_to_string r)))))"
| "apply_binary_op U l OpMatch r =
     Some (Inr (DBool (contains_sub (to_lowercase U (value_to_string l)) (to_lowercase U (value_to_string r)))))"
| "apply_binary_op U l (OpOther d) r = Some (Inl (ExecError (''Unsupported operator: '' @ d)))"

text \<open>\<open>apply_unary_op\<close>; negation wraps in the release build.\<close>

fun apply_unary_op :: "un_op \<Rightarrow> db_value \<Rightarrow> db_value eres" where
  "apply_unary_op UnNot v = Inr (DBool (\<not> is_truthy v))"
| "apply_unary_op UnPlus v = Inr v"
| "apply_unary_op UnMinus v =
     (case v of
        DInt n \<Rightarrow> Inr (DInt (- n))
      | DFloat f \<Rightarrow> Inr (DFloat (f64_neg f))
      | _ \<Rightarrow> Inl (TypeError ''numeric'' (db_display v)))"
| "apply_unary_op (UnOther d) v = Inl (ExecError (''Unsupported unary operator: '' @ d))"

section \<open>CAST\<close>

fun cast_bool :: "unicode \<Rightarrow> db_value \<Rightarrow> db_value eres" where
  "cast_bool U (DBool b) = Inr (DBool b)"
| "cast_bool U (DInt i) = Inr (DBool (i \<noteq> 0))"
| "cast_bool U (DFloat _) = Inr (DBool True)"
| "cast_bool U (DString s) =
     (let l = to_lowercase U s
      in if l = ''true'' \<or> l = ''1'' \<or> l = ''yes'' then Inr (DBool True)
         else if l = ''false'' \<or> l = ''0'' \<or> l = ''no'' then Inr (DBool False)
         else Inl (TypeError ''BOOL'' (''string '' @ [CHR 39] @ s @ [CHR 39])))"
| "cast_bool U DNull = Inr DNull"
| "cast_bool U v = Inl (TypeError ''BOOL'' (db_debug U v))"

fun cast_int :: "unicode \<Rightarrow> db_value \<Rightarrow> db_value eres" where
  "cast_int U (DInt i) = Inr (DInt i)"
| "cast_int U (DFloat f) = Inr (DInt (f64_as_i64 f))"
| "cast_int U (DString s) =
     (if trim s = [] then Inr (DInt 0)
      else case parse_i64 (trim s) of
             Some n \<Rightarrow> Inr (DInt n)
           | None \<Rightarrow> Inl (TypeError ''INT'' (''string '' @ [CHR 39] @ s @ [CHR 39])))"
| "cast_int U (DBool b) = Inr (DInt (if b then 1 else 0))"
| "cast_int U DNull = Inr DNull"
| "cast_int U v = Inl (TypeError ''INT'' (db_debug U v))"

fun cast_float :: "unicode \<Rightarrow> db_value \<Rightarrow> db_value eres" where
  "cast_float U (DInt i) = Inr (DFloat (i64_as_f64 i))"
| "cast_float U (DFloat f) = Inr (DFloat f)"
| "cast_float U (DString s) =
     (if trim s = [] then Inr (DFloat f64_zero)
      else case parse_f64 (trim s) of
             Some f \<Rightarrow> Inr (DFloat f)
           | None \<Rightarrow> Inl (TypeError ''FLOAT'' (''string '' @ [CHR 39] @ s @ [CHR 39])))"
| "cast_float U (DBool b) = Inr (DFloat (f64_of_int (if b then 1 else 0)))"
| "cast_float U DNull = Inr DNull"
| "cast_float U v = Inl (TypeError ''FLOAT'' (db_debug U v))"

text \<open>\<open>cast_db_value\<close>: text types and every other type render with \<open>Display\<close>.\<close>

definition cast_db_value :: "unicode \<Rightarrow> db_value \<Rightarrow> data_type \<Rightarrow> db_value eres" where
  "cast_db_value U v t =
     (if t = DtBool \<or> t = DtBoolean then cast_bool U v
      else if t = DtInt \<or> t = DtBigInt \<or> t = DtSmallInt \<or> t = DtTinyInt then cast_int U v
      else if t = DtFloat \<or> t = DtDouble \<or> t = DtReal \<or> t = DtDecimal \<or> t = DtNumeric then cast_float U v
      else Inr (DString (db_display v)))"

section \<open>Lemmas\<close>

lemma int_arith_sint:
  "int_arith AAdd x y = Some z \<Longrightarrow> sint z = signed_take_bit 63 (sint x + sint y)"
  "int_arith ASub x y = Some z \<Longrightarrow> sint z = signed_take_bit 63 (sint x - sint y)"
  "int_arith AMul x y = Some z \<Longrightarrow> sint z = signed_take_bit 63 (sint x * sint y)"
  by (auto simp: sint_word_ariths)

lemma arith_op_panics_iff:
  "arith_op op a b = None \<longleftrightarrow>
     op = ADiv \<and> (\<exists>x y. a = DInt x \<and> b = DInt y \<and> sint x = i64_min \<and> sint y = -1)"
  by (cases op; cases a; cases b)
    (auto simp: arith_op_def i64_div_def split: option.splits)

lemma values_equal_sym_ints: "values_equal (DInt x) (DInt y) = values_equal (DInt y) (DInt x)"
  by (auto simp: values_equal_def)

end
