(* ===== verification/Dates.thy ===== *)
theory Dates
  imports SqlAst "HOL-Library.Signed_Division"
begin

text \<open>
  The calendar of \<open>functions/builtin.rs\<close>: the day number of a date and the date of a day number (in the
  unsigned arithmetic of the code), the texts of the clock, the modifiers of \<open>datetime()\<close> and the reader of
  ISO dates.  Sums and products wrap at 64 bits; divisions of signed numbers truncate.
\<close>

definition sdiv64 :: "i64 \<Rightarrow> i64 \<Rightarrow> i64" where
  "sdiv64 a b = word_of_int (sint a sdiv sint b)"

definition smod64 :: "i64 \<Rightarrow> i64 \<Rightarrow> i64" where
  "smod64 a b = word_of_int (sint a smod sint b)"

section \<open>Dates of days\<close>

text \<open>Year, month and day of the day \<open>doe\<close> of the 400-year era \<open>era\<close>; eras start on 1 March.\<close>

definition civil_of_era :: "u64 \<Rightarrow> u64 \<Rightarrow> u64 \<times> u64 \<times> u64" where
  "civil_of_era era doe =
     (let yoe = (doe - doe div 1460 + doe div 36524 - doe div 146096) div 365;
          y = yoe + era * 400;
          doy = doe - (365 * yoe + yoe div 4 - yoe div 100);
          mp = (5 * doy + 2) div 153;
          d = doy - (153 * mp + 2) div 5 + 1;
          m = (if mp < 10 then mp + 3 else mp - 9)
      in (if m \<le> 2 then y + 1 else y, m, d))"

text \<open>\<open>z\<close> counts the days from 1 March of the year 0.\<close>

definition civil_of_days :: "i64 \<Rightarrow> u64 \<times> u64 \<times> u64" where
  "civil_of_days z = (let era = sdiv64 z 146097 in civil_of_era era (z - era * 146097))"

text \<open>The same with signed divisions throughout, as \<open>curdate_value\<close> has it.\<close>

definition civil_signed :: "i64 \<Rightarrow> i64 \<times> i64 \<times> i64" where
  "civil_signed z =
     (let era = sdiv64 z 146097;
          doe = z - era * 146097;
          yoe = sdiv64 (doe - sdiv64 doe 1460 + sdiv64 doe 36524 - sdiv64 doe 146096) 365;
          y = yoe + era * 400;
          doy = doe - (365 * yoe + sdiv64 yoe 4 - sdiv64 yoe 100);
          mp = sdiv64 (5 * doy + 2) 153;
          d = doy - sdiv64 (153 * mp + 2) 5 + 1;
          m = (if sint mp < 10 then mp + 3 else mp - 9)
      in (if sint m \<le> 2 then y + 1 else y, m, d))"

text \<open>\<open>{:0w}\<close> of an \<open>i64\<close>: the sign counts as a place.\<close>

definition pad_int :: "nat \<Rightarrow> i64 \<Rightarrow> rstr" where
  "pad_int w n =
     (if sint n < 0 then CHR ''-'' # pad_dec (w - 1) (nat (- sint n)) else pad_dec w (nat (sint n)))"

definition pad_u64 :: "nat \<Rightarrow> u64 \<Rightarrow> rstr" where
  "pad_u64 w n = pad_dec w (unat n)"

definition epoch_to_datetime :: "i64 \<Rightarrow> rstr" where
  "epoch_to_datetime secs =
     (let (y, m, d) = civil_of_days (sdiv64 secs 86400 + 719468)
      in pad_u64 4 y @ ''-'' @ pad_u64 2 m @ ''-'' @ pad_u64 2 d @ '' '' @
         pad_int 2 (smod64 (sdiv64 secs 3600) 24) @ '':'' @ pad_int 2 (smod64 (sdiv64 secs 60) 60) @ '':'' @
         pad_int 2 (smod64 secs 60))"

text \<open>The clock: \<open>secs\<close> are the seconds of \<open>SystemTime::now()\<close> since 1970.\<close>

definition now_text :: "u64 \<Rightarrow> rstr" where
  "now_text secs =
     (let (y, m, d) = civil_of_days (secs div 86400 + 719468)
      in pad_u64 4 y @ ''-'' @ pad_u64 2 m @ ''-'' @ pad_u64 2 d @ ''T'' @
         pad_u64 2 (secs div 3600 mod 24) @ '':'' @ pad_u64 2 (secs div 60 mod 60) @ '':'' @ pad_u64 2 (secs mod 60))"

definition curdate_text :: "u64 \<Rightarrow> rstr" where
  "curdate_text secs =
     (let (y, m, d) = civil_signed (sdiv64 secs 86400 + 719468)
      in pad_int 4 y @ ''-'' @ pad_int 2 m @ ''-'' @ pad_int 2 d)"

section \<open>Days of dates\<close>

definition date_to_days :: "i64 \<Rightarrow> i64 \<Rightarrow> i64 \<Rightarrow> i64" where
  "date_to_days y m d =
     (let (adj_m, adj_y) = (if sint m \<le> 2 then (m + 9, y - 1) else (m - 3, y));
          era = (if 0 \<le> sint adj_y then sdiv64 adj_y 400 else sdiv64 (adj_y - 399) 400);
          yoe = adj_y - era * 400;
          doy = sdiv64 (153 * adj_m + 2) 5 + d - 1;
          doe = yoe * 365 + sdiv64 yoe 4 - sdiv64 yoe 100 + doy
      in era * 146097 + doe - 719468)"

section \<open>Modifiers\<close>

text \<open>\<open>splitn(2, char::is_whitespace)\<close>: what is before and, when there is white space, after the first one.\<close>

definition split_space :: "rstr \<Rightarrow> rstr \<times> rstr option" where
  "split_space s =
     (let cs = chars s; a = takeWhile (\<lambda>c. \<not> is_whitespace c) cs
      in (utf8 a, if length a < length cs then Some (utf8 (drop (length a + 1) cs)) else None))"

fun unit_seconds :: "rstr \<Rightarrow> i64 option" where
  "unit_seconds u =
     (if u = ''seconds'' \<or> u = ''second'' then Some 1
      else if u = ''minutes'' \<or> u = ''minute'' then Some 60
      else if u = ''hours'' \<or> u = ''hour'' then Some 3600
      else if u = ''days'' \<or> u = ''day'' then Some 86400
      else if u = ''weeks'' \<or> u = ''week'' then Some (7 * 86400)
      else if u = ''months'' \<or> u = ''month'' then Some (30 * 86400)
      else if u = ''years'' \<or> u = ''year'' then Some (365 * 86400)
      else None)"

text \<open>A number and a unit; \<open>neg\<close> negates the number.\<close>

definition quantity_seconds :: "bool \<Rightarrow> rstr \<Rightarrow> i64 option" where
  "quantity_seconds neg s =
     (case split_space s of
        (num, Some rest) \<Rightarrow>
          (case (parse_i64 num, unit_seconds (trim rest)) of
             (Some n, Some k) \<Rightarrow> Some ((if neg then - n else n) * k)
           | _ \<Rightarrow> None)
      | (num, None) \<Rightarrow> None)"

definition parse_sqlite_date_modifier :: "rstr \<Rightarrow> i64 option" where
  "parse_sqlite_date_modifier m =
     (let t = trim m
      in if t = ''localtime'' \<or> t = ''utc'' then Some 0
         else case t of
                CHR ''+'' # rest \<Rightarrow> quantity_seconds False rest
              | CHR ''-'' # rest \<Rightarrow> quantity_seconds True rest
              | _ \<Rightarrow> quantity_seconds False t)"

fun modifier_text :: "unicode \<Rightarrow> func_arg \<Rightarrow> rstr" where
  "modifier_text U (Unnamed (ArgExpr (Value (SqlSingleQuoted s)))) = to_lowercase U s"
| "modifier_text U (Unnamed (ArgExpr (Value (SqlDoubleQuoted s)))) = to_lowercase U s"
| "modifier_text U (Unnamed (ArgExpr (Value (SqlTripleQuoted s d)))) = to_lowercase U s"
| "modifier_text U _ = []"

text \<open>The sum of the modifiers, or the first one that is not understood.\<close>

fun sum_modifiers :: "rstr list \<Rightarrow> i64 \<Rightarrow> rstr + i64" where
  "sum_modifiers [] acc = Inr acc"
| "sum_modifiers (m # ms) acc =
     (case parse_sqlite_date_modifier m of Some d \<Rightarrow> sum_modifiers ms (acc + d) | None \<Rightarrow> Inl m)"

definition datetime_from_args :: "unicode \<Rightarrow> u64 \<Rightarrow> rstr \<Rightarrow> func_arg list \<Rightarrow> rstr eres" where
  "datetime_from_args U secs name args =
     (case map (modifier_text U) args of
        [] \<Rightarrow> Inl (ExecError (name @ ''() requires at least '' @ [CHR 0x27] @ ''now'' @ [CHR 0x27]))
      | base # mods \<Rightarrow>
          (if base \<noteq> ''now'' then Inl (ExecError (name @ ''() base must be '' @ [CHR 0x27] @ ''now'' @ [CHR 0x27]))
           else case sum_modifiers mods 0 of
                  Inl m \<Rightarrow> Inl (ExecError (''Unsupported '' @ name @ ''() modifier '' @ [CHR 0x27] @ m @ [CHR 0x27]))
                | Inr delta \<Rightarrow> Inr (epoch_to_datetime (secs + delta))))"

section \<open>ISO dates\<close>

fun split_on :: "char \<Rightarrow> rstr \<Rightarrow> rstr list" where
  "split_on c [] = [[]]"
| "split_on c (x # xs) =
     (if x = c then [] # split_on c xs
      else case split_on c xs of [] \<Rightarrow> [[x]] | p # ps \<Rightarrow> (x # p) # ps)"

text \<open>\<open>t.get(i).and_then(parse).unwrap_or(0)\<close>.\<close>

definition part_or_zero :: "rstr list \<Rightarrow> nat \<Rightarrow> i64" where
  "part_or_zero ps i = (if i < length ps then (case parse_i64 (ps ! i) of Some n \<Rightarrow> n | None \<Rightarrow> 0) else 0)"

definition parse_time :: "rstr \<Rightarrow> i64 \<times> i64 \<times> i64" where
  "parse_time tp =
     (let t = split_on CHR '':'' tp
      in (part_or_zero t 0, part_or_zero t 1, part_or_zero (map (\<lambda>s. hd (split_on CHR ''.'' s)) t) 2))"

text \<open>The byte of the first \<open>T\<close>, or of the first space.\<close>

definition time_mark :: "rstr \<Rightarrow> nat option" where
  "time_mark s = (case find_sub s ''T'' of Some p \<Rightarrow> Some p | None \<Rightarrow> find_sub s '' '')"

definition parse_iso_date :: "rstr \<Rightarrow> (i64 \<times> i64 \<times> i64 \<times> i64 \<times> i64 \<times> i64) option" where
  "parse_iso_date s0 =
     (let s = trim s0;
          (date_part, time) = (case time_mark s of
              Some p \<Rightarrow> (take p s, parse_time (drop (p + 1) s)) | None \<Rightarrow> (s, (0, 0, 0)))
      in case split_on CHR ''-'' date_part of
           [ys, ms, ds] \<Rightarrow>
             (case (parse_i64 ys, parse_i64 ms, parse_i64 ds) of
                (Some y, Some m, Some d) \<Rightarrow> (case time of (h, mi, sec) \<Rightarrow> Some (y, m, d, h, mi, sec))
              | _ \<Rightarrow> None)
         | _ \<Rightarrow> None)"

end
