(* ===== verification/ScalarFunctions.thy ===== *)
theory ScalarFunctions
  imports ValueOps Dates
begin

text \<open>
  \<open>exec_std_function\<close> of \<open>functions/builtin.rs\<close>: the scalar functions.  A call gets its arguments as
  results, in order, each of which may be an error or a panic: what the code evaluates on demand is looked
  at on demand.  The clock, random numbers, the counters of the last statement, the SQF evaluator and the
  two powers of the math library are an environment.
\<close>

record std_env =
  env_unicode :: unicode
  env_secs :: u64  \<comment> \<open>the clock: seconds since 1970\<close>
  env_random :: i64
  env_rowid :: "rstr option"  \<comment> \<open>\<open>LAST_INSERT_ROWID\<close>\<close>
  env_changes :: u64  \<comment> \<open>\<open>LAST_CHANGES\<close>\<close>
  env_sqf :: "rstr \<Rightarrow> db_value sres"
  env_powf :: "f64 \<Rightarrow> f64 \<Rightarrow> f64"
  env_pow10 :: "u32 \<Rightarrow> f64"

definition now_value :: "'z std_env_scheme \<Rightarrow> db_value" where
  "now_value E = DString (now_text (env_secs E))"

definition curdate_value :: "'z std_env_scheme \<Rightarrow> db_value" where
  "curdate_value E = DString (curdate_text (env_secs E))"

text \<open>Sequencing: a panic and an error both stop.\<close>

definition pbind :: "'a eres panicking \<Rightarrow> ('a \<Rightarrow> 'b eres panicking) \<Rightarrow> 'b eres panicking" where
  "pbind r f = (case r of None \<Rightarrow> None | Some (Inl e) \<Rightarrow> Some (Inl e) | Some (Inr x) \<Rightarrow> f x)"

lemma pbind_simps [simp]:
  "pbind None f = None"
  "pbind (Some (Inl e)) f = Some (Inl e)"
  "pbind (Some (Inr x)) f = f x"
  by (simp_all add: pbind_def)

lemma pbind_cong [fundef_cong]:
  "r = r' \<Longrightarrow> (\<And>x. r' = Some (Inr x) \<Longrightarrow> f x = g x) \<Longrightarrow> pbind r f = pbind r' g"
  by (auto simp: pbind_def split: option.splits sum.splits)

lemma pbind_Inr_iff: "pbind r f = Some (Inr y) \<longleftrightarrow> (\<exists>x. r = Some (Inr x) \<and> f x = Some (Inr y))"
  by (auto simp: pbind_def split: option.splits sum.splits)

abbreviation pok :: "'a \<Rightarrow> 'a eres panicking" where "pok x \<equiv> Some (Inr x)"
abbreviation perr :: "engine_error \<Rightarrow> 'a eres panicking" where "perr e \<equiv> Some (Inl e)"

text \<open>\<open>builtin::to_f64\<close>.\<close>

fun to_f64 :: "db_value \<Rightarrow> f64 option" where
  "to_f64 (DInt n) = Some (i64_as_f64 n)"
| "to_f64 (DFloat f) = Some f"
| "to_f64 _ = None"

definition round_with :: "'z std_env_scheme \<Rightarrow> (f64 \<Rightarrow> f64) \<Rightarrow> db_value \<Rightarrow> db_value eres panicking" where
  "round_with E f v =
     (case to_f64 v of
        Some x \<Rightarrow> pok (DFloat (f x))
      | None \<Rightarrow> perr (TypeError ''numeric'' (db_debug (env_unicode E) v)))"

text \<open>\<open>i.max(1) as usize - 1\<close>.\<close>

definition substr_start :: "i64 \<Rightarrow> nat" where
  "substr_start i = nat (max (sint i) 1) - 1"

section \<open>Arguments\<close>

type_synonym arg_result = "db_value eres panicking"

fun all_values :: "arg_result list \<Rightarrow> db_value list eres panicking" where
  "all_values [] = pok []"
| "all_values (r # rs) = pbind r (\<lambda>v. pbind (all_values rs) (\<lambda>vs. pok (v # vs)))"

text \<open>\<open>eval_args(n)\<close>.\<close>

definition take_args :: "rstr \<Rightarrow> arg_result list \<Rightarrow> nat \<Rightarrow> db_value list eres panicking" where
  "take_args name rs n =
     (if length rs < n then perr (ExecError ([CHR 0x27] @ name @ [CHR 0x27] @ '' requires '' @ dec_nat n @ '' argument(s)''))
      else all_values (take n rs))"

text \<open>\<open>or_else\<close>: another attempt after an error.\<close>

definition or_else :: "'a eres panicking \<Rightarrow> 'a eres panicking \<Rightarrow> 'a eres panicking" where
  "or_else a b = (case a of Some (Inl _) \<Rightarrow> b | _ \<Rightarrow> a)"

definition args_list :: "func_args \<Rightarrow> func_arg list" where
  "args_list args = (case args of ArgList as \<Rightarrow> as | _ \<Rightarrow> [])"

definition text_result :: "rstr eres panicking \<Rightarrow> arg_result" where
  "text_result r = pbind r (\<lambda>s. pok (DString s))"

definition type_error :: "'z std_env_scheme \<Rightarrow> rstr \<Rightarrow> db_value \<Rightarrow> engine_error" where
  "type_error E expected v = TypeError expected (db_debug (env_unicode E) v)"

text \<open>One or two leading values of an argument list that has them.\<close>

abbreviation val0 :: "db_value list \<Rightarrow> db_value" where "val0 vs \<equiv> vs ! 0"
abbreviation val1 :: "db_value list \<Rightarrow> db_value" where "val1 vs \<equiv> vs ! 1"

section \<open>Text\<close>

definition substr_value :: "'z std_env_scheme \<Rightarrow> db_value list \<Rightarrow> arg_result" where
  "substr_value E vs =
     (case val1 vs of
        DInt i \<Rightarrow>
          (let cs = drop (substr_start i) (chars (value_to_string (val0 vs)))
           in if length vs < 3 then pok (DString (utf8 cs))
              else case vs ! 2 of
                     DInt n \<Rightarrow> pok (DString (utf8 (take (unat n) cs)))
                   | v \<Rightarrow> perr (type_error E ''integer'' v))
      | v \<Rightarrow> perr (type_error E ''integer'' v))"

definition text_function :: "'z std_env_scheme \<Rightarrow> rstr \<Rightarrow> arg_result list \<Rightarrow> arg_result option" where
  "text_function E name rs =
     (let one = (\<lambda>f. pbind (take_args name rs 1) (\<lambda>vs. pok (f (value_to_string (val0 vs)))))
      in if name = ''upper'' \<or> name = ''ucase'' then Some (one (\<lambda>s. DString (to_uppercase (env_unicode E) s)))
         else if name = ''lower'' \<or> name = ''lcase'' then Some (one (\<lambda>s. DString (to_lowercase (env_unicode E) s)))
         else if name = ''length'' \<or> name = ''len'' then Some (one (\<lambda>s. DInt (of_nat (length s))))
         else if name = ''substr'' \<or> name = ''substring''
         then Some (pbind (or_else (take_args name rs 3) (take_args name rs 2)) (substr_value E))
         else if name = ''trim'' then Some (one (\<lambda>s. DString (trim s)))
         else None)"

fun coalesce :: "arg_result list \<Rightarrow> arg_result" where
  "coalesce [] = pok DNull"
| "coalesce (r # rs) = pbind r (\<lambda>v. if v \<noteq> DNull then pok v else coalesce rs)"

definition null_function :: "rstr \<Rightarrow> arg_result list \<Rightarrow> arg_result option" where
  "null_function name rs =
     (if name = ''coalesce'' \<or> name = ''ifnull'' then Some (coalesce rs)
      else if name = ''nullif''
      then Some (pbind (take_args name rs 2) (\<lambda>vs. pok (if db_eq (val0 vs) (val1 vs) then DNull else val0 vs)))
      else None)"

section \<open>Rounding\<close>

definition round_value :: "'z std_env_scheme \<Rightarrow> db_value list \<Rightarrow> arg_result" where
  "round_value E vs =
     (case to_f64 (val0 vs) of
        None \<Rightarrow> perr (type_error E ''numeric'' (val0 vs))
      | Some x \<Rightarrow>
          pbind (if length vs < 2 then pok 0
                 else case val1 vs of DInt i \<Rightarrow> pok (ucast i) | v \<Rightarrow> perr (type_error E ''integer'' v)) (\<lambda>decimals.
            let k = env_pow10 E decimals in pok (DFloat (f64_div (f64_round_away (f64_mul x k)) k))))"

definition abs_value :: "'z std_env_scheme \<Rightarrow> db_value \<Rightarrow> arg_result" where
  "abs_value E v =
     (case v of
        DInt i \<Rightarrow> pok (DInt (if sint i < 0 then - i else i))
      | DFloat f \<Rightarrow> pok (DFloat (f64_abs f))
      | _ \<Rightarrow> perr (type_error E ''numeric'' v))"

definition round_function :: "'z std_env_scheme \<Rightarrow> rstr \<Rightarrow> arg_result list \<Rightarrow> arg_result option" where
  "round_function E name rs =
     (if name = ''round'' then Some (pbind (or_else (take_args name rs 2) (take_args name rs 1)) (round_value E))
      else if name = ''abs'' then Some (pbind (take_args name rs 1) (\<lambda>vs. abs_value E (val0 vs)))
      else None)"

section \<open>Dates\<close>

text \<open>Texts with \<open>%\<close> fields: \<open>field\<close> gives the known ones, \<open>other\<close> the rest.\<close>

fun format_fields :: "(uchar \<Rightarrow> rstr option) \<Rightarrow> (uchar \<Rightarrow> rstr) \<Rightarrow> uchar list \<Rightarrow> rstr" where
  "format_fields field other [] = []"
| "format_fields field other (c # cs) =
     (if c \<noteq> 37 then utf8 [c] @ format_fields field other cs
      else case cs of
             [] \<Rightarrow> ''%''
           | o1 # ds \<Rightarrow> (case field o1 of Some s \<Rightarrow> s | None \<Rightarrow> other o1) @ format_fields field other ds)"

definition byte_slice :: "nat \<Rightarrow> nat \<Rightarrow> rstr \<Rightarrow> rstr" where
  "byte_slice i j s = take (j - i) (drop i s)"

text \<open>The fields of strftime are slices of the text \<open>YYYY-MM-DD HH:MM:SS\<close>: Y m d H M S and the percent sign.\<close>

definition strftime_field :: "rstr \<Rightarrow> uchar \<Rightarrow> rstr option" where
  "strftime_field dt c =
     (if c = 89 then Some (byte_slice 0 4 dt) else if c = 109 then Some (byte_slice 5 7 dt)
      else if c = 100 then Some (byte_slice 8 10 dt) else if c = 72 then Some (byte_slice 11 13 dt)
      else if c = 77 then Some (byte_slice 14 16 dt) else if c = 83 then Some (byte_slice 17 19 dt)
      else if c = 37 then Some ''%'' else None)"

fun strftime_format :: "func_arg list \<Rightarrow> rstr option" where
  "strftime_format (Unnamed (ArgExpr (Value (SqlSingleQuoted s))) # _) = Some s"
| "strftime_format (Unnamed (ArgExpr (Value (SqlDoubleQuoted s))) # _) = Some s"
| "strftime_format _ = None"

definition strftime :: "'z std_env_scheme \<Rightarrow> rstr \<Rightarrow> func_arg list \<Rightarrow> rstr eres" where
  "strftime E name args =
     (case strftime_format args of
        None \<Rightarrow> Inl (ExecError ''strftime format must be a string'')
      | Some fmt \<Rightarrow>
          bind_res (datetime_from_args (env_unicode E) (env_secs E) name (tl args)) (\<lambda>dt.
            Inr (format_fields (strftime_field dt) (\<lambda>c. ''%'' @ utf8 [c]) (chars fmt))))"

definition clock_function :: "'z std_env_scheme \<Rightarrow> rstr \<Rightarrow> func_arg list \<Rightarrow> arg_result option" where
  "clock_function E name args =
     (let dt = datetime_from_args (env_unicode E) (env_secs E) name args
      in if name = ''now'' \<or> name = ''current_timestamp'' then Some (pok (now_value E))
         else if name = ''curdate'' \<or> name = ''current_date'' then Some (pok (curdate_value E))
         else if name = ''datetime'' then Some (text_result (Some dt))
         else if name = ''date'' then Some (text_result (Some (bind_res dt (\<lambda>s. Inr (take 10 s)))))
         else if name = ''time'' then Some (text_result (Some (bind_res dt (\<lambda>s. Inr (take 8 (drop 11 s))))))
         else if name = ''strftime'' then Some (text_result (Some (strftime E name args)))
         else None)"

text \<open>The fields of \<open>date_format\<close> are numbers; an unknown one stands for itself.\<close>

definition date_field :: "i64 \<times> i64 \<times> i64 \<times> i64 \<times> i64 \<times> i64 \<Rightarrow> uchar \<Rightarrow> rstr option" where
  "date_field parts c =
     (case parts of (y, m, d, h, mi, sec) \<Rightarrow>
        if c = 89 then Some (pad_int 4 y) else if c = 109 then Some (pad_int 2 m)
        else if c = 100 then Some (pad_int 2 d) else if c = 72 then Some (pad_int 2 h)
        else if c = 77 then Some (pad_int 2 mi) else if c = 83 then Some (pad_int 2 sec) else None)"

definition parsed_date :: "db_value \<Rightarrow> (i64 \<times> i64 \<times> i64 \<times> i64 \<times> i64 \<times> i64) eres" where
  "parsed_date v =
     (case parse_iso_date (value_to_string v) of
        Some p \<Rightarrow> Inr p
      | None \<Rightarrow> Inl (ParseError (''Cannot parse date: '' @ [CHR 0x27] @ value_to_string v @ [CHR 0x27])))"

definition unix_seconds :: "i64 \<times> i64 \<times> i64 \<times> i64 \<times> i64 \<times> i64 \<Rightarrow> i64" where
  "unix_seconds parts =
     (case parts of (y, m, d, h, mi, sec) \<Rightarrow> date_to_days y m d * 86400 + h * 3600 + mi * 60 + sec)"

definition day_number :: "i64 \<times> i64 \<times> i64 \<times> i64 \<times> i64 \<times> i64 \<Rightarrow> i64" where
  "day_number parts = (case parts of (y, m, d, _) \<Rightarrow> date_to_days y m d)"

definition calendar_function :: "'z std_env_scheme \<Rightarrow> rstr \<Rightarrow> arg_result list \<Rightarrow> arg_result option" where
  "calendar_function E name rs =
     (if name = ''unix_timestamp''
      then Some (if rs = [] then pok (DInt (env_secs E))
                 else pbind (take_args name rs 1) (\<lambda>vs. pbind (Some (parsed_date (val0 vs))) (\<lambda>p. pok (DInt (unix_seconds p)))))
      else if name = ''date_format''
      then Some (pbind (take_args name rs 2) (\<lambda>vs. pbind (Some (parsed_date (val0 vs))) (\<lambda>p.
             pok (DString (format_fields (date_field p) (\<lambda>c. utf8 [c]) (chars (value_to_string (val1 vs))))))))
      else if name = ''datediff''
      then Some (pbind (take_args name rs 2) (\<lambda>vs. pbind (Some (parsed_date (val0 vs))) (\<lambda>p.
             pbind (Some (parsed_date (val1 vs))) (\<lambda>q. pok (DInt (day_number p - day_number q))))))
      else None)"

section \<open>The statement and SQF\<close>

text \<open>RAISE is an error here; its flag for the trigger that runs it is set beside.\<close>

definition raise_error :: "rstr \<Rightarrow> arg_result list \<Rightarrow> arg_result" where
  "raise_error name rs =
     (case or_else (take_args name rs 2) (take_args name rs 1) of
        None \<Rightarrow> None
      | Some r \<Rightarrow>
          (let vs = (case r of Inr vs \<Rightarrow> vs | Inl _ \<Rightarrow> [])
           in perr (ExecError (''RAISE: '' @ (if vs = [] then [] else value_to_string (last vs))))))"

definition session_function :: "'z std_env_scheme \<Rightarrow> rstr \<Rightarrow> arg_result list \<Rightarrow> arg_result option" where
  "session_function E name rs =
     (if name = ''concat'' then Some (pbind (all_values rs) (\<lambda>vs. pok (DString (concat (map value_to_string vs)))))
      else if name = ''last_insert_rowid''
      then Some (pok (DString (case env_rowid E of Some r \<Rightarrow> r | None \<Rightarrow> ''0'')))
      else if name = ''changes'' then Some (pok (DInt (env_changes E)))
      else None)"

definition embedded_function :: "'z std_env_scheme \<Rightarrow> rstr \<Rightarrow> arg_result list \<Rightarrow> arg_result option" where
  "embedded_function E name rs =
     (if name = ''raise'' then Some (raise_error name rs)
      else if name = ''sqf_eval''
      then Some (pbind (take_args name rs 1) (\<lambda>vs. case env_sqf E (value_to_string (val0 vs)) of
             Inr v \<Rightarrow> pok v | Inl e \<Rightarrow> perr (ExecError (''SQF_EVAL error: '' @ e))))
      else None)"

section \<open>Numbers\<close>

definition pow_value :: "'z std_env_scheme \<Rightarrow> db_value \<Rightarrow> db_value \<Rightarrow> arg_result" where
  "pow_value E a b =
     (case (to_f64 a, to_f64 b) of
        (Some x, Some y) \<Rightarrow> pok (DFloat (env_powf E x y))
      | (None, _) \<Rightarrow> perr (type_error E ''numeric'' a)
      | _ \<Rightarrow> perr (type_error E ''numeric'' b))"

definition sqrt_value :: "'z std_env_scheme \<Rightarrow> db_value \<Rightarrow> arg_result" where
  "sqrt_value E v =
     (case to_f64 v of
        None \<Rightarrow> perr (type_error E ''numeric'' v)
      | Some x \<Rightarrow>
          (if f64_lt x f64_zero then perr (ExecError ''SQRT: negative argument'') else pok (DFloat (f64_sqrt x))))"

definition sign_value :: "'z std_env_scheme \<Rightarrow> db_value \<Rightarrow> arg_result" where
  "sign_value E v =
     (case to_f64 v of
        None \<Rightarrow> perr (type_error E ''numeric'' v)
      | Some x \<Rightarrow> pok (DInt (if f64_lt f64_zero x then 1 else if f64_lt x f64_zero then - 1 else 0)))"

definition number_function :: "'z std_env_scheme \<Rightarrow> rstr \<Rightarrow> arg_result list \<Rightarrow> arg_result option" where
  "number_function E name rs =
     (let one = (\<lambda>f. pbind (take_args name rs 1) (\<lambda>vs. f (val0 vs)))
      in if name = ''pow'' \<or> name = ''power''
         then Some (pbind (take_args name rs 2) (\<lambda>vs. pow_value E (val0 vs) (val1 vs)))
         else if name = ''sqrt'' then Some (one (sqrt_value E))
         else if name = ''ceil'' \<or> name = ''ceiling'' then Some (one (round_with E f64_ceil))
         else if name = ''floor'' then Some (one (round_with E f64_floor))
         else if name = ''sign'' then Some (one (sign_value E))
         else None)"

section \<open>Searching\<close>

text \<open>\<open>str::replace\<close>; an empty pattern matches between all characters.\<close>

definition replace_text :: "rstr \<Rightarrow> rstr \<Rightarrow> rstr \<Rightarrow> rstr" where
  "replace_text s pat rep =
     (if pat = [] then rep @ concat (map (\<lambda>c. utf8 [c] @ rep) (chars s)) else replace_all s pat rep)"

definition trim_set :: "db_value list \<Rightarrow> uchar list" where
  "trim_set vs = (if length vs < 2 then [32] else chars (value_to_string (val1 vs)))"

definition ltrim_value :: "db_value list \<Rightarrow> rstr" where
  "ltrim_value vs = utf8 (dropWhile (\<lambda>c. c \<in> set (trim_set vs)) (chars (value_to_string (val0 vs))))"

definition rtrim_value :: "db_value list \<Rightarrow> rstr" where
  "rtrim_value vs = utf8 (rev (dropWhile (\<lambda>c. c \<in> set (trim_set vs)) (rev (chars (value_to_string (val0 vs))))))"

definition search_function :: "rstr \<Rightarrow> arg_result list \<Rightarrow> arg_result option" where
  "search_function name rs =
     (let one_or_two = or_else (take_args name rs 2) (take_args name rs 1)
      in if name = ''replace''
         then Some (pbind (or_else (take_args name rs 3) (take_args name rs 2)) (\<lambda>vs.
                pok (DString (replace_text (value_to_string (val0 vs)) (value_to_string (val1 vs))
                  (if length vs < 3 then [] else value_to_string (vs ! 2))))))
         else if name = ''instr''
         then Some (pbind (take_args name rs 2) (\<lambda>vs.
                pok (DInt (case find_sub (value_to_string (val0 vs)) (value_to_string (val1 vs)) of
                  Some i \<Rightarrow> of_nat i + 1 | None \<Rightarrow> 0))))
         else if name = ''ltrim'' then Some (pbind one_or_two (\<lambda>vs. pok (DString (ltrim_value vs))))
         else if name = ''rtrim'' then Some (pbind one_or_two (\<lambda>vs. pok (DString (rtrim_value vs))))
         else None)"

section \<open>Kinds\<close>

fun type_name :: "db_value \<Rightarrow> rstr" where
  "type_name DNull = ''null''"
| "type_name (DBool _) = ''integer''"
| "type_name (DInt _) = ''integer''"
| "type_name (DFloat _) = ''real''"
| "type_name (DString _) = ''text''"
| "type_name (DStrings _) = ''array''"
| "type_name (DFloats _) = ''array''"

text \<open>\<open>char::from_u32(n as u32)\<close>: the cast saturates; not every number is a character.\<close>

definition char_of_value :: "db_value \<Rightarrow> uchar list" where
  "char_of_value v =
     (case to_f64 v of
        None \<Rightarrow> []
      | Some x \<Rightarrow>
          (let n = nat (max 0 (min 4294967295 (sint (f64_as_i64 x)))) in if is_scalar n then [n] else []))"

definition kind_function :: "'z std_env_scheme \<Rightarrow> rstr \<Rightarrow> arg_result list \<Rightarrow> arg_result option" where
  "kind_function E name rs =
     (if name = ''typeof'' then Some (pbind (take_args name rs 1) (\<lambda>vs. pok (DString (type_name (val0 vs)))))
      else if name = ''random'' then Some (pok (DInt (env_random E)))
      else if name = ''char''
      then Some (pbind (all_values rs) (\<lambda>vs. pok (DString (utf8 (concat (map char_of_value vs))))))
      else if name = ''match_search''
      then Some (pbind (take_args name rs 2) (\<lambda>vs.
             pok (DBool (contains_sub (to_lowercase (env_unicode E) (value_to_string (val0 vs)))
               (to_lowercase (env_unicode E) (value_to_string (val1 vs)))))))
      else None)"

section \<open>The table\<close>

fun first_some :: "'a option list \<Rightarrow> 'a option" where
  "first_some [] = None"
| "first_some (x # xs) = (case x of Some y \<Rightarrow> Some y | None \<Rightarrow> first_some xs)"

text \<open>A call without an argument list is the clock.\<close>

definition exec_std_function :: "'z std_env_scheme \<Rightarrow> rstr \<Rightarrow> func_args \<Rightarrow> arg_result list \<Rightarrow> arg_result" where
  "exec_std_function E name args rs =
     (case args of
        ArgList as \<Rightarrow>
          (case first_some [text_function E name rs, null_function name rs, round_function E name rs,
                clock_function E name as, session_function E name rs, calendar_function E name rs,
                embedded_function E name rs, number_function E name rs, search_function name rs, kind_function E name rs] of
             Some r \<Rightarrow> r
           | None \<Rightarrow> perr (ExecError (''Unknown function '' @ [CHR 0x27] @ name @ [CHR 0x27])))
      | _ \<Rightarrow> pok (now_value E))"

end
