(* ===== verification/Trigrams.thy ===== *)
theory Trigrams
  imports DbValue
begin

text \<open>
  \<open>trigrams\<close> and \<open>Table::trigram_similarity\<close> of \<open>table/schema.rs\<close>: the set of three-byte
  windows of the padded, lower-cased text, and the Jaccard similarity behind \<open>fuzzy_match\<close>.
\<close>

fun windows3 :: "'a list \<Rightarrow> 'a list list" where
  "windows3 (a # b # c # s) = [a, b, c] # windows3 (b # c # s)"
| "windows3 _ = []"

lemma infix_Cons_iff:
  "(\<exists>u v. x # t = u @ w @ v) \<longleftrightarrow> (\<exists>v. x # t = w @ v) \<or> (\<exists>u v. t = u @ w @ v)"
proof
  assume "\<exists>u v. x # t = u @ w @ v"
  then obtain u v where "x # t = u @ w @ v" by blast
  then show "(\<exists>v. x # t = w @ v) \<or> (\<exists>u v. t = u @ w @ v)"
    by (cases u) auto
next
  assume "(\<exists>v. x # t = w @ v) \<or> (\<exists>u v. t = u @ w @ v)"
  then show "\<exists>u v. x # t = u @ w @ v"
    by (metis append_Cons append_Nil)
qed

lemma short_no_window: "length s < 3 \<Longrightarrow> s = u @ w @ v \<Longrightarrow> length w \<noteq> 3"
  by auto

lemma set_windows3: "w \<in> set (windows3 s) \<longleftrightarrow> length w = 3 \<and> (\<exists>u v. s = u @ w @ v)"
proof (induction s rule: windows3.induct)
  case (1 a b c s)
  have "length w = 3 \<Longrightarrow> (\<exists>v. a # b # c # s = w @ v) \<longleftrightarrow> w = [a, b, c]"
    by (auto simp: numeral_3_eq_3 length_Suc_conv)
  then show ?case
    using 1 infix_Cons_iff [of a "b # c # s" w] by auto
qed (auto dest: short_no_window [rotated])

definition pad :: "rstr \<Rightarrow> rstr" where
  "pad s = ''  '' @ s @ ''  ''"

definition trigrams :: "unicode \<Rightarrow> rstr \<Rightarrow> rstr set" where
  "trigrams U s =
     (let padded = pad (to_lowercase U s)
      in if length padded < 3 then {padded} else set (map from_utf8_lossy (windows3 padded)))"

lemma trigrams_windows: "trigrams U s = from_utf8_lossy ` set (windows3 (pad (to_lowercase U s)))"
  by (simp add: trigrams_def Let_def pad_def)

lemma finite_trigrams [simp]: "finite (trigrams U s)"
  by (simp add: trigrams_windows)

lemma trigrams_nonempty: "trigrams U s \<noteq> {}"
proof -
  have "length (pad (to_lowercase U s)) = Suc (Suc (Suc (Suc (length (to_lowercase U s)))))"
    by (simp add: pad_def)
  then obtain a b c t where "pad (to_lowercase U s) = a # b # c # t"
    by (metis length_Suc_conv)
  then show ?thesis by (simp add: trigrams_windows)
qed

text \<open>Jaccard similarity; two empty sets count as equal.\<close>

definition trigram_similarity :: "unicode \<Rightarrow> rstr \<Rightarrow> rstr \<Rightarrow> f64" where
  "trigram_similarity U a b =
     (let ta = trigrams U a; tb = trigrams U b
      in if ta = {} \<and> tb = {} then f64_of_int 1
         else let i = card (ta \<inter> tb); u = card (ta \<union> tb)
              in if u = 0 then f64_of_int 1
                 else f64_div (f64_of_int (int i)) (f64_of_int (int u)))"

text \<open>Every trigram of a lower-cased part of a text is one of the text's.\<close>

lemma trigrams_of_substring:
  assumes "contains_sub (to_lowercase U s) r"
  shows "from_utf8_lossy ` set (windows3 r) \<subseteq> trigrams U s"
proof -
  from assms obtain u v where "to_lowercase U s = u @ r @ v"
    using find_sub_None_iff [of "to_lowercase U s" r] by (auto simp: contains_sub_def)
  then have "set (windows3 r) \<subseteq> set (windows3 (pad (to_lowercase U s)))"
    unfolding subset_iff set_windows3 pad_def by (metis append.assoc)
  then show ?thesis by (auto simp: trigrams_windows)
qed

end
