(* ===== verification/Eval.thy ===== *)
theory Eval
  imports ScalarFunctions Trigrams
begin

text \<open>
  \<open>functions/eval/expr.rs\<close>: the expression evaluator.  What it needs from outside is an
  environment: that of the scalar functions, the subquery executor, plugin functions (\<open>fn_\<close> calls) and the
  \<open>Debug\<close> text of an expression for one error message.  A panic (an index past the end of the row, an overflowing division) is
  \<open>None\<close>.
\<close>

type_synonym row = "db_value list"
type_synonym col_map = "rstr \<rightharpoonup> nat"

record eval_env = std_env +
  env_subquery :: "query \<Rightarrow> row \<Rightarrow> col_map \<Rightarrow> db_value list eres"
  env_plugin :: "rstr \<Rightarrow> func_args \<Rightarrow> db_value eres"
  env_expr_debug :: "sql_expr \<Rightarrow> rstr"

text \<open>\<open>row[i].clone()\<close>.\<close>

definition cell :: "row \<Rightarrow> nat \<Rightarrow> db_value eres panicking" where
  "cell r i = (if i < length r then pok (r ! i) else None)"

definition eval_identifier :: "eval_env \<Rightarrow> rstr \<Rightarrow> row \<Rightarrow> col_map \<Rightarrow> db_value eres panicking" where
  "eval_identifier E ident r m =
     (let name = to_lowercase (env_unicode E) ident
      in if name = ''current_timestamp'' \<or> name = ''current_time'' then pok (now_value E)
         else if name = ''current_date'' then pok (curdate_value E)
         else case m name of None \<Rightarrow> perr (ColumnNotFound name) | Some i \<Rightarrow> cell r i)"

definition eval_compound :: "eval_env \<Rightarrow> rstr list \<Rightarrow> row \<Rightarrow> col_map \<Rightarrow> db_value eres panicking" where
  "eval_compound E parts r m =
     (let name = join ''.'' (map (to_lowercase (env_unicode E)) parts)
      in case m name of
           Some i \<Rightarrow> cell r i
         | None \<Rightarrow>
             (if parts = [] then perr (ColumnNotFound name)
              else case m (to_lowercase (env_unicode E) (last parts)) of
                     Some i \<Rightarrow> cell r i
                   | None \<Rightarrow> perr (ColumnNotFound name)))"

definition negate_if :: "bool \<Rightarrow> bool \<Rightarrow> db_value" where
  "negate_if negated b = DBool (if negated then \<not> b else b)"

definition trim_chars :: "trim_where option \<Rightarrow> uchar \<Rightarrow> rstr \<Rightarrow> rstr" where
  "trim_chars w c s =
     (let front = dropWhile (\<lambda>d. d = c); back = (\<lambda>cs. rev (dropWhile (\<lambda>d. d = c) (rev cs)))
      in utf8 (case w of
           Some Leading \<Rightarrow> front (chars s)
         | Some Trailing \<Rightarrow> back (chars s)
         | _ \<Rightarrow> back (front (chars s))))"

definition trim_plain :: "trim_where option \<Rightarrow> rstr \<Rightarrow> rstr" where
  "trim_plain w s =
     (case w of Some Leading \<Rightarrow> trim_start s | Some Trailing \<Rightarrow> trim_end s | _ \<Rightarrow> trim s)"

text \<open>
  The parts of the evaluator that walk a list or an option take the evaluator of their
  sub-expressions as an argument \<open>f\<close>; the congruence rules say which sub-expressions they use.
\<close>

fun eval_opt :: "(sql_expr \<Rightarrow> db_value eres panicking) \<Rightarrow> sql_expr option \<Rightarrow> db_value option eres panicking" where
  "eval_opt f None = pok None"
| "eval_opt f (Some e) = pbind (f e) (\<lambda>x. pok (Some x))"

lemma eval_opt_cong [fundef_cong]:
  "o1 = o2 \<Longrightarrow> (\<And>e. o2 = Some e \<Longrightarrow> f e = g e) \<Longrightarrow> eval_opt f o1 = eval_opt g o2"
  by (cases o2) auto

text \<open>\<open>IN (\<dots>)\<close>: stop at the first equal item.\<close>

fun eval_in_list :: "(sql_expr \<Rightarrow> db_value eres panicking) \<Rightarrow> db_value \<Rightarrow> sql_expr list \<Rightarrow> bool eres panicking" where
  "eval_in_list f x [] = pok False"
| "eval_in_list f x (e # es) = pbind (f e) (\<lambda>y. if db_eq x y then pok True else eval_in_list f x es)"

lemma eval_in_list_cong [fundef_cong]:
  "x = y \<Longrightarrow> es = es' \<Longrightarrow> (\<And>e. e \<in> set es' \<Longrightarrow> f e = g e) \<Longrightarrow> eval_in_list f x es = eval_in_list g y es'"
  by (induction es' arbitrary: es) (auto cong: if_cong)

text \<open>\<open>CASE\<close>: the first matching WHEN, else ELSE, else NULL.\<close>

fun eval_conds :: "(sql_expr \<Rightarrow> db_value eres panicking) \<Rightarrow> db_value option \<Rightarrow> (sql_expr \<times> sql_expr) list
    \<Rightarrow> sql_expr option \<Rightarrow> db_value eres panicking" where
  "eval_conds f op [] els =
     pbind (eval_opt f els) (\<lambda>v. pok (case v of None \<Rightarrow> DNull | Some x \<Rightarrow> x))"
| "eval_conds f op ((c, res) # cs) els =
     pbind (f c) (\<lambda>x.
       if (case op of Some y \<Rightarrow> db_eq y x | None \<Rightarrow> is_truthy x) then f res
       else eval_conds f op cs els)"

lemma eval_conds_cong [fundef_cong]:
  "op = op' \<Longrightarrow> cs = cs' \<Longrightarrow> els = els' \<Longrightarrow>
   (\<And>c res. (c, res) \<in> set cs' \<Longrightarrow> f c = g c) \<Longrightarrow>
   (\<And>c res. (c, res) \<in> set cs' \<Longrightarrow> f res = g res) \<Longrightarrow>
   (\<And>e. els' = Some e \<Longrightarrow> f e = g e) \<Longrightarrow>
   eval_conds f op cs els = eval_conds g op' cs' els'"
proof (induction cs' arbitrary: cs op els)
  case Nil
  then show ?case by (auto cong: eval_opt_cong)
next
  case (Cons p ps)
  obtain a b where p: "p = (a, b)" by (cases p)
  have "f a = g a" and "f b = g b" using Cons.prems(4,5) [of a b] p by simp_all
  moreover have "eval_conds f op' ps els' = eval_conds g op' ps els'"
    by (rule Cons.IH) (use Cons.prems in auto)
  ultimately show ?case using Cons.prems(1-3) p by (simp cong: if_cong)
qed

text \<open>TRIM with and without a character list: only the first expression of the list counts.\<close>

fun eval_trim :: "(sql_expr \<Rightarrow> db_value eres panicking) \<Rightarrow> trim_where option \<Rightarrow> rstr \<Rightarrow> sql_expr list option
    \<Rightarrow> rstr eres panicking" where
  "eval_trim f w s None = pok (trim_plain w s)"
| "eval_trim f w s (Some []) = pok (trim s)"
| "eval_trim f w s (Some (e # es)) =
     pbind (f e) (\<lambda>x. pok (trim_chars w (case chars (value_to_string x) of [] \<Rightarrow> 32 | c # _ \<Rightarrow> c) s))"

lemma eval_trim_cong [fundef_cong]:
  "w = w' \<Longrightarrow> s = s' \<Longrightarrow> cs = cs' \<Longrightarrow> (\<And>es e. cs' = Some es \<Longrightarrow> e \<in> set es \<Longrightarrow> f e = g e) \<Longrightarrow>
   eval_trim f w s cs = eval_trim g w' s' cs'"
  by (cases "(f, w', s', cs')" rule: eval_trim.cases) auto

text \<open>Calls: the two trigram functions, plugin functions, a bare name that is a column, and the
  standard functions.\<close>

fun args_exprs :: "func_args \<Rightarrow> sql_expr list" where
  "args_exprs (ArgList as) = concat (map (\<lambda>a. case get_func_arg_unnamed a of Inr e \<Rightarrow> [e] | Inl _ \<Rightarrow> []) as)"
| "args_exprs _ = []"

definition eval_arg :: "(sql_expr \<Rightarrow> db_value eres panicking) \<Rightarrow> func_arg \<Rightarrow> db_value eres panicking" where
  "eval_arg f a = pbind (Some (get_func_arg_unnamed a)) f"

definition default_threshold :: f64 where
  "default_threshold = f64_div (f64_of_int 3) (f64_of_int 10)"

fun eval_similarity :: "eval_env \<Rightarrow> (sql_expr \<Rightarrow> db_value eres panicking) \<Rightarrow> bool \<Rightarrow> rstr \<Rightarrow> func_args
    \<Rightarrow> db_value eres panicking" where
  "eval_similarity E f score name (ArgList (a # b # opt)) =
     pbind (eval_arg f a) (\<lambda>x. pbind (eval_arg f b) (\<lambda>y.
       let sim = trigram_similarity (env_unicode E) (value_to_string x) (value_to_string y)
       in if score then pok (DFloat sim)
          else pbind (case opt of
                        [] \<Rightarrow> pok default_threshold
                      | t # _ \<Rightarrow> pbind (eval_arg f t) (\<lambda>z. pok
                          (case z of DFloat g \<Rightarrow> g | DInt i \<Rightarrow> i64_as_f64 i | _ \<Rightarrow> default_threshold)))
               (\<lambda>t. pok (DBool (f64_ge sim t)))))"
| "eval_similarity E f score name (ArgList _) = perr (ExecError (name @ '' requires at least 2 arguments''))"
| "eval_similarity E f score name _ = perr (ExecError (name @ '' requires argument list''))"

definition exec_function :: "eval_env \<Rightarrow> (sql_expr \<Rightarrow> db_value eres panicking) \<Rightarrow> rstr \<Rightarrow> func_args \<Rightarrow> row
    \<Rightarrow> col_map \<Rightarrow> db_value eres panicking" where
  "exec_function E f nm args r m =
     (let name = to_lowercase (env_unicode E) nm
      in if name = ''fuzzy_match'' then eval_similarity E f False name args
         else if name = ''fts_score'' then eval_similarity E f True name args
         else if starts_with name ''fn_'' then Some (env_plugin E (drop 3 name) args)
         else case (if args = NoArgs then m name else None) of
             Some i \<Rightarrow> cell r i
           | None \<Rightarrow> exec_std_function E name args (map (eval_arg f) (args_list args)))"

lemma eval_arg_cong:
  "(\<And>e. get_func_arg_unnamed a = Inr e \<Longrightarrow> f e = g e) \<Longrightarrow> eval_arg f a = eval_arg g a"
  by (auto simp: eval_arg_def pbind_def split: sum.splits)

lemma eval_similarity_cong:
  assumes "\<And>e. e \<in> set (args_exprs args) \<Longrightarrow> f e = g e"
  shows "eval_similarity E f score name args = eval_similarity E g score name args"
proof -
  have a: "eval_arg f x = eval_arg g x" if "args = ArgList as" "x \<in> set as" for as x
    by (rule eval_arg_cong) (use assms that in \<open>force split: sum.splits\<close>)
  show ?thesis
  proof (cases "\<exists>x y opt. args = ArgList (x # y # opt)")
    case True
    then obtain x y opt where v: "args = ArgList (x # y # opt)" by blast
    have e: "eval_arg f x = eval_arg g x" "eval_arg f y = eval_arg g y"
      "\<And>t ts. opt = t # ts \<Longrightarrow> eval_arg f t = eval_arg g t"
      by (rule a [OF v], simp)+
    show ?thesis
    proof (cases opt)
      case (Cons t ts)
      with e(3) have "eval_arg f t = eval_arg g t" by blast
      then show ?thesis by (simp only: v Cons eval_similarity.simps e list.case)
    qed (simp only: v eval_similarity.simps e list.case)
  next
    case False
    then show ?thesis by (cases "(E, f, score, name, args)" rule: eval_similarity.cases) auto
  qed
qed

lemma exec_function_cong [fundef_cong]:
  assumes "nm = nm'" and "args = args'" and "r = r'" and "m = m'"
    and "\<And>e. e \<in> set (args_exprs args') \<Longrightarrow> f e = g e"
  shows "exec_function E f nm args r m = exec_function E g nm' args' r' m'"
proof -
  have sim: "eval_similarity E f score name args' = eval_similarity E g score name args'" for score name
    using assms(5) by (rule eval_similarity_cong)
  have args: "map (eval_arg f) (args_list args') = map (eval_arg g) (args_list args')"
    using assms(5) by (intro map_cong refl eval_arg_cong) (force simp: args_list_def split: func_args.splits)
  show ?thesis unfolding assms(1-4) exec_function_def sim args ..
qed

lemma get_func_arg_size: "get_func_arg_unnamed a = Inr e \<Longrightarrow> size e < size a"
  by (cases a rule: get_func_arg_unnamed.cases) auto

lemma args_exprs_size [termination_simp]: "e \<in> set (args_exprs args) \<Longrightarrow> size e < size args"
proof (cases args)
  case (ArgList as)
  assume "e \<in> set (args_exprs args)"
  then obtain a where a: "a \<in> set as" and g: "get_func_arg_unnamed a = Inr e"
    using ArgList by (auto split: sum.splits)
  have "size a < Suc (size_list size as)"
    using a by (metis less_Suc_eq size_list_estimation' order_refl le_imp_less_Suc)
  then show ?thesis using ArgList get_func_arg_size [OF g] by simp
qed simp_all

fun eval_expr :: "eval_env \<Rightarrow> row \<Rightarrow> col_map \<Rightarrow> sql_expr \<Rightarrow> db_value eres panicking" where
  "eval_expr E r m (Identifier i) = eval_identifier E i r m"
| "eval_expr E r m (CompoundIdentifier ps) = eval_compound E ps r m"
| "eval_expr E r m (Value v) = pok (sql_val_to_db v)"
| "eval_expr E r m (BinaryOp a op b) =
     pbind (eval_expr E r m a) (\<lambda>x. pbind (eval_expr E r m b) (\<lambda>y.
       apply_binary_op (env_unicode E) x op y))"
| "eval_expr E r m (UnaryOp op a) = pbind (eval_expr E r m a) (\<lambda>x. Some (apply_unary_op op x))"
| "eval_expr E r m (Nested a) = eval_expr E r m a"
| "eval_expr E r m (IsNull a) = pbind (eval_expr E r m a) (\<lambda>x. pok (DBool (x = DNull)))"
| "eval_expr E r m (IsNotNull a) = pbind (eval_expr E r m a) (\<lambda>x. pok (DBool (x \<noteq> DNull)))"
| "eval_expr E r m (Like neg a p esc) =
     pbind (eval_expr E r m a) (\<lambda>x. pbind (eval_expr E r m p) (\<lambda>y.
       pok (negate_if neg (simple_like (value_to_string x) (value_to_string y)))))"
| "eval_expr E r m (SimilarTo neg a p) =
     pbind (eval_expr E r m a) (\<lambda>x. pbind (eval_expr E r m p) (\<lambda>y.
       pok (negate_if neg (simple_like (value_to_string x) (value_to_string y)))))"
| "eval_expr E r m (RLike neg a p) =
     pbind (eval_expr E r m a) (\<lambda>x. pbind (eval_expr E r m p) (\<lambda>y.
       pok (negate_if neg (wildcard_match (chars (value_to_string x)) (chars (value_to_string y))))))"
| "eval_expr E r m (InList a es neg) =
     pbind (eval_expr E r m a) (\<lambda>x.
       pbind (eval_in_list (eval_expr E r m) x es) (\<lambda>b. pok (negate_if neg b)))"
| "eval_expr E r m (Function nm args mods) = exec_function E (eval_expr E r m) nm args r m"
| "eval_expr E r m (Ceil a) = pbind (eval_expr E r m a) (round_with E f64_ceil)"
| "eval_expr E r m (Floor a) = pbind (eval_expr E r m a) (round_with E f64_floor)"
| "eval_expr E r m (Subquery q) =
     pbind (Some (env_subquery E q r m)) (\<lambda>vs. pok (case vs of [] \<Rightarrow> DNull | v # _ \<Rightarrow> v))"
| "eval_expr E r m (InSubquery a q neg) =
     pbind (eval_expr E r m a) (\<lambda>x. pbind (Some (env_subquery E q r m)) (\<lambda>vs.
       pok (negate_if neg (\<exists>v \<in> set vs. db_eq v x))))"
| "eval_expr E r m (Case operand conds els) =
     pbind (eval_opt (eval_expr E r m) operand) (\<lambda>op. eval_conds (eval_expr E r m) op conds els)"
| "eval_expr E r m (Between a l h neg) =
     pbind (eval_expr E r m a) (\<lambda>x. pbind (eval_expr E r m l) (\<lambda>lo. pbind (eval_expr E r m h) (\<lambda>hi.
       pok (negate_if neg (db_value_cmp x lo \<noteq> Less \<and> db_value_cmp x hi \<noteq> Greater)))))"
| "eval_expr E r m (Exists q neg) =
     pbind (Some (env_subquery E q r m)) (\<lambda>vs. pok (DBool (if neg then vs = [] else vs \<noteq> [])))"
| "eval_expr E r m (Cast a t) =
     pbind (eval_expr E r m a) (\<lambda>x. Some (cast_db_value (env_unicode E) x t))"
| "eval_expr E r m (Trim a w cs) =
     pbind (eval_expr E r m a) (\<lambda>x.
       pbind (eval_trim (eval_expr E r m) w (value_to_string x) cs) (\<lambda>s. pok (DString s)))"
| "eval_expr E r m (Substring a from len) =
     pbind (eval_expr E r m a) (\<lambda>x. pbind (eval_opt (eval_expr E r m) from) (\<lambda>f.
       pbind (case f of None \<Rightarrow> pok 0
              | Some (DInt i) \<Rightarrow> pok (substr_start i)
              | Some v \<Rightarrow> perr (TypeError ''integer start'' (db_debug (env_unicode E) v))) (\<lambda>start.
       pbind (eval_opt (eval_expr E r m) len) (\<lambda>l.
       case l of None \<Rightarrow> pok (DString (utf8 (drop start (chars (value_to_string x)))))
       | Some (DInt i) \<Rightarrow> pok (DString (utf8 (take (unat i) (drop start (chars (value_to_string x))))))
       | Some v \<Rightarrow> perr (TypeError ''integer length'' (db_debug (env_unicode E) v))))))"
| "eval_expr E r m (Array es) =
     perr (ExecError (''Unsupported expression: '' @ env_expr_debug E (Array es)))"
| "eval_expr E r m (TypedString t v) =
     perr (ExecError (''Unsupported expression: '' @ env_expr_debug E (TypedString t v)))"
| "eval_expr E r m (OtherExpr d) = perr (ExecError (''Unsupported expression: '' @ d))"

section \<open>Values without a row\<close>

text \<open>
  \<open>eval_literal_expr\<close>: what VALUES lists and column defaults may hold.  An ARRAY literal collects
  its strings and its numbers separately, and keeps the numbers if there are any.
\<close>

fun eval_array :: "unicode \<Rightarrow> (sql_expr \<Rightarrow> db_value eres panicking) \<Rightarrow> sql_expr list \<Rightarrow> rstr list
    \<Rightarrow> f64 list \<Rightarrow> db_value eres panicking" where
  "eval_array U f [] ss fs = pok (if fs \<noteq> [] then DFloats fs else DStrings ss)"
| "eval_array U f (e # es) ss fs =
     pbind (f e) (\<lambda>v. case v of
         DString s \<Rightarrow> eval_array U f es (ss @ [s]) fs
       | DInt n \<Rightarrow> eval_array U f es ss (fs @ [i64_as_f64 n])
       | DFloat x \<Rightarrow> eval_array U f es ss (fs @ [x])
       | _ \<Rightarrow> perr (ExecError (''Array elements must be strings or numbers, got '' @ db_debug U v)))"

lemma eval_array_cong [fundef_cong]:
  "U = U' \<Longrightarrow> es = es' \<Longrightarrow> ss = ss' \<Longrightarrow> fs = fs' \<Longrightarrow> (\<And>e. e \<in> set es' \<Longrightarrow> f e = g e) \<Longrightarrow>
   eval_array U f es ss fs = eval_array U' g es' ss' fs'"
proof -
  assume e: "U = U'" "es = es'" "ss = ss'" "fs = fs'" and f: "\<And>e. e \<in> set es' \<Longrightarrow> f e = g e"
  have "eval_array U' f es' s t = eval_array U' g es' s t" for s t
    using f
  proof (induction es' arbitrary: s t)
    case (Cons e es')
    then have "eval_array U' f es' s t = eval_array U' g es' s t" for s t by simp
    moreover have "f e = g e" using Cons.prems by simp
    ultimately show ?case by (simp cong: db_value.case_cong)
  qed simp
  with e show ?thesis by simp
qed

definition literal_functions :: "rstr list" where
  "literal_functions =
     [''datetime'', ''now'', ''current_timestamp'', ''curdate'', ''current_date'', ''unix_timestamp'']"

definition not_a_literal :: "eval_env \<Rightarrow> sql_expr \<Rightarrow> engine_error" where
  "not_a_literal E e = ExecError (''Complex expressions not supported in values: '' @ env_expr_debug E e)"

fun eval_literal_expr :: "eval_env \<Rightarrow> sql_expr \<Rightarrow> db_value eres panicking" where
  "eval_literal_expr E (Value v) = pok (sql_val_to_db v)"
| "eval_literal_expr E (Nested e) = eval_literal_expr E e"
| "eval_literal_expr E (UnaryOp op e) =
     pbind (eval_literal_expr E e) (\<lambda>v. Some (apply_unary_op op v))"
| "eval_literal_expr E (Subquery q) =
     pbind (Some (env_subquery E q [] Map.empty)) (\<lambda>vs. pok (case vs of [] \<Rightarrow> DNull | v # _ \<Rightarrow> v))"
| "eval_literal_expr E (Identifier i) = pok (DString i)"
| "eval_literal_expr E (Array es) = eval_array (env_unicode E) (eval_literal_expr E) es [] []"
| "eval_literal_expr E (Function nm args mods) =
     (let name = to_lowercase (env_unicode E) nm
      in if name \<in> set literal_functions then exec_std_function E name args (map (eval_arg (eval_expr E [] Map.empty)) (args_list args))
         else perr (not_a_literal E (Function nm args mods)))"
| "eval_literal_expr E e = perr (not_a_literal E e)"

end
