(* ===== verification/Keys.thy ===== *)
theory Keys
  imports Eval
begin

text \<open>
  \<open>table/schema.rs\<close> and \<open>index.rs\<close>, the value encodings: columns, the coercion and type check of
  \<open>INSERT\<close>, the injective key parts behind PRIMARY KEY and UNIQUE, and the order-preserving keys
  of the BTREE index.
\<close>

section \<open>Columns\<close>

record column =
  col_name :: rstr
  col_dtype :: column_type
  col_primary_key :: bool
  col_not_null :: bool
  col_default :: "db_value option"
  col_default_expr :: "sql_expr option"
  col_auto_increment :: bool
  col_unique :: bool

text \<open>The column that \<open>add_column\<close> pushes.\<close>

definition plain_column :: "rstr \<Rightarrow> column_type \<Rightarrow> column" where
  "plain_column n t =
     \<lparr>col_name = n, col_dtype = t, col_primary_key = False, col_not_null = False, col_default = None,
      col_default_expr = None, col_auto_increment = False, col_unique = False\<rparr>"

text \<open>\<open>coerce_value\<close> changes its argument and says whether it did.\<close>

fun coerce_value :: "db_value \<Rightarrow> column_type \<Rightarrow> db_value \<times> bool" where
  "coerce_value (DInt n) TFloat = (DFloat (i64_as_f64 n), True)"
| "coerce_value (DString s) TFloat =
     (case parse_f64 s of Some f \<Rightarrow> (DFloat f, True) | None \<Rightarrow> (DString s, False))"
| "coerce_value (DFloat f) TInt = (DInt (f64_as_i64 f), True)"
| "coerce_value (DString s) TInt =
     (case parse_i64 s of Some n \<Rightarrow> (DInt n, True) | None \<Rightarrow> (DString s, False))"
| "coerce_value (DInt n) TString = (DString (i64_to_string n), True)"
| "coerce_value (DFloat f) TString = (DString (f64_to_string f), True)"
| "coerce_value v _ = (v, False)"

definition coerced :: "column_type \<Rightarrow> db_value \<Rightarrow> db_value" where
  "coerced t v = fst (coerce_value v t)"

fun type_match :: "column_type \<Rightarrow> db_value \<Rightarrow> bool" where
  "type_match _ DNull = True"
| "type_match TBool (DBool _) = True"
| "type_match TInt (DInt _) = True"
| "type_match TInt (DFloat _) = True"
| "type_match TFloat (DFloat _) = True"
| "type_match TFloat (DInt _) = True"
| "type_match TString (DString _) = True"
| "type_match TStrings (DStrings _) = True"
| "type_match TFloats (DFloats _) = True"
| "type_match _ _ = False"

text \<open>The type a stored value really has: an \<open>INSERT\<close> leaves exactly these.\<close>

fun has_type :: "column_type \<Rightarrow> db_value \<Rightarrow> bool" where
  "has_type _ DNull = True"
| "has_type TBool (DBool _) = True"
| "has_type TInt (DInt _) = True"
| "has_type TFloat (DFloat _) = True"
| "has_type TString (DString _) = True"
| "has_type TStrings (DStrings _) = True"
| "has_type TFloats (DFloats _) = True"
| "has_type _ _ = False"

lemma coerced_null [simp]: "coerced t v = DNull \<longleftrightarrow> v = DNull"
  by (cases t; cases v) (auto simp: coerced_def split: option.splits)

lemma coerced_has_type: "type_match t (coerced t v) \<Longrightarrow> has_type t (coerced t v)"
  by (cases t; cases v) (auto simp: coerced_def split: option.splits)

lemma has_type_coerced: "has_type t v \<Longrightarrow> coerced t v = v"
  by (cases t; cases v) (auto simp: coerced_def)

lemma has_type_matches: "has_type t v \<Longrightarrow> type_match t v"
  by (cases t; cases v) auto

lemma coerce_unchanged: "\<not> snd (coerce_value v t) \<Longrightarrow> coerced t v = v"
  by (cases "(v, t)" rule: coerce_value.cases) (auto simp: coerced_def split: option.splits)

section \<open>Key parts\<close>

text \<open>\<open>encode_part\<close>: a type tag, then the length-prefixed bytes; array elements are
  length-prefixed once more inside the body.\<close>

fun encode_part :: "db_value \<Rightarrow> rstr" where
  "encode_part DNull = ''n0:''"
| "encode_part (DBool True) = ''b1:1''"
| "encode_part (DBool False) = ''b1:0''"
| "encode_part (DInt n) = ''i'' @ len_prefixed (i64_to_string n)"
| "encode_part (DFloat f) = ''f'' @ len_prefixed (f64_to_string f)"
| "encode_part (DString s) = ''s'' @ len_prefixed s"
| "encode_part (DStrings v) = ''S'' @ len_prefixed (concat (map len_prefixed v))"
| "encode_part (DFloats v) =
     ''F'' @ len_prefixed (concat (map (\<lambda>f. len_prefixed (f64_to_string f)) v))"

text \<open>Two values are the same key when they are equal, floats by their decimal text.\<close>

fun same_key :: "db_value \<Rightarrow> db_value \<Rightarrow> bool" where
  "same_key (DFloat f) (DFloat g) = (f64_to_string f = f64_to_string g)"
| "same_key (DFloats u) (DFloats v) = (map f64_to_string u = map f64_to_string v)"
| "same_key a b = (a = b)"

definition part_tag :: "db_value \<Rightarrow> char" where
  "part_tag v = (case v of DNull \<Rightarrow> CHR ''n'' | DBool _ \<Rightarrow> CHR ''b'' | DInt _ \<Rightarrow> CHR ''i''
     | DFloat _ \<Rightarrow> CHR ''f'' | DString _ \<Rightarrow> CHR ''s'' | DStrings _ \<Rightarrow> CHR ''S'' | DFloats _ \<Rightarrow> CHR ''F'')"

definition part_body :: "db_value \<Rightarrow> rstr" where
  "part_body v = (case v of DNull \<Rightarrow> [] | DBool b \<Rightarrow> (if b then ''1'' else ''0'')
     | DInt n \<Rightarrow> i64_to_string n | DFloat f \<Rightarrow> f64_to_string f | DString s \<Rightarrow> s
     | DStrings u \<Rightarrow> concat (map len_prefixed u)
     | DFloats u \<Rightarrow> concat (map len_prefixed (map f64_to_string u)))"

lemma dec_nat_0_1: "dec_nat 0 = ''0''" "dec_nat (Suc 0) = ''1''"
  by (simp_all add: dec_nat.simps) code_simp+

lemma encode_part_shape: "encode_part v = part_tag v # len_prefixed (part_body v)"
  by (cases v rule: encode_part.cases)
    (simp_all add: part_tag_def part_body_def len_prefixed_def dec_nat_0_1 comp_def)

lemma same_key_iff: "same_key a b \<longleftrightarrow> part_tag a = part_tag b \<and> part_body a = part_body b"
  by (cases a; cases b) (auto simp: part_tag_def part_body_def simp del: map_map split: if_splits)

interpretation ep: self_delimiting encode_part same_key
proof
  fix a b xs ys
  assume "encode_part a @ xs = encode_part b @ ys"
  then have "part_tag a = part_tag b" and "len_prefixed (part_body a) @ xs = len_prefixed (part_body b) @ ys"
    by (simp_all add: encode_part_shape)
  then show "same_key a b \<and> xs = ys"
    using lp.split_front [of "part_body a" xs "part_body b" ys] by (simp add: same_key_iff)
qed (simp add: encode_part_shape same_key_iff)

text \<open>\<open>pk_key_static\<close>: the parts of the primary-key columns, in column order.  Indexing past the
  row's end panics in Rust; every caller passes a row of the table's width.\<close>

definition pk_indices :: "column list \<Rightarrow> nat list" where
  "pk_indices cols = filter (\<lambda>i. col_primary_key (cols ! i)) [0..<length cols]"

definition pk_key_static :: "column list \<Rightarrow> row \<Rightarrow> rstr option" where
  "pk_key_static cols r =
     (if pk_indices cols = [] then None
      else Some (concat (map (\<lambda>i. encode_part (r ! i)) (pk_indices cols))))"

text \<open>\<open>unique_keys\<close>: the column's number, a bar and the part.\<close>

definition unique_key :: "nat \<Rightarrow> db_value \<Rightarrow> rstr" where
  "unique_key i v = dec_nat i @ ''|'' @ encode_part v"

definition unique_indices :: "column list \<Rightarrow> row \<Rightarrow> nat list" where
  "unique_indices cols r = filter (\<lambda>i. col_unique (cols ! i) \<and> i < length r) [0..<length cols]"

definition unique_keys :: "column list \<Rightarrow> row \<Rightarrow> rstr list" where
  "unique_keys cols r = map (\<lambda>i. unique_key i (r ! i)) (unique_indices cols r)"

lemma pk_key_eq_iff:
  "pk_indices cols \<noteq> [] \<Longrightarrow> pk_key_static cols r = pk_key_static cols s \<longleftrightarrow>
     (\<forall>i < length cols. col_primary_key (cols ! i) \<longrightarrow> same_key (r ! i) (s ! i))"
proof -
  assume ne: "pk_indices cols \<noteq> []"
  have "concat (map encode_part (map (\<lambda>i. r ! i) (pk_indices cols)))
        = concat (map encode_part (map (\<lambda>i. s ! i) (pk_indices cols))) \<longleftrightarrow>
        list_all2 same_key (map (\<lambda>i. r ! i) (pk_indices cols)) (map (\<lambda>i. s ! i) (pk_indices cols))"
    by (rule ep.concat_enc_eq_iff) simp
  then show ?thesis
    using ne by (auto simp: pk_key_static_def comp_def list_all2_map1 list_all2_map2 list.rel_refl_strong
        list_all2_same pk_indices_def)
qed

lemma not_digit_bar [simp]: "\<not> is_digit CHR ''|''"
  by (simp add: is_digit_def)

lemma unique_key_eq_iff: "unique_key i v = unique_key j w \<longleftrightarrow> i = j \<and> same_key v w"
proof
  assume e: "unique_key i v = unique_key j w"
  then have "takeWhile is_digit (unique_key i v) = takeWhile is_digit (unique_key j w)" by simp
  then have "dec_nat i = dec_nat j"
    using dec_nat_digits [of i] dec_nat_digits [of j] by (simp add: unique_key_def takeWhile_append2)
  with e show "i = j \<and> same_key v w" by (simp add: unique_key_def ep.enc_eq_iff)
qed (simp add: unique_key_def ep.enc_eq_iff)

section \<open>Sortable index keys\<close>

definition sign_bit :: u64 where
  "sign_bit = 9223372036854775808"

definition int_key_bits :: "i64 \<Rightarrow> u64" where
  "int_key_bits n = xor n sign_bit"

text \<open>The float key: one NaN, one zero, then the sign-flipped bits.\<close>

definition sortable_bits :: "f64 \<Rightarrow> u64" where
  "sortable_bits f =
     (let canonical = (if f64_is_nan f then f64_nan else if f64_is_zero f then f64_zero else f)
      in if drop_bit 63 canonical \<noteq> 0 then not canonical else xor canonical sign_bit)"

fun encode_key :: "db_value \<Rightarrow> rstr" where
  "encode_key DNull = [CHR 0x00]"
| "encode_key (DBool True) = CHR 0x01 # ''true''"
| "encode_key (DBool False) = CHR 0x01 # ''false''"
| "encode_key (DInt n) = CHR 0x02 # pad_dec 20 (unat (int_key_bits n))"
| "encode_key (DFloat f) = CHR 0x03 # pad_dec 20 (unat (sortable_bits f))"
| "encode_key (DString s) = CHR 0x04 # s"
| "encode_key (DStrings v) = CHR 0x05 # join '','' v"
| "encode_key (DFloats v) = CHR 0x06 # join '','' (map f64_to_string v)"

text \<open>Decimal texts of one width compare as their numbers.\<close>

lemma foldl_digits: "foldl (\<lambda>a c. a * 10 + digit_val c) z s = z * 10 ^ length s + digits_val s"
proof (induction s arbitrary: z rule: rev_induct)
  case (snoc c s)
  then show ?case by (simp add: digits_val_snoc algebra_simps)
qed (simp add: digits_val_def)

lemma digits_val_Nil [simp]: "digits_val [] = 0"
  by (simp add: digits_val_def)

lemma digits_val_Cons: "digits_val (c # s) = digit_val c * 10 ^ length s + digits_val s"
  using foldl_digits [of "digit_val c" s] by (simp add: digits_val_def)

lemma digits_val_less: "\<forall>c \<in> set s. is_digit c \<Longrightarrow> digits_val s < 10 ^ length s"
proof (induction s)
  case (Cons c s)
  then have "digit_val c \<le> 9" using digit_val_less [of c] by simp
  then have "digit_val c * 10 ^ length s \<le> 9 * 10 ^ length s" by (rule mult_right_mono) simp
  moreover have "digits_val s < 10 ^ length s" using Cons by simp
  ultimately show ?case unfolding digits_val_Cons length_Cons power_Suc by linarith
qed simp

lemma digit_char_order: "is_digit c \<Longrightarrow> is_digit d \<Longrightarrow> c < d \<longleftrightarrow> digit_val c < digit_val d"
  by (auto simp: is_digit_def digit_val_def less_char_def)

lemma digit_char_same: "is_digit c \<Longrightarrow> is_digit d \<Longrightarrow> digit_val c = digit_val d \<Longrightarrow> c = d"
  using digit_char_order [of c d] digit_char_order [of d c] by force

lemma carry_less:
  fixes a b :: nat
  assumes "x < m" and "y < m"
  shows "a * m + x < b * m + y \<longleftrightarrow> a < b \<or> (a = b \<and> x < y)"
proof -
  have "a * m + x < b * m + y" if "a < b"
  proof -
    have "Suc a * m \<le> b * m" using that by (intro mult_right_mono) simp_all
    then show ?thesis using assms by simp
  qed
  moreover have "b * m + y < a * m + x" if "b < a"
  proof -
    have "Suc b * m \<le> a * m" using that by (intro mult_right_mono) simp_all
    then show ?thesis using assms by simp
  qed
  ultimately show ?thesis by (metis add_less_cancel_left linorder_neqE_nat order_less_asym)
qed

lemma digits_order:
  "length s = length t \<Longrightarrow> \<forall>c \<in> set s. is_digit c \<Longrightarrow> \<forall>c \<in> set t. is_digit c \<Longrightarrow>
     s < t \<longleftrightarrow> digits_val s < digits_val t"
proof (induction s t rule: list_induct2)
  case (Cons c s d t)
  have "digits_val (c # s) < digits_val (d # t) \<longleftrightarrow>
        digit_val c < digit_val d \<or> (digit_val c = digit_val d \<and> digits_val s < digits_val t)"
    unfolding digits_val_Cons using Cons.hyps Cons.prems
    by (metis carry_less digits_val_less list.set_intros(2))
  then show ?case
    using Cons digit_char_order [of c d] digit_char_same [of c d] by auto
qed simp

lemma zero_is_digit [simp]: "is_digit CHR ''0''" "digit_val CHR ''0'' = 0"
  by (simp_all add: is_digit_def digit_val_def)

lemma digits_val_zeros [simp]: "digits_val (replicate k CHR ''0'' @ s) = digits_val s"
  by (induction k) (simp_all add: digits_val_Cons)

lemma digits_val_pad [simp]: "digits_val (pad_dec w n) = n"
  by (simp add: pad_dec_def)

lemma pad_dec_digits: "\<forall>c \<in> set (pad_dec w n). is_digit c"
  using dec_nat_digits [of n] by (auto simp: pad_dec_def)

lemma length_dec_nat: "n < 10 ^ w \<Longrightarrow> 0 < w \<Longrightarrow> length (dec_nat n) \<le> w"
proof (induction w arbitrary: n)
  case (Suc w)
  show ?case
  proof (cases "n < 10")
    case False
    with Suc.prems have "n div 10 < 10 ^ w" by (simp add: less_mult_imp_div_less mult.commute)
    moreover from this False have "0 < w" by (cases w) (auto simp: div_less_iff_less_mult)
    ultimately have "length (dec_nat (n div 10)) \<le> w" by (rule Suc.IH)
    with False show ?thesis by (simp add: dec_nat.simps [of n])
  qed (simp add: dec_nat.simps)
qed simp

lemma length_pad_dec: "n < 10 ^ w \<Longrightarrow> 0 < w \<Longrightarrow> length (pad_dec w n) = w"
  using length_dec_nat [of n w] by (simp add: pad_dec_def)

lemma pad_dec_less_iff:
  "a < 10 ^ w \<Longrightarrow> b < 10 ^ w \<Longrightarrow> 0 < w \<Longrightarrow> pad_dec w a < pad_dec w b \<longleftrightarrow> a < b"
  using digits_order [of "pad_dec w a" "pad_dec w b"] by (simp add: length_pad_dec pad_dec_digits)

lemma unat_u64_bound: "unat (x :: u64) < 10 ^ 20"
  using unsigned_less [of x, where ?'a = nat] by simp

lemma pad20_less_iff: "pad_dec 20 (unat (x :: u64)) < pad_dec 20 (unat (y :: u64)) \<longleftrightarrow> x < y"
  by (subst pad_dec_less_iff) (simp_all add: unat_u64_bound word_less_nat_alt del: power_numeral)

lemma pad20_eq_iff: "pad_dec 20 (unat (x :: u64)) = pad_dec 20 (unat (y :: u64)) \<longleftrightarrow> x = y"
  by (metis digits_val_pad word_unat_eq_iff)

lemma pad20_cmp: "cmp (pad_dec 20 (unat (x :: u64))) (pad_dec 20 (unat (y :: u64))) = cmp x y"
  by (simp add: cmp_def pad20_less_iff pad20_eq_iff)

lemma cmp_Cons [simp]: "cmp (c # s) (c # t) = cmp s t"
  by (simp add: cmp_def)

text \<open>Flipping the sign bit turns the signed order into the unsigned one.\<close>

lemma uint_flip_sign: "uint (xor (x :: 64 word) sign_bit) =
  (if bit x 63 then uint x - 9223372036854775808 else uint x + 9223372036854775808)"
proof -
  have "uint (xor x sign_bit) = xor (uint x) (push_bit 63 1)"
    by (simp add: unsigned_xor_eq sign_bit_def push_bit_eq_mult)
  also have "\<dots> = flip_bit 63 (uint x)" by (simp add: flip_bit_eq_xor)
  finally show ?thesis
    by (simp add: flip_bit_eq_if set_bit_eq unset_bit_eq bit_unsigned_iff)
qed

lemma uint_int_key: "uint (int_key_bits n) = sint n + 9223372036854775808"
proof -
  have t: "take_bit 64 (uint n) = uint n"
    using unsigned_less [of n, where ?'a = int] by (simp add: take_bit_int_eq_self_iff)
  show ?thesis
    by (simp add: int_key_bits_def uint_flip_sign sint_uint signed_take_bit_eq_take_bit_minus
        bit_unsigned_iff t)
qed

lemma int_key_less: "int_key_bits a < int_key_bits b \<longleftrightarrow> sint a < sint b"
  by (simp add: word_less_def uint_int_key)

lemma int_key_eq: "int_key_bits a = int_key_bits b \<longleftrightarrow> a = b"
  using uint_int_key [of a] uint_int_key [of b] by (metis add_right_cancel signed_word_eqI)

lemma encode_key_int_less: "encode_key (DInt a) < encode_key (DInt b) \<longleftrightarrow> sint a < sint b"
  by (simp add: pad20_less_iff int_key_less)

lemma drop_63_unat: "unat (drop_bit 63 (x :: 64 word)) = unat x div 2 ^ 63"
  using unat_drop_bit_eq [of 63 x] drop_bit_eq_div [of 63 "unat x"] by simp

lemma sign_div: "f64_sign x \<longleftrightarrow> unat x div 2 ^ 63 = 1" "unat x div 2 ^ 63 < 2"
  using unsigned_less [of x, where ?'a = nat]
  by (auto simp: f64_sign_def div_nat_eqI less_mult_imp_div_less)

lemma drop_63: "drop_bit 63 (x :: 64 word) \<noteq> 0 \<longleftrightarrow> f64_sign x"
proof -
  have "drop_bit 63 x \<noteq> 0 \<longleftrightarrow> unat x div 2 ^ 63 \<noteq> 0"
    by (metis drop_63_unat unat_eq_zero)
  then show ?thesis using sign_div [of x] by linarith
qed

lemma bit_63: "bit (x :: 64 word) 63 \<longleftrightarrow> f64_sign x"
proof -
  have "bit x 63 \<longleftrightarrow> odd (unat x div 2 ^ 63)"
    using bit_unsigned_iff [where ?'a = nat, of x 63] bit_iff_odd [of "unat x" 63] by simp
  then show ?thesis using sign_div [of x] by (auto simp: less_2_cases_iff)
qed

lemma uint_neg: "uint (not (x :: 64 word)) = 18446744073709551615 - uint x"
proof -
  have "not x = - 1 - x" by (simp add: not_eq_complement)
  moreover have "uint (- 1 - x) = uint (- 1 :: 64 word) - uint x"
    by (metis uint_minus_simple_alt word_order.extremum)
  moreover have "uint (- 1 :: 64 word) = 18446744073709551615" by code_simp
  ultimately show ?thesis by simp
qed

lemma uint_sortable_bits:
  assumes "\<not> f64_is_nan x"
  shows "uint (sortable_bits x) = (if f64_key x < 0 then f64_key x - 1 else f64_key x) + 9223372036854775808"
proof -
  have u: "uint x = (if f64_sign x then 9223372036854775808 else 0) + int (f64_mag x)"
  proof -
    have "unat (f64_of_mag (f64_sign x) (f64_mag x)) = (if f64_sign x then 2 ^ 63 + f64_mag x else f64_mag x)"
      by (rule unat_f64_of_mag [OF f64_mag_less])
    then have "unat x = (if f64_sign x then 2 ^ 63 + f64_mag x else f64_mag x)"
      by (simp only: f64_decompose)
    then show ?thesis by (simp add: uint_nat)
  qed
  show ?thesis
  proof (cases "f64_is_zero x")
    case True
    then show ?thesis using assms
      by (simp add: sortable_bits_def f64_zero_def f64_key_def f64_is_zero_def sign_bit_def)
  next
    case False
    then have "0 < f64_mag x" by (simp add: f64_is_zero_def)
    with False assms u show ?thesis
      by (auto simp: sortable_bits_def Let_def drop_63 uint_neg uint_flip_sign bit_63 f64_key_def)
  qed
qed

lemma encode_key_float_cmp:
  assumes "\<not> f64_is_nan x" and "\<not> f64_is_nan y"
  shows "cmp (encode_key (DFloat x)) (encode_key (DFloat y)) = cmp (f64_key x) (f64_key y)"
proof -
  have "sortable_bits x < sortable_bits y \<longleftrightarrow> f64_key x < f64_key y"
    by (auto simp: word_less_def uint_sortable_bits assms)
  moreover have "sortable_bits x = sortable_bits y \<longleftrightarrow> f64_key x = f64_key y"
    by (auto simp: word_uint_eq_iff uint_sortable_bits assms split: if_splits)
  ultimately show ?thesis by (simp add: pad20_cmp) (simp add: cmp_def)
qed

lemma sortable_bits_nan: "f64_is_nan x \<Longrightarrow> sortable_bits x = xor f64_nan sign_bit"
  by (simp add: sortable_bits_def drop_63) (simp add: f64_nan_def inf_mag_def)

end
