(* ===== verification/Index.thy ===== *)
theory Index
  imports Keys
begin

text \<open>
  \<open>index.rs\<close>: the BTREE index (an ordered map from encoded values to row numbers) and the
  TRIGRAM index (an inverted index from trigrams to row numbers), what both promise (a locale:
  the rows posted under a key are exactly the rows whose value has that key, and inserting,
  appending and updating keep it so), and the lookups.

  A \<open>BTreeMap\<close> is its entries in ascending key order; a \<open>HashMap\<close> of \<open>HashSet\<close>s is a map to
  sets.
\<close>

section \<open>Ordered maps\<close>

fun sm_insert :: "'k::linorder \<Rightarrow> 'v \<Rightarrow> ('k \<times> 'v) list \<Rightarrow> ('k \<times> 'v) list" where
  "sm_insert k v [] = [(k, v)]"
| "sm_insert k v ((k', v') # m) =
     (if k < k' then (k, v) # (k', v') # m
      else if k = k' then (k, v) # m
      else (k', v') # sm_insert k v m)"

definition sm_remove :: "'k \<Rightarrow> ('k \<times> 'v) list \<Rightarrow> ('k \<times> 'v) list" where
  "sm_remove k m = filter (\<lambda>(k', _). k' \<noteq> k) m"

abbreviation sm_sorted :: "('k::linorder \<times> 'v) list \<Rightarrow> bool" where
  "sm_sorted m \<equiv> sorted_wrt (<) (map fst m)"

lemma set_sm_insert: "fst ` set (sm_insert k v m) = insert k (fst ` set m)"
  by (induction k v m rule: sm_insert.induct) auto

lemma sm_sorted_insert: "sm_sorted m \<Longrightarrow> sm_sorted (sm_insert k v m)"
proof (induction k v m rule: sm_insert.induct)
  case (2 k v k' v' m)
  have "set (map fst (sm_insert k v m)) = insert k (set (map fst m))"
    using set_sm_insert [of k v m] by simp
  with 2 show ?case by auto
qed simp

lemma map_of_sm_insert: "sm_sorted m \<Longrightarrow> map_of (sm_insert k v m) = (map_of m)(k \<mapsto> v)"
proof (induction k v m rule: sm_insert.induct)
  case (2 k v k' v' m)
  then show ?case by (auto simp: fun_eq_iff)
qed (auto simp: fun_eq_iff)

lemma sm_sorted_remove: "sm_sorted m \<Longrightarrow> sm_sorted (sm_remove k m)"
  by (induction m) (auto simp: sm_remove_def)

lemma map_of_sm_remove: "map_of (sm_remove k m) = (map_of m)(k := None)"
  by (induction m) (auto simp: sm_remove_def fun_eq_iff)

lemma sm_sorted_distinct: "sm_sorted m \<Longrightarrow> distinct (map fst m)"
  by (simp add: strict_sorted_iff)

lemma sm_get: "sm_sorted m \<Longrightarrow> map_of m k = Some v \<longleftrightarrow> (k, v) \<in> set m"
  by (simp add: sm_sorted_distinct)

section \<open>The BTREE index\<close>

record btree_index =
  bt_column :: rstr
  bt_entries :: "(rstr \<times> nat list) list"

definition bt_new :: "rstr \<Rightarrow> btree_index" where
  "bt_new c = \<lparr>bt_column = c, bt_entries = []\<rparr>"

definition postings :: "btree_index \<Rightarrow> rstr \<Rightarrow> nat list" where
  "postings ix k = (case map_of (bt_entries ix) k of None \<Rightarrow> [] | Some l \<Rightarrow> l)"

definition bt_insert :: "nat \<Rightarrow> db_value \<Rightarrow> btree_index \<Rightarrow> btree_index" where
  "bt_insert i v ix =
     ix\<lparr>bt_entries := sm_insert (encode_key v) (postings ix (encode_key v) @ [i]) (bt_entries ix)\<rparr>"

definition bt_remove :: "nat \<Rightarrow> db_value \<Rightarrow> btree_index \<Rightarrow> btree_index" where
  "bt_remove i v ix =
     (let k = encode_key v
      in case map_of (bt_entries ix) k of
           None \<Rightarrow> ix
         | Some l \<Rightarrow>
             (let l' = filter (\<lambda>j. j \<noteq> i) l
              in if l' = [] then ix\<lparr>bt_entries := sm_remove k (bt_entries ix)\<rparr>
                 else ix\<lparr>bt_entries := sm_insert k l' (bt_entries ix)\<rparr>))"

definition bt_lookup :: "db_value \<Rightarrow> btree_index \<Rightarrow> nat list" where
  "bt_lookup v ix = postings ix (encode_key v)"

datatype 'a bound = Included 'a | Excluded 'a | Unbounded

fun above :: "'a::linorder bound \<Rightarrow> 'a \<Rightarrow> bool" where
  "above (Included a) k = (a \<le> k)"
| "above (Excluded a) k = (a < k)"
| "above Unbounded k = True"

fun below :: "'a::linorder bound \<Rightarrow> 'a \<Rightarrow> bool" where
  "below (Included b) k = (k \<le> b)"
| "below (Excluded b) k = (k < b)"
| "below Unbounded k = True"

text \<open>\<open>BTreeMap::range\<close> panics on an inverted range and on an empty doubly excluded one.\<close>

fun range_panics :: "'a::linorder bound \<Rightarrow> 'a bound \<Rightarrow> bool" where
  "range_panics (Excluded a) (Excluded b) = (b \<le> a)"
| "range_panics (Included a) (Included b) = (b < a)"
| "range_panics (Included a) (Excluded b) = (b < a)"
| "range_panics (Excluded a) (Included b) = (b < a)"
| "range_panics _ _ = False"

definition bt_range :: "rstr bound \<Rightarrow> rstr bound \<Rightarrow> btree_index \<Rightarrow> nat list panicking" where
  "bt_range lo hi ix =
     (if range_panics lo hi then None
      else Some (concat (map snd (filter (\<lambda>(k, _). above lo k \<and> below hi k) (bt_entries ix)))))"

definition bt_all_entries :: "btree_index \<Rightarrow> nat list" where
  "bt_all_entries ix = concat (map snd (bt_entries ix))"

section \<open>The TRIGRAM index\<close>

record trigram_index =
  tg_column :: rstr
  tg_map :: "rstr \<rightharpoonup> nat set"

definition tg_new :: "rstr \<Rightarrow> trigram_index" where
  "tg_new c = \<lparr>tg_column = c, tg_map = Map.empty\<rparr>"

fun value_to_plain :: "db_value \<Rightarrow> rstr" where
  "value_to_plain DNull = []"
| "value_to_plain (DBool b) = bool_to_string b"
| "value_to_plain (DInt n) = i64_to_string n"
| "value_to_plain (DFloat f) = f64_to_string f"
| "value_to_plain (DString s) = s"
| "value_to_plain (DStrings v) = join '' '' v"
| "value_to_plain (DFloats v) = join '' '' (map f64_to_string v)"

definition tg_postings :: "trigram_index \<Rightarrow> rstr \<Rightarrow> nat set" where
  "tg_postings ix t = (case tg_map ix t of None \<Rightarrow> {} | Some s \<Rightarrow> s)"

text \<open>The loop over the trigrams of the value touches each entry once, so its order is immaterial.\<close>

definition tg_insert :: "unicode \<Rightarrow> nat \<Rightarrow> db_value \<Rightarrow> trigram_index \<Rightarrow> trigram_index" where
  "tg_insert U i v ix =
     ix\<lparr>tg_map := (\<lambda>t. if t \<in> trigrams U (value_to_plain v) then Some (insert i (tg_postings ix t))
                       else tg_map ix t)\<rparr>"

definition tg_remove :: "unicode \<Rightarrow> nat \<Rightarrow> db_value \<Rightarrow> trigram_index \<Rightarrow> trigram_index" where
  "tg_remove U i v ix =
     ix\<lparr>tg_map := (\<lambda>t. if t \<in> trigrams U (value_to_plain v)
                       then (case tg_map ix t of None \<Rightarrow> None
                             | Some s \<Rightarrow> (if s - {i} = {} then None else Some (s - {i})))
                       else tg_map ix t)\<rparr>"

text \<open>\<open>candidates\<close>: the union of the three smallest posting sets among the pattern's trigrams.  The
  pattern's trigrams come in the iteration order \<open>order\<close> of a \<open>HashSet\<close>; the result set too is
  returned in such an order, so it is a set here.\<close>

definition tg_candidates :: "trigram_index \<Rightarrow> rstr list \<Rightarrow> nat set" where
  "tg_candidates ix order =
     (let ls = sort_key card (List.map_filter (tg_map ix) order)
      in \<Union> (set (take 3 ls)))"

text \<open>\<open>like_candidates\<close>: the intersection over the windows of the lower-cased run that are indexed;
  windows without an entry are skipped.\<close>

definition tg_like_candidates :: "unicode \<Rightarrow> rstr \<Rightarrow> trigram_index \<Rightarrow> nat set" where
  "tg_like_candidates U run ix =
     (let lower = to_lowercase U run
      in if length lower < 3 then {}
         else case List.map_filter (tg_map ix) (remdups (sort (map from_utf8_lossy (windows3 lower)))) of
                [] \<Rightarrow> {}
              | first # ls \<Rightarrow> foldl (\<lambda>acc l. acc \<inter> l) first ls)"

section \<open>What an index promises\<close>

text \<open>
  \<open>posts ix k\<close> are the rows an index has under a key, \<open>keys v\<close> the keys a value is filed under.
  An index represents a column when every key's posts are the rows whose cell has the key.
\<close>

definition represents :: "('ix \<Rightarrow> bool) \<Rightarrow> ('ix \<Rightarrow> 'k \<Rightarrow> nat set) \<Rightarrow> ('v \<Rightarrow> 'k set) \<Rightarrow> 'ix \<Rightarrow> 'v list \<Rightarrow> bool" where
  "represents ok posts keys ix vals \<longleftrightarrow>
     ok ix \<and> (\<forall>k. posts ix k = {i. i < length vals \<and> k \<in> keys (vals ! i)})"

definition index_fill :: "(nat \<Rightarrow> 'v \<Rightarrow> 'ix \<Rightarrow> 'ix) \<Rightarrow> 'ix \<Rightarrow> 'v list \<Rightarrow> 'ix" where
  "index_fill ins ix vals = foldl (\<lambda>ix (i, v). ins i v ix) ix (enumerate 0 vals)"

locale row_index =
  fixes ok :: "'ix \<Rightarrow> bool"
    and posts :: "'ix \<Rightarrow> 'k \<Rightarrow> nat set"
    and keys :: "'v \<Rightarrow> 'k set"
    and ins :: "nat \<Rightarrow> 'v \<Rightarrow> 'ix \<Rightarrow> 'ix"
    and rem :: "nat \<Rightarrow> 'v \<Rightarrow> 'ix \<Rightarrow> 'ix"
  assumes ins_ok: "ok ix \<Longrightarrow> (\<And>k. k \<in> keys v \<Longrightarrow> i \<notin> posts ix k) \<Longrightarrow> ok (ins i v ix)"
    and rem_ok: "ok ix \<Longrightarrow> ok (rem i v ix)"
    and posts_ins: "ok ix \<Longrightarrow> posts (ins i v ix) k = (if k \<in> keys v then insert i (posts ix k) else posts ix k)"
    and posts_rem: "ok ix \<Longrightarrow> posts (rem i v ix) k = (if k \<in> keys v then posts ix k - {i} else posts ix k)"
begin

lemma append:
  assumes "represents ok posts keys ix vals"
  shows "represents ok posts keys (ins (length vals) v ix) (vals @ [v])"
proof -
  have "ok ix" and p: "\<And>k. posts ix k = {i. i < length vals \<and> k \<in> keys (vals ! i)}"
    using assms by (auto simp: represents_def)
  moreover have "ok (ins (length vals) v ix)" using \<open>ok ix\<close> p by (intro ins_ok) auto
  ultimately show ?thesis
    by (auto simp: represents_def posts_ins p nth_append less_Suc_eq split: if_splits)
qed

lemma update:
  assumes "represents ok posts keys ix vals" and "i < length vals"
  shows "represents ok posts keys (ins i v (rem i (vals ! i) ix)) (vals[i := v])"
proof -
  have o: "ok ix" and p: "\<And>k. posts ix k = {i. i < length vals \<and> k \<in> keys (vals ! i)}"
    using assms by (auto simp: represents_def)
  have r: "posts (rem i (vals ! i) ix) k = {j. j < length vals \<and> j \<noteq> i \<and> k \<in> keys (vals ! j)}" for k
    using posts_rem [OF o, of i "vals ! i" k] assms(2) by (auto simp: p split: if_splits)
  have o': "ok (rem i (vals ! i) ix)" using o by (rule rem_ok)
  have "ok (ins i v (rem i (vals ! i) ix))" using o' r by (intro ins_ok) auto
  moreover have "posts (ins i v (rem i (vals ! i) ix)) k = {j. j < length vals \<and> k \<in> keys (vals[i := v] ! j)}" for k
    using posts_ins [OF o', of i v k] assms(2) by (auto simp: r nth_list_update split: if_splits)
  ultimately show ?thesis by (simp add: represents_def)
qed

lemma fill:
  assumes "ok e" and "\<And>k. posts e k = {}"
  shows "represents ok posts keys (index_fill ins e vals) vals"
proof (induction vals rule: rev_induct)
  case Nil
  then show ?case using assms by (simp add: index_fill_def represents_def)
next
  case (snoc v vals)
  then show ?case using append [of "index_fill ins e vals" vals v]
    by (simp add: index_fill_def enumerate_append_eq)
qed

end

text \<open>Both indexes keep it.\<close>

definition bt_ok :: "btree_index \<Rightarrow> bool" where
  "bt_ok ix \<longleftrightarrow> sm_sorted (bt_entries ix) \<and> (\<forall>(k, l) \<in> set (bt_entries ix). l \<noteq> [] \<and> distinct l)"

definition bt_posts :: "btree_index \<Rightarrow> rstr \<Rightarrow> nat set" where
  "bt_posts ix k = set (postings ix k)"

abbreviation bt_keys :: "db_value \<Rightarrow> rstr set" where
  "bt_keys v \<equiv> {encode_key v}"

lemma bt_ok_iff:
  "bt_ok ix \<longleftrightarrow> sm_sorted (bt_entries ix) \<and>
     (\<forall>k l. map_of (bt_entries ix) k = Some l \<longrightarrow> l \<noteq> [] \<and> distinct l)"
proof (cases "sm_sorted (bt_entries ix)")
  case True
  show ?thesis unfolding bt_ok_def sm_get [OF True] by auto
qed (simp add: bt_ok_def)

lemma distinct_postings: "bt_ok ix \<Longrightarrow> distinct (postings ix k)"
  by (auto simp: bt_ok_iff postings_def split: option.splits)

lemma postings_insert:
  "bt_ok ix \<Longrightarrow> postings (bt_insert i v ix) k = (if k = encode_key v then postings ix k @ [i] else postings ix k)"
  by (auto simp: bt_ok_def postings_def bt_insert_def map_of_sm_insert)

lemma postings_remove:
  "bt_ok ix \<Longrightarrow> postings (bt_remove i v ix) k =
     (if k = encode_key v then filter (\<lambda>j. j \<noteq> i) (postings ix k) else postings ix k)"
  by (auto simp: bt_ok_def postings_def bt_remove_def Let_def map_of_sm_insert map_of_sm_remove split: option.splits)

interpretation bt: row_index bt_ok bt_posts bt_keys bt_insert bt_remove
proof
  fix ix v i
  assume ok: "bt_ok ix" and fresh: "\<And>k. k \<in> bt_keys v \<Longrightarrow> i \<notin> bt_posts ix k"
  have "distinct (postings ix (encode_key v) @ [i])"
    using fresh distinct_postings [OF ok] by (simp add: bt_posts_def)
  with ok show "bt_ok (bt_insert i v ix)"
    unfolding bt_ok_iff by (simp add: bt_insert_def sm_sorted_insert map_of_sm_insert)
next
  fix ix i v
  assume "bt_ok ix"
  then show "bt_ok (bt_remove i v ix)"
    unfolding bt_ok_iff
    by (auto simp: bt_remove_def Let_def sm_sorted_insert sm_sorted_remove map_of_sm_insert map_of_sm_remove
        split: option.splits if_splits)
qed (auto simp: bt_posts_def postings_insert postings_remove)

definition tg_ok :: "trigram_index \<Rightarrow> bool" where
  "tg_ok ix \<longleftrightarrow> (\<forall>t. tg_map ix t \<noteq> Some {})"

abbreviation tg_keys :: "unicode \<Rightarrow> db_value \<Rightarrow> rstr set" where
  "tg_keys U v \<equiv> trigrams U (value_to_plain v)"

interpretation tg: row_index tg_ok tg_postings "tg_keys U" "tg_insert U" "tg_remove U"
  by unfold_locales
    (auto simp: tg_ok_def tg_postings_def tg_insert_def tg_remove_def split: option.splits if_splits)

section \<open>Lookups\<close>

lemma postings_represented:
  "represents bt_ok bt_posts bt_keys ix vals \<Longrightarrow>
     set (postings ix k) = {i. i < length vals \<and> encode_key (vals ! i) = k} \<and> distinct (postings ix k)"
  by (auto simp: represents_def bt_posts_def distinct_postings)

text \<open>Scanning a key range lists the postings in key order.\<close>

lemma filter_entries_sorted:
  "sm_sorted m \<Longrightarrow> sm_sorted (filter P m)"
  by (induction m) auto

lemma distinct_concat_postings:
  assumes "sm_sorted m" and "\<And>k l. (k, l) \<in> set m \<Longrightarrow> distinct l \<and> (\<forall>i \<in> set l. key i = k)"
  shows "distinct (concat (map snd m)) \<and> sorted (map key (concat (map snd m)))"
  using assms
proof (induction m)
  case (Cons p m)
  obtain k l where p: "p = (k, l)" by (cases p)
  have head: "distinct l" "\<forall>i \<in> set l. key i = k" using Cons.prems(2) [of k l] p by auto
  have tail: "distinct (concat (map snd m)) \<and> sorted (map key (concat (map snd m)))"
    using Cons by auto
  have later: "k < key j" if "j \<in> set (concat (map snd m))" for j
  proof -
    from that obtain k' l' where e: "(k', l') \<in> set m" "j \<in> set l'" by auto
    then have "k < k'" using Cons.prems(1) p by force
    then show ?thesis using Cons.prems(2) [of k' l'] e by auto
  qed
  have "sorted (map key l)" using head(2) by (induction l) auto
  then show ?case using head tail later p
    by (fastforce simp: sorted_append intro: less_imp_le)
qed simp

lemma bt_range_represented:
  assumes r: "represents bt_ok bt_posts bt_keys ix vals" and l: "bt_range lo hi ix = Some l"
  shows "set l = {i. i < length vals \<and> above lo (encode_key (vals ! i)) \<and> below hi (encode_key (vals ! i))}
    \<and> distinct l \<and> sorted (map (\<lambda>i. encode_key (vals ! i)) l)"
proof -
  let ?m = "bt_entries ix" and ?key = "\<lambda>i. encode_key (vals ! i)"
  have ok: "bt_ok ix" using r by (simp add: represents_def)
  then have s: "sm_sorted ?m" by (simp add: bt_ok_def)
  have e: "(k, xs) \<in> set ?m \<Longrightarrow> set xs = {i. i < length vals \<and> ?key i = k} \<and> distinct xs" for k xs
    using postings_represented [OF r, of k] sm_get [OF s, of k xs] by (simp add: postings_def)
  have cover: "\<exists>xs. (?key i, xs) \<in> set ?m" if "i < length vals" for i
  proof -
    have "i \<in> set (postings ix (?key i))" using postings_represented [OF r, of "?key i"] that by simp
    then obtain xs where "map_of ?m (?key i) = Some xs"
      by (cases "map_of ?m (?key i)") (simp_all add: postings_def)
    then show ?thesis using map_of_SomeD by fast
  qed
  let ?f = "filter (\<lambda>(k, _). above lo k \<and> below hi k) ?m"
  have d: "distinct (concat (map snd ?f)) \<and> sorted (map ?key (concat (map snd ?f)))"
  proof (rule distinct_concat_postings [OF filter_entries_sorted [OF s]])
    fix k xs assume "(k, xs) \<in> set ?f"
    then have "(k, xs) \<in> set ?m" by simp
    from e [OF this] show "distinct xs \<and> (\<forall>i \<in> set xs. ?key i = k)" by simp
  qed
  have "set (concat (map snd ?f)) = {i. i < length vals \<and> above lo (?key i) \<and> below hi (?key i)}"
  proof (intro set_eqI iffI)
    fix i assume "i \<in> set (concat (map snd ?f))"
    then obtain k xs where m: "(k, xs) \<in> set ?m" and b: "above lo k" "below hi k" "i \<in> set xs" by auto
    from b(3) have "i < length vals \<and> ?key i = k" unfolding e [OF m, THEN conjunct1] by simp
    with b show "i \<in> {i. i < length vals \<and> above lo (?key i) \<and> below hi (?key i)}" by simp
  next
    fix i assume "i \<in> {i. i < length vals \<and> above lo (?key i) \<and> below hi (?key i)}"
    then have i: "i < length vals" "above lo (?key i)" "below hi (?key i)" by simp_all
    then obtain xs where xs: "(?key i, xs) \<in> set ?m" using cover by blast
    from i have "i \<in> set xs" unfolding e [OF xs, THEN conjunct1] by simp
    with xs i show "i \<in> set (concat (map snd ?f))" by force
  qed
  with d l show ?thesis by (auto simp: bt_range_def split: if_splits)
qed

text \<open>Which values share a key.\<close>

lemma encode_key_int_iff: "encode_key w = encode_key (DInt n) \<longleftrightarrow> w = DInt n"
  by (cases w rule: encode_key.cases) (auto simp: pad20_eq_iff int_key_eq)

lemma encode_key_string_iff: "encode_key w = encode_key (DString s) \<longleftrightarrow> w = DString s"
  by (cases w rule: encode_key.cases) auto

text \<open>The trigram candidates of a containment search.\<close>

lemma foldl_inter: "foldl (\<lambda>acc l. acc \<inter> l) a ls = a \<inter> \<Inter> (set ls)"
  by (induction ls arbitrary: a) auto

lemma set_map_filter: "set (List.map_filter f xs) = {y. \<exists>x \<in> set xs. f x = Some y}"
  by (induction xs) (auto simp: List.map_filter_simps split: option.splits)

lemma like_candidates_iff:
  assumes "3 \<le> length (to_lowercase U run)"
  shows "i \<in> tg_like_candidates U run ix \<longleftrightarrow>
     (\<exists>w \<in> set (windows3 (to_lowercase U run)). tg_map ix (from_utf8_lossy w) \<noteq> None) \<and>
     (\<forall>w \<in> set (windows3 (to_lowercase U run)). \<forall>l. tg_map ix (from_utf8_lossy w) = Some l \<longrightarrow> i \<in> l)"
proof -
  let ?ls = "List.map_filter (tg_map ix) (remdups (sort (map from_utf8_lossy (windows3 (to_lowercase U run)))))"
  have s: "set ?ls = {l. \<exists>w \<in> set (windows3 (to_lowercase U run)). tg_map ix (from_utf8_lossy w) = Some l}"
    by (auto simp: set_map_filter)
  have "i \<in> tg_like_candidates U run ix \<longleftrightarrow> ?ls \<noteq> [] \<and> (\<forall>l \<in> set ?ls. i \<in> l)"
    using assms by (cases ?ls) (simp_all add: tg_like_candidates_def Let_def foldl_inter)
  also have "?ls \<noteq> [] \<longleftrightarrow> set ?ls \<noteq> {}" by simp
  finally show ?thesis unfolding s by blast
qed

lemma like_candidates_sound:
  assumes "represents tg_ok tg_postings (tg_keys U) ix vals"
    and "3 \<le> length (to_lowercase U run)" and "i < length vals"
    and "contains_sub (to_lowercase U (value_to_plain (vals ! i))) (to_lowercase U run)"
  shows "i \<in> tg_like_candidates U run ix"
proof -
  let ?ws = "set (windows3 (to_lowercase U run))"
  have k: "from_utf8_lossy ` ?ws \<subseteq> tg_keys U (vals ! i)"
    using assms(4) by (rule trigrams_of_substring)
  have p: "i \<in> tg_postings ix (from_utf8_lossy w)" if "w \<in> ?ws" for w
    using assms(1,3) k that by (auto simp: represents_def)
  have "?ws \<noteq> {}"
    using assms(2) by (cases "to_lowercase U run" rule: windows3.cases) auto
  then obtain w where w: "w \<in> ?ws" by (metis ex_in_conv)
  have "tg_map ix (from_utf8_lossy w) \<noteq> None" if "w \<in> ?ws" for w
    using p [OF that] by (auto simp: tg_postings_def split: option.splits)
  moreover have "i \<in> l" if "w \<in> ?ws" "tg_map ix (from_utf8_lossy w) = Some l" for w l
    using p [OF that(1)] that(2) by (simp add: tg_postings_def)
  ultimately show ?thesis using w assms(2) by (auto simp: like_candidates_iff)
qed

text \<open>The candidates of a fuzzy search share a trigram with the pattern, and some are found
  whenever any row does.\<close>

lemma candidates_sound:
  assumes r: "represents tg_ok tg_postings (tg_keys U) ix vals" and "set order = trigrams U pat"
    and i: "i \<in> tg_candidates ix order"
  shows "i < length vals \<and> trigrams U pat \<inter> tg_keys U (vals ! i) \<noteq> {}"
proof -
  from i obtain l where "l \<in> set (take 3 (sort_key card (List.map_filter (tg_map ix) order)))" "i \<in> l"
    by (auto simp: tg_candidates_def Let_def)
  then have "l \<in> set (List.map_filter (tg_map ix) order)"
    by (metis in_set_takeD set_sort)
  then obtain t where t: "t \<in> trigrams U pat" "tg_map ix t = Some l"
    using assms(2) by (auto simp: set_map_filter)
  then have "i \<in> tg_postings ix t" using \<open>i \<in> l\<close> by (simp add: tg_postings_def)
  then have "i < length vals \<and> t \<in> tg_keys U (vals ! i)"
    using r by (simp add: represents_def)
  with t show ?thesis by blast
qed

lemma candidates_empty_iff:
  assumes r: "represents tg_ok tg_postings (tg_keys U) ix vals" and o: "set order = trigrams U pat"
  shows "tg_candidates ix order = {} \<longleftrightarrow> (\<forall>v \<in> set vals. trigrams U pat \<inter> tg_keys U v = {})"
proof
  assume e: "tg_candidates ix order = {}"
  show "\<forall>v \<in> set vals. trigrams U pat \<inter> tg_keys U v = {}"
  proof (rule ccontr)
    assume "\<not> ?thesis"
    then obtain i t where i: "i < length vals" "t \<in> trigrams U pat" "t \<in> tg_keys U (vals ! i)"
      by (auto simp: in_set_conv_nth)
    then have "i \<in> tg_postings ix t" using r by (auto simp: represents_def)
    then obtain l where "tg_map ix t = Some l" by (auto simp: tg_postings_def split: option.splits)
    then have "List.map_filter (tg_map ix) order \<noteq> []"
      using i(2) o set_map_filter [of "tg_map ix" order] by force
    then have "length (sort_key card (List.map_filter (tg_map ix) order)) \<noteq> 0" by simp
    then obtain x xs where s: "sort_key card (List.map_filter (tg_map ix) order) = x # xs"
      by (cases "sort_key card (List.map_filter (tg_map ix) order)") auto
    then have "x \<in> set (List.map_filter (tg_map ix) order)" by (metis list.set_intros(1) set_sort)
    then have "x \<noteq> {}" using r by (auto simp: set_map_filter represents_def tg_ok_def)
    moreover have "x \<subseteq> tg_candidates ix order" by (auto simp: tg_candidates_def s)
    ultimately show False using e by blast
  qed
next
  assume "\<forall>v \<in> set vals. trigrams U pat \<inter> tg_keys U v = {}"
  then show "tg_candidates ix order = {}"
    using candidates_sound [OF r o] nth_mem by blast
qed

section \<open>Either index\<close>

datatype index_type = KBTree | KTrigram

fun index_type_display :: "index_type \<Rightarrow> rstr" where
  "index_type_display KBTree = ''BTREE''"
| "index_type_display KTrigram = ''TRIGRAM''"

record index_meta =
  ix_name :: rstr
  ix_table :: rstr
  ix_column :: rstr
  ix_type :: index_type

datatype index_impl = IBTree btree_index | ITrigram trigram_index

fun impl_new :: "index_type \<Rightarrow> rstr \<Rightarrow> index_impl" where
  "impl_new KBTree c = IBTree (bt_new c)"
| "impl_new KTrigram c = ITrigram (tg_new c)"

text \<open>The new index of the same kind that \<open>rebuild_indices\<close> puts in place.\<close>

fun impl_clear :: "rstr \<Rightarrow> index_impl \<Rightarrow> index_impl" where
  "impl_clear c (IBTree _) = IBTree (bt_new c)"
| "impl_clear c (ITrigram _) = ITrigram (tg_new c)"

fun impl_insert :: "unicode \<Rightarrow> nat \<Rightarrow> db_value \<Rightarrow> index_impl \<Rightarrow> index_impl" where
  "impl_insert U i v (IBTree ix) = IBTree (bt_insert i v ix)"
| "impl_insert U i v (ITrigram ix) = ITrigram (tg_insert U i v ix)"

fun impl_remove :: "unicode \<Rightarrow> nat \<Rightarrow> db_value \<Rightarrow> index_impl \<Rightarrow> index_impl" where
  "impl_remove U i v (IBTree ix) = IBTree (bt_remove i v ix)"
| "impl_remove U i v (ITrigram ix) = ITrigram (tg_remove U i v ix)"

text \<open>An index and a column of values agree.\<close>

fun impl_represents :: "unicode \<Rightarrow> index_impl \<Rightarrow> db_value list \<Rightarrow> bool" where
  "impl_represents U (IBTree ix) vals = represents bt_ok bt_posts bt_keys ix vals"
| "impl_represents U (ITrigram ix) vals = represents tg_ok tg_postings (tg_keys U) ix vals"

lemma impl_append:
  "impl_represents U ix vals \<Longrightarrow> n = length vals \<Longrightarrow> impl_represents U (impl_insert U n v ix) (vals @ [v])"
  by (cases ix) (simp_all add: bt.append tg.append)

lemma impl_update:
  "impl_represents U ix vals \<Longrightarrow> i < length vals \<Longrightarrow> old = vals ! i \<Longrightarrow>
     impl_represents U (impl_insert U i v (impl_remove U i old ix)) (vals[i := v])"
  by (cases ix) (simp_all add: bt.update tg.update)

lemma bt_new_empty: "bt_ok (bt_new c)" "bt_posts (bt_new c) k = {}"
  by (simp_all add: bt_new_def bt_ok_def bt_posts_def postings_def)

lemma tg_new_empty: "tg_ok (tg_new c)" "tg_postings (tg_new c) k = {}"
  by (simp_all add: tg_new_def tg_ok_def tg_postings_def)

lemma impl_fill_BTree:
  "index_fill (impl_insert U) (IBTree ix) vals = IBTree (index_fill bt_insert ix vals)"
  by (induction vals rule: rev_induct) (simp_all add: index_fill_def enumerate_append_eq)

lemma impl_fill_Trigram:
  "index_fill (impl_insert U) (ITrigram ix) vals = ITrigram (index_fill (tg_insert U) ix vals)"
  by (induction vals rule: rev_induct) (simp_all add: index_fill_def enumerate_append_eq)

lemma impl_fill_new: "impl_represents U (index_fill (impl_insert U) (impl_new t c) vals) vals"
  by (cases t) (simp_all add: impl_fill_BTree impl_fill_Trigram bt.fill tg.fill bt_new_empty tg_new_empty)

lemma impl_fill_clear: "impl_represents U (index_fill (impl_insert U) (impl_clear c ix) vals) vals"
  by (cases ix) (simp_all add: impl_fill_BTree impl_fill_Trigram bt.fill tg.fill bt_new_empty tg_new_empty)

end
