(* ===== verification/ValueProps.thy ===== *)
theory ValueProps
  imports Index
begin

text \<open>
  The properties of the value layer: arithmetic and its one panic, the wildcard matchers, grouping,
  the error codes, the key encodings and the order of index keys.  Each theorem stands after the
  sentence that says what it claims, with a concrete instance where it has hypotheses.
\<close>

section \<open>Keys\<close>

text \<open>C18.  Two rows of a table get the same primary-key text exactly when every primary-key column
  holds the same value (floats by their decimal text): whatever bytes the values contain, no two
  different composite keys collide, although the parts are concatenated without a separator.\<close>

theorem pk_key_injective:
  "pk_indices cols \<noteq> [] \<Longrightarrow>
   pk_key_static cols r = pk_key_static cols s \<longleftrightarrow>
     (\<forall>i < length cols. col_primary_key (cols ! i) \<longrightarrow> same_key (r ! i) (s ! i))"
  by (rule pk_key_eq_iff)

definition two_text_pks :: "column list" where
  "two_text_pks = [(plain_column ''a'' TString)\<lparr>col_primary_key := True\<rparr>,
                   (plain_column ''b'' TString)\<lparr>col_primary_key := True\<rparr>]"

theorem pk_key_injective_witness:
  "pk_key_static two_text_pks [DString ''ab'', DString ''c''] \<noteq>
   pk_key_static two_text_pks [DString ''a'', DString ''bc'']"
proof -
  have "pk_indices two_text_pks \<noteq> []"
    by (simp add: pk_indices_def two_text_pks_def plain_column_def)
  from pk_key_injective [OF this, of "[DString ''ab'', DString ''c'']" "[DString ''a'', DString ''bc'']"]
  show ?thesis by (auto simp: two_text_pks_def plain_column_def dest: spec [of _ 0])
qed

text \<open>The BTREE key of an integer column is order preserving and injective over all of
  \<open>i64\<close>: keys compare as the signed values do, the extremes included.\<close>

theorem int_key_order:
  "cmp (encode_key (DInt a)) (encode_key (DInt b)) = cmp (sint a) (sint b)"
  using uint_int_key [of a] uint_int_key [of b]
  by (simp add: pad20_cmp) (auto simp: cmp_def word_less_def word_uint_eq_iff)

text \<open>The BTREE key of a float column is order preserving: for any two floats that are not
  NaN, infinities, zeros of either sign and subnormals included, the keys compare as IEEE
  comparison does.\<close>

theorem float_key_order:
  "\<not> f64_is_nan x \<Longrightarrow> \<not> f64_is_nan y \<Longrightarrow>
     Some (cmp (encode_key (DFloat x)) (encode_key (DFloat y))) = f64_partial_cmp x y"
  by (simp add: encode_key_float_cmp f64_partial_cmp_def del: encode_key.simps)

theorem float_key_order_witness:
  "Some (cmp (encode_key (DFloat 0x8000000000000000)) (encode_key (DFloat 0))) =
     f64_partial_cmp 0x8000000000000000 0"
  by (rule float_key_order) (simp_all add: f64_is_nan_def f64_mag_def inf_mag_def)

section \<open>Grouping\<close>

text \<open>GROUP BY and DISTINCT put rows into a hash table: two keys feed the hasher the same
  stream exactly when they are equal as groups (NaN with NaN, the two zeros, arrays element by
  element).  So the \<open>Hash\<close> and \<open>Eq\<close> of \<open>GroupKey\<close> agree, and streams of different keys differ.\<close>

theorem group_hash_agrees:
  "hash_group_key a = hash_group_key b \<longleftrightarrow> group_key_eq a b"
proof -
  have "hash_group_value v \<noteq> []" for v by (cases v) simp_all
  then have "length a = length b \<and> concat (map hash_group_value a) = concat (map hash_group_value b) \<longleftrightarrow>
      list_all2 group_values_equal a b"
    using hv.concat_enc_eq_iff [of a b] list_all2_lengthD [of group_values_equal a b] by blast
  then show ?thesis by (simp add: hash_group_key_def group_key_eq_iff)
qed

section \<open>Operators\<close>

text \<open>Arithmetic never panics but for one case: dividing the smallest integer by \<open>-1\<close>.  Every
  other operand pair gives a value, NULL or an error; in particular addition, subtraction and
  multiplication overflow by wrapping, and division by zero is an error.\<close>

theorem arithmetic_panics_only_on_min_div:
  "arith_op op a b = None \<longleftrightarrow>
     op = ADiv \<and> (\<exists>x y. a = DInt x \<and> b = DInt y \<and> sint x = i64_min \<and> sint y = -1)"
  by (rule arith_op_panics_iff)

text \<open>C30.  LIKE, SIMILAR TO and the fuzzy filters use one recursive matcher: it accepts a text
  exactly when the text is in the language of the pattern, \<open>%\<close> standing for any run and \<open>_\<close> for
  one character, over Unicode scalar values.\<close>

theorem like_matches_language:
  "simple_like v p \<longleftrightarrow> glob_lang 37 95 (chars p) (chars v)"
  by (simp add: simple_like_def like_match_def glob_match_iff_lang)

text \<open>An integer numeral that a double holds exactly is read as that double.\<close>

text \<open>ORDER BY compares two numbers (or numeric texts) as numbers and anything else as text.
  Swapping the operands always reverses the answer, but the comparison is not transitive: there are
  three texts that compare in a circle, so a sort over such a column has no answer.\<close>

theorem order_by_cycle:
  "(\<forall>a b. db_value_cmp b a = ord_reverse (db_value_cmp a b)) \<and>
   db_value_cmp (DString ''2'') (DString ''10'') = Less \<and>
   db_value_cmp (DString ''10'') (DString ''1a'') = Less \<and>
   db_value_cmp (DString ''1a'') (DString ''2'') = Less"
proof -
  have m: "round_mag 2 1 = 0x4000000000000000" "round_mag 10 1 = 0x4024000000000000"
    by (rule round_mag_units; simp add: inf_mag_def f64_units_def f64_sig_def f64_bexp_def f64_unit_den_def)+
  have n: "parse_f64 ''2'' = Some 0x4000000000000000" "parse_f64 ''10'' = Some 0x4024000000000000" "parse_f64 ''1a'' = None"
    by (simp_all add: parse_f64_def Let_def to_ascii_lowercase_def ascii_lower_def parse_exponent_def is_digit_def
        digits_val_def digit_val_def round_dec_def dec_frac_def m [simplified] f64_of_mag_def)
  have c: "f64_partial_cmp 0x4000000000000000 0x4024000000000000 = Some Less"
    by (simp add: f64_partial_cmp_def f64_is_nan_def f64_mag_def inf_mag_def f64_key_def f64_sign_def)
  have t: "''10'' < ''1a''" "''1a'' < ''2''" by (simp_all add: less_char_def)
  show ?thesis
  proof (intro conjI allI)
    show "db_value_cmp b a = ord_reverse (db_value_cmp a b)" for a b by (rule db_value_cmp_reverse)
  qed (use n c t in \<open>simp_all add: db_value_cmp_def\<close>)
qed

section \<open>Errors\<close>

text \<open>The error code of every error survives the wire: printing it and parsing the text
  gives the code back.\<close>

theorem error_code_roundtrip:
  "code_from_str U (code_display (error_code_of e)) = Some (error_code_of e)"
  by (rule code_from_display)

end
