(* ===== verification/TableOps.thy ===== *)
theory TableOps
  imports Index
begin

text \<open>
  \<open>table.rs\<close>, \<open>table/row_ops.rs\<close> and \<open>table/schema.rs\<close>: the in-memory table.  A row is checked and
  coerced cell by cell, its primary-key and unique keys are registered, and every secondary index
  follows.  Operations that can index past the end of a row are \<open>None\<close> there (a Rust panic).
\<close>

section \<open>The table\<close>

datatype referential_action = Restrict | Cascade | SetNull | NoAction | SetDefault

record foreign_key =
  fk_local_column :: rstr
  fk_foreign_table :: rstr
  fk_foreign_column :: rstr
  fk_on_delete :: "referential_action option"
  fk_on_update :: "referential_action option"

record trigger_info =
  tr_name :: rstr
  tr_timing :: rstr
  tr_event :: rstr
  tr_body :: rstr

record table =
  tbl_name :: rstr
  tbl_columns :: "column list"
  tbl_rows :: "row list"
  tbl_col_index :: "rstr \<rightharpoonup> nat"
  tbl_pk_set :: "rstr set"
  tbl_pk_row_index :: "rstr \<rightharpoonup> nat"
  tbl_unique_set :: "rstr set"
  tbl_indices :: "(index_meta \<times> index_impl) list"
  tbl_next_auto_inc :: i64
  tbl_check_constraints :: "sql_expr list"
  tbl_foreign_keys :: "foreign_key list"
  tbl_triggers :: "trigger_info list"

text \<open>\<open>Table::new\<close>.\<close>

fun index_columns :: "column list \<Rightarrow> nat \<Rightarrow> (rstr \<rightharpoonup> nat) \<Rightarrow> (rstr \<rightharpoonup> nat) sres" where
  "index_columns [] i m = Inr m"
| "index_columns (c # cs) i m =
     (if m (col_name c) \<noteq> None then Inl (''Duplicate column '' @ [CHR 39] @ col_name c @ [CHR 39])
      else index_columns cs (Suc i) (m(col_name c \<mapsto> i)))"

definition new_table :: "rstr \<Rightarrow> column list \<Rightarrow> table sres" where
  "new_table n cols =
     (if cols = [] then Inl ''Table must have at least one column''
      else bind_res (index_columns cols 0 Map.empty) (\<lambda>m. Inr
        \<lparr>tbl_name = n, tbl_columns = cols, tbl_rows = [], tbl_col_index = m, tbl_pk_set = {},
         tbl_pk_row_index = Map.empty, tbl_unique_set = {}, tbl_indices = [], tbl_next_auto_inc = 1,
         tbl_check_constraints = [], tbl_foreign_keys = [], tbl_triggers = []\<rparr>))"

definition pk_key :: "table \<Rightarrow> row \<Rightarrow> rstr option" where
  "pk_key t r = pk_key_static (tbl_columns t) r"

definition row_count :: "table \<Rightarrow> nat" where
  "row_count t = length (tbl_rows t)"

definition col_count :: "table \<Rightarrow> nat" where
  "col_count t = length (tbl_columns t)"

section \<open>Indexes of a table\<close>

text \<open>\<open>rows[\<dots>][ci]\<close> over all rows, for a column that every row has.\<close>

definition column_values :: "row list \<Rightarrow> nat \<Rightarrow> db_value list option" where
  "column_values rows ci =
     (if \<forall>r \<in> set rows. ci < length r then Some (map (\<lambda>r. r ! ci) rows) else None)"

fun map_option_list :: "('a \<Rightarrow> 'b option) \<Rightarrow> 'a list \<Rightarrow> 'b list option" where
  "map_option_list f [] = Some []"
| "map_option_list f (x # xs) =
     (case f x of None \<Rightarrow> None | Some y \<Rightarrow> map_option (\<lambda>ys. y # ys) (map_option_list f xs))"

definition rebuild_one :: "unicode \<Rightarrow> table \<Rightarrow> index_meta \<times> index_impl \<Rightarrow> (index_meta \<times> index_impl) panicking" where
  "rebuild_one U t mi =
     (let (meta, impl) = mi; fresh = impl_clear (ix_column meta) impl
      in case tbl_col_index t (ix_column meta) of
           None \<Rightarrow> Some (meta, fresh)
         | Some ci \<Rightarrow> map_option (\<lambda>vals. (meta, index_fill (impl_insert U) fresh vals))
                        (column_values (tbl_rows t) ci))"

definition rebuild_indices :: "unicode \<Rightarrow> table \<Rightarrow> table panicking" where
  "rebuild_indices U t =
     map_option (\<lambda>ixs. t\<lparr>tbl_indices := ixs\<rparr>) (map_option_list (rebuild_one U t) (tbl_indices t))"

text \<open>One pass of the loop of \<open>rebuild_index\<close>.\<close>

definition register_row :: "column list \<Rightarrow> (nat \<times> row) \<Rightarrow> rstr set \<times> (rstr \<rightharpoonup> nat) \<times> rstr set
    \<Rightarrow> rstr set \<times> (rstr \<rightharpoonup> nat) \<times> rstr set" where
  "register_row cols ir st =
     (let (i, r) = ir; (ps, pr, us) = st
      in case pk_key_static cols r of
           None \<Rightarrow> (ps, pr, us \<union> set (unique_keys cols r))
         | Some k \<Rightarrow> (insert k ps, pr(k \<mapsto> i), us \<union> set (unique_keys cols r)))"

definition register_rows :: "column list \<Rightarrow> row list \<Rightarrow> rstr set \<times> (rstr \<rightharpoonup> nat) \<times> rstr set" where
  "register_rows cols rows = fold (register_row cols) (enumerate 0 rows) ({}, Map.empty, {})"

definition rebuild_index :: "unicode \<Rightarrow> table \<Rightarrow> table panicking" where
  "rebuild_index U t =
     (let (ps, pr, us) = register_rows (tbl_columns t) (tbl_rows t)
      in rebuild_indices U (t\<lparr>tbl_pk_set := ps, tbl_pk_row_index := pr, tbl_unique_set := us\<rparr>))"

definition create_index :: "unicode \<Rightarrow> rstr \<Rightarrow> rstr \<Rightarrow> index_type \<Rightarrow> table \<Rightarrow> table sres panicking" where
  "create_index U name column ty t =
     (case tbl_col_index t column of
        None \<Rightarrow> Some (Inl (''Column '' @ [CHR 39] @ column @ [CHR 39] @ '' does not exist in table '' @
                          [CHR 39] @ tbl_name t @ [CHR 39]))
      | Some ci \<Rightarrow>
          (if \<exists>mi \<in> set (tbl_indices t). ix_name (fst mi) = name
           then Some (Inl (''Index '' @ [CHR 39] @ name @ [CHR 39] @ '' already exists''))
           else map_option (\<lambda>vals. Inr (t\<lparr>tbl_indices := tbl_indices t @
                  [(\<lparr>ix_name = name, ix_table = tbl_name t, ix_column = column, ix_type = ty\<rparr>,
                    index_fill (impl_insert U) (impl_new ty column) vals)]\<rparr>))
                (column_values (tbl_rows t) ci)))"

fun remove_first :: "('a \<Rightarrow> bool) \<Rightarrow> 'a list \<Rightarrow> 'a list option" where
  "remove_first P [] = None"
| "remove_first P (x # xs) = (if P x then Some xs else map_option (\<lambda>ys. x # ys) (remove_first P xs))"

definition drop_index :: "rstr \<Rightarrow> table \<Rightarrow> table sres" where
  "drop_index name t =
     (case remove_first (\<lambda>mi. ix_name (fst mi) = name) (tbl_indices t) of
        Some ixs \<Rightarrow> Inr (t\<lparr>tbl_indices := ixs\<rparr>)
      | None \<Rightarrow> Inl (''Index '' @ [CHR 39] @ name @ [CHR 39] @ '' does not exist''))"

fun btree_on :: "rstr \<Rightarrow> (index_meta \<times> index_impl) list \<Rightarrow> btree_index option" where
  "btree_on column [] = None"
| "btree_on column ((m, IBTree ix) # mis) = (if bt_column ix = column then Some ix else btree_on column mis)"
| "btree_on column ((m, ITrigram ix) # mis) = btree_on column mis"

definition btree_lookup :: "rstr \<Rightarrow> db_value \<Rightarrow> table \<Rightarrow> nat list option" where
  "btree_lookup column v t = map_option (bt_lookup v) (btree_on column (tbl_indices t))"

definition has_index :: "rstr \<Rightarrow> table \<Rightarrow> bool" where
  "has_index name t = (\<exists>mi \<in> set (tbl_indices t). ix_name (fst mi) = name)"

definition find_index :: "rstr \<Rightarrow> index_type \<Rightarrow> table \<Rightarrow> index_impl option" where
  "find_index column ty t =
     map_option snd (List.find (\<lambda>mi. ix_column (fst mi) = column \<and> ix_type (fst mi) = ty) (tbl_indices t))"

section \<open>Inserting\<close>

text \<open>One cell: default, coercion, type check, NOT NULL.\<close>

definition fill_cell :: "eval_env \<Rightarrow> column \<Rightarrow> db_value \<Rightarrow> db_value eres panicking" where
  "fill_cell E c v =
     pbind (if v = DNull
            then (case col_default_expr c of
                    Some e \<Rightarrow> eval_literal_expr E e
                  | None \<Rightarrow> (case col_default c of Some d \<Rightarrow> pok d | None \<Rightarrow> pok DNull))
            else pok v)
       (\<lambda>w. let x = coerced (col_dtype c) w
             in if \<not> type_match (col_dtype c) x
                then perr (TypeError (column_type_debug (col_dtype c)) (db_debug (env_unicode E) x))
                else if col_not_null c \<and> x = DNull
                then perr (ExecError (''Column '' @ [CHR 39] @ col_name c @ [CHR 39] @ '' cannot be NULL''))
                else pok x)"

fun fill_row :: "eval_env \<Rightarrow> column list \<Rightarrow> row \<Rightarrow> row eres panicking" where
  "fill_row E (c # cs) (v # vs) =
     pbind (fill_cell E c v) (\<lambda>w. pbind (fill_row E cs vs) (\<lambda>ws. pok (w # ws)))"
| "fill_row E _ _ = pok []"

definition null_pk_column :: "column list \<Rightarrow> row \<Rightarrow> rstr option" where
  "null_pk_column cols r =
     map_option (\<lambda>cv. col_name (fst cv))
       (List.find (\<lambda>cv. col_primary_key (fst cv) \<and> snd cv = DNull) (zip cols r))"

text \<open>The first key of a row that is already taken.\<close>

definition taken_key :: "table \<Rightarrow> row \<Rightarrow> rstr option" where
  "taken_key t r =
     (case pk_key t r of
        Some k \<Rightarrow> (if k \<in> tbl_pk_set t then Some k
                   else List.find (\<lambda>k. k \<in> tbl_unique_set t) (unique_keys (tbl_columns t) r))
      | None \<Rightarrow> List.find (\<lambda>k. k \<in> tbl_unique_set t) (unique_keys (tbl_columns t) r))"

text \<open>\<open>update_indices_insert\<close>.\<close>

definition index_insert_row :: "unicode \<Rightarrow> (rstr \<rightharpoonup> nat) \<Rightarrow> nat \<Rightarrow> row \<Rightarrow> index_meta \<times> index_impl
    \<Rightarrow> (index_meta \<times> index_impl) panicking" where
  "index_insert_row U ci_of i r mi =
     (case ci_of (ix_column (fst mi)) of
        None \<Rightarrow> Some mi
      | Some ci \<Rightarrow> (if ci < length r then Some (fst mi, impl_insert U i (r ! ci) (snd mi)) else None))"

definition update_indices_insert :: "unicode \<Rightarrow> nat \<Rightarrow> table \<Rightarrow> table panicking" where
  "update_indices_insert U i t =
     (if i < length (tbl_rows t)
      then map_option (\<lambda>ixs. t\<lparr>tbl_indices := ixs\<rparr>)
             (map_option_list (index_insert_row U (tbl_col_index t) i (tbl_rows t ! i)) (tbl_indices t))
      else None)"

text \<open>The committing half of \<open>insert\<close>: register the keys, push the row, follow in the indexes.\<close>

definition commit_row :: "unicode \<Rightarrow> row \<Rightarrow> table \<Rightarrow> table panicking" where
  "commit_row U r t =
     (let n = length (tbl_rows t);
          t1 = (case pk_key t r of
                  None \<Rightarrow> t
                | Some k \<Rightarrow> t\<lparr>tbl_pk_set := insert k (tbl_pk_set t), tbl_pk_row_index := (tbl_pk_row_index t)(k \<mapsto> n)\<rparr>);
          t2 = t1\<lparr>tbl_unique_set := tbl_unique_set t1 \<union> set (unique_keys (tbl_columns t) r)\<rparr>
      in update_indices_insert U n (t2\<lparr>tbl_rows := tbl_rows t @ [r]\<rparr>))"

definition insert_row :: "eval_env \<Rightarrow> row \<Rightarrow> table \<Rightarrow> table eres panicking" where
  "insert_row E row t =
     (if length row \<noteq> length (tbl_columns t)
      then perr (ExecError (''Insert: expected '' @ dec_nat (length (tbl_columns t)) @ '' columns, got '' @
                            dec_nat (length row)))
      else pbind (fill_row E (tbl_columns t) row) (\<lambda>r.
        case null_pk_column (tbl_columns t) r of
          Some c \<Rightarrow> perr (NullPrimaryKey c)
        | None \<Rightarrow>
            (case taken_key t r of
               Some k \<Rightarrow> perr (DuplicateKey k)
             | None \<Rightarrow> map_option Inr (commit_row (env_unicode E) r t))))"

section \<open>Replacing, deleting, updating\<close>

definition replace_by_pk :: "eval_env \<Rightarrow> row \<Rightarrow> table \<Rightarrow> (table \<times> bool) eres panicking" where
  "replace_by_pk E r t =
     (case (case pk_key t r of None \<Rightarrow> None | Some k \<Rightarrow> tbl_pk_row_index t k) of
        Some i \<Rightarrow>
          (if i < length (tbl_rows t)
           then pok (t\<lparr>tbl_rows := (tbl_rows t)[i := r],
                       tbl_unique_set := (tbl_unique_set t - set (unique_keys (tbl_columns t) (tbl_rows t ! i)))
                                          \<union> set (unique_keys (tbl_columns t) r)\<rparr>, True)
           else None)
      | None \<Rightarrow> pbind (insert_row E r t) (\<lambda>t'. pok (t', False)))"

text \<open>\<open>remove_from_indices\<close>.\<close>

definition index_remove_row :: "unicode \<Rightarrow> (rstr \<rightharpoonup> nat) \<Rightarrow> nat \<Rightarrow> row \<Rightarrow> index_meta \<times> index_impl
    \<Rightarrow> index_meta \<times> index_impl" where
  "index_remove_row U ci_of i r mi =
     (case ci_of (ix_column (fst mi)) of
        None \<Rightarrow> mi
      | Some ci \<Rightarrow> (if ci < length r then (fst mi, impl_remove U i (r ! ci) (snd mi)) else mi))"

definition remove_from_indices :: "unicode \<Rightarrow> nat \<Rightarrow> row \<Rightarrow> table \<Rightarrow> table" where
  "remove_from_indices U i r t =
     t\<lparr>tbl_indices := map (index_remove_row U (tbl_col_index t) i r) (tbl_indices t)\<rparr>"

text \<open>One pass of the loop of \<open>delete\<close>; the old row number counts the rows seen.\<close>

definition delete_step :: "unicode \<Rightarrow> (row \<Rightarrow> bool) \<Rightarrow> nat \<times> row \<Rightarrow> table \<times> nat \<Rightarrow> table \<times> nat" where
  "delete_step U P ir st =
     (let (i, r) = ir; (t, n) = st
      in if P r
         then (let t1 = (case pk_key t r of
                           None \<Rightarrow> t
                         | Some k \<Rightarrow> t\<lparr>tbl_pk_set := tbl_pk_set t - {k},
                                       tbl_pk_row_index := (tbl_pk_row_index t)(k := None)\<rparr>);
                   t2 = t1\<lparr>tbl_unique_set := tbl_unique_set t1 - set (unique_keys (tbl_columns t1) r)\<rparr>
               in (remove_from_indices U i r t2, n + 1))
         else (t\<lparr>tbl_rows := tbl_rows t @ [r]\<rparr>, n))"

definition delete_rows :: "unicode \<Rightarrow> (row \<Rightarrow> bool) \<Rightarrow> table \<Rightarrow> (table \<times> nat) panicking" where
  "delete_rows U P t =
     (let (t', n) = fold (delete_step U P) (enumerate 0 (tbl_rows t)) (t\<lparr>tbl_rows := []\<rparr>, 0)
      in map_option (\<lambda>t''. (t'', n)) (rebuild_index U t'))"

definition update_rows :: "(row \<Rightarrow> bool) \<Rightarrow> (row \<Rightarrow> row) \<Rightarrow> table \<Rightarrow> table \<times> nat" where
  "update_rows P f t =
     (t\<lparr>tbl_rows := map (\<lambda>r. if P r then f r else r) (tbl_rows t)\<rparr>, length (filter P (tbl_rows t)))"

definition select_rows :: "(row \<Rightarrow> bool) \<Rightarrow> table \<Rightarrow> row list" where
  "select_rows P t = filter P (tbl_rows t)"

text \<open>\<open>update_cell\<close>: the old value out, the coerced new value in, keys and indexes following.\<close>

definition index_update_cell :: "unicode \<Rightarrow> rstr \<Rightarrow> nat \<Rightarrow> db_value \<Rightarrow> db_value \<Rightarrow> index_meta \<times> index_impl
    \<Rightarrow> index_meta \<times> index_impl" where
  "index_update_cell U cname ri old new mi =
     (if ix_column (fst mi) = cname
      then (fst mi, impl_insert U ri new (impl_remove U ri old (snd mi))) else mi)"

definition update_cell :: "unicode \<Rightarrow> nat \<Rightarrow> nat \<Rightarrow> db_value \<Rightarrow> table \<Rightarrow> (table \<times> db_value) panicking" where
  "update_cell U ri ci v t =
     (if ci < length (tbl_columns t) \<and> ri < length (tbl_rows t) \<and> ci < length (tbl_rows t ! ri)
      then let c = tbl_columns t ! ci;
               new = coerced (col_dtype c) v;
               r = tbl_rows t ! ri;
               old = r ! ci;
               r' = r[ci := new];
               t1 = t\<lparr>tbl_rows := (tbl_rows t)[ri := r']\<rparr>;
               t2 = (if col_primary_key c
                     then (case (pk_key t r, pk_key t r') of
                             (Some k, Some k') \<Rightarrow>
                               t1\<lparr>tbl_pk_set := insert k' (tbl_pk_set t - {k}),
                                  tbl_pk_row_index := ((tbl_pk_row_index t)(k := None))(k' \<mapsto> ri)\<rparr>
                           | _ \<Rightarrow> t1)
                     else t1);
               t3 = (if col_unique c
                     then t2\<lparr>tbl_unique_set := insert (unique_key ci new) (tbl_unique_set t - {unique_key ci old})\<rparr>
                     else t2)
           in Some (t3\<lparr>tbl_indices := map (index_update_cell U (col_name c) ri old new) (tbl_indices t)\<rparr>, old)
      else None)"

definition truncate_table :: "table \<Rightarrow> table" where
  "truncate_table t = t\<lparr>tbl_rows := [], tbl_pk_set := {}, tbl_indices := []\<rparr>"

definition all_rows :: "table \<Rightarrow> row list" where
  "all_rows t = tbl_rows t"

text \<open>\<open>format_result\<close>: a header row and the rows, as JSON arrays.\<close>

definition bracketed :: "rstr list \<Rightarrow> rstr" where
  "bracketed xs = ''['' @ join '','' xs @ '']''"

definition format_result :: "table \<Rightarrow> row list \<Rightarrow> rstr" where
  "format_result t rows =
     bracketed (bracketed (map (\<lambda>c. quoted (col_name c)) (tbl_columns t)) #
                map (\<lambda>r. bracketed (map to_json_string r)) rows)"

section \<open>Changing the schema\<close>

definition add_column :: "rstr \<Rightarrow> column_type \<Rightarrow> table \<Rightarrow> table eres" where
  "add_column n ty t =
     (if \<exists>c \<in> set (tbl_columns t). col_name c = n then Inl (ColumnAlreadyExists n)
      else Inr (t\<lparr>tbl_columns := tbl_columns t @ [plain_column n ty],
                 tbl_col_index := (tbl_col_index t)(n \<mapsto> length (tbl_columns t)),
                 tbl_rows := map (\<lambda>r. r @ [DNull]) (tbl_rows t)\<rparr>))"

fun position :: "('a \<Rightarrow> bool) \<Rightarrow> 'a list \<Rightarrow> nat option" where
  "position P [] = None"
| "position P (x # xs) = (if P x then Some 0 else map_option Suc (position P xs))"

definition rename_column :: "rstr \<Rightarrow> rstr \<Rightarrow> table \<Rightarrow> table eres" where
  "rename_column old new t =
     (case position (\<lambda>c. col_name c = old) (tbl_columns t) of
        None \<Rightarrow> Inl (ColumnNotFound old)
      | Some i \<Rightarrow>
          (let cols = (tbl_columns t)[i := (tbl_columns t ! i)\<lparr>col_name := new\<rparr>]
           in case position (\<lambda>c. col_name c = new) cols of
                None \<Rightarrow> Inl (InternalError ''column index not found after rename'')
              | Some j \<Rightarrow> Inr (t\<lparr>tbl_columns := cols,
                                tbl_col_index := ((tbl_col_index t)(old := None))(new \<mapsto> j)\<rparr>)))"

definition remove_nth :: "nat \<Rightarrow> 'a list \<Rightarrow> 'a list" where
  "remove_nth i xs = take i xs @ drop (Suc i) xs"

definition drop_column :: "rstr \<Rightarrow> table \<Rightarrow> table eres panicking" where
  "drop_column n t =
     (case position (\<lambda>c. col_name c = n) (tbl_columns t) of
        None \<Rightarrow> perr (ColumnNotFound n)
      | Some i \<Rightarrow>
          (if \<forall>r \<in> set (tbl_rows t). i < length r
           then pok (t\<lparr>tbl_columns := remove_nth i (tbl_columns t),
                       tbl_rows := map (remove_nth i) (tbl_rows t)\<rparr>)
           else None))"

end
