(* ===== verification/TableInv.thy ===== *)
theory TableInv
  imports TableOps
begin

text \<open>
  The invariant of a table and its preservation: the column map is the columns' positions, every
  row has the table's width, the primary-key map and the unique set hold exactly the keys of the
  rows (so no two rows share one), and every secondary index represents its column.
\<close>

section \<open>The invariant\<close>

text \<open>Two rows that may stand in one table: no shared primary key, no shared unique key.\<close>

definition apart :: "column list \<Rightarrow> row \<Rightarrow> row \<Rightarrow> bool" where
  "apart cols r s \<longleftrightarrow>
     (pk_key_static cols r = None \<or> pk_key_static cols r \<noteq> pk_key_static cols s) \<and>
     set (unique_keys cols r) \<inter> set (unique_keys cols s) = {}"

text \<open>The three key stores hold the keys of \<open>rows\<close>.\<close>

definition registered :: "column list \<Rightarrow> row list \<Rightarrow> rstr set \<times> (rstr \<rightharpoonup> nat) \<times> rstr set \<Rightarrow> bool" where
  "registered cols rows st \<longleftrightarrow>
     fst st = dom (fst (snd st)) \<and>
     (\<forall>k i. fst (snd st) k = Some i \<longleftrightarrow> i < length rows \<and> pk_key_static cols (rows ! i) = Some k) \<and>
     snd (snd st) = (\<Union>r \<in> set rows. set (unique_keys cols r))"

definition key_stores :: "table \<Rightarrow> rstr set \<times> (rstr \<rightharpoonup> nat) \<times> rstr set" where
  "key_stores t = (tbl_pk_set t, tbl_pk_row_index t, tbl_unique_set t)"

definition col_map_of :: "column list \<Rightarrow> rstr \<rightharpoonup> nat" where
  "col_map_of cols = (\<lambda>n. position (\<lambda>c. col_name c = n) cols)"

definition wf_columns :: "table \<Rightarrow> bool" where
  "wf_columns t \<longleftrightarrow>
     tbl_columns t \<noteq> [] \<and> distinct (map col_name (tbl_columns t)) \<and>
     tbl_col_index t = col_map_of (tbl_columns t)"

fun impl_matches :: "index_meta \<Rightarrow> index_impl \<Rightarrow> bool" where
  "impl_matches m (IBTree ix) = (ix_type m = KBTree \<and> bt_column ix = ix_column m)"
| "impl_matches m (ITrigram ix) = (ix_type m = KTrigram \<and> tg_column ix = ix_column m)"

definition index_ok :: "unicode \<Rightarrow> (rstr \<rightharpoonup> nat) \<Rightarrow> row list \<Rightarrow> index_meta \<times> index_impl \<Rightarrow> bool" where
  "index_ok U m rows mi \<longleftrightarrow>
     impl_matches (fst mi) (snd mi) \<and>
     (\<exists>ci. m (ix_column (fst mi)) = Some ci \<and> impl_represents U (snd mi) (map (\<lambda>r. r ! ci) rows))"

definition wf_table :: "unicode \<Rightarrow> table \<Rightarrow> bool" where
  "wf_table U t \<longleftrightarrow>
     wf_columns t \<and>
     (\<forall>r \<in> set (tbl_rows t). length r = length (tbl_columns t)) \<and>
     sorted_wrt (apart (tbl_columns t)) (tbl_rows t) \<and>
     registered (tbl_columns t) (tbl_rows t) (key_stores t) \<and>
     distinct (map (\<lambda>mi. ix_name (fst mi)) (tbl_indices t)) \<and>
     (\<forall>mi \<in> set (tbl_indices t). index_ok U (tbl_col_index t) (tbl_rows t) mi)"

text \<open>What an inserted row satisfies, cell by cell.\<close>

definition row_ok :: "column list \<Rightarrow> row \<Rightarrow> bool" where
  "row_ok cols r \<longleftrightarrow>
     list_all2 (\<lambda>c v. has_type (col_dtype c) v \<and> (col_not_null c \<or> col_primary_key c \<longrightarrow> v \<noteq> DNull)) cols r"

definition typed_table :: "table \<Rightarrow> bool" where
  "typed_table t \<longleftrightarrow> (\<forall>r \<in> set (tbl_rows t). row_ok (tbl_columns t) r)"

section \<open>Positions\<close>

lemma position_Some: "position P xs = Some i \<longleftrightarrow> i < length xs \<and> P (xs ! i) \<and> (\<forall>j < i. \<not> P (xs ! j))"
proof (induction xs arbitrary: i)
  case (Cons x xs)
  then show ?case by (cases i) (auto simp: less_Suc_eq_0_disj)
qed simp

lemma position_None: "position P xs = None \<longleftrightarrow> (\<forall>x \<in> set xs. \<not> P x)"
  by (induction xs) auto

lemma position_append:
  "position P (xs @ ys) = (case position P xs of Some i \<Rightarrow> Some i | None \<Rightarrow> map_option ((+) (length xs)) (position P ys))"
  by (induction xs; cases "position P ys") (auto split: option.splits)

lemma col_map_less: "col_map_of cols n = Some ci \<Longrightarrow> ci < length cols"
  by (simp add: col_map_of_def position_Some)

lemma wf_columns_less: "wf_columns t \<Longrightarrow> tbl_col_index t n = Some ci \<Longrightarrow> ci < length (tbl_columns t)"
  by (auto simp: wf_columns_def dest: col_map_less)

lemma col_map_name:
  "distinct (map col_name cols) \<Longrightarrow> i < length cols \<Longrightarrow> col_map_of cols (col_name (cols ! i)) = Some i"
  by (auto simp: col_map_of_def position_Some nth_eq_iff_index_eq distinct_conv_nth)

lemma col_map_snoc:
  "col_map_of pre (col_name c) = None \<Longrightarrow> (col_map_of pre)(col_name c \<mapsto> length pre) = col_map_of (pre @ [c])"
  by (auto simp: col_map_of_def position_append fun_eq_iff split: option.splits)

lemma index_columns_iff:
  "distinct (map col_name pre) \<Longrightarrow>
   index_columns cols (length pre) (col_map_of pre) = Inr m \<longleftrightarrow>
     distinct (map col_name (pre @ cols)) \<and> m = col_map_of (pre @ cols)"
proof (induction cols arbitrary: pre)
  case (Cons c cols)
  show ?case
  proof (cases "col_map_of pre (col_name c)")
    case None
    then have fresh: "col_name c \<notin> col_name ` set pre"
      by (auto simp: col_map_of_def position_None)
    with Cons.prems have "distinct (map col_name (pre @ [c]))" by simp
    from Cons.IH [OF this] None show ?thesis by (simp add: col_map_snoc)
  next
    case (Some i)
    then have "\<not> (\<forall>d \<in> set pre. col_name d \<noteq> col_name c)"
      using position_None [of "\<lambda>d. col_name d = col_name c" pre] by (simp add: col_map_of_def)
    then obtain d where "d \<in> set pre" "col_name d = col_name c" by blast
    then have "col_name c \<in> col_name ` set pre" by (metis imageI)
    with Some show ?thesis by auto
  qed
qed auto

lemma col_map_of_Nil [simp]: "col_map_of [] = Map.empty"
  by (simp add: col_map_of_def fun_eq_iff)

lemma new_table_iff:
  "new_table n cols = Inr t \<longleftrightarrow>
     cols \<noteq> [] \<and> distinct (map col_name cols) \<and>
     t = \<lparr>tbl_name = n, tbl_columns = cols, tbl_rows = [], tbl_col_index = col_map_of cols, tbl_pk_set = {},
         tbl_pk_row_index = Map.empty, tbl_unique_set = {}, tbl_indices = [], tbl_next_auto_inc = 1,
         tbl_check_constraints = [], tbl_foreign_keys = [], tbl_triggers = []\<rparr>"
  using index_columns_iff [of "[]" cols]
  by (auto simp: new_table_def bind_res_Inr_iff)

lemma new_table_fields:
  "new_table n cols = Inr t \<Longrightarrow> tbl_name t = n \<and> tbl_columns t = cols \<and> tbl_rows t = [] \<and> tbl_indices t = [] \<and>
     tbl_col_index t = col_map_of cols"
  by (simp add: new_table_iff)

lemma new_table_wf: "new_table n cols = Inr t \<Longrightarrow> wf_table U t \<and> typed_table t \<and> tbl_rows t = []"
  by (simp add: new_table_iff wf_table_def wf_columns_def registered_def key_stores_def typed_table_def)

section \<open>Registering keys\<close>

lemma registered_snoc:
  assumes reg: "registered cols rows st" and ap: "\<forall>s \<in> set rows. apart cols s r"
  shows "registered cols (rows @ [r]) (register_row cols (length rows, r) st)"
proof -
  obtain ps pr us where st: "st = (ps, pr, us)" by (cases st) auto
  have p: "ps = dom pr" and u: "us = (\<Union>r \<in> set rows. set (unique_keys cols r))"
    and m: "\<And>k i. pr k = Some i \<longleftrightarrow> i < length rows \<and> pk_key_static cols (rows ! i) = Some k"
    using reg by (auto simp: registered_def st)
  show ?thesis
  proof (cases "pk_key_static cols r")
    case None
    then show ?thesis
      by (auto simp: registered_def register_row_def st p u m nth_append less_Suc_eq)
  next
    case (Some k)
    have fresh: "pk_key_static cols (rows ! i) \<noteq> Some k" if "i < length rows" for i
      using ap Some nth_mem [OF that] by (auto simp: apart_def)
    show ?thesis
      using Some fresh by (auto simp: registered_def register_row_def st p u m nth_append less_Suc_eq)
  qed
qed

lemma register_rows_registered:
  "sorted_wrt (apart cols) rows \<Longrightarrow> registered cols rows (register_rows cols rows)"
proof (induction rows rule: rev_induct)
  case (snoc r rows)
  then have "registered cols rows (register_rows cols rows)" and "\<forall>s \<in> set rows. apart cols s r"
    by (auto simp: sorted_wrt_append)
  from registered_snoc [OF this] show ?case
    by (simp add: register_rows_def enumerate_append_eq)
qed (simp add: register_rows_def registered_def)

text \<open>A row whose keys are not taken is apart from every stored row, and conversely.\<close>

lemma taken_key_None_iff:
  assumes "registered (tbl_columns t) (tbl_rows t) (key_stores t)"
  shows "taken_key t r = None \<longleftrightarrow> (\<forall>s \<in> set (tbl_rows t). apart (tbl_columns t) s r)"
proof -
  have ps: "tbl_pk_set t = dom (tbl_pk_row_index t)"
    and us: "tbl_unique_set t = (\<Union>r \<in> set (tbl_rows t). set (unique_keys (tbl_columns t) r))"
    and m: "\<And>k i. tbl_pk_row_index t k = Some i \<longleftrightarrow>
              i < length (tbl_rows t) \<and> pk_key_static (tbl_columns t) (tbl_rows t ! i) = Some k"
    using assms by (auto simp: registered_def key_stores_def)
  have pk: "k \<in> tbl_pk_set t \<longleftrightarrow> (\<exists>s \<in> set (tbl_rows t). pk_key_static (tbl_columns t) s = Some k)" for k
    unfolding ps dom_def by (auto simp: m) (metis in_set_conv_nth)
  have "taken_key t r = None \<longleftrightarrow>
     (\<forall>k. pk_key t r = Some k \<longrightarrow> k \<notin> tbl_pk_set t) \<and>
     set (unique_keys (tbl_columns t) r) \<inter> tbl_unique_set t = {}"
    by (auto simp: taken_key_def find_None_iff split: option.splits)
  moreover have "(\<forall>k. pk_key t r = Some k \<longrightarrow> k \<notin> tbl_pk_set t) \<longleftrightarrow>
      (\<forall>s \<in> set (tbl_rows t). pk_key_static (tbl_columns t) s = None \<or>
         pk_key_static (tbl_columns t) s \<noteq> pk_key_static (tbl_columns t) r)"
    unfolding pk by (cases "pk_key t r") (auto simp: pk_key_def)
  moreover have "set (unique_keys (tbl_columns t) r) \<inter> tbl_unique_set t = {} \<longleftrightarrow>
      (\<forall>s \<in> set (tbl_rows t). set (unique_keys (tbl_columns t) s) \<inter> set (unique_keys (tbl_columns t) r) = {})"
    unfolding us by blast
  ultimately show ?thesis by (auto simp: apart_def)
qed

section \<open>Following in the indexes\<close>

lemma map_option_list_all:
  "(\<And>x. x \<in> set xs \<Longrightarrow> f x = Some (g x)) \<Longrightarrow> map_option_list f xs = Some (map g xs)"
  by (induction xs) auto

lemma impl_matches_simps [simp]:
  "impl_matches m (impl_insert U i v ix) = impl_matches m ix"
  "impl_matches m (impl_remove U i v ix) = impl_matches m ix"
  by (cases ix; auto simp: bt_insert_def tg_insert_def bt_remove_def tg_remove_def Let_def split: option.splits)+

lemma impl_matches_fill [simp]:
  "impl_matches m (index_fill (impl_insert U) ix vals) = impl_matches m ix"
  by (induction vals rule: rev_induct) (simp_all add: index_fill_def enumerate_append_eq)

lemma impl_matches_clear: "impl_matches m ix \<Longrightarrow> impl_matches m (impl_clear (ix_column m) ix)"
  by (cases ix) (simp_all add: bt_new_def tg_new_def)

lemma impl_clear_remove [simp]: "impl_clear c (impl_remove U i v ix) = impl_clear c ix"
  by (cases ix) simp_all

text \<open>Registering a row at the end of an index.\<close>

lemma index_insert_row_ok:
  assumes ok: "index_ok U m rows mi" and bound: "\<And>n ci. m n = Some ci \<Longrightarrow> ci < length r"
  shows "\<exists>mi'. index_insert_row U m (length rows) r mi = Some mi' \<and> fst mi' = fst mi \<and>
           index_ok U m (rows @ [r]) mi'"
proof -
  from ok obtain ci where ci: "m (ix_column (fst mi)) = Some ci"
    and rep: "impl_represents U (snd mi) (map (\<lambda>r. r ! ci) rows)"
    by (auto simp: index_ok_def)
  have "impl_represents U (impl_insert U (length rows) (r ! ci) (snd mi)) (map (\<lambda>r. r ! ci) rows @ [r ! ci])"
    using rep by (rule impl_append) simp
  with ok ci bound [OF ci] show ?thesis
    by (simp add: index_insert_row_def index_ok_def)
qed

lemma map_option_list_ok:
  assumes "\<And>x. x \<in> set xs \<Longrightarrow> \<exists>y. f x = Some y \<and> key y = key x \<and> P y"
  shows "\<exists>ys. map_option_list f xs = Some ys \<and> map key ys = map key xs \<and> (\<forall>y \<in> set ys. P y)"
  using assms
proof (induction xs)
  case (Cons x xs)
  then obtain y ys where "f x = Some y" "key y = key x" "P y"
    "map_option_list f xs = Some ys" "map key ys = map key xs" "\<forall>y \<in> set ys. P y"
    by (metis list.set_intros(1) list.set_intros(2))
  then show ?case by simp
qed simp

lemma map_ix_name: "map fst ys = map fst xs \<Longrightarrow> map (\<lambda>mi. ix_name (fst mi)) ys = map (\<lambda>mi. ix_name (fst mi)) xs"
proof -
  assume e: "map fst ys = map fst xs"
  have "map ix_name (map fst ys) = map ix_name (map fst xs)" by (simp only: e)
  then show ?thesis by (simp add: comp_def)
qed

lemma rebuild_one_ok:
  assumes "impl_matches (fst mi) (snd mi)" and "tbl_col_index t (ix_column (fst mi)) = Some ci"
    and "\<forall>r \<in> set (tbl_rows t). ci < length r"
  shows "\<exists>mi'. rebuild_one U t mi = Some mi' \<and> fst mi' = fst mi \<and> index_ok U (tbl_col_index t) (tbl_rows t) mi'"
  using assms
  by (cases mi) (auto simp: rebuild_one_def index_ok_def column_values_def impl_fill_clear impl_matches_clear)

text \<open>\<open>rebuild_index\<close> establishes the invariant from the rows alone.\<close>

lemma rebuild_index_wf:
  assumes cols: "wf_columns t" and width: "\<forall>r \<in> set (tbl_rows t). length r = length (tbl_columns t)"
    and ap: "sorted_wrt (apart (tbl_columns t)) (tbl_rows t)"
    and names: "distinct (map (\<lambda>mi. ix_name (fst mi)) (tbl_indices t))"
    and ixs: "\<forall>mi \<in> set (tbl_indices t). impl_matches (fst mi) (snd mi) \<and> tbl_col_index t (ix_column (fst mi)) \<noteq> None"
  shows "\<exists>t'. rebuild_index U t = Some t' \<and> wf_table U t' \<and> tbl_rows t' = tbl_rows t \<and> tbl_columns t' = tbl_columns t"
proof -
  obtain ps pr us where st: "register_rows (tbl_columns t) (tbl_rows t) = (ps, pr, us)"
    by (cases "register_rows (tbl_columns t) (tbl_rows t)") auto
  let ?t = "t\<lparr>tbl_pk_set := ps, tbl_pk_row_index := pr, tbl_unique_set := us\<rparr>"
  have "\<exists>mis. map_option_list (rebuild_one U ?t) (tbl_indices t) = Some mis \<and>
      map fst mis = map fst (tbl_indices t) \<and> (\<forall>mi \<in> set mis. index_ok U (tbl_col_index t) (tbl_rows t) mi)"
  proof (rule map_option_list_ok)
    fix mi assume "mi \<in> set (tbl_indices t)"
    with ixs obtain ci where "impl_matches (fst mi) (snd mi)" and ci: "tbl_col_index t (ix_column (fst mi)) = Some ci"
      by blast
    moreover have "ci < length (tbl_columns t)" using cols ci by (rule wf_columns_less)
    ultimately show "\<exists>y. rebuild_one U ?t mi = Some y \<and> fst y = fst mi \<and>
        index_ok U (tbl_col_index t) (tbl_rows t) y"
      using rebuild_one_ok [of mi ?t ci U] width by simp
  qed
  then obtain mis where mis: "map_option_list (rebuild_one U ?t) (tbl_indices t) = Some mis"
    and fst: "map fst mis = map fst (tbl_indices t)"
    and ok: "\<forall>mi \<in> set mis. index_ok U (tbl_col_index t) (tbl_rows t) mi" by blast
  have "registered (tbl_columns t) (tbl_rows t) (ps, pr, us)"
    using register_rows_registered [OF ap] st by simp
  with assms st mis fst ok show ?thesis
    by (simp add: rebuild_index_def rebuild_indices_def wf_table_def wf_columns_def key_stores_def map_ix_name [OF fst])
qed

section \<open>Insert\<close>

lemma fill_cell_ok:
  "fill_cell E c v = pok w \<Longrightarrow> has_type (col_dtype c) w \<and> (col_not_null c \<longrightarrow> w \<noteq> DNull)"
  by (auto simp: fill_cell_def pbind_Inr_iff Let_def coerced_has_type split: if_splits)

lemma fill_row_ok:
  "fill_row E cols vs = pok ws \<Longrightarrow> length vs = length cols \<Longrightarrow>
     list_all2 (\<lambda>c w. has_type (col_dtype c) w \<and> (col_not_null c \<longrightarrow> w \<noteq> DNull)) cols ws"
proof (induction E cols vs arbitrary: ws rule: fill_row.induct)
  case (1 E c cs v vs)
  then show ?case by (auto simp: pbind_Inr_iff dest: fill_cell_ok)
qed auto

lemma null_pk_None: "null_pk_column cols r = None \<Longrightarrow> \<forall>(c, v) \<in> set (zip cols r). col_primary_key c \<longrightarrow> v \<noteq> DNull"
  by (auto simp: null_pk_column_def find_None_iff)

lemma filled_row_ok:
  assumes "fill_row E cols vs = pok r" and "length vs = length cols" and "null_pk_column cols r = None"
  shows "row_ok cols r"
  using fill_row_ok [OF assms(1,2)] null_pk_None [OF assms(3)]
  by (auto simp: row_ok_def list_all2_iff)

lemma commit_row_wf:
  assumes wf: "wf_table U t" and width: "length r = length (tbl_columns t)" and free: "taken_key t r = None"
  shows "\<exists>t'. commit_row U r t = Some t' \<and> wf_table U t' \<and> tbl_rows t' = tbl_rows t @ [r] \<and>
           tbl_columns t' = tbl_columns t"
proof -
  let ?cols = "tbl_columns t" and ?n = "length (tbl_rows t)"
  have cols: "wf_columns t" and reg: "registered ?cols (tbl_rows t) (key_stores t)"
    and ixs: "\<forall>mi \<in> set (tbl_indices t). index_ok U (tbl_col_index t) (tbl_rows t) mi"
    using wf by (simp_all add: wf_table_def)
  have ap: "\<forall>s \<in> set (tbl_rows t). apart ?cols s r"
    using free taken_key_None_iff [OF reg] by simp
  have bound: "ci < length r" if "tbl_col_index t n = Some ci" for n ci
    using wf_columns_less [OF cols that] width by simp
  have "\<exists>mis. map_option_list (index_insert_row U (tbl_col_index t) ?n r) (tbl_indices t) = Some mis \<and>
      map fst mis = map fst (tbl_indices t) \<and>
      (\<forall>mi \<in> set mis. index_ok U (tbl_col_index t) (tbl_rows t @ [r]) mi)"
    using ixs bound by (intro map_option_list_ok index_insert_row_ok) auto
  then obtain mis where mis: "map_option_list (index_insert_row U (tbl_col_index t) ?n r) (tbl_indices t) = Some mis"
    and fst: "map fst mis = map fst (tbl_indices t)"
    and ok: "\<forall>mi \<in> set mis. index_ok U (tbl_col_index t) (tbl_rows t @ [r]) mi" by blast
  have reg': "registered ?cols (tbl_rows t @ [r]) (register_row ?cols (?n, r) (key_stores t))"
    using reg ap by (rule registered_snoc)
  have sorted: "sorted_wrt (apart ?cols) (tbl_rows t @ [r])"
    using wf ap by (simp add: sorted_wrt_append wf_table_def)
  show ?thesis
    using wf width mis fst ok reg' sorted
    by (cases "pk_key_static ?cols r")
      (auto simp: commit_row_def update_indices_insert_def Let_def pk_key_def wf_table_def wf_columns_def
        key_stores_def register_row_def map_ix_name [OF fst])
qed

text \<open>What \<open>insert\<close> does on a well-formed table, on every branch.\<close>

definition fits :: "column list \<Rightarrow> row list \<Rightarrow> row \<Rightarrow> bool" where
  "fits cols rows r \<longleftrightarrow> (\<forall>s \<in> set rows. apart cols s r)"

lemma insert_row_cases:
  assumes wf: "wf_table (env_unicode E) t" and width: "length vs = length (tbl_columns t)"
    and fill: "fill_row E (tbl_columns t) vs = pok r"
  shows
    "null_pk_column (tbl_columns t) r = Some c \<Longrightarrow> insert_row E vs t = perr (NullPrimaryKey c)"
    "null_pk_column (tbl_columns t) r = None \<Longrightarrow> \<not> fits (tbl_columns t) (tbl_rows t) r \<Longrightarrow>
       \<exists>k. insert_row E vs t = perr (DuplicateKey k)"
    "null_pk_column (tbl_columns t) r = None \<Longrightarrow> fits (tbl_columns t) (tbl_rows t) r \<Longrightarrow>
       \<exists>t'. insert_row E vs t = pok t' \<and> wf_table (env_unicode E) t' \<and> tbl_rows t' = tbl_rows t @ [r] \<and>
            tbl_columns t' = tbl_columns t"
proof -
  have reg: "registered (tbl_columns t) (tbl_rows t) (key_stores t)"
    using wf by (simp add: wf_table_def)
  note taken = taken_key_None_iff [OF reg, of r, folded fits_def]
  have l: "length r = length (tbl_columns t)"
    using fill_row_ok [OF fill width] by (simp add: list_all2_lengthD)
  show "insert_row E vs t = perr (NullPrimaryKey c)" if "null_pk_column (tbl_columns t) r = Some c"
    using that width fill by (simp add: insert_row_def)
  show "\<exists>k. insert_row E vs t = perr (DuplicateKey k)"
    if "null_pk_column (tbl_columns t) r = None" "\<not> fits (tbl_columns t) (tbl_rows t) r"
    using that width fill taken by (cases "taken_key t r") (simp_all add: insert_row_def)
  show "\<exists>t'. insert_row E vs t = pok t' \<and> wf_table (env_unicode E) t' \<and> tbl_rows t' = tbl_rows t @ [r] \<and>
      tbl_columns t' = tbl_columns t"
    if n: "null_pk_column (tbl_columns t) r = None" and f: "fits (tbl_columns t) (tbl_rows t) r"
    using commit_row_wf [OF wf l] n f taken width fill by (auto simp: insert_row_def)
qed

lemma insert_row_pok:
  assumes wf: "wf_table (env_unicode E) t" and ok: "insert_row E vs t = pok t'"
  shows "\<exists>r. fill_row E (tbl_columns t) vs = pok r \<and> row_ok (tbl_columns t) r \<and>
    fits (tbl_columns t) (tbl_rows t) r \<and> tbl_rows t' = tbl_rows t @ [r] \<and>
    tbl_columns t' = tbl_columns t \<and> wf_table (env_unicode E) t'"
proof -
  from ok have width: "length vs = length (tbl_columns t)"
    by (simp add: insert_row_def split: if_splits)
  with ok obtain r where r: "fill_row E (tbl_columns t) vs = pok r"
    by (auto simp: insert_row_def pbind_Inr_iff)
  have n: "null_pk_column (tbl_columns t) r = None"
    using insert_row_cases(1) [OF wf width r] ok by (cases "null_pk_column (tbl_columns t) r") auto
  have f: "fits (tbl_columns t) (tbl_rows t) r"
    using insert_row_cases(2) [OF wf width r n] ok by force
  with insert_row_cases(3) [OF wf width r n f] ok r n width show ?thesis
    by (auto intro: filled_row_ok)
qed

section \<open>Delete\<close>

text \<open>The bookkeeping of the loop is thrown away by the rebuild that follows; what is left of the
  loop is the filter.\<close>

lemma delete_loop:
  "fold (delete_step U P) irs (t, n) =
     (t', n') \<Longrightarrow>
   tbl_rows t' = tbl_rows t @ filter (\<lambda>r. \<not> P r) (map snd irs) \<and> n' = n + length (filter P (map snd irs)) \<and>
   tbl_columns t' = tbl_columns t \<and> tbl_col_index t' = tbl_col_index t \<and>
   map fst (tbl_indices t') = map fst (tbl_indices t) \<and>
   ((\<forall>mi \<in> set (tbl_indices t). impl_matches (fst mi) (snd mi)) \<longrightarrow>
    (\<forall>mi \<in> set (tbl_indices t'). impl_matches (fst mi) (snd mi)))"
proof (induction irs arbitrary: t n)
  case (Cons ir irs)
  obtain i r where ir: "ir = (i, r)" by (cases ir)
  obtain t1 n1 where s: "delete_step U P ir (t, n) = (t1, n1)" by (cases "delete_step U P ir (t, n)")
  have m: "fst (index_remove_row U ci i r mi) = fst mi"
    "impl_matches (fst mi) (snd (index_remove_row U ci i r mi)) = impl_matches (fst mi) (snd mi)" for ci mi
    by (simp_all add: index_remove_row_def split: option.splits)
  have ixs: "tbl_indices t1 = (if P r then map (index_remove_row U (tbl_col_index t) i r) (tbl_indices t) else tbl_indices t)"
    using s by (auto simp: ir delete_step_def Let_def remove_from_indices_def split: if_splits option.splits)
  have one: "tbl_rows t1 = tbl_rows t @ (if P r then [] else [r])" "n1 = n + (if P r then 1 else 0)"
    "tbl_columns t1 = tbl_columns t" "tbl_col_index t1 = tbl_col_index t"
    using s by (auto simp: ir delete_step_def Let_def remove_from_indices_def split: if_splits option.splits)
  have two: "map fst (tbl_indices t1) = map fst (tbl_indices t)"
    "(\<forall>mi \<in> set (tbl_indices t). impl_matches (fst mi) (snd mi)) \<Longrightarrow>
     (\<forall>mi \<in> set (tbl_indices t1). impl_matches (fst mi) (snd mi))"
    by (simp_all add: ixs m comp_def)
  have "fold (delete_step U P) irs (t1, n1) = (t', n')" using Cons.prems s by simp
  note ih = Cons.IH [OF this]
  show ?case
  proof (intro conjI)
    show "tbl_rows t' = tbl_rows t @ filter (\<lambda>r. \<not> P r) (map snd (ir # irs))" using ih one(1) ir by simp
    show "n' = n + length (filter P (map snd (ir # irs)))" using ih one(2) ir by simp
    show "(\<forall>mi \<in> set (tbl_indices t). impl_matches (fst mi) (snd mi)) \<longrightarrow>
      (\<forall>mi \<in> set (tbl_indices t'). impl_matches (fst mi) (snd mi))" using ih two(2) by blast
  qed (use ih one(3,4) two(1) in simp_all)
qed simp

lemma delete_rows_wf:
  assumes wf: "wf_table U t"
  shows "\<exists>t'. delete_rows U P t = Some (t', length (filter P (tbl_rows t))) \<and> wf_table U t' \<and>
    tbl_rows t' = filter (\<lambda>r. \<not> P r) (tbl_rows t) \<and> tbl_columns t' = tbl_columns t"
proof -
  obtain t1 n where d: "fold (delete_step U P) (enumerate 0 (tbl_rows t)) (t\<lparr>tbl_rows := []\<rparr>, 0) = (t1, n)"
    by (cases "fold (delete_step U P) (enumerate 0 (tbl_rows t)) (t\<lparr>tbl_rows := []\<rparr>, 0)")
  have i: "map fst (tbl_indices t1) = map fst (tbl_indices t)"
    using delete_loop [OF d] by simp
  then have f: "fst ` set (tbl_indices t1) = fst ` set (tbl_indices t)" by (metis set_map)
  have one: "tbl_rows t1 = filter (\<lambda>r. \<not> P r) (tbl_rows t)" "n = length (filter P (tbl_rows t))"
    "tbl_columns t1 = tbl_columns t" "tbl_col_index t1 = tbl_col_index t"
    "\<forall>mi \<in> set (tbl_indices t1). impl_matches (fst mi) (snd mi)"
    using delete_loop [OF d] wf by (auto simp: wf_table_def index_ok_def)
  have "\<exists>t'. rebuild_index U t1 = Some t' \<and> wf_table U t' \<and> tbl_rows t' = tbl_rows t1 \<and> tbl_columns t' = tbl_columns t1"
  proof (rule rebuild_index_wf)
    show "\<forall>mi \<in> set (tbl_indices t1). impl_matches (fst mi) (snd mi) \<and> tbl_col_index t1 (ix_column (fst mi)) \<noteq> None"
    proof (intro ballI conjI)
      fix mi assume mi: "mi \<in> set (tbl_indices t1)"
      then obtain mi' where "mi' \<in> set (tbl_indices t)" "fst mi' = fst mi" using f by (metis imageE imageI)
      then show "tbl_col_index t1 (ix_column (fst mi)) \<noteq> None"
        using wf one(4) by (force simp: wf_table_def index_ok_def)
    qed (use one(5) in simp)
  qed (use wf one in \<open>auto simp: wf_table_def wf_columns_def map_ix_name [OF i] intro: sorted_wrt_filter\<close>)
  with one d show ?thesis by (auto simp: delete_rows_def)
qed

section \<open>Indexes and schema\<close>

lemma create_index_wf:
  assumes wf: "wf_table U t" and ci: "tbl_col_index t column = Some ci" and new: "\<not> has_index name t"
  shows "\<exists>t'. create_index U name column ty t = Some (Inr t') \<and> wf_table U t' \<and> tbl_rows t' = tbl_rows t \<and>
    has_index name t'"
proof -
  have "ci < length (tbl_columns t)" using wf ci by (auto simp: wf_table_def dest: wf_columns_less)
  then have vals: "column_values (tbl_rows t) ci = Some (map (\<lambda>r. r ! ci) (tbl_rows t))"
    using wf by (auto simp: column_values_def wf_table_def)
  let ?m = "\<lparr>ix_name = name, ix_table = tbl_name t, ix_column = column, ix_type = ty\<rparr>"
  let ?ix = "index_fill (impl_insert U) (impl_new ty column) (map (\<lambda>r. r ! ci) (tbl_rows t))"
  have "impl_matches ?m (impl_new ty column)" by (cases ty) (simp_all add: bt_new_def tg_new_def)
  then have "index_ok U (tbl_col_index t) (tbl_rows t) (?m, ?ix)"
    using ci by (simp add: index_ok_def impl_fill_new)
  moreover have "create_index U name column ty t = Some (Inr (t\<lparr>tbl_indices := tbl_indices t @ [(?m, ?ix)]\<rparr>))"
    using ci new vals by (simp add: create_index_def has_index_def)
  ultimately show ?thesis
    using wf new by (auto simp: wf_table_def wf_columns_def key_stores_def has_index_def image_iff)
qed

lemma remove_first_set: "remove_first P xs = Some ys \<Longrightarrow> set ys \<subseteq> set xs"
  by (induction xs arbitrary: ys) (auto split: if_splits)

lemma remove_first_distinct:
  "remove_first (\<lambda>x. f x = n) xs = Some ys \<Longrightarrow> distinct (map f xs) \<Longrightarrow> distinct (map f ys) \<and> n \<notin> f ` set ys"
proof (induction xs arbitrary: ys)
  case (Cons x xs)
  show ?case
  proof (cases "f x = n")
    case True
    then show ?thesis using Cons.prems by auto
  next
    case False
    with Cons.prems obtain zs where z: "remove_first (\<lambda>x. f x = n) xs = Some zs" "ys = x # zs"
      by auto
    then have "distinct (map f zs) \<and> n \<notin> f ` set zs" using Cons by simp
    with z False Cons.prems(2) remove_first_set [OF z(1)] show ?thesis by auto
  qed
qed simp

lemma drop_index_wf:
  assumes wf: "wf_table U t" and d: "drop_index name t = Inr t'"
  shows "wf_table U t' \<and> tbl_rows t' = tbl_rows t \<and> \<not> has_index name t'"
proof -
  from d obtain ixs where r: "remove_first (\<lambda>mi. ix_name (fst mi) = name) (tbl_indices t) = Some ixs"
    and t': "t' = t\<lparr>tbl_indices := ixs\<rparr>"
    by (auto simp: drop_index_def split: option.splits)
  have "distinct (map (\<lambda>mi. ix_name (fst mi)) ixs) \<and> name \<notin> (\<lambda>mi. ix_name (fst mi)) ` set ixs"
    using remove_first_distinct [OF r] wf by (simp add: wf_table_def)
  with wf remove_first_set [OF r] show ?thesis
    by (auto simp: t' wf_table_def wf_columns_def key_stores_def has_index_def)
qed

lemma pk_indices_snoc: "pk_indices (cols @ [plain_column n ty]) = pk_indices cols"
  by (auto simp: pk_indices_def nth_append plain_column_def intro!: filter_cong)

lemma pk_key_snoc: "length r = length cols \<Longrightarrow> pk_key_static (cols @ [plain_column n ty]) (r @ [v]) = pk_key_static cols r"
proof -
  assume "length r = length cols"
  then have "(r @ [v]) ! i = r ! i" if "i \<in> set (pk_indices cols)" for i
    using that by (simp add: pk_indices_def nth_append)
  then show ?thesis by (simp add: pk_key_static_def pk_indices_snoc cong: map_cong)
qed

lemma unique_keys_snoc:
  assumes "length r = length cols"
  shows "unique_keys (cols @ [plain_column n ty]) (r @ [v]) = unique_keys cols r"
proof -
  have "unique_indices (cols @ [plain_column n ty]) (r @ [v]) = unique_indices cols r"
    using assms by (auto simp: unique_indices_def nth_append plain_column_def intro!: filter_cong)
  then show ?thesis using assms by (auto simp: unique_keys_def nth_append unique_indices_def)
qed

lemma add_column_wf:
  assumes wf: "wf_table U t" and a: "add_column n ty t = Inr t'"
  shows "wf_table U t'"
proof -
  let ?c = "plain_column n ty" and ?cols = "tbl_columns t"
  from a have fresh: "n \<notin> col_name ` set ?cols"
    and t': "t' = t\<lparr>tbl_columns := ?cols @ [?c], tbl_col_index := (tbl_col_index t)(n \<mapsto> length ?cols),
                   tbl_rows := map (\<lambda>r. r @ [DNull]) (tbl_rows t)\<rparr>"
    by (auto simp: add_column_def split: if_splits)
  have w: "\<And>r. r \<in> set (tbl_rows t) \<Longrightarrow> length r = length ?cols" using wf by (simp add: wf_table_def)
  have cols: "wf_columns t" using wf by (simp add: wf_table_def)
  have none: "col_map_of ?cols (col_name ?c) = None"
    using fresh by (auto simp: col_map_of_def position_None plain_column_def)
  have m: "(tbl_col_index t)(n \<mapsto> length ?cols) = col_map_of (?cols @ [?c])"
    using cols col_map_snoc [OF none] by (simp add: wf_columns_def plain_column_def)
  have c': "wf_columns t'" using cols fresh m by (simp add: wf_columns_def t' plain_column_def)
  have ap: "apart (?cols @ [?c]) (r @ [DNull]) (s @ [DNull]) = apart ?cols r s"
    if "r \<in> set (tbl_rows t)" "s \<in> set (tbl_rows t)" for r s
    using w that by (simp add: apart_def pk_key_snoc unique_keys_snoc)
  have sorted: "sorted_wrt (apart (?cols @ [?c])) (map (\<lambda>r. r @ [DNull]) (tbl_rows t))"
    using wf ap by (auto simp: wf_table_def sorted_wrt_map intro: sorted_wrt_mono_rel [rotated])
  have reg: "registered (?cols @ [?c]) (map (\<lambda>r. r @ [DNull]) (tbl_rows t)) (key_stores t)"
    using wf w by (auto simp: wf_table_def registered_def pk_key_snoc unique_keys_snoc)
  have ix: "index_ok U (tbl_col_index t') (map (\<lambda>r. r @ [DNull]) (tbl_rows t)) mi" if "mi \<in> set (tbl_indices t)" for mi
  proof -
    from wf that obtain ci where ci: "tbl_col_index t (ix_column (fst mi)) = Some ci"
      and mt: "impl_matches (fst mi) (snd mi)"
      and rep: "impl_represents U (snd mi) (map (\<lambda>r. r ! ci) (tbl_rows t))"
      by (auto simp: wf_table_def index_ok_def)
    have l: "ci < length ?cols" using cols ci by (rule wf_columns_less)
    have "col_map_of ?cols n = None" using none by (simp add: plain_column_def)
    then have "ix_column (fst mi) \<noteq> n" using ci cols by (auto simp: wf_columns_def)
    moreover have "map (\<lambda>r. r ! ci) (map (\<lambda>r. r @ [DNull]) (tbl_rows t)) = map (\<lambda>r. r ! ci) (tbl_rows t)"
      using w l by (auto simp: nth_append)
    ultimately show ?thesis using ci mt rep by (simp add: index_ok_def t' del: map_map)
  qed
  show ?thesis
    using wf c' sorted reg ix w by (auto simp: wf_table_def t' key_stores_def)
qed

section \<open>Update of one cell\<close>

lemma unique_keys_set:
  "length r = length cols \<Longrightarrow>
     set (unique_keys cols r) = {unique_key i (r ! i) | i. i < length cols \<and> col_unique (cols ! i)}"
  by (auto simp: unique_keys_def unique_indices_def)

lemma same_key_refl [simp]: "same_key v v"
  by (simp add: same_key_iff)

lemma unique_keys_update:
  assumes l: "length r = length cols" and ci: "ci < length cols"
  shows "set (unique_keys cols (r[ci := v])) =
    (if col_unique (cols ! ci) then insert (unique_key ci v) (set (unique_keys cols r) - {unique_key ci (r ! ci)})
     else set (unique_keys cols r))"
  using assms by (auto simp: unique_keys_set nth_list_update unique_key_eq_iff split: if_splits)

lemma pk_key_update_other:
  "\<not> col_primary_key (cols ! ci) \<Longrightarrow> pk_key_static cols (r[ci := v]) = pk_key_static cols r"
proof -
  assume n: "\<not> col_primary_key (cols ! ci)"
  then have "r[ci := v] ! i = r ! i" if "i \<in> set (pk_indices cols)" for i
    using that by (cases "i = ci") (auto simp: pk_indices_def)
  then show ?thesis by (simp add: pk_key_static_def cong: map_cong)
qed

lemma pk_key_defined: "pk_key_static cols r = None \<longleftrightarrow> pk_indices cols = []"
  by (simp add: pk_key_static_def)

lemma registered_update:
  assumes reg: "registered cols rows (ps, pr, us)" and ri: "ri < length rows" and w: "length (rows ! ri) = length cols"
    and ci: "ci < length cols" and ap: "\<And>j. j < length rows \<Longrightarrow> j \<noteq> ri \<Longrightarrow> apart cols (rows ! j) ((rows ! ri)[ci := v])"
    and old: "\<And>j. j < length rows \<Longrightarrow> j \<noteq> ri \<Longrightarrow> apart cols (rows ! j) (rows ! ri)"
    and ps': "ps' = (if col_primary_key (cols ! ci)
        then insert (the (pk_key_static cols ((rows ! ri)[ci := v]))) (ps - {the (pk_key_static cols (rows ! ri))}) else ps)"
    and pr': "pr' = (if col_primary_key (cols ! ci)
        then (pr(the (pk_key_static cols (rows ! ri)) := None))(the (pk_key_static cols ((rows ! ri)[ci := v])) \<mapsto> ri) else pr)"
    and us': "us' = (if col_unique (cols ! ci)
        then insert (unique_key ci v) (us - {unique_key ci (rows ! ri ! ci)}) else us)"
  shows "registered cols (rows[ri := (rows ! ri)[ci := v]]) (ps', pr', us')"
proof -
  let ?r = "rows ! ri" and ?r' = "(rows ! ri)[ci := v]"
  have p: "ps = dom pr" and u: "us = (\<Union>r \<in> set rows. set (unique_keys cols r))"
    and m: "\<And>k i. pr k = Some i \<longleftrightarrow> i < length rows \<and> pk_key_static cols (rows ! i) = Some k"
    using reg by (auto simp: registered_def)
  have some: "pk_key_static cols r \<noteq> None" if "col_primary_key (cols ! ci)" for r
    using that ci by (auto simp: pk_key_static_def pk_indices_def filter_empty_conv)
  have dom: "ps' = dom pr'" using p by (auto simp: ps' pr')
  have map: "pr' k = Some i \<longleftrightarrow> i < length rows \<and> pk_key_static cols (rows[ri := ?r'] ! i) = Some k" for k i
  proof (cases "col_primary_key (cols ! ci)")
    case False
    then show ?thesis using pk_key_update_other [OF False] ri by (auto simp: pr' m nth_list_update)
  next
    case True
    from some [OF True] obtain k0 k1 where k: "pk_key_static cols ?r = Some k0" "pk_key_static cols ?r' = Some k1"
      by (meson not_None_eq)
    have f1: "pk_key_static cols (rows ! j) \<noteq> Some k1" if "j < length rows" "j \<noteq> ri" for j
      using ap [OF that] k by (auto simp: apart_def)
    have f0: "pk_key_static cols (rows ! j) \<noteq> Some k0" if "j < length rows" "j \<noteq> ri" for j
      using old [OF that] k by (auto simp: apart_def)
    show ?thesis
      using True k f0 f1 ri m [of k i] by (auto simp: pr' nth_list_update)
  qed
  have un: "us' = (\<Union>r \<in> set (rows[ri := ?r']). set (unique_keys cols r))"
  proof -
    have split: "(\<Union>r \<in> set rows. f r) = f ?r \<union> (\<Union>j \<in> {j. j < length rows \<and> j \<noteq> ri}. f (rows ! j))"
      for f :: "row \<Rightarrow> rstr set"
      using ri by (auto simp: set_conv_nth)
    have split': "(\<Union>r \<in> set (rows[ri := ?r']). f r) = f ?r' \<union> (\<Union>j \<in> {j. j < length rows \<and> j \<noteq> ri}. f (rows ! j))"
      for f :: "row \<Rightarrow> rstr set"
      using ri by (auto simp: set_conv_nth nth_list_update)
    show ?thesis
    proof (cases "col_unique (cols ! ci)")
      case False
      then show ?thesis unfolding split' us' u split using unique_keys_update [OF w ci, of v] by simp
    next
      case True
      have "unique_key ci (?r ! ci) \<in> set (unique_keys cols ?r)"
        using True ci w by (auto simp: unique_keys_set)
      then have "unique_key ci (?r ! ci) \<notin> (\<Union>j \<in> {j. j < length rows \<and> j \<noteq> ri}. set (unique_keys cols (rows ! j)))"
        using old by (fastforce simp: apart_def)
      with True show ?thesis unfolding split' us' u split using unique_keys_update [OF w ci, of v] by auto
    qed
  qed
  show ?thesis using dom map un by (simp add: registered_def)
qed

lemma apart_sym: "apart cols r s \<longleftrightarrow> apart cols s r"
  by (auto simp: apart_def)

lemma sorted_apart_iff:
  "sorted_wrt (apart cols) rows \<longleftrightarrow> (\<forall>i < length rows. \<forall>j < length rows. i \<noteq> j \<longrightarrow> apart cols (rows ! i) (rows ! j))"
proof
  assume s: "sorted_wrt (apart cols) rows"
  show "\<forall>i < length rows. \<forall>j < length rows. i \<noteq> j \<longrightarrow> apart cols (rows ! i) (rows ! j)"
  proof (intro allI impI)
    fix i j assume ij: "i < length rows" "j < length rows" "i \<noteq> j"
    consider "i < j" | "j < i" using ij(3) by linarith
    then show "apart cols (rows ! i) (rows ! j)"
    proof cases
      case 2
      then have "apart cols (rows ! j) (rows ! i)" using s ij by (simp add: sorted_wrt_iff_nth_less)
      then show ?thesis by (subst apart_sym)
    qed (use s ij in \<open>simp add: sorted_wrt_iff_nth_less\<close>)
  qed
qed (simp add: sorted_wrt_iff_nth_less)

text \<open>A cell may be overwritten when the new row is apart from the others.\<close>

lemma update_cell_wf:
  assumes wf: "wf_table U t" and ri: "ri < length (tbl_rows t)" and ci: "ci < length (tbl_columns t)"
    and new: "new = (tbl_rows t ! ri)[ci := coerced (col_dtype (tbl_columns t ! ci)) v]"
    and ap: "\<And>j. j < length (tbl_rows t) \<Longrightarrow> j \<noteq> ri \<Longrightarrow> apart (tbl_columns t) (tbl_rows t ! j) new"
  shows "\<exists>t'. update_cell U ri ci v t = Some (t', tbl_rows t ! ri ! ci) \<and> wf_table U t' \<and>
    tbl_rows t' = (tbl_rows t)[ri := new] \<and> tbl_columns t' = tbl_columns t"
proof -
  let ?cols = "tbl_columns t" and ?r = "tbl_rows t ! ri" and ?c = "tbl_columns t ! ci"
  let ?x = "coerced (col_dtype ?c) v"
  have w: "\<And>r. r \<in> set (tbl_rows t) \<Longrightarrow> length r = length ?cols" using wf by (simp add: wf_table_def)
  have wr: "length ?r = length ?cols" using w ri by simp
  have cols: "wf_columns t" using wf by (simp add: wf_table_def)
  have old: "apart ?cols (tbl_rows t ! j) ?r" if "j < length (tbl_rows t)" "j \<noteq> ri" for j
    using wf that ri by (simp add: wf_table_def sorted_apart_iff)
  have sorted: "sorted_wrt (apart ?cols) ((tbl_rows t)[ri := new])"
    using wf ap ri by (auto simp: wf_table_def sorted_apart_iff nth_list_update apart_sym)
  have some: "\<exists>k. pk_key t r = Some k" if "col_primary_key ?c" for r
    using that ci by (auto simp: pk_key_def pk_key_static_def pk_indices_def filter_empty_conv)
  define ps where "ps = (if col_primary_key ?c then insert (the (pk_key t new)) (tbl_pk_set t - {the (pk_key t ?r)}) else tbl_pk_set t)"
  define pr where "pr = (if col_primary_key ?c
     then ((tbl_pk_row_index t)(the (pk_key t ?r) := None))(the (pk_key t new) \<mapsto> ri) else tbl_pk_row_index t)"
  define us where "us = (if col_unique ?c then insert (unique_key ci ?x) (tbl_unique_set t - {unique_key ci (?r ! ci)})
     else tbl_unique_set t)"
  define ixs where "ixs = map (index_update_cell U (col_name ?c) ri (?r ! ci) ?x) (tbl_indices t)"
  have reg: "registered ?cols ((tbl_rows t)[ri := new]) (ps, pr, us)"
    using wf unfolding new ps_def pr_def us_def pk_key_def
    by (intro registered_update [OF _ ri wr ci]) (use ap old new in \<open>auto simp: wf_table_def key_stores_def\<close>)
  have eq: "update_cell U ri ci v t = Some (t\<lparr>tbl_rows := (tbl_rows t)[ri := new], tbl_pk_set := ps,
      tbl_pk_row_index := pr, tbl_unique_set := us, tbl_indices := ixs\<rparr>, ?r ! ci)"
    using some [of ?r] some [of new] ci ri wr
    by (cases "col_primary_key ?c"; cases "col_unique ?c")
      (auto simp: update_cell_def Let_def new ps_def pr_def us_def ixs_def)
  have ix: "index_ok U (tbl_col_index t) ((tbl_rows t)[ri := new]) (index_update_cell U (col_name ?c) ri (?r ! ci) ?x mi)"
    if "mi \<in> set (tbl_indices t)" for mi
  proof -
    from wf that obtain cj where cj: "tbl_col_index t (ix_column (fst mi)) = Some cj"
      and mt: "impl_matches (fst mi) (snd mi)"
      and rep: "impl_represents U (snd mi) (map (\<lambda>r. r ! cj) (tbl_rows t))"
      by (auto simp: wf_table_def index_ok_def)
    have cm: "tbl_col_index t (col_name ?c) = Some ci"
      using cols ci by (simp add: wf_columns_def col_map_name)
    show ?thesis
    proof (cases "ix_column (fst mi) = col_name ?c")
      case True
      then have "cj = ci" using cj cm by simp
      have "impl_represents U (impl_insert U ri ?x (impl_remove U ri (?r ! ci) (snd mi)))
              ((map (\<lambda>r. r ! ci) (tbl_rows t))[ri := ?x])"
        using rep ri \<open>cj = ci\<close> by (intro impl_update) simp_all
      moreover have "(map (\<lambda>r. r ! ci) (tbl_rows t))[ri := ?x] = map (\<lambda>r. r ! ci) ((tbl_rows t)[ri := new])"
        using wr ci by (simp add: map_update new)
      ultimately show ?thesis using True cj mt \<open>cj = ci\<close> by (simp add: index_ok_def index_update_cell_def)
    next
      case False
      have "cj \<noteq> ci"
      proof
        assume "cj = ci"
        then have "col_name ?c = ix_column (fst mi)"
          using cj cols by (simp add: wf_columns_def col_map_of_def position_Some)
        with False show False by simp
      qed
      then have "map (\<lambda>r. r ! cj) ((tbl_rows t)[ri := new]) = map (\<lambda>r. r ! cj) (tbl_rows t)"
        using ri by (simp add: map_update new list_update_same_conv)
      with False cj mt rep show ?thesis by (simp add: index_ok_def index_update_cell_def)
    qed
  qed
  have names: "map (\<lambda>mi. ix_name (fst mi)) ixs = map (\<lambda>mi. ix_name (fst mi)) (tbl_indices t)"
    by (simp add: ixs_def index_update_cell_def)
  have width: "\<forall>r \<in> set ((tbl_rows t)[ri := new]). length r = length ?cols"
    using w wr by (auto simp: new dest!: set_update_subset_insert [THEN subsetD])
  show ?thesis
    unfolding eq using wf sorted reg ix names width
    by (simp add: wf_table_def wf_columns_def key_stores_def) (simp add: ixs_def)
qed

text \<open>The BTREE index of a column represents it.\<close>

lemma btree_on_ok:
  "\<forall>mi \<in> set mis. index_ok U m rows mi \<Longrightarrow> btree_on c mis = Some ix \<Longrightarrow>
     \<exists>ci. m c = Some ci \<and> represents bt_ok bt_posts bt_keys ix (map (\<lambda>r. r ! ci) rows)"
proof (induction c mis rule: btree_on.induct)
  case (2 c m' ix' mis)
  show ?case
  proof (cases "bt_column ix' = c")
    case True
    with 2 show ?thesis by (auto simp: index_ok_def)
  qed (use 2 in auto)
qed auto

end
