(* ===== verification/TableProps.thy ===== *)
theory TableProps
  imports TableInv
begin

text \<open>
  The properties of the table: what an insert, a delete, an update of a cell and the schema
  operations do to a well-formed table, what an index lookup returns, and the three operations that
  leave a table that is not well formed.
\<close>

section \<open>When two rows clash\<close>

text \<open>The promise behind PRIMARY KEY and UNIQUE, stated on values.\<close>

definition clash :: "column list \<Rightarrow> row \<Rightarrow> row \<Rightarrow> bool" where
  "clash cols s r \<longleftrightarrow>
     ((\<exists>i < length cols. col_primary_key (cols ! i)) \<and>
      (\<forall>i < length cols. col_primary_key (cols ! i) \<longrightarrow> same_key (s ! i) (r ! i))) \<or>
     (\<exists>i < length cols. col_unique (cols ! i) \<and> same_key (s ! i) (r ! i))"

lemma pk_indices_ne: "pk_indices cols \<noteq> [] \<longleftrightarrow> (\<exists>i < length cols. col_primary_key (cols ! i))"
  by (auto simp: pk_indices_def filter_empty_conv)

lemma apart_iff:
  assumes "length s = length cols" and "length r = length cols"
  shows "apart cols s r \<longleftrightarrow> \<not> clash cols s r"
proof -
  have u: "set (unique_keys cols s) \<inter> set (unique_keys cols r) = {} \<longleftrightarrow>
      \<not> (\<exists>i < length cols. col_unique (cols ! i) \<and> same_key (s ! i) (r ! i))"
    unfolding unique_keys_set [OF assms(1)] unique_keys_set [OF assms(2)] disjoint_iff
    by (auto simp: unique_key_eq_iff)
  have p: "(pk_key_static cols s = None \<or> pk_key_static cols s \<noteq> pk_key_static cols r) \<longleftrightarrow>
      \<not> ((\<exists>i < length cols. col_primary_key (cols ! i)) \<and>
         (\<forall>i < length cols. col_primary_key (cols ! i) \<longrightarrow> same_key (s ! i) (r ! i)))"
    using pk_key_eq_iff [of cols s r] pk_indices_ne [of cols] pk_key_defined [of cols s] by blast
  show ?thesis unfolding apart_def clash_def u p by blast
qed

lemma fits_iff:
  "\<forall>s \<in> set rows. length s = length cols \<Longrightarrow> length r = length cols \<Longrightarrow>
     fits cols rows r \<longleftrightarrow> (\<forall>s \<in> set rows. \<not> clash cols s r)"
  by (simp add: fits_def apart_iff)

section \<open>A concrete table\<close>

definition no_env :: eval_env where
  "no_env = \<lparr>env_unicode = \<lparr>uni_lower = id, uni_upper = id, uni_debug = id, uni_alphabetic = (\<lambda>_. False),
       uni_numeric = (\<lambda>_. False)\<rparr>,
     env_secs = 0, env_random = 0, env_rowid = None, env_changes = 0, env_sqf = (\<lambda>_. Inl []), env_powf = (\<lambda>x _. x),
     env_pow10 = (\<lambda>_. f64_zero), env_subquery = (\<lambda>_ _ _. Inr []), env_plugin = (\<lambda>_ _. Inr DNull),
     env_expr_debug = (\<lambda>_. [])\<rparr>"

abbreviation "no_unicode \<equiv> env_unicode no_env"

text \<open>\<open>CREATE TABLE t (id INT PRIMARY KEY, tag STRING UNIQUE)\<close>.\<close>

definition demo_columns :: "column list" where
  "demo_columns = [(plain_column ''id'' TInt)\<lparr>col_primary_key := True\<rparr>,
                   (plain_column ''tag'' TString)\<lparr>col_unique := True\<rparr>]"

definition demo_table :: table where
  "demo_table = (case new_table ''t'' demo_columns of Inr t \<Rightarrow> t | Inl _ \<Rightarrow> undefined)"

lemma demo_new: "new_table ''t'' demo_columns = Inr demo_table"
  using index_columns_iff [of "[]" demo_columns "col_map_of demo_columns"]
  by (simp add: demo_table_def new_table_def demo_columns_def plain_column_def)

lemma demo_wf: "wf_table U demo_table" and demo_typed: "typed_table demo_table"
  and demo_rows [simp]: "tbl_rows demo_table = []" and demo_cols: "tbl_columns demo_table = demo_columns"
  and demo_indices: "tbl_indices demo_table = []"
  using new_table_wf [OF demo_new] new_table_fields [OF demo_new] by simp_all

definition demo_row :: "int \<Rightarrow> rstr \<Rightarrow> row" where
  "demo_row i s = [DInt (word_of_int i), DString s]"

lemma demo_fill: "fill_row E demo_columns (demo_row i s) = pok (demo_row i s)"
  by (simp add: demo_columns_def demo_row_def fill_cell_def plain_column_def coerced_def)

lemma demo_clash:
  "clash demo_columns s r \<longleftrightarrow> same_key (s ! 0) (r ! 0) \<or> same_key (s ! 1) (r ! 1)"
  by (simp add: clash_def demo_columns_def plain_column_def Ex_less_Suc All_less_Suc)

lemma demo_insert:
  "\<exists>t. insert_row no_env (demo_row 1 ''a'') demo_table = pok t \<and> wf_table no_unicode t \<and>
     tbl_rows t = [demo_row 1 ''a''] \<and> tbl_columns t = demo_columns"
proof -
  have "null_pk_column demo_columns (demo_row 1 ''a'') = None"
    by (simp add: null_pk_column_def demo_columns_def demo_row_def plain_column_def)
  then show ?thesis
    using insert_row_cases(3) [OF demo_wf [of no_unicode], of "demo_row 1 ''a''" "demo_row 1 ''a''"]
    by (simp add: demo_cols demo_fill fits_def) (simp add: demo_row_def demo_columns_def)
qed

section \<open>Insert\<close>

text \<open>C1.  A successful insert keeps the table well formed and typed: the new row is the given one
  with defaults and coercions applied, it is appended, no other row changes, every key store and
  every secondary index holds exactly the keys of the rows.\<close>

theorem insert_keeps_invariant:
  "wf_table (env_unicode E) t \<Longrightarrow> typed_table t \<Longrightarrow> insert_row E vs t = pok t' \<Longrightarrow>
     wf_table (env_unicode E) t' \<and> typed_table t' \<and>
     (\<exists>r. fill_row E (tbl_columns t) vs = pok r \<and> tbl_rows t' = tbl_rows t @ [r])"
  using insert_row_pok [of E t vs t'] by (auto simp: typed_table_def)

theorem insert_keeps_invariant_witness:
  "\<exists>t. insert_row no_env (demo_row 1 ''a'') demo_table = pok t \<and> wf_table no_unicode t \<and> typed_table t"
  using demo_insert insert_keeps_invariant [OF demo_wf demo_typed, of no_env "demo_row 1 ''a''"] by blast

text \<open>C3.  An insert of a filled row without NULL keys is decided by the values alone: it succeeds
  exactly when the row clashes with no stored row (same values in all primary-key columns, or the
  same value in a UNIQUE column), and otherwise is the error \<open>DuplicateKey\<close>; it never panics.\<close>

theorem insert_decided_by_clash:
  "wf_table (env_unicode E) t \<Longrightarrow> length vs = length (tbl_columns t) \<Longrightarrow>
   fill_row E (tbl_columns t) vs = pok r \<Longrightarrow> null_pk_column (tbl_columns t) r = None \<Longrightarrow>
     (if \<exists>s \<in> set (tbl_rows t). clash (tbl_columns t) s r
      then \<exists>k. insert_row E vs t = perr (DuplicateKey k)
      else \<exists>t'. insert_row E vs t = pok t' \<and> tbl_rows t' = tbl_rows t @ [r])"
proof -
  assume wf: "wf_table (env_unicode E) t" and l: "length vs = length (tbl_columns t)"
    and r: "fill_row E (tbl_columns t) vs = pok r" and n: "null_pk_column (tbl_columns t) r = None"
  have "length r = length (tbl_columns t)" using fill_row_ok [OF r l] by (simp add: list_all2_lengthD)
  then have "fits (tbl_columns t) (tbl_rows t) r \<longleftrightarrow> (\<forall>s \<in> set (tbl_rows t). \<not> clash (tbl_columns t) s r)"
    using wf by (intro fits_iff) (simp_all add: wf_table_def)
  then show ?thesis using insert_row_cases(2,3) [OF wf l r n] by auto
qed

theorem insert_decided_by_clash_witness:
  "\<exists>t k. insert_row no_env (demo_row 1 ''a'') demo_table = pok t \<and>
     insert_row no_env (demo_row 2 ''a'') t = perr (DuplicateKey k)"
proof -
  from demo_insert obtain t where t: "insert_row no_env (demo_row 1 ''a'') demo_table = pok t" "wf_table no_unicode t"
    "tbl_rows t = [demo_row 1 ''a'']" "tbl_columns t = demo_columns" by blast
  have "clash demo_columns (demo_row 1 ''a'') (demo_row 2 ''a'')"
    by (simp add: demo_clash demo_row_def)
  moreover have "null_pk_column demo_columns (demo_row 2 ''a'') = None"
    by (simp add: null_pk_column_def demo_columns_def demo_row_def plain_column_def)
  moreover have "length (demo_row 2 ''a'') = length demo_columns" by (simp add: demo_row_def demo_columns_def)
  ultimately show ?thesis
    using t insert_decided_by_clash [OF t(2), of "demo_row 2 ''a''" "demo_row 2 ''a''"]
    by (auto simp: demo_fill)
qed

section \<open>Delete and update\<close>

text \<open>C5.  DELETE is the filter: on a well-formed table it never panics, keeps exactly the rows the
  predicate rejects, in order, counts the others, and leaves every key store and index rebuilt.\<close>

theorem delete_is_filter:
  "wf_table U t \<Longrightarrow>
   \<exists>t'. delete_rows U P t = Some (t', length (filter P (tbl_rows t))) \<and> wf_table U t' \<and>
     tbl_rows t' = filter (\<lambda>r. \<not> P r) (tbl_rows t)"
  using delete_rows_wf [of U t P] by blast

theorem delete_is_filter_witness:
  "\<exists>t'. delete_rows no_unicode (\<lambda>_. True) demo_table = Some (t', 0) \<and> wf_table no_unicode t'"
  using delete_is_filter [OF demo_wf, of no_unicode "\<lambda>_. True"] by auto

text \<open>Overwriting a cell of a well-formed table keeps it well formed, keys and indexes
  following, whenever the new row clashes with none of the others; the old value is returned.\<close>

theorem update_cell_keeps_invariant:
  "wf_table U t \<Longrightarrow> ri < length (tbl_rows t) \<Longrightarrow> ci < length (tbl_columns t) \<Longrightarrow>
   new = (tbl_rows t ! ri)[ci := coerced (col_dtype (tbl_columns t ! ci)) v] \<Longrightarrow>
   \<forall>j < length (tbl_rows t). j \<noteq> ri \<longrightarrow> \<not> clash (tbl_columns t) (tbl_rows t ! j) new \<Longrightarrow>
   \<exists>t'. update_cell U ri ci v t = Some (t', tbl_rows t ! ri ! ci) \<and> wf_table U t' \<and>
     tbl_rows t' = (tbl_rows t)[ri := new]"
proof -
  assume a: "wf_table U t" "ri < length (tbl_rows t)" "ci < length (tbl_columns t)"
    "new = (tbl_rows t ! ri)[ci := coerced (col_dtype (tbl_columns t ! ci)) v]"
    "\<forall>j < length (tbl_rows t). j \<noteq> ri \<longrightarrow> \<not> clash (tbl_columns t) (tbl_rows t ! j) new"
  have w: "\<forall>r \<in> set (tbl_rows t). length r = length (tbl_columns t)" using a(1) by (simp add: wf_table_def)
  then have "length new = length (tbl_columns t)" using a(2,4) by simp
  then have "apart (tbl_columns t) (tbl_rows t ! j) new" if "j < length (tbl_rows t)" "j \<noteq> ri" for j
    using a(5) w that by (simp add: apart_iff)
  from update_cell_wf [OF a(1-4) this] show ?thesis by blast
qed

theorem update_cell_keeps_invariant_witness:
  "\<exists>t t'. insert_row no_env (demo_row 1 ''a'') demo_table = pok t \<and>
     update_cell no_unicode 0 0 (DString ''7'') t = Some (t', DInt 1) \<and> tbl_rows t' = [demo_row 7 ''a'']"
proof -
  from demo_insert obtain t where t: "insert_row no_env (demo_row 1 ''a'') demo_table = pok t" "wf_table no_unicode t"
    "tbl_rows t = [demo_row 1 ''a'']" "tbl_columns t = demo_columns" by blast
  have p: "parse_i64 ''7'' = Some 7"
    by (simp add: parse_i64_def parse_int_def is_digit_def digits_val_def digit_val_def i64_min_def i64_max_def)
  then have "demo_row 7 ''a'' = (tbl_rows t ! 0)[0 := coerced (col_dtype (tbl_columns t ! 0)) (DString ''7'')]"
    using t by (simp add: demo_row_def demo_columns_def plain_column_def coerced_def)
  from update_cell_keeps_invariant [OF t(2) _ _ this] t show ?thesis
    by (auto simp: demo_columns_def demo_row_def)
qed

text \<open>Nothing checks the new value of a key: \<open>update_cell\<close>, which UPDATE calls, overwrites a
  primary-key cell with a value another row already has.  The table then holds two rows with one
  primary key.\<close>

theorem update_cell_allows_duplicate_keys:
  "\<exists>t t'. insert_row no_env (demo_row 1 ''a'') demo_table = pok t \<and> insert_row no_env (demo_row 2 ''b'') t = pok t' \<and>
     (\<exists>t''. update_cell no_unicode 1 0 (DInt 1) t' = Some (t'', DInt 2) \<and>
        tbl_rows t'' = [demo_row 1 ''a'', demo_row 1 ''b''] \<and> \<not> wf_table no_unicode t'')"
proof -
  from demo_insert obtain t where t: "insert_row no_env (demo_row 1 ''a'') demo_table = pok t" "wf_table no_unicode t"
    "tbl_rows t = [demo_row 1 ''a'']" "tbl_columns t = demo_columns" by blast
  have n: "null_pk_column demo_columns (demo_row 2 ''b'') = None"
    by (simp add: null_pk_column_def demo_columns_def demo_row_def plain_column_def)
  have l: "length (demo_row i s) = length demo_columns" for i s by (simp add: demo_row_def demo_columns_def)
  have "\<not> clash demo_columns (demo_row 1 ''a'') (demo_row 2 ''b'')"
    by (simp add: demo_clash demo_row_def)
  then have "fits demo_columns [demo_row 1 ''a''] (demo_row 2 ''b'')"
    by (simp add: fits_iff l)
  then obtain t' where t': "insert_row no_env (demo_row 2 ''b'') t = pok t'"
    "tbl_rows t' = [demo_row 1 ''a'', demo_row 2 ''b'']" "tbl_columns t' = demo_columns"
    using insert_row_cases(3) [OF t(2), of "demo_row 2 ''b''" "demo_row 2 ''b''"] t n l by (auto simp: demo_fill)
  obtain t'' where u: "update_cell no_unicode 1 0 (DInt 1) t' = Some (t'', DInt 2)"
    "tbl_rows t'' = [demo_row 1 ''a'', demo_row 1 ''b'']" "tbl_columns t'' = demo_columns"
    using t' by (auto simp: update_cell_def Let_def demo_row_def demo_columns_def plain_column_def coerced_def
        split: option.splits)
  have "clash demo_columns (demo_row 1 ''a'') (demo_row 1 ''b'')"
    by (simp add: demo_clash demo_row_def)
  then have "\<not> apart demo_columns (demo_row 1 ''a'') (demo_row 1 ''b'')" by (simp add: apart_iff l)
  then have "\<not> wf_table no_unicode t''" using u by (simp add: wf_table_def)
  with t t' u show ?thesis by blast
qed

section \<open>Indexes\<close>

text \<open>The values of a named column.\<close>

definition column_of :: "table \<Rightarrow> rstr \<Rightarrow> db_value list" where
  "column_of t c = map (\<lambda>r. r ! the (tbl_col_index t c)) (tbl_rows t)"

lemma btree_on_represents:
  "wf_table U t \<Longrightarrow> btree_on c (tbl_indices t) = Some ix \<Longrightarrow>
     represents bt_ok bt_posts bt_keys ix (column_of t c)"
  using btree_on_ok [of "tbl_indices t" U "tbl_col_index t" "tbl_rows t" c ix]
  by (auto simp: wf_table_def column_of_def)

text \<open>C10.  A lookup through a BTREE index is the scan: on a well-formed table it lists, without
  repetition, exactly the rows whose cell has the key of the value.\<close>

theorem index_lookup_is_scan:
  "wf_table U t \<Longrightarrow> btree_lookup c v t = Some l \<Longrightarrow>
     distinct l \<and> set l = {i. i < length (tbl_rows t) \<and> encode_key (column_of t c ! i) = encode_key v}"
proof -
  assume wf: "wf_table U t" and l: "btree_lookup c v t = Some l"
  then obtain ix where ix: "btree_on c (tbl_indices t) = Some ix" "l = bt_lookup v ix"
    by (auto simp: btree_lookup_def)
  from postings_represented [OF btree_on_represents [OF wf ix(1)], of "encode_key v"]
  show ?thesis by (simp add: ix(2) bt_lookup_def column_of_def)
qed

definition demo_index :: "table \<Rightarrow> table" where
  "demo_index t = (case create_index no_unicode ''ix'' ''id'' KBTree t of Some (Inr t') \<Rightarrow> t' | _ \<Rightarrow> t)"

lemma demo_indexed:
  assumes "wf_table no_unicode t" and "tbl_columns t = demo_columns" and "tbl_indices t = []"
  shows "create_index no_unicode ''ix'' ''id'' KBTree t = Some (Inr (demo_index t))"
    and "wf_table no_unicode (demo_index t)" and "tbl_rows (demo_index t) = tbl_rows t"
proof -
  have "tbl_col_index t ''id'' = Some 0"
    using assms(1,2) by (simp add: wf_table_def wf_columns_def col_map_of_def demo_columns_def plain_column_def)
  from create_index_wf [OF assms(1) this, of "''ix''" KBTree] assms(3)
  show "create_index no_unicode ''ix'' ''id'' KBTree t = Some (Inr (demo_index t))"
    "wf_table no_unicode (demo_index t)" "tbl_rows (demo_index t) = tbl_rows t"
    by (auto simp: has_index_def demo_index_def)
qed

theorem index_lookup_is_scan_witness:
  "\<exists>l. btree_lookup ''id'' (DInt 3) (demo_index demo_table) = Some l \<and> set l = {}"
proof -
  note d = demo_indexed [OF demo_wf demo_cols demo_indices]
  have "tbl_col_index demo_table ''id'' = Some 0"
    using demo_wf [of no_unicode] demo_cols
    by (simp add: wf_table_def wf_columns_def col_map_of_def demo_columns_def plain_column_def)
  then have "\<exists>ix. btree_on ''id'' (tbl_indices (demo_index demo_table)) = Some ix"
    by (simp add: demo_index_def create_index_def demo_indices column_values_def index_fill_def bt_new_def)
  then obtain l where l: "btree_lookup ''id'' (DInt 3) (demo_index demo_table) = Some l"
    by (auto simp: btree_lookup_def)
  from index_lookup_is_scan [OF d(2) l] l d(3) show ?thesis by auto
qed

text \<open>A BTREE range scan over an integer column between two integers lists exactly the rows
  whose value lies between them, without repetition and in ascending order of the value; it does
  not panic when the bounds are in order.\<close>

theorem range_scan_between:
  "represents bt_ok bt_posts bt_keys ix (map DInt ns) \<Longrightarrow> sint a \<le> sint b \<Longrightarrow>
   \<exists>l. bt_range (Included (encode_key (DInt a))) (Included (encode_key (DInt b))) ix = Some l \<and> distinct l \<and>
     set l = {i. i < length ns \<and> sint a \<le> sint (ns ! i) \<and> sint (ns ! i) \<le> sint b} \<and>
     sorted (map (\<lambda>i. sint (ns ! i)) l)"
proof -
  assume r: "represents bt_ok bt_posts bt_keys ix (map DInt ns)" and ab: "sint a \<le> sint b"
  have le: "encode_key (DInt x) \<le> encode_key (DInt y) \<longleftrightarrow> sint x \<le> sint y" for x y
    using encode_key_int_less [of y x] by (simp only: not_less [symmetric])
  let ?lo = "Included (encode_key (DInt a))" and ?hi = "Included (encode_key (DInt b))"
  have "\<not> range_panics ?lo ?hi" using ab le [of a b] by (simp del: encode_key.simps)
  then obtain l where l: "bt_range ?lo ?hi ix = Some l" by (simp add: bt_range_def)
  note s = bt_range_represented [OF r l]
  have set: "set l = {i. i < length ns \<and> sint a \<le> sint (ns ! i) \<and> sint (ns ! i) \<le> sint b}"
    unfolding s [THEN conjunct1] by (auto simp: le simp del: encode_key.simps)
  then have i: "i \<in> set l \<Longrightarrow> i < length ns" for i by simp
  have "sorted (map (\<lambda>i. encode_key (DInt (ns ! i))) l)"
  proof -
    have "map (\<lambda>i. encode_key (map DInt ns ! i)) l = map (\<lambda>i. encode_key (DInt (ns ! i))) l" using i by simp
    then show ?thesis using s by (simp only:)
  qed
  then have "sorted (map (\<lambda>i. sint (ns ! i)) l)"
    by (simp add: sorted_map le del: encode_key.simps)
  with l s set show ?thesis by blast
qed

theorem range_scan_between_witness:
  "\<exists>l. bt_range (Included (encode_key (DInt 2))) (Included (encode_key (DInt 9)))
     (index_fill bt_insert (bt_new ''c'') (map DInt [5, 1, 3])) = Some l \<and> set l = {0, 2}"
proof -
  have "represents bt_ok bt_posts bt_keys (index_fill bt_insert (bt_new ''c'') (map DInt [5, 1, 3])) (map DInt [5, 1, 3])"
    by (rule bt.fill) (simp_all add: bt_new_empty)
  then obtain l where
    l: "bt_range (Included (encode_key (DInt 2))) (Included (encode_key (DInt 9)))
      (index_fill bt_insert (bt_new ''c'') (map DInt [5, 1, 3])) = Some l"
    "set l = {i. i < length [5, 1, 3 :: i64] \<and> sint (2 :: i64) \<le> sint ([5, 1, 3 :: i64] ! i) \<and>
       sint ([5, 1, 3 :: i64] ! i) \<le> sint (9 :: i64)}"
    using range_scan_between [of _ "[5, 1, 3]" 2 9] by (auto simp del: encode_key.simps)
  have "{i. i < length [5, 1, 3 :: i64] \<and> sint (2 :: i64) \<le> sint ([5, 1, 3 :: i64] ! i) \<and>
       sint ([5, 1, 3 :: i64] ! i) \<le> sint (9 :: i64)} = {0, 2 :: nat}"
  proof (rule set_eqI)
    fix i :: nat
    consider "i = 0" | "i = 1" | "i = 2" | "3 \<le> i" by linarith
    then show "i \<in> {i. i < length [5, 1, 3 :: i64] \<and> sint (2 :: i64) \<le> sint ([5, 1, 3 :: i64] ! i) \<and>
       sint ([5, 1, 3 :: i64] ! i) \<le> sint (9 :: i64)} \<longleftrightarrow> i \<in> {0, 2 :: nat}"
      by cases simp_all
  qed
  with l show ?thesis by metis
qed

text \<open>The candidates that a TRIGRAM index offers for a LIKE containment search are a superset
  of the matches: every row whose lower-cased text contains the lower-cased run of at least three
  bytes is among them, so the rescan that follows loses nothing.\<close>

theorem like_candidates_complete:
  "represents tg_ok tg_postings (tg_keys U) ix vals \<Longrightarrow> 3 \<le> length (to_lowercase U run) \<Longrightarrow> i < length vals \<Longrightarrow>
   contains_sub (to_lowercase U (value_to_plain (vals ! i))) (to_lowercase U run) \<Longrightarrow>
     i \<in> tg_like_candidates U run ix"
  by (rule like_candidates_sound)

theorem like_candidates_complete_witness:
  "0 \<in> tg_like_candidates no_unicode ''M4A''
     (index_fill (tg_insert no_unicode) (tg_new ''c'') [DString ''rhs_m4a1''])"
proof -
  have "represents tg_ok tg_postings (tg_keys no_unicode)
     (index_fill (tg_insert no_unicode) (tg_new ''c'') [DString ''rhs_m4a1'']) [DString ''rhs_m4a1'']"
    by (rule tg.fill) (simp_all add: tg_new_empty)
  then show ?thesis
    by (rule like_candidates_complete) code_simp+
qed

text \<open>CREATE INDEX on an existing column under a new name succeeds on any well-formed table,
  changes no row, and the new index already holds every stored row.\<close>

theorem create_index_populates:
  "wf_table U t \<Longrightarrow> tbl_col_index t c \<noteq> None \<Longrightarrow> \<not> has_index n t \<Longrightarrow>
     \<exists>t'. create_index U n c ty t = Some (Inr t') \<and> wf_table U t' \<and> tbl_rows t' = tbl_rows t \<and> has_index n t'"
  using create_index_wf [of U t c _ n ty] by blast

theorem create_index_populates_witness:
  "\<exists>t'. create_index no_unicode ''tri'' ''tag'' KTrigram demo_table = Some (Inr t') \<and> has_index ''tri'' t'"
proof -
  have "tbl_col_index demo_table ''tag'' \<noteq> None"
    using demo_wf [of no_unicode] demo_cols
    by (simp add: wf_table_def wf_columns_def col_map_of_def demo_columns_def plain_column_def)
  moreover have "\<not> has_index ''tri'' demo_table" by (simp add: has_index_def demo_indices)
  ultimately show ?thesis using create_index_populates [OF demo_wf] by blast
qed

section \<open>Schema changes\<close>

text \<open>ALTER TABLE ADD COLUMN keeps a table well formed, indexes and keys included, and gives
  every stored row a NULL in the new column.\<close>

theorem add_column_keeps_invariant:
  "wf_table U t \<Longrightarrow> add_column n ty t = Inr t' \<Longrightarrow>
     wf_table U t' \<and> tbl_rows t' = map (\<lambda>r. r @ [DNull]) (tbl_rows t)"
  using add_column_wf [of U t n ty t'] by (auto simp: add_column_def split: if_splits)

theorem add_column_keeps_invariant_witness:
  "\<exists>t'. add_column ''extra'' TFloat demo_table = Inr t' \<and> wf_table no_unicode t'"
proof -
  have "\<exists>t'. add_column ''extra'' TFloat demo_table = Inr t'"
    by (simp add: add_column_def demo_cols) (simp add: demo_columns_def plain_column_def)
  then show ?thesis using add_column_keeps_invariant [OF demo_wf] by blast
qed

text \<open>ALTER TABLE DROP COLUMN does not: it removes the column and its cells but leaves the map
  from column names to positions.  Dropping the first column of a two-column table leaves the second
  column's name at a position past the end of every row, so evaluating that column on a row panics.\<close>

theorem drop_column_leaves_positions:
  "\<exists>t t'. insert_row no_env (demo_row 1 ''a'') demo_table = pok t \<and> drop_column ''id'' t = pok t' \<and>
     tbl_rows t' = [[DString ''a'']] \<and> map col_name (tbl_columns t') = [''tag''] \<and>
     eval_expr no_env (hd (tbl_rows t')) (tbl_col_index t') (Identifier ''tag'') = None"
proof -
  from demo_insert obtain t where t: "insert_row no_env (demo_row 1 ''a'') demo_table = pok t" "wf_table no_unicode t"
    "tbl_rows t = [demo_row 1 ''a'']" "tbl_columns t = demo_columns" by blast
  have m: "tbl_col_index t ''tag'' = Some 1"
    using t(2,4) by (simp add: wf_table_def wf_columns_def col_map_of_def demo_columns_def plain_column_def)
  obtain t' where t': "drop_column ''id'' t = pok t'" "tbl_rows t' = [[DString ''a'']]"
    "map col_name (tbl_columns t') = [''tag'']" "tbl_col_index t' = tbl_col_index t"
    using t by (simp add: drop_column_def demo_columns_def plain_column_def demo_row_def remove_nth_def)
  have "eval_expr no_env (hd (tbl_rows t')) (tbl_col_index t') (Identifier ''tag'') = None"
    using t' m by (simp add: eval_identifier_def to_lowercase_def is_ascii_def to_ascii_lowercase_def ascii_lower_def cell_def)
  with t t' show ?thesis by (intro exI conjI)
qed

text \<open>TRUNCATE does not either: it empties the rows but keeps the UNIQUE keys, so a row that was
  in the table cannot be inserted again, although the table is empty.\<close>

theorem truncate_leaves_unique_keys:
  "\<exists>t k. insert_row no_env (demo_row 1 ''a'') demo_table = pok t \<and> tbl_rows (truncate_table t) = [] \<and>
     insert_row no_env (demo_row 1 ''a'') (truncate_table t) = perr (DuplicateKey k)"
proof -
  from demo_insert obtain t where t: "insert_row no_env (demo_row 1 ''a'') demo_table = pok t" "wf_table no_unicode t"
    "tbl_rows t = [demo_row 1 ''a'']" "tbl_columns t = demo_columns" by blast
  have "unique_keys demo_columns (demo_row 1 ''a'') = [unique_key 1 (DString ''a'')]"
    by (simp add: unique_keys_def unique_indices_def demo_columns_def demo_row_def plain_column_def)
  moreover have "unique_key 1 (DString ''a'') \<in> tbl_unique_set t"
    using t(2-4) calculation by (simp add: wf_table_def registered_def key_stores_def)
  ultimately have "taken_key (truncate_table t) (demo_row 1 ''a'') = Some (unique_key 1 (DString ''a''))"
    using t by (auto simp: taken_key_def truncate_table_def pk_key_def split: option.splits)
  moreover have "null_pk_column demo_columns (demo_row 1 ''a'') = None"
    by (simp add: null_pk_column_def demo_columns_def demo_row_def plain_column_def)
  ultimately have "insert_row no_env (demo_row 1 ''a'') (truncate_table t) = perr (DuplicateKey (unique_key 1 (DString ''a'')))"
    using t demo_fill [of no_env 1 "''a''"]
    by (simp add: insert_row_def truncate_table_def) (simp add: demo_row_def demo_columns_def)
  with t show ?thesis by (auto simp: truncate_table_def)
qed

end
