(* ===== verification/Database.thy ===== *)
theory Database
  imports TableInv
begin

text \<open>
  \<open>database.rs\<close> and its parts (\<open>cursor.rs\<close>, \<open>prepared.rs\<close>, \<open>views.rs\<close>, \<open>sql_cache.rs\<close>): the named
  tables and views, the stack of snapshots behind transactions and savepoints, the session state,
  and the bounded parse cache.  The SQL parser is not part of the repository: the cache takes it as
  an argument, and its result type is a type parameter.
\<close>

section \<open>The parse cache\<close>

record 'ast sql_cache =
  cache_entries :: "rstr \<rightharpoonup> 'ast"
  cache_order :: "rstr list"
  cache_capacity :: nat
  cache_hits :: nat

definition default_capacity :: nat where
  "default_capacity = 512"

definition cache_new :: "'ast sql_cache" where
  "cache_new = \<lparr>cache_entries = Map.empty, cache_order = [], cache_capacity = default_capacity, cache_hits = 0\<rparr>"

text \<open>\<open>entries.len()\<close> is the number of keys.\<close>

definition cache_insert :: "rstr \<Rightarrow> 'ast \<Rightarrow> 'ast sql_cache \<Rightarrow> 'ast sql_cache" where
  "cache_insert k v c =
     (if cache_entries c k = None
      then (let c1 = (if cache_capacity c \<le> card (dom (cache_entries c))
                      then (case cache_order c of
                              [] \<Rightarrow> c
                            | oldest # rest \<Rightarrow>
                                c\<lparr>cache_order := rest, cache_entries := (cache_entries c)(oldest := None)\<rparr>)
                      else c)
            in c1\<lparr>cache_order := cache_order c1 @ [k], cache_entries := (cache_entries c1)(k \<mapsto> v)\<rparr>)
      else c\<lparr>cache_entries := (cache_entries c)(k \<mapsto> v)\<rparr>)"

definition get_or_parse :: "(rstr \<Rightarrow> 'e + 'ast) \<Rightarrow> rstr \<Rightarrow> 'ast sql_cache \<Rightarrow> ('e + 'ast) \<times> 'ast sql_cache" where
  "get_or_parse parse sql c =
     (case cache_entries c sql of
        Some v \<Rightarrow> (Inr v, c\<lparr>cache_hits := cache_hits c + 1\<rparr>)
      | None \<Rightarrow> (case parse sql of
                    Inl e \<Rightarrow> (Inl e, c)
                  | Inr v \<Rightarrow> (Inr v, cache_insert sql v c)))"

definition cache_clear :: "'ast sql_cache \<Rightarrow> 'ast sql_cache" where
  "cache_clear c = c\<lparr>cache_entries := Map.empty, cache_order := [], cache_hits := 0\<rparr>"

definition cache_stats :: "'ast sql_cache \<Rightarrow> nat \<times> nat" where
  "cache_stats c = (card (dom (cache_entries c)), cache_hits c)"

text \<open>The caches a session can reach.\<close>

inductive cache_reachable :: "(rstr \<Rightarrow> 'e + 'ast) \<Rightarrow> 'ast sql_cache \<Rightarrow> bool" for parse where
  reach_new: "cache_reachable parse cache_new"
| reach_get: "cache_reachable parse c \<Longrightarrow> cache_reachable parse (snd (get_or_parse parse sql c))"
| reach_clear: "cache_reachable parse c \<Longrightarrow> cache_reachable parse (cache_clear c)"

definition cache_inv :: "(rstr \<Rightarrow> 'e + 'ast) \<Rightarrow> 'ast sql_cache \<Rightarrow> bool" where
  "cache_inv parse c \<longleftrightarrow>
     dom (cache_entries c) = set (cache_order c) \<and> distinct (cache_order c) \<and>
     length (cache_order c) \<le> cache_capacity c \<and> cache_capacity c = default_capacity \<and>
     (\<forall>k v. cache_entries c k = Some v \<longrightarrow> parse k = Inr v)"

lemma cache_inv_card: "cache_inv parse c \<Longrightarrow> card (dom (cache_entries c)) = length (cache_order c)"
  by (simp add: cache_inv_def distinct_card)

lemma cache_insert_inv:
  assumes inv: "cache_inv parse c" and p: "parse k = Inr v" and n: "cache_entries c k = None"
  shows "cache_inv parse (cache_insert k v c)"
proof -
  have k: "k \<notin> set (cache_order c)" using inv n by (auto simp: cache_inv_def)
  show ?thesis
  proof (cases "cache_capacity c \<le> card (dom (cache_entries c))")
    case True
    then have "cache_order c \<noteq> []"
      using inv cache_inv_card [OF inv] by (auto simp: cache_inv_def default_capacity_def)
    then obtain old rest where o: "cache_order c = old # rest" by (cases "cache_order c") auto
    have "cache_insert k v c = c\<lparr>cache_order := rest @ [k], cache_entries := ((cache_entries c)(old := None))(k \<mapsto> v)\<rparr>"
      using True n o by (simp add: cache_insert_def)
    moreover have "dom ((cache_entries c)(old := None)) = set rest"
      using inv o by (auto simp: cache_inv_def)
    ultimately show ?thesis using inv o p k by (auto simp: cache_inv_def)
  next
    case False
    then have "cache_insert k v c = c\<lparr>cache_order := cache_order c @ [k], cache_entries := (cache_entries c)(k \<mapsto> v)\<rparr>"
      using n by (simp add: cache_insert_def)
    moreover have "length (cache_order c) < cache_capacity c" using False cache_inv_card [OF inv] by simp
    ultimately show ?thesis using inv p k by (auto simp: cache_inv_def)
  qed
qed

lemma get_or_parse_inv: "cache_inv parse c \<Longrightarrow> cache_inv parse (snd (get_or_parse parse sql c))"
  by (auto simp: get_or_parse_def cache_insert_inv split: option.splits sum.splits) (simp add: cache_inv_def)+

lemma cache_reachable_inv: "cache_reachable parse c \<Longrightarrow> cache_inv parse c"
proof (induction rule: cache_reachable.induct)
  case reach_new
  then show ?case by (simp add: cache_inv_def cache_new_def)
next
  case (reach_get c sql)
  then show ?case by (intro get_or_parse_inv)
next
  case (reach_clear c)
  then show ?case by (simp add: cache_inv_def cache_clear_def)
qed

lemma get_or_parse_result: "cache_inv parse c \<Longrightarrow> fst (get_or_parse parse sql c) = parse sql"
  by (auto simp: get_or_parse_def cache_inv_def split: option.splits sum.splits)

section \<open>The database\<close>

record snapshot =
  snap_name :: "rstr option"
  snap_tables :: "rstr \<rightharpoonup> table"
  snap_views :: "rstr \<rightharpoonup> rstr"

record cursor_state =
  cur_sql :: rstr
  cur_offset :: nat
  cur_page_size :: nat

record prepared_stmt =
  prep_sql :: rstr
  prep_arg_count :: nat

record 'ast database =
  db_tables :: "rstr \<rightharpoonup> table"
  db_views :: "rstr \<rightharpoonup> rstr"
  db_savepoints :: "snapshot list"
  db_last_insert_rowid :: "rstr option"
  db_last_changes :: nat
  db_config :: "rstr \<rightharpoonup> rstr"
  db_cursors :: "rstr \<rightharpoonup> cursor_state"
  db_prepared :: "rstr \<rightharpoonup> prepared_stmt"
  db_cache :: "'ast sql_cache"

definition db_new :: "'ast database" where
  "db_new = \<lparr>db_tables = Map.empty, db_views = Map.empty, db_savepoints = [], db_last_insert_rowid = None,
     db_last_changes = 0, db_config = Map.empty, db_cursors = Map.empty, db_prepared = Map.empty,
     db_cache = cache_new\<rparr>"

definition quote_msg :: "rstr \<Rightarrow> rstr \<Rightarrow> rstr \<Rightarrow> rstr" where
  "quote_msg pre n post = pre @ [CHR 39] @ n @ [CHR 39] @ post"

subsection \<open>Transactions\<close>

definition snap :: "rstr option \<Rightarrow> 'ast database \<Rightarrow> snapshot" where
  "snap n db = \<lparr>snap_name = n, snap_tables = db_tables db, snap_views = db_views db\<rparr>"

definition db_begin :: "'ast database \<Rightarrow> 'ast database" where
  "db_begin db = db\<lparr>db_savepoints := db_savepoints db @ [snap None db]\<rparr>"

definition db_commit :: "'ast database \<Rightarrow> 'ast database sres" where
  "db_commit db =
     (if db_savepoints db = [] then Inl ''No active transaction''
      else Inr (db\<lparr>db_savepoints := butlast (db_savepoints db)\<rparr>))"

definition restore :: "snapshot \<Rightarrow> 'ast database \<Rightarrow> 'ast database" where
  "restore s db = db\<lparr>db_tables := snap_tables s, db_views := snap_views s\<rparr>"

definition db_rollback :: "'ast database \<Rightarrow> 'ast database sres" where
  "db_rollback db =
     (if db_savepoints db = [] then Inr db
      else Inr (restore (last (db_savepoints db)) (db\<lparr>db_savepoints := butlast (db_savepoints db)\<rparr>)))"

definition db_savepoint :: "rstr \<Rightarrow> 'ast database \<Rightarrow> 'ast database" where
  "db_savepoint n db = db\<lparr>db_savepoints := db_savepoints db @ [snap (Some n) db]\<rparr>"

text \<open>\<open>rposition\<close>: the last position with the property.\<close>

definition rposition :: "('a \<Rightarrow> bool) \<Rightarrow> 'a list \<Rightarrow> nat option" where
  "rposition P xs = map_option (\<lambda>i. length xs - 1 - i) (position P (rev xs))"

definition db_rollback_to :: "rstr \<Rightarrow> 'ast database \<Rightarrow> 'ast database sres" where
  "db_rollback_to n db =
     (case rposition (\<lambda>s. snap_name s = Some n) (db_savepoints db) of
        Some i \<Rightarrow> Inr (restore (db_savepoints db ! i)
                       (db\<lparr>db_savepoints := take i (remove_nth i (db_savepoints db))\<rparr>))
      | None \<Rightarrow> Inl (quote_msg ''Savepoint '' n '' not found''))"

definition db_release :: "rstr \<Rightarrow> 'ast database \<Rightarrow> 'ast database sres" where
  "db_release n db =
     (case rposition (\<lambda>s. snap_name s = Some n) (db_savepoints db) of
        Some i \<Rightarrow> Inr (db\<lparr>db_savepoints := remove_nth i (db_savepoints db)\<rparr>)
      | None \<Rightarrow> Inl (quote_msg ''Savepoint '' n '' not found''))"

definition in_transaction :: "'ast database \<Rightarrow> bool" where
  "in_transaction db = (db_savepoints db \<noteq> [])"

subsection \<open>Tables, views, session\<close>

definition has_table :: "rstr \<Rightarrow> 'ast database \<Rightarrow> bool" where
  "has_table n db = (db_tables db n \<noteq> None)"

definition add_table :: "rstr \<Rightarrow> table \<Rightarrow> 'ast database \<Rightarrow> 'ast database" where
  "add_table n t db = db\<lparr>db_tables := (db_tables db)(n \<mapsto> t)\<rparr>"

definition create_table :: "rstr \<Rightarrow> table \<Rightarrow> 'ast database \<Rightarrow> 'ast database sres" where
  "create_table n t db =
     (if has_table n db then Inl (quote_msg ''Table '' n '' already exists'') else Inr (add_table n t db))"

definition drop_table :: "rstr \<Rightarrow> 'ast database \<Rightarrow> 'ast database sres" where
  "drop_table n db =
     (if has_table n db then Inr (db\<lparr>db_tables := (db_tables db)(n := None)\<rparr>)
      else Inl (quote_msg ''Table '' n '' does not exist''))"

definition get_table :: "rstr \<Rightarrow> 'ast database \<Rightarrow> table sres" where
  "get_table n db =
     (case db_tables db n of Some t \<Rightarrow> Inr t | None \<Rightarrow> Inl (quote_msg ''Table '' n '' does not exist''))"

text \<open>\<open>get_table_mut\<close>: the caller's change of the borrowed table.\<close>

definition modify_table :: "rstr \<Rightarrow> (table \<Rightarrow> table) \<Rightarrow> 'ast database \<Rightarrow> 'ast database sres" where
  "modify_table n f db = bind_res (get_table n db) (\<lambda>t. Inr (add_table n (f t) db))"

definition table_names :: "'ast database \<Rightarrow> rstr list" where
  "table_names db = sorted_list_of_set (dom (db_tables db))"

definition rename_table :: "rstr \<Rightarrow> rstr \<Rightarrow> 'ast database \<Rightarrow> 'ast database sres" where
  "rename_table old new db =
     (case db_tables db old of
        None \<Rightarrow> Inl (quote_msg ''Table '' old '' not found'')
      | Some t \<Rightarrow> Inr (db\<lparr>db_tables := ((db_tables db)(old := None))(new \<mapsto> t)\<rparr>))"

definition set_config :: "unicode \<Rightarrow> rstr \<Rightarrow> rstr \<Rightarrow> 'ast database \<Rightarrow> 'ast database" where
  "set_config U k v db = db\<lparr>db_config := (db_config db)(to_lowercase U k \<mapsto> v)\<rparr>"

definition get_config :: "rstr \<Rightarrow> 'ast database \<Rightarrow> rstr option" where
  "get_config k db = db_config db k"

definition db_clear :: "'ast database \<Rightarrow> 'ast database" where
  "db_clear db = db\<lparr>db_tables := Map.empty, db_views := Map.empty, db_cursors := Map.empty,
     db_prepared := Map.empty, db_cache := cache_clear (db_cache db)\<rparr>"

definition has_view :: "rstr \<Rightarrow> 'ast database \<Rightarrow> bool" where
  "has_view n db = (db_views db n \<noteq> None)"

definition create_view :: "rstr \<Rightarrow> rstr \<Rightarrow> 'ast database \<Rightarrow> 'ast database sres" where
  "create_view n sql db =
     (if has_table n db then Inl (quote_msg [] n '' is a table name'')
      else if has_view n db then Inl (quote_msg ''View '' n '' already exists'')
      else Inr (db\<lparr>db_views := (db_views db)(n \<mapsto> sql)\<rparr>))"

definition drop_view :: "rstr \<Rightarrow> 'ast database \<Rightarrow> 'ast database sres" where
  "drop_view n db =
     (if has_view n db then Inr (db\<lparr>db_views := (db_views db)(n := None)\<rparr>)
      else Inl (quote_msg ''View '' n '' does not exist''))"

definition get_view :: "rstr \<Rightarrow> 'ast database \<Rightarrow> rstr option" where
  "get_view n db = db_views db n"

definition view_names :: "'ast database \<Rightarrow> rstr list" where
  "view_names db = sorted_list_of_set (dom (db_views db))"

definition create_cursor :: "unicode \<Rightarrow> rstr \<Rightarrow> rstr \<Rightarrow> nat \<Rightarrow> 'ast database \<Rightarrow> 'ast database" where
  "create_cursor U n sql page db =
     db\<lparr>db_cursors := (db_cursors db)(to_lowercase U n \<mapsto> \<lparr>cur_sql = sql, cur_offset = 0, cur_page_size = page\<rparr>)\<rparr>"

definition drop_cursor :: "unicode \<Rightarrow> rstr \<Rightarrow> 'ast database \<Rightarrow> 'ast database sres" where
  "drop_cursor U n db =
     (if db_cursors db (to_lowercase U n) = None then Inl (quote_msg ''Cursor '' n '' not found'')
      else Inr (db\<lparr>db_cursors := (db_cursors db)(to_lowercase U n := None)\<rparr>))"

definition prepare :: "unicode \<Rightarrow> rstr \<Rightarrow> rstr \<Rightarrow> nat \<Rightarrow> 'ast database \<Rightarrow> 'ast database" where
  "prepare U n sql k db =
     db\<lparr>db_prepared := (db_prepared db)(to_lowercase U n \<mapsto> \<lparr>prep_sql = sql, prep_arg_count = k\<rparr>)\<rparr>"

definition drop_prepared :: "unicode \<Rightarrow> rstr \<Rightarrow> 'ast database \<Rightarrow> 'ast database sres" where
  "drop_prepared U n db =
     (if db_prepared db (to_lowercase U n) = None then Inl (quote_msg ''Prepared statement '' n '' not found'')
      else Inr (db\<lparr>db_prepared := (db_prepared db)(to_lowercase U n := None)\<rparr>))"

definition cached_parse :: "(rstr \<Rightarrow> 'e + 'ast) \<Rightarrow> rstr \<Rightarrow> 'ast database \<Rightarrow> ('e + 'ast) \<times> 'ast database" where
  "cached_parse parse sql db =
     (let (r, c) = get_or_parse parse sql (db_cache db) in (r, db\<lparr>db_cache := c\<rparr>))"

section \<open>What a transaction can undo\<close>

text \<open>The steps that leave the snapshot stack alone: every operation on tables, views and session
  state, the reset included.\<close>

inductive data_step :: "'ast database \<Rightarrow> 'ast database \<Rightarrow> bool" where
  step_add_table: "data_step db (add_table n t db)"
| step_create_table: "create_table n t db = Inr db' \<Longrightarrow> data_step db db'"
| step_drop_table: "drop_table n db = Inr db' \<Longrightarrow> data_step db db'"
| step_modify_table: "modify_table n f db = Inr db' \<Longrightarrow> data_step db db'"
| step_rename_table: "rename_table old new db = Inr db' \<Longrightarrow> data_step db db'"
| step_create_view: "create_view n sql db = Inr db' \<Longrightarrow> data_step db db'"
| step_drop_view: "drop_view n db = Inr db' \<Longrightarrow> data_step db db'"
| step_set_config: "data_step db (set_config U k v db)"
| step_create_cursor: "data_step db (create_cursor U n sql page db)"
| step_drop_cursor: "drop_cursor U n db = Inr db' \<Longrightarrow> data_step db db'"
| step_prepare: "data_step db (prepare U n sql k db)"
| step_drop_prepared: "drop_prepared U n db = Inr db' \<Longrightarrow> data_step db db'"
| step_parse: "data_step db (snd (cached_parse (parse :: rstr \<Rightarrow> rstr + 'ast) sql db))"
| step_rowid: "data_step db (db\<lparr>db_last_insert_rowid := r\<rparr>)"
| step_changes: "data_step db (db\<lparr>db_last_changes := k\<rparr>)"
| step_clear: "data_step db (db_clear db)"

text \<open>The work of one transaction: data steps and whole nested transactions.\<close>

inductive work :: "'ast database \<Rightarrow> 'ast database \<Rightarrow> bool" where
  work_none: "work db db"
| work_step: "work db db1 \<Longrightarrow> data_step db1 db2 \<Longrightarrow> work db db2"
| work_commit: "work db db1 \<Longrightarrow> work (db_begin db1) db2 \<Longrightarrow> db_commit db2 = Inr db3 \<Longrightarrow> work db db3"
| work_rollback: "work db db1 \<Longrightarrow> work (db_begin db1) db2 \<Longrightarrow> db_rollback db2 = Inr db3 \<Longrightarrow> work db db3"
| work_release: "work db db1 \<Longrightarrow> work (db_savepoint n db1) db2 \<Longrightarrow> db_release n db2 = Inr db3 \<Longrightarrow> work db db3"
| work_rollback_to: "work db db1 \<Longrightarrow> work (db_savepoint n db1) db2 \<Longrightarrow> db_rollback_to n db2 = Inr db3 \<Longrightarrow> work db db3"

lemma data_step_savepoints: "data_step db db' \<Longrightarrow> db_savepoints db' = db_savepoints db"
  by (induction rule: data_step.induct)
    (auto simp: add_table_def create_table_def drop_table_def modify_table_def rename_table_def create_view_def
      drop_view_def set_config_def create_cursor_def drop_cursor_def prepare_def drop_prepared_def
      cached_parse_def db_clear_def bind_res_Inr_iff split: if_splits option.splits prod.splits)

lemma rposition_last:
  assumes "P x" and "\<forall>y \<in> set zs. \<not> P y"
  shows "rposition P (xs @ x # zs) = Some (length xs)"
proof -
  have "position P (rev zs) = None" using assms(2) by (simp add: position_None)
  then have "position P (rev (xs @ x # zs)) = Some (length zs)"
    using assms(1) by (simp add: position_append)
  then show ?thesis by (simp add: rposition_def)
qed

lemma remove_nth_append: "remove_nth (length xs) (xs @ x # zs) = xs @ zs"
  by (simp add: remove_nth_def)

lemma release_split:
  "db_savepoints db = pre @ s # post \<Longrightarrow> snap_name s = Some n \<Longrightarrow> \<forall>s' \<in> set post. snap_name s' \<noteq> Some n \<Longrightarrow>
     db_release n db = Inr (db\<lparr>db_savepoints := pre @ post\<rparr>)"
  by (simp add: db_release_def rposition_last remove_nth_append)

lemma rollback_to_split:
  "db_savepoints db = pre @ s # post \<Longrightarrow> snap_name s = Some n \<Longrightarrow> \<forall>s' \<in> set post. snap_name s' \<noteq> Some n \<Longrightarrow>
     db_rollback_to n db = Inr (restore s (db\<lparr>db_savepoints := pre\<rparr>))"
  by (simp add: db_rollback_to_def rposition_last remove_nth_append nth_append)

lemma snap_simps [simp]:
  "snap_name (snap n db) = n" "snap_tables (snap n db) = db_tables db" "snap_views (snap n db) = db_views db"
  by (simp_all add: snap_def)

lemma restore_simps [simp]:
  "db_savepoints (restore s db) = db_savepoints db"
  "db_tables (restore s db) = snap_tables s" "db_views (restore s db) = snap_views s"
  by (simp_all add: restore_def)

lemma work_savepoints: "work db db' \<Longrightarrow> db_savepoints db' = db_savepoints db"
proof (induction rule: work.induct)
  case (work_step db db1 db2)
  then show ?case by (simp add: data_step_savepoints)
next
  case (work_commit db db1 db2 db3)
  then have "db_savepoints db2 = db_savepoints db @ [snap None db1]" by (simp add: db_begin_def)
  with work_commit.hyps show ?case by (auto simp: db_commit_def)
next
  case (work_rollback db db1 db2 db3)
  then have "db_savepoints db2 = db_savepoints db @ [snap None db1]" by (simp add: db_begin_def)
  with work_rollback.hyps show ?case by (auto simp: db_rollback_def)
next
  case (work_release db db1 n db2 db3)
  then have "db_savepoints db2 = db_savepoints db @ snap (Some n) db1 # []" by (simp add: db_savepoint_def)
  from release_split [OF this] work_release.hyps show ?case by auto
next
  case (work_rollback_to db db1 n db2 db3)
  then have "db_savepoints db2 = db_savepoints db @ snap (Some n) db1 # []" by (simp add: db_savepoint_def)
  from rollback_to_split [OF this] work_rollback_to.hyps show ?case by auto
qed simp

lemma rollback_after_work:
  assumes "work (db_begin db) db'"
  shows "\<exists>db''. db_rollback db' = Inr db'' \<and> db_tables db'' = db_tables db \<and> db_views db'' = db_views db \<and>
    db_savepoints db'' = db_savepoints db"
  using work_savepoints [OF assms] by (simp add: db_rollback_def db_begin_def)

lemma commit_after_work:
  assumes "work (db_begin db) db'"
  shows "\<exists>db''. db_commit db' = Inr db'' \<and> db_tables db'' = db_tables db' \<and> db_views db'' = db_views db' \<and>
    db_savepoints db'' = db_savepoints db"
  using work_savepoints [OF assms] by (simp add: db_commit_def db_begin_def)

lemma rollback_to_after_work:
  assumes "work (db_savepoint n db) db1" and "db_savepoints db2 = db_savepoints db1 @ later"
    and "\<forall>s \<in> set later. snap_name s \<noteq> Some n"
  shows "\<exists>db'. db_rollback_to n db2 = Inr db' \<and> db_tables db' = db_tables db \<and> db_views db' = db_views db \<and>
    db_savepoints db' = db_savepoints db"
proof -
  have "db_savepoints db2 = db_savepoints db @ snap (Some n) db # later"
    using work_savepoints [OF assms(1)] assms(2) by (simp add: db_savepoint_def)
  from rollback_to_split [OF this _ assms(3)] show ?thesis by simp
qed

section \<open>Table and view names\<close>

text \<open>Tables and views do not share a name as long as tables are made by \<open>create_table\<close>
  under a name no view has.\<close>

lemma table_names_sorted:
  "finite (dom (db_tables db)) \<Longrightarrow> sorted (table_names db) \<and> distinct (table_names db) \<and>
     (n \<in> set (table_names db) \<longleftrightarrow> has_table n db)"
  by (auto simp: table_names_def has_table_def)

end
