(* ===== verification/Binary.thy ===== *)
theory Binary
  imports Database
begin

text \<open>
  \<open>serialize/binary.rs\<close>: the save file.  A byte is a \<open>char\<close> (HOL's 8-bit type), so a string is
  written as itself.  The readers take the whole file and a position, as the code does.  A reader
  and a writer that belong together form a codec: reading at the position where a value was
  written gives the value and the position after it, whatever surrounds it.
\<close>

type_synonym bytes = "char list"

section \<open>Little-endian integers\<close>

fun le_bytes :: "nat \<Rightarrow> nat \<Rightarrow> bytes" where
  "le_bytes 0 n = []"
| "le_bytes (Suc k) n = char_of (n mod 256) # le_bytes k (n div 256)"

fun le_val :: "bytes \<Rightarrow> nat" where
  "le_val [] = 0"
| "le_val (b # bs) = of_char b + 256 * le_val bs"

definition slice :: "bytes \<Rightarrow> nat \<Rightarrow> nat \<Rightarrow> bytes" where
  "slice data from len = take len (drop from data)"

lemma length_le_bytes [simp]: "length (le_bytes k n) = k"
  by (induction k arbitrary: n) simp_all

lemma le_val_le_bytes: "n < 256 ^ k \<Longrightarrow> le_val (le_bytes k n) = n"
proof (induction k arbitrary: n)
  case (Suc k)
  then have "n div 256 < 256 ^ k" by (simp add: less_mult_imp_div_less mult.commute)
  with Suc.IH have "le_val (le_bytes k (n div 256)) = n div 256" by blast
  then show ?case by simp
qed simp

lemma slice_append [simp]: "slice (pre @ xs) (length pre) n = take n xs"
  by (simp add: slice_def)

section \<open>Checksum\<close>

text \<open>FNV-1a, 64 bit.\<close>

definition fnv_offset :: u64 where "fnv_offset = 0xcbf29ce484222325"
definition fnv_prime :: u64 where "fnv_prime = 0x00000100000001b3"

definition checksum :: "bytes \<Rightarrow> u64" where
  "checksum data = foldl (\<lambda>hash b. xor hash (of_nat (of_char b)) * fnv_prime) fnv_offset data"

section \<open>Writing\<close>

definition binary_magic :: bytes where "binary_magic = ''A3SQ''"
definition binary_version :: nat where "binary_version = 3"
definition checksum_len :: nat where "checksum_len = 8"

definition u32_le :: "nat \<Rightarrow> bytes" where
  "u32_le n = le_bytes 4 (n mod 2 ^ 32)"

definition u64_le :: "u64 \<Rightarrow> bytes" where
  "u64_le w = le_bytes 8 (unat w)"

definition byte :: "nat \<Rightarrow> char" where
  "byte n = char_of n"

definition write_bin_str :: "rstr \<Rightarrow> bytes" where
  "write_bin_str s = u32_le (length s) @ s"

fun col_type_tag :: "column_type \<Rightarrow> nat" where
  "col_type_tag TBool = 0"
| "col_type_tag TInt = 1"
| "col_type_tag TFloat = 2"
| "col_type_tag TString = 3"
| "col_type_tag TStrings = 4"
| "col_type_tag TFloats = 5"

fun write_bin_value :: "db_value \<Rightarrow> bytes" where
  "write_bin_value DNull = [byte 0]"
| "write_bin_value (DBool b) = [byte 1, byte (if b then 1 else 0)]"
| "write_bin_value (DInt n) = byte 2 # u64_le n"
| "write_bin_value (DFloat f) = byte 3 # u64_le f"
| "write_bin_value (DString s) = byte 4 # write_bin_str s"
| "write_bin_value (DStrings arr) = byte 5 # u32_le (length arr) @ concat (map write_bin_str arr)"
| "write_bin_value (DFloats arr) = byte 6 # u32_le (length arr) @ concat (map u64_le arr)"

definition column_flags :: "column \<Rightarrow> nat" where
  "column_flags c =
     (if col_auto_increment c then 1 else 0) + (if col_not_null c then 2 else 0) +
     (if col_unique c then 4 else 0) + (if col_default c \<noteq> None then 8 else 0) +
     (if col_default_expr c \<noteq> None then 16 else 0)"

text \<open>The text of a default expression is the parser library's; it is an argument.\<close>

definition write_bin_column :: "(sql_expr \<Rightarrow> rstr) \<Rightarrow> column \<Rightarrow> bytes" where
  "write_bin_column disp c =
     write_bin_str (col_name c) @ [byte (col_type_tag (col_dtype c)), byte (if col_primary_key c then 1 else 0),
       byte (column_flags c)] @
     (case col_default c of None \<Rightarrow> [] | Some d \<Rightarrow> write_bin_value d) @
     (case col_default_expr c of None \<Rightarrow> [] | Some e \<Rightarrow> write_bin_str (disp e))"

definition write_bin_row :: "row \<Rightarrow> bytes" where
  "write_bin_row r = concat (map write_bin_value r)"

definition write_bin_table :: "(sql_expr \<Rightarrow> rstr) \<Rightarrow> table \<Rightarrow> bytes" where
  "write_bin_table disp t =
     write_bin_str (tbl_name t) @ u32_le (length (tbl_columns t)) @
     concat (map (write_bin_column disp) (tbl_columns t)) @ u64_le (tbl_next_auto_inc t) @
     u32_le (length (tbl_rows t)) @ concat (map write_bin_row (tbl_rows t))"

definition export_binary :: "(sql_expr \<Rightarrow> rstr) \<Rightarrow> 'ast database \<Rightarrow> bytes" where
  "export_binary disp db =
     (let names = table_names db;
          buf = binary_magic @ [byte binary_version] @ u32_le (length names) @
            concat (map (\<lambda>n. case get_table n db of Inr t \<Rightarrow> write_bin_table disp t | Inl _ \<Rightarrow> []) names)
      in buf @ u64_le (checksum buf))"

section \<open>Reading\<close>

definition dtype_from_tag :: "nat \<Rightarrow> column_type sres" where
  "dtype_from_tag t =
     (if t = 0 then Inr TBool else if t = 1 then Inr TInt else if t = 2 then Inr TFloat
      else if t = 3 then Inr TString else if t = 4 then Inr TStrings else if t = 5 then Inr TFloats
      else Inl (''Unknown column type tag: '' @ dec_nat t))"

definition read_u32 :: "rstr \<Rightarrow> bytes \<Rightarrow> nat \<Rightarrow> (nat \<times> nat) sres" where
  "read_u32 err data pos =
     (if length data < pos + 4 then Inl err else Inr (le_val (slice data pos 4), pos + 4))"

definition read_u64 :: "rstr \<Rightarrow> bytes \<Rightarrow> nat \<Rightarrow> (u64 \<times> nat) sres" where
  "read_u64 err data pos =
     (if length data < pos + 8 then Inl err else Inr (of_nat (le_val (slice data pos 8)), pos + 8))"

definition read_bin_str :: "bytes \<Rightarrow> nat \<Rightarrow> (rstr \<times> nat) sres" where
  "read_bin_str data pos =
     bind_res (read_u32 ''Truncated binary: string length'' data pos) (\<lambda>(len, start).
       if length data < start + len then Inl ''Truncated binary: string data''
       else let s = slice data start len
            in if valid_utf8 (bytes_of s) then Inr (s, start + len) else Inl ''Invalid UTF-8 in binary'')"

text \<open>The counted loops of the readers.\<close>

fun read_n :: "(bytes \<Rightarrow> nat \<Rightarrow> ('a \<times> nat) sres) \<Rightarrow> nat \<Rightarrow> bytes \<Rightarrow> nat \<Rightarrow> ('a list \<times> nat) sres" where
  "read_n rd 0 data pos = Inr ([], pos)"
| "read_n rd (Suc k) data pos =
     bind_res (rd data pos) (\<lambda>(x, p). bind_res (read_n rd k data p) (\<lambda>(xs, q). Inr (x # xs, q)))"

definition read_bin_value :: "bytes \<Rightarrow> nat \<Rightarrow> (db_value \<times> nat) sres" where
  "read_bin_value data pos =
     (if length data \<le> pos then Inl ''Truncated binary: value tag''
      else let tag = of_char (data ! pos) :: nat
        in if tag = 0 then Inr (DNull, pos + 1)
           else if tag = 1
             then if length data < pos + 2 then Inl ''Truncated binary: bool''
                  else Inr (DBool (data ! (pos + 1) \<noteq> byte 0), pos + 2)
           else if tag = 2
             then bind_res (read_u64 ''Truncated binary: int'' data (pos + 1)) (\<lambda>(n, p). Inr (DInt n, p))
           else if tag = 3
             then bind_res (read_u64 ''Truncated binary: float'' data (pos + 1)) (\<lambda>(f, p). Inr (DFloat f, p))
           else if tag = 4
             then bind_res (read_bin_str data (pos + 1)) (\<lambda>(s, p). Inr (DString s, p))
           else if tag = 5
             then bind_res (read_u32 ''Truncated binary: strings count'' data (pos + 1)) (\<lambda>(n, p).
                    bind_res (read_n read_bin_str n data p) (\<lambda>(arr, q). Inr (DStrings arr, q)))
           else if tag = 6
             then bind_res (read_u32 ''Truncated binary: floats count'' data (pos + 1)) (\<lambda>(n, p).
                    bind_res (read_n (read_u64 ''Truncated binary: float value'') n data p) (\<lambda>(arr, q).
                      Inr (DFloats arr, q)))
           else Inl (''Unknown binary value tag: '' @ dec_nat tag))"

definition read_default :: "nat \<Rightarrow> bytes \<Rightarrow> nat \<Rightarrow> (db_value option \<times> nat) sres" where
  "read_default flags data pos =
     (if bit flags 3 then bind_res (read_bin_value data pos) (\<lambda>(v, p). Inr (Some v, p)) else Inr (None, pos))"

text \<open>A default expression is read back as an identifier with its text.\<close>

definition read_default_expr :: "nat \<Rightarrow> bytes \<Rightarrow> nat \<Rightarrow> (sql_expr option \<times> nat) sres" where
  "read_default_expr flags data pos =
     (if bit flags 4 then bind_res (read_bin_str data pos) (\<lambda>(s, p). Inr (Some (Identifier s), p))
      else Inr (None, pos))"

definition read_bin_column :: "nat \<Rightarrow> bytes \<Rightarrow> nat \<Rightarrow> (column \<times> nat) sres" where
  "read_bin_column version data pos0 =
     bind_res (read_bin_str data pos0) (\<lambda>(name, pos).
       if length data < pos + 2 then Inl ''Truncated binary: column def''
       else bind_res (dtype_from_tag (of_char (data ! pos))) (\<lambda>dtype.
         let pk = (data ! (pos + 1) \<noteq> byte 0); p = pos + 2
         in if 3 \<le> version
            then if length data \<le> p then Inl ''Truncated binary: column flags''
                 else let flags = of_char (data ! p) :: nat
                   in bind_res (read_default flags data (p + 1)) (\<lambda>(def, q).
                        bind_res (read_default_expr flags data q) (\<lambda>(expr, q').
                          Inr (\<lparr>col_name = name, col_dtype = dtype, col_primary_key = pk, col_not_null = bit flags 1,
                                col_default = def, col_default_expr = expr, col_auto_increment = bit flags 0,
                                col_unique = bit flags 2\<rparr>, q')))
            else Inr ((plain_column name dtype)\<lparr>col_primary_key := pk\<rparr>, p)))"

definition read_bin_row :: "nat \<Rightarrow> bytes \<Rightarrow> nat \<Rightarrow> (row \<times> nat) sres" where
  "read_bin_row ncols = read_n read_bin_value ncols"

text \<open>Rows are inserted as they are read; a panic of an insert is \<open>None\<close>.\<close>

fun read_bin_rows :: "eval_env \<Rightarrow> nat \<Rightarrow> bytes \<Rightarrow> nat \<Rightarrow> table \<Rightarrow> (table \<times> nat) sres panicking" where
  "read_bin_rows E 0 data pos t = Some (Inr (t, pos))"
| "read_bin_rows E (Suc k) data pos t =
     (case read_bin_row (col_count t) data pos of
        Inl e \<Rightarrow> Some (Inl e)
      | Inr (row, p) \<Rightarrow>
          (case insert_row E row t of
             None \<Rightarrow> None
           | Some (Inl e) \<Rightarrow> Some (Inl (''Binary import: '' @ error_message e))
           | Some (Inr t') \<Rightarrow> read_bin_rows E k data p t'))"

definition read_bin_table :: "eval_env \<Rightarrow> nat \<Rightarrow> bytes \<Rightarrow> nat \<Rightarrow> 'ast database \<Rightarrow> ('ast database \<times> nat) sres panicking" where
  "read_bin_table E version data pos0 db =
     (case bind_res (read_bin_str data pos0) (\<lambda>(name, p1).
             bind_res (read_u32 ''Truncated binary: column count'' data p1) (\<lambda>(ncols, p2).
             bind_res (read_n (read_bin_column version) ncols data p2) (\<lambda>(cols, p3).
             bind_res (new_table name cols) (\<lambda>t.
             bind_res (if 3 \<le> version
                       then bind_res (read_u64 ''Truncated binary: next_auto_inc'' data p3) (\<lambda>(n, p).
                              Inr (t\<lparr>tbl_next_auto_inc := n\<rparr>, p))
                       else Inr (t, p3)) (\<lambda>(t', p4).
             bind_res (read_u32 ''Truncated binary: row count'' data p4) (\<lambda>(nrows, p5).
               Inr (name, t', nrows, p5))))))) of
        Inl e \<Rightarrow> Some (Inl e)
      | Inr (name, t, nrows, pos) \<Rightarrow>
          map_option (\<lambda>r. bind_res r (\<lambda>(t', p). bind_res (create_table name t' db) (\<lambda>db'. Inr (db', p))))
            (read_bin_rows E nrows data pos t))"

text \<open>The loop over the tables: what was loaded before an error stays loaded.\<close>

fun read_bin_tables :: "eval_env \<Rightarrow> nat \<Rightarrow> nat \<Rightarrow> bytes \<Rightarrow> nat \<Rightarrow> 'ast database
    \<Rightarrow> (string option \<times> 'ast database) panicking" where
  "read_bin_tables E version 0 data pos db = Some (None, db)"
| "read_bin_tables E version (Suc k) data pos db =
     (case read_bin_table E version data pos db of
        None \<Rightarrow> None
      | Some (Inl e) \<Rightarrow> Some (Some e, db)
      | Some (Inr (db', p)) \<Rightarrow> read_bin_tables E version k data p db')"

fun hex_nat :: "nat \<Rightarrow> rstr" where
  "hex_nat n = (if n < 16 then [hex_digit n] else hex_nat (n div 16) @ [hex_digit (n mod 16)])"

declare hex_nat.simps [simp del]

text \<open>\<open>import_binary\<close>: the error, if any, and the database as it is left.\<close>

definition import_binary :: "eval_env \<Rightarrow> bytes \<Rightarrow> 'ast database \<Rightarrow> (string option \<times> 'ast database) panicking" where
  "import_binary E data db =
     (if length data < 5 + checksum_len then Some (Some ''Binary data too short'', db)
      else if take 4 data \<noteq> binary_magic then Some (Some ''Invalid binary magic'', db)
      else let version = of_char (data ! 4) :: nat; payload_end = length data - checksum_len
        in if version = 1
           then Some (Some ''Binary version 0x01 is unsupported (pre-1.0). Re-save from a working a3sql instance to migrate.'', db)
           else if binary_version < version
           then Some (Some (''Save file uses format v0x'' @ hex_nat version @ '', this build supports v0x'' @
                  hex_nat binary_version @ '' '' @ str_of [226, 128, 148] @ '' upgrade a3sql to load it.''), db)
           else if checksum (take payload_end data) \<noteq> of_nat (le_val (drop payload_end data))
           then Some (Some (''Checksum mismatch '' @ str_of [226, 128, 148] @ '' save file is corrupt or truncated.''), db)
           else if payload_end < 5 + 4 then Some (Some ''Truncated binary data'', db)
           else read_bin_tables E version (le_val (slice data 5 4)) data 9 db)"

end
