(* ===== verification/BinaryRoundtrip.thy ===== *)
theory BinaryRoundtrip
  imports Binary
begin

text \<open>
  Loading what was saved.  Each pair of reader and writer is a codec (a locale), the codecs are
  composed the way the format is, and the composition gives the round trip of a whole database.
\<close>

section \<open>Codecs\<close>

text \<open>The bytes \<open>xs\<close> stand in \<open>data\<close> at \<open>pos\<close>.\<close>

definition written :: "bytes \<Rightarrow> nat \<Rightarrow> bytes \<Rightarrow> bool" where
  "written data pos xs \<longleftrightarrow> pos + length xs \<le> length data \<and> slice data pos (length xs) = xs"

lemma written_append:
  "written data pos (xs @ ys) \<Longrightarrow> written data pos xs \<and> written data (pos + length xs) ys"
  by (auto simp: written_def slice_def take_add append_eq_append_conv add.commute)

lemma written_Cons:
  assumes "written data pos (x # xs)"
  shows "pos < length data" and "data ! pos = x" and "written data (pos + 1) xs"
proof -
  show l: "pos < length data" using assms by (simp add: written_def)
  then have d: "drop pos data = data ! pos # drop (Suc pos) data" by (rule Cons_nth_drop_Suc [symmetric])
  then show "data ! pos = x" "written data (pos + 1) xs"
    using assms by (auto simp: written_def slice_def)
qed

lemma written_here: "written (pre @ xs @ post) (length pre) xs"
  by (simp add: written_def)

locale codec =
  fixes wr :: "'a \<Rightarrow> bytes" and rd :: "bytes \<Rightarrow> nat \<Rightarrow> ('a \<times> nat) sres" and ok :: "'a \<Rightarrow> bool"
  assumes round: "ok a \<Longrightarrow> written data pos (wr a) \<Longrightarrow> rd data pos = Inr (a, pos + length (wr a))"
begin

lemma round_list:
  "\<forall>a \<in> set as. ok a \<Longrightarrow> written data pos (concat (map wr as)) \<Longrightarrow>
     read_n rd (length as) data pos = Inr (as, pos + length (concat (map wr as)))"
proof (induction as arbitrary: pos)
  case (Cons a as)
  then have w: "written data pos (wr a)" "written data (pos + length (wr a)) (concat (map wr as))"
    using written_append [of data pos "wr a" "concat (map wr as)"] by auto
  have "rd data pos = Inr (a, pos + length (wr a))" using Cons.prems(1) w(1) by (intro round) simp_all
  moreover have "read_n rd (length as) data (pos + length (wr a)) =
      Inr (as, pos + length (wr a) + length (concat (map wr as)))"
    using Cons.prems(1) w(2) by (intro Cons.IH) simp_all
  ultimately show ?case by (simp add: add.assoc)
qed simp

end

lemma u32_le_length [simp]: "length (u32_le n) = 4" and u64_le_length [simp]: "length (u64_le w) = 8"
  by (simp_all add: u32_le_def u64_le_def)

interpretation u32: codec u32_le "read_u32 err" "\<lambda>n. n < 2 ^ 32"
proof
  fix n data pos
  assume n: "n < (2 :: nat) ^ 32" and w: "written data pos (u32_le n)"
  have "le_val (u32_le n) = n" using n le_val_le_bytes [of n 4] by (simp add: u32_le_def)
  with w show "read_u32 err data pos = Inr (n, pos + length (u32_le n))"
    by (simp add: read_u32_def written_def)
qed

interpretation u64: codec u64_le "read_u64 err" "\<lambda>w. True"
proof
  fix x :: u64 and data pos
  assume w: "written data pos (u64_le x)"
  have "unat x < 256 ^ 8" using unsigned_less [of x, where ?'a = nat] by simp
  then have "le_val (u64_le x) = unat x" by (simp add: u64_le_def le_val_le_bytes)
  with w show "read_u64 err data pos = Inr (x, pos + length (u64_le x))"
    by (simp add: read_u64_def written_def)
qed

text \<open>A text that Rust can hold and whose length fits the format.\<close>

definition str_ok :: "rstr \<Rightarrow> bool" where
  "str_ok s \<longleftrightarrow> length s < 2 ^ 32 \<and> valid_utf8 (bytes_of s)"

interpretation str: codec write_bin_str read_bin_str str_ok
proof
  fix s data pos
  assume s: "str_ok s" and w: "written data pos (write_bin_str s)"
  from w have w1: "written data pos (u32_le (length s))" and w2: "written data (pos + 4) s"
    using written_append [of data pos "u32_le (length s)" s] by (simp_all add: write_bin_str_def)
  show "read_bin_str data pos = Inr (s, pos + length (write_bin_str s))"
    using s w2 u32.round [OF _ w1] by (simp add: read_bin_str_def str_ok_def written_def write_bin_str_def)
qed

fun value_ok :: "db_value \<Rightarrow> bool" where
  "value_ok (DString s) = str_ok s"
| "value_ok (DStrings arr) = (length arr < 2 ^ 32 \<and> list_all str_ok arr)"
| "value_ok (DFloats arr) = (length arr < 2 ^ 32)"
| "value_ok _ = True"

lemma of_char_byte [simp]: "n < 256 \<Longrightarrow> (of_char (byte n) :: nat) = n"
  by (simp add: byte_def)

lemma byte_inject: "a < 256 \<Longrightarrow> b < 256 \<Longrightarrow> byte a = byte b \<longleftrightarrow> a = b"
  by (metis of_char_byte)

lemma read_value_tag:
  "written data pos (byte k # xs) \<Longrightarrow> k < 256 \<Longrightarrow>
     \<not> length data \<le> pos \<and> (of_char (data ! pos) :: nat) = k \<and> written data (Suc pos) xs"
  using written_Cons [of data pos "byte k" xs] by simp

interpretation val: codec write_bin_value read_bin_value value_ok
proof
  fix v data pos
  assume ok: "value_ok v" and w: "written data pos (write_bin_value v)"
  show "read_bin_value data pos = Inr (v, pos + length (write_bin_value v))"
  proof (cases v)
    case DNull
    then show ?thesis using w read_value_tag [of data pos 0 "[]"] by (simp add: read_bin_value_def)
  next
    case (DBool b)
    note t = read_value_tag [of data pos 1 "[byte (if b then 1 else 0)]"]
    have "length data \<ge> pos + 2" "data ! (pos + 1) = byte (if b then 1 else 0)"
      using w t written_Cons [of data "Suc pos" "byte (if b then 1 else 0)" "[]"] DBool by simp_all
    then show ?thesis using w t DBool by (simp add: read_bin_value_def byte_inject)
  next
    case (DInt n)
    note t = read_value_tag [of data pos 2 "u64_le n"]
    then show ?thesis using w DInt u64.round [of data "Suc pos" n] by (simp add: read_bin_value_def)
  next
    case (DFloat n)
    note t = read_value_tag [of data pos 3 "u64_le n"]
    then show ?thesis using w DFloat u64.round [of data "Suc pos" n] by (simp add: read_bin_value_def)
  next
    case (DString s)
    note t = read_value_tag [of data pos 4 "write_bin_str s"]
    then show ?thesis using w ok DString str.round [of s data "Suc pos"] by (simp add: read_bin_value_def)
  next
    case (DStrings arr)
    have w': "written data (Suc pos) (u32_le (length arr) @ concat (map write_bin_str arr))"
      and t: "\<not> length data \<le> pos" "(of_char (data ! pos) :: nat) = 5"
      using read_value_tag [of data pos 5] w DStrings by simp_all
    from written_append [OF w'] have "written data (Suc pos) (u32_le (length arr))"
      and "written data (Suc pos + 4) (concat (map write_bin_str arr))" by simp_all
    then show ?thesis
      using t ok DStrings u32.round [of "length arr" data "Suc pos"] str.round_list [of arr data "Suc pos + 4"]
      by (simp add: read_bin_value_def list_all_iff)
  next
    case (DFloats arr)
    have w': "written data (Suc pos) (u32_le (length arr) @ concat (map u64_le arr))"
      and t: "\<not> length data \<le> pos" "(of_char (data ! pos) :: nat) = 6"
      using read_value_tag [of data pos 6] w DFloats by simp_all
    from written_append [OF w'] have "written data (Suc pos) (u32_le (length arr))"
      and "written data (Suc pos + 4) (concat (map u64_le arr))" by simp_all
    then show ?thesis
      using t ok DFloats u32.round [of "length arr" data "Suc pos"] u64.round_list [of arr data "Suc pos + 4"]
      by (simp add: read_bin_value_def list_all_iff)
  qed
qed

interpretation row: codec write_bin_row "read_bin_row n" "\<lambda>r. length r = n \<and> list_all value_ok r"
  by unfold_locales (auto simp: write_bin_row_def read_bin_row_def list_all_iff intro: val.round_list)

section \<open>Columns\<close>

text \<open>A column whose default expression, if any, is an identifier: the only ones that come back.\<close>

definition column_ok :: "(sql_expr \<Rightarrow> rstr) \<Rightarrow> column \<Rightarrow> bool" where
  "column_ok disp c \<longleftrightarrow>
     str_ok (col_name c) \<and> (\<forall>d. col_default c = Some d \<longrightarrow> value_ok d) \<and>
     (\<forall>e. col_default_expr c = Some e \<longrightarrow> str_ok (disp e) \<and> e = Identifier (disp e))"

lemma column_flags_less: "column_flags c < 256"
  by (simp add: column_flags_def)

lemma column_flags_bits:
  "bit (column_flags c) 0 = col_auto_increment c" "bit (column_flags c) (Suc 0) = col_not_null c"
  "bit (column_flags c) 2 = col_unique c" "bit (column_flags c) 3 = (col_default c \<noteq> None)"
  "bit (column_flags c) 4 = (col_default_expr c \<noteq> None)"
  by (simp_all add: column_flags_def bit_iff_odd)

lemma dtype_from_tag_tag: "dtype_from_tag (col_type_tag t) = Inr t"
  by (cases t) (simp_all add: dtype_from_tag_def)

lemma col_type_tag_less: "col_type_tag t < 256"
  by (cases t) simp_all

interpretation col: codec "write_bin_column disp" "read_bin_column 3" "column_ok disp"
proof
  fix c data pos
  assume ok: "column_ok disp c" and w: "written data pos (write_bin_column disp c)"
  let ?d = "case col_default c of None \<Rightarrow> [] | Some d \<Rightarrow> write_bin_value d"
  let ?e = "case col_default_expr c of None \<Rightarrow> [] | Some e \<Rightarrow> write_bin_str (disp e)"
  let ?p = "pos + length (write_bin_str (col_name c))"
  from w have wn: "written data pos (write_bin_str (col_name c))"
    and w1: "written data ?p (byte (col_type_tag (col_dtype c)) # byte (if col_primary_key c then 1 else 0) #
       byte (column_flags c) # ?d @ ?e)"
    using written_append [of data pos "write_bin_str (col_name c)"] by (simp_all add: write_bin_column_def)
  note w2 = written_Cons(3) [OF w1] note w3 = written_Cons(3) [OF w2] note w4 = written_Cons(3) [OF w3]
  have wd: "written data (?p + 3) ?d" and we: "written data (?p + 3 + length ?d) ?e"
  proof -
    have "?p + 1 + 1 + 1 = ?p + 3" by simp
    then have "written data (?p + 3) (?d @ ?e)" using w4 by (simp only:)
    from written_append [OF this] show "written data (?p + 3) ?d" "written data (?p + 3 + length ?d) ?e" by blast+
  qed
  have d: "read_default (column_flags c) data (?p + 3) = Inr (col_default c, ?p + 3 + length ?d)"
    using ok wd val.round [of _ data "?p + 3"]
    by (cases "col_default c") (auto simp: read_default_def column_flags_bits column_ok_def)
  have e: "read_default_expr (column_flags c) data (?p + 3 + length ?d) =
      Inr (col_default_expr c, ?p + 3 + length ?d + length ?e)"
    using ok we str.round [of _ data "?p + 3 + length ?d"]
    by (cases "col_default_expr c") (auto simp: read_default_expr_def column_flags_bits column_ok_def)
  have b: "data ! ?p = byte (col_type_tag (col_dtype c))" "data ! Suc ?p = byte (if col_primary_key c then 1 else 0)"
    "data ! Suc (Suc ?p) = byte (column_flags c)" "Suc (Suc ?p) < length data"
    using written_Cons(2) [OF w1] written_Cons(2) [OF w2] written_Cons(2) [OF w3] written_Cons(1) [OF w3] by simp_all
  have n: "read_bin_str data pos = Inr (col_name c, ?p)"
    using ok wn by (intro str.round) (simp_all add: column_ok_def)
  show "read_bin_column 3 data pos = Inr (c, pos + length (write_bin_column disp c))"
    using n b d e
    by (simp add: read_bin_column_def dtype_from_tag_tag col_type_tag_less column_flags_less column_flags_bits
        byte_inject numeral_3_eq_3 Let_def write_bin_column_def)
qed

section \<open>Tables\<close>

text \<open>A stored row goes through \<open>insert\<close> unchanged when no NULL meets a default.\<close>

definition no_default_for_null :: "column list \<Rightarrow> row \<Rightarrow> bool" where
  "no_default_for_null cols r \<longleftrightarrow>
     list_all2 (\<lambda>c v. v = DNull \<longrightarrow> col_default c = None \<and> col_default_expr c = None) cols r"

lemma coerced_DNull [simp]: "coerced t DNull = DNull"
  by simp

lemma fill_cell_id:
  "has_type (col_dtype c) v \<Longrightarrow> (col_not_null c \<longrightarrow> v \<noteq> DNull) \<Longrightarrow>
   (v = DNull \<longrightarrow> col_default c = None \<and> col_default_expr c = None) \<Longrightarrow> fill_cell E c v = pok v"
  using has_type_coerced [of "col_dtype c" v] has_type_matches [of "col_dtype c" v]
  by (auto simp: fill_cell_def Let_def)

lemma fill_row_id: "row_ok cols r \<Longrightarrow> no_default_for_null cols r \<Longrightarrow> fill_row E cols r = pok r"
proof (induction cols arbitrary: r)
  case Nil
  then show ?case by (simp add: row_ok_def)
next
  case (Cons c cols)
  then obtain v vs where "r = v # vs" by (auto simp: row_ok_def list_all2_Cons1)
  with Cons show ?case by (auto simp: row_ok_def no_default_for_null_def fill_cell_id)
qed

lemma row_ok_null_pk: "row_ok cols r \<Longrightarrow> null_pk_column cols r = None"
  by (auto simp: row_ok_def null_pk_column_def find_None_iff list_all2_iff)

text \<open>What a save keeps of a table.\<close>

definition same_data :: "table \<Rightarrow> table \<Rightarrow> bool" where
  "same_data t t' \<longleftrightarrow> tbl_name t' = tbl_name t \<and> tbl_columns t' = tbl_columns t \<and> tbl_rows t' = tbl_rows t \<and>
     tbl_next_auto_inc t' = tbl_next_auto_inc t"

lemma update_indices_insert_meta:
  "update_indices_insert U i t = Some t' \<Longrightarrow> tbl_name t' = tbl_name t \<and> tbl_next_auto_inc t' = tbl_next_auto_inc t"
  by (auto simp: update_indices_insert_def split: if_splits)

lemma insert_row_meta:
  "insert_row E r t = pok t' \<Longrightarrow> tbl_name t' = tbl_name t \<and> tbl_next_auto_inc t' = tbl_next_auto_inc t"
  by (auto simp: insert_row_def pbind_Inr_iff commit_row_def Let_def dest!: update_indices_insert_meta
      split: if_splits option.splits)

lemma reinsert:
  assumes "wf_table (env_unicode E) t" and "row_ok (tbl_columns t) r" and "no_default_for_null (tbl_columns t) r"
    and "fits (tbl_columns t) (tbl_rows t) r"
  shows "\<exists>t'. insert_row E r t = pok t' \<and> wf_table (env_unicode E) t' \<and> tbl_rows t' = tbl_rows t @ [r] \<and>
    tbl_columns t' = tbl_columns t \<and> tbl_name t' = tbl_name t \<and> tbl_next_auto_inc t' = tbl_next_auto_inc t"
proof -
  have "length r = length (tbl_columns t)" using assms(2) by (simp add: row_ok_def list_all2_lengthD)
  from insert_row_cases(3) [OF assms(1) this fill_row_id [OF assms(2,3)] row_ok_null_pk [OF assms(2)] assms(4)]
  obtain t' where "insert_row E r t = pok t'" "wf_table (env_unicode E) t'" "tbl_rows t' = tbl_rows t @ [r]"
    "tbl_columns t' = tbl_columns t" by blast
  with insert_row_meta [of E r t t'] show ?thesis by blast
qed

lemma read_rows_written:
  assumes "wf_table (env_unicode E) t" and "sorted_wrt (apart (tbl_columns t)) (tbl_rows t @ rs)"
    and "\<forall>r \<in> set rs. row_ok (tbl_columns t) r \<and> no_default_for_null (tbl_columns t) r \<and> list_all value_ok r"
    and "written data pos (concat (map write_bin_row rs))"
  shows "\<exists>t'. read_bin_rows E (length rs) data pos t =
      Some (Inr (t', pos + length (concat (map write_bin_row rs)))) \<and> wf_table (env_unicode E) t' \<and>
    tbl_rows t' = tbl_rows t @ rs \<and> tbl_columns t' = tbl_columns t \<and> tbl_name t' = tbl_name t \<and>
    tbl_next_auto_inc t' = tbl_next_auto_inc t"
  using assms
proof (induction rs arbitrary: pos t)
  case (Cons r rs)
  let ?p = "pos + length (write_bin_row r)"
  have w: "written data pos (write_bin_row r)" "written data ?p (concat (map write_bin_row rs))"
    using Cons.prems(4) written_append [of data pos "write_bin_row r" "concat (map write_bin_row rs)"] by simp_all
  have rok: "row_ok (tbl_columns t) r" "no_default_for_null (tbl_columns t) r" "list_all value_ok r"
    using Cons.prems(3) by simp_all
  then have "length r = col_count t" by (simp add: row_ok_def list_all2_lengthD col_count_def)
  then have rd: "read_bin_row (col_count t) data pos = Inr (r, ?p)"
    using rok(3) w(1) by (intro row.round) simp_all
  have "fits (tbl_columns t) (tbl_rows t) r"
    using Cons.prems(2) by (auto simp: fits_def sorted_wrt_append)
  from reinsert [OF Cons.prems(1) rok(1,2) this] obtain t1 where t1: "insert_row E r t = pok t1"
    "wf_table (env_unicode E) t1" "tbl_rows t1 = tbl_rows t @ [r]" "tbl_columns t1 = tbl_columns t"
    "tbl_name t1 = tbl_name t" "tbl_next_auto_inc t1 = tbl_next_auto_inc t" by blast
  have "\<exists>t'. read_bin_rows E (length rs) data ?p t1 =
      Some (Inr (t', ?p + length (concat (map write_bin_row rs)))) \<and> wf_table (env_unicode E) t' \<and>
    tbl_rows t' = tbl_rows t1 @ rs \<and> tbl_columns t' = tbl_columns t1 \<and> tbl_name t' = tbl_name t1 \<and>
    tbl_next_auto_inc t' = tbl_next_auto_inc t1"
    using Cons.prems(2,3) t1 w(2) by (intro Cons.IH) simp_all
  then show ?case using rd t1 by (auto simp: add.assoc)
qed auto

text \<open>A table whose data the format can hold and the reader takes back.\<close>

definition saveable :: "unicode \<Rightarrow> (sql_expr \<Rightarrow> rstr) \<Rightarrow> table \<Rightarrow> bool" where
  "saveable U disp t \<longleftrightarrow>
     wf_table U t \<and> typed_table t \<and> str_ok (tbl_name t) \<and>
     length (tbl_columns t) < 2 ^ 32 \<and> list_all (column_ok disp) (tbl_columns t) \<and>
     length (tbl_rows t) < 2 ^ 32 \<and>
     (\<forall>r \<in> set (tbl_rows t). list_all value_ok r \<and> no_default_for_null (tbl_columns t) r)"

lemma read_table_written:
  assumes s: "saveable (env_unicode E) disp t" and w: "written data pos (write_bin_table disp t)"
    and fresh: "\<not> has_table (tbl_name t) db"
  shows "\<exists>t'. read_bin_table E 3 data pos db =
      Some (Inr (add_table (tbl_name t) t' db, pos + length (write_bin_table disp t))) \<and> same_data t t' \<and>
      wf_table (env_unicode E) t'"
proof -
  let ?cols = "tbl_columns t" and ?rows = "tbl_rows t"
  let ?wc = "concat (map (write_bin_column disp) ?cols)" and ?wr = "concat (map write_bin_row ?rows)"
  have wf: "wf_table (env_unicode E) t" and typed: "typed_table t" using s by (simp_all add: saveable_def)
  define p1 where "p1 = pos + length (write_bin_str (tbl_name t))"
  define p3 where "p3 = p1 + 4 + length ?wc"
  have w1: "written data pos (write_bin_str (tbl_name t))"
    and r1: "written data p1 (u32_le (length ?cols) @ ?wc @ u64_le (tbl_next_auto_inc t) @ u32_le (length ?rows) @ ?wr)"
    using w written_append unfolding write_bin_table_def p1_def by blast+
  have w2: "written data p1 (u32_le (length ?cols))"
    and r2: "written data (p1 + 4) (?wc @ u64_le (tbl_next_auto_inc t) @ u32_le (length ?rows) @ ?wr)"
    using written_append [OF r1] by simp_all
  have w3: "written data (p1 + 4) ?wc"
    and r3: "written data p3 (u64_le (tbl_next_auto_inc t) @ u32_le (length ?rows) @ ?wr)"
    using written_append [OF r2] by (simp_all add: p3_def)
  have w4: "written data p3 (u64_le (tbl_next_auto_inc t))"
    and r4: "written data (p3 + 8) (u32_le (length ?rows) @ ?wr)"
    using written_append [OF r3] by simp_all
  have w5: "written data (p3 + 8) (u32_le (length ?rows))" and w6: "written data (p3 + 12) ?wr"
    using written_append [OF r4] by (simp_all add: add.assoc)
  have n1: "read_bin_str data pos = Inr (tbl_name t, p1)"
    using s w1 unfolding p1_def by (intro str.round) (simp_all add: saveable_def)
  have n2: "read_u32 err data p1 = Inr (length ?cols, p1 + 4)" for err
    using s u32.round [OF _ w2] by (simp add: saveable_def)
  have n3: "read_n (read_bin_column 3) (length ?cols) data (p1 + 4) = Inr (?cols, p3)"
    using s w3 unfolding p3_def by (intro col.round_list) (simp_all add: saveable_def list_all_iff)
  have n4: "read_u64 err data p3 = Inr (tbl_next_auto_inc t, p3 + 8)" for err
    using u64.round [OF _ w4] by simp
  have n5: "read_u32 err data (p3 + 8) = Inr (length ?rows, p3 + 12)" for err
    using s u32.round [OF _ w5] by (simp add: saveable_def)
  have "distinct (map col_name ?cols)" and "?cols \<noteq> []" using wf by (simp_all add: wf_table_def wf_columns_def)
  then obtain t0 where t0: "new_table (tbl_name t) ?cols = Inr t0"
    and f0: "tbl_columns t0 = ?cols" "tbl_name t0 = tbl_name t" "tbl_rows t0 = []" "tbl_indices t0 = []"
    by (auto simp: new_table_iff)
  let ?t0 = "t0\<lparr>tbl_next_auto_inc := tbl_next_auto_inc t\<rparr>"
  have "wf_table (env_unicode E) ?t0"
    using new_table_wf [OF t0, of "env_unicode E"] f0(3,4) by (simp add: wf_table_def wf_columns_def key_stores_def)
  moreover have "\<forall>r \<in> set ?rows. row_ok ?cols r \<and> no_default_for_null ?cols r \<and> list_all value_ok r"
    using s typed by (auto simp: saveable_def typed_table_def)
  moreover have "sorted_wrt (apart ?cols) ?rows" using wf by (simp add: wf_table_def)
  ultimately obtain t' where t': "read_bin_rows E (length ?rows) data (p3 + 12) ?t0 = Some (Inr (t', p3 + 12 + length ?wr))"
    "wf_table (env_unicode E) t'" "tbl_rows t' = ?rows" "tbl_columns t' = ?cols" "tbl_name t' = tbl_name t"
    "tbl_next_auto_inc t' = tbl_next_auto_inc t"
    using read_rows_written [of E ?t0 ?rows data "p3 + 12"] f0 w6 by auto
  have "p3 + 12 + length ?wr = pos + length (write_bin_table disp t)"
    by (simp add: write_bin_table_def p3_def p1_def)
  with t' n1 n2 n3 n4 n5 t0 fresh show ?thesis
    by (intro exI [of _ t']) (simp add: read_bin_table_def create_table_def same_data_def)
qed

section \<open>Databases\<close>

text \<open>Every table is saveable under the name it is stored under.\<close>

definition saveable_db :: "unicode \<Rightarrow> (sql_expr \<Rightarrow> rstr) \<Rightarrow> 'ast database \<Rightarrow> bool" where
  "saveable_db U disp db \<longleftrightarrow>
     finite (dom (db_tables db)) \<and> card (dom (db_tables db)) < 2 ^ 32 \<and>
     (\<forall>n t. db_tables db n = Some t \<longrightarrow> tbl_name t = n \<and> saveable U disp t)"

lemma read_tables_written:
  assumes "\<forall>n \<in> set ns. \<exists>t. tabs n = Some t \<and> tbl_name t = n \<and> saveable (env_unicode E) disp t"
    and "distinct ns" and "\<forall>n \<in> set ns. \<not> has_table n db"
    and "written data pos (concat (map (\<lambda>n. write_bin_table disp (the (tabs n))) ns))"
  shows "\<exists>db'. read_bin_tables E 3 (length ns) data pos db = Some (None, db') \<and>
    (\<forall>n. n \<notin> set ns \<longrightarrow> db_tables db' n = db_tables db n) \<and>
    (\<forall>n \<in> set ns. \<exists>t'. db_tables db' n = Some t' \<and> same_data (the (tabs n)) t' \<and> wf_table (env_unicode E) t')"
  using assms
proof (induction ns arbitrary: pos db)
  case (Cons n ns)
  from Cons.prems(1) obtain t where t: "tabs n = Some t" "tbl_name t = n" "saveable (env_unicode E) disp t" by auto
  let ?p = "pos + length (write_bin_table disp t)"
  have w: "written data pos (write_bin_table disp t)"
    "written data ?p (concat (map (\<lambda>n. write_bin_table disp (the (tabs n))) ns))"
    using Cons.prems(4) t written_append [of data pos "write_bin_table disp t"] by simp_all
  have "\<not> has_table (tbl_name t) db" using Cons.prems(3) t by simp
  from read_table_written [OF t(3) w(1) this] t obtain t' where
    r: "read_bin_table E 3 data pos db = Some (Inr (add_table n t' db, ?p))" and sd: "same_data t t'"
    and wf: "wf_table (env_unicode E) t'" by auto
  have "\<exists>db'. read_bin_tables E 3 (length ns) data ?p (add_table n t' db) = Some (None, db') \<and>
    (\<forall>m. m \<notin> set ns \<longrightarrow> db_tables db' m = db_tables (add_table n t' db) m) \<and>
    (\<forall>m \<in> set ns. \<exists>t'. db_tables db' m = Some t' \<and> same_data (the (tabs m)) t' \<and> wf_table (env_unicode E) t')"
    using Cons.prems w(2) by (intro Cons.IH) (auto simp: has_table_def add_table_def)
  then obtain db' where d: "read_bin_tables E 3 (length ns) data ?p (add_table n t' db) = Some (None, db')"
    "\<forall>m. m \<notin> set ns \<longrightarrow> db_tables db' m = db_tables (add_table n t' db) m"
    "\<forall>m \<in> set ns. \<exists>t'. db_tables db' m = Some t' \<and> same_data (the (tabs m)) t' \<and> wf_table (env_unicode E) t'" by blast
  have "db_tables db' n = Some t'" using d(2) Cons.prems(2) by (simp add: add_table_def)
  then show ?case using r sd wf d t by (auto simp: add_table_def)
qed simp

lemma import_export:
  assumes s: "saveable_db (env_unicode E) disp db" and e: "db_tables db0 = Map.empty"
  shows "\<exists>db'. import_binary E (export_binary disp db) db0 = Some (None, db') \<and> dom (db_tables db') = dom (db_tables db) \<and>
    (\<forall>n t. db_tables db n = Some t \<longrightarrow> (\<exists>t'. db_tables db' n = Some t' \<and> same_data t t' \<and> wf_table (env_unicode E) t'))"
proof -
  let ?ns = "table_names db"
  let ?w = "concat (map (\<lambda>n. write_bin_table disp (the (db_tables db n))) ?ns)"
  define buf where "buf = binary_magic @ [byte binary_version] @ u32_le (length ?ns) @ ?w"
  have fin: "finite (dom (db_tables db))" using s by (simp add: saveable_db_def)
  then have ns: "set ?ns = dom (db_tables db)" "distinct ?ns" "length ?ns < 2 ^ 32"
    using s by (simp_all add: table_names_def saveable_db_def)
  have "map (\<lambda>n. case get_table n db of Inr t \<Rightarrow> write_bin_table disp t | Inl _ \<Rightarrow> []) ?ns =
      map (\<lambda>n. write_bin_table disp (the (db_tables db n))) ?ns"
    using ns(1) by (auto simp: get_table_def)
  then have x: "export_binary disp db = buf @ u64_le (checksum buf)" (is "_ = ?data")
    by (simp only: export_binary_def Let_def buf_def)
  have buf9: "take 4 buf = binary_magic" "buf ! 4 = byte 3" "length buf = 9 + length ?w"
    by (simp_all add: buf_def binary_magic_def binary_version_def)
  have wb: "written ?data 5 (u32_le (length ?ns))" "written ?data 9 ?w"
  proof -
    have h: "length (binary_magic @ [byte binary_version]) = 5"
      "length (binary_magic @ [byte binary_version] @ u32_le (length ?ns)) = 9" by (simp_all add: binary_magic_def)
    have e: "?data = (binary_magic @ [byte binary_version]) @ u32_le (length ?ns) @ (?w @ u64_le (checksum buf))"
      "?data = (binary_magic @ [byte binary_version] @ u32_le (length ?ns)) @ ?w @ u64_le (checksum buf)"
      by (simp_all add: buf_def)
    show "written ?data 5 (u32_le (length ?ns))" unfolding e(1) h(1) [symmetric] by (rule written_here)
    show "written ?data 9 ?w" unfolding e(2) h(2) [symmetric] by (rule written_here)
  qed
  have cnt: "le_val (slice ?data 5 4) = length ?ns"
    using wb(1) le_val_le_bytes [of "length ?ns" 4] ns(3) by (simp add: written_def u32_le_def)
  have sum: "of_nat (le_val (u64_le (checksum buf))) = checksum buf"
    using le_val_le_bytes [of "unat (checksum buf)" 8] unsigned_less [of "checksum buf", where ?'a = nat]
    by (simp add: u64_le_def)
  have imp: "import_binary E ?data db0 = read_bin_tables E 3 (length ?ns) ?data 9 db0"
  proof -
    have l: "length ?data - checksum_len = length buf" "\<not> length ?data < 5 + checksum_len" "\<not> length buf < 5 + 4"
      using buf9(3) by (simp_all add: checksum_len_def)
    have h: "take 4 ?data = binary_magic" "?data ! 4 = byte 3" "take (length buf) ?data = buf"
      "drop (length buf) ?data = u64_le (checksum buf)"
      using buf9 by (simp_all add: nth_append)
    have v: "(of_char (byte 3) :: nat) = 3" "\<not> binary_version < 3" "(3 :: nat) \<noteq> 1"
      by (simp_all add: binary_version_def)
    show ?thesis
      unfolding import_binary_def Let_def l(1) h v(1) sum cnt
      by (simp only: l(2,3) v(2,3) simp_thms if_False)
  qed
  have "\<exists>db'. read_bin_tables E 3 (length ?ns) ?data 9 db0 = Some (None, db') \<and>
    (\<forall>n. n \<notin> set ?ns \<longrightarrow> db_tables db' n = db_tables db0 n) \<and>
    (\<forall>n \<in> set ?ns. \<exists>t'. db_tables db' n = Some t' \<and> same_data (the (db_tables db n)) t' \<and> wf_table (env_unicode E) t')"
  proof (rule read_tables_written [where disp = disp and tabs = "db_tables db"])
    show "\<forall>n \<in> set ?ns. \<exists>t. db_tables db n = Some t \<and> tbl_name t = n \<and> saveable (env_unicode E) disp t"
      using s ns(1) by (auto simp: saveable_db_def dom_def)
    show "\<forall>n \<in> set ?ns. \<not> has_table n db0" using e by (simp add: has_table_def)
  qed (use ns(2) wb(2) in simp_all)
  then obtain db' where d: "read_bin_tables E 3 (length ?ns) ?data 9 db0 = Some (None, db')"
    "\<forall>n. n \<notin> set ?ns \<longrightarrow> db_tables db' n = None"
    "\<forall>n \<in> set ?ns. \<exists>t'. db_tables db' n = Some t' \<and> same_data (the (db_tables db n)) t' \<and> wf_table (env_unicode E) t'"
    using e by auto
  have sub: "n \<in> dom (db_tables db)" if "n \<in> dom (db_tables db')" for n
  proof (rule ccontr)
    assume "n \<notin> dom (db_tables db)"
    then have "db_tables db' n = None" using d(2) ns(1) by simp
    with that show False by (simp add: domIff)
  qed
  have sup: "\<exists>t'. db_tables db' n = Some t' \<and> same_data t t' \<and> wf_table (env_unicode E) t'"
    if "db_tables db n = Some t" for n t
    using bspec [OF d(3), of n] that ns(1) by (simp add: domI)
  have "dom (db_tables db') = dom (db_tables db)"
  proof (intro subset_antisym subsetI)
    fix n assume "n \<in> dom (db_tables db)"
    then show "n \<in> dom (db_tables db')" using sup by (meson domD domI)
  qed (rule sub)
  with d(1) sup show ?thesis unfolding x imp by (intro exI [of _ db']) simp
qed

end
