(* ===== verification/StoreProps.thy ===== *)
theory StoreProps
  imports BinaryRoundtrip TableProps
begin

text \<open>
  The properties of the database and its save file: what transactions undo, what the parse cache
  may return, that a saved database loads back, and that a damaged file does not load.
\<close>

section \<open>Transactions\<close>


definition demo_db :: "unit database" where
  "demo_db = add_table ''t'' demo_table db_new"


text \<open>COMMIT keeps what the transaction did and closes exactly its own snapshot.\<close>

theorem commit_keeps:
  "work (db_begin db) db' \<Longrightarrow>
   \<exists>db''. db_commit db' = Inr db'' \<and> db_tables db'' = db_tables db' \<and> db_views db'' = db_views db' \<and>
     db_savepoints db'' = db_savepoints db"
  by (rule commit_after_work)

theorem commit_keeps_witness:
  "\<exists>db''. db_commit (add_table ''u'' demo_table (db_begin demo_db)) = Inr db'' \<and> db_tables db'' ''u'' = Some demo_table"
proof -
  have "work (db_begin demo_db) (add_table ''u'' demo_table (db_begin demo_db))"
    by (rule work_step [OF work_none step_add_table])
  from commit_keeps [OF this] show ?thesis by (auto simp: add_table_def)
qed

text \<open>Rolling back to a named savepoint restores the tables and views of the moment it was set
  and discards it with every later savepoint, however many there are, as long as none of the later
  ones reuses the name.\<close>

theorem rollback_to_savepoint_restores:
  "work (db_savepoint n db) db1 \<Longrightarrow> db_savepoints db2 = db_savepoints db1 @ later \<Longrightarrow>
   \<forall>s \<in> set later. snap_name s \<noteq> Some n \<Longrightarrow>
   \<exists>db'. db_rollback_to n db2 = Inr db' \<and> db_tables db' = db_tables db \<and> db_views db' = db_views db \<and>
     db_savepoints db' = db_savepoints db"
  by (rule rollback_to_after_work)

theorem rollback_to_savepoint_restores_witness:
  "\<exists>db'. db_rollback_to ''a'' (db_clear (db_savepoint ''b'' (db_savepoint ''a'' demo_db))) = Inr db' \<and>
     db_tables db' = db_tables demo_db"
proof -
  have "db_savepoints (db_clear (db_savepoint ''b'' (db_savepoint ''a'' demo_db))) =
      db_savepoints (db_savepoint ''a'' demo_db) @ [snap (Some ''b'') (db_savepoint ''a'' demo_db)]"
    by (simp add: db_clear_def db_savepoint_def)
  from rollback_to_savepoint_restores [OF work_none this] show ?thesis by auto
qed

text \<open>The reset does not reach the snapshots: after BEGIN, a database that is cleared and then
  rolled back has all its tables again.\<close>

theorem clear_keeps_snapshots:
  "\<exists>db''. db_tables (db_clear (db_begin db)) = Map.empty \<and> db_rollback (db_clear (db_begin db)) = Inr db'' \<and>
     db_tables db'' = db_tables db"
  by (simp add: db_clear_def db_begin_def db_rollback_def)

section \<open>The parse cache\<close>

text \<open>The parse cache is transparent and bounded: in every reachable state a lookup returns
  what parsing the text now would return, success or error, and at most 512 statements are kept.\<close>

theorem parse_cache_coherent:
  "cache_reachable parse c \<Longrightarrow>
     fst (get_or_parse parse sql c) = parse sql \<and>
     card (dom (cache_entries (snd (get_or_parse parse sql c)))) \<le> default_capacity"
proof -
  assume "cache_reachable parse c"
  then have i: "cache_inv parse c" by (rule cache_reachable_inv)
  then have i': "cache_inv parse (snd (get_or_parse parse sql c))" by (rule get_or_parse_inv)
  from get_or_parse_result [OF i] cache_inv_card [OF i'] i' show ?thesis by (simp add: cache_inv_def)
qed

theorem parse_cache_coherent_witness:
  "fst (get_or_parse (\<lambda>s :: rstr. if s = [] then Inl ''empty'' else Inr (length s)) ''SELECT 1'' cache_new) = Inr 8"
  using parse_cache_coherent [OF reach_new, of "\<lambda>s :: rstr. if s = [] then Inl ''empty'' else Inr (length s)" "''SELECT 1''"]
  by simp

section \<open>The save file\<close>


lemma str_ok_ascii: "is_ascii s \<Longrightarrow> length s < 2 ^ 32 \<Longrightarrow> str_ok s"
  by (auto simp: str_ok_def valid_utf8_def is_ascii_def utf8_decode_ascii bytes_of_def)

lemma demo_names: "str_ok ''t''" "str_ok ''id''" "str_ok ''tag''"
  by (rule str_ok_ascii; simp add: is_ascii_def)+

lemma demo_saveable: "saveable U disp demo_table"
proof -
  have "list_all (column_ok disp) demo_columns" "length demo_columns < 2 ^ 32"
    by (simp_all add: demo_columns_def plain_column_def column_ok_def demo_names)
  then show ?thesis
    using demo_wf [of U] demo_typed new_table_fields [OF demo_new] by (simp add: saveable_def demo_names)
qed


text \<open>Multiplying by the FNV prime can be undone, so the hash of what follows a byte tells the
  bytes apart.\<close>

lemma fnv_prime_inverse: "fnv_prime * 0xce965057aff6957b = 1"
  by (simp add: fnv_prime_def)

lemma fnv_step_inj: "xor h (a :: u64) * fnv_prime = xor h' b * fnv_prime \<Longrightarrow> xor h a = xor h' b"
proof -
  assume e: "xor h a * fnv_prime = xor h' b * fnv_prime"
  have "xor h a * fnv_prime * 0xce965057aff6957b = xor h' b * fnv_prime * 0xce965057aff6957b"
    by (simp only: e)
  then show ?thesis by (simp only: mult.assoc fnv_prime_inverse mult_1_right)
qed

lemma fnv_fold_inj:
  "foldl (\<lambda>hash b. xor hash (of_nat (of_char b)) * fnv_prime) h xs =
   foldl (\<lambda>hash b. xor hash (of_nat (of_char b)) * fnv_prime) h' xs \<Longrightarrow> h = h'"
proof (induction xs arbitrary: h h')
  case (Cons b xs)
  from Cons.prems have "xor h (of_nat (of_char b)) * fnv_prime = xor h' (of_nat (of_char b)) * fnv_prime"
    unfolding foldl_Cons by (rule Cons.IH)
  then have "xor h (of_nat (of_char b)) = xor h' (of_nat (of_char b))" by (rule fnv_step_inj)
  then have "xor (xor h (of_nat (of_char b))) (of_nat (of_char b)) = xor (xor h' (of_nat (of_char b))) (of_nat (of_char b))"
    by simp
  then show ?case by (simp add: xor.assoc)
qed simp

lemma byte_word_inj: "(of_nat (of_char a) :: u64) = of_nat (of_char b) \<Longrightarrow> a = b"
proof -
  assume e: "(of_nat (of_char a) :: u64) = of_nat (of_char b)"
  have "(of_char a :: nat) < 256" "(of_char b :: nat) < 256" by simp_all
  with arg_cong [OF e, of unat] have "(of_char a :: nat) = of_char b" by (simp add: unat_of_nat)
  then show ?thesis by simp
qed

lemma checksum_update:
  assumes "i < length xs" and "b \<noteq> xs ! i"
  shows "checksum (xs[i := b]) \<noteq> checksum xs"
proof
  let ?f = "\<lambda>hash b. xor hash (of_nat (of_char b)) * fnv_prime" and ?h = "foldl (\<lambda>hash b. xor hash (of_nat (of_char b)) * fnv_prime) fnv_offset (take i xs)"
  assume e: "checksum (xs[i := b]) = checksum xs"
  have "checksum xs = foldl ?f (?f ?h (xs ! i)) (drop (Suc i) xs)"
    unfolding checksum_def by (subst id_take_nth_drop [OF assms(1)]) (simp only: foldl_append foldl_Cons)
  moreover have "checksum (xs[i := b]) = foldl ?f (?f ?h b) (drop (Suc i) xs)"
    unfolding checksum_def upd_conv_take_nth_drop [OF assms(1)] by (simp only: foldl_append foldl_Cons)
  ultimately have "foldl ?f (?f ?h b) (drop (Suc i) xs) = foldl ?f (?f ?h (xs ! i)) (drop (Suc i) xs)"
    using e by (simp only:)
  then have "?f ?h b = ?f ?h (xs ! i)" by (rule fnv_fold_inj)
  then have "xor ?h (of_nat (of_char b)) = xor ?h (of_nat (of_char (xs ! i)))" by (rule fnv_step_inj)
  then have "xor ?h (xor ?h (of_nat (of_char b))) = xor ?h (xor ?h (of_nat (of_char (xs ! i))))" by simp
  then have "b = xs ! i" by (intro byte_word_inj) (simp flip: xor.assoc)
  with assms(2) show False by simp
qed

lemma le_val_less: "le_val bs < 256 ^ length bs"
proof (induction bs)
  case (Cons b bs)
  have "(of_char b :: nat) < 256" by simp
  moreover have "256 * Suc (le_val bs) \<le> 256 * 256 ^ length bs" using Cons by (intro mult_le_mono) simp_all
  moreover have "256 * Suc (le_val bs) = 256 + 256 * le_val bs" by simp
  moreover have "x < 256 \<Longrightarrow> 256 + 256 * y \<le> z \<Longrightarrow> x + 256 * y < z" for x y z :: nat by linarith
  ultimately have "of_char b + 256 * le_val bs < (256 :: nat) * 256 ^ length bs" by (simp only:)
  then show ?case by simp
qed simp

lemma le_val_inject: "length xs = length ys \<Longrightarrow> le_val xs = le_val ys \<Longrightarrow> xs = ys"
proof (induction xs ys rule: list_induct2)
  case (Cons x xs y ys)
  have b: "(of_char x :: nat) < 256" "(of_char y :: nat) < 256" by simp_all
  from Cons.prems have e: "of_char x + 256 * le_val xs = of_char y + 256 * le_val ys" by simp
  from arg_cong [OF e, of "\<lambda>n. n mod 256"] have "(of_char x :: nat) = of_char y" using b by simp
  with e Cons.IH show ?case by simp
qed simp

text \<open>A load that does not end in an error has passed every check.\<close>

definition checksum_error :: rstr where
  "checksum_error = ''Checksum mismatch '' @ str_of [226, 128, 148] @ '' save file is corrupt or truncated.''"

lemma import_ok_checks:
  assumes "import_binary E data db = Some (None, db')"
  shows "13 \<le> length data" and "take 4 data = binary_magic" and "(of_char (data ! 4) :: nat) \<noteq> 1"
    and "\<not> binary_version < of_char (data ! 4)"
    and "checksum (take (length data - 8) data) = of_nat (le_val (drop (length data - 8) data))"
  using assms by (auto simp: import_binary_def Let_def checksum_len_def split: if_splits)

lemma import_bad_checksum:
  assumes "13 \<le> length data" and "take 4 data = binary_magic" and "(of_char (data ! 4) :: nat) \<noteq> 1"
    and "\<not> binary_version < of_char (data ! 4)"
    and "checksum (take (length data - 8) data) \<noteq> of_nat (le_val (drop (length data - 8) data))"
  shows "import_binary E data db = Some (Some checksum_error, db)"
  using assms by (simp add: import_binary_def Let_def checksum_len_def checksum_error_def)

text \<open>C19.  One damaged byte is always noticed: if a file loads without error, then the same file
  with any single byte after the version byte changed, in the data or in the checksum itself, is
  refused with the checksum error and the database is left as it was.\<close>

theorem damaged_byte_refused:
  "import_binary E data db0 = Some (None, db1) \<Longrightarrow> 5 \<le> i \<Longrightarrow> i < length data \<Longrightarrow> b \<noteq> data ! i \<Longrightarrow>
   import_binary E (data[i := b]) db = Some (Some checksum_error, db)"
proof -
  assume ok: "import_binary E data db0 = Some (None, db1)" and i: "5 \<le> i" "i < length data" and b: "b \<noteq> data ! i"
  note c = import_ok_checks [OF ok]
  let ?n = "length data - 8" and ?data = "data[i := b]"
  have "checksum (take ?n ?data) \<noteq> of_nat (le_val (drop ?n ?data))"
  proof (cases "i < ?n")
    case True
    then have "take ?n ?data = (take ?n data)[i := b]" "drop ?n ?data = drop ?n data"
      by (simp_all add: take_update_swap)
    moreover have "checksum ((take ?n data)[i := b]) \<noteq> checksum (take ?n data)"
      using True b by (intro checksum_update) simp_all
    ultimately show ?thesis using c(5) by simp
  next
    case False
    then have t: "take ?n ?data = take ?n data" by simp
    have "drop ?n ?data \<noteq> drop ?n data"
    proof
      assume "drop ?n ?data = drop ?n data"
      then have "drop ?n ?data ! (i - ?n) = drop ?n data ! (i - ?n)" by simp
      with False i b show False by simp
    qed
    then have "le_val (drop ?n ?data) \<noteq> le_val (drop ?n data)"
      using le_val_inject [of "drop ?n ?data" "drop ?n data"] by auto
    moreover have "le_val (drop ?n ?data) < 256 ^ 8" "le_val (drop ?n data) < 256 ^ 8"
      using le_val_less [of "drop ?n ?data"] le_val_less [of "drop ?n data"] c(1) by simp_all
    ultimately have "(of_nat (le_val (drop ?n ?data)) :: u64) \<noteq> of_nat (le_val (drop ?n data))"
      by (simp add: word_of_nat_eq_iff take_bit_nat_eq_self)
    with c(5) t show ?thesis by simp
  qed
  moreover have "take 4 ?data = take 4 data" "?data ! 4 = data ! 4" using i(1) by simp_all
  ultimately show ?thesis using c(1-4) by (intro import_bad_checksum) simp_all
qed

lemma demo_db_tables: "db_tables demo_db = [''t'' \<mapsto> demo_table]"
  by (simp add: demo_db_def add_table_def db_new_def)

lemma demo_db_import:
  "\<exists>db'. import_binary no_env (export_binary (\<lambda>_. []) demo_db) (db_new :: unit database) = Some (None, db') \<and>
     dom (db_tables db') = {''t''}"
proof -
  have "saveable_db no_unicode (\<lambda>_. []) demo_db"
    using demo_saveable [of no_unicode "\<lambda>_. []"] new_table_fields [OF demo_new]
    by (simp add: saveable_db_def demo_db_tables)
  moreover have "db_tables (db_new :: unit database) = Map.empty" by (simp add: db_new_def)
  moreover have "dom (db_tables demo_db) = {''t''}" by (simp add: demo_db_tables)
  ultimately show ?thesis using import_export [of no_env "\<lambda>_. []" demo_db "db_new :: unit database"] by metis
qed

lemma export_one_table:
  "db_tables db = [n \<mapsto> t] \<Longrightarrow> export_binary disp db =
     (let buf = binary_magic @ [byte binary_version] @ u32_le 1 @ write_bin_table disp t in buf @ u64_le (checksum buf))"
  by (simp add: export_binary_def table_names_def get_table_def)

theorem damaged_byte_refused_witness:
  "import_binary no_env ((export_binary (\<lambda>_. []) demo_db)[5 := CHR ''x'']) demo_db = Some (Some checksum_error, demo_db)"
proof -
  from demo_db_import obtain db' where
    ok: "import_binary no_env (export_binary (\<lambda>_. []) demo_db) (db_new :: unit database) = Some (None, db')" by blast
  have b: "export_binary (\<lambda>_. []) demo_db ! 5 = char_of (1 :: nat)"
  proof -
    have u: "u32_le 1 = le_bytes (Suc 3) 1" by (simp add: u32_le_def)
    have "u32_le 1 = char_of (1 :: nat) # le_bytes 3 0" unfolding u le_bytes.simps(2) by simp
    then show ?thesis
      by (simp add: export_one_table [OF demo_db_tables] Let_def binary_magic_def nth_append)
  qed
  have "(of_char CHR ''x'' :: nat) \<noteq> of_char (export_binary (\<lambda>_. []) demo_db ! 5)" unfolding b by simp
  then have "CHR ''x'' \<noteq> export_binary (\<lambda>_. []) demo_db ! 5" by metis
  with import_ok_checks(1) [OF ok] show ?thesis
    by (intro damaged_byte_refused [OF ok]) simp_all
qed

text \<open>RENAME TABLE moves a table to the new name but does not rename the table itself, and the
  save file is written with the table's own name: a table that is renamed, saved and loaded is back
  under its old name.\<close>

theorem renamed_table_saved_under_old_name:
  "\<exists>db' db''. rename_table ''t'' ''u'' demo_db = Inr db' \<and> table_names db' = [''u''] \<and>
     import_binary no_env (export_binary (\<lambda>_. []) db') (db_new :: unit database) = Some (None, db'') \<and>
     table_names db'' = [''t'']"
proof -
  let ?db = "demo_db\<lparr>db_tables := [''u'' \<mapsto> demo_table]\<rparr>"
  have r: "rename_table ''t'' ''u'' demo_db = Inr ?db" and t: "db_tables ?db = [''u'' \<mapsto> demo_table]"
    by (simp_all add: rename_table_def demo_db_tables)
  have e: "export_binary (\<lambda>_. []) ?db = export_binary (\<lambda>_. []) demo_db"
    by (simp only: export_one_table [OF t] export_one_table [OF demo_db_tables])
  have n: "table_names ?db = [''u'']" by (simp add: table_names_def t)
  from demo_db_import obtain db'' where i:
    "import_binary no_env (export_binary (\<lambda>_. []) demo_db) (db_new :: unit database) = Some (None, db'')"
    and d: "dom (db_tables db'') = {''t''}" by blast
  have "table_names db'' = [''t'']" unfolding table_names_def d by simp
  with r n i show ?thesis unfolding e [symmetric] by blast
qed

end
