(* ===== verification/Sorting.thy ===== *)
theory Sorting
  imports Eval "HOL-Library.Multiset"
begin

text \<open>
  \<open>stmts/select/sort.rs\<close>: ORDER BY and LIMIT / OFFSET.  Rows are compared key by key; a key that
  fails to evaluate counts as NULL, a key that panics stops the sort.  The standard library's
  \<open>sort_by\<close> is stable; which pairs it compares is not documented, and the model compares as its
  insertion sort for short slices does (from the right end of the sorted prefix).  When the comparison
  is a total preorder and does not panic, every stable sort gives the same rows (\<open>sorted_stable\<close>).
\<close>

section \<open>Comparing rows\<close>

text \<open>\<open>unwrap_or(DbValue::Null)\<close>.\<close>

definition or_null :: "db_value eres \<Rightarrow> db_value" where
  "or_null r = (case r of Inl _ \<Rightarrow> DNull | Inr v \<Rightarrow> v)"

fun compare_rows :: "eval_env \<Rightarrow> col_map \<Rightarrow> order_item list \<Rightarrow> row \<Rightarrow> row \<Rightarrow> ordering panicking" where
  "compare_rows E m [] a b = Some Equal"
| "compare_rows E m ((e, asc) # items) a b =
     (case (eval_expr E a m e, eval_expr E b m e) of
        (Some x, Some y) \<Rightarrow>
          (let o1 = db_value_cmp (or_null x) (or_null y);
               o2 = (if case asc of Some d \<Rightarrow> d | None \<Rightarrow> True then o1 else ord_reverse o1)
           in if o2 \<noteq> Equal then Some o2 else compare_rows E m items a b)
      | _ \<Rightarrow> None)"

section \<open>Sorting\<close>

text \<open>Insert into the sorted prefix, held in reverse: move left while smaller.\<close>

fun insert_tail :: "('a \<Rightarrow> 'a \<Rightarrow> ordering panicking) \<Rightarrow> 'a \<Rightarrow> 'a list \<Rightarrow> 'a list panicking" where
  "insert_tail c x [] = Some [x]"
| "insert_tail c x (y # ys) =
     (case c x y of
        None \<Rightarrow> None
      | Some Less \<Rightarrow> map_option ((#) y) (insert_tail c x ys)
      | Some _ \<Rightarrow> Some (x # y # ys))"

fun sort_onto :: "('a \<Rightarrow> 'a \<Rightarrow> ordering panicking) \<Rightarrow> 'a list \<Rightarrow> 'a list \<Rightarrow> 'a list panicking" where
  "sort_onto c acc [] = Some (rev acc)"
| "sort_onto c acc (x # xs) =
     (case insert_tail c x acc of None \<Rightarrow> None | Some acc' \<Rightarrow> sort_onto c acc' xs)"

definition sort_by :: "('a \<Rightarrow> 'a \<Rightarrow> ordering panicking) \<Rightarrow> 'a list \<Rightarrow> 'a list panicking" where
  "sort_by c xs = sort_onto c [] xs"

definition sort_rows :: "eval_env \<Rightarrow> row list \<Rightarrow> order_item list \<Rightarrow> col_map \<Rightarrow> row list eres panicking" where
  "sort_rows E rows order m =
     (if order = [] then pok rows
      else map_option Inr (sort_by (compare_rows E m order) rows))"

section \<open>Paging\<close>

datatype limit_clause =
    LimitOffset "sql_expr option" "sql_expr option"  \<comment> \<open>limit, offset\<close>
  | OffsetCommaLimit sql_expr sql_expr  \<comment> \<open>offset, limit\<close>

text \<open>\<open>str::parse::<usize>\<close>: digits after an optional plus sign, below \<open>2 ^ 64\<close>.\<close>

definition parse_usize :: "rstr \<Rightarrow> nat option" where
  "parse_usize s =
     (let ds = (if s \<noteq> [] \<and> hd s = CHR ''+'' then tl s else s)
      in if ds = [] \<or> (\<exists>c \<in> set ds. \<not> is_digit c) \<or> 2 ^ 64 \<le> digits_val ds then None
         else Some (digits_val ds))"

fun parse_expr_as_usize :: "sql_expr option \<Rightarrow> nat option" where
  "parse_expr_as_usize (Some (Value (SqlNumber s))) = parse_usize s"
| "parse_expr_as_usize _ = None"

fun limit_values :: "limit_clause option \<Rightarrow> nat \<times> nat option" where
  "limit_values (Some (LimitOffset lim off)) =
     ((case parse_expr_as_usize off of None \<Rightarrow> 0 | Some n \<Rightarrow> n), parse_expr_as_usize lim)"
| "limit_values (Some (OffsetCommaLimit off lim)) =
     ((case parse_expr_as_usize (Some off) of None \<Rightarrow> 0 | Some n \<Rightarrow> n), parse_expr_as_usize (Some lim))"
| "limit_values None = (0, None)"

text \<open>\<open>start + l\<close> wraps at 64 bits, as the release build does; the slice then panics.\<close>

definition apply_limit_offset :: "'a list \<Rightarrow> limit_clause option \<Rightarrow> 'a list panicking" where
  "apply_limit_offset rows clause =
     (let (off, lim) = limit_values clause;
          start = min off (length rows);
          stop = (case lim of Some l \<Rightarrow> min ((start + l) mod 2 ^ 64) (length rows) | None \<Rightarrow> length rows)
      in if start \<le> stop then Some (take (stop - start) (drop start rows)) else None)"

lemma parse_expr_as_usize_bound: "parse_expr_as_usize e = Some n \<Longrightarrow> n < 2 ^ 64"
  by (cases e rule: parse_expr_as_usize.cases) (auto simp: parse_usize_def Let_def not_le split: if_splits)

lemma limit_values_bound:
  "limit_values c = (off, lim) \<Longrightarrow> off < 2 ^ 64 \<and> (\<forall>l. lim = Some l \<longrightarrow> l < 2 ^ 64)"
  by (cases c rule: limit_values.cases)
    (auto dest: parse_expr_as_usize_bound split: option.splits)

lemma wrapped_sum:
  assumes "s + l \<ge> (n :: nat)" "l < n"
  shows "(s + l) mod n < s"
proof -
  have "(s + l) mod n = (s + l - n) mod n" using assms(1) by (simp add: le_mod_geq)
  also have "\<dots> \<le> s + l - n" by simp
  also have "\<dots> < s" using assms by linarith
  finally show ?thesis .
qed

section \<open>Total preorders\<close>

text \<open>
  What a comparison must satisfy on the values that are sorted.
\<close>

locale comparator =
  fixes A :: "'a set" and c :: "'a \<Rightarrow> 'a \<Rightarrow> ordering"
  assumes reverse: "a \<in> A \<Longrightarrow> b \<in> A \<Longrightarrow> c b a = ord_reverse (c a b)"
    and trans: "a \<in> A \<Longrightarrow> b \<in> A \<Longrightarrow> d \<in> A \<Longrightarrow> c a b \<noteq> Greater \<Longrightarrow> c b d \<noteq> Greater \<Longrightarrow> c a d \<noteq> Greater"
begin

lemma less_trans:
  assumes "a \<in> A" "b \<in> A" "d \<in> A" "c a b = Less" "c b d \<noteq> Greater"
  shows "c a d = Less"
proof -
  have "c a d \<noteq> Greater" using trans [OF assms(1-3)] assms(4,5) by simp
  moreover have "c a d \<noteq> Equal"
  proof
    assume "c a d = Equal"
    then have "c d a \<noteq> Greater" using reverse [OF assms(1,3)] by simp
    with trans [OF assms(2,3,1) assms(5)] have "c b a \<noteq> Greater" by simp
    with reverse [OF assms(1,2)] assms(4) show False by simp
  qed
  ultimately show ?thesis by (cases "c a d") auto
qed

text \<open>Equal values compare alike with every other.\<close>

lemma equal_cong:
  assumes "a \<in> A" "b \<in> A" "d \<in> A" "c a b = Equal"
  shows "c a d = c b d"
proof -
  have ba: "c b a = Equal" using reverse [OF assms(1,2)] assms(4) by simp
  have 1: "c x d \<noteq> Greater" if "x \<in> A" "y \<in> A" "c x y = Equal" "c y d \<noteq> Greater" for x y
    using trans [OF that(1,2) assms(3)] that(3,4) by simp
  have 2: "c x d \<noteq> Less" if "x \<in> A" "y \<in> A" "c y x = Equal" "c y d \<noteq> Less" for x y
  proof
    assume x: "c x d = Less"
    have "c y d \<noteq> Greater" using 1 [OF that(2,1,3)] x by simp
    with that(4) have e: "c y d = Equal" by (cases "c y d") auto
    then have "c d y \<noteq> Greater" using reverse [OF that(2) assms(3)] by simp
    then have "c d x \<noteq> Greater" using trans [OF assms(3) that(2,1)] that(3) by simp
    with reverse [OF that(1) assms(3)] x show False by simp
  qed
  show ?thesis
    using 1 [OF assms(1,2) assms(4)] 1 [OF assms(2,1) ba] 2 [OF assms(1,2) ba] 2 [OF assms(2,1) assms(4)]
    by (cases "c a d"; cases "c b d") auto
qed

text \<open>A list in descending order, as the prefix is held.\<close>

definition descending :: "'a list \<Rightarrow> bool" where
  "descending ys = sorted_wrt (\<lambda>a b. c b a \<noteq> Greater) ys"

lemma insert_tail_ok:
  assumes "x \<in> A" "set ys \<subseteq> A" "descending ys" "\<And>a b. a \<in> A \<Longrightarrow> b \<in> A \<Longrightarrow> f a b = Some (c a b)"
  shows "\<exists>zs. insert_tail f x ys = Some zs \<and> mset zs = add_mset x (mset ys) \<and> descending zs \<and>
    (\<forall>k \<in> A. filter (\<lambda>z. c k z = Equal) zs = (if c k x = Equal then [x] else []) @ filter (\<lambda>z. c k z = Equal) ys)"
  using assms
proof (induction ys)
  case Nil
  then show ?case by (simp add: descending_def)
next
  case (Cons y ys)
  have fy: "f x y = Some (c x y)" and xA: "x \<in> A" and yA: "y \<in> A" using Cons.prems by auto
  show ?case
  proof (cases "c x y = Less")
    case True
    obtain zs where zs: "insert_tail f x ys = Some zs" "mset zs = add_mset x (mset ys)" "descending zs"
      "\<forall>k \<in> A. filter (\<lambda>z. c k z = Equal) zs = (if c k x = Equal then [x] else []) @ filter (\<lambda>z. c k z = Equal) ys"
      using Cons.IH [OF Cons.prems(1)] Cons.prems(2-4) by (auto simp: descending_def)
    have "set zs = insert x (set ys)" using zs(2) by (metis set_mset_add_mset_insert set_mset_mset)
    moreover have "\<forall>z \<in> set ys. c z y \<noteq> Greater" using Cons.prems(3) by (simp add: descending_def)
    ultimately have "descending (y # zs)" using zs(3) True by (simp add: descending_def)
    moreover have "\<not> (c k x = Equal \<and> c k y = Equal)" if "k \<in> A" for k
    proof
      assume k: "c k x = Equal \<and> c k y = Equal"
      then have "c x k = Equal" using reverse [OF that xA] by simp
      from equal_cong [OF xA that yA this] k True show False by simp
    qed
    ultimately show ?thesis using zs fy True by auto
  next
    case False
    have "c z x \<noteq> Greater" if "z \<in> set (y # ys)" for z
    proof -
      have "c y x \<noteq> Greater" using reverse [OF xA yA] False by (cases "c x y") auto
      moreover have "z = y \<or> c z y \<noteq> Greater" using that Cons.prems(3) by (auto simp: descending_def)
      moreover have "z \<in> A" using that Cons.prems(2) by auto
      ultimately show ?thesis using trans [of z y x] xA yA by blast
    qed
    then have "descending (x # y # ys)" using Cons.prems(3) by (simp add: descending_def)
    moreover have "insert_tail f x (y # ys) = Some (x # y # ys)"
      using fy False by (auto split: ordering.splits)
    ultimately show ?thesis by simp
  qed
qed

lemma sort_onto_ok:
  assumes "set xs \<subseteq> A" "set acc \<subseteq> A" "descending acc" "\<And>a b. a \<in> A \<Longrightarrow> b \<in> A \<Longrightarrow> f a b = Some (c a b)"
  shows "\<exists>zs. sort_onto f acc xs = Some zs \<and> mset zs = mset acc + mset xs \<and> descending (rev zs) \<and>
    (\<forall>k \<in> A. filter (\<lambda>z. c k z = Equal) zs = filter (\<lambda>z. c k z = Equal) (rev acc @ xs))"
  using assms
proof (induction xs arbitrary: acc)
  case Nil
  then show ?case by simp
next
  case (Cons x xs)
  from insert_tail_ok [of x acc f] Cons.prems obtain acc' where a: "insert_tail f x acc = Some acc'"
    "mset acc' = add_mset x (mset acc)" "descending acc'"
    "\<forall>k \<in> A. filter (\<lambda>z. c k z = Equal) acc' = (if c k x = Equal then [x] else []) @ filter (\<lambda>z. c k z = Equal) acc"
    by auto
  have s: "set acc' = insert x (set acc)" using a(2) by (metis set_mset_add_mset_insert set_mset_mset)
  have "\<exists>zs. sort_onto f acc' xs = Some zs \<and> mset zs = mset acc' + mset xs \<and> descending (rev zs) \<and>
    (\<forall>k \<in> A. filter (\<lambda>z. c k z = Equal) zs = filter (\<lambda>z. c k z = Equal) (rev acc' @ xs))"
    by (rule Cons.IH) (use Cons.prems a(3) s in auto)
  then obtain zs where zs: "sort_onto f acc' xs = Some zs" "mset zs = mset acc' + mset xs" "descending (rev zs)"
    "\<forall>k \<in> A. filter (\<lambda>z. c k z = Equal) zs = filter (\<lambda>z. c k z = Equal) (rev acc' @ xs)" by blast
  have "filter (\<lambda>z. c k z = Equal) zs = filter (\<lambda>z. c k z = Equal) (rev acc @ x # xs)" if "k \<in> A" for k
    using zs(4) [rule_format, OF that] a(4) [rule_format, OF that] by (simp add: rev_filter [symmetric])
  with zs a(1,2) show ?case by (auto simp: ac_simps)
qed

lemma sort_by_ok:
  assumes "set xs \<subseteq> A" "\<And>a b. a \<in> A \<Longrightarrow> b \<in> A \<Longrightarrow> f a b = Some (c a b)"
  shows "\<exists>ys. sort_by f xs = Some ys \<and> mset ys = mset xs \<and> sorted_wrt (\<lambda>a b. c a b \<noteq> Greater) ys \<and>
    (\<forall>k \<in> A. filter (\<lambda>z. c k z = Equal) ys = filter (\<lambda>z. c k z = Equal) xs)"
  using sort_onto_ok [of xs "[]" f] assms
  by (auto simp: sort_by_def descending_def sorted_wrt_rev)

text \<open>A stable sort is determined by its input.\<close>

lemma sorted_stable:
  assumes "sorted_wrt (\<lambda>a b. c a b \<noteq> Greater) ys" "sorted_wrt (\<lambda>a b. c a b \<noteq> Greater) zs"
    and "mset ys = mset zs" "set ys \<subseteq> A"
    and "\<And>k. k \<in> A \<Longrightarrow> filter (\<lambda>z. c k z = Equal) ys = filter (\<lambda>z. c k z = Equal) zs"
  shows "ys = zs"
  using assms
proof (induction ys arbitrary: zs)
  case Nil
  then show ?case by simp
next
  case (Cons x ys)
  obtain z zs' where z: "zs = z # zs'" using Cons.prems(3) by (cases zs) auto
  have s: "set zs = insert x (set ys)" using Cons.prems(3) by (metis list.simps(15) set_mset_mset)
  have xA: "x \<in> A" and zA: "z \<in> A" using Cons.prems(4) s z by auto
  have self: "c k k = Equal" if "k \<in> A" for k using reverse [OF that that] by (cases "c k k") auto
  have "c x z \<noteq> Greater"
  proof (cases "z = x")
    case False
    then have "z \<in> set ys" using s z by auto
    then show ?thesis using Cons.prems(1) by simp
  qed (simp add: self xA)
  moreover have "c z x \<noteq> Greater"
  proof (cases "z = x")
    case False
    then have "x \<in> set zs'" using s z by auto
    then show ?thesis using Cons.prems(2) z by simp
  qed (simp add: self xA)
  ultimately have "c x z = Equal" using reverse [OF xA zA] by (cases "c x z") auto
  then have xz: "x = z" using Cons.prems(5) [OF xA] self [OF xA] z by simp
  have "filter (\<lambda>z. c k z = Equal) ys = filter (\<lambda>z. c k z = Equal) zs'" if "k \<in> A" for k
    using Cons.prems(5) [OF that] z xz by (simp split: if_splits)
  then have "ys = zs'" by (intro Cons.IH) (use Cons.prems z xz in auto)
  with xz z show ?case by simp
qed

end

text \<open>Comparisons are made of comparisons: through a function, reversed, and key after key.\<close>

lemma comparator_via: "comparator B c \<Longrightarrow> f ` A \<subseteq> B \<Longrightarrow> comparator A (\<lambda>a b. c (f a) (f b))"
  unfolding comparator_def image_subset_iff by metis

lemma ord_reverse_Greater [simp]: "ord_reverse o1 = Greater \<longleftrightarrow> o1 = Less"
  by (cases o1) auto

lemma ord_reverse_Equal [simp]: "ord_reverse o1 = Equal \<longleftrightarrow> o1 = Equal"
  by (cases o1) auto

lemma comparator_reversed:
  assumes "comparator A c"
  shows "comparator A (\<lambda>a b. ord_reverse (c a b))"
proof
  fix a b assume "a \<in> A" "b \<in> A"
  then show "ord_reverse (c b a) = ord_reverse (ord_reverse (c a b))"
    by (simp add: comparator.reverse [OF assms, of a b])
next
  fix a b d assume A: "a \<in> A" "b \<in> A" "d \<in> A"
    and "ord_reverse (c a b) \<noteq> Greater" "ord_reverse (c b d) \<noteq> Greater"
  then have "c b a \<noteq> Greater" "c d b \<noteq> Greater"
    by (simp_all add: comparator.reverse [OF assms A(1,2)] comparator.reverse [OF assms A(2,3)])
  with comparator.trans [OF assms A(3,2,1)] have "c d a \<noteq> Greater" by blast
  then show "ord_reverse (c a d) \<noteq> Greater" by (simp add: comparator.reverse [OF assms A(1,3)])
qed

lemma comparator_then:
  assumes c: "comparator A c" and d: "comparator A d"
  shows "comparator A (\<lambda>a b. if c a b \<noteq> Equal then c a b else d a b)"
proof
  fix a b assume "a \<in> A" "b \<in> A"
  then show "(if c b a \<noteq> Equal then c b a else d b a) =
      ord_reverse (if c a b \<noteq> Equal then c a b else d a b)"
    by (simp add: comparator.reverse [OF c, of a b] comparator.reverse [OF d, of a b])
next
  fix x y z assume A: "x \<in> A" "y \<in> A" "z \<in> A"
    and xy: "(if c x y \<noteq> Equal then c x y else d x y) \<noteq> Greater"
    and yz: "(if c y z \<noteq> Equal then c y z else d y z) \<noteq> Greater"
  show "(if c x z \<noteq> Equal then c x z else d x z) \<noteq> Greater"
  proof (cases "c x y = Equal")
    case True
    then have "c x z = c y z" by (rule comparator.equal_cong [OF c A])
    with True xy yz comparator.trans [OF d A] show ?thesis by (auto split: if_splits)
  next
    case False
    with xy have "c x y = Less" by (cases "c x y") auto
    moreover have "c y z \<noteq> Greater" using yz by (auto split: if_splits)
    ultimately have "c x z = Less" by (rule comparator.less_trans [OF c A])
    then show ?thesis by simp
  qed
qed

text \<open>The comparison of values is one on the numbers, and one on the other texts.\<close>

lemma cmp_Greater [simp]: "cmp a b = Greater \<longleftrightarrow> b < a"
  by (auto simp: cmp_def)

interpretation numbers: comparator "{v. is_number v}" db_value_cmp
proof
  show "db_value_cmp b a = ord_reverse (db_value_cmp a b)" for a b by (rule db_value_cmp_reverse)
qed (simp add: db_value_cmp_numbers not_less)

interpretation texts: comparator "{v. is_text v}" db_value_cmp
proof
  show "db_value_cmp b a = ord_reverse (db_value_cmp a b)" for a b by (rule db_value_cmp_reverse)
qed (simp add: db_value_cmp_text not_less)

section \<open>Sorting rows\<close>

text \<open>The key of a row, and the rows whose keys evaluate to values of one sort.\<close>

definition order_key :: "eval_env \<Rightarrow> col_map \<Rightarrow> sql_expr \<Rightarrow> row \<Rightarrow> db_value" where
  "order_key E m e r = or_null (the (eval_expr E r m e))"

definition evaluates :: "eval_env \<Rightarrow> col_map \<Rightarrow> order_item list \<Rightarrow> row \<Rightarrow> bool" where
  "evaluates E m order r = (\<forall>(e, d) \<in> set order. eval_expr E r m e \<noteq> None)"

definition one_sort :: "eval_env \<Rightarrow> col_map \<Rightarrow> order_item list \<Rightarrow> row set \<Rightarrow> bool" where
  "one_sort E m order A =
     (\<forall>(e, d) \<in> set order. (\<forall>r \<in> A. is_number (order_key E m e r)) \<or> (\<forall>r \<in> A. is_text (order_key E m e r)))"

lemma compare_rows_defined:
  "evaluates E m order a \<Longrightarrow> evaluates E m order b \<Longrightarrow> compare_rows E m order a b \<noteq> None"
  by (induction E m order a b rule: compare_rows.induct) (auto simp: evaluates_def Let_def)

lemma key_comparator:
  assumes "(\<forall>r \<in> A. is_number (order_key E m e r)) \<or> (\<forall>r \<in> A. is_text (order_key E m e r))"
  shows "comparator A (\<lambda>a b. db_value_cmp (order_key E m e a) (order_key E m e b))"
  using assms comparator_via [OF numbers.comparator_axioms, of "order_key E m e" A]
    comparator_via [OF texts.comparator_axioms, of "order_key E m e" A] by auto

lemma comparator_cong:
  assumes c: "comparator A c" and e: "\<And>a b. a \<in> A \<Longrightarrow> b \<in> A \<Longrightarrow> c a b = d a b"
  shows "comparator A d"
proof
  show "d b a = ord_reverse (d a b)" if "a \<in> A" "b \<in> A" for a b
    using comparator.reverse [OF c that] by (simp only: e that)
  show "d x z \<noteq> Greater" if "x \<in> A" "y \<in> A" "z \<in> A" "d x y \<noteq> Greater" "d y z \<noteq> Greater" for x y z
    using comparator.trans [OF c that(1-3)] that(4,5) by (simp only: e that(1-3)) simp
qed

lemma rows_comparator:
  "\<forall>r \<in> A. evaluates E m order r \<Longrightarrow> one_sort E m order A \<Longrightarrow>
     comparator A (\<lambda>a b. the (compare_rows E m order a b))"
proof (induction order)
  case Nil
  show ?case by (simp add: comparator_def)
next
  case (Cons item items)
  obtain e d where i: "item = (e, d)" by (cases item)
  let ?k = "\<lambda>a b. db_value_cmp (order_key E m e a) (order_key E m e b)"
  let ?c = "\<lambda>a b. if case d of Some d \<Rightarrow> d | None \<Rightarrow> True then ?k a b else ord_reverse (?k a b)"
  have k: "comparator A ?k" using Cons.prems(2) i by (intro key_comparator) (simp add: one_sort_def)
  have "comparator A ?c"
    using k comparator_reversed [OF k] by (cases "case d of Some d \<Rightarrow> d | None \<Rightarrow> True") simp_all
  moreover have "comparator A (\<lambda>a b. the (compare_rows E m items a b))"
    using Cons.prems by (intro Cons.IH) (auto simp: evaluates_def one_sort_def)
  ultimately have "comparator A (\<lambda>a b. if ?c a b \<noteq> Equal then ?c a b else the (compare_rows E m items a b))"
    by (rule comparator_then)
  then show ?case
  proof (rule comparator_cong)
    fix a b assume A: "a \<in> A" "b \<in> A"
    have "eval_expr E a m e \<noteq> None" "eval_expr E b m e \<noteq> None"
      using Cons.prems(1) A i by (auto simp: evaluates_def)
    then show "(if ?c a b \<noteq> Equal then ?c a b else the (compare_rows E m items a b)) =
        the (compare_rows E m (item # items) a b)"
      by (auto simp: i order_key_def Let_def)
  qed
qed

lemma sort_rows_ok:
  assumes "\<forall>r \<in> set rows. evaluates E m order r" "one_sort E m order (set rows)"
  shows "\<exists>ys. sort_rows E rows order m = pok ys \<and> mset ys = mset rows \<and>
    sorted_wrt (\<lambda>a b. compare_rows E m order a b \<noteq> Some Greater) ys \<and>
    (\<forall>k \<in> set rows. filter (\<lambda>r. compare_rows E m order k r = Some Equal) ys =
                      filter (\<lambda>r. compare_rows E m order k r = Some Equal) rows)"
proof (cases "order = []")
  case True
  then show ?thesis by (simp add: sort_rows_def sorted_wrt_iff_nth_less)
next
  case False
  have d: "compare_rows E m order a b = Some (the (compare_rows E m order a b))"
    if "a \<in> set rows" "b \<in> set rows" for a b
    using compare_rows_defined [of E m order a b] that assms(1) by simp
  from comparator.sort_by_ok [OF rows_comparator [OF assms], of rows, OF _ d] obtain ys where
    ys: "sort_by (compare_rows E m order) rows = Some ys" "mset ys = mset rows"
    "sorted_wrt (\<lambda>a b. the (compare_rows E m order a b) \<noteq> Greater) ys"
    "\<forall>k \<in> set rows. filter (\<lambda>z. the (compare_rows E m order k z) = Equal) ys =
                      filter (\<lambda>z. the (compare_rows E m order k z) = Equal) rows" by auto
  have s: "set ys = set rows" using ys(2) by (metis set_mset_mset)
  have "sorted_wrt (\<lambda>a b. compare_rows E m order a b \<noteq> Some Greater) ys"
    using ys(3) by (rule sorted_wrt_mono_rel [rotated]) auto
  moreover have "filter (\<lambda>r. compare_rows E m order k r = Some Equal) xs =
      filter (\<lambda>z. the (compare_rows E m order k z) = Equal) xs" if "k \<in> set rows" "set xs = set rows" for k xs
    by (rule filter_cong [OF refl]) (use d [OF that(1)] that(2) in force)
  ultimately show ?thesis using ys s False by (intro exI [of _ ys]) (simp add: sort_rows_def)
qed

end
