(* ===== verification/SetOps.thy ===== *)
theory SetOps
  imports Eval "HOL-Library.Multiset" "HOL-Library.Sublist"
begin

text \<open>
  \<open>stmts/select/union.rs\<close>: UNION, INTERSECT and EXCEPT over the JSON rows of the two branches.
  A result is a header row and data rows.  The rows are lists of JSON values compared by equality,
  so their type is a parameter; running a branch, and reading and printing JSON, are arguments.
  \<open>rows[1..]\<close> of a result without a header row panics.
\<close>

datatype set_operator = SetUnion | SetExcept | SetMinus | SetIntersect

text \<open>\<open>&rows[1..]\<close>.\<close>

fun data_rows :: "'r list \<Rightarrow> 'r list panicking" where
  "data_rows [] = None"
| "data_rows (h # rs) = Some rs"

text \<open>Append the rows that are not there yet.\<close>

fun push_new :: "'r list \<Rightarrow> 'r list \<Rightarrow> 'r list" where
  "push_new acc [] = acc"
| "push_new acc (r # rs) = (if r \<in> set acc then push_new acc rs else push_new (acc @ [r]) rs)"

text \<open>\<open>row_counts\<close>: the distinct rows in order of first occurrence with their multiplicities.\<close>

fun count_row :: "'r \<Rightarrow> ('r \<times> nat) list \<Rightarrow> ('r \<times> nat) list" where
  "count_row r [] = [(r, 1)]"
| "count_row r ((s, n) # cs) = (if s = r then (s, n + 1) # cs else (s, n) # count_row r cs)"

definition row_counts :: "'r list \<Rightarrow> ('r \<times> nat) list" where
  "row_counts rows = fold count_row rows []"

fun intersect_counts :: "('r \<times> nat) list \<Rightarrow> ('r \<times> nat) list \<Rightarrow> 'r list" where
  "intersect_counts [] rc = []"
| "intersect_counts ((l, n) # lc) rc =
     (case List.find (\<lambda>p. fst p = l) rc of
        None \<Rightarrow> []
      | Some p \<Rightarrow> replicate (min n (snd p)) l) @ intersect_counts lc rc"

definition combine_rows :: "set_operator \<Rightarrow> bool \<Rightarrow> 'r list \<Rightarrow> 'r list \<Rightarrow> 'r list panicking" where
  "combine_rows opr is_all l r =
     (if opr = SetUnion \<and> is_all
      then Some (if l \<noteq> [] \<and> r \<noteq> [] then l @ tl r else l @ r)
      else if opr = SetUnion
      then (if l = [] then Some []
            else map_option (\<lambda>rs. hd l # push_new [] (tl l @ rs)) (data_rows r))
      else if opr = SetExcept \<and> is_all
      then Some (if 1 < length l \<and> 1 < length r then hd l # fold remove1 (tl r) (tl l) else l)
      else if opr = SetExcept \<or> opr = SetMinus
      then (case l of
              [] \<Rightarrow> Some []
            | [h] \<Rightarrow> Some [h]
            | h # ls \<Rightarrow> map_option (\<lambda>rs. h # filter (\<lambda>x. x \<notin> set rs) ls) (data_rows r))
      else if is_all
      then Some (if l \<noteq> [] \<and> 1 < length r
                 then hd l # intersect_counts (row_counts (tl l)) (row_counts (tl r)) else [])
      else (case l of
              [] \<Rightarrow> Some []
            | [h] \<Rightarrow> Some [h]
            | h # ls \<Rightarrow> map_option (\<lambda>rs. h # push_new [] (filter (\<lambda>x. x \<in> set rs) ls)) (data_rows r)))"

datatype 'q set_expr = SetOperation "'q set_expr" set_operator bool "'q set_expr" | SetSelect 'q

text \<open>\<open>exec_union\<close>: \<open>select\<close> runs a branch, \<open>parse\<close> is \<open>from_str(..).unwrap_or_default()\<close> and
  \<open>print\<close> is \<open>to_string\<close>.\<close>

fun exec_union :: "('q set_expr \<Rightarrow> 'db \<Rightarrow> (rstr eres \<times> 'db) panicking) \<Rightarrow> (rstr \<Rightarrow> 'r list) \<Rightarrow> ('r list \<Rightarrow> rstr)
    \<Rightarrow> 'q set_expr \<Rightarrow> 'db \<Rightarrow> (rstr eres \<times> 'db) panicking" where
  "exec_union select parse print (SetSelect q) db = Some (Inl (ExecError ''Expected SetOperation''), db)"
| "exec_union select parse print (SetOperation left opr is_all right) db =
     (case select left db of
        None \<Rightarrow> None
      | Some (Inl e, db1) \<Rightarrow> Some (Inl e, db1)
      | Some (Inr lj, db1) \<Rightarrow>
          (case select right db1 of
             None \<Rightarrow> None
           | Some (Inl e, db2) \<Rightarrow> Some (Inl e, db2)
           | Some (Inr rj, db2) \<Rightarrow>
               map_option (\<lambda>rows. (Inr (print rows), db2)) (combine_rows opr is_all (parse lj) (parse rj))))"

section \<open>What the combinations hold\<close>

lemma push_new_props:
  "distinct acc \<Longrightarrow> distinct (push_new acc rs) \<and> set (push_new acc rs) = set acc \<union> set rs"
  by (induction acc rs rule: push_new.induct) auto

lemma push_new_prefix: "\<exists>ys. push_new acc rs = acc @ ys \<and> subseq ys rs"
proof (induction acc rs rule: push_new.induct)
  case (2 acc r rs)
  show ?case
  proof (cases "r \<in> set acc")
    case True
    with "2.IH"(1) obtain ys where "push_new acc rs = acc @ ys" "subseq ys rs" by blast
    with True show ?thesis by auto
  next
    case False
    with "2.IH"(2) obtain ys where "push_new (acc @ [r]) rs = (acc @ [r]) @ ys" "subseq ys rs" by blast
    with False show ?thesis by (intro exI [of _ "r # ys"]) simp
  qed
qed simp

lemma mset_fold_remove1: "mset (fold remove1 rs ls) = mset ls - mset rs"
  by (induction rs arbitrary: ls) (auto simp: diff_diff_add)

definition total_count :: "('r \<times> nat) list \<Rightarrow> 'r \<Rightarrow> nat" where
  "total_count cs x = (case List.find (\<lambda>p. fst p = x) cs of None \<Rightarrow> 0 | Some p \<Rightarrow> snd p)"

lemma total_count_simps [simp]:
  "total_count [] x = 0"
  "total_count ((s, n) # cs) x = (if s = x then n else total_count cs x)"
  by (simp_all add: total_count_def)

lemma count_row_keys:
  "set (map fst (count_row r cs)) = insert r (set (map fst cs))"
  "distinct (map fst cs) \<Longrightarrow> distinct (map fst (count_row r cs))"
  by (induction r cs rule: count_row.induct) auto

lemma total_count_count_row: "total_count (count_row r cs) x = total_count cs x + (if r = x then 1 else 0)"
  by (induction r cs rule: count_row.induct) auto

lemma fold_count_row:
  "distinct (map fst cs) \<Longrightarrow> distinct (map fst (fold count_row rows cs)) \<and>
     (\<forall>x. total_count (fold count_row rows cs) x = total_count cs x + count (mset rows) x)"
  by (induction rows arbitrary: cs) (auto simp: count_row_keys(2) total_count_count_row)

lemma row_counts_count: "total_count (row_counts rows) x = count (mset rows) x" "distinct (map fst (row_counts rows))"
  using fold_count_row [of "[]" rows] by (simp_all add: row_counts_def)

lemma count_intersect_counts:
  "distinct (map fst lc) \<Longrightarrow>
     count (mset (intersect_counts lc rc)) x = min (total_count lc x) (total_count rc x)"
proof (induction lc rc rule: intersect_counts.induct)
  case (2 l n lc rc)
  have "total_count lc l = 0" using "2.prems" by (induction lc) auto
  with 2 show ?case by (auto simp: total_count_def split: option.splits)
qed simp

lemma mset_intersect_counts: "mset (intersect_counts (row_counts ls) (row_counts rs)) = mset ls \<inter># mset rs"
  by (rule multiset_eqI) (simp add: count_intersect_counts row_counts_count)

end
