(* ===== verification/QueryProps.thy ===== *)
theory QueryProps
  imports TableProps Sorting SetOps
begin

text \<open>
  The properties of ORDER BY, LIMIT / OFFSET and the set operations.
\<close>

section \<open>ORDER BY\<close>


definition name_order :: "order_item list" where
  "name_order = [(Identifier ''name'', Some False)]"

definition name_rows :: "row list" where
  "name_rows = [[DString ''ann'', DInt 1], [DString ''bob'', DInt 2]]"

definition name_map :: col_map where
  "name_map = [''name'' \<mapsto> 0, ''age'' \<mapsto> 1]"

lemma name_key: "r \<in> set name_rows \<Longrightarrow> eval_expr no_env r name_map (Identifier ''name'') = pok (r ! 0)"
  by (auto simp: name_rows_def name_map_def eval_identifier_def to_lowercase_def is_ascii_def
      to_ascii_lowercase_def ascii_lower_def cell_def)

lemma not_numeric: "is_text (DString ''ann'')" "is_text (DString ''bob'')"
  by (simp_all add: is_text_def parse_f64_def Let_def to_ascii_lowercase_def ascii_lower_def
      parse_exponent_def is_digit_def)


section \<open>LIMIT and OFFSET\<close>

text \<open>LIMIT and OFFSET list the slice of the rows from the offset on, at most as many as the limit
  says; the one exception is a limit so large that adding it to the offset passes 64 bits, where the
  code panics instead of listing the rows.\<close>

theorem limit_offset_slice:
  "apply_limit_offset rows clause =
     (case limit_values clause of
        (off, None) \<Rightarrow> Some (drop off rows)
      | (off, Some l) \<Rightarrow> (if 2 ^ 64 \<le> min off (length rows) + l then None
                         else Some (take l (drop off rows))))"
proof (cases "limit_values clause")
  case (Pair off lim)
  show ?thesis
  proof (cases lim)
    case None
    then show ?thesis
      by (cases "off \<le> length rows") (auto simp: Pair apply_limit_offset_def Let_def min_def)
  next
    case (Some l)
    let ?s = "min off (length rows)"
    show ?thesis
    proof (cases "2 ^ 64 \<le> ?s + l")
      case True
      have "(?s + l) mod 2 ^ 64 < ?s"
        by (rule wrapped_sum [OF True]) (use limit_values_bound [OF Pair] Some in simp)
      then have "\<not> ?s \<le> (?s + l) mod 2 ^ 64" by linarith
      then show ?thesis using True by (simp add: Pair Some apply_limit_offset_def Let_def)
    next
      case False
      then have "(?s + l) mod 2 ^ 64 = ?s + l" by simp
      then have "apply_limit_offset rows clause = Some (take (min (?s + l) (length rows) - ?s) (drop ?s rows))"
        by (simp add: Pair Some apply_limit_offset_def Let_def)
      also have "\<dots> = Some (take l (drop off rows))"
        by (cases "off \<le> length rows"; cases "off + l \<le> length rows") (auto simp: min_def)
      finally show ?thesis using False by (simp add: Pair Some)
    qed
  qed
qed

section \<open>Set operations\<close>

text \<open>Over two results with header rows, the ALL variants combine the data rows as multisets: UNION ALL
  adds, EXCEPT ALL subtracts, INTERSECT ALL takes the smaller multiplicity; every variant keeps the header
  of the left result, except INTERSECT ALL against an empty right side, which returns no row at all.\<close>

theorem set_operations_all:
  "(\<exists>ys. combine_rows SetUnion True (h # ls) (g # rs) = Some (h # ys) \<and> mset ys = mset ls + mset rs) \<and>
   (\<exists>ys. combine_rows SetExcept True (h # ls) (g # rs) = Some (h # ys) \<and> mset ys = mset ls - mset rs) \<and>
   (if rs = [] then combine_rows SetIntersect True (h # ls) (g # rs) = Some []
    else \<exists>ys. combine_rows SetIntersect True (h # ls) (g # rs) = Some (h # ys) \<and> mset ys = mset ls \<inter># mset rs)"
  by (auto simp: combine_rows_def mset_fold_remove1 mset_intersect_counts)

text \<open>UNION and INTERSECT list each row of the union or intersection once, in order of first
  occurrence; EXCEPT and MINUS list the left rows that the right side lacks, but keep repeated left rows,
  so they are not the set difference the DISTINCT reading asks for.\<close>

theorem set_operations_distinct:
  "(\<exists>ys. combine_rows SetUnion False (h # ls) (g # rs) = Some (h # ys) \<and> distinct ys \<and>
       set ys = set ls \<union> set rs \<and> subseq ys (ls @ rs)) \<and>
   (\<exists>ys. combine_rows SetIntersect False (h # ls) (g # rs) = Some (h # ys) \<and> distinct ys \<and>
       set ys = set ls \<inter> set rs \<and> subseq ys ls) \<and>
   combine_rows SetExcept False (h # ls) (g # rs) = Some (h # filter (\<lambda>x. x \<notin> set rs) ls) \<and>
   combine_rows SetMinus is_all (h # ls) (g # rs) = Some (h # filter (\<lambda>x. x \<notin> set rs) ls)"
proof (intro conjI)
  obtain ys where "push_new [] (ls @ rs) = ys" "subseq ys (ls @ rs)"
    using push_new_prefix [of "[]" "ls @ rs"] by auto
  then show "\<exists>ys. combine_rows SetUnion False (h # ls) (g # rs) = Some (h # ys) \<and> distinct ys \<and>
       set ys = set ls \<union> set rs \<and> subseq ys (ls @ rs)"
    using push_new_props [of "[]" "ls @ rs"] by (auto simp: combine_rows_def)
next
  let ?m = "filter (\<lambda>x. x \<in> set rs) ls"
  obtain ys where y: "push_new [] ?m = ys" "subseq ys ?m" using push_new_prefix [of "[]" ?m] by auto
  then have "subseq ys ls" by (meson subseq_filter_left subseq_order.trans)
  with y push_new_props [of "[]" ?m] show "\<exists>ys. combine_rows SetIntersect False (h # ls) (g # rs) = Some (h # ys) \<and>
       distinct ys \<and> set ys = set ls \<inter> set rs \<and> subseq ys ls"
    by (cases ls) (auto simp: combine_rows_def)
qed (cases ls; auto simp: combine_rows_def)+

end
