(* ===== verification/TextFormats.thy ===== *)
theory TextFormats
  imports Binary
begin

text \<open>
  \<open>serialize.rs\<close>, \<open>serialize/csv.rs\<close> and \<open>serialize/json.rs\<close>: the SQL dump, CSV, JSON and the
  hexadecimal transport of the save file.  Parsing JSON text into a value tree and printing a tree are
  the JSON library's (arguments here); its value type is written out, because the code takes it apart.
\<close>

section \<open>CSV\<close>

definition newline :: char where "newline = CHR 0x0A"
definition dquote :: char where "dquote = CHR 0x22"
definition squote :: char where "squote = CHR 0x27"

definition csv_quote :: "rstr \<Rightarrow> rstr" where
  "csv_quote s =
     (if CHR '','' \<in> set s \<or> dquote \<in> set s \<or> newline \<in> set s
      then dquote # replace_char dquote [dquote, dquote] s @ [dquote] else s)"

fun value_to_display :: "db_value \<Rightarrow> rstr" where
  "value_to_display DNull = []"
| "value_to_display (DBool b) = bool_to_string b"
| "value_to_display (DInt n) = i64_to_string n"
| "value_to_display (DFloat f) = f64_to_string f"
| "value_to_display (DString s) = s"
| "value_to_display (DStrings v) = join '';'' v"
| "value_to_display (DFloats v) = join '';'' (map f64_to_string v)"

definition csv_line :: "rstr list \<Rightarrow> rstr" where
  "csv_line fs = join '','' (map csv_quote fs)"

definition export_csv :: "table \<Rightarrow> rstr" where
  "export_csv t =
     (let header = csv_line (map col_name (tbl_columns t));
          rows = join [newline] (map (\<lambda>r. csv_line (map value_to_display r)) (tbl_rows t))
      in if rows = [] then header else header @ newline # rows)"

text \<open>\<open>str::lines\<close>: a line ends at a newline, with or without a carriage return before it.\<close>

definition strip_cr :: "rstr \<Rightarrow> rstr" where
  "strip_cr l = (if l \<noteq> [] \<and> last l = CHR 0x0D then butlast l else l)"

function text_lines :: "rstr \<Rightarrow> rstr list" where
  "text_lines s =
     (if s = [] then []
      else case dropWhile (\<lambda>c. c \<noteq> newline) s of
             [] \<Rightarrow> [s]
           | _ # rest \<Rightarrow> strip_cr (takeWhile (\<lambda>c. c \<noteq> newline) s) # text_lines rest)"
  by pat_completeness auto
termination
proof (relation "measure length")
  fix s x and rest :: rstr
  assume "s \<noteq> []" and d: "dropWhile (\<lambda>c. c \<noteq> newline) s = x # rest"
  have "length (x # rest) \<le> length s" unfolding d [symmetric] by (rule length_dropWhile_le)
  then show "(rest, s) \<in> measure length" by simp
qed simp

declare text_lines.simps [simp del]

text \<open>\<open>parse_csv_line\<close>: the characters left, the field so far, and whether inside quotes.\<close>

fun csv_scan :: "uchar list \<Rightarrow> uchar list \<Rightarrow> bool \<Rightarrow> rstr list" where
  "csv_scan [] cur q = [trim (utf8 cur)]"
| "csv_scan (c # cs) cur q =
     (if c = 34 \<and> \<not> q then csv_scan cs cur True
      else if c = 34
      then (case cs of
              d # ds \<Rightarrow> (if d = 34 then csv_scan ds (cur @ [34]) True else csv_scan cs cur False)
            | [] \<Rightarrow> csv_scan cs cur False)
      else if c = 44 \<and> \<not> q then trim (utf8 cur) # csv_scan cs [] q
      else csv_scan cs (cur @ [c]) q)"

definition parse_csv_line :: "rstr \<Rightarrow> rstr list" where
  "parse_csv_line line = csv_scan (chars line) [] False"

fun import_csv_rows :: "eval_env \<Rightarrow> nat \<Rightarrow> rstr list \<Rightarrow> table \<Rightarrow> table sres panicking" where
  "import_csv_rows E n [] t = Some (Inr t)"
| "import_csv_rows E n (l # ls) t =
     (let line = trim l
      in if line = [] then import_csv_rows E n ls t
         else let fs = parse_csv_line line
              in if length fs \<noteq> n
                 then Some (Inl (''CSV row has '' @ dec_nat (length fs) @ '' fields, expected '' @ dec_nat n))
                 else case insert_row E (map DString fs) t of
                        None \<Rightarrow> None
                      | Some (Inl e) \<Rightarrow> Some (Inl (error_message e))
                      | Some (Inr t') \<Rightarrow> import_csv_rows E n ls t')"

definition import_csv :: "eval_env \<Rightarrow> rstr \<Rightarrow> rstr \<Rightarrow> 'ast database \<Rightarrow> 'ast database sres panicking" where
  "import_csv E tname csv db =
     (case text_lines csv of
        [] \<Rightarrow> Some (Inl ''Empty CSV'')
      | h # ls \<Rightarrow>
          (let columns = map (\<lambda>n. plain_column (to_lowercase (env_unicode E) n) TString) (parse_csv_line h)
           in case new_table tname columns of
                Inl e \<Rightarrow> Some (Inl e)
              | Inr t \<Rightarrow>
                  map_option (\<lambda>r. bind_res r (\<lambda>t'. create_table tname t' db))
                    (import_csv_rows E (length columns) ls t)))"

section \<open>JSON\<close>

definition json_key :: "rstr \<Rightarrow> rstr" where
  "json_key k = dquote # k @ [dquote] @ '':''"

definition json_text :: "rstr \<Rightarrow> rstr" where
  "json_text s = dquote # s @ [dquote]"

definition json_column :: "column \<Rightarrow> rstr" where
  "json_column c =
     ''{'' @ json_key ''name'' @ json_text (col_name c) @ '','' @
     json_key ''type'' @ json_text (column_type_display (col_dtype c)) @ '','' @
     json_key ''primary_key'' @ bool_to_string (col_primary_key c) @ '','' @
     json_key ''not_null'' @ bool_to_string (col_not_null c) @ ''}''"

definition export_json :: "table \<Rightarrow> rstr" where
  "export_json t =
     ''{'' @ json_key ''name'' @ json_text (tbl_name t) @ '','' @
     json_key ''columns'' @ bracketed (map json_column (tbl_columns t)) @ '','' @
     json_key ''rows'' @ bracketed (map (\<lambda>r. bracketed (map to_json_string r)) (tbl_rows t)) @ ''}''"

definition export_json_db :: "'ast database \<Rightarrow> rstr" where
  "export_json_db db =
     ''{'' @ json_key ''tables'' @
     bracketed (concat (map (\<lambda>n. case get_table n db of Inr t \<Rightarrow> [export_json t] | Inl _ \<Rightarrow> [])
       (table_names db))) @ ''}''"

text \<open>\<open>serde_json::Value\<close>; a number is an unsigned or negative integer or a float.\<close>

datatype json_number = PosInt u64 | NegInt i64 | JFloat f64

datatype json =
    JNull | JBool bool | JNumber json_number | JString rstr | JArray "json list"
  | JObject "(rstr \<times> json) list"

fun json_as_i64 :: "json_number \<Rightarrow> i64 option" where
  "json_as_i64 (PosInt n) = (if int (unat n) \<le> i64_max then Some (of_nat (unat n)) else None)"
| "json_as_i64 (NegInt n) = Some n"
| "json_as_i64 (JFloat _) = None"

fun json_as_f64 :: "json_number \<Rightarrow> f64" where
  "json_as_f64 (PosInt n) = f64_of_int (int (unat n))"
| "json_as_f64 (NegInt n) = i64_as_f64 n"
| "json_as_f64 (JFloat f) = f"

fun json_as_str :: "json \<Rightarrow> rstr option" where
  "json_as_str (JString s) = Some s"
| "json_as_str _ = None"

fun json_as_bool :: "json \<Rightarrow> bool option" where
  "json_as_bool (JBool b) = Some b"
| "json_as_bool _ = None"

fun json_as_object :: "json \<Rightarrow> (rstr \<times> json) list option" where
  "json_as_object (JObject kvs) = Some kvs"
| "json_as_object _ = None"

fun json_as_array :: "json \<Rightarrow> json list option" where
  "json_as_array (JArray vs) = Some vs"
| "json_as_array _ = None"

text \<open>What the JSON library prints: \<open>Display\<close> of a value and \<open>Debug\<close> of an array.\<close>

record json_printer =
  jp_display :: "json \<Rightarrow> rstr"
  jp_debug :: "json list \<Rightarrow> rstr"

fun json_to_dbvalue :: "json_printer \<Rightarrow> json \<Rightarrow> column_type \<Rightarrow> db_value" where
  "json_to_dbvalue J JNull _ = DNull"
| "json_to_dbvalue J (JBool b) _ = DBool b"
| "json_to_dbvalue J (JNumber n) TInt = (case json_as_i64 n of Some i \<Rightarrow> DInt i | None \<Rightarrow> DNull)"
| "json_to_dbvalue J (JNumber n) TFloat = DFloat (json_as_f64 n)"
| "json_to_dbvalue J (JNumber n) _ =
     (let f = json_as_f64 n in if f64_is_integral f then DInt (f64_as_i64 f) else DFloat f)"
| "json_to_dbvalue J (JString s) TStrings = DStrings [s]"
| "json_to_dbvalue J (JString s) _ = DString s"
| "json_to_dbvalue J (JArray arr) TStrings = DStrings (List.map_filter json_as_str arr)"
| "json_to_dbvalue J (JArray arr) TFloats =
     DFloats (List.map_filter (\<lambda>v. case v of JNumber n \<Rightarrow> Some (json_as_f64 n) | _ \<Rightarrow> None) arr)"
| "json_to_dbvalue J (JArray arr) _ =
     (let strs = List.map_filter json_as_str arr
      in if strs \<noteq> [] then DStrings strs else DString (jp_debug J arr))"
| "json_to_dbvalue J v _ = DString (jp_display J v)"

definition type_from_json :: "unicode \<Rightarrow> rstr \<Rightarrow> column_type" where
  "type_from_json U s =
     (let lc = to_lowercase U s;
          base = (if 2 \<le> length lc \<and> drop (length lc - 2) lc = ''[]'' then take (length lc - 2) lc else lc)
      in if base = ''bool'' \<or> base = ''boolean'' then TBool
         else if base = ''int'' \<or> base = ''integer'' then TInt
         else if base = ''float'' \<or> base = ''double'' then TFloat
         else if base = ''string'' \<or> base = ''text'' then TString
         else if base = ''strings'' then TStrings
         else if base = ''floats'' then TFloats
         else TString)"

text \<open>A column: \<open>not_null\<close> is looked up in the table object \<open>tobj\<close>, as the code does.\<close>

definition column_from_json :: "unicode \<Rightarrow> (rstr \<times> json) list \<Rightarrow> json \<Rightarrow> column sres" where
  "column_from_json U tobj v =
     (case json_as_object v of
        None \<Rightarrow> Inl ''Invalid column definition''
      | Some cobj \<Rightarrow>
          (case Option.bind (map_of cobj ''name'') json_as_str of
             None \<Rightarrow> Inl (''Column missing '' @ [squote] @ ''name'' @ [squote])
           | Some name \<Rightarrow>
               Inr (plain_column name
                     (type_from_json U (case Option.bind (map_of cobj ''type'') json_as_str of
                                          Some s \<Rightarrow> s | None \<Rightarrow> ''String''))
                   \<lparr>col_primary_key := (case Option.bind (map_of cobj ''primary_key'') json_as_bool of
                                           Some b \<Rightarrow> b | None \<Rightarrow> False),
                    col_not_null := (case Option.bind (map_of tobj ''not_null'') json_as_bool of
                                       Some b \<Rightarrow> b | None \<Rightarrow> False)\<rparr>)))"

text \<open>A row: \<open>columns[i]\<close> panics when the row is longer than the columns.\<close>

fun row_from_json :: "json_printer \<Rightarrow> json list \<Rightarrow> column list \<Rightarrow> row panicking" where
  "row_from_json J [] cols = Some []"
| "row_from_json J (v # vs) [] = None"
| "row_from_json J (v # vs) (c # cols) =
     map_option ((#) (json_to_dbvalue J v (col_dtype c))) (row_from_json J vs cols)"

fun import_json_rows :: "eval_env \<Rightarrow> json_printer \<Rightarrow> json list \<Rightarrow> table \<Rightarrow> table sres panicking" where
  "import_json_rows E J [] t = Some (Inr t)"
| "import_json_rows E J (v # vs) t =
     (case json_as_array v of
        None \<Rightarrow> Some (Inl ''Row must be an array'')
      | Some cells \<Rightarrow>
          (case row_from_json J cells (tbl_columns t) of
             None \<Rightarrow> None
           | Some r \<Rightarrow>
               (case insert_row E r t of
                  None \<Rightarrow> None
                | Some (Inl e) \<Rightarrow> Some (Inl (''Row insert: '' @ error_message e))
                | Some (Inr t') \<Rightarrow> import_json_rows E J vs t')))"

definition import_json :: "(rstr \<Rightarrow> json sres) \<Rightarrow> eval_env \<Rightarrow> json_printer \<Rightarrow> rstr \<Rightarrow> rstr \<Rightarrow> 'ast database
    \<Rightarrow> 'ast database sres panicking" where
  "import_json parse E J tname text db =
     (case parse text of
        Inl e \<Rightarrow> Some (Inl (''Invalid JSON: '' @ e))
      | Inr v \<Rightarrow>
          (case json_as_object v of
             None \<Rightarrow> Some (Inl ''Expected JSON object'')
           | Some obj \<Rightarrow>
               (case map_of obj ''columns'' of
                  Some (JArray arr) \<Rightarrow>
                    (case map_res (column_from_json (env_unicode E) obj) arr of
                       Inl e \<Rightarrow> Some (Inl e)
                     | Inr columns \<Rightarrow>
                         (case new_table tname columns of
                            Inl e \<Rightarrow> Some (Inl (''Schema: '' @ e))
                          | Inr t \<Rightarrow>
                              map_option (\<lambda>r. bind_res r (\<lambda>t'. create_table tname t' db))
                                (case map_of obj ''rows'' of
                                   Some (JArray rows) \<Rightarrow> import_json_rows E J rows t
                                 | _ \<Rightarrow> Some (Inr t))))
                | _ \<Rightarrow> Some (Inl (''Missing or invalid '' @ [squote] @ ''columns'' @ [squote] @ '' array'')))))"

section \<open>The SQL dump\<close>

definition sql_quoted :: "rstr \<Rightarrow> rstr" where
  "sql_quoted s = squote # replace_char squote [squote, squote] s @ [squote]"

fun sql_value_text :: "db_value \<Rightarrow> rstr" where
  "sql_value_text DNull = ''NULL''"
| "sql_value_text (DBool b) = (if b then ''TRUE'' else ''FALSE'')"
| "sql_value_text (DInt n) = i64_to_string n"
| "sql_value_text (DFloat f) = f64_to_string f"
| "sql_value_text (DString s) = sql_quoted s"
| "sql_value_text (DStrings v) = ''ARRAY['' @ join '','' (map sql_quoted v) @ '']''"
| "sql_value_text (DFloats v) = ''ARRAY['' @ join '','' (map f64_to_string v) @ '']''"

definition sql_column :: "column \<Rightarrow> rstr" where
  "sql_column c =
     join '' '' ([col_name c @ '' '' @ column_type_display (col_dtype c)] @
       (if col_primary_key c then [''PRIMARY KEY''] else []) @
       (if col_auto_increment c then [''AUTO_INCREMENT''] else []) @
       (if col_not_null c then [''NOT NULL''] else []) @
       (case col_default c of Some d \<Rightarrow> [''DEFAULT '' @ db_display d] | None \<Rightarrow> []))"

definition sql_foreign_key :: "foreign_key \<Rightarrow> rstr" where
  "sql_foreign_key fk =
     ''FOREIGN KEY ('' @ fk_local_column fk @ '') REFERENCES '' @ fk_foreign_table fk @ '' ('' @
     fk_foreign_column fk @ '')''"

definition export_sql_table :: "table \<Rightarrow> rstr" where
  "export_sql_table t =
     ''CREATE TABLE '' @ tbl_name t @ '' ('' @
       join '', '' (map sql_column (tbl_columns t) @ map sql_foreign_key (tbl_foreign_keys t)) @ '');'' @ [newline] @
     concat (map (\<lambda>(meta, _). ''CREATE '' @ index_type_display (ix_type meta) @ '' INDEX '' @ ix_name meta @
       '' ON '' @ ix_table meta @ '' ('' @ ix_column meta @ '');'' @ [newline]) (tbl_indices t)) @
     concat (map (\<lambda>r. ''INSERT INTO '' @ tbl_name t @ '' VALUES ('' @ join '', '' (map sql_value_text r) @
       '');'' @ [newline]) (tbl_rows t)) @
     [newline]"

definition export_sql :: "'ast database \<Rightarrow> rstr" where
  "export_sql db =
     ''-- a3sql SQL dump'' @ [newline, newline] @
     concat (map (\<lambda>n. case get_table n db of Inr t \<Rightarrow> export_sql_table t | Inl _ \<Rightarrow> []) (table_names db)) @
     concat (map (\<lambda>n. case get_view n db of
         Some sql \<Rightarrow> ''CREATE VIEW '' @ n @ '' AS '' @ sql @ '';'' @ [newline, newline]
       | None \<Rightarrow> []) (view_names db))"

section \<open>Hexadecimal transport\<close>

definition hex_byte :: "char \<Rightarrow> rstr" where
  "hex_byte b = [hex_digit (of_char b div 16), hex_digit (of_char b mod 16)]"

definition hex_encode :: "bytes \<Rightarrow> rstr" where
  "hex_encode bs = concat (map hex_byte bs)"

definition hex_val :: "char \<Rightarrow> nat option" where
  "hex_val c =
     (let n = of_char c :: nat
      in if 48 \<le> n \<and> n \<le> 57 then Some (n - 48)
         else if 97 \<le> n \<and> n \<le> 102 then Some (n - 87)
         else if 65 \<le> n \<and> n \<le> 70 then Some (n - 55)
         else None)"

text \<open>\<open>u8::from_str_radix(_, 16)\<close> of two bytes: a leading plus sign is allowed.\<close>

definition parse_hex_pair :: "char \<Rightarrow> char \<Rightarrow> char option" where
  "parse_hex_pair a b =
     (if a = CHR ''+'' then map_option char_of (hex_val b)
      else case (hex_val a, hex_val b) of
             (Some x, Some y) \<Rightarrow> Some (char_of (16 * x + y))
           | _ \<Rightarrow> None)"

definition is_continuation :: "char \<Rightarrow> bool" where
  "is_continuation c = is_cont (of_char c)"

text \<open>\<open>&hex[i..i+2]\<close> panics when either end is inside a character.\<close>

fun hex_pairs :: "rstr \<Rightarrow> bytes sres panicking" where
  "hex_pairs (a # b # rest) =
     (if is_continuation a \<or> (rest \<noteq> [] \<and> is_continuation (hd rest)) then None
      else case parse_hex_pair a b of
             None \<Rightarrow> Some (Inl ''Hex decode: invalid digit found in string'')
           | Some c \<Rightarrow> map_option (\<lambda>r. bind_res r (\<lambda>cs. Inr (c # cs))) (hex_pairs rest))"
| "hex_pairs _ = Some (Inr [])"

definition hex_decode :: "rstr \<Rightarrow> bytes sres panicking" where
  "hex_decode s =
     (let hex = trim s
      in if length hex mod 2 \<noteq> 0 then Some (Inl ''Hex string length must be even'') else hex_pairs hex)"

section \<open>Formats\<close>

datatype format = FJson | FCsv | FSql | FBinary

definition format_from_str :: "unicode \<Rightarrow> rstr \<Rightarrow> format sres" where
  "format_from_str U s =
     (let l = to_lowercase U s
      in if l = ''json'' then Inr FJson
         else if l = ''csv'' then Inr FCsv
         else if l = ''sql'' then Inr FSql
         else if l = ''bin'' \<or> l = ''binary'' then Inr FBinary
         else Inl (quote_msg ''Unknown format '' s []))"

fun format_display :: "format \<Rightarrow> rstr" where
  "format_display FJson = ''JSON''"
| "format_display FCsv = ''CSV''"
| "format_display FSql = ''SQL''"
| "format_display FBinary = ''BINARY''"

fun export_as :: "(sql_expr \<Rightarrow> rstr) \<Rightarrow> format \<Rightarrow> table \<Rightarrow> 'ast database \<Rightarrow> rstr" where
  "export_as disp FJson t db = export_json t"
| "export_as disp FCsv t db = export_csv t"
| "export_as disp FSql t db = export_sql db"
| "export_as disp FBinary t db = hex_encode (export_binary disp db)"

fun import_as :: "(rstr \<Rightarrow> json sres) \<Rightarrow> eval_env \<Rightarrow> json_printer \<Rightarrow> format \<Rightarrow> rstr \<Rightarrow> rstr \<Rightarrow> 'ast database
    \<Rightarrow> (string option \<times> 'ast database) panicking" where
  "import_as parse E J FJson tname data db =
     map_option (\<lambda>r. case r of Inl e \<Rightarrow> (Some e, db) | Inr db' \<Rightarrow> (None, db')) (import_json parse E J tname data db)"
| "import_as parse E J FCsv tname data db =
     map_option (\<lambda>r. case r of Inl e \<Rightarrow> (Some e, db) | Inr db' \<Rightarrow> (None, db')) (import_csv E tname data db)"
| "import_as parse E J FSql tname data db =
     Some (Some ''SQL format import not yet supported (use JSON or CSV)'', db)"
| "import_as parse E J FBinary tname data db =
     (case hex_decode data of
        None \<Rightarrow> None
      | Some (Inl e) \<Rightarrow> Some (Some e, db)
      | Some (Inr bytes) \<Rightarrow> import_binary E bytes db)"

end
