(* ===== verification/TextProps.thy ===== *)
theory TextProps
  imports TextFormats TableProps
begin

text \<open>
  The properties of the text formats: the hexadecimal transport is lossless, and a CSV line gives back
  its fields.
\<close>

section \<open>Hexadecimal\<close>

lemma of_char_hex_digit: "d < 16 \<Longrightarrow> (of_char (hex_digit d) :: nat) = (if d < 10 then 48 + d else 87 + d)"
  by (simp add: hex_digit_def)

lemma hex_val_digit [simp]: "d < 16 \<Longrightarrow> hex_val (hex_digit d) = Some d"
  by (simp add: hex_val_def of_char_hex_digit Let_def)

lemma hex_digit_plain [simp]:
  assumes "d < 16"
  shows "hex_digit d \<noteq> CHR ''+''" "\<not> is_continuation (hex_digit d)" "(of_char (hex_digit d) :: nat) < 128"
proof -
  show "hex_digit d \<noteq> CHR ''+''"
  proof
    assume "hex_digit d = CHR ''+''"
    then have "(of_char (hex_digit d) :: nat) = 43" by simp
    with assms show False by (simp add: of_char_hex_digit split: if_splits)
  qed
qed (use assms in \<open>auto simp: is_continuation_def is_cont_def of_char_hex_digit\<close>)

lemma of_char_halves: "(of_char c :: nat) div 16 < 16" "(of_char c :: nat) mod 16 < 16"
proof -
  have "(of_char c :: nat) < 256" by simp
  then show "(of_char c :: nat) div 16 < 16" "(of_char c :: nat) mod 16 < 16" by linarith+
qed

lemma parse_hex_pair_byte: "parse_hex_pair (hex_digit (of_char c div 16)) (hex_digit (of_char c mod 16)) = Some c"
  using of_char_halves [of c] by (simp add: parse_hex_pair_def)

lemma hex_pairs_encode: "hex_pairs (hex_encode bs) = Some (Inr bs)"
proof (induction bs)
  case (Cons b bs)
  have "hex_encode bs = [] \<or> \<not> is_continuation (hd (hex_encode bs))"
    using of_char_halves by (cases bs) (simp_all add: hex_encode_def hex_byte_def)
  with Cons show ?case
    using of_char_halves [of b] by (auto simp: hex_encode_def hex_byte_def parse_hex_pair_byte)
qed (simp add: hex_encode_def)

lemma is_ascii_hex_encode: "is_ascii (hex_encode bs)"
  using of_char_halves by (auto simp: is_ascii_def hex_encode_def hex_byte_def)

lemma hex_not_space: "c \<in> set (chars (hex_encode bs)) \<Longrightarrow> \<not> is_whitespace c"
proof -
  assume "c \<in> set (chars (hex_encode bs))"
  then obtain b where "c = of_char (hex_digit (of_char b div 16)) \<or> c = of_char (hex_digit (of_char b mod 16))"
    by (subst (asm) chars_ascii [OF is_ascii_hex_encode]) (auto simp: bytes_of_def hex_encode_def hex_byte_def)
  then obtain d where "d < 16" "c = of_char (hex_digit d)" using of_char_halves by blast
  then show ?thesis by (auto simp: of_char_hex_digit is_whitespace_def split: if_splits)
qed

lemma dropWhile_none: "\<forall>x \<in> set xs. \<not> P x \<Longrightarrow> dropWhile P xs = xs"
  by (cases xs) auto

lemma trim_no_space: "\<forall>c \<in> set (chars s). \<not> is_whitespace c \<Longrightarrow> trim s = utf8 (chars s)"
  by (simp add: trim_def dropWhile_none)

text \<open>Decoding the hexadecimal text of a byte string gives the bytes back.\<close>

theorem hex_roundtrip: "hex_decode (hex_encode bs) = Some (Inr bs)"
proof -
  have "trim (hex_encode bs) = hex_encode bs"
    using trim_no_space hex_not_space by (metis utf8_chars_ascii is_ascii_hex_encode)
  moreover have "length (hex_encode bs) mod 2 = 0"
    by (induction bs) (simp_all add: hex_encode_def hex_byte_def)
  ultimately show ?thesis by (simp add: hex_decode_def hex_pairs_encode)
qed

section \<open>CSV\<close>

lemma char_of_consts: "char_of (34 :: nat) = CHR 0x22" "char_of (44 :: nat) = CHR '',''" "char_of (10 :: nat) = CHR 0x0A"
  by code_simp+

text \<open>Quoting on characters.\<close>

definition double_quotes :: "uchar list \<Rightarrow> uchar list" where
  "double_quotes cs = concat (map (\<lambda>c. if c = 34 then [34, 34] else [c]) cs)"

definition quote_chars :: "uchar list \<Rightarrow> uchar list" where
  "quote_chars cs = (if 44 \<in> set cs \<or> 34 \<in> set cs \<or> 10 \<in> set cs then 34 # double_quotes cs @ [34] else cs)"

lemma encode_high: "128 \<le> c \<Longrightarrow> b \<in> set (utf8_encode_char c) \<Longrightarrow> 128 \<le> b"
  by (auto simp: utf8_encode_char_def split: if_splits)

lemma utf8_Cons: "utf8 (c # cs) = str_of (utf8_encode_char c) @ utf8 cs"
  by (simp add: utf8_def)

lemma low_in_utf8:
  assumes "\<forall>c \<in> set cs. is_scalar c" "n < 128"
  shows "char_of n \<in> set (utf8 cs) \<longleftrightarrow> n \<in> set cs"
  using assms(1)
proof (induction cs)
  case (Cons c cs)
  have "char_of n \<in> set (str_of (utf8_encode_char c)) \<longleftrightarrow> n = c"
  proof (cases "c < 128")
    case True
    then show ?thesis using assms(2)
      by (auto simp: str_of_def utf8_encode_char_def char_of_eq_iff take_bit_nat_eq_self)
  next
    case False
    have "char_of n \<noteq> (char_of b :: char)" if "b \<in> set (utf8_encode_char c)" for b
    proof
      assume "char_of n = (char_of b :: char)"
      then have "n mod 256 = b mod 256" by (metis of_char_of)
      moreover have "b < 256" using utf8_encode_char_byte [OF _ that] Cons.prems by simp
      ultimately show False using encode_high [OF _ that] False assms(2) by simp
    qed
    then show ?thesis using False assms(2) by (auto simp: str_of_def)
  qed
  with Cons show ?case by (auto simp: utf8_Cons)
qed simp

lemma replace_char_append [simp]: "replace_char c r (a @ b) = replace_char c r a @ replace_char c r b"
  by (simp add: replace_char_def)

lemma replace_char_absent: "c \<notin> set s \<Longrightarrow> replace_char c r s = s"
  by (induction s) (auto simp: replace_char_def)

lemma replace_quotes_utf8:
  "\<forall>c \<in> set cs. is_scalar c \<Longrightarrow> replace_char dquote [dquote, dquote] (utf8 cs) = utf8 (double_quotes cs)"
proof (induction cs)
  case Nil
  then show ?case by (simp add: replace_char_def double_quotes_def)
next
  case (Cons c cs)
  have "replace_char dquote [dquote, dquote] (utf8 [c]) = utf8 (if c = 34 then [34, 34] else [c])"
  proof (cases "c = 34")
    case False
    then have "dquote \<notin> set (utf8 [c])"
      using low_in_utf8 [of "[c]" 34] Cons.prems by (simp add: dquote_def char_of_consts)
    then show ?thesis using False by (simp add: replace_char_absent)
  qed (simp add: utf8_def utf8_encode_char_def str_of_def replace_char_def dquote_def char_of_consts)
  with Cons show ?case
    using utf8_append [of "[c]" cs] by (simp add: double_quotes_def)
qed

lemma csv_quote_utf8:
  assumes "\<forall>c \<in> set cs. is_scalar c"
  shows "csv_quote (utf8 cs) = utf8 (quote_chars cs)"
proof -
  have "utf8 [34] = [dquote]" by (simp add: utf8_def utf8_encode_char_def str_of_def dquote_def char_of_consts)
  then have "utf8 (34 # double_quotes cs @ [34]) = dquote # utf8 (double_quotes cs) @ [dquote]"
    using utf8_append [of "[34]" "double_quotes cs @ [34]"] by simp
  then show ?thesis
    using low_in_utf8 [OF assms, of 34] low_in_utf8 [OF assms, of 44] low_in_utf8 [OF assms, of 10]
    by (simp add: csv_quote_def quote_chars_def replace_quotes_utf8 [OF assms, unfolded dquote_def] dquote_def newline_def char_of_consts)
qed

text \<open>The scanner reads a quoted field back.\<close>

fun join_chars :: "uchar list list \<Rightarrow> uchar list" where
  "join_chars [] = []"
| "join_chars [x] = x"
| "join_chars (x # y # xs) = x @ 44 # join_chars (y # xs)"

lemma join_utf8: "join '','' (map utf8 css) = utf8 (join_chars css)"
proof (induction css rule: join_chars.induct)
  case (3 x y xs)
  have "utf8 (44 # join_chars (y # xs)) = CHR '','' # utf8 (join_chars (y # xs))"
    by (simp add: utf8_Cons utf8_encode_char_def str_of_def char_of_consts)
  with 3 show ?case by simp
qed simp_all

lemma scan_quoted:
  "rest = [] \<or> hd rest \<noteq> 34 \<Longrightarrow>
     csv_scan (double_quotes cs @ 34 # rest) cur True = csv_scan rest (cur @ cs) False"
proof (induction cs arbitrary: cur)
  case Nil
  then show ?case by (cases rest) (auto simp: double_quotes_def)
next
  case (Cons c cs)
  show ?case
  proof (cases "c = 34")
    case True
    then show ?thesis using Cons by (simp add: double_quotes_def)
  next
    case False
    then have "double_quotes (c # cs) = c # double_quotes cs" by (simp add: double_quotes_def)
    then show ?thesis using Cons False by simp
  qed
qed

lemma scan_plain:
  "44 \<notin> set cs \<Longrightarrow> 34 \<notin> set cs \<Longrightarrow> csv_scan (cs @ rest) cur False = csv_scan rest (cur @ cs) False"
  by (induction cs arbitrary: cur) auto

lemma scan_field:
  "rest = [] \<or> hd rest \<noteq> 34 \<Longrightarrow> csv_scan (quote_chars cs @ rest) [] False = csv_scan rest cs False"
  using scan_quoted [of rest cs "[]"] scan_plain [of cs rest "[]"] by (auto simp: quote_chars_def)

lemma scan_fields:
  "css \<noteq> [] \<Longrightarrow> csv_scan (join_chars (map quote_chars css)) [] False = map (\<lambda>cs. trim (utf8 cs)) css"
proof (induction css rule: induct_list012)
  case (2 x)
  then show ?case using scan_field [of "[]" x] by simp
next
  case (3 x y xs)
  then show ?case using scan_field [of "44 # join_chars (map quote_chars (y # xs))" x] by simp
qed simp

definition is_text_field :: "rstr \<Rightarrow> bool" where
  "is_text_field s = (\<exists>cs. (\<forall>c \<in> set cs. is_scalar c) \<and> s = utf8 cs)"

lemma quote_chars_scalar: "\<forall>c \<in> set cs. is_scalar c \<Longrightarrow> \<forall>c \<in> set (quote_chars cs). is_scalar c"
  by (auto simp: quote_chars_def double_quotes_def is_scalar_def split: if_splits)

lemma join_chars_scalar:
  "\<forall>cs \<in> set css. \<forall>c \<in> set cs. is_scalar c \<Longrightarrow> \<forall>c \<in> set (join_chars css). is_scalar c"
  by (induction css rule: join_chars.induct) (auto simp: is_scalar_def)

lemma parse_csv_line_quoted:
  assumes "ss \<noteq> []" "\<forall>s \<in> set ss. is_text_field s"
  shows "parse_csv_line (csv_line ss) = map trim ss"
proof -
  have "\<forall>s. \<exists>cs. s \<in> set ss \<longrightarrow> (\<forall>c \<in> set cs. is_scalar c) \<and> s = utf8 cs"
    using assms(2) by (auto simp: is_text_field_def)
  then obtain f where f: "\<And>s. s \<in> set ss \<Longrightarrow> (\<forall>c \<in> set (f s). is_scalar c) \<and> s = utf8 (f s)" by metis
  let ?css = "map f ss"
  have sc: "\<forall>cs \<in> set ?css. \<forall>c \<in> set cs. is_scalar c" using f by auto
  have ss: "map utf8 ?css = ss" using f by (induction ss) (auto simp: comp_def)
  have "csv_line ss = join '','' (map utf8 (map quote_chars ?css))"
    unfolding csv_line_def using f by (intro arg_cong [of _ _ "join _"]) (auto simp: csv_quote_utf8 [symmetric])
  then have l: "csv_line ss = utf8 (join_chars (map quote_chars ?css))" by (simp only: join_utf8)
  have "\<forall>c \<in> set (join_chars (map quote_chars ?css)). is_scalar c"
    by (rule join_chars_scalar) (use sc quote_chars_scalar in auto)
  then have "parse_csv_line (csv_line ss) = map (\<lambda>cs. trim (utf8 cs)) ?css"
    unfolding parse_csv_line_def l using assms(1) by (simp add: scan_fields del: map_map)
  also have "\<dots> = map trim (map utf8 ?css)" by simp
  finally show ?thesis by (simp only: ss)
qed

text \<open>Parsing an exported CSV line gives back its fields, commas, quotes and newlines included, up to
  the white space at their ends.\<close>

theorem csv_line_roundtrip:
  assumes "ss \<noteq> []" "\<forall>s \<in> set ss. is_text_field s"
  shows "parse_csv_line (csv_line ss) = map trim ss"
  using assms by (rule parse_csv_line_quoted)

lemma is_text_fieldI: "\<forall>c \<in> set cs. is_scalar c \<Longrightarrow> is_text_field (utf8 cs)"
  by (auto simp: is_text_field_def)

theorem csv_line_roundtrip_witness:
  "parse_csv_line (csv_line [utf8 [97, 44, 34], utf8 [233]]) = map trim [utf8 [97, 44, 34], utf8 [233]]"
  by (rule csv_line_roundtrip) (simp_all add: is_text_fieldI is_scalar_def)

end
