(* ===== verification/Session.thy ===== *)
theory Session
  imports TextFormats
begin

text \<open>
  What the statement executors share: the session (the database and the thread-local cells of
  \<open>execute/util.rs\<close>, \<open>trigger.rs\<close> and \<open>builtin.rs\<close>), the sequencing of steps that may fail or panic,
  what the executors need from outside (a record), the result text of a projection, and triggers.
\<close>

section \<open>The session\<close>

text \<open>\<open>TRIGGER_DEPTH\<close>, \<open>RAISE_ABORTED\<close>, \<open>LAST_INSERT_ROWID\<close>, \<open>LAST_CHANGES\<close>, \<open>COPY_STDIN\<close>
  and \<open>SUBQ_DB\<close>, the database that subqueries read.\<close>

record 'ast session =
  se_db :: "'ast database"
  se_depth :: nat
  se_raised :: bool
  se_rowid :: "rstr option"
  se_changes :: nat
  se_stdin :: "rstr option"
  se_snapshot :: "'ast database option"

type_synonym ('ast, 'a) exec = "'ast session \<Rightarrow> ('a eres \<times> 'ast session) panicking"

definition xret :: "'a \<Rightarrow> ('ast, 'a) exec" where
  "xret x s = Some (Inr x, s)"

definition xerr :: "engine_error \<Rightarrow> ('ast, 'a) exec" where
  "xerr e s = Some (Inl e, s)"

definition xbind :: "('ast, 'a) exec \<Rightarrow> ('a \<Rightarrow> ('ast, 'b) exec) \<Rightarrow> ('ast, 'b) exec" where
  "xbind m f s =
     (case m s of
        None \<Rightarrow> None
      | Some (Inl e, s') \<Rightarrow> Some (Inl e, s')
      | Some (Inr x, s') \<Rightarrow> f x s')"

text \<open>A computation that only reads the session.\<close>

definition xread :: "('ast session \<Rightarrow> 'a eres panicking) \<Rightarrow> ('ast, 'a) exec" where
  "xread f s = map_option (\<lambda>r. (r, s)) (f s)"

definition xlift :: "'a sres \<Rightarrow> 'a eres" where
  "xlift r = (case r of Inl e \<Rightarrow> Inl (ExecError e) | Inr x \<Rightarrow> Inr x)"

lemma xbind_simps [simp]:
  "xbind (xret x) f = f x"
  "xbind (xerr e) f = xerr e"
  by (simp_all add: fun_eq_iff xbind_def xret_def xerr_def)

text \<open>\<open>get_table(..).map_err(|_| TableNotFound(..))\<close>.\<close>

definition table_or_missing :: "rstr \<Rightarrow> 'ast database \<Rightarrow> table eres" where
  "table_or_missing n db = (case get_table n db of Inr t \<Rightarrow> Inr t | Inl _ \<Rightarrow> Inl (TableNotFound n))"

definition put_table :: "rstr \<Rightarrow> table \<Rightarrow> 'ast session \<Rightarrow> 'ast session" where
  "put_table n t s = s\<lparr>se_db := add_table n t (se_db s)\<rparr>"

section \<open>Names and items of the syntax\<close>

datatype name_part = NameIdent rstr | NameOther

type_synonym object_name = "name_part list"

definition object_name_str :: "unicode \<Rightarrow> object_name \<Rightarrow> rstr" where
  "object_name_str U n =
     join ''.'' (List.map_filter (\<lambda>p. case p of NameIdent i \<Rightarrow> Some (to_lowercase U i) | NameOther \<Rightarrow> None) n)"

text \<open>A projection item; a window item is a call with an OVER clause.\<close>

datatype select_item =
    UnnamedExpr sql_expr
  | ExprWithAlias sql_expr rstr
  | SelectWildcard
  | OtherItem rstr  \<comment> \<open>its Debug text\<close>

definition is_window :: "sql_expr \<Rightarrow> bool" where
  "is_window e = (case e of Function _ _ mods \<Rightarrow> call_over mods \<noteq> None | _ \<Rightarrow> False)"

fun item_expr :: "select_item \<Rightarrow> sql_expr option" where
  "item_expr (UnnamedExpr e) = Some e"
| "item_expr (ExprWithAlias e _) = Some e"
| "item_expr _ = None"

section \<open>What is outside\<close>

text \<open>
  The evaluator's environment as the session determines it (clock, subqueries over the snapshot,
  change counters), the SELECT executor, the SQL parser (SQLite dialect first, then the generic one),
  reading a result text as JSON rows, and the JSON texts of arrays.
\<close>

record ('ast, 'stmt) host =
  host_env :: "'ast session \<Rightarrow> eval_env"
  host_select :: "query \<Rightarrow> ('ast, rstr) exec"
  host_parse :: "rstr \<Rightarrow> 'stmt list eres"
  host_json_rows :: "rstr \<Rightarrow> json list list sres"
  host_json :: json_printer
  host_json_strings :: "rstr list \<Rightarrow> rstr"
  host_json_floats :: "f64 list \<Rightarrow> rstr"

section \<open>The text of a projection\<close>

definition projection_expr_name :: "unicode \<Rightarrow> sql_expr \<Rightarrow> rstr" where
  "projection_expr_name U e =
     (case e of
        Function nm _ _ \<Rightarrow> to_uppercase U nm
      | Ceil _ \<Rightarrow> ''CEIL''
      | Floor _ \<Rightarrow> ''FLOOR''
      | Identifier i \<Rightarrow> to_lowercase U i
      | CompoundIdentifier ps \<Rightarrow> join ''.'' (map (to_lowercase U) ps)
      | _ \<Rightarrow> ''EXPR'')"

fun item_header :: "unicode \<Rightarrow> select_item \<Rightarrow> rstr" where
  "item_header U (UnnamedExpr e) = projection_expr_name U e"
| "item_header U (ExprWithAlias _ alias) = to_lowercase U alias"
| "item_header U SelectWildcard = []"
| "item_header U (OtherItem d) = d"

text \<open>The cell of a row for an item; \<open>win\<close> is the column of the item's window value.\<close>

definition item_cell :: "eval_env \<Rightarrow> col_map \<Rightarrow> nat \<Rightarrow> select_item \<Rightarrow> row \<Rightarrow> rstr panicking" where
  "item_cell E m win item r =
     (case item_expr item of
        None \<Rightarrow> Some ''null''
      | Some e \<Rightarrow>
          (if is_window e \<and> win < length r then Some (to_json_string (r ! win))
           else map_option (\<lambda>v. case v of Inr x \<Rightarrow> to_json_string x | Inl _ \<Rightarrow> ''null'') (eval_expr E r m e)))"

definition next_window :: "nat \<Rightarrow> select_item \<Rightarrow> nat" where
  "next_window win it = (case item_expr it of Some e \<Rightarrow> (if is_window e then win + 1 else win) | None \<Rightarrow> win)"

fun item_cells :: "eval_env \<Rightarrow> col_map \<Rightarrow> nat \<Rightarrow> select_item list \<Rightarrow> row \<Rightarrow> rstr list panicking" where
  "item_cells E m win [] r = Some []"
| "item_cells E m win (it # its) r =
     (case item_cell E m win it r of
        None \<Rightarrow> None
      | Some c \<Rightarrow>
          map_option ((#) c)
            (item_cells E m (next_window win it) its r))"

fun json_rows :: "(row \<Rightarrow> rstr list panicking) \<Rightarrow> row list \<Rightarrow> rstr list panicking" where
  "json_rows f [] = Some []"
| "json_rows f (r # rs) =
     (case f r of None \<Rightarrow> None | Some cells \<Rightarrow> map_option ((#) (bracketed cells)) (json_rows f rs))"

text \<open>The header of the column map has \<open>card (dom m)\<close> entries; window values follow them.\<close>

definition format_projected_result :: "eval_env \<Rightarrow> row list \<Rightarrow> select_item list \<Rightarrow> col_map \<Rightarrow> table
    \<Rightarrow> rstr panicking" where
  "format_projected_result E rows projection m t =
     (if SelectWildcard \<in> set projection then Some (format_result t rows)
      else map_option
        (\<lambda>js. bracketed (bracketed (map (\<lambda>it. json_text (item_header (env_unicode E) it)) projection) # js))
        (json_rows (item_cells E m (card (dom m)) projection) rows))"

section \<open>Triggers\<close>

definition max_trigger_depth :: nat where
  "max_trigger_depth = 16"

text \<open>\<open>sv\<close>: a value as a literal of the trigger body.\<close>

fun trigger_literal :: "('ast, 'stmt) host \<Rightarrow> db_value \<Rightarrow> rstr" where
  "trigger_literal H DNull = ''NULL''"
| "trigger_literal H (DBool b) = (if b then ''1'' else ''0'')"
| "trigger_literal H (DInt n) = i64_to_string n"
| "trigger_literal H (DFloat f) = f64_to_string f"
| "trigger_literal H (DString s) = sql_quoted s"
| "trigger_literal H (DStrings v) = host_json_strings H v"
| "trigger_literal H (DFloats v) = host_json_floats H v"

definition replace_each :: "rstr list \<Rightarrow> rstr \<Rightarrow> rstr \<Rightarrow> rstr \<Rightarrow> rstr" where
  "replace_each prefixes name rep body = fold (\<lambda>p b. replace_all b (p @ name) rep) prefixes body"

fun substitute_columns :: "('ast, 'stmt) host \<Rightarrow> column list \<Rightarrow> row \<Rightarrow> row \<Rightarrow> rstr \<Rightarrow> rstr" where
  "substitute_columns H [] new old body = body"
| "substitute_columns H (c # cs) new old body =
     (let b1 = (case new of v # _ \<Rightarrow>
                  replace_each [''NEW.'', ''new.'', ''New.''] (col_name c) (trigger_literal H v) body | [] \<Rightarrow> body);
          b2 = (case old of v # _ \<Rightarrow>
                  replace_each [''OLD.'', ''old.'', ''Old.''] (col_name c) (trigger_literal H v) b1 | [] \<Rightarrow> b1)
      in substitute_columns H cs (tl new) (tl old) b2)"

definition trigger_body :: "('ast, 'stmt) host \<Rightarrow> column list \<Rightarrow> row \<Rightarrow> row \<Rightarrow> rstr \<Rightarrow> rstr" where
  "trigger_body H cols new old body =
     fold (\<lambda>p b. replace_all b p []) [''OLD.'', ''old.'', ''NEW.'', ''new.'']
       (substitute_columns H cols new old body)"

definition matching_triggers :: "rstr \<Rightarrow> rstr \<Rightarrow> table \<Rightarrow> trigger_info list" where
  "matching_triggers event timing t =
     filter (\<lambda>tr. tr_event tr = event \<and> tr_timing tr = timing) (tbl_triggers t)"

text \<open>The bodies of the AFTER triggers, one after another; an error only stops its own body.\<close>

fun run_bodies :: "(rstr \<Rightarrow> ('ast, rstr) exec) \<Rightarrow> rstr list \<Rightarrow> 'ast session \<Rightarrow> 'ast session panicking" where
  "run_bodies run [] s = Some s"
| "run_bodies run (b # bs) s = (case run b s of None \<Rightarrow> None | Some (_, s') \<Rightarrow> run_bodies run bs s')"

definition fire_triggers :: "('ast, 'stmt) host \<Rightarrow> (rstr \<Rightarrow> ('ast, rstr) exec) \<Rightarrow> rstr \<Rightarrow> rstr \<Rightarrow> row \<Rightarrow> row
    \<Rightarrow> 'ast session \<Rightarrow> 'ast session panicking" where
  "fire_triggers H run tname event new old s =
     (let prev = se_depth s
      in if max_trigger_depth \<le> prev then Some s
         else map_option (\<lambda>s'. s'\<lparr>se_depth := prev\<rparr>)
           (case get_table tname (se_db s) of
              Inl _ \<Rightarrow> Some (s\<lparr>se_depth := prev + 1\<rparr>)
            | Inr t \<Rightarrow>
                run_bodies run
                  (map (\<lambda>tr. trigger_body H (tbl_columns t) new old (tr_body tr)) (matching_triggers event ''AFTER'' t))
                  (s\<lparr>se_depth := prev + 1\<rparr>)))"

text \<open>The BEFORE triggers stop at the first error or at \<open>RAISE(ABORT)\<close>; the message is the left value.\<close>

fun run_before :: "(rstr \<Rightarrow> ('ast, rstr) exec) \<Rightarrow> (rstr \<times> rstr) list \<Rightarrow> 'ast session
    \<Rightarrow> (unit sres \<times> 'ast session) panicking" where
  "run_before run [] s = Some (Inr (), s)"
| "run_before run ((n, b) # bs) s =
     (case run b (s\<lparr>se_raised := False\<rparr>) of
        None \<Rightarrow> None
      | Some (Inl e, s') \<Rightarrow> Some (Inl (quote_msg ''BEFORE trigger '' n ('' error: '' @ error_message e)), s')
      | Some (Inr _, s') \<Rightarrow>
          (if se_raised s' then Some (Inl (quote_msg ''BEFORE trigger '' n '' aborted''), s'\<lparr>se_raised := False\<rparr>)
           else run_before run bs (s'\<lparr>se_raised := False\<rparr>)))"

definition fire_triggers_before :: "('ast, 'stmt) host \<Rightarrow> (rstr \<Rightarrow> ('ast, rstr) exec) \<Rightarrow> rstr \<Rightarrow> rstr
    \<Rightarrow> row \<Rightarrow> row \<Rightarrow> 'ast session \<Rightarrow> (unit sres \<times> 'ast session) panicking" where
  "fire_triggers_before H run tname event new old s =
     (let prev = se_depth s
      in if max_trigger_depth \<le> prev then Some (Inr (), s)
         else map_option (\<lambda>(r, s'). (r, s'\<lparr>se_depth := prev\<rparr>))
           (case get_table tname (se_db s) of
              Inl _ \<Rightarrow> Some (Inr (), s\<lparr>se_depth := prev + 1\<rparr>)
            | Inr t \<Rightarrow>
                run_before run
                  (map (\<lambda>tr. (tr_name tr, trigger_body H (tbl_columns t) new old (tr_body tr)))
                     (matching_triggers event ''BEFORE'' t))
                  (s\<lparr>se_depth := prev + 1\<rparr>)))"

text \<open>As the executors call it: the message becomes an execution error.\<close>

definition before_triggers :: "('ast, 'stmt) host \<Rightarrow> (rstr \<Rightarrow> ('ast, rstr) exec) \<Rightarrow> rstr \<Rightarrow> rstr \<Rightarrow> ('ast, unit) exec" where
  "before_triggers H run tname event s =
     map_option (\<lambda>(r, s'). (xlift r, s')) (fire_triggers_before H run tname event [] [] s)"

definition after_triggers :: "('ast, 'stmt) host \<Rightarrow> (rstr \<Rightarrow> ('ast, rstr) exec) \<Rightarrow> rstr \<Rightarrow> rstr \<Rightarrow> row \<Rightarrow> row
    \<Rightarrow> ('ast, unit) exec" where
  "after_triggers H run tname event new old s =
     map_option (\<lambda>s'. (Inr (), s')) (fire_triggers H run tname event new old s)"

section \<open>Running a text\<close>

text \<open>\<open>parse_and_exec\<close>: statement after statement, up to the first error.\<close>

fun exec_all :: "('stmt \<Rightarrow> ('ast, rstr) exec) \<Rightarrow> 'stmt list \<Rightarrow> rstr list \<Rightarrow> ('ast, rstr) exec" where
  "exec_all ex [] acc = xret (join [newline] acc)"
| "exec_all ex (st # sts) acc = xbind (ex st) (\<lambda>r. exec_all ex sts (acc @ [r]))"

definition parse_and_exec :: "('ast, 'stmt) host \<Rightarrow> ('stmt \<Rightarrow> ('ast, rstr) exec) \<Rightarrow> rstr \<Rightarrow> ('ast, rstr) exec" where
  "parse_and_exec H ex sql = (case host_parse H sql of Inl e \<Rightarrow> xerr e | Inr sts \<Rightarrow> exec_all ex sts [])"

end
