(* ===== verification/Dml.thy ===== *)
theory Dml
  imports Session
begin

text \<open>
  \<open>stmts/insert.rs\<close>, \<open>stmts/delete.rs\<close>, \<open>stmts/update.rs\<close>: the executors of INSERT (with its conflict
  clauses and UPSERT), DELETE and UPDATE, with CHECK and FOREIGN KEY constraints, referential actions,
  triggers and RETURNING.  Statements are records of the fields the code reads.
\<close>

section \<open>Foreign keys\<close>

text \<open>The text by which the code compares references: \<open>to_string().to_lowercase()\<close>.\<close>

definition ref_text :: "unicode \<Rightarrow> db_value \<Rightarrow> rstr" where
  "ref_text U v = to_lowercase U (db_display v)"

definition column_texts :: "unicode \<Rightarrow> nat \<Rightarrow> row list \<Rightarrow> rstr list panicking" where
  "column_texts U ci rows =
     (if \<forall>r \<in> set rows. ci < length r then Some (map (\<lambda>r. ref_text U (r ! ci)) rows) else None)"

text \<open>\<open>fk_lookups\<close>: for each foreign key whose table and column exist, its texts there.\<close>

fun fk_lookups :: "unicode \<Rightarrow> 'ast database \<Rightarrow> foreign_key list \<Rightarrow> (rstr \<times> rstr list) list panicking" where
  "fk_lookups U db [] = Some []"
| "fk_lookups U db (fk # fks) =
     (case get_table (fk_foreign_table fk) db of
        Inl _ \<Rightarrow> fk_lookups U db fks
      | Inr t \<Rightarrow>
          (case tbl_col_index t (fk_foreign_column fk) of
             None \<Rightarrow> fk_lookups U db fks
           | Some ci \<Rightarrow>
               (case column_texts U ci (tbl_rows t) of
                  None \<Rightarrow> None
                | Some vs \<Rightarrow> map_option ((#) (fk_local_column fk, vs)) (fk_lookups U db fks))))"

definition fk_missing :: "rstr \<Rightarrow> rstr \<Rightarrow> engine_error" where
  "fk_missing col v =
     ExecError (quote_msg ''FOREIGN KEY constraint: '' col (quote_msg '' value '' v '' not found in referenced table''))"

text \<open>The row's references must exist.\<close>

fun check_fks :: "unicode \<Rightarrow> col_map \<Rightarrow> row \<Rightarrow> (rstr \<times> rstr list) list \<Rightarrow> unit eres panicking" where
  "check_fks U m r [] = pok ()"
| "check_fks U m r ((col, vs) # lk) =
     (case m col of
        None \<Rightarrow> check_fks U m r lk
      | Some ci \<Rightarrow>
          (if length r \<le> ci then None
           else if r ! ci \<noteq> DNull \<and> ref_text U (r ! ci) \<notin> set vs
           then perr (fk_missing col (ref_text U (r ! ci)))
           else check_fks U m r lk))"

section \<open>INSERT\<close>

datatype conflict_clause = OrRollback | OrAbort | OrFail | OrIgnore | OrReplace

datatype assign_target = AssignColumn rstr | AssignTuple

datatype conflict_action = DoNothing | DoUpdate "(assign_target \<times> sql_expr) list"

datatype on_insert = OnConflict conflict_action | OnDuplicateKey

datatype insert_source = SourceValues "sql_expr list list" | SourceSelect query | SourceOther

text \<open>\<open>ins_table\<close> is the printed name; \<open>ins_columns\<close> the listed columns.\<close>

record insert_stmt =
  ins_table :: rstr
  ins_columns :: "object_name list"
  ins_source :: "insert_source option"
  ins_or :: "conflict_clause option"
  ins_replace_into :: bool
  ins_ignore :: bool
  ins_on :: "on_insert option"
  ins_returning :: "select_item list option"

text \<open>A JSON cell of a SELECT result as a literal again.\<close>

fun json_literal :: "json_printer \<Rightarrow> json \<Rightarrow> sql_expr" where
  "json_literal J (JString s) = Value (SqlSingleQuoted s)"
| "json_literal J (JNumber n) =
     Value (SqlNumber (case json_as_i64 n of Some i \<Rightarrow> i64_to_string i | None \<Rightarrow> f64_to_string (json_as_f64 n)))"
| "json_literal J (JBool b) = Value (SqlBoolean b)"
| "json_literal J JNull = Value SqlNull"
| "json_literal J v = Value (SqlSingleQuoted (jp_display J v))"

definition insert_rows_of :: "('ast, 'stmt) host \<Rightarrow> insert_stmt \<Rightarrow> ('ast, sql_expr list list) exec" where
  "insert_rows_of H ins =
     (case ins_source ins of
        None \<Rightarrow> xerr (ExecError ''INSERT must have a source'')
      | Some (SourceValues rows) \<Rightarrow> xret rows
      | Some (SourceSelect q) \<Rightarrow>
          xbind (host_select H q) (\<lambda>text.
            case host_json_rows H text of
              Inl e \<Rightarrow> xerr (ExecError (''SELECT parse: '' @ e))
            | Inr rows \<Rightarrow> xret (map (map (json_literal (host_json H))) (drop 1 rows)))
      | Some SourceOther \<Rightarrow> xerr (ExecError ''INSERT source must be VALUES or SELECT''))"

text \<open>The listed columns as positions.\<close>

fun column_positions :: "unicode \<Rightarrow> rstr \<Rightarrow> col_map \<Rightarrow> object_name list \<Rightarrow> nat list eres" where
  "column_positions U tname m [] = Inr []"
| "column_positions U tname m (c # cs) =
     (case m (object_name_str U c) of
        None \<Rightarrow> Inl (ColumnNotFoundInTable (object_name_str U c) tname)
      | Some i \<Rightarrow> bind_res (column_positions U tname m cs) (\<lambda>is. Inr (i # is)))"

text \<open>Evaluate the values into a row of NULLs.\<close>

fun place_values :: "eval_env \<Rightarrow> (nat \<times> sql_expr) list \<Rightarrow> row \<Rightarrow> row eres panicking" where
  "place_values E [] r = pok r"
| "place_values E ((i, e) # ies) r =
     pbind (eval_literal_expr E e) (\<lambda>v. if i < length r then place_values E ies (r[i := v]) else None)"

text \<open>AUTO_INCREMENT: each NULL there takes the next number of the table.\<close>

fun fill_auto :: "nat list \<Rightarrow> row \<Rightarrow> table \<Rightarrow> row \<times> table" where
  "fill_auto [] r t = (r, t)"
| "fill_auto (i # is) r t =
     (if r ! i = DNull
      then fill_auto is (r[i := DInt (tbl_next_auto_inc t)]) (t\<lparr>tbl_next_auto_inc := tbl_next_auto_inc t + 1\<rparr>)
      else fill_auto is r t)"

fun check_constraints :: "eval_env \<Rightarrow> col_map \<Rightarrow> row \<Rightarrow> sql_expr list \<Rightarrow> unit eres panicking" where
  "check_constraints E m r [] = pok ()"
| "check_constraints E m r (c # cs) =
     (case eval_expr E r m c of
        None \<Rightarrow> None
      | Some (Inl e) \<Rightarrow> perr (ExecError (''CHECK constraint error: '' @ error_message e))
      | Some (Inr v) \<Rightarrow>
          (if is_truthy v then check_constraints E m r cs
           else perr (ExecError ''CHECK constraint failed for row'')))"

text \<open>The column map of an UPSERT expression: every column again as \<open>excluded.<column>\<close>.\<close>

definition upsert_map :: "col_map \<Rightarrow> col_map" where
  "upsert_map m k =
     (if take 9 k = ''excluded.'' \<and> m (drop 9 k) \<noteq> None then m (drop 9 k) else m k)"

fun apply_upsert :: "eval_env \<Rightarrow> row \<Rightarrow> nat \<Rightarrow> (assign_target \<times> sql_expr) list \<Rightarrow> table
    \<Rightarrow> (unit eres \<times> table) panicking" where
  "apply_upsert E r ri [] t = Some (Inr (), t)"
| "apply_upsert E r ri ((AssignTuple, e) # as) t = apply_upsert E r ri as t"
| "apply_upsert E r ri ((AssignColumn n, e) # as) t =
     (let c = to_lowercase (env_unicode E) n
      in case tbl_col_index t c of
           None \<Rightarrow> apply_upsert E r ri as t
         | Some ci \<Rightarrow>
             (case eval_expr E r (upsert_map (tbl_col_index t)) e of
                None \<Rightarrow> None
              | Some (Inl _) \<Rightarrow> Some (Inl (ExecError (quote_msg ''UPSERT: invalid expr for '' c [])), t)
              | Some (Inr v) \<Rightarrow>
                  (case update_cell (env_unicode E) ri ci v t of
                     None \<Rightarrow> None
                   | Some (t', _) \<Rightarrow> apply_upsert E r ri as t')))"

text \<open>The fate of one row: the table after it, whether it counts as inserted, whether it is recorded
  for RETURNING and triggers; or an error, and whether the transaction is rolled back first.\<close>

datatype row_outcome = RowDone nat "row list" | RowFailed engine_error bool

definition on_duplicate :: "eval_env \<Rightarrow> insert_stmt \<Rightarrow> row \<Rightarrow> engine_error \<Rightarrow> table
    \<Rightarrow> (row_outcome \<times> table) panicking" where
  "on_duplicate E ins r e t =
     (if ins_or ins = Some OrIgnore \<or> ins_ignore ins then Some (RowDone 0 [], t)
      else if ins_or ins = Some OrRollback then Some (RowFailed e True, t)
      else if ins_or ins = Some OrReplace \<or> ins_replace_into ins
      then (case replace_by_pk E r t of
              None \<Rightarrow> None
            | Some (Inl e') \<Rightarrow> Some (RowFailed e' False, t)
            | Some (Inr (t', _)) \<Rightarrow> Some (RowDone 1 [r], t'))
      else case ins_on ins of
             None \<Rightarrow> Some (RowFailed (ExecError (error_message e)) False, t)
           | Some OnDuplicateKey \<Rightarrow> Some (RowFailed (DuplicateKey (error_message e)) False, t)
           | Some (OnConflict DoNothing) \<Rightarrow> Some (RowDone 0 [], t)
           | Some (OnConflict (DoUpdate as)) \<Rightarrow>
               (case Option.bind (pk_key t r) (tbl_pk_row_index t) of
                  None \<Rightarrow> Some (RowDone 0 [], t)
                | Some ri \<Rightarrow>
                    map_option (\<lambda>(res, t'). (case res of Inl e' \<Rightarrow> RowFailed e' False | Inr _ \<Rightarrow> RowDone 1 [], t'))
                      (apply_upsert E r ri as t)))"

definition insert_full_row :: "eval_env \<Rightarrow> insert_stmt \<Rightarrow> (rstr \<times> rstr list) list \<Rightarrow> row \<Rightarrow> table
    \<Rightarrow> (row_outcome \<times> table) panicking" where
  "insert_full_row E ins lk r t =
     (case check_constraints E (tbl_col_index t) r (tbl_check_constraints t) of
        None \<Rightarrow> None
      | Some (Inl e) \<Rightarrow> Some (RowFailed e False, t)
      | Some (Inr _) \<Rightarrow>
          (case check_fks (env_unicode E) (tbl_col_index t) r lk of
             None \<Rightarrow> None
           | Some (Inl e) \<Rightarrow> Some (RowFailed e False, t)
           | Some (Inr _) \<Rightarrow>
               (case insert_row E r t of
                  None \<Rightarrow> None
                | Some (Inr t') \<Rightarrow> Some (RowDone 1 [r], t')
                | Some (Inl (DuplicateKey k)) \<Rightarrow> on_duplicate E ins r (DuplicateKey k) t
                | Some (Inl e) \<Rightarrow> Some (RowFailed (ExecError (error_message e)) False, t))))"

definition insert_one :: "eval_env \<Rightarrow> insert_stmt \<Rightarrow> (rstr \<times> rstr list) list \<Rightarrow> nat list option \<Rightarrow> nat list
    \<Rightarrow> sql_expr list \<Rightarrow> table \<Rightarrow> (row_outcome \<times> table) panicking" where
  "insert_one E ins lk explicit autos es t =
     (let cis = (case explicit of Some is \<Rightarrow> is | None \<Rightarrow> [0..<col_count t])
      in if length es \<noteq> length cis
         then Some (RowFailed (ExecError (''Expected '' @ dec_nat (length cis) @ '' values, got '' @
                                dec_nat (length es))) False, t)
         else case place_values E (zip cis es) (replicate (col_count t) DNull) of
                None \<Rightarrow> None
              | Some (Inl e) \<Rightarrow> Some (RowFailed e False, t)
              | Some (Inr r) \<Rightarrow> (let (r', t') = fill_auto autos r t in insert_full_row E ins lk r' t'))"

text \<open>The loop over the rows: the count and the recorded rows so far.\<close>

fun insert_loop :: "eval_env \<Rightarrow> insert_stmt \<Rightarrow> (rstr \<times> rstr list) list \<Rightarrow> nat list option \<Rightarrow> nat list
    \<Rightarrow> sql_expr list list \<Rightarrow> nat \<Rightarrow> row list \<Rightarrow> table \<Rightarrow> (row_outcome \<times> table) panicking" where
  "insert_loop E ins lk explicit autos [] n rs t = Some (RowDone n rs, t)"
| "insert_loop E ins lk explicit autos (es # ess) n rs t =
     (case insert_one E ins lk explicit autos es t of
        None \<Rightarrow> None
      | Some (RowFailed e rb, t') \<Rightarrow> Some (RowFailed e rb, t')
      | Some (RowDone k rs', t') \<Rightarrow> insert_loop E ins lk explicit autos ess (n + k) (rs @ rs') t')"

definition auto_columns :: "table \<Rightarrow> nat list" where
  "auto_columns t = filter (\<lambda>i. col_auto_increment (tbl_columns t ! i)) [0..<length (tbl_columns t)]"

definition explicit_columns :: "unicode \<Rightarrow> insert_stmt \<Rightarrow> rstr \<Rightarrow> table \<Rightarrow> nat list option eres" where
  "explicit_columns U ins tname t =
     (if ins_columns ins = [] then Inr None
      else bind_res (column_positions U tname (tbl_col_index t) (ins_columns ins)) (\<lambda>is. Inr (Some is)))"

text \<open>\<open>position(|c| c.primary_key)\<close>: the first key column.\<close>

definition first_pk :: "table \<Rightarrow> nat option" where
  "first_pk t = position col_primary_key (tbl_columns t)"

definition last_key_text :: "rstr \<Rightarrow> row list \<Rightarrow> 'ast database \<Rightarrow> rstr option" where
  "last_key_text tname rows db =
     (case get_table tname db of
        Inl _ \<Rightarrow> None
      | Inr t \<Rightarrow>
          (case first_pk t of
             None \<Rightarrow> None
           | Some i \<Rightarrow> (if rows \<noteq> [] \<and> i < length (last rows) then Some (db_display (last rows ! i)) else None)))"

text \<open>The counters of the database and of the thread.\<close>

definition record_insert :: "rstr \<Rightarrow> nat \<Rightarrow> row list \<Rightarrow> 'ast session \<Rightarrow> 'ast session" where
  "record_insert tname n rows s =
     (let k = last_key_text tname rows (se_db s)
      in s\<lparr>se_db := (se_db s)\<lparr>db_last_insert_rowid := k, db_last_changes := n\<rparr>, se_rowid := k, se_changes := n\<rparr>)"

definition record_changes :: "nat \<Rightarrow> 'ast session \<Rightarrow> 'ast session" where
  "record_changes n s = s\<lparr>se_db := (se_db s)\<lparr>db_last_changes := n\<rparr>, se_changes := n\<rparr>"

definition returning_text :: "('ast, 'stmt) host \<Rightarrow> rstr \<Rightarrow> row list \<Rightarrow> select_item list \<Rightarrow> ('ast, rstr) exec" where
  "returning_text H tname rows items =
     xread (\<lambda>s. case table_or_missing tname (se_db s) of
                  Inl e \<Rightarrow> perr e
                | Inr t \<Rightarrow> map_option Inr (format_projected_result (host_env H s) rows items (tbl_col_index t) t))"

definition count_msg :: "rstr \<Rightarrow> nat \<Rightarrow> rstr" where
  "count_msg verb n = json_text (verb @ '' '' @ dec_nat n @ '' row(s)'')"

text \<open>The borrowed table is changed in place, so what the loop did stays when it fails.\<close>

definition run_insert_loop :: "('ast, 'stmt) host \<Rightarrow> insert_stmt \<Rightarrow> rstr \<Rightarrow> (rstr \<times> rstr list) list
    \<Rightarrow> sql_expr list list \<Rightarrow> ('ast, nat \<times> row list) exec" where
  "run_insert_loop H ins tname lk rows s =
     (let E = host_env H s
      in case table_or_missing tname (se_db s) of
           Inl e \<Rightarrow> Some (Inl e, s)
         | Inr t \<Rightarrow>
             (case explicit_columns (env_unicode E) ins tname t of
                Inl e \<Rightarrow> Some (Inl e, s)
              | Inr explicit \<Rightarrow>
                  (case insert_loop E ins lk explicit (auto_columns t) rows 0 [] t of
                     None \<Rightarrow> None
                   | Some (RowDone n rs, t') \<Rightarrow> Some (Inr (n, rs), put_table tname t' s)
                   | Some (RowFailed e rb, t') \<Rightarrow>
                       (let s' = put_table tname t' s
                        in Some (Inl e, if rb then (case db_rollback (se_db s') of
                                                      Inr db' \<Rightarrow> s'\<lparr>se_db := db'\<rparr> | Inl _ \<Rightarrow> s')
                                        else s')))))"

definition exec_insert :: "('ast, 'stmt) host \<Rightarrow> (rstr \<Rightarrow> ('ast, rstr) exec) \<Rightarrow> insert_stmt \<Rightarrow> ('ast, rstr) exec" where
  "exec_insert H run ins s0 =
     (let U = env_unicode (host_env H s0); tname = to_lowercase U (ins_table ins)
      in xbind (insert_rows_of H ins) (\<lambda>rows.
         xbind (xread (\<lambda>s. case table_or_missing tname (se_db s) of
                             Inl e \<Rightarrow> perr e
                           | Inr t \<Rightarrow> map_option Inr (fk_lookups U (se_db s) (tbl_foreign_keys t)))) (\<lambda>lk.
         xbind (before_triggers H run tname ''INSERT'') (\<lambda>_.
         xbind (run_insert_loop H ins tname lk rows) (\<lambda>(n, rs).
         xbind (\<lambda>s. xret () (record_insert tname n rs s)) (\<lambda>_.
           case ins_returning ins of
             Some items \<Rightarrow> returning_text H tname rs items
           | None \<Rightarrow>
               xbind (after_triggers H run tname ''INSERT'' (if rs = [] then [] else last rs) []) (\<lambda>_.
                 xret (count_msg ''Inserted'' n))))))) s0)"

section \<open>DELETE\<close>

datatype table_factor = FactorTable object_name | FactorOther

record delete_stmt =
  del_from :: "table_factor option"  \<comment> \<open>the first table of FROM\<close>
  del_selection :: "sql_expr option"
  del_returning :: "select_item list option"

text \<open>A row matches when its condition evaluates to a true value; an error is no match.\<close>

definition row_matches :: "eval_env \<Rightarrow> col_map \<Rightarrow> sql_expr option \<Rightarrow> row \<Rightarrow> bool panicking" where
  "row_matches E m pred r =
     (case pred of
        None \<Rightarrow> Some True
      | Some e \<Rightarrow> map_option (\<lambda>v. case v of Inr x \<Rightarrow> is_truthy x | Inl _ \<Rightarrow> False) (eval_expr E r m e))"

text \<open>A predicate that may panic on some row, over all rows.\<close>

definition all_rows_defined :: "(row \<Rightarrow> bool panicking) \<Rightarrow> row list \<Rightarrow> bool" where
  "all_rows_defined P rows = (\<forall>r \<in> set rows. P r \<noteq> None)"

text \<open>The foreign keys of other tables that point here: the table and the position of its column.\<close>

definition fk_refs_of :: "rstr \<Rightarrow> rstr \<Rightarrow> table \<Rightarrow> (rstr \<times> nat) list" where
  "fk_refs_of tname tn t =
     List.map_filter (\<lambda>fk. if fk_foreign_table fk = tname
                           then map_option (Pair tn) (tbl_col_index t (fk_local_column fk)) else None)
       (tbl_foreign_keys t)"

definition fk_refs :: "rstr \<Rightarrow> 'ast database \<Rightarrow> (rstr \<times> nat) list" where
  "fk_refs tname db =
     concat (map (\<lambda>tn. if tn = tname then [] else
                       case get_table tn db of Inr t \<Rightarrow> fk_refs_of tname tn t | Inl _ \<Rightarrow> []) (table_names db))"

definition fk_between :: "rstr \<Rightarrow> nat \<Rightarrow> table \<Rightarrow> foreign_key option" where
  "fk_between tname ci t =
     List.find (\<lambda>fk. fk_foreign_table fk = tname \<and> tbl_col_index t (fk_local_column fk) = Some ci)
       (tbl_foreign_keys t)"

text \<open>The keys of the rows that will go, as texts.\<close>

definition doomed_keys :: "eval_env \<Rightarrow> col_map \<Rightarrow> sql_expr option \<Rightarrow> table \<Rightarrow> rstr list panicking" where
  "doomed_keys E m pred t =
     (case first_pk t of
        None \<Rightarrow> Some []
      | Some pi \<Rightarrow>
          (if all_rows_defined (row_matches E m pred) (tbl_rows t)
           then column_texts (env_unicode E) pi (filter (\<lambda>r. row_matches E m pred r = Some True) (tbl_rows t))
           else None))"

text \<open>CASCADE: the child rows that refer to a doomed key are found, then deleted by their own key.\<close>

fun delete_by_keys :: "unicode \<Rightarrow> nat \<Rightarrow> rstr list \<Rightarrow> table \<Rightarrow> table panicking" where
  "delete_by_keys U pi [] t = Some t"
| "delete_by_keys U pi (k # ks) t =
     (if k = [] then delete_by_keys U pi ks t
      else if \<exists>r \<in> set (tbl_rows t). length r \<le> pi then None
      else case delete_rows U (\<lambda>r. ref_text U (r ! pi) = k) t of
             None \<Rightarrow> None
           | Some (t', _) \<Rightarrow> delete_by_keys U pi ks t')"

definition cascade_delete :: "unicode \<Rightarrow> rstr list \<Rightarrow> nat \<Rightarrow> table \<Rightarrow> table panicking" where
  "cascade_delete U keys ci t =
     (case column_texts U ci (tbl_rows t) of
        None \<Rightarrow> None
      | Some _ \<Rightarrow>
          (let hit = filter (\<lambda>r. ref_text U (r ! ci) \<in> set keys) (tbl_rows t)
           in case first_pk t of
                None \<Rightarrow> Some t
              | Some pi \<Rightarrow>
                  (case column_texts U pi hit of
                     None \<Rightarrow> None
                   | Some child_keys \<Rightarrow> delete_by_keys U pi child_keys t)))"

definition set_null_children :: "unicode \<Rightarrow> rstr list \<Rightarrow> nat \<Rightarrow> table \<Rightarrow> table panicking" where
  "set_null_children U keys ci t =
     (case column_texts U ci (tbl_rows t) of
        None \<Rightarrow> None
      | Some _ \<Rightarrow> Some (t\<lparr>tbl_rows := map (\<lambda>r. if ref_text U (r ! ci) \<in> set keys then r[ci := DNull] else r) (tbl_rows t)\<rparr>))"

definition fk_violation :: "rstr \<Rightarrow> rstr \<Rightarrow> engine_error" where
  "fk_violation tn k =
     ExecError (quote_msg ''FOREIGN KEY constraint violation: '' tn (quote_msg '' references '' k []))"

definition handle_reference :: "unicode \<Rightarrow> rstr \<Rightarrow> rstr list \<Rightarrow> rstr \<times> nat \<Rightarrow> ('ast, unit) exec" where
  "handle_reference U tname keys ref s =
     (let (tn, ci) = ref
      in case get_table tn (se_db s) of
           Inl e \<Rightarrow> Some (Inl (ExecError e), s)
         | Inr t \<Rightarrow>
             (case Option.bind (fk_between tname ci t) fk_on_delete of
                Some Cascade \<Rightarrow>
                  map_option (\<lambda>t'. (Inr (), put_table tn t' s)) (cascade_delete U keys ci t)
              | Some SetNull \<Rightarrow>
                  map_option (\<lambda>t'. (Inr (), put_table tn t' s)) (set_null_children U keys ci t)
              | _ \<Rightarrow>
                  (case column_texts U ci (tbl_rows t) of
                     None \<Rightarrow> None
                   | Some texts \<Rightarrow>
                       (case List.find (\<lambda>k. k \<in> set texts) keys of
                          Some k \<Rightarrow> Some (Inl (fk_violation tn k), s)
                        | None \<Rightarrow> Some (Inr (), s)))))"

fun handle_references :: "unicode \<Rightarrow> rstr \<Rightarrow> rstr list \<Rightarrow> (rstr \<times> nat) list \<Rightarrow> ('ast, unit) exec" where
  "handle_references U tname keys [] = xret ()"
| "handle_references U tname keys (ref # refs) =
     xbind (handle_reference U tname keys ref) (\<lambda>_. handle_references U tname keys refs)"

definition delete_table_name :: "unicode \<Rightarrow> delete_stmt \<Rightarrow> rstr eres" where
  "delete_table_name U del =
     (case del_from del of
        Some (FactorTable n) \<Rightarrow> Inr (object_name_str U n)
      | Some FactorOther \<Rightarrow> Inl (ExecError ''DELETE: only simple table references supported'')
      | None \<Rightarrow> Inl (ExecError ''DELETE must specify a table''))"

definition matching_rows :: "eval_env \<Rightarrow> col_map \<Rightarrow> sql_expr option \<Rightarrow> table \<Rightarrow> row list panicking" where
  "matching_rows E m pred t =
     (if all_rows_defined (row_matches E m pred) (tbl_rows t)
      then Some (filter (\<lambda>r. row_matches E m pred r = Some True) (tbl_rows t)) else None)"

text \<open>The deletion itself, on the table as the BEFORE triggers left it.\<close>

definition run_delete :: "('ast, 'stmt) host \<Rightarrow> rstr \<Rightarrow> col_map \<Rightarrow> sql_expr option \<Rightarrow> ('ast, nat) exec" where
  "run_delete H tname m pred s =
     (let E = host_env H s
      in case table_or_missing tname (se_db s) of
           Inl e \<Rightarrow> Some (Inl e, s)
         | Inr t \<Rightarrow>
             (if all_rows_defined (row_matches E m pred) (tbl_rows t)
              then map_option (\<lambda>(t', n). (Inr n, record_changes n (put_table tname t' s)))
                     (delete_rows (env_unicode E) (\<lambda>r. row_matches E m pred r = Some True) t)
              else None))"

definition exec_delete :: "('ast, 'stmt) host \<Rightarrow> (rstr \<Rightarrow> ('ast, rstr) exec) \<Rightarrow> delete_stmt \<Rightarrow> ('ast, rstr) exec" where
  "exec_delete H run del s0 =
     (let U = env_unicode (host_env H s0); pred = del_selection del
      in case delete_table_name U del of
           Inl e \<Rightarrow> Some (Inl e, s0)
         | Inr tname \<Rightarrow>
             xbind (xread (\<lambda>s. Some (table_or_missing tname (se_db s)))) (\<lambda>t.
             xbind (xread (\<lambda>s. map_option Inr (doomed_keys (host_env H s) (tbl_col_index t) pred t))) (\<lambda>keys.
             xbind (\<lambda>s. handle_references U tname keys (fk_refs tname (se_db s)) s) (\<lambda>_.
             xbind (xread (\<lambda>s. if del_returning del = None then pok []
                               else case table_or_missing tname (se_db s) of
                                      Inl e \<Rightarrow> perr e
                                    | Inr t' \<Rightarrow> map_option Inr (matching_rows (host_env H s) (tbl_col_index t) pred t')))
               (\<lambda>old.
             xbind (before_triggers H run tname ''DELETE'') (\<lambda>_.
             xbind (run_delete H tname (tbl_col_index t) pred) (\<lambda>n.
               case del_returning del of
                 Some items \<Rightarrow> returning_text H tname old items
               | None \<Rightarrow>
                   xbind (after_triggers H run tname ''DELETE'' [] (if old = [] then [] else last old)) (\<lambda>_.
                     xret (count_msg ''Deleted'' n)))))))) s0)"

end
