(* ===== verification/DmlUpdate.thy ===== *)
theory DmlUpdate
  imports Dml
begin

text \<open>
  \<open>stmts/update.rs\<close> and \<open>stmts/merge.rs\<close>: the executors of UPDATE (fast path by key, CHECK and
  FOREIGN KEY validation, ON UPDATE CASCADE) and MERGE.
\<close>

section \<open>UPDATE\<close>

text \<open>\<open>upd_assignments\<close> pairs the printed target with the expression.\<close>

record update_stmt =
  upd_table :: table_factor
  upd_selection :: "sql_expr option"
  upd_assignments :: "(rstr \<times> sql_expr) list"
  upd_returning :: "select_item list option"

definition resolve_table :: "unicode \<Rightarrow> table_factor \<Rightarrow> rstr eres" where
  "resolve_table U f =
     (case f of
        FactorTable n \<Rightarrow> Inr (object_name_str U n)
      | FactorOther \<Rightarrow> Inl (ExecError ''Only simple table references supported''))"

text \<open>The fast path: \<open>key = literal\<close> on a key column gives the key of a row of NULLs with the literal.\<close>

definition column_eq_literal :: "sql_expr \<Rightarrow> (rstr \<times> sql_value) option" where
  "column_eq_literal e =
     (case e of
        BinaryOp l opr r \<Rightarrow>
          (if opr \<noteq> OpEq then None
           else case (ident_of l, value_of r) of
                  (Some i, Some v) \<Rightarrow> Some (i, v)
                | _ \<Rightarrow> (case (value_of l, ident_of r) of (Some v, Some i) \<Rightarrow> Some (i, v) | _ \<Rightarrow> None))
      | _ \<Rightarrow> None)"

definition fast_key :: "unicode \<Rightarrow> sql_expr \<Rightarrow> table \<Rightarrow> rstr option panicking" where
  "fast_key U e t =
     (case column_eq_literal e of
        None \<Rightarrow> Some None
      | Some (i, v) \<Rightarrow>
          (case tbl_col_index t (to_lowercase U i) of
             None \<Rightarrow> Some None
           | Some ci \<Rightarrow>
               (if length (tbl_columns t) \<le> ci then None
                else if col_primary_key (tbl_columns t ! ci)
                then Some (pk_key t ((replicate (length (tbl_columns t)) DNull)[ci := sql_val_to_db v]))
                else Some None)))"

fun scan_matches :: "eval_env \<Rightarrow> col_map \<Rightarrow> sql_expr \<Rightarrow> nat \<Rightarrow> row list \<Rightarrow> nat list eres panicking" where
  "scan_matches E m e i [] = pok []"
| "scan_matches E m e i (r # rs) =
     pbind (eval_expr E r m e) (\<lambda>v. pbind (scan_matches E m e (Suc i) rs) (\<lambda>is.
       pok (if is_truthy v then i # is else is)))"

definition update_targets :: "eval_env \<Rightarrow> sql_expr option \<Rightarrow> table \<Rightarrow> nat list eres panicking" where
  "update_targets E sel t =
     (case sel of
        None \<Rightarrow> pok [0..<length (tbl_rows t)]
      | Some e \<Rightarrow>
          (case fast_key (env_unicode E) e t of
             None \<Rightarrow> None
           | Some (Some k) \<Rightarrow> pok (case tbl_pk_row_index t k of None \<Rightarrow> [] | Some i \<Rightarrow> [i])
           | Some None \<Rightarrow> scan_matches E (tbl_col_index t) e 0 (tbl_rows t)))"

fun assign_positions :: "unicode \<Rightarrow> rstr \<Rightarrow> col_map \<Rightarrow> (rstr \<times> sql_expr) list \<Rightarrow> (nat \<times> sql_expr) list eres" where
  "assign_positions U tname m [] = Inr []"
| "assign_positions U tname m ((n, e) # as) =
     (case m (to_lowercase U n) of
        None \<Rightarrow> Inl (ColumnNotFoundInTable (to_lowercase U n) tname)
      | Some i \<Rightarrow> bind_res (assign_positions U tname m as) (\<lambda>ps. Inr ((i, e) # ps)))"

type_synonym cell_update = "nat \<times> nat \<times> db_value"

fun row_updates :: "eval_env \<Rightarrow> col_map \<Rightarrow> nat \<Rightarrow> row \<Rightarrow> (nat \<times> sql_expr) list \<Rightarrow> cell_update list eres panicking" where
  "row_updates E m i r [] = pok []"
| "row_updates E m i r ((ci, e) # as) =
     pbind (eval_expr E r m e) (\<lambda>v. pbind (row_updates E m i r as) (\<lambda>us. pok ((i, ci, v) # us)))"

fun all_updates :: "eval_env \<Rightarrow> table \<Rightarrow> (nat \<times> sql_expr) list \<Rightarrow> nat list \<Rightarrow> cell_update list eres panicking" where
  "all_updates E t as [] = pok []"
| "all_updates E t as (i # is) =
     (if as = [] then all_updates E t as is
      else if length (tbl_rows t) \<le> i then None
      else pbind (row_updates E (tbl_col_index t) i (tbl_rows t ! i) as) (\<lambda>us.
             pbind (all_updates E t as is) (\<lambda>vs. pok (us @ vs))))"

text \<open>CHECK on the row with the one cell changed.  A constraint that fails to evaluate drops the update.\<close>

fun update_checks :: "eval_env \<Rightarrow> col_map \<Rightarrow> row \<Rightarrow> sql_expr list \<Rightarrow> bool eres panicking" where
  "update_checks E m r [] = pok True"
| "update_checks E m r (c # cs) =
     (case eval_expr E r m c of
        None \<Rightarrow> None
      | Some (Inl _) \<Rightarrow> pok False
      | Some (Inr v) \<Rightarrow> (if is_truthy v then update_checks E m r cs else perr (ExecError ''CHECK constraint failed'')))"

definition validate_update :: "eval_env \<Rightarrow> table \<Rightarrow> cell_update \<Rightarrow> cell_update list eres panicking" where
  "validate_update E t u =
     (let (i, ci, v) = u
      in if length (tbl_columns t) \<le> ci then None
         else if col_primary_key (tbl_columns t ! ci) \<and> v = DNull
         then perr (NullPrimaryKey (col_name (tbl_columns t ! ci)))
         else if length (tbl_rows t) \<le> i \<or> length (tbl_rows t ! i) \<le> ci then None
         else pbind (update_checks E (tbl_col_index t) ((tbl_rows t ! i)[ci := v]) (tbl_check_constraints t))
                (\<lambda>keep. pok (if keep then [u] else [])))"

fun validate_updates :: "eval_env \<Rightarrow> table \<Rightarrow> cell_update list \<Rightarrow> cell_update list eres panicking" where
  "validate_updates E t [] = pok []"
| "validate_updates E t (u # us) =
     pbind (validate_update E t u) (\<lambda>a. pbind (validate_updates E t us) (\<lambda>b. pok (a @ b)))"

text \<open>(a) A changed local column of a foreign key must refer to an existing value.\<close>

fun check_update_fks :: "unicode \<Rightarrow> col_map \<Rightarrow> nat \<Rightarrow> db_value \<Rightarrow> (rstr \<times> rstr list) list \<Rightarrow> unit eres" where
  "check_update_fks U m ci v [] = Inr ()"
| "check_update_fks U m ci v ((col, vs) # lk) =
     (if m col = Some ci \<and> v \<noteq> DNull \<and> ref_text U v \<notin> set vs then Inl (fk_missing col (ref_text U v))
      else check_update_fks U m ci v lk)"

text \<open>(b) A changed key: the references to the old value cascade, or forbid the update.\<close>

fun has_text :: "unicode \<Rightarrow> nat \<Rightarrow> rstr \<Rightarrow> row list \<Rightarrow> bool panicking" where
  "has_text U ci k [] = Some False"
| "has_text U ci k (r # rs) =
     (if length r \<le> ci then None else if ref_text U (r ! ci) = k then Some True else has_text U ci k rs)"

type_synonym cascade = "rstr \<times> nat \<times> rstr \<times> db_value"

fun collect_cascades :: "unicode \<Rightarrow> rstr \<Rightarrow> 'ast database \<Rightarrow> rstr \<Rightarrow> db_value \<Rightarrow> (rstr \<times> nat) list
    \<Rightarrow> cascade list eres panicking" where
  "collect_cascades U tname db old v [] = pok []"
| "collect_cascades U tname db old v ((tn, ci) # refs) =
     (case table_or_missing tn db of
        Inl e \<Rightarrow> perr e
      | Inr child \<Rightarrow>
          (case has_text U ci old (tbl_rows child) of
             None \<Rightarrow> None
           | Some False \<Rightarrow> collect_cascades U tname db old v refs
           | Some True \<Rightarrow>
               (if Option.bind (fk_between tname ci child) fk_on_update = Some Cascade
                then pbind (collect_cascades U tname db old v refs) (\<lambda>cs. pok ((tn, ci, old, v) # cs))
                else perr (ExecError (quote_msg ''FOREIGN KEY constraint violation: '' tn
                            (quote_msg '' has reference to '' old (quote_msg '' in '' tname [])))))))"

fun validate_references :: "unicode \<Rightarrow> rstr \<Rightarrow> 'ast database \<Rightarrow> table \<Rightarrow> (rstr \<times> rstr list) list \<Rightarrow> nat option
    \<Rightarrow> (rstr \<times> nat) list \<Rightarrow> cell_update list \<Rightarrow> cascade list eres panicking" where
  "validate_references U tname db t lk pk refs [] = pok []"
| "validate_references U tname db t lk pk refs ((i, ci, v) # us) =
     pbind (Some (check_update_fks U (tbl_col_index t) ci v lk)) (\<lambda>_.
     pbind (if pk = Some ci
            then (if length (tbl_rows t) \<le> i \<or> length (tbl_rows t ! i) \<le> ci then None
                  else collect_cascades U tname db (ref_text U (tbl_rows t ! i ! ci)) v refs)
            else pok []) (\<lambda>a.
     pbind (validate_references U tname db t lk pk refs us) (\<lambda>b. pok (a @ b))))"

definition apply_cascade :: "unicode \<Rightarrow> cascade \<Rightarrow> 'ast session \<Rightarrow> 'ast session panicking" where
  "apply_cascade U c s =
     (let (tn, ci, old, v) = c
      in case get_table tn (se_db s) of
           Inl _ \<Rightarrow> Some s
         | Inr t \<Rightarrow>
             (if \<exists>r \<in> set (tbl_rows t). length r \<le> ci then None
              else Some (put_table tn (t\<lparr>tbl_rows := map (\<lambda>r. if ref_text U (r ! ci) = old then r[ci := v] else r)
                                          (tbl_rows t)\<rparr>) s)))"

fun apply_cascades :: "unicode \<Rightarrow> cascade list \<Rightarrow> ('ast, unit) exec" where
  "apply_cascades U [] s = Some (Inr (), s)"
| "apply_cascades U (c # cs) s = (case apply_cascade U c s of None \<Rightarrow> None | Some s' \<Rightarrow> apply_cascades U cs s')"

fun apply_updates :: "unicode \<Rightarrow> cell_update list \<Rightarrow> table \<Rightarrow> table panicking" where
  "apply_updates U [] t = Some t"
| "apply_updates U ((i, ci, v) # us) t =
     (case update_cell U i ci v t of None \<Rightarrow> None | Some (t', _) \<Rightarrow> apply_updates U us t')"

text \<open>The rows touched, in order of first appearance.\<close>

definition touched_rows :: "cell_update list \<Rightarrow> nat list" where
  "touched_rows us = rev (remdups (rev (map fst us)))"

text \<open>Everything that is decided before anything is written.\<close>

definition plan_update :: "eval_env \<Rightarrow> rstr \<Rightarrow> update_stmt \<Rightarrow> 'ast database
    \<Rightarrow> (cell_update list \<times> cascade list) eres panicking" where
  "plan_update E tname upd db =
     pbind (Some (table_or_missing tname db)) (\<lambda>t.
     pbind (update_targets E (upd_selection upd) t) (\<lambda>is.
     pbind (Some (assign_positions (env_unicode E) tname (tbl_col_index t) (upd_assignments upd))) (\<lambda>as.
     pbind (all_updates E t as is) (\<lambda>us.
     pbind (validate_updates E t us) (\<lambda>valid.
     case fk_lookups (env_unicode E) db (tbl_foreign_keys t) of
       None \<Rightarrow> None
     | Some lk \<Rightarrow>
         pbind (validate_references (env_unicode E) tname db t lk (first_pk t)
                  (if first_pk t = None then [] else fk_refs tname db) valid) (\<lambda>cs. pok (valid, cs)))))))"

definition run_updates :: "unicode \<Rightarrow> rstr \<Rightarrow> cell_update list \<Rightarrow> ('ast, unit) exec" where
  "run_updates U tname us s =
     (case table_or_missing tname (se_db s) of
        Inl e \<Rightarrow> Some (Inl e, s)
      | Inr t \<Rightarrow> map_option (\<lambda>t'. (Inr (), record_changes (length us) (put_table tname t' s))) (apply_updates U us t))"

definition exec_update :: "('ast, 'stmt) host \<Rightarrow> (rstr \<Rightarrow> ('ast, rstr) exec) \<Rightarrow> update_stmt \<Rightarrow> ('ast, rstr) exec" where
  "exec_update H run upd s0 =
     (let U = env_unicode (host_env H s0)
      in case resolve_table U (upd_table upd) of
           Inl e \<Rightarrow> Some (Inl e, s0)
         | Inr tname \<Rightarrow>
             xbind (xread (\<lambda>s. plan_update (host_env H s) tname upd (se_db s))) (\<lambda>(us, cs).
             xbind (apply_cascades U cs) (\<lambda>_.
             xbind (xread (\<lambda>s. if upd_returning upd = None then pok []
                               else case table_or_missing tname (se_db s) of
                                      Inl e \<Rightarrow> perr e
                                    | Inr t \<Rightarrow> pok (map (\<lambda>i. tbl_rows t ! i) (touched_rows us)))) (\<lambda>old.
             xbind (xread (\<lambda>s. Some (table_or_missing tname (se_db s)))) (\<lambda>_.
             xbind (before_triggers H run tname ''UPDATE'') (\<lambda>_.
             xbind (run_updates U tname us) (\<lambda>_.
               case upd_returning upd of
                 Some items \<Rightarrow> returning_text H tname old items
               | None \<Rightarrow>
                   xbind (after_triggers H run tname ''UPDATE'' [] (if old = [] then [] else last old)) (\<lambda>_.
                     xret (count_msg ''Updated'' (length us))))))))) s0)"

section \<open>MERGE\<close>

datatype merge_action = MergeUpdate "(assign_target \<times> sql_expr) list" | MergeDelete | MergeInsert | MergeOther

text \<open>A clause: whether it is WHEN MATCHED, WHEN NOT MATCHED, or another kind.\<close>

datatype merge_kind = WhenMatched | WhenNotMatched | WhenOther

record merge_stmt =
  mrg_target :: table_factor
  mrg_source :: table_factor
  mrg_on :: sql_expr
  mrg_clauses :: "(merge_kind \<times> merge_action) list"
  mrg_returning :: "select_item list option"

text \<open>The map of the joined row: later columns of the same name win.\<close>

definition joined_map :: "rstr list \<Rightarrow> col_map" where
  "joined_map names = map_of (rev (zip names [0..<length names]))"

fun merge_assign :: "eval_env \<Rightarrow> nat \<Rightarrow> (assign_target \<times> sql_expr) list \<Rightarrow> table \<Rightarrow> table panicking" where
  "merge_assign E ri [] t = Some t"
| "merge_assign E ri ((AssignTuple, e) # as) t = merge_assign E ri as t"
| "merge_assign E ri ((AssignColumn n, e) # as) t =
     (case tbl_col_index t (to_lowercase (env_unicode E) n) of
        None \<Rightarrow> merge_assign E ri as t
      | Some ci \<Rightarrow>
          (if length (tbl_rows t) \<le> ri then None
           else case eval_expr E (tbl_rows t ! ri) (tbl_col_index t) e of
                  None \<Rightarrow> None
                | Some (Inl _) \<Rightarrow> merge_assign E ri as t
                | Some (Inr v) \<Rightarrow>
                    (if length (tbl_rows t ! ri) \<le> ci then None
                     else merge_assign E ri as (t\<lparr>tbl_rows := (tbl_rows t)[ri := (tbl_rows t ! ri)[ci := v]]\<rparr>))))"

text \<open>The table, the matched and inserted counts and the affected rows.\<close>

record merge_state =
  mst_table :: table
  mst_matched :: nat
  mst_inserted :: nat
  mst_rows :: "row list"

fun merge_matched :: "eval_env \<Rightarrow> bool \<Rightarrow> nat \<Rightarrow> (merge_kind \<times> merge_action) list \<Rightarrow> merge_state
    \<Rightarrow> merge_state panicking" where
  "merge_matched E ret ri [] st = Some st"
| "merge_matched E ret ri ((WhenMatched, MergeUpdate as) # cls) st =
     (case merge_assign E ri as (mst_table st) of
        None \<Rightarrow> None
      | Some t \<Rightarrow>
          (if ret \<and> length (tbl_rows t) \<le> ri then None
           else merge_matched E ret ri cls
             (st\<lparr>mst_table := t, mst_matched := mst_matched st + 1,
                 mst_rows := mst_rows st @ (if ret then [tbl_rows t ! ri] else [])\<rparr>)))"
| "merge_matched E ret ri ((WhenMatched, MergeDelete) # cls) st =
     (if length (tbl_rows (mst_table st)) \<le> ri then None
      else let rd = tbl_rows (mst_table st) ! ri
           in case delete_rows (env_unicode E) (\<lambda>r. list_all2 db_eq r rd) (mst_table st) of
                None \<Rightarrow> None
              | Some (t, _) \<Rightarrow>
                  merge_matched E ret ri cls
                    (st\<lparr>mst_table := t, mst_rows := mst_rows st @ (if ret then [rd] else [])\<rparr>))"
| "merge_matched E ret ri (_ # cls) st = merge_matched E ret ri cls st"

text \<open>The first target row on which the condition is the boolean true.\<close>

fun find_match :: "eval_env \<Rightarrow> sql_expr \<Rightarrow> col_map \<Rightarrow> row \<Rightarrow> nat \<Rightarrow> row list \<Rightarrow> nat option panicking" where
  "find_match E cond m sr i [] = Some None"
| "find_match E cond m sr i (tr # trs) =
     (case eval_expr E (sr @ tr) m cond of
        None \<Rightarrow> None
      | Some (Inr (DBool True)) \<Rightarrow> Some (Some i)
      | Some _ \<Rightarrow> find_match E cond m sr (Suc i) trs)"

text \<open>A new row takes the source cells by column name.\<close>

fun merge_new_row :: "rstr list \<Rightarrow> row \<Rightarrow> rstr list \<Rightarrow> row panicking" where
  "merge_new_row srcs sr [] = Some []"
| "merge_new_row srcs sr (c # cs) =
     (case position (\<lambda>s. s = c) srcs of
        None \<Rightarrow> map_option ((#) DNull) (merge_new_row srcs sr cs)
      | Some i \<Rightarrow> (if i < length sr then map_option ((#) (sr ! i)) (merge_new_row srcs sr cs) else None))"

fun merge_unmatched :: "eval_env \<Rightarrow> bool \<Rightarrow> rstr list \<Rightarrow> rstr list \<Rightarrow> row \<Rightarrow> (merge_kind \<times> merge_action) list
    \<Rightarrow> merge_state \<Rightarrow> merge_state panicking" where
  "merge_unmatched E ret srcs tgts sr [] st = Some st"
| "merge_unmatched E ret srcs tgts sr ((WhenNotMatched, MergeInsert) # cls) st =
     (case merge_new_row srcs sr tgts of
        None \<Rightarrow> None
      | Some r \<Rightarrow>
          (case insert_row E r (mst_table st) of
             None \<Rightarrow> None
           | Some res \<Rightarrow>
               merge_unmatched E ret srcs tgts sr cls
                 (st\<lparr>mst_table := (case res of Inr t \<Rightarrow> t | Inl _ \<Rightarrow> mst_table st),
                     mst_inserted := mst_inserted st + 1,
                     mst_rows := mst_rows st @ (if ret then [r] else [])\<rparr>)))"
| "merge_unmatched E ret srcs tgts sr (_ # cls) st = merge_unmatched E ret srcs tgts sr cls st"

fun merge_rows :: "eval_env \<Rightarrow> merge_stmt \<Rightarrow> rstr list \<Rightarrow> rstr list \<Rightarrow> row list \<Rightarrow> merge_state
    \<Rightarrow> merge_state panicking" where
  "merge_rows E mrg srcs tgts [] st = Some st"
| "merge_rows E mrg srcs tgts (sr # srs) st =
     (case find_match E (mrg_on mrg) (joined_map (srcs @ tgts)) sr 0 (tbl_rows (mst_table st)) of
        None \<Rightarrow> None
      | Some (Some ri) \<Rightarrow>
          (case merge_matched E (mrg_returning mrg \<noteq> None) ri (mrg_clauses mrg) st of
             None \<Rightarrow> None | Some st' \<Rightarrow> merge_rows E mrg srcs tgts srs st')
      | Some None \<Rightarrow>
          (case merge_unmatched E (mrg_returning mrg \<noteq> None) srcs tgts sr (mrg_clauses mrg) st of
             None \<Rightarrow> None | Some st' \<Rightarrow> merge_rows E mrg srcs tgts srs st'))"

definition factor_name :: "unicode \<Rightarrow> rstr \<Rightarrow> table_factor \<Rightarrow> rstr eres" where
  "factor_name U what f =
     (case f of FactorTable n \<Rightarrow> Inr (object_name_str U n) | FactorOther \<Rightarrow> Inl (ExecError (''MERGE: no '' @ what)))"

definition run_merge :: "('ast, 'stmt) host \<Rightarrow> merge_stmt \<Rightarrow> rstr \<Rightarrow> rstr \<Rightarrow> ('ast, merge_state) exec" where
  "run_merge H mrg target source s =
     (case table_or_missing source (se_db s) of
        Inl e \<Rightarrow> Some (Inl e, s)
      | Inr src \<Rightarrow>
          (case table_or_missing target (se_db s) of
             Inl e \<Rightarrow> Some (Inl e, s)
           | Inr tgt \<Rightarrow>
               map_option (\<lambda>st. (Inr st, put_table target (mst_table st) s))
                 (merge_rows (host_env H s) mrg (map col_name (tbl_columns src)) (map col_name (tbl_columns tgt))
                    (tbl_rows src) \<lparr>mst_table = tgt, mst_matched = 0, mst_inserted = 0, mst_rows = []\<rparr>)))"

definition exec_merge :: "('ast, 'stmt) host \<Rightarrow> merge_stmt \<Rightarrow> ('ast, rstr) exec" where
  "exec_merge H mrg s0 =
     (let U = env_unicode (host_env H s0)
      in case (factor_name U ''target'' (mrg_target mrg), factor_name U ''source'' (mrg_source mrg)) of
           (Inl e, _) \<Rightarrow> Some (Inl e, s0)
         | (_, Inl e) \<Rightarrow> Some (Inl e, s0)
         | (Inr target, Inr source) \<Rightarrow>
             xbind (run_merge H mrg target source) (\<lambda>st.
               case mrg_returning mrg of
                 Some items \<Rightarrow> returning_text H target (mst_rows st) items
               | None \<Rightarrow> xret (json_text (''MERGE: '' @ dec_nat (mst_matched st) @ '' matched, '' @
                                dec_nat (mst_inserted st) @ '' inserted''))) s0)"

end
