(* ===== verification/Ddl.thy ===== *)
theory Ddl
  imports Dml
begin

text \<open>
  \<open>stmts/ddl.rs\<close>, \<open>stmts/ddl/create.rs\<close>, \<open>stmts/ddl/inspect.rs\<close>, \<open>stmts/ddl/misc.rs\<close> and
  \<open>stmts/transaction.rs\<close>: the executors of the CREATE statements, the inspection statements, COPY,
  VACUUM, ANALYZE, COMMENT and SET.
\<close>

section \<open>Types\<close>

datatype sql_type =
    SyInt | SyInteger | SyBigInt | SySmallInt | SyTinyInt
  | SyFloat | SyDouble | SyReal | SyDecimal | SyDec | SyNumeric
  | SyString | SyText | SyVarchar | SyChar | SyUuid
  | SyBoolean | SyBool
  | SyArray sql_type | SyArrayNone
  | SyCustom rstr  \<comment> \<open>its printed name\<close>
  | SyOther rstr

text \<open>How the parser library prints a type.\<close>

record type_printer =
  ty_display :: "sql_type \<Rightarrow> rstr"
  ty_debug :: "sql_type \<Rightarrow> rstr"

definition array_element_type :: "unicode \<Rightarrow> type_printer \<Rightarrow> sql_type \<Rightarrow> column_type eres" where
  "array_element_type U P inner =
     (let bad = Inl (ParseError (''Unsupported array element type: '' @ ty_display P inner))
      in case inner of
           SyString \<Rightarrow> Inr TStrings | SyVarchar \<Rightarrow> Inr TStrings | SyText \<Rightarrow> Inr TStrings | SyChar \<Rightarrow> Inr TStrings
         | SyFloat \<Rightarrow> Inr TFloats | SyDouble \<Rightarrow> Inr TFloats | SyReal \<Rightarrow> Inr TFloats
         | SyCustom n \<Rightarrow>
             (let s = to_uppercase U n
              in if s = ''STRINGS'' then Inr TStrings else if s = ''FLOATS'' then Inr TFloats else bad)
         | _ \<Rightarrow> (if to_lowercase U (ty_display P inner) = ''string'' then Inr TStrings else bad))"

definition custom_type :: "unicode \<Rightarrow> rstr \<Rightarrow> column_type eres" where
  "custom_type U n =
     (let s = to_uppercase U n
      in if s = ''STRINGS'' then Inr TStrings
         else if s = ''FLOATS'' then Inr TFloats
         else if s = ''STRING'' then Inr TString
         else if s \<in> {''INT'', ''INTEGER'', ''BIGINT'', ''TINYINT'', ''SMALLINT''} then Inr TInt
         else if s \<in> {''FLOAT'', ''DOUBLE''} then Inr TFloat
         else if s \<in> {''BOOL'', ''BOOLEAN''} then Inr TBool
         else Inl (ParseError (quote_msg ''Unknown custom type '' s [])))"

fun parse_data_type :: "unicode \<Rightarrow> type_printer \<Rightarrow> sql_type \<Rightarrow> column_type eres" where
  "parse_data_type U P (SyArray inner) = array_element_type U P inner"
| "parse_data_type U P SyArrayNone = Inr TStrings"
| "parse_data_type U P (SyCustom n) = custom_type U n"
| "parse_data_type U P (SyOther d) = Inl (ParseError (''Unsupported data type: '' @ ty_debug P (SyOther d)))"
| "parse_data_type U P t =
     Inr (if t \<in> {SyInt, SyInteger, SyBigInt, SySmallInt, SyTinyInt} then TInt
          else if t \<in> {SyFloat, SyDouble, SyReal, SyDecimal, SyDec, SyNumeric} then TFloat
          else if t \<in> {SyBoolean, SyBool} then TBool
          else TString)"

section \<open>CREATE TABLE\<close>

text \<open>A foreign key clause: local columns, printed foreign table, referred columns, actions.\<close>

record fk_clause =
  fkc_columns :: "rstr list"
  fkc_table :: rstr
  fkc_referred :: "rstr list"
  fkc_on_delete :: "referential_action option"
  fkc_on_update :: "referential_action option"

datatype column_option =
    OptPrimaryKey | OptUnique | OptNotNull
  | OptDialect "rstr list"  \<comment> \<open>the printed tokens\<close>
  | OptDefault sql_expr
  | OptCheck sql_expr
  | OptForeignKey fk_clause
  | OptOther

record column_def =
  cd_name :: rstr
  cd_type :: sql_type
  cd_options :: "column_option list"

text \<open>A table constraint; the columns of a key are expressions.\<close>

datatype table_constraint =
    ConForeignKey fk_clause | ConCheck sql_expr | ConPrimaryKey "sql_expr list" | ConOther

record create_table_stmt =
  ct_name :: object_name
  ct_if_not_exists :: bool
  ct_columns :: "column_def list"
  ct_constraints :: "table_constraint list"
  ct_query :: "query option"

definition is_auto_token :: "unicode \<Rightarrow> rstr \<Rightarrow> bool" where
  "is_auto_token U tok =
     (let s = replace_char dquote [] (to_lowercase U tok) in s = ''auto_increment'' \<or> s = ''autoincrement'')"

fun apply_option :: "unicode \<Rightarrow> column_option \<Rightarrow> column \<Rightarrow> column" where
  "apply_option U OptPrimaryKey c = c\<lparr>col_primary_key := True\<rparr>"
| "apply_option U OptUnique c = c\<lparr>col_unique := True\<rparr>"
| "apply_option U OptNotNull c = c\<lparr>col_not_null := True\<rparr>"
| "apply_option U (OptDialect toks) c =
     (if \<exists>t \<in> set toks. is_auto_token U t then c\<lparr>col_primary_key := True, col_auto_increment := True\<rparr> else c)"
| "apply_option U (OptDefault e) c =
     (case value_of e of Some v \<Rightarrow> c\<lparr>col_default := Some (sql_val_to_db v)\<rparr>
                            | None \<Rightarrow> c\<lparr>col_default_expr := Some e\<rparr>)"
| "apply_option U _ c = c"

fun columns_from_defs :: "unicode \<Rightarrow> type_printer \<Rightarrow> bool \<Rightarrow> column_def list \<Rightarrow> column list eres" where
  "columns_from_defs U P has_pk [] = Inr []"
| "columns_from_defs U P has_pk (d # ds) =
     bind_res (parse_data_type U P (cd_type d)) (\<lambda>ty.
       let c = fold (apply_option U) (cd_options d) (plain_column (to_lowercase U (cd_name d)) ty)
       in if col_primary_key c \<and> has_pk then Inl (ParseError ''Only one primary key column supported'')
          else let c' = (if col_primary_key c \<and> ty = TInt then c\<lparr>col_auto_increment := True\<rparr> else c)
               in bind_res (columns_from_defs U P (has_pk \<or> col_primary_key c) ds) (\<lambda>cs. Inr (c' # cs)))"

definition first_lower :: "unicode \<Rightarrow> rstr \<Rightarrow> rstr list \<Rightarrow> rstr" where
  "first_lower U dflt ns = (case ns of [] \<Rightarrow> dflt | n # _ \<Rightarrow> to_lowercase U n)"

definition foreign_key_of :: "unicode \<Rightarrow> rstr \<Rightarrow> fk_clause \<Rightarrow> foreign_key" where
  "foreign_key_of U dflt fk =
     \<lparr>fk_local_column = first_lower U dflt (fkc_columns fk), fk_foreign_table = to_lowercase U (fkc_table fk),
      fk_foreign_column = first_lower U [] (fkc_referred fk), fk_on_delete = fkc_on_delete fk,
      fk_on_update = fkc_on_update fk\<rparr>"

definition option_checks :: "column_def \<Rightarrow> sql_expr list" where
  "option_checks d = List.map_filter (\<lambda>opt. case opt of OptCheck e \<Rightarrow> Some e | _ \<Rightarrow> None) (cd_options d)"

definition option_fks :: "unicode \<Rightarrow> column_def \<Rightarrow> foreign_key list" where
  "option_fks U d =
     List.map_filter (\<lambda>opt. case opt of OptForeignKey fk \<Rightarrow> Some (foreign_key_of U (to_lowercase U (cd_name d)) fk)
                                      | _ \<Rightarrow> None) (cd_options d)"

text \<open>A table-level PRIMARY KEY marks its columns.\<close>

fun mark_key :: "rstr \<Rightarrow> column list \<Rightarrow> column list option" where
  "mark_key n [] = None"
| "mark_key n (c # cs) =
     (if col_name c = n then Some (c\<lparr>col_primary_key := True\<rparr> # cs) else map_option ((#) c) (mark_key n cs))"

fun mark_keys :: "unicode \<Rightarrow> sql_expr list \<Rightarrow> column list \<Rightarrow> column list eres" where
  "mark_keys U [] cols = Inr cols"
| "mark_keys U (e # es) cols =
     (case ident_of e of
        None \<Rightarrow> Inl (ParseError ''PRIMARY KEY columns must be plain column names'')
      | Some i \<Rightarrow>
          (case mark_key (to_lowercase U i) cols of
             None \<Rightarrow> Inl (ParseError (quote_msg ''PRIMARY KEY column '' (to_lowercase U i) '' not found''))
           | Some cols' \<Rightarrow> mark_keys U es cols'))"

fun apply_constraints :: "unicode \<Rightarrow> table_constraint list \<Rightarrow> column list \<times> foreign_key list \<times> sql_expr list
    \<Rightarrow> (column list \<times> foreign_key list \<times> sql_expr list) eres" where
  "apply_constraints U [] st = Inr st"
| "apply_constraints U (ConForeignKey fk # cs) (cols, fks, cks) =
     apply_constraints U cs (cols, fks @ [foreign_key_of U [] fk], cks)"
| "apply_constraints U (ConCheck e # cs) (cols, fks, cks) = apply_constraints U cs (cols, fks, cks @ [e])"
| "apply_constraints U (ConPrimaryKey es # cs) (cols, fks, cks) =
     bind_res (mark_keys U es cols) (\<lambda>cols'. apply_constraints U cs (cols', fks, cks))"
| "apply_constraints U (ConOther # cs) st = apply_constraints U cs st"

definition say :: "rstr \<Rightarrow> rstr \<Rightarrow> rstr \<Rightarrow> rstr" where
  "say pre n post = json_text (quote_msg pre n post)"

definition modify_db :: "('ast database \<Rightarrow> 'ast database sres) \<Rightarrow> ('ast, unit) exec" where
  "modify_db f s = (case f (se_db s) of Inl e \<Rightarrow> Some (Inl (ExecError e), s) | Inr db \<Rightarrow> Some (Inr (), s\<lparr>se_db := db\<rparr>))"

definition build_table :: "unicode \<Rightarrow> type_printer \<Rightarrow> create_table_stmt \<Rightarrow> table eres" where
  "build_table U P ct =
     bind_res (columns_from_defs U P False (ct_columns ct)) (\<lambda>cols.
     bind_res (apply_constraints U (ct_constraints ct)
                 (cols, concat (map (option_fks U) (ct_columns ct)), concat (map option_checks (ct_columns ct))))
       (\<lambda>(cols', fks, cks).
     bind_res (xlift (new_table (object_name_str U (ct_name ct)) cols')) (\<lambda>t.
       Inr (t\<lparr>tbl_check_constraints := cks, tbl_foreign_keys := fks\<rparr>))))"

definition exec_create_table :: "('ast, 'stmt) host \<Rightarrow> type_printer \<Rightarrow> create_table_stmt \<Rightarrow> ('ast, rstr) exec" where
  "exec_create_table H P ct s =
     (let U = env_unicode (host_env H s); n = object_name_str U (ct_name ct)
      in if ct_if_not_exists ct \<and> has_table n (se_db s) then Some (Inr (say ''Table '' n '' already exists''), s)
         else case build_table U P ct of
                Inl e \<Rightarrow> Some (Inl e, s)
              | Inr t \<Rightarrow> xbind (modify_db (create_table n t)) (\<lambda>_. xret (say ''Table '' n '' created'')) s)"

text \<open>\<open>json_val_to_dbvalue\<close>.\<close>

fun json_val_to_dbvalue :: "json_printer \<Rightarrow> json \<Rightarrow> db_value" where
  "json_val_to_dbvalue J (JString s) = DString s"
| "json_val_to_dbvalue J (JNumber n) = (case json_as_i64 n of Some i \<Rightarrow> DInt i | None \<Rightarrow> DFloat (json_as_f64 n))"
| "json_val_to_dbvalue J (JBool b) = DBool b"
| "json_val_to_dbvalue J JNull = DNull"
| "json_val_to_dbvalue J v = DString (jp_display J v)"

fun insert_all :: "eval_env \<Rightarrow> rstr \<Rightarrow> row list \<Rightarrow> table \<Rightarrow> table eres panicking" where
  "insert_all E pre [] t = pok t"
| "insert_all E pre (r # rs) t =
     (case insert_row E r t of
        None \<Rightarrow> None
      | Some (Inl e) \<Rightarrow> perr (ExecError (pre @ error_message e))
      | Some (Inr t') \<Rightarrow> insert_all E pre rs t')"

definition exec_create_table_as :: "('ast, 'stmt) host \<Rightarrow> create_table_stmt \<Rightarrow> ('ast, rstr) exec" where
  "exec_create_table_as H ct s =
     (let U = env_unicode (host_env H s); n = object_name_str U (ct_name ct)
      in if ct_if_not_exists ct \<and> has_table n (se_db s) then Some (Inr (say ''Table '' n '' already exists''), s)
         else case ct_query ct of
           None \<Rightarrow> Some (Inl (ExecError ''CTAS requires a SELECT query''), s)
         | Some q \<Rightarrow>
             xbind (host_select H q) (\<lambda>text.
               case host_json_rows H text of
                 Inl e \<Rightarrow> xerr (ExecError (''CTAS JSON parse: '' @ e))
               | Inr [] \<Rightarrow> xerr (ExecError ''CTAS: SELECT returned no columns'')
               | Inr (h # rows) \<Rightarrow>
                   (case new_table n (map (\<lambda>v. plain_column
                            (to_lowercase U (case json_as_str v of Some x \<Rightarrow> x | None \<Rightarrow> ''col'')) TString) h) of
                      Inl e \<Rightarrow> xerr (ExecError e)
                    | Inr t \<Rightarrow>
                        xbind (xread (\<lambda>s. insert_all (host_env H s) ''CTAS insert: ''
                                 (map (map (json_val_to_dbvalue (host_json H))) rows) t)) (\<lambda>t'.
                        xbind (modify_db (create_table n t')) (\<lambda>_.
                          xret (say ''Table '' n ('' created with '' @ dec_nat (length rows) @ '' row(s)'')))))) s)"

section \<open>The other CREATE statements\<close>

text \<open>\<open>cv_query\<close> is the printed query.\<close>

record create_view_stmt =
  cv_name :: object_name
  cv_materialized :: bool
  cv_or_replace :: bool
  cv_if_not_exists :: bool
  cv_query :: rstr

definition exec_create_view :: "unicode \<Rightarrow> create_view_stmt \<Rightarrow> ('ast, rstr) exec" where
  "exec_create_view U cv s =
     (let n = object_name_str U (cv_name cv)
      in if cv_materialized cv then Some (Inl (ExecError ''Materialized views are not supported''), s)
         else if has_table n (se_db s) then Some (Inl (TableAlreadyExists n), s)
         else xbind (if cv_or_replace cv \<and> has_view n (se_db s) then modify_db (drop_view n) else xret ()) (\<lambda>_ s1.
                if cv_if_not_exists cv \<and> has_view n (se_db s1) then Some (Inr (say ''View '' n '' already exists''), s1)
                else xbind (modify_db (create_view n (cv_query cv))) (\<lambda>_. xret (say ''View '' n '' created'')) s1) s)"

definition sequence_column :: column where
  "sequence_column = (plain_column ''val'' TInt)\<lparr>col_default := Some (DInt 0)\<rparr>"

definition exec_create_sequence :: "('ast, 'stmt) host \<Rightarrow> object_name \<Rightarrow> bool \<Rightarrow> ('ast, rstr) exec" where
  "exec_create_sequence H name if_not_exists s =
     (let E = host_env H s; n = object_name_str (env_unicode E) name; tn = ''__seq_'' @ n
      in if if_not_exists \<and> has_table n (se_db s) then Some (Inr (say ''Sequence '' n '' exists''), s)
         else case new_table tn [sequence_column] of
                Inl e \<Rightarrow> Some (Inl (ExecError (''CREATE SEQUENCE: '' @ e)), s)
              | Inr t \<Rightarrow>
                  (case insert_row E [DInt 0] t of
                     None \<Rightarrow> None
                   | Some res \<Rightarrow> Some (Inr (say ''Sequence '' n '' created''),
                       put_table tn (case res of Inr t' \<Rightarrow> t' | Inl _ \<Rightarrow> t) s)))"

datatype index_kind = IxBTree | IxGin | IxCustom rstr | IxOther rstr

text \<open>\<open>ci_using\<close> is the USING type of the options or of the legacy field; columns are printed.\<close>

record create_index_stmt =
  ci_name :: "object_name option"
  ci_table :: object_name
  ci_if_not_exists :: bool
  ci_using :: "index_kind option"
  ci_columns :: "rstr list"

definition index_type_of :: "unicode \<Rightarrow> (index_kind \<Rightarrow> rstr) \<Rightarrow> index_kind option \<Rightarrow> index_type eres" where
  "index_type_of U disp k =
     (case k of
        None \<Rightarrow> Inr KBTree
      | Some IxBTree \<Rightarrow> Inr KBTree
      | Some IxGin \<Rightarrow> Inr KTrigram
      | Some (IxCustom n) \<Rightarrow>
          (if to_uppercase U n = ''TRIGRAM'' then Inr KTrigram
           else Inl (ExecError (''Unsupported index type: '' @ disp (IxCustom n))))
      | Some (IxOther n) \<Rightarrow> Inl (ExecError (''Unsupported index type: '' @ disp (IxOther n))))"

definition add_index :: "unicode \<Rightarrow> rstr \<Rightarrow> rstr \<Rightarrow> rstr \<Rightarrow> index_type \<Rightarrow> ('ast, unit) exec" where
  "add_index U tn n c ty s =
     (case get_table tn (se_db s) of
        Inl e \<Rightarrow> Some (Inl (ExecError e), s)
      | Inr t \<Rightarrow>
          (case create_index U n c ty t of
             None \<Rightarrow> None
           | Some (Inl e) \<Rightarrow> Some (Inl (ExecError e), s)
           | Some (Inr t') \<Rightarrow> Some (Inr (), put_table tn t' s)))"

definition exec_create_index :: "unicode \<Rightarrow> (index_kind \<Rightarrow> rstr) \<Rightarrow> create_index_stmt \<Rightarrow> ('ast, rstr) exec" where
  "exec_create_index U disp ci s =
     (case ci_name ci of
        None \<Rightarrow> Some (Inl (ExecError ''CREATE INDEX requires a name''), s)
      | Some nm \<Rightarrow>
          (let n = object_name_str U nm; tn = object_name_str U (ci_table ci);
               create = (case index_type_of U disp (ci_using ci) of
                   Inl e \<Rightarrow> Some (Inl e, s)
                 | Inr ty \<Rightarrow>
                     (case ci_columns ci of
                        [] \<Rightarrow> Some (Inl (ExecError ''CREATE INDEX requires at least one column''), s)
                      | c # _ \<Rightarrow>
                          xbind (add_index U tn n (to_lowercase U c) ty) (\<lambda>_.
                            xret (say ''Index '' n (quote_msg '' on '' tn ('' ('' @ to_lowercase U c @ '') created'')))) s))
           in if ci_if_not_exists ci
              then (case get_table tn (se_db s) of
                      Inl e \<Rightarrow> Some (Inl (ExecError e), s)
                    | Inr t \<Rightarrow> (if has_index n t then Some (Inr (say ''Index '' n '' already exists''), s) else create))
              else create))"

datatype trigger_event = EvInsert | EvUpdate | EvDelete | EvOther
datatype trigger_period = PerBefore | PerAfter | PerOther

record create_trigger_stmt =
  ctr_name :: rstr
  ctr_table :: rstr
  ctr_events :: "trigger_event list"
  ctr_period :: "trigger_period option"
  ctr_body :: "rstr option"

definition exec_create_trigger :: "unicode \<Rightarrow> create_trigger_stmt \<Rightarrow> ('ast, rstr) exec" where
  "exec_create_trigger U ct s =
     (let tn = to_lowercase U (ctr_table ct); n = to_lowercase U (ctr_name ct);
          event = (case ctr_events ct of
             EvInsert # _ \<Rightarrow> Inr ''INSERT'' | EvUpdate # _ \<Rightarrow> Inr ''UPDATE'' | EvDelete # _ \<Rightarrow> Inr ''DELETE''
           | _ \<Rightarrow> Inl (ExecError ''Unsupported trigger event''));
          timing = (case ctr_period ct of
             Some PerBefore \<Rightarrow> Inr ''BEFORE'' | Some PerAfter \<Rightarrow> Inr ''AFTER''
           | Some PerOther \<Rightarrow> Inl (ExecError ''Only BEFORE/AFTER triggers supported'')
           | None \<Rightarrow> Inl (ExecError ''Trigger timing (BEFORE/AFTER) required''));
          body = (case ctr_body ct of Some b \<Rightarrow> b | None \<Rightarrow> [])
      in case bind_res event (\<lambda>ev. bind_res timing (\<lambda>ti.
                if body = [] then Inl (ExecError ''Trigger requires a body (SQL statement)'')
                else bind_res (xlift (get_table tn (se_db s))) (\<lambda>t.
                  Inr (t\<lparr>tbl_triggers := tbl_triggers t @
                        [\<lparr>tr_name = n, tr_timing = ti, tr_event = ev, tr_body = body\<rparr>]\<rparr>)))) of
           Inl e \<Rightarrow> Some (Inl e, s)
         | Inr t \<Rightarrow> Some (Inr (say ''Trigger '' n (quote_msg '' created on '' tn [])), put_table tn t s))"

fun trigram_indexes :: "unicode \<Rightarrow> rstr list \<Rightarrow> table \<Rightarrow> table panicking" where
  "trigram_indexes U [] t = Some t"
| "trigram_indexes U (c # cs) t =
     (case create_index U (''fts_trgm_'' @ to_lowercase U c) (to_lowercase U c) KTrigram t of
        None \<Rightarrow> None
      | Some (Inl _) \<Rightarrow> trigram_indexes U cs t
      | Some (Inr t') \<Rightarrow> trigram_indexes U cs t')"

text \<open>\<open>shown\<close> is how the module identifier prints, for the message.\<close>

definition exec_create_virtual_table :: "unicode \<Rightarrow> object_name \<Rightarrow> bool \<Rightarrow> rstr \<Rightarrow> rstr \<Rightarrow> rstr list
    \<Rightarrow> ('ast, rstr) exec" where
  "exec_create_virtual_table U name if_not_exists md shown args s =
     (let tn = object_name_str U name
      in if if_not_exists \<and> has_table tn (se_db s) then Some (Inr (say ''Table '' tn '' exists''), s)
         else if to_lowercase U md \<notin> {''fts3'', ''fts4'', ''fts5''}
         then Some (Inl (ExecError (quote_msg ''Virtual table module '' shown '' not supported'')), s)
         else if args = [] then Some (Inl (ExecError ''ftsX requires columns''), s)
         else case new_table tn (map (\<lambda>a. plain_column (to_lowercase U a) TString) args) of
                Inl e \<Rightarrow> Some (Inl (ExecError (''CREATE VIRTUAL TABLE: '' @ e)), s)
              | Inr t \<Rightarrow>
                  map_option (\<lambda>t'. (Inr (say ''Virtual table '' tn '' created (FTS trigram)''), put_table tn t' s))
                    (trigram_indexes U args t))"

section \<open>Inspection\<close>

definition describe_table :: "'ast database \<Rightarrow> rstr \<Rightarrow> rstr eres" where
  "describe_table db n =
     bind_res (table_or_missing n db) (\<lambda>t. Inr (bracketed
       (bracketed (map json_text [''Field'', ''Type'', ''Null'', ''Key'', ''Default'', ''Extra'']) #
        map (\<lambda>c. bracketed [json_text (col_name c), json_text (column_type_display (col_dtype c)),
               json_text (if col_not_null c then ''NO'' else ''YES''),
               json_text (if col_primary_key c then ''PRI'' else []),
               json_text (case col_default c of Some v \<Rightarrow> db_display v | None \<Rightarrow> []),
               json_text (if col_auto_increment c then ''auto_increment'' else [])]) (tbl_columns t))))"

definition show_create_column :: "column \<Rightarrow> rstr" where
  "show_create_column c =
     ''  '' @ json_text (col_name c) @ '' '' @ column_type_display (col_dtype c) @
     (if col_primary_key c then '' PRIMARY KEY'' else []) @
     (if col_not_null c \<and> \<not> col_primary_key c then '' NOT NULL'' else []) @
     (case col_default c of Some d \<Rightarrow> '' DEFAULT '' @ db_display d | None \<Rightarrow> []) @
     (if col_auto_increment c then '' AUTO_INCREMENT'' else [])"

text \<open>\<open>to_json\<close> is the JSON library's text of a string.\<close>

definition show_create_table :: "(rstr \<Rightarrow> rstr) \<Rightarrow> 'ast database \<Rightarrow> rstr \<Rightarrow> rstr eres" where
  "show_create_table to_json db n =
     bind_res (table_or_missing n db) (\<lambda>t. Inr (to_json
       (''CREATE TABLE '' @ json_text n @ '' ('' @ [newline] @
        join ('','' @ [newline]) (map show_create_column (tbl_columns t)) @ [newline] @ '')'')))"

definition exec_show_columns :: "unicode \<Rightarrow> object_name option \<Rightarrow> 'ast database \<Rightarrow> rstr eres" where
  "exec_show_columns U parent db =
     (case parent of
        None \<Rightarrow> Inl (ExecError ''SHOW COLUMNS requires FROM'')
      | Some nm \<Rightarrow>
          bind_res (table_or_missing (object_name_str U nm) db) (\<lambda>t. Inr (bracketed
            (map (\<lambda>c. json_text (col_name c @ '','' @ (if col_not_null c then ''NO'' else ''YES'') @
                (if col_primary_key c then '',PK'' else []))) (tbl_columns t)))))"

definition exec_show_create :: "unicode \<Rightarrow> bool \<Rightarrow> object_name \<Rightarrow> 'ast database \<Rightarrow> rstr eres" where
  "exec_show_create U is_table nm db =
     (if is_table
      then bind_res (table_or_missing (object_name_str U nm) db) (\<lambda>t. Inr (json_text
        (''CREATE TABLE '' @ object_name_str U nm @ '' ( '' @
         join '', '' (map (\<lambda>c. json_text (col_name c @ (if col_primary_key c then '' PRIMARY KEY'' else []) @
             (if col_not_null c then '' NOT NULL'' else []))) (tbl_columns t)) @ '' )'')))
      else Inl (ExecError ''SHOW CREATE only supports TABLE''))"

section \<open>Triggers, VACUUM, ANALYZE, COMMENT, SET\<close>

fun drop_trigger_in :: "rstr \<Rightarrow> rstr list \<Rightarrow> 'ast session \<Rightarrow> 'ast session option" where
  "drop_trigger_in n [] s = None"
| "drop_trigger_in n (tn # tns) s =
     (case get_table tn (se_db s) of
        Inr t \<Rightarrow>
          (if \<exists>tr \<in> set (tbl_triggers t). tr_name tr = n
           then Some (put_table tn (t\<lparr>tbl_triggers := filter (\<lambda>tr. tr_name tr \<noteq> n) (tbl_triggers t)\<rparr>) s)
           else drop_trigger_in n tns s)
      | Inl _ \<Rightarrow> drop_trigger_in n tns s)"

definition exec_drop_trigger :: "unicode \<Rightarrow> object_name \<Rightarrow> object_name option \<Rightarrow> ('ast, rstr) exec" where
  "exec_drop_trigger U tn table_opt s =
     (let n = object_name_str U tn
      in case drop_trigger_in n (case table_opt of Some t \<Rightarrow> [object_name_str U t] | None \<Rightarrow> table_names (se_db s)) s of
           Some s' \<Rightarrow> Some (Inr (say ''Trigger '' n '' dropped''), s')
         | None \<Rightarrow> Some (Inl (ExecError (quote_msg ''Trigger '' n '' not found'')), s))"

fun rebuild_tables :: "unicode \<Rightarrow> rstr list \<Rightarrow> 'ast session \<Rightarrow> 'ast session panicking" where
  "rebuild_tables U [] s = Some s"
| "rebuild_tables U (tn # tns) s =
     (case get_table tn (se_db s) of
        Inl _ \<Rightarrow> rebuild_tables U tns s
      | Inr t \<Rightarrow> (case rebuild_index U t of None \<Rightarrow> None | Some t' \<Rightarrow> rebuild_tables U tns (put_table tn t' s)))"

definition exec_vacuum :: "unicode \<Rightarrow> bool \<Rightarrow> ('ast, rstr) exec" where
  "exec_vacuum U reindex s =
     map_option (\<lambda>s'. (Inr (json_text (if reindex then ''REINDEX complete'' else ''VACUUM complete'')), s'))
       (rebuild_tables U (table_names (se_db s)) s)"

definition exec_analyze :: "unicode \<Rightarrow> object_name option \<Rightarrow> ('ast, rstr) exec" where
  "exec_analyze U tn s =
     (let names = (case tn of Some n \<Rightarrow> [object_name_str U n] | None \<Rightarrow> table_names (se_db s));
          note_stats = (\<lambda>n db. case get_table n db of
             Inl _ \<Rightarrow> db
           | Inr t \<Rightarrow> set_config U (''stat_cols_'' @ n) (dec_nat (col_count t))
                        (set_config U (''stat_rows_'' @ n) (dec_nat (row_count t)) db))
      in Some (Inr (json_text ''ANALYZE complete''), s\<lparr>se_db := fold note_stats names (se_db s)\<rparr>))"

definition exec_comment_on :: "unicode \<Rightarrow> object_name \<Rightarrow> rstr option \<Rightarrow> ('ast, rstr) exec" where
  "exec_comment_on U n comment s =
     Some (Inr (json_text ''COMMENT (stored)''),
       s\<lparr>se_db := set_config U (''comment_'' @ object_name_str U n) (case comment of Some c \<Rightarrow> c | None \<Rightarrow> []) (se_db s)\<rparr>)"

definition exec_call :: "('ast, 'stmt) host \<Rightarrow> rstr \<Rightarrow> func_args \<Rightarrow> ('ast, rstr) exec" where
  "exec_call H nm args s =
     (case exec_function (host_env H s) (eval_expr (host_env H s) [] Map.empty) nm args [] Map.empty of
        None \<Rightarrow> None
      | Some (Inr v) \<Rightarrow> Some (Inr (json_text (''CALL returned: '' @ db_display v)), s)
      | Some (Inl e) \<Rightarrow> Some (Inl (ExecError (''CALL error: '' @ error_message e)), s))"

text \<open>SET: names and values as printed.\<close>

datatype set_stmt = SetSingle rstr "rstr list" | SetMultiple "(rstr \<times> rstr) list" | SetOther

definition exec_set :: "unicode \<Rightarrow> set_stmt \<Rightarrow> ('ast, rstr) exec" where
  "exec_set U st s =
     (case st of
        SetSingle var vals \<Rightarrow>
          (let val = join '', '' vals
           in Some (Inr (json_text (''SET '' @ var @ '' = '' @ val)),
                    s\<lparr>se_db := set_config U (to_lowercase U var) val (se_db s)\<rparr>))
      | SetMultiple as \<Rightarrow>
          Some (Inr (json_text ''SET (multiple)''),
                s\<lparr>se_db := fold (\<lambda>(n, v). set_config U (to_lowercase U n) v) as (se_db s)\<rparr>)
      | SetOther \<Rightarrow> Some (Inr (json_text ''SET (stored)''), s))"

section \<open>COPY\<close>

text \<open>The field splitter of COPY: quotes only toggle.\<close>

fun copy_fields :: "uchar list \<Rightarrow> uchar list \<Rightarrow> bool \<Rightarrow> rstr list" where
  "copy_fields [] cur q = [utf8 cur]"
| "copy_fields (c # cs) cur q =
     (if c = 34 then copy_fields cs cur (\<not> q)
      else if c = 44 \<and> \<not> q then utf8 cur # copy_fields cs [] q
      else copy_fields cs (cur @ [c]) q)"

definition copy_value :: "unicode \<Rightarrow> rstr \<Rightarrow> column \<Rightarrow> db_value eres" where
  "copy_value U v c =
     (let s = trim v
      in if s = [] \<or> s = ''NULL'' \<or> s = ''null'' then Inr DNull
         else case col_dtype c of
                TInt \<Rightarrow> (case parse_i64 s of Some n \<Rightarrow> Inr (DInt n)
                         | None \<Rightarrow> Inl (ExecError (quote_msg ''COPY FROM stdin: invalid integer '' s [])))
              | TFloat \<Rightarrow> (case parse_f64 s of Some f \<Rightarrow> Inr (DFloat f)
                           | None \<Rightarrow> Inl (ExecError (quote_msg ''COPY FROM stdin: invalid float '' s [])))
              | TBool \<Rightarrow> Inr (DBool (to_lowercase U s = ''true'' \<or> to_lowercase U s = ''1''))
              | _ \<Rightarrow> Inr (DString s))"

fun copy_lines :: "eval_env \<Rightarrow> rstr list \<Rightarrow> nat \<Rightarrow> table \<Rightarrow> (nat eres \<times> table) panicking" where
  "copy_lines E [] n t = Some (Inr n, t)"
| "copy_lines E (l # ls) n t =
     (let s = trim l
      in if s = [] \<or> hd s = CHR ''#'' then copy_lines E ls n t
         else if hd s = CHR ''{'' \<or> hd s = CHR ''[''
         then Some (Inl (ExecError ''COPY FROM stdin: JSON format not yet supported''), t)
         else let vs = copy_fields (chars s) [] False
              in if length vs \<noteq> col_count t
                 then Some (Inl (ExecError (''COPY FROM stdin: expected '' @ dec_nat (col_count t) @
                              '' columns, got '' @ dec_nat (length vs))), t)
                 else case map_res (\<lambda>(v, c). copy_value (env_unicode E) v c) (zip vs (tbl_columns t)) of
                        Inl e \<Rightarrow> Some (Inl e, t)
                      | Inr r \<Rightarrow>
                          (case insert_row E r t of
                             None \<Rightarrow> None
                           | Some (Inl e) \<Rightarrow> Some (Inl (ExecError (''COPY FROM stdin: '' @ error_message e)), t)
                           | Some (Inr t') \<Rightarrow> copy_lines E ls (n + 1) t'))"

text \<open>The source table, if it is one; whether it is COPY TO; whether the target is stdin.\<close>

definition exec_copy :: "('ast, 'stmt) host \<Rightarrow> object_name option \<Rightarrow> bool \<Rightarrow> bool \<Rightarrow> ('ast, rstr) exec" where
  "exec_copy H source to_target stdin s =
     (let E = host_env H s
      in case source of
           None \<Rightarrow> Some (Inl (ExecError ''COPY only supports table source''), s)
         | Some nm \<Rightarrow>
             (let tn = object_name_str (env_unicode E) nm
              in if to_target
                 then (case table_or_missing tn (se_db s) of
                         Inl e \<Rightarrow> Some (Inl e, s)
                       | Inr t \<Rightarrow> Some (Inr (json_text (''COPY: '' @ dec_nat (row_count t) @ '' rows'')), s))
                 else if \<not> stdin then Some (Inl (ExecError ''COPY only supports TO or FROM stdin''), s)
                 else let data = (case se_stdin s of Some d \<Rightarrow> d | None \<Rightarrow> []); s1 = s\<lparr>se_stdin := None\<rparr>
                      in if data = [] then Some (Inl (ExecError ''COPY FROM stdin: no data provided''), s1)
                         else case table_or_missing tn (se_db s1) of
                                Inl e \<Rightarrow> Some (Inl e, s1)
                              | Inr t \<Rightarrow>
                                  map_option (\<lambda>(r, t'). (bind_res r (\<lambda>n. Inr (json_text
                                      (''COPY FROM: '' @ dec_nat n @ '' rows inserted''))), put_table tn t' s1))
                                    (copy_lines E (text_lines data) 0 t)))"

end
