(* ===== verification/Execute.thy ===== *)
theory Execute
  imports DmlUpdate Ddl
begin

text \<open>
  \<open>execute.rs\<close>: the dispatch of a statement to its executor, and the recursion through triggers: a
  trigger body is parsed and executed again.  The code bounds that recursion by its depth counter; here
  it is cut by a fuel, and \<open>execute\<close> has more fuel than the counter lets it use, so it satisfies the
  code's recursive equation (\<open>execute_unfold\<close>).
\<close>

section \<open>Statements\<close>

text \<open>DROP of a view, or of an object type given by its printed name.\<close>

datatype drop_kind = DropView | DropNamed rstr

datatype alter_op =
    AlterAdd rstr sql_type
  | AlterDrop "rstr list"
  | AlterRename rstr rstr
  | AlterRenameTable rstr  \<comment> \<open>the printed name\<close>
  | AlterOther rstr  \<comment> \<open>its Debug text\<close>

datatype 'o stmt =
    StCreateView create_view_stmt
  | StCreateTable create_table_stmt
  | StInsert insert_stmt
  | StQuery query
  | StUpdate update_stmt
  | StDelete delete_stmt
  | StCreateTrigger create_trigger_stmt
  | StCreateIndex create_index_stmt
  | StDrop drop_kind "object_name list" bool
  | StRename "(object_name \<times> object_name) list"
  | StTruncate "object_name list" bool
  | StSet set_stmt
  | StPragma object_name "rstr option"
  | StShowColumns "object_name option"
  | StShowCreate bool object_name
  | StDropTrigger object_name "object_name option"
  | StAttach rstr rstr
  | StMerge merge_stmt
  | StCreateVirtual object_name bool rstr rstr "rstr list"
  | StShowTables
  | StShowVariables
  | StStart
  | StCommit
  | StRollback
  | StSavepoint rstr
  | StRelease rstr
  | StAlter object_name "alter_op list"
  | StVacuum bool
  | StCopy "object_name option" bool bool
  | StCreateSequence object_name bool
  | StComment object_name "rstr option"
  | StCall rstr func_args
  | StAnalyze "object_name option"
  | StOther 'o  \<comment> \<open>EXPLAIN and what the code refuses\<close>

text \<open>
  What the dispatch needs besides: the query executor, EXPLAIN and refusals, whether a statement holds a
  subquery, the printing of types and index kinds, the order in which the settings are listed.
\<close>

record ('ast, 'o) statement_host =
  sh_query :: "query \<Rightarrow> ('ast, rstr) exec"
  sh_other :: "'o \<Rightarrow> ('ast, rstr) exec"
  sh_has_subquery :: "'o stmt \<Rightarrow> bool"
  sh_types :: type_printer
  sh_index :: "index_kind \<Rightarrow> rstr"
  sh_config_keys :: "(rstr \<rightharpoonup> rstr) \<Rightarrow> rstr list"
  sh_debug :: "rstr \<Rightarrow> rstr"

section \<open>Simple statements\<close>

text \<open>\<open>drop_index_by_name\<close>: from the first table that has it.\<close>

fun drop_index_by_name :: "rstr \<Rightarrow> rstr list \<Rightarrow> 'ast session \<Rightarrow> 'ast session option" where
  "drop_index_by_name n [] s = None"
| "drop_index_by_name n (tn # tns) s =
     (case bind_res (get_table tn (se_db s)) (drop_index n) of
        Inr t \<Rightarrow> Some (put_table tn t s)
      | Inl _ \<Rightarrow> drop_index_by_name n tns s)"

definition exec_drop :: "unicode \<Rightarrow> drop_kind \<Rightarrow> object_name list \<Rightarrow> bool \<Rightarrow> ('ast, rstr) exec" where
  "exec_drop U kind names if_exists s =
     (case names of
        [] \<Rightarrow> None
      | nm # _ \<Rightarrow>
          (let n = object_name_str U nm
           in case kind of
                DropView \<Rightarrow>
                  (if \<not> has_view n (se_db s)
                   then (if if_exists then Some (Inr (say ''View '' n '' not found''), s)
                         else Some (Inl (ViewNotFound n), s))
                   else xbind (modify_db (drop_view n)) (\<lambda>_. xret (say ''Dropped view '' n [])) s)
              | DropNamed ty \<Rightarrow>
                  (if contains_sub (to_lowercase U ty) ''index''
                   then (case drop_index_by_name n (table_names (se_db s)) s of
                           Some s' \<Rightarrow> Some (Inr (say ''Dropped index '' n []), s')
                         | None \<Rightarrow> (if if_exists then Some (Inr (say ''Index '' n '' not found''), s)
                                    else Some (Inl (IndexNotFound n), s)))
                   else if \<not> has_table n (se_db s)
                   then (if if_exists then Some (Inr (say ''Table '' n '' not found''), s)
                         else Some (Inl (TableNotFound n), s))
                   else xbind (modify_db (drop_table n)) (\<lambda>_. xret (say ''Dropped table '' n [])) s)))"

definition exec_rename :: "unicode \<Rightarrow> (object_name \<times> object_name) list \<Rightarrow> ('ast, rstr) exec" where
  "exec_rename U rt s =
     (case rt of
        [] \<Rightarrow> None
      | (a, b) # _ \<Rightarrow>
          xbind (modify_db (rename_table (object_name_str U a) (object_name_str U b))) (\<lambda>_.
            xret (say ''Table '' (object_name_str U a) (quote_msg '' renamed to '' (object_name_str U b) []))) s)"

definition exec_truncate :: "unicode \<Rightarrow> object_name list \<Rightarrow> bool \<Rightarrow> ('ast, rstr) exec" where
  "exec_truncate U names if_exists s =
     (case names of
        [] \<Rightarrow> None
      | nm # _ \<Rightarrow>
          (let n = object_name_str U nm
           in if if_exists \<and> \<not> has_table n (se_db s) then Some (Inr (say ''Table '' n '' not found''), s)
              else xbind (modify_db (modify_table n truncate_table)) (\<lambda>_. xret (say ''Table '' n '' truncated'')) s))"

definition exec_pragma :: "('ast, 'o) statement_host \<Rightarrow> unicode \<Rightarrow> object_name \<Rightarrow> rstr option \<Rightarrow> ('ast, rstr) exec" where
  "exec_pragma SH U nm v s =
     Some (Inr (json_text (''PRAGMA '' @ object_name_str U nm @ '' = '' @
               sh_debug SH (case v of Some x \<Rightarrow> x | None \<Rightarrow> []))),
           (case v of Some x \<Rightarrow> s\<lparr>se_db := set_config U (object_name_str U nm) x (se_db s)\<rparr> | None \<Rightarrow> s))"

definition exec_show_variables :: "('ast, 'o) statement_host \<Rightarrow> 'ast database \<Rightarrow> rstr" where
  "exec_show_variables SH db =
     bracketed (map (\<lambda>k. json_text (k @ '' = '' @ (case db_config db k of Some v \<Rightarrow> v | None \<Rightarrow> [])))
       (sh_config_keys SH (db_config db)))"

text \<open>ALTER TABLE: operation after operation; what was done stays when a later one fails.\<close>

definition modify_table_res :: "rstr \<Rightarrow> (table \<Rightarrow> table eres panicking) \<Rightarrow> ('ast, unit) exec" where
  "modify_table_res n f s =
     (case get_table n (se_db s) of
        Inl e \<Rightarrow> Some (Inl (ExecError e), s)
      | Inr t \<Rightarrow>
          (case f t of
             None \<Rightarrow> None
           | Some (Inl e) \<Rightarrow> Some (Inl e, s)
           | Some (Inr t') \<Rightarrow> Some (Inr (), put_table n t' s)))"

fun drop_columns :: "unicode \<Rightarrow> rstr \<Rightarrow> rstr list \<Rightarrow> ('ast, unit) exec" where
  "drop_columns U tn [] = xret ()"
| "drop_columns U tn (c # cs) =
     xbind (modify_table_res tn (drop_column (to_lowercase U c))) (\<lambda>_. drop_columns U tn cs)"

fun exec_alter_op :: "unicode \<Rightarrow> type_printer \<Rightarrow> rstr \<Rightarrow> alter_op \<Rightarrow> ('ast, rstr) exec" where
  "exec_alter_op U P tn (AlterAdd c ty) =
     (case parse_data_type U P ty of
        Inl e \<Rightarrow> xerr e
      | Inr dt \<Rightarrow>
          xbind (modify_table_res tn (\<lambda>t. Some (add_column (to_lowercase U c) dt t))) (\<lambda>_.
            xret (say ''Column '' (to_lowercase U c) (quote_msg '' added to '' tn []))))"
| "exec_alter_op U P tn (AlterDrop cs) =
     xbind (drop_columns U tn cs) (\<lambda>_. xret (say ''Column dropped from '' tn []))"
| "exec_alter_op U P tn (AlterRename a b) =
     xbind (modify_table_res tn (\<lambda>t. Some (rename_column (to_lowercase U a) (to_lowercase U b) t))) (\<lambda>_.
       xret (say ''Column '' (to_lowercase U a) (quote_msg '' renamed to '' (to_lowercase U b) [])))"
| "exec_alter_op U P tn (AlterRenameTable n) =
     xbind (modify_db (rename_table tn (to_lowercase U n))) (\<lambda>_.
       xret (say ''Table renamed to '' (to_lowercase U n) []))"
| "exec_alter_op U P tn (AlterOther d) = xerr (ExecError (''ALTER TABLE operation not supported: '' @ d))"

fun exec_alter :: "unicode \<Rightarrow> type_printer \<Rightarrow> rstr \<Rightarrow> alter_op list \<Rightarrow> rstr list \<Rightarrow> ('ast, rstr) exec" where
  "exec_alter U P tn [] acc = xret (bracketed acc)"
| "exec_alter U P tn (a # as) acc =
     xbind (exec_alter_op U P tn a) (\<lambda>r. exec_alter U P tn as (acc @ [r]))"

section \<open>Dispatch\<close>

text \<open>A statement that is no query and holds a subquery refreshes the snapshot.\<close>

definition refresh_snapshot :: "('ast, 'o) statement_host \<Rightarrow> 'o stmt \<Rightarrow> 'ast session \<Rightarrow> 'ast session" where
  "refresh_snapshot SH st s =
     (if (\<forall>q. st \<noteq> StQuery q) \<and> sh_has_subquery SH st then s\<lparr>se_snapshot := Some (se_db s)\<rparr> else s)"

definition change_db :: "('ast database \<Rightarrow> 'ast database) \<Rightarrow> rstr \<Rightarrow> ('ast, rstr) exec" where
  "change_db f r s = Some (Inr r, s\<lparr>se_db := f (se_db s)\<rparr>)"

definition dispatch :: "('ast, 'o stmt) host \<Rightarrow> ('ast, 'o) statement_host \<Rightarrow> (rstr \<Rightarrow> ('ast, rstr) exec)
    \<Rightarrow> unicode \<Rightarrow> 'o stmt \<Rightarrow> ('ast, rstr) exec" where
  "dispatch H SH run U st =
     (case st of
        StCreateView cv \<Rightarrow> exec_create_view U cv
      | StCreateTable ct \<Rightarrow>
          (if ct_query ct \<noteq> None then exec_create_table_as H ct else exec_create_table H (sh_types SH) ct)
      | StInsert ins \<Rightarrow> exec_insert H run ins
      | StQuery q \<Rightarrow> sh_query SH q
      | StUpdate upd \<Rightarrow> exec_update H run upd
      | StDelete del \<Rightarrow> exec_delete H run del
      | StCreateTrigger ct \<Rightarrow> exec_create_trigger U ct
      | StCreateIndex ci \<Rightarrow> exec_create_index U (sh_index SH) ci
      | StDrop kind names ie \<Rightarrow> exec_drop U kind names ie
      | StRename rt \<Rightarrow> exec_rename U rt
      | StTruncate names ie \<Rightarrow> exec_truncate U names ie
      | StSet st' \<Rightarrow> exec_set U st'
      | StPragma nm v \<Rightarrow> exec_pragma SH U nm v
      | StShowColumns p \<Rightarrow> xread (\<lambda>s. Some (exec_show_columns U p (se_db s)))
      | StShowCreate is_table nm \<Rightarrow> xread (\<lambda>s. Some (exec_show_create U is_table nm (se_db s)))
      | StDropTrigger tn t \<Rightarrow> exec_drop_trigger U tn t
      | StAttach schema file \<Rightarrow>
          change_db (set_config U (''attach_'' @ schema) file) (say ''Attached '' file (quote_msg '' as '' schema []))
      | StMerge mrg \<Rightarrow> exec_merge H mrg
      | StCreateVirtual nm ine md shown args \<Rightarrow> exec_create_virtual_table U nm ine md shown args
      | StShowTables \<Rightarrow> xread (\<lambda>s. pok (bracketed (map json_text (table_names (se_db s)))))
      | StShowVariables \<Rightarrow> xread (\<lambda>s. pok (exec_show_variables SH (se_db s)))
      | StStart \<Rightarrow> change_db db_begin (json_text ''Transaction started'')
      | StCommit \<Rightarrow> xbind (modify_db db_commit) (\<lambda>_. xret (json_text ''Committed''))
      | StRollback \<Rightarrow> xbind (modify_db db_rollback) (\<lambda>_. xret (json_text ''Rolled back''))
      | StSavepoint n \<Rightarrow> change_db (db_savepoint n) (say ''Savepoint '' n '' created'')
      | StRelease n \<Rightarrow> xbind (modify_db (db_release n)) (\<lambda>_. xret (say ''Savepoint '' n '' released''))
      | StAlter nm ops \<Rightarrow> exec_alter U (sh_types SH) (object_name_str U nm) ops []
      | StVacuum reindex \<Rightarrow> exec_vacuum U reindex
      | StCopy src to_target stdin \<Rightarrow> exec_copy H src to_target stdin
      | StCreateSequence nm ine \<Rightarrow> exec_create_sequence H nm ine
      | StComment nm c \<Rightarrow> exec_comment_on U nm c
      | StCall nm args \<Rightarrow> exec_call H nm args
      | StAnalyze nm \<Rightarrow> exec_analyze U nm
      | StOther x \<Rightarrow> sh_other SH x)"

definition exec_statement :: "('ast, 'o stmt) host \<Rightarrow> ('ast, 'o) statement_host \<Rightarrow> (rstr \<Rightarrow> ('ast, rstr) exec)
    \<Rightarrow> 'o stmt \<Rightarrow> ('ast, rstr) exec" where
  "exec_statement H SH run st s =
     dispatch H SH run (env_unicode (host_env H s)) st (refresh_snapshot SH st s)"

text \<open>Running a text with a bound on the nesting of trigger bodies.\<close>

fun run_text :: "('ast, 'o stmt) host \<Rightarrow> ('ast, 'o) statement_host \<Rightarrow> nat \<Rightarrow> rstr \<Rightarrow> ('ast, rstr) exec" where
  "run_text H SH 0 sql s = None"
| "run_text H SH (Suc n) sql s = parse_and_exec H (exec_statement H SH (run_text H SH n)) sql s"

definition execute :: "('ast, 'o stmt) host \<Rightarrow> ('ast, 'o) statement_host \<Rightarrow> 'o stmt \<Rightarrow> ('ast, rstr) exec" where
  "execute H SH = exec_statement H SH (run_text H SH max_trigger_depth)"

end
