(* ===== verification/ExecDepth.thy ===== *)
theory ExecDepth
  imports Execute
begin

text \<open>
  The trigger depth: every executor leaves it as it found it, and what an executor does depends on the
  nested executor only one level deeper.  From both, the recursion through triggers ends.
\<close>

section \<open>Executors leave the depth alone\<close>

named_theorems depth_rules \<open>executors that keep the trigger depth\<close>

definition keeps_depth :: "('ast, 'a) exec \<Rightarrow> bool" where
  "keeps_depth m \<longleftrightarrow> (\<forall>s r s'. m s = Some (r, s') \<longrightarrow> se_depth s' = se_depth s)"

lemma keeps_depthI: "(\<And>s r s'. m s = Some (r, s') \<Longrightarrow> se_depth s' = se_depth s) \<Longrightarrow> keeps_depth m"
  by (auto simp: keeps_depth_def)

lemma keeps_depthD: "keeps_depth m \<Longrightarrow> m s = Some (r, s') \<Longrightarrow> se_depth s' = se_depth s"
  by (auto simp: keeps_depth_def)

lemma depth_put_table [simp]: "se_depth (put_table n t s) = se_depth s"
  by (simp add: put_table_def)

lemma depth_record_changes [simp]: "se_depth (record_changes n s) = se_depth s"
  by (simp add: record_changes_def)

lemma depth_record_insert [simp]: "se_depth (record_insert tn n rs s) = se_depth s"
  by (simp add: record_insert_def Let_def)

lemma keeps_xret [depth_rules]: "keeps_depth (xret x)"
  by (simp add: keeps_depth_def xret_def)

lemma keeps_xerr [depth_rules]: "keeps_depth (xerr e)"
  by (simp add: keeps_depth_def xerr_def)

lemma keeps_xread [depth_rules]: "keeps_depth (xread f)"
  by (auto simp: keeps_depth_def xread_def)

lemma keeps_xbind [depth_rules]:
  assumes "keeps_depth m" "\<And>x. keeps_depth (f x)"
  shows "keeps_depth (xbind m f)"
proof (rule keeps_depthI)
  fix s r s' assume "xbind m f s = Some (r, s')"
  then obtain q s1 where "m s = Some (q, s1)" "(case q of Inl e \<Rightarrow> Some (Inl e, s1) | Inr x \<Rightarrow> f x s1) = Some (r, s')"
    by (auto simp: xbind_def split: option.splits sum.splits)
  then show "se_depth s' = se_depth s"
    using keeps_depthD [OF assms(1)] keeps_depthD [OF assms(2)] by (cases q) fastforce+
qed

lemma keeps_modify_db [depth_rules]: "keeps_depth (modify_db f)"
  by (auto simp: keeps_depth_def modify_db_def split: sum.splits)

lemma keeps_change_db [depth_rules]: "keeps_depth (change_db f r)"
  by (auto simp: keeps_depth_def change_db_def)

lemma keeps_modify_table_res [depth_rules]: "keeps_depth (modify_table_res n f)"
  by (auto simp: keeps_depth_def modify_table_res_def split: sum.splits option.splits)

lemma keeps_before_triggers [depth_rules]: "keeps_depth (before_triggers H run tn ev)"
  by (auto simp: keeps_depth_def before_triggers_def fire_triggers_before_def Let_def split: if_splits)

lemma keeps_after_triggers [depth_rules]: "keeps_depth (after_triggers H run tn ev new old)"
  by (auto simp: keeps_depth_def after_triggers_def fire_triggers_def Let_def split: if_splits)

lemma keeps_returning_text [depth_rules]: "keeps_depth (returning_text H tn rows items)"
  unfolding returning_text_def by (rule keeps_xread)

lemma keeps_run_insert_loop [depth_rules]: "keeps_depth (run_insert_loop H ins tn lk rows)"
  by (rule keeps_depthI)
    (auto simp: run_insert_loop_def Let_def split: sum.splits option.splits row_outcome.splits if_splits)

lemma keeps_handle_reference [depth_rules]: "keeps_depth (handle_reference U tn keys ref)"
  by (rule keeps_depthI)
    (auto simp: handle_reference_def Let_def split: sum.splits option.splits prod.splits referential_action.splits)

lemma keeps_handle_references [depth_rules]: "keeps_depth (handle_references U tn keys refs)"
  by (induction refs) (simp_all add: depth_rules)

lemma keeps_run_delete [depth_rules]: "keeps_depth (run_delete H tn m pred)"
  by (rule keeps_depthI) (auto simp: run_delete_def Let_def split: sum.splits if_splits)

lemma keeps_run_updates [depth_rules]: "keeps_depth (run_updates U tn us)"
  by (rule keeps_depthI) (auto simp: run_updates_def split: sum.splits)

lemma apply_cascade_depth: "apply_cascade U c s = Some s' \<Longrightarrow> se_depth s' = se_depth s"
  by (auto simp: apply_cascade_def split: prod.splits sum.splits if_splits)

lemma keeps_apply_cascades [depth_rules]: "keeps_depth (apply_cascades U cs)"
proof (rule keeps_depthI)
  show "apply_cascades U cs s = Some (r, s') \<Longrightarrow> se_depth s' = se_depth s" for s r s'
    by (induction cs arbitrary: s) (auto dest: apply_cascade_depth split: option.splits)
qed

lemma keeps_run_merge [depth_rules]: "keeps_depth (run_merge H mrg t src)"
  by (rule keeps_depthI) (auto simp: run_merge_def split: sum.splits)

section \<open>The statements\<close>

definition host_keeps_depth :: "('ast, 'o stmt) host \<Rightarrow> ('ast, 'o) statement_host \<Rightarrow> bool" where
  "host_keeps_depth H SH \<longleftrightarrow>
     (\<forall>q. keeps_depth (host_select H q)) \<and> (\<forall>q. keeps_depth (sh_query SH q)) \<and> (\<forall>x. keeps_depth (sh_other SH x))"

text \<open>Through the case distinctions of the executors.\<close>

lemma keeps_case_option: "(\<And>x. keeps_depth (g x)) \<Longrightarrow> keeps_depth a \<Longrightarrow> keeps_depth (case v of None \<Rightarrow> a | Some x \<Rightarrow> g x)"
  by (cases v) auto

lemma keeps_case_sum:
  "(\<And>x. keeps_depth (f x)) \<Longrightarrow> (\<And>x. keeps_depth (g x)) \<Longrightarrow> keeps_depth (case v of Inl x \<Rightarrow> f x | Inr x \<Rightarrow> g x)"
  by (cases v) auto

lemma keeps_case_prod: "(\<And>a b. keeps_depth (f a b)) \<Longrightarrow> keeps_depth (case v of (a, b) \<Rightarrow> f a b)"
  by (cases v) auto

lemma keeps_case_list: "keeps_depth a \<Longrightarrow> (\<And>x xs. keeps_depth (g x xs)) \<Longrightarrow> keeps_depth (case v of [] \<Rightarrow> a | x # xs \<Rightarrow> g x xs)"
  by (cases v) auto

lemma keeps_if: "keeps_depth a \<Longrightarrow> keeps_depth b \<Longrightarrow> keeps_depth (if P then a else b)"
  by auto

lemma keeps_record_insert: "keeps_depth (\<lambda>s. xret () (record_insert tn n rs s))"
  by (auto simp: keeps_depth_def xret_def)

lemma keeps_references_at: "keeps_depth (\<lambda>s. handle_references U tn keys (fk_refs tn (se_db s)) s)"
  by (rule keeps_depthI) (rule keeps_depthD [OF keeps_handle_references])

lemmas keeps_intros =
  keeps_xret keeps_xerr keeps_xread keeps_xbind keeps_modify_db keeps_change_db keeps_modify_table_res
  keeps_before_triggers keeps_after_triggers keeps_returning_text keeps_run_insert_loop keeps_references_at
  keeps_run_delete keeps_run_updates keeps_apply_cascades keeps_run_merge keeps_record_insert
  keeps_case_option keeps_case_sum keeps_case_prod keeps_case_list keeps_if

lemma xbind_depth:
  "xbind m f s = Some (r, s') \<Longrightarrow> keeps_depth m \<Longrightarrow> (\<And>x. keeps_depth (f x)) \<Longrightarrow> se_depth s' = se_depth s"
  by (rule keeps_depthD [OF keeps_xbind])

lemma keeps_insert_rows_of: "host_keeps_depth H SH \<Longrightarrow> keeps_depth (insert_rows_of H ins)"
  unfolding insert_rows_of_def
  by (auto simp: host_keeps_depth_def intro!: keeps_intros split: insert_source.splits option.splits)

lemma keeps_exec_insert: "host_keeps_depth H SH \<Longrightarrow> keeps_depth (exec_insert H run ins)"
  by (rule keeps_depthI, simp only: exec_insert_def Let_def, erule xbind_depth)
    (auto intro!: keeps_intros keeps_insert_rows_of)

lemma keeps_exec_delete: "keeps_depth (exec_delete H run del)"
  by (rule keeps_depthI, simp only: exec_delete_def Let_def)
    (auto split: sum.splits elim!: xbind_depth intro!: keeps_intros)

lemma keeps_exec_update: "keeps_depth (exec_update H run upd)"
  by (rule keeps_depthI, simp only: exec_update_def Let_def)
    (auto split: sum.splits elim!: xbind_depth intro!: keeps_intros)

lemma keeps_exec_merge: "keeps_depth (exec_merge H mrg)"
  by (rule keeps_depthI, simp only: exec_merge_def Let_def)
    (auto split: sum.splits prod.splits elim!: xbind_depth intro!: keeps_intros)

lemma keeps_exec_create_table: "keeps_depth (exec_create_table H P ct)"
  by (rule keeps_depthI, simp only: exec_create_table_def Let_def)
    (auto split: sum.splits if_splits elim!: xbind_depth intro!: keeps_intros)

lemma keeps_exec_create_table_as: "host_keeps_depth H SH \<Longrightarrow> keeps_depth (exec_create_table_as H ct)"
  by (rule keeps_depthI, simp only: exec_create_table_as_def Let_def)
    (auto simp: host_keeps_depth_def split: option.splits if_splits elim!: xbind_depth intro!: keeps_intros)

lemma keeps_view_tail:
  "keeps_depth (\<lambda>s1. if A s1 then Some (Inr x, s1) else xbind (modify_db f) (\<lambda>_. xret y) s1)"
  by (rule keeps_depthI) (auto split: if_splits elim!: xbind_depth intro!: keeps_intros)

lemma keeps_exec_create_view: "keeps_depth (exec_create_view U cv)"
  by (rule keeps_depthI, simp only: exec_create_view_def Let_def)
    (auto split: if_splits elim!: xbind_depth intro!: keeps_intros keeps_view_tail)

lemma keeps_add_index: "keeps_depth (add_index U tn n c ty)"
  by (rule keeps_depthI) (auto simp: add_index_def split: sum.splits option.splits)

lemma keeps_exec_create_index: "keeps_depth (exec_create_index U disp ci)"
  by (rule keeps_depthI, simp only: exec_create_index_def Let_def)
    (auto split: option.splits sum.splits list.splits if_splits elim!: xbind_depth intro!: keeps_intros keeps_add_index)

lemma keeps_exec_create_trigger: "keeps_depth (exec_create_trigger U ct)"
  by (rule keeps_depthI, simp only: exec_create_trigger_def Let_def) (auto split: sum.splits)

lemma keeps_exec_create_sequence: "keeps_depth (exec_create_sequence H nm ine)"
  by (rule keeps_depthI) (auto simp: exec_create_sequence_def Let_def split: sum.splits option.splits if_splits)

lemma keeps_exec_create_virtual_table: "keeps_depth (exec_create_virtual_table U nm ine md sh args)"
  by (rule keeps_depthI) (auto simp: exec_create_virtual_table_def Let_def split: sum.splits if_splits)

lemma drop_index_by_name_depth: "drop_index_by_name n tns s = Some s' \<Longrightarrow> se_depth s' = se_depth s"
  by (induction n tns s rule: drop_index_by_name.induct) (auto split: sum.splits)

lemma keeps_exec_drop: "keeps_depth (exec_drop U kind names ie)"
  by (rule keeps_depthI, simp only: exec_drop_def Let_def)
    (auto split: list.splits drop_kind.splits option.splits if_splits dest: drop_index_by_name_depth
      elim!: xbind_depth intro!: keeps_intros)

lemma keeps_exec_rename: "keeps_depth (exec_rename U rt)"
  by (rule keeps_depthI, simp only: exec_rename_def)
    (auto split: list.splits elim!: xbind_depth intro!: keeps_intros)

lemma keeps_exec_truncate: "keeps_depth (exec_truncate U names ie)"
  by (rule keeps_depthI, simp only: exec_truncate_def Let_def)
    (auto split: list.splits if_splits elim!: xbind_depth intro!: keeps_intros)

lemma drop_trigger_in_depth: "drop_trigger_in n tns s = Some s' \<Longrightarrow> se_depth s' = se_depth s"
  by (induction n tns s rule: drop_trigger_in.induct) (auto split: sum.splits if_splits)

lemma keeps_exec_drop_trigger: "keeps_depth (exec_drop_trigger U tn t)"
  by (rule keeps_depthI)
    (auto simp: exec_drop_trigger_def Let_def split: option.splits dest: drop_trigger_in_depth
      simp del: drop_trigger_in.simps)

lemma rebuild_tables_depth: "rebuild_tables U tns s = Some s' \<Longrightarrow> se_depth s' = se_depth s"
  by (induction U tns s rule: rebuild_tables.induct) (auto split: sum.splits option.splits)

lemma keeps_simple:
  "keeps_depth (exec_pragma SH U nm v)" "keeps_depth (exec_vacuum U reindex)" "keeps_depth (exec_set U st)"
  "keeps_depth (exec_analyze U tn)" "keeps_depth (exec_comment_on U nm c)" "keeps_depth (exec_call H f args)"
  by (rule keeps_depthI; auto simp: exec_pragma_def exec_vacuum_def exec_set_def exec_analyze_def exec_comment_on_def
      exec_call_def Let_def split: option.splits set_stmt.splits sum.splits dest: rebuild_tables_depth)+

lemma keeps_exec_copy: "keeps_depth (exec_copy H src to stdin)"
  by (rule keeps_depthI) (auto simp: exec_copy_def Let_def split: option.splits sum.splits if_splits)

lemma keeps_drop_columns: "keeps_depth (drop_columns U tn cs)"
  by (induction cs) (auto intro!: keeps_intros)

lemma keeps_exec_alter_op: "keeps_depth (exec_alter_op U P tn a)"
  by (cases a) (auto intro!: keeps_intros keeps_drop_columns)

lemma keeps_exec_alter: "keeps_depth (exec_alter U P tn as acc)"
  by (induction as arbitrary: acc) (auto intro!: keeps_intros keeps_exec_alter_op)

lemma keeps_dispatch: "host_keeps_depth H SH \<Longrightarrow> keeps_depth (dispatch H SH run U st)"
  unfolding dispatch_def
  by (cases st)
    (auto intro!: keeps_intros keeps_exec_insert keeps_exec_delete keeps_exec_update keeps_exec_merge keeps_exec_create_table
      keeps_exec_create_table_as keeps_exec_create_view keeps_exec_create_index keeps_exec_create_trigger
      keeps_exec_create_sequence keeps_exec_create_virtual_table keeps_exec_drop keeps_exec_rename keeps_exec_truncate
      keeps_exec_drop_trigger keeps_simple keeps_exec_copy keeps_exec_alter simp: host_keeps_depth_def)

lemma refresh_depth [simp]: "se_depth (refresh_snapshot SH st s) = se_depth s"
  by (simp add: refresh_snapshot_def)

lemma keeps_exec_statement:
  assumes "host_keeps_depth H SH"
  shows "keeps_depth (exec_statement H SH run st)"
  by (rule keeps_depthI) (auto simp: exec_statement_def dest!: keeps_depthD [OF keeps_dispatch [OF assms]])

lemma keeps_exec_all: "(\<And>st. keeps_depth (ex st)) \<Longrightarrow> keeps_depth (exec_all ex sts acc)"
  by (induction sts arbitrary: acc) (auto intro!: keeps_intros)

lemma keeps_parse_and_exec: "(\<And>st. keeps_depth (ex st)) \<Longrightarrow> keeps_depth (parse_and_exec H ex sql)"
  unfolding parse_and_exec_def by (auto intro!: keeps_intros keeps_exec_all)

lemma keeps_run_text:
  assumes "host_keeps_depth H SH"
  shows "keeps_depth (run_text H SH n sql)"
proof (cases n)
  case (Suc k)
  have "keeps_depth (parse_and_exec H (exec_statement H SH (run_text H SH k)) sql)"
    by (rule keeps_parse_and_exec) (rule keeps_exec_statement [OF assms])
  then show ?thesis by (simp add: Suc keeps_depth_def)
qed (simp add: keeps_depth_def)

section \<open>One level deeper\<close>

text \<open>Two computations that do the same at a depth.\<close>

definition same_at :: "nat \<Rightarrow> ('ast, 'a) exec \<Rightarrow> ('ast, 'a) exec \<Rightarrow> bool" where
  "same_at d m m' \<longleftrightarrow> (\<forall>s. se_depth s = d \<longrightarrow> m s = m' s)"

lemma same_at_refl: "same_at d m m"
  by (simp add: same_at_def)

lemma same_at_xbind:
  assumes "same_at d m m'" "keeps_depth m" "\<And>x. same_at d (f x) (f' x)"
  shows "same_at d (xbind m f) (xbind m' f')"
  unfolding same_at_def
proof (intro allI impI)
  fix s :: "'a session" assume d: "se_depth s = d"
  then have "m s = m' s" using assms(1) by (simp add: same_at_def)
  moreover have "se_depth s' = d" if "m s = Some (r, s')" for r s'
    using keeps_depthD [OF assms(2) that] d by simp
  ultimately show "xbind m f s = xbind m' f' s"
    using assms(3) by (auto simp: xbind_def same_at_def split: option.splits sum.splits)
qed

text \<open>Nested executors that agree one level deeper.\<close>

definition agree_below :: "nat \<Rightarrow> (rstr \<Rightarrow> ('ast, rstr) exec) \<Rightarrow> (rstr \<Rightarrow> ('ast, rstr) exec) \<Rightarrow> bool" where
  "agree_below d run run' \<longleftrightarrow>
     max_trigger_depth \<le> d \<or> (\<forall>sql. keeps_depth (run sql) \<and> same_at (Suc d) (run sql) (run' sql))"

lemma run_bodies_same:
  assumes "\<forall>sql. keeps_depth (run sql) \<and> same_at k (run sql) (run' sql)" "se_depth s = k"
  shows "run_bodies run bs s = run_bodies run' bs s"
  using assms(2)
proof (induction bs arbitrary: s)
  case (Cons b bs)
  have e: "run b s = run' b s" using assms(1) Cons.prems by (simp add: same_at_def)
  have "run_bodies run bs s' = run_bodies run' bs s'" if "run b s = Some (r, s')" for r s'
    using Cons.IH keeps_depthD [of "run b"] that assms(1) Cons.prems by simp
  then show ?case by (auto simp: e [symmetric] split: option.splits)
qed simp

lemma run_before_same:
  assumes "\<forall>sql. keeps_depth (run sql) \<and> same_at k (run sql) (run' sql)" "se_depth s = k"
  shows "run_before run bs s = run_before run' bs s"
  using assms(2)
proof (induction bs arbitrary: s)
  case (Cons nb bs)
  obtain n b where nb: "nb = (n, b)" by (cases nb)
  let ?s = "s\<lparr>se_raised := False\<rparr>"
  have e: "run b ?s = run' b ?s" using assms(1) Cons.prems by (simp add: same_at_def)
  have "run_before run bs (s'\<lparr>se_raised := False\<rparr>) = run_before run' bs (s'\<lparr>se_raised := False\<rparr>)"
    if "run b ?s = Some (r, s')" for r s'
    using Cons.IH keeps_depthD [of "run b"] that assms(1) Cons.prems by simp
  then show ?case by (auto simp: nb e [symmetric] split: option.splits sum.splits)
qed simp

lemma before_triggers_same:
  assumes "agree_below d run run'"
  shows "same_at d (before_triggers H run tn ev) (before_triggers H run' tn ev)"
  unfolding same_at_def
proof (intro allI impI)
  fix s :: "'a session" assume d: "se_depth s = d"
  show "before_triggers H run tn ev s = before_triggers H run' tn ev s"
  proof (cases "max_trigger_depth \<le> d")
    case True
    then show ?thesis using d by (simp add: before_triggers_def fire_triggers_before_def)
  next
    case False
    then have "\<forall>sql. keeps_depth (run sql) \<and> same_at (Suc d) (run sql) (run' sql)"
      using assms by (simp add: agree_below_def)
    from run_before_same [OF this, of "s\<lparr>se_depth := Suc d\<rparr>"] False d show ?thesis
      by (simp add: before_triggers_def fire_triggers_before_def split: sum.split)
  qed
qed

lemma after_triggers_same:
  assumes "agree_below d run run'"
  shows "same_at d (after_triggers H run tn ev new old) (after_triggers H run' tn ev new old)"
  unfolding same_at_def
proof (intro allI impI)
  fix s :: "'a session" assume d: "se_depth s = d"
  show "after_triggers H run tn ev new old s = after_triggers H run' tn ev new old s"
  proof (cases "max_trigger_depth \<le> d")
    case True
    then show ?thesis using d by (simp add: after_triggers_def fire_triggers_def)
  next
    case False
    then have "\<forall>sql. keeps_depth (run sql) \<and> same_at (Suc d) (run sql) (run' sql)"
      using assms by (simp add: agree_below_def)
    from run_bodies_same [OF this, of "s\<lparr>se_depth := Suc d\<rparr>"] False d show ?thesis
      by (simp add: after_triggers_def fire_triggers_def split: sum.split)
  qed
qed

lemma same_case_option:
  "(\<And>x. same_at d (g x) (g' x)) \<Longrightarrow> same_at d a a' \<Longrightarrow>
     same_at d (case v of None \<Rightarrow> a | Some x \<Rightarrow> g x) (case v of None \<Rightarrow> a' | Some x \<Rightarrow> g' x)"
  by (cases v) auto

lemma same_case_prod: "(\<And>a b. same_at d (f a b) (f' a b)) \<Longrightarrow> same_at d (case v of (a, b) \<Rightarrow> f a b) (case v of (a, b) \<Rightarrow> f' a b)"
  by (cases v) auto

lemma same_at_app: "same_at (se_depth s) m m' \<Longrightarrow> m s = m' s"
  by (simp add: same_at_def)

lemma same_xbind_app: "se_depth s = d \<Longrightarrow> same_at d (xbind m f) (xbind m' f') \<Longrightarrow> xbind m f s = xbind m' f' s"
  by (simp add: same_at_def)

lemmas same_intros = same_at_xbind same_case_option same_case_prod before_triggers_same after_triggers_same

lemma exec_insert_same:
  assumes "host_keeps_depth H SH" "agree_below d run run'"
  shows "same_at d (exec_insert H run ins) (exec_insert H run' ins)"
  unfolding same_at_def
proof (intro allI impI)
  fix s :: "'a session" assume d: "se_depth s = d"
  show "exec_insert H run ins s = exec_insert H run' ins s"
    unfolding exec_insert_def Let_def
    by (rule same_xbind_app [OF d])
      (rule same_intros same_at_refl keeps_intros keeps_insert_rows_of [OF assms(1)] assms(2))+
qed

lemma exec_delete_same:
  assumes "agree_below d run run'"
  shows "same_at d (exec_delete H run del) (exec_delete H run' del)"
  unfolding same_at_def
proof (intro allI impI)
  fix s :: "'a session" assume d: "se_depth s = d"
  show "exec_delete H run del s = exec_delete H run' del s"
  proof (cases "delete_table_name (env_unicode (host_env H s)) del")
    case (Inr tn)
    then show ?thesis
      unfolding exec_delete_def Let_def Inr sum.case
      by (intro same_xbind_app [OF d]) (rule same_intros same_at_refl keeps_intros assms)+
  qed (simp add: exec_delete_def)
qed

lemma exec_update_same:
  assumes "agree_below d run run'"
  shows "same_at d (exec_update H run upd) (exec_update H run' upd)"
  unfolding same_at_def
proof (intro allI impI)
  fix s :: "'a session" assume d: "se_depth s = d"
  show "exec_update H run upd s = exec_update H run' upd s"
  proof (cases "resolve_table (env_unicode (host_env H s)) (upd_table upd)")
    case (Inr tn)
    then show ?thesis
      unfolding exec_update_def Let_def Inr sum.case
      by (intro same_xbind_app [OF d]) (rule same_intros same_at_refl keeps_intros assms)+
  qed (simp add: exec_update_def)
qed

lemma exec_statement_same:
  assumes "host_keeps_depth H SH" "agree_below d run run'"
  shows "same_at d (exec_statement H SH run st) (exec_statement H SH run' st)"
proof -
  have "same_at d (dispatch H SH run U st) (dispatch H SH run' U st)" for U
    using exec_insert_same [OF assms] exec_delete_same [OF assms(2)] exec_update_same [OF assms(2)]
    by (cases st) (simp_all add: dispatch_def same_at_refl)
  then show ?thesis by (simp add: same_at_def exec_statement_def)
qed

lemma exec_all_same:
  assumes "\<And>st. keeps_depth (ex st) \<and> same_at d (ex st) (ex' st)"
  shows "same_at d (exec_all ex sts acc) (exec_all ex' sts acc)"
  using assms by (induction sts arbitrary: acc) (auto intro!: same_intros same_at_refl)

lemma parse_and_exec_same:
  assumes "\<And>st. keeps_depth (ex st) \<and> same_at d (ex st) (ex' st)"
  shows "same_at d (parse_and_exec H ex sql) (parse_and_exec H ex' sql)"
  unfolding parse_and_exec_def using exec_all_same [OF assms] by (auto simp: same_at_refl split: sum.split)

section \<open>The recursion ends\<close>

text \<open>At depth \<open>d\<close> any fuel of at least \<open>16 - d\<close> is enough.\<close>

lemma enough_fuel:
  assumes "host_keeps_depth H SH"
  shows "max_trigger_depth \<le> d + k \<Longrightarrow> k \<le> n \<Longrightarrow> k \<le> m \<Longrightarrow>
    same_at d (exec_statement H SH (run_text H SH n) st) (exec_statement H SH (run_text H SH m) st)"
proof (induction k arbitrary: d n m st)
  case 0
  then show ?case by (intro exec_statement_same [OF assms]) (simp add: agree_below_def)
next
  case (Suc k)
  obtain n' m' where nm: "n = Suc n'" "m = Suc m'" using Suc.prems by (cases n; cases m) auto
  have "same_at (Suc d) (run_text H SH n sql) (run_text H SH m sql)" for sql
    unfolding same_at_def nm run_text.simps
  proof (intro allI impI)
    fix s :: "'a session" assume "se_depth s = Suc d"
    then show "parse_and_exec H (exec_statement H SH (run_text H SH n')) sql s =
      parse_and_exec H (exec_statement H SH (run_text H SH m')) sql s"
      using Suc.prems nm
      by (intro same_at_app parse_and_exec_same conjI keeps_exec_statement [OF assms] Suc.IH) simp_all
  qed
  then show ?case
    by (intro exec_statement_same [OF assms]) (simp add: agree_below_def keeps_run_text [OF assms])
qed

lemma execute_fuel:
  "host_keeps_depth H SH \<Longrightarrow> max_trigger_depth \<le> n \<Longrightarrow>
     exec_statement H SH (run_text H SH n) st s = execute H SH st s"
  unfolding execute_def by (rule same_at_app, rule enough_fuel [where k = max_trigger_depth]) auto

lemma execute_recursion:
  assumes "host_keeps_depth H SH"
  shows "execute H SH st s = exec_statement H SH (parse_and_exec H (execute H SH)) st s"
proof -
  have "run_text H SH (Suc max_trigger_depth) = parse_and_exec H (execute H SH)"
    by (simp add: fun_eq_iff execute_def)
  then show ?thesis using execute_fuel [OF assms, of "Suc max_trigger_depth" st s] by simp
qed

end
