(* ===== verification/ExecInvariant.thy ===== *)
theory ExecInvariant
  imports ExecDepth
begin

text \<open>
  What the executors promise about the stored tables.  The contract between the table layer and the
  executors is a locale: a property of tables that every table operation keeps.  Inside it, every
  statement of a tame set keeps all tables good, through triggers of any depth; the well-formedness
  and typing of \<open>TableInv\<close> meet the contract.
\<close>

section \<open>Keeping a property of the database\<close>

definition keeps :: "('ast database \<Rightarrow> bool) \<Rightarrow> ('ast, 'a) exec \<Rightarrow> bool" where
  "keeps J m \<longleftrightarrow> (\<forall>s r s'. m s = Some (r, s') \<longrightarrow> J (se_db s) \<longrightarrow> J (se_db s'))"

lemma keepsI: "(\<And>s r s'. m s = Some (r, s') \<Longrightarrow> J (se_db s) \<Longrightarrow> J (se_db s')) \<Longrightarrow> keeps J m"
  by (auto simp: keeps_def)

lemma keepsD: "keeps J m \<Longrightarrow> m s = Some (r, s') \<Longrightarrow> J (se_db s) \<Longrightarrow> J (se_db s')"
  by (auto simp: keeps_def)

lemma keeps_basic: "keeps J (xret x)" "keeps J (xerr e)" "keeps J (xread f)"
  by (auto simp: keeps_def xret_def xerr_def xread_def)

lemma keeps_bind:
  assumes "keeps J m" "\<And>x. keeps J (f x)"
  shows "keeps J (xbind m f)"
proof (rule keepsI)
  fix s r s' assume m: "xbind m f s = Some (r, s')" and J: "J (se_db s)"
  then obtain q s1 where "m s = Some (q, s1)" "(case q of Inl e \<Rightarrow> Some (Inl e, s1) | Inr x \<Rightarrow> f x s1) = Some (r, s')"
    by (auto simp: xbind_def split: option.splits sum.splits)
  then show "J (se_db s')"
    using keepsD [OF assms(1) _ J] keepsD [OF assms(2)] by (cases q) fastforce+
qed

lemma bind_keeps:
  "xbind m f s = Some (r, s') \<Longrightarrow> keeps J m \<Longrightarrow> (\<And>x. keeps J (f x)) \<Longrightarrow> J (se_db s) \<Longrightarrow> J (se_db s')"
  by (rule keepsD [OF keeps_bind])

lemma keeps_cases:
  "(\<And>x. keeps J (g x)) \<Longrightarrow> keeps J a \<Longrightarrow> keeps J (case v of None \<Rightarrow> a | Some x \<Rightarrow> g x)"
  "(\<And>x. keeps J (f x)) \<Longrightarrow> (\<And>x. keeps J (h x)) \<Longrightarrow> keeps J (case w of Inl x \<Rightarrow> f x | Inr x \<Rightarrow> h x)"
  "(\<And>a b. keeps J (p a b)) \<Longrightarrow> keeps J (case u of (a, b) \<Rightarrow> p a b)"
  "keeps J a \<Longrightarrow> keeps J b \<Longrightarrow> keeps J (if P then a else b)"
  by (cases v; cases w; cases u; auto)+

lemma keeps_modify: "(\<And>db db'. J db \<Longrightarrow> f db = Inr db' \<Longrightarrow> J db') \<Longrightarrow> keeps J (modify_db f)"
  by (auto simp: keeps_def modify_db_def split: sum.splits)

lemma keeps_change: "(\<And>db. J db \<Longrightarrow> J (f db)) \<Longrightarrow> keeps J (change_db f r)"
  by (auto simp: keeps_def change_db_def)

lemma keeps_all: "(\<And>st. st \<in> set sts \<Longrightarrow> keeps J (ex st)) \<Longrightarrow> keeps J (exec_all ex sts acc)"
  by (induction sts arbitrary: acc) (auto intro!: keeps_basic keeps_bind)

subsection \<open>Triggers\<close>

lemma run_bodies_keeps:
  "run_bodies run bs s = Some s' \<Longrightarrow> (\<And>b. keeps J (run b)) \<Longrightarrow> J (se_db s) \<Longrightarrow> J (se_db s')"
proof (induction run bs s rule: run_bodies.induct)
  case (2 run b bs s)
  then obtain q s1 where q: "run b s = Some (q, s1)" by (auto split: option.splits)
  have "J (se_db s1)" using keepsD [OF "2.prems"(2) q "2.prems"(3)] .
  then show ?case using "2.IH" [OF q refl] "2.prems" q by simp
qed simp

lemma run_before_keeps:
  "run_before run bs s = Some (r, s') \<Longrightarrow> (\<And>b. keeps J (run b)) \<Longrightarrow> J (se_db s) \<Longrightarrow> J (se_db s')"
proof (induction run bs s rule: run_before.induct)
  case (2 run n b bs s)
  obtain q s1 where q: "run b (s\<lparr>se_raised := False\<rparr>) = Some (q, s1)"
    using "2.prems"(1) by (auto split: option.splits)
  have "J (se_db s1)" using keepsD [OF "2.prems"(2) [of b] q] "2.prems"(3) by simp
  then show ?case using "2.IH" [OF q, of _] "2.prems" q by (cases q) (auto split: if_splits)
qed simp

lemma keeps_before_fire: "(\<And>b. keeps J (run b)) \<Longrightarrow> keeps J (before_triggers H run tn ev)"
  by (rule keepsI)
    (auto simp: before_triggers_def fire_triggers_before_def Let_def split: if_splits sum.splits dest!: run_before_keeps [of _ _ _ _ _ J])

lemma keeps_after_fire: "(\<And>b. keeps J (run b)) \<Longrightarrow> keeps J (after_triggers H run tn ev new old)"
  by (rule keepsI)
    (auto simp: after_triggers_def fire_triggers_def Let_def split: if_splits sum.splits dest!: run_bodies_keeps [of _ _ _ _ J])

section \<open>The tame statements\<close>

text \<open>
  The statements that only use the table operations that keep the invariant: no REPLACE and no
  \<open>DO UPDATE\<close>, no UPDATE, MERGE or TRUNCATE, no ON DELETE SET NULL, no DROP or RENAME of a column.
  The others are not tame for a reason: each can break the keys or the indexes of a table.
\<close>

definition tame_fk :: "referential_action option \<Rightarrow> bool" where
  "tame_fk a \<longleftrightarrow> a \<noteq> Some SetNull"

definition tame_insert :: "insert_stmt \<Rightarrow> bool" where
  "tame_insert ins \<longleftrightarrow> ins_or ins \<noteq> Some OrReplace \<and> \<not> ins_replace_into ins \<and>
     (\<forall>as. ins_on ins \<noteq> Some (OnConflict (DoUpdate as)))"

definition tame_create :: "create_table_stmt \<Rightarrow> bool" where
  "tame_create ct \<longleftrightarrow>
     (\<forall>d \<in> set (ct_columns ct). \<forall>fk. OptForeignKey fk \<in> set (cd_options d) \<longrightarrow> tame_fk (fkc_on_delete fk)) \<and>
     (\<forall>fk. ConForeignKey fk \<in> set (ct_constraints ct) \<longrightarrow> tame_fk (fkc_on_delete fk))"

fun tame_alter :: "alter_op \<Rightarrow> bool" where
  "tame_alter (AlterDrop cs) = False"
| "tame_alter (AlterRename a b) = False"
| "tame_alter _ = True"

fun tame :: "'o stmt \<Rightarrow> bool" where
  "tame (StInsert ins) = tame_insert ins"
| "tame (StCreateTable ct) = tame_create ct"
| "tame (StAlter n ops) = list_all tame_alter ops"
| "tame (StUpdate u) = False"
| "tame (StMerge m) = False"
| "tame (StTruncate ns b) = False"
| "tame _ = True"

text \<open>Every table of the database, and of the snapshots behind its transactions, is good.\<close>

definition all_good :: "(table \<Rightarrow> bool) \<Rightarrow> 'ast database \<Rightarrow> bool" where
  "all_good good db \<longleftrightarrow>
     (\<forall>n t. db_tables db n = Some t \<longrightarrow> good t) \<and>
     (\<forall>sn \<in> set (db_savepoints db). \<forall>n t. snap_tables sn n = Some t \<longrightarrow> good t)"

lemma all_good_get: "all_good good db \<Longrightarrow> get_table n db = Inr t \<Longrightarrow> good t"
  by (auto simp: all_good_def get_table_def split: option.splits)

lemma all_good_missing: "all_good good db \<Longrightarrow> table_or_missing n db = Inr t \<Longrightarrow> good t"
  by (auto simp: table_or_missing_def dest: all_good_get split: sum.splits)

lemma all_good_add [intro]: "all_good good db \<Longrightarrow> good t \<Longrightarrow> all_good good (add_table n t db)"
  by (auto simp: all_good_def add_table_def)

lemma all_good_put [intro]: "all_good good (se_db s) \<Longrightarrow> good t \<Longrightarrow> all_good good (se_db (put_table n t s))"
  by (auto simp: put_table_def)

lemma all_good_create: "create_table n t db = Inr db' \<Longrightarrow> all_good good db \<Longrightarrow> good t \<Longrightarrow> all_good good db'"
  by (auto simp: create_table_def split: if_splits)

lemma all_good_same: "db_tables db' = db_tables db \<Longrightarrow> db_savepoints db' = db_savepoints db \<Longrightarrow>
    all_good good db' = all_good good db"
  by (simp add: all_good_def)

lemma all_good_transactions:
  "all_good good db \<Longrightarrow> all_good good (db_begin db)"
  "all_good good db \<Longrightarrow> all_good good (db_savepoint n db)"
  "db_commit db = Inr db' \<Longrightarrow> all_good good db \<Longrightarrow> all_good good db'"
  "db_release n db = Inr db' \<Longrightarrow> all_good good db \<Longrightarrow> all_good good db'"
  "db_rollback db = Inr db' \<Longrightarrow> all_good good db \<Longrightarrow> all_good good db'"
  by (auto simp: all_good_def db_begin_def db_savepoint_def snap_def db_commit_def db_release_def remove_nth_def
      db_rollback_def restore_def split: if_splits option.splits)
    (meson in_set_butlastD in_set_takeD in_set_dropD last_in_set)+

lemma all_good_tables:
  "drop_table n db = Inr db' \<Longrightarrow> all_good good db \<Longrightarrow> all_good good db'"
  "rename_table a b db = Inr db' \<Longrightarrow> all_good good db \<Longrightarrow> all_good good db'"
  "create_view n q db = Inr db' \<Longrightarrow> all_good good db \<Longrightarrow> all_good good db'"
  "drop_view n db = Inr db' \<Longrightarrow> all_good good db \<Longrightarrow> all_good good db'"
  by (auto simp: all_good_def drop_table_def rename_table_def create_view_def drop_view_def
      split: if_splits option.splits)

lemma all_good_config [simp]: "all_good good (set_config U k v db) = all_good good db"
  by (simp add: all_good_def set_config_def)

lemma all_good_counters [simp]:
  "all_good good (se_db (record_changes n s)) = all_good good (se_db s)"
  "all_good good (se_db (record_insert tn n rs s)) = all_good good (se_db s)"
  by (simp_all add: all_good_def record_changes_def record_insert_def Let_def)

lemma apply_constraints_tame:
  "apply_constraints U cs (cols, fks, cks) = Inr (cols', fks', cks') \<Longrightarrow>
   list_all (\<lambda>fk. tame_fk (fk_on_delete fk)) fks \<Longrightarrow>
   (\<forall>fk. ConForeignKey fk \<in> set cs \<longrightarrow> tame_fk (fkc_on_delete fk)) \<Longrightarrow>
     list_all (\<lambda>fk. tame_fk (fk_on_delete fk)) fks'"
proof (induction cs arbitrary: cols fks cks)
  case (Cons c cs)
  show ?case
  proof (cases c)
    case (ConForeignKey fk)
    with Cons.prems Cons.IH [of cols "fks @ [foreign_key_of U [] fk]" cks] show ?thesis
      by (auto simp: foreign_key_of_def)
  next
    case (ConPrimaryKey es)
    with Cons.prems show ?thesis by (auto simp: bind_res_def split: sum.splits intro: Cons.IH)
  qed (use Cons.prems in \<open>auto intro: Cons.IH\<close>)
qed simp

lemma option_fks_tame:
  "tame_create ct \<Longrightarrow> list_all (\<lambda>fk. tame_fk (fk_on_delete fk)) (concat (map (option_fks U) (ct_columns ct)))"
  by (auto simp: tame_create_def list_all_iff option_fks_def foreign_key_of_def map_filter_def
      split: column_option.splits)

text \<open>What the surroundings must promise: the case mapping is one, and SELECT, the query executor and the
  statements that are not modelled keep the tables.\<close>

definition host_keeps :: "('ast database \<Rightarrow> bool) \<Rightarrow> unicode \<Rightarrow> ('ast, 'o stmt) host \<Rightarrow> ('ast, 'o) statement_host \<Rightarrow> bool" where
  "host_keeps J U H SH \<longleftrightarrow>
     (\<forall>s. env_unicode (host_env H s) = U) \<and> (\<forall>q. keeps J (host_select H q)) \<and> (\<forall>q. keeps J (sh_query SH q)) \<and>
     (\<forall>x. keeps J (sh_other SH x))"

definition tame_parser :: "('ast, 'o stmt) host \<Rightarrow> bool" where
  "tame_parser H \<longleftrightarrow> (\<forall>sql sts. host_parse H sql = Inr sts \<longrightarrow> list_all tame sts)"

section \<open>The contract of the table layer\<close>

locale table_contract =
  fixes U :: unicode and good :: "table \<Rightarrow> bool"
  assumes new: "new_table n cols = Inr t \<Longrightarrow> list_all (\<lambda>fk. tame_fk (fk_on_delete fk)) fks \<Longrightarrow>
      good (t\<lparr>tbl_check_constraints := cks, tbl_foreign_keys := fks\<rparr>)"
    and insert: "env_unicode E = U \<Longrightarrow> good t \<Longrightarrow> insert_row E r t = pok t' \<Longrightarrow> good t'"
    and delete: "good t \<Longrightarrow> delete_rows U P t = Some (t', k) \<Longrightarrow> good t'"
    and index: "good t \<Longrightarrow> create_index U n c ty t = Some (Inr t') \<Longrightarrow> good t'"
    and unindex: "good t \<Longrightarrow> drop_index n t = Inr t' \<Longrightarrow> good t'"
    and rebuild: "good t \<Longrightarrow> rebuild_index U t = Some t' \<Longrightarrow> good t'"
    and widen: "good t \<Longrightarrow> add_column n dt t = Inr t' \<Longrightarrow> good t'"
    and counter: "good t \<Longrightarrow> good (t\<lparr>tbl_next_auto_inc := x\<rparr>)"
    and retrigger: "good t \<Longrightarrow> good (t\<lparr>tbl_triggers := trs\<rparr>)"
    and no_set_null: "good t \<Longrightarrow> fk \<in> set (tbl_foreign_keys t) \<Longrightarrow> tame_fk (fk_on_delete fk)"
begin

lemma fresh: "new_table n cols = Inr t \<Longrightarrow> good t"
  using new [of n cols t "[]" "[]"] by (auto simp: new_table_def bind_res_def split: if_splits sum.splits)

lemma fill_auto_good: "fill_auto is r t = (r', t') \<Longrightarrow> good t \<Longrightarrow> good t'"
  by (induction "is" r t rule: fill_auto.induct) (auto intro: counter split: if_splits)

lemma on_duplicate_good:
  "on_duplicate E ins r e t = Some (out, t') \<Longrightarrow> tame_insert ins \<Longrightarrow> good t \<Longrightarrow> good t'"
  by (auto simp: on_duplicate_def tame_insert_def split: if_splits option.splits on_insert.splits conflict_action.splits)

lemma insert_full_row_good:
  "insert_full_row E ins lk r t = Some (out, t') \<Longrightarrow> tame_insert ins \<Longrightarrow> env_unicode E = U \<Longrightarrow> good t \<Longrightarrow> good t'"
  by (auto simp: insert_full_row_def split: option.splits sum.splits engine_error.splits
      dest: on_duplicate_good intro: insert)

lemma insert_one_good:
  "insert_one E ins lk ex autos es t = Some (out, t') \<Longrightarrow> tame_insert ins \<Longrightarrow> env_unicode E = U \<Longrightarrow> good t \<Longrightarrow> good t'"
  by (auto simp: insert_one_def Let_def split: option.splits sum.splits if_splits prod.splits
      dest: insert_full_row_good fill_auto_good)

lemma insert_loop_good:
  "insert_loop E ins lk ex autos ess n rs t = Some (out, t') \<Longrightarrow> tame_insert ins \<Longrightarrow> env_unicode E = U \<Longrightarrow> good t \<Longrightarrow>
     good t'"
proof (induction E ins lk ex autos ess n rs t rule: insert_loop.induct)
  case (2 E ins lk ex autos es ess n rs t)
  from "2.prems"(1) obtain o1 t1 where o1: "insert_one E ins lk ex autos es t = Some (o1, t1)"
    by (auto split: option.splits)
  have g: "good t1" by (rule insert_one_good [OF o1 "2.prems"(2-4)])
  show ?case
  proof (cases o1)
    case (RowDone k rs')
    with "2.IH" [OF o1 refl RowDone _ "2.prems"(2,3) g] "2.prems"(1) o1 show ?thesis by simp
  next
    case (RowFailed e b)
    with "2.prems"(1) o1 g show ?thesis by simp
  qed
qed simp

lemma insert_all_good:
  assumes E: "env_unicode E = U"
  shows "insert_all E pre rs t = pok t' \<Longrightarrow> good t \<Longrightarrow> good t'"
  by (induction rs arbitrary: t) (auto split: option.splits sum.splits dest: insert [OF E])

lemma copy_lines_good:
  assumes E: "env_unicode E = U"
  shows "copy_lines E ls n t = Some (r, t') \<Longrightarrow> good t \<Longrightarrow> good t'"
  by (induction ls arbitrary: n t)
    (auto simp: Let_def split: option.splits sum.splits if_splits dest: insert [OF E])

lemma delete_by_keys_good: "delete_by_keys U pi ks t = Some t' \<Longrightarrow> good t \<Longrightarrow> good t'"
  by (induction ks arbitrary: t) (auto split: option.splits if_splits dest: delete)

lemma cascade_delete_good: "cascade_delete U keys ci t = Some t' \<Longrightarrow> good t \<Longrightarrow> good t'"
  by (auto simp: cascade_delete_def Let_def split: option.splits dest: delete_by_keys_good)

lemma trigram_indexes_good: "trigram_indexes U cs t = Some t' \<Longrightarrow> good t \<Longrightarrow> good t'"
proof (induction cs arbitrary: t)
  case (Cons c cs)
  then show ?case
    by (cases "create_index U (''fts_trgm_'' @ to_lowercase U c) (to_lowercase U c) KTrigram t")
      (auto split: sum.splits dest: index)
qed simp

subsection \<open>INSERT and DELETE\<close>

lemma run_insert_loop_keeps:
  assumes "tame_insert ins" and U: "\<And>s. env_unicode (host_env H s) = U"
  shows "keeps (all_good good) (run_insert_loop H ins tn lk rows)"
proof (rule keepsI)
  fix s r s'
  assume run: "run_insert_loop H ins tn lk rows s = Some (r, s')" and J: "all_good good (se_db s)"
  show "all_good good (se_db s')"
  proof (cases "table_or_missing tn (se_db s)")
    case (Inr t)
    have t: "good t" using all_good_missing [OF J Inr] .
    have put: "all_good good (se_db (put_table tn t' s))"
      if "insert_loop (host_env H s) ins lk ex (auto_columns t) rows 0 [] t = Some (out, t')" for ex out t'
      using insert_loop_good [OF that assms(1) U t] J by auto
    show ?thesis using run Inr J put all_good_transactions(5)
      by (auto simp: run_insert_loop_def Let_def split: sum.splits option.splits row_outcome.splits if_splits)
        blast+
  qed (use run J in \<open>auto simp: run_insert_loop_def Let_def\<close>)
qed

lemma exec_insert_keeps:
  assumes "tame_insert ins" and H: "host_keeps (all_good good) U H SH" and run: "\<And>b. keeps (all_good good) (run b)"
  shows "keeps (all_good good) (exec_insert H run ins)"
proof -
  note rules = keeps_basic keeps_bind keeps_cases keeps_before_fire keeps_after_fire run_insert_loop_keeps
  have rows: "keeps (all_good good) (insert_rows_of H ins)"
    using H unfolding insert_rows_of_def
    by (auto simp: host_keeps_def intro!: keeps_basic keeps_bind keeps_cases split: insert_source.splits option.splits)
  have ret: "keeps (all_good good) (returning_text H tn rs items)" for tn rs items
    unfolding returning_text_def by (rule keeps_basic)
  have rec: "keeps (all_good good) (\<lambda>s. xret () (record_insert tn n rs s))" for tn n rs
    by (auto simp: keeps_def xret_def)
  show ?thesis
    using H assms(1) run
    by (intro keepsI, simp only: exec_insert_def Let_def, elim bind_keeps)
      (auto simp: host_keeps_def intro!: rules rows ret rec)
qed

lemma handle_reference_keeps: "keeps (all_good good) (handle_reference U tn keys ref)"
proof (rule keepsI)
  fix s :: "'a session" and r s'
  assume run: "handle_reference U tn keys ref s = Some (r, s')" and J: "all_good good (se_db s)"
  obtain cn ci where ref: "ref = (cn, ci)" by (cases ref)
  show "all_good good (se_db s')"
  proof (cases "get_table cn (se_db s)")
    case (Inr t)
    have t: "good t" using all_good_get [OF J Inr] .
    have "Option.bind (fk_between tn ci t) fk_on_delete \<noteq> Some SetNull"
      using no_set_null [OF t] by (auto simp: fk_between_def find_Some_iff tame_fk_def split: bind_splits)
    with run ref Inr J t cascade_delete_good [of keys ci t] show ?thesis
      by (auto simp: handle_reference_def split: option.splits referential_action.splits)
  qed (use run ref J in \<open>auto simp: handle_reference_def\<close>)
qed

lemma handle_references_keeps: "keeps (all_good good) (handle_references U tn keys refs)"
  by (induction refs) (auto intro!: keeps_basic keeps_bind handle_reference_keeps)

lemma run_delete_keeps:
  assumes "\<And>s. env_unicode (host_env H s) = U"
  shows "keeps (all_good good) (run_delete H tn m pred)"
proof (rule keepsI)
  fix s r s'
  assume run: "run_delete H tn m pred s = Some (r, s')" and J: "all_good good (se_db s)"
  show "all_good good (se_db s')"
  proof (cases "table_or_missing tn (se_db s)")
    case (Inr t)
    show ?thesis using run Inr J delete [OF all_good_missing [OF J Inr]]
      by (auto simp: run_delete_def Let_def assms split: if_splits intro!: all_good_put)
  qed (use run J in \<open>auto simp: run_delete_def Let_def\<close>)
qed

lemma exec_delete_keeps:
  assumes H: "host_keeps (all_good good) U H SH" and run: "\<And>b. keeps (all_good good) (run b)"
  shows "keeps (all_good good) (exec_delete H run del)"
proof -
  have ret: "keeps (all_good good) (returning_text H tn rs items)" for tn rs items
    unfolding returning_text_def by (rule keeps_basic)
  have refs: "keeps (all_good good) (\<lambda>s. handle_references U tn keys (fk_refs tn (se_db s)) s)" for tn keys
    by (rule keepsI) (rule keepsD [OF handle_references_keeps])
  have U: "\<And>s. env_unicode (host_env H s) = U" using H by (simp add: host_keeps_def)
  show ?thesis
  proof (rule keepsI)
    fix s r s'
    assume x: "exec_delete H run del s = Some (r, s')" and J: "all_good good (se_db s)"
    show "all_good good (se_db s')"
    proof (cases "delete_table_name U del")
      case (Inr tn)
      from x show ?thesis unfolding exec_delete_def Let_def U Inr sum.case
        by (rule bind_keeps)
          (intro keeps_basic keeps_bind keeps_cases keeps_before_fire keeps_after_fire run_delete_keeps refs ret
             run U J)+
    qed (use x J U in \<open>auto simp: exec_delete_def Let_def\<close>)
  qed
qed

subsection \<open>Data definition\<close>

lemma build_table_good: "build_table U P ct = Inr t \<Longrightarrow> tame_create ct \<Longrightarrow> good t"
  by (auto simp: build_table_def bind_res_def xlift_def tame_create_def split: sum.splits
      intro!: new apply_constraints_tame option_fks_tame)

lemma created:
  assumes "good t"
  shows "keeps (all_good good) (modify_db (create_table n t))"
  by (rule keeps_modify) (use assms in \<open>auto intro: all_good_create\<close>)

lemma exec_create_table_keeps:
  assumes "tame_create ct" "host_keeps (all_good good) U H SH"
  shows "keeps (all_good good) (exec_create_table H P ct)"
proof (rule keepsI)
  fix s r s'
  assume run: "exec_create_table H P ct s = Some (r, s')" and J: "all_good good (se_db s)"
  have U: "env_unicode (host_env H s) = U" using assms by (simp add: host_keeps_def)
  show "all_good good (se_db s')"
    using run J build_table_good [OF _ assms(1), of P]
    by (auto simp: exec_create_table_def Let_def U split: if_splits sum.splits
        elim!: bind_keeps intro!: keeps_basic created)
qed

lemma exec_create_table_as_keeps:
  assumes H: "host_keeps (all_good good) U H SH"
  shows "keeps (all_good good) (exec_create_table_as H ct)"
proof (rule keepsI)
  fix s r s'
  assume run: "exec_create_table_as H ct s = Some (r, s')" and J: "all_good good (se_db s)"
  have U: "\<And>s. env_unicode (host_env H s) = U" using H by (simp add: host_keeps_def)
  have fill: "keeps (all_good good) (xbind (xread (\<lambda>s. insert_all (host_env H s) pre rows t)) (\<lambda>t'.
      xbind (modify_db (create_table n t')) (\<lambda>_. xret x)))" if t: "good t" for pre rows t n and x :: rstr
  proof (rule keepsI)
    fix s1 :: "'a session" and r1 s2
    assume run1: "xbind (xread (\<lambda>s. insert_all (host_env H s) pre rows t)) (\<lambda>t'.
      xbind (modify_db (create_table n t')) (\<lambda>_. xret x)) s1 = Some (r1, s2)" and J1: "all_good good (se_db s1)"
    show "all_good good (se_db s2)"
    proof (cases "insert_all (host_env H s1) pre rows t")
      case (Some q)
      show ?thesis
      proof (cases q)
        case (Inr t')
        with Some have t': "good t'" using insert_all_good [OF U _ t] by simp
        have "xbind (modify_db (create_table n t')) (\<lambda>_. xret x) s1 = Some (r1, s2)"
          using run1 Some Inr by (simp add: xbind_def xread_def)
        then show ?thesis by (rule bind_keeps) (intro created t' keeps_basic J1)+
      qed (use run1 Some J1 in \<open>auto simp: xbind_def xread_def\<close>)
    qed (use run1 in \<open>simp add: xbind_def xread_def\<close>)
  qed
  show "all_good good (se_db s')"
  proof (cases "ct_query ct")
    case (Some q)
    have "keeps (all_good good) (host_select H q)" using H by (simp add: host_keeps_def)
    with run J Some show ?thesis
      by (auto simp: exec_create_table_as_def Let_def U split: if_splits
          elim!: bind_keeps intro!: keeps_basic fill split: sum.splits list.splits dest!: fresh)
  qed (use run J in \<open>auto simp: exec_create_table_as_def Let_def split: if_splits\<close>)
qed

lemma exec_create_view_keeps: "keeps (all_good good) (exec_create_view U cv)"
proof (rule keepsI)
  fix s r and s' :: "'a session"
  assume run: "exec_create_view U cv s = Some (r, s')" and J: "all_good good (se_db s)"
  have views: "keeps (all_good good) (modify_db (drop_view n))" "keeps (all_good good) (modify_db (create_view n q))" for n q
    by (rule keeps_modify, erule (1) all_good_tables)+
  have tail: "keeps (all_good good) (\<lambda>s1. if A s1 then Some (Inr x, s1) else xbind (modify_db (create_view n q)) (\<lambda>_. xret y) s1)"
    for A n q and x y :: rstr
    by (rule keepsI) (auto split: if_splits elim!: bind_keeps intro!: keeps_basic views)
  show "all_good good (se_db s')"
    using run J by (auto simp: exec_create_view_def Let_def split: if_splits
        elim!: bind_keeps intro!: keeps_basic views tail)
qed

lemma exec_create_sequence_keeps:
  assumes "host_keeps (all_good good) U H SH"
  shows "keeps (all_good good) (exec_create_sequence H nm ine)"
proof (rule keepsI)
  fix s r s'
  assume run: "exec_create_sequence H nm ine s = Some (r, s')" and J: "all_good good (se_db s)"
  have U: "env_unicode (host_env H s) = U" using assms by (simp add: host_keeps_def)
  show "all_good good (se_db s')"
    using run J insert [OF U fresh]
    by (auto simp: exec_create_sequence_def Let_def split: if_splits sum.splits option.splits
        intro!: all_good_put dest: fresh)
qed

lemma add_index_keeps: "keeps (all_good good) (add_index U tn n c ty)"
  by (rule keepsI) (auto simp: add_index_def split: sum.splits option.splits
      intro!: all_good_put intro: index all_good_get)

lemma exec_create_index_keeps: "keeps (all_good good) (exec_create_index U disp ci)"
  by (rule keepsI) (auto simp: exec_create_index_def Let_def split: option.splits sum.splits list.splits if_splits
      elim!: bind_keeps intro!: keeps_basic add_index_keeps)

lemma exec_create_trigger_keeps: "keeps (all_good good) (exec_create_trigger U ct)"
  by (rule keepsI) (auto simp: exec_create_trigger_def Let_def bind_res_def xlift_def split: sum.splits if_splits
      intro!: all_good_put retrigger intro: all_good_get)

lemma exec_create_virtual_keeps: "keeps (all_good good) (exec_create_virtual_table U nm ine md shown args)"
  by (rule keepsI) (auto simp: exec_create_virtual_table_def Let_def split: if_splits sum.splits
      intro!: all_good_put dest: fresh trigram_indexes_good)

lemma drop_index_by_name_good:
  "drop_index_by_name n tns s = Some s' \<Longrightarrow> all_good good (se_db s) \<Longrightarrow> all_good good (se_db s')"
  by (induction n tns s rule: drop_index_by_name.induct)
    (auto simp: bind_res_def split: sum.splits intro!: all_good_put intro: unindex all_good_get)

lemma exec_drop_keeps: "keeps (all_good good) (exec_drop U kind names ie)"
proof -
  have dropped: "keeps (all_good good) (modify_db (drop_view n))" "keeps (all_good good) (modify_db (drop_table n))" for n
    by (rule keeps_modify, erule (1) all_good_tables)+
  show ?thesis
    by (rule keepsI) (auto simp: exec_drop_def Let_def split: list.splits drop_kind.splits option.splits if_splits
        dest: drop_index_by_name_good elim!: bind_keeps intro!: keeps_basic dropped)
qed

lemma renamed: "keeps (all_good good) (modify_db (rename_table a b))"
  by (rule keeps_modify, erule (1) all_good_tables)

lemma exec_rename_keeps: "keeps (all_good good) (exec_rename U rt)"
  by (rule keepsI) (auto simp: exec_rename_def split: list.splits elim!: bind_keeps intro!: keeps_basic renamed)

lemma drop_trigger_in_good:
  "drop_trigger_in n tns s = Some s' \<Longrightarrow> all_good good (se_db s) \<Longrightarrow> all_good good (se_db s')"
  by (induction n tns s rule: drop_trigger_in.induct)
    (auto split: sum.splits if_splits intro!: all_good_put retrigger intro: all_good_get)

lemma exec_drop_trigger_keeps: "keeps (all_good good) (exec_drop_trigger U tn t)"
  by (rule keepsI) (auto simp: exec_drop_trigger_def Let_def split: option.splits dest: drop_trigger_in_good
      simp del: drop_trigger_in.simps)

lemma rebuild_tables_good:
  "rebuild_tables U tns s = Some s' \<Longrightarrow> all_good good (se_db s) \<Longrightarrow> all_good good (se_db s')"
  by (induction tns arbitrary: s) (auto split: sum.splits option.splits dest: rebuild all_good_get)

lemma exec_set_good: "all_good good (fold (\<lambda>(n, v). set_config U (to_lowercase U n) v) as db) = all_good good db"
  by (induction as arbitrary: db) (simp_all add: case_prod_beta)

lemma exec_analyze_good:
  "all_good good (fold (\<lambda>n db. case get_table n db of Inl _ \<Rightarrow> db
     | Inr t \<Rightarrow> set_config U (f n) (g t) (set_config U (f' n) (g' t) db)) ns db) = all_good good db"
  by (induction ns arbitrary: db) (simp_all split: sum.split)

lemma simple_keeps:
  "keeps (all_good good) (exec_pragma SH U nm v)" "keeps (all_good good) (exec_vacuum U reindex)"
  "keeps (all_good good) (exec_set U st)" "keeps (all_good good) (exec_analyze U tn)"
  "keeps (all_good good) (exec_comment_on U nm c)" "keeps (all_good good) (exec_call H f args)"
  by (rule keepsI; auto simp: exec_pragma_def exec_vacuum_def exec_set_def exec_analyze_def exec_comment_on_def
      exec_call_def Let_def exec_set_good exec_analyze_good
      split: option.splits set_stmt.splits sum.splits dest: rebuild_tables_good)+

lemma exec_copy_keeps:
  assumes "host_keeps (all_good good) U H SH"
  shows "keeps (all_good good) (exec_copy H src to_target stdin)"
proof (rule keepsI)
  fix s r s'
  assume run: "exec_copy H src to_target stdin s = Some (r, s')" and J: "all_good good (se_db s)"
  have U: "env_unicode (host_env H s) = U" using assms by (simp add: host_keeps_def)
  show "all_good good (se_db s')"
    using run J copy_lines_good [OF U] all_good_missing [OF J]
    by (auto simp: exec_copy_def Let_def split: option.splits sum.splits if_splits intro!: all_good_put)
qed

lemma exec_alter_op_keeps: "tame_alter a \<Longrightarrow> keeps (all_good good) (exec_alter_op U P tn a)"
proof (cases a)
  case (AlterAdd c ty)
  have "keeps (all_good good) (modify_table_res tn (\<lambda>t. Some (add_column c' dt t)))" for c' dt
    by (rule keepsI) (auto simp: modify_table_res_def split: sum.splits intro!: all_good_put intro: widen all_good_get)
  with AlterAdd show ?thesis by (auto intro!: keeps_basic keeps_bind keeps_cases)
next
  case (AlterRenameTable n)
  then show ?thesis by (auto intro!: keeps_basic keeps_bind renamed)
qed (auto intro: keeps_basic)

lemma exec_alter_keeps: "list_all tame_alter as \<Longrightarrow> keeps (all_good good) (exec_alter U P tn as acc)"
  by (induction as arbitrary: acc) (auto intro!: keeps_basic keeps_bind exec_alter_op_keeps)

subsection \<open>The statements\<close>

lemma dispatch_keeps:
  assumes H: "host_keeps (all_good good) U H SH" and "tame st" and run: "\<And>b. keeps (all_good good) (run b)"
  shows "keeps (all_good good) (dispatch H SH run U st)"
proof -
  have trans: "keeps (all_good good) (modify_db db_commit)" "keeps (all_good good) (modify_db db_rollback)"
    "keeps (all_good good) (modify_db (db_release n))" for n
    by (rule keeps_modify, erule (1) all_good_transactions)+
  have marks: "keeps (all_good good) (change_db db_begin x)" "keeps (all_good good) (change_db (db_savepoint n) x)"
    "keeps (all_good good) (change_db (set_config U k v) x)" for n k v x
    by (rule keeps_change, simp add: all_good_transactions)+
  have host: "keeps (all_good good) (sh_query SH q)" "keeps (all_good good) (sh_other SH x)" for q x
    using H by (simp_all add: host_keeps_def)
  from assms(2) show ?thesis
    by (cases st)
      (simp_all add: dispatch_def keeps_basic keeps_bind host exec_insert_keeps [OF _ H run] exec_delete_keeps [OF H run]
        exec_create_table_keeps [OF _ H] exec_create_table_as_keeps [OF H] exec_create_view_keeps exec_create_index_keeps
        exec_create_trigger_keeps exec_create_sequence_keeps [OF H] exec_create_virtual_keeps exec_drop_keeps exec_rename_keeps
        exec_drop_trigger_keeps simple_keeps exec_copy_keeps [OF H] exec_alter_keeps trans marks)
qed

lemma exec_statement_keeps:
  assumes H: "host_keeps (all_good good) U H SH" and "tame st" and "\<And>b. keeps (all_good good) (run b)"
  shows "keeps (all_good good) (exec_statement H SH run st)"
proof -
  have U: "env_unicode (host_env H s) = U" for s using H by (simp add: host_keeps_def)
  have db: "se_db (refresh_snapshot SH st s) = se_db s" for s by (simp add: refresh_snapshot_def)
  show ?thesis
    by (rule keepsI) (use keepsD [OF dispatch_keeps [OF assms]] in \<open>auto simp: exec_statement_def U db\<close>)
qed

lemma run_text_keeps:
  assumes H: "host_keeps (all_good good) U H SH" and P: "tame_parser H"
  shows "keeps (all_good good) (run_text H SH n sql)"
proof (induction n arbitrary: sql)
  case 0
  then show ?case by (simp add: keeps_def)
next
  case (Suc n)
  have "keeps (all_good good) (parse_and_exec H (exec_statement H SH (run_text H SH n)) sql)"
    using P Suc unfolding parse_and_exec_def tame_parser_def
    by (auto simp: list_all_iff intro!: keeps_cases keeps_basic keeps_all exec_statement_keeps [OF H] split: sum.split)
  then show ?case by (simp add: keeps_def)
qed

lemma execute_keeps:
  "host_keeps (all_good good) U H SH \<Longrightarrow> tame_parser H \<Longrightarrow> tame st \<Longrightarrow> keeps (all_good good) (execute H SH st)"
  unfolding execute_def by (intro exec_statement_keeps run_text_keeps)

end

section \<open>The table layer meets the contract\<close>

text \<open>A sound table is well formed (keys, unique values and indexes hold what the rows say), typed (every
  cell fits its column) and has no foreign key with ON DELETE SET NULL.\<close>

definition sound_table :: "unicode \<Rightarrow> table \<Rightarrow> bool" where
  "sound_table U t \<longleftrightarrow>
     wf_table U t \<and> typed_table t \<and> list_all (\<lambda>fk. tame_fk (fk_on_delete fk)) (tbl_foreign_keys t)"

lemma sound_table_cong:
  assumes "tbl_columns t' = tbl_columns t" "tbl_rows t' = tbl_rows t" "tbl_col_index t' = tbl_col_index t"
    "tbl_pk_set t' = tbl_pk_set t" "tbl_pk_row_index t' = tbl_pk_row_index t" "tbl_unique_set t' = tbl_unique_set t"
    "tbl_indices t' = tbl_indices t"
  shows "wf_table U t' = wf_table U t" "typed_table t' = typed_table t"
  using assms by (simp_all add: wf_table_def wf_columns_def key_stores_def typed_table_def)

text \<open>The foreign keys stay through the operations on rows.\<close>

lemma insert_row_fks: "insert_row E r t = pok t' \<Longrightarrow> tbl_foreign_keys t' = tbl_foreign_keys t"
  by (auto simp: insert_row_def pbind_Inr_iff commit_row_def update_indices_insert_def Let_def
      split: if_splits option.splits)

lemma rebuild_index_fks: "rebuild_index U t = Some t' \<Longrightarrow> tbl_foreign_keys t' = tbl_foreign_keys t"
  by (auto simp: rebuild_index_def rebuild_indices_def split: prod.splits)

lemma delete_step_fks: "tbl_foreign_keys (fst (delete_step U P ir st)) = tbl_foreign_keys (fst st)"
  by (auto simp: delete_step_def Let_def remove_from_indices_def split: prod.splits option.splits)

lemma delete_fold_fks: "tbl_foreign_keys (fst (fold (delete_step U P) irs st)) = tbl_foreign_keys (fst st)"
  by (induction irs arbitrary: st) (simp_all add: delete_step_fks)

lemma delete_rows_fks: "delete_rows U P t = Some (t', k) \<Longrightarrow> tbl_foreign_keys t' = tbl_foreign_keys t"
  using delete_fold_fks [of U P "enumerate 0 (tbl_rows t)" "(t\<lparr>tbl_rows := []\<rparr>, 0)"]
  by (auto simp: delete_rows_def split: prod.splits dest: rebuild_index_fks)

lemma create_index_keeps_columns:
  "create_index U n c ty t = Some (Inr t') \<Longrightarrow>
     tbl_columns t' = tbl_columns t \<and> tbl_foreign_keys t' = tbl_foreign_keys t \<and> \<not> has_index n t \<and>
     (\<exists>ci. tbl_col_index t c = Some ci)"
  by (auto simp: create_index_def has_index_def split: option.splits if_splits)

lemma rebuild_index_sound:
  assumes "wf_table U t" "rebuild_index U t = Some t'"
  shows "wf_table U t' \<and> tbl_rows t' = tbl_rows t \<and> tbl_columns t' = tbl_columns t"
proof -
  have "\<exists>t'. rebuild_index U t = Some t' \<and> wf_table U t' \<and> tbl_rows t' = tbl_rows t \<and> tbl_columns t' = tbl_columns t"
    using assms(1) by (intro rebuild_index_wf) (auto simp: wf_table_def index_ok_def)
  with assms(2) show ?thesis by auto
qed

lemma add_column_typed: "add_column n ty t = Inr t' \<Longrightarrow> typed_table t \<Longrightarrow> typed_table t'"
  by (auto simp: add_column_def typed_table_def row_ok_def plain_column_def
      intro!: list_all2_appendI split: if_splits)

interpretation sound: table_contract U "sound_table U" for U
proof (unfold_locales, goal_cases)
  case (1 n cols t fks cks)
  then show ?case
    using new_table_wf [OF 1(1), of U] sound_table_cong [of "t\<lparr>tbl_check_constraints := cks, tbl_foreign_keys := fks\<rparr>" t]
    by (simp add: sound_table_def)
next
  case (2 E t r t')
  then show ?case using insert_row_pok [of E t r t'] insert_row_fks [of E r t t']
    by (auto simp: sound_table_def typed_table_def)
next
  case (3 t P t' k)
  then show ?case using delete_rows_wf [of U t P] delete_rows_fks [of U P t t' k]
    by (auto simp: sound_table_def typed_table_def)
next
  case (4 t n c ty t')
  then show ?case using create_index_wf [of U t c _ n ty] create_index_keeps_columns [of U n c ty t t']
    by (fastforce simp: sound_table_def typed_table_def)
next
  case (5 t n t')
  then show ?case using drop_index_wf [of U t n t']
    by (auto simp: sound_table_def typed_table_def drop_index_def split: option.splits)
next
  case (6 t t')
  then show ?case using rebuild_index_sound [of U t t'] rebuild_index_fks [of U t t']
    by (auto simp: sound_table_def typed_table_def)
next
  case (7 t n dt t')
  then show ?case using add_column_wf [of U t n dt t'] add_column_typed [of n dt t t']
    by (auto simp: sound_table_def add_column_def split: if_splits)
next
  case (8 t x)
  then show ?case using sound_table_cong [of "t\<lparr>tbl_next_auto_inc := x\<rparr>" t] by (simp add: sound_table_def)
next
  case (9 t trs)
  then show ?case using sound_table_cong [of "t\<lparr>tbl_triggers := trs\<rparr>" t] by (simp add: sound_table_def)
next
  case (10 t fk)
  then show ?case by (simp add: sound_table_def list_all_iff)
qed

section \<open>Sessions\<close>

text \<open>The sessions that tame statements reach from an empty database.\<close>

definition new_session :: "'ast session" where
  "new_session = \<lparr>se_db = db_new, se_depth = 0, se_raised = False, se_rowid = None, se_changes = 0,
     se_stdin = None, se_snapshot = None\<rparr>"

inductive reachable :: "('ast, 'o stmt) host \<Rightarrow> ('ast, 'o) statement_host \<Rightarrow> 'ast session \<Rightarrow> bool" for H SH where
  start: "reachable H SH new_session"
| step: "reachable H SH s \<Longrightarrow> tame st \<Longrightarrow> execute H SH st s = Some (r, s') \<Longrightarrow> reachable H SH s'"
| feed: "reachable H SH s \<Longrightarrow> reachable H SH (s\<lparr>se_stdin := d\<rparr>)"

definition sound_db :: "unicode \<Rightarrow> 'ast database \<Rightarrow> bool" where
  "sound_db U db \<longleftrightarrow> all_good (sound_table U) db"

lemma reachable_sound:
  assumes "host_keeps (sound_db U) U H SH" "tame_parser H"
  shows "reachable H SH s \<Longrightarrow> sound_db U (se_db s)"
proof (induction rule: reachable.induct)
  case start
  then show ?case by (simp add: sound_db_def all_good_def new_session_def db_new_def)
next
  case (step s st r s')
  have "keeps (sound_db U) (execute H SH st)"
    using assms sound.execute_keeps [of U H SH st] step by (simp add: sound_db_def [abs_def])
  then show ?case using step keepsD by blast
next
  case (feed s d)
  then show ?case by simp
qed

end
