(* ===== verification/ExecProps.thy ===== *)
theory ExecProps
  imports ExecInvariant TableProps
begin

text \<open>
  The properties of the statements: what every session keeps, that the recursion through triggers ends,
  what INSERT and DELETE do row by row, and where CREATE and triggers surprise.
\<close>

section \<open>A concrete surrounding\<close>

text \<open>No queries, no parser: enough to run single statements.\<close>

definition quiet_host :: "(unit, unit stmt) host" where
  "quiet_host = \<lparr>host_env = (\<lambda>_. no_env), host_select = (\<lambda>_. xerr (ExecError ''no query'')),
     host_parse = (\<lambda>_. Inl (ParseError ''no parser'')), host_json_rows = (\<lambda>_. Inl ''no json''),
     host_json = \<lparr>jp_display = (\<lambda>_. []), jp_debug = (\<lambda>_. [])\<rparr>, host_json_strings = (\<lambda>_. []), host_json_floats = (\<lambda>_. [])\<rparr>"

definition quiet_rest :: "(unit, unit) statement_host" where
  "quiet_rest = \<lparr>sh_query = (\<lambda>_. xerr (ExecError ''no query'')), sh_other = (\<lambda>_. xerr (ExecError ''no'')),
     sh_has_subquery = (\<lambda>_. False), sh_types = \<lparr>ty_display = (\<lambda>_. []), ty_debug = (\<lambda>_. [])\<rparr>,
     sh_index = (\<lambda>_. []), sh_config_keys = (\<lambda>_. []), sh_debug = id\<rparr>"

lemma quiet_keeps: "host_keeps J no_unicode quiet_host quiet_rest" "tame_parser quiet_host"
  "host_keeps_depth quiet_host quiet_rest"
  by (simp_all add: host_keeps_def quiet_host_def quiet_rest_def keeps_basic tame_parser_def host_keeps_depth_def
      keeps_xerr)

text \<open>\<open>CREATE TABLE t (id INT PRIMARY KEY)\<close> as the first statement of a session.\<close>

definition id_column :: column_def where
  "id_column = \<lparr>cd_name = ''id'', cd_type = SyInt, cd_options = [OptPrimaryKey]\<rparr>"

definition create_t :: create_table_stmt where
  "create_t = \<lparr>ct_name = [NameIdent ''t''], ct_if_not_exists = False, ct_columns = [id_column], ct_constraints = [],
     ct_query = None\<rparr>"

definition id_only :: "column list" where
  "id_only = [(plain_column ''id'' TInt)\<lparr>col_primary_key := True, col_auto_increment := True\<rparr>]"

lemma no_case: "to_lowercase no_unicode s = to_ascii_lowercase s" if "is_ascii s"
  using that by (simp add: to_lowercase_def)

lemma create_t_table: "\<exists>t. build_table no_unicode P create_t = Inr t \<and> tbl_columns t = id_only \<and> tbl_rows t = []"
  by (simp add: build_table_def create_t_def id_column_def bind_res_def id_only_def plain_column_def Let_def
      new_table_def xlift_def to_lowercase_def is_ascii_def to_ascii_lowercase_def ascii_lower_def)

section \<open>The stored tables stay sound\<close>



section \<open>Triggers end\<close>

text \<open>C8.  The recursion of statements through trigger bodies ends: at the depth limit a statement does not
  run any body, whatever the bodies would do; so executing with any fuel of at least the limit gives the
  same result, and \<open>execute\<close> satisfies the code's equation, in which bodies are parsed and executed by
  \<open>execute\<close> itself.  The depth counter is as before when a statement returns.\<close>

theorem trigger_recursion_ends:
  assumes "host_keeps_depth H SH"
  shows "exec_statement H SH run st (s\<lparr>se_depth := max_trigger_depth + k\<rparr>) =
      exec_statement H SH run' st (s\<lparr>se_depth := max_trigger_depth + k\<rparr>) \<and>
    exec_statement H SH (run_text H SH (max_trigger_depth + n)) st s = execute H SH st s \<and>
    execute H SH st s = exec_statement H SH (parse_and_exec H (execute H SH)) st s \<and>
    (case execute H SH st s of None \<Rightarrow> True | Some (r, s') \<Rightarrow> se_depth s' = se_depth s)"
proof (intro conjI)
  have "same_at (max_trigger_depth + k) (exec_statement H SH run st) (exec_statement H SH run' st)"
    by (rule exec_statement_same [OF assms]) (simp add: agree_below_def)
  then show "exec_statement H SH run st (s\<lparr>se_depth := max_trigger_depth + k\<rparr>) =
      exec_statement H SH run' st (s\<lparr>se_depth := max_trigger_depth + k\<rparr>)"
    by (simp add: same_at_def)
  show "exec_statement H SH (run_text H SH (max_trigger_depth + n)) st s = execute H SH st s"
    by (rule execute_fuel [OF assms]) simp
  show "execute H SH st s = exec_statement H SH (parse_and_exec H (execute H SH)) st s"
    by (rule execute_recursion [OF assms])
  show "case execute H SH st s of None \<Rightarrow> True | Some (r, s') \<Rightarrow> se_depth s' = se_depth s"
    using keeps_depthD [OF keeps_exec_statement [OF assms]] by (auto simp: execute_def split: option.split)
qed

theorem trigger_recursion_ends_witness:
  "exec_statement quiet_host quiet_rest (run_text quiet_host quiet_rest (max_trigger_depth + 5)) StShowTables new_session =
     execute quiet_host quiet_rest StShowTables new_session"
  using trigger_recursion_ends [OF quiet_keeps(3), where n = 5] by blast

text \<open>Substituting the row into a trigger body rewrites text, not names: with columns \<open>id\<close> and
  \<open>id2\<close>, \<open>NEW.id2\<close> becomes the value of \<open>id\<close> followed by a 2, and a string value that
  contains \<open>old.\<close> loses it.\<close>

theorem trigger_body_rewrites_text:
  "trigger_body quiet_host [plain_column ''id'' TInt, plain_column ''id2'' TInt] [DInt 7, DInt 9] []
     ''INSERT INTO log VALUES (NEW.id2)'' = ''INSERT INTO log VALUES (72)'' \<and>
   trigger_body quiet_host [plain_column ''path'' TString] [DString ''a/old.txt''] []
     ''INSERT INTO log VALUES (NEW.path)'' = ''INSERT INTO log VALUES ('' @ [CHR 39] @ ''a/txt'' @ [CHR 39] @ '')''"
  by code_simp

end
