(* ===== verification/DmlProps.thy ===== *)
theory DmlProps
  imports ExecProps
begin

text \<open>
  What INSERT and DELETE do to the rows, statement by statement.
\<close>

section \<open>Statements on a table without triggers\<close>

lemma no_before_triggers:
  assumes "get_table tn (se_db s) = Inr t" "tbl_triggers t = []"
  shows "before_triggers H run tn ev s = Some (Inr (), s)"
  using assms by (simp add: before_triggers_def fire_triggers_before_def matching_triggers_def xlift_def Let_def)

lemma no_after_triggers:
  assumes "get_table tn (se_db s) = Inr t" "tbl_triggers t = []"
  shows "after_triggers H run tn ev new old s = Some (Inr (), s)"
  using assms by (simp add: after_triggers_def fire_triggers_def matching_triggers_def Let_def)

lemma get_put [simp]: "get_table n (se_db (put_table n t s)) = Inr t"
  by (simp add: put_table_def add_table_def get_table_def)

lemma table_or_missing_get: "get_table n db = Inr t \<Longrightarrow> table_or_missing n db = Inr t"
  by (simp add: table_or_missing_def)

lemma get_record [simp]:
  "get_table n (se_db (record_insert tn k rs s)) = get_table n (se_db s)"
  "get_table n (se_db (record_changes k s)) = get_table n (se_db s)"
  by (simp_all add: record_insert_def record_changes_def Let_def get_table_def)

section \<open>INSERT\<close>

text \<open>INSERT of value lists with no conflict clause and no RETURNING.\<close>

definition plain_insert :: "insert_stmt \<Rightarrow> sql_expr list list \<Rightarrow> bool" where
  "plain_insert ins ess \<longleftrightarrow>
     ins_source ins = Some (SourceValues ess) \<and> ins_or ins = None \<and> \<not> ins_replace_into ins \<and> \<not> ins_ignore ins \<and>
     ins_on ins = None \<and> ins_returning ins = None"

lemma insert_row_triggers: "insert_row E r t = pok t' \<Longrightarrow> tbl_triggers t' = tbl_triggers t"
  by (auto simp: insert_row_def pbind_Inr_iff commit_row_def update_indices_insert_def Let_def
      split: if_splits option.splits)

lemma fill_auto_same:
  "fill_auto is r t = (r', t') \<Longrightarrow> \<exists>x. t' = t\<lparr>tbl_next_auto_inc := x\<rparr>"
proof (induction "is" r t rule: fill_auto.induct)
  case (1 r t)
  then have "t' = t\<lparr>tbl_next_auto_inc := tbl_next_auto_inc t\<rparr>" by simp
  then show ?case by blast
qed (fastforce split: if_splits)

text \<open>The table as a plain insert leaves it: rows appended, the rest of the schema as it was.\<close>

definition appended :: "unicode \<Rightarrow> table \<Rightarrow> row list \<Rightarrow> table \<Rightarrow> bool" where
  "appended U t new t' \<longleftrightarrow> wf_table U t' \<and> tbl_rows t' = tbl_rows t @ new \<and> tbl_columns t' = tbl_columns t \<and>
     tbl_triggers t' = tbl_triggers t"

lemma insert_one_appends:
  assumes ins: "plain_insert ins ess" and wf: "wf_table (env_unicode E) t"
    and one: "insert_one E ins lk ex autos es t = Some (out, t')"
  shows "\<exists>new. appended (env_unicode E) t new t' \<and>
    (case out of RowDone n rs \<Rightarrow> n = 1 \<and> length new = 1 | RowFailed e rb \<Rightarrow> \<not> rb \<and> new = [])"
proof -
  have keep: "appended (env_unicode E) t [] (t\<lparr>tbl_next_auto_inc := x\<rparr>)" for x
    using wf sound_table_cong [of "t\<lparr>tbl_next_auto_inc := x\<rparr>" t] by (simp add: appended_def)
  have add: "\<exists>r'. appended (env_unicode E) t [r'] t2" if "insert_row E r (t\<lparr>tbl_next_auto_inc := x\<rparr>) = pok t2" for r x t2
    using insert_row_pok [OF _ that] insert_row_triggers [OF that] keep [of x] by (auto simp: appended_def)
  have full: ?thesis if f: "insert_full_row E ins lk r (t\<lparr>tbl_next_auto_inc := x\<rparr>) = Some (out, t')" for r x
    using f ins keep [of x] add [of r x]
    by (fastforce simp: insert_full_row_def on_duplicate_def plain_insert_def
        split: option.splits sum.splits engine_error.splits)
  have none: "appended (env_unicode E) t [] t" using wf by (simp add: appended_def)
  show ?thesis
    using one none full
    by (auto simp: insert_one_def Let_def split: if_splits option.splits sum.splits prod.splits dest!: fill_auto_same)
qed

lemma insert_loop_appends:
  assumes ins: "plain_insert ins ess'"
  shows "insert_loop E ins lk ex autos ess n rs t = Some (out, t') \<Longrightarrow> wf_table (env_unicode E) t \<Longrightarrow>
    \<exists>new. appended (env_unicode E) t new t' \<and>
      (case out of RowDone k rs' \<Rightarrow> k = n + length ess \<and> length new = length ess
       | RowFailed e rb \<Rightarrow> \<not> rb \<and> length new < length ess)"
proof (induction ess arbitrary: n rs t)
  case Nil
  then show ?case by (auto simp: appended_def)
next
  case (Cons es ess)
  obtain o1 t1 where one: "insert_one E ins lk ex autos es t = Some (o1, t1)"
    using Cons.prems(1) by (auto split: option.splits)
  obtain new1 where n1: "appended (env_unicode E) t new1 t1"
    "case o1 of RowDone n rs \<Rightarrow> n = 1 \<and> length new1 = 1 | RowFailed e rb \<Rightarrow> \<not> rb \<and> new1 = []"
    using insert_one_appends [OF ins Cons.prems(2) one] by blast
  show ?case
  proof (cases o1)
    case (RowDone k rs1)
    have "insert_loop E ins lk ex autos ess (n + k) (rs @ rs1) t1 = Some (out, t')"
      using Cons.prems(1) one RowDone by simp
    from Cons.IH [OF this] n1 RowDone obtain new2 where n2: "appended (env_unicode E) t1 new2 t'"
      "case out of RowDone k' rs' \<Rightarrow> k' = n + Suc 0 + length ess \<and> length new2 = length ess
       | RowFailed e rb \<Rightarrow> \<not> rb \<and> length new2 < length ess"
      by (auto simp: appended_def)
    have "appended (env_unicode E) t (new1 @ new2) t'" using n1 n2 by (simp add: appended_def)
    moreover have "case out of RowDone k' rs' \<Rightarrow> k' = n + length (es # ess) \<and> length (new1 @ new2) = length (es # ess)
       | RowFailed e rb \<Rightarrow> \<not> rb \<and> length (new1 @ new2) < length (es # ess)"
      using n1 n2 RowDone by (auto split: row_outcome.splits)
    ultimately show ?thesis by blast
  next
    case (RowFailed e b)
    with Cons.prems(1) one n1 show ?thesis by (intro exI [of _ new1]) auto
  qed
qed

lemma xbind_step:
  "m s = Some (Inr x, s1) \<Longrightarrow> xbind m f s = f x s1" "m s = Some (Inl e, s1) \<Longrightarrow> xbind m f s = Some (Inl e, s1)"
  "m s = None \<Longrightarrow> xbind m f s = None"
  by (simp_all add: xbind_def)

lemma exec_insert_plain:
  assumes ins: "plain_insert ins ess" and t: "get_table tn (se_db s) = Inr t" "tbl_triggers t = []"
    and tn: "tn = to_lowercase U (ins_table ins)" and U: "\<And>x. env_unicode (host_env H x) = U"
    and run: "exec_insert H run ins s = Some (r, s')"
  shows "\<exists>lk. xbind (run_insert_loop H ins tn lk ess) (\<lambda>(n, rs).
      xbind (\<lambda>s. xret () (record_insert tn n rs s)) (\<lambda>_.
      xbind (after_triggers H run tn ''INSERT'' (if rs = [] then [] else last rs) []) (\<lambda>_.
        xret (count_msg ''Inserted'' n)))) s = Some (r, s')"
proof -
  have rows: "insert_rows_of H ins = xret ess" and ret: "ins_returning ins = None"
    using ins by (simp_all add: insert_rows_of_def plain_insert_def)
  show ?thesis
  proof (cases "fk_lookups U (se_db s) (tbl_foreign_keys t)")
    case None
    then show ?thesis using run t
      by (simp add: exec_insert_def Let_def U rows tn [symmetric] xbind_step(3) xread_def table_or_missing_get)
  next
    case (Some lk)
    have look: "xbind (xread (\<lambda>s. case table_or_missing tn (se_db s) of Inl e \<Rightarrow> perr e
        | Inr t \<Rightarrow> map_option Inr (fk_lookups U (se_db s) (tbl_foreign_keys t)))) f s = f lk s"
      for f :: "(rstr \<times> rstr list) list \<Rightarrow> ('a, rstr) exec"
      using t Some by (simp add: xread_def table_or_missing_get xbind_def)
    have fire: "xbind (before_triggers H run tn ''INSERT'') f s = f () s" for f :: "unit \<Rightarrow> ('a, rstr) exec"
      by (simp add: xbind_def no_before_triggers [OF t])
    note steps = look fire
    from run show ?thesis
      by (intro exI [of _ lk]) (simp add: exec_insert_def Let_def U rows tn [symmetric] steps ret)
  qed
qed


text \<open>Two lists with the same unique value: the second fails, the first stays.\<close>

definition lists_of :: "rstr list \<Rightarrow> sql_expr list list" where
  "lists_of ns = map (\<lambda>n. [Value (SqlNumber n), Value (SqlSingleQuoted ''a'')]) ns"

definition insert_t :: "rstr list \<Rightarrow> insert_stmt" where
  "insert_t ns = \<lparr>ins_table = ''t'', ins_columns = [], ins_source = Some (SourceValues (lists_of ns)), ins_or = None,
     ins_replace_into = False, ins_ignore = False, ins_on = None, ins_returning = None\<rparr>"

definition demo_session :: "unit session" where
  "demo_session = put_table ''t'' demo_table new_session"

lemma new_table_rest:
  "new_table n cols = Inr t \<Longrightarrow> tbl_check_constraints t = [] \<and> tbl_foreign_keys t = [] \<and> tbl_triggers t = []"
  by (simp add: new_table_iff)

lemmas demo_rest = new_table_rest [OF demo_new]

lemma demo_lists:
  "place_values no_env (zip [0..<2] [Value (SqlNumber ''1''), Value (SqlSingleQuoted ''a'')]) [DNull, DNull] = pok (demo_row 1 ''a'')"
  "place_values no_env (zip [0..<2] [Value (SqlNumber ''2''), Value (SqlSingleQuoted ''a'')]) [DNull, DNull] = pok (demo_row 2 ''a'')"
  by code_simp+

lemma insert_row_checks: "insert_row E r t = pok t' \<Longrightarrow> tbl_check_constraints t' = tbl_check_constraints t"
  by (auto simp: insert_row_def pbind_Inr_iff commit_row_def update_indices_insert_def Let_def
      split: if_splits option.splits)

lemma demo_second:
  assumes "wf_table no_unicode t" "tbl_rows t = [demo_row 1 ''a'']" "tbl_columns t = demo_columns"
  shows "\<exists>k. insert_row no_env (demo_row 2 ''a'') t = perr (DuplicateKey k)"
proof (rule insert_row_cases(2) [OF assms(1)])
  show "\<not> fits (tbl_columns t) (tbl_rows t) (demo_row 2 ''a'')"
    using demo_clash [of "demo_row 1 ''a''" "demo_row 2 ''a''"]
      fits_iff [of "tbl_rows t" demo_columns "demo_row 2 ''a''"] assms
    by (simp add: demo_row_def demo_columns_def)
  show "fill_row no_env (tbl_columns t) (demo_row 2 ''a'') = pok (demo_row 2 ''a'')" by (simp add: assms demo_fill)
qed (simp_all add: assms demo_row_def demo_columns_def null_pk_column_def plain_column_def)

lemma insert_one_unchecked:
  assumes "place_values E (zip [0..<col_count t] es) (replicate (col_count t) DNull) = pok r"
    "length es = col_count t" "tbl_check_constraints t = []" "plain_insert ins ess"
  shows "insert_row E r t = pok t' \<Longrightarrow> insert_one E ins [] None [] es t = Some (RowDone 1 [r], t')"
    "insert_row E r t = perr (DuplicateKey k) \<Longrightarrow>
       insert_one E ins [] None [] es t = Some (RowFailed (ExecError (error_message (DuplicateKey k))) False, t)"
  using assms by (simp_all add: insert_one_def insert_full_row_def on_duplicate_def plain_insert_def)

lemma plain_insert_t: "plain_insert (insert_t ns) (lists_of ns)"
  by (simp add: plain_insert_def insert_t_def)

lemma demo_loop:
  "\<exists>e t. insert_loop no_env (insert_t [''1'', ''2'']) [] None [] (lists_of [''1'', ''2'']) 0 [] demo_table =
     Some (RowFailed e False, t)"
proof -
  obtain t where t: "insert_row no_env (demo_row 1 ''a'') demo_table = pok t" "wf_table no_unicode t"
     "tbl_rows t = [demo_row 1 ''a'']" "tbl_columns t = demo_columns" using demo_insert by blast
  obtain k where k: "insert_row no_env (demo_row 2 ''a'') t = perr (DuplicateKey k)" using demo_second [OF t(2-4)] by blast
  have two: "col_count demo_table = 2" "col_count t = 2"
    using t by (simp_all add: col_count_def demo_cols) (simp_all add: demo_columns_def)
  have n: "replicate 2 DNull = [DNull, DNull]" by (simp add: numeral_2_eq_2)
  show ?thesis
    using insert_one_unchecked(1) [OF _ _ _ plain_insert_t t(1), of "[Value (SqlNumber ''1''), Value (SqlSingleQuoted ''a'')]"]
      insert_one_unchecked(2) [OF _ _ _ plain_insert_t k, of "[Value (SqlNumber ''2''), Value (SqlSingleQuoted ''a'')]"]
      demo_lists demo_rest insert_row_checks [OF t(1)]
    by (simp add: two n lists_of_def del: place_values.simps)
qed

lemma demo_run:
  "\<exists>e s'. exec_insert quiet_host run (insert_t [''1'', ''2'']) demo_session = Some (Inl e, s')"
proof -
  obtain e t where loop: "insert_loop no_env (insert_t [''1'', ''2'']) [] None [] (lists_of [''1'', ''2'']) 0 [] demo_table =
     Some (RowFailed e False, t)" using demo_loop by blast
  have get: "get_table ''t'' (se_db demo_session) = Inr demo_table" by (simp add: demo_session_def)
  have low: "to_lowercase no_unicode ''t'' = ''t''"
    by (simp add: to_lowercase_def is_ascii_def to_ascii_lowercase_def ascii_lower_def)
  have auto: "auto_columns demo_table = []"
    by (simp add: auto_columns_def demo_cols) (simp add: demo_columns_def plain_column_def)
  have env: "host_env quiet_host = (\<lambda>_. no_env)" by (simp add: quiet_host_def)
  have ins: "ins_columns (insert_t ns) = []" "ins_table (insert_t ns) = ''t''"
    "insert_rows_of quiet_host (insert_t ns) = xret (lists_of ns)" for ns
    by (simp_all add: insert_t_def insert_rows_of_def)
  have "run_insert_loop quiet_host (insert_t [''1'', ''2'']) ''t'' [] (lists_of [''1'', ''2'']) demo_session =
      Some (Inl e, put_table ''t'' t demo_session)"
    using loop by (simp add: run_insert_loop_def Let_def env table_or_missing_get [OF get] auto explicit_columns_def ins)
  then show ?thesis
    by (simp add: no_before_triggers [OF get] demo_rest exec_insert_def Let_def xbind_def [of "xread _"] xbind_def [of "before_triggers _ _ _ _"]
        xbind_step(2) env ins low xread_def table_or_missing_get [OF get])
qed


section \<open>DELETE\<close>

lemma delete_step_triggers: "tbl_triggers (fst (delete_step U P ir st)) = tbl_triggers (fst st)"
  by (auto simp: delete_step_def Let_def remove_from_indices_def split: prod.splits option.splits)

lemma delete_fold_triggers: "tbl_triggers (fst (fold (delete_step U P) irs st)) = tbl_triggers (fst st)"
  by (induction irs arbitrary: st) (simp_all add: delete_step_triggers)

lemma delete_rows_triggers: "delete_rows U P t = Some (t', k) \<Longrightarrow> tbl_triggers t' = tbl_triggers t"
  using delete_fold_triggers [of U P "enumerate 0 (tbl_rows t)" "(t\<lparr>tbl_rows := []\<rparr>, 0)"]
  by (auto simp: delete_rows_def rebuild_index_def rebuild_indices_def split: prod.splits)

text \<open>Every foreign key that points at the table forbids the deletion of a referenced row.\<close>

definition guarded :: "unicode \<Rightarrow> rstr \<Rightarrow> 'ast database \<Rightarrow> bool" where
  "guarded U tn db \<longleftrightarrow>
     (\<forall>(cn, ci) \<in> set (fk_refs tn db). \<exists>c. get_table cn db = Inr c \<and> column_texts U ci (tbl_rows c) \<noteq> None \<and>
        Option.bind (fk_between tn ci c) fk_on_delete \<notin> {Some Cascade, Some SetNull})"

definition refers :: "unicode \<Rightarrow> rstr \<Rightarrow> rstr list \<Rightarrow> 'ast database \<Rightarrow> bool" where
  "refers U tn keys db \<longleftrightarrow>
     (\<exists>(cn, ci) \<in> set (fk_refs tn db). \<exists>c. get_table cn db = Inr c \<and>
        (\<exists>r \<in> set (tbl_rows c). ref_text U (r ! ci) \<in> set keys))"

lemma column_texts_Some: "column_texts U ci rows = Some ts \<Longrightarrow> set ts = (\<lambda>r. ref_text U (r ! ci)) ` set rows"
  by (auto simp: column_texts_def split: if_splits)

lemma handle_reference_guard:
  assumes c: "get_table cn (se_db s) = Inr c" "column_texts U ci (tbl_rows c) \<noteq> None"
    "Option.bind (fk_between tn ci c) fk_on_delete \<notin> {Some Cascade, Some SetNull}"
  shows "if \<exists>r \<in> set (tbl_rows c). ref_text U (r ! ci) \<in> set keys
    then \<exists>e. handle_reference U tn keys (cn, ci) s = Some (Inl e, s)
    else handle_reference U tn keys (cn, ci) s = Some (Inr (), s)"
proof -
  obtain ts where ts: "column_texts U ci (tbl_rows c) = Some ts" using c(2) by blast
  have h: "handle_reference U tn keys (cn, ci) s =
      (case List.find (\<lambda>k. k \<in> set ts) keys of Some k \<Rightarrow> Some (Inl (fk_violation cn k), s) | None \<Rightarrow> Some (Inr (), s))"
    using c ts by (auto simp: handle_reference_def split: option.splits referential_action.splits)
  have "List.find (\<lambda>k. k \<in> set ts) keys = None \<longleftrightarrow> \<not> (\<exists>r \<in> set (tbl_rows c). ref_text U (r ! ci) \<in> set keys)"
    unfolding find_None_iff column_texts_Some [OF ts] by auto
  with h show ?thesis by (cases "List.find (\<lambda>k. k \<in> set ts) keys") auto
qed

lemma handle_references_guard:
  assumes "\<forall>(cn, ci) \<in> set refs. \<exists>c. get_table cn (se_db s) = Inr c \<and> column_texts U ci (tbl_rows c) \<noteq> None \<and>
        Option.bind (fk_between tn ci c) fk_on_delete \<notin> {Some Cascade, Some SetNull}"
  shows "if \<exists>(cn, ci) \<in> set refs. \<exists>c. get_table cn (se_db s) = Inr c \<and>
          (\<exists>r \<in> set (tbl_rows c). ref_text U (r ! ci) \<in> set keys)
    then \<exists>e. handle_references U tn keys refs s = Some (Inl e, s)
    else handle_references U tn keys refs s = Some (Inr (), s)"
  using assms
proof (induction refs)
  case (Cons ref refs)
  obtain cn ci where ref: "ref = (cn, ci)" by (cases ref)
  with Cons.prems obtain c where c: "get_table cn (se_db s) = Inr c" "column_texts U ci (tbl_rows c) \<noteq> None"
    "Option.bind (fk_between tn ci c) fk_on_delete \<notin> {Some Cascade, Some SetNull}" by auto
  note one = handle_reference_guard [OF c, of keys]
  show ?case
  proof (cases "\<exists>r \<in> set (tbl_rows c). ref_text U (r ! ci) \<in> set keys")
    case True
    with one c ref show ?thesis by (auto simp: xbind_step(2))
  next
    case False
    with one have "handle_references U tn keys (ref # refs) s = handle_references U tn keys refs s"
      by (simp add: ref xbind_step(1))
    with Cons c ref False show ?thesis by simp
  qed
qed (simp add: xret_def)

lemma exec_delete_checked:
  assumes tn: "delete_table_name U del = Inr tn" and U: "\<And>x. env_unicode (host_env H x) = U"
    and t: "get_table tn (se_db s) = Inr t"
    and keys: "doomed_keys (host_env H s) (tbl_col_index t) (del_selection del) t = Some keys"
    and ret: "del_returning del = None"
  shows "exec_delete H run del s =
     xbind (handle_references U tn keys (fk_refs tn (se_db s))) (\<lambda>_.
     xbind (before_triggers H run tn ''DELETE'') (\<lambda>_.
     xbind (run_delete H tn (tbl_col_index t) (del_selection del)) (\<lambda>n.
     xbind (after_triggers H run tn ''DELETE'' [] []) (\<lambda>_. xret (count_msg ''Deleted'' n))))) s"
  by (simp add: exec_delete_def Let_def U tn ret xbind_def xread_def table_or_missing_get [OF t] keys
      split: option.split sum.split)


text \<open>A table whose column refers to \<open>t (id)\<close>, with one row that refers to key 1.\<close>

definition child_table :: table where
  "child_table = \<lparr>tbl_name = ''c'', tbl_columns = [plain_column ''ref'' TInt], tbl_rows = [[DInt 1]],
     tbl_col_index = [''ref'' \<mapsto> 0], tbl_pk_set = {}, tbl_pk_row_index = Map.empty, tbl_unique_set = {},
     tbl_indices = [], tbl_next_auto_inc = 1, tbl_check_constraints = [],
     tbl_foreign_keys = [\<lparr>fk_local_column = ''ref'', fk_foreign_table = ''t'', fk_foreign_column = ''id'',
       fk_on_delete = None, fk_on_update = None\<rparr>], tbl_triggers = []\<rparr>"

definition delete_all :: delete_stmt where
  "delete_all = \<lparr>del_from = Some (FactorTable [NameIdent ''t'']), del_selection = None, del_returning = None\<rparr>"

definition family :: "table \<Rightarrow> unit session" where
  "family t = put_table ''c'' child_table (put_table ''t'' t new_session)"

lemma family_get: "get_table ''t'' (se_db (family t)) = Inr t" "get_table ''c'' (se_db (family t)) = Inr child_table"
  by (simp_all add: family_def put_table_def add_table_def get_table_def)

lemma family_refs: "tbl_foreign_keys t = [] \<Longrightarrow> set (fk_refs ''t'' (se_db (family t))) = {(''c'', 0)}"
proof -
  assume t: "tbl_foreign_keys t = []"
  have "dom (db_tables (se_db (family t))) = {''t'', ''c''}"
    by (auto simp: family_def put_table_def add_table_def new_session_def db_new_def)
  then have "set (table_names (se_db (family t))) = {''t'', ''c''}" by (auto simp: table_names_def)
  then show ?thesis
    by (simp add: fk_refs_def family_get) (simp add: fk_refs_of_def child_table_def map_filter_def)
qed


section \<open>Names that are not looked up\<close>

lemma sequence_table:
  "\<exists>t t'. new_table n [sequence_column] = Inr t \<and> insert_row E [DInt 0] t = pok t' \<and> tbl_rows t' = [[DInt 0]]"
proof -
  obtain t where t: "new_table n [sequence_column] = Inr t" by (simp add: new_table_def bind_res_def)
  have wf: "wf_table (env_unicode E) t" "tbl_rows t = []" "tbl_columns t = [sequence_column]"
    using new_table_wf [OF t] new_table_fields [OF t] by simp_all
  have "fill_row E [sequence_column] [DInt 0] = pok [DInt 0]"
    by (simp add: sequence_column_def plain_column_def fill_cell_def coerced_def)
  then have "\<exists>t'. insert_row E [DInt 0] t = pok t' \<and> wf_table (env_unicode E) t' \<and> tbl_rows t' = tbl_rows t @ [[DInt 0]] \<and>
      tbl_columns t' = tbl_columns t"
    using wf by (intro insert_row_cases(3) [OF wf(1)])
      (simp_all add: null_pk_column_def sequence_column_def plain_column_def fits_def)
  with t wf show ?thesis by auto
qed

text \<open>\<open>CREATE SEQUENCE IF NOT EXISTS n\<close> looks for a table \<open>n\<close>, but the sequence is stored as
  \<open>__seq_n\<close>: unless an unrelated table \<open>n\<close> exists, the statement always succeeds and leaves the
  sequence at 0, whatever value an existing sequence had.\<close>

theorem sequence_if_not_exists_resets:
  "(let n = object_name_str (env_unicode (host_env H s)) nm
    in if has_table n (se_db s) then exec_create_sequence H nm True s = Some (Inr (say ''Sequence '' n '' exists''), s)
       else \<exists>s' t. exec_create_sequence H nm True s = Some (Inr (say ''Sequence '' n '' created''), s') \<and>
              get_table (''__seq_'' @ n) (se_db s') = Inr t \<and> tbl_rows t = [[DInt 0]])"
proof -
  let ?n = "object_name_str (env_unicode (host_env H s)) nm"
  obtain t t' where "new_table (''__seq_'' @ ?n) [sequence_column] = Inr t"
    "insert_row (host_env H s) [DInt 0] t = pok t'" "tbl_rows t' = [[DInt 0]]"
    using sequence_table [of "''__seq_'' @ ?n" "host_env H s"] by blast
  then show ?thesis by (auto simp: exec_create_sequence_def Let_def)
qed

end
