(* ===== verification/Lookup.thy ===== *)
theory Lookup
  imports TableInv
begin

text \<open>
  \<open>builtin.rs\<close>, index-assisted lookup: which WHERE clauses the primary-key map, a BTREE index or a
  TRIGRAM index can answer, and with which candidate rows.  The SELECT executor re-checks the
  candidates against the whole predicate (\<open>where_rows\<close>), so a path is right when it never loses a row
  of the full scan.

  The outer option is a panic (\<open>None\<close>), the inner one the fall back to the scan.
\<close>

type_synonym 'a lookup = "'a option panicking"

abbreviation fall_back :: "'a lookup" where "fall_back \<equiv> Some None"
abbreviation found :: "'a \<Rightarrow> 'a lookup" where "found x \<equiv> Some (Some x)"

text \<open>\<open>table.rows[i]\<close> for each candidate.\<close>

definition rows_at :: "table \<Rightarrow> nat list \<Rightarrow> row list panicking" where
  "rows_at t is = map_option_list (\<lambda>i. if i < length (tbl_rows t) then Some (tbl_rows t ! i) else None) is"

definition found_rows :: "table \<Rightarrow> nat list \<Rightarrow> row list lookup" where
  "found_rows t is = map_option Some (rows_at t is)"

section \<open>The primary-key map\<close>

text \<open>\<open>extract_equality_conjuncts\<close> with its inner functions \<open>literal\<close> and \<open>flatten\<close>.\<close>

fun literal_of :: "sql_expr \<Rightarrow> db_value option" where
  "literal_of (Nested e) = literal_of e"
| "literal_of (Value v) = Some (sql_val_to_db v)"
| "literal_of (TypedString _ v) = Some (sql_val_to_db v)"
| "literal_of _ = None"

definition pinned :: "unicode \<Rightarrow> rstr \<Rightarrow> sql_expr \<Rightarrow> (rstr \<times> db_value) list" where
  "pinned U i e = (case literal_of e of Some v \<Rightarrow> [(to_lowercase U i, v)] | None \<Rightarrow> [])"

definition eq_conjunct :: "unicode \<Rightarrow> sql_expr \<Rightarrow> sql_expr \<Rightarrow> (rstr \<times> db_value) list" where
  "eq_conjunct U l r =
     (case ident_of l of
        Some i \<Rightarrow> pinned U i r
      | None \<Rightarrow> (case ident_of r of Some i \<Rightarrow> pinned U i l | None \<Rightarrow> []))"

fun extract_equality_conjuncts :: "unicode \<Rightarrow> sql_expr \<Rightarrow> (rstr \<times> db_value) list" where
  "extract_equality_conjuncts U (Nested e) = extract_equality_conjuncts U e"
| "extract_equality_conjuncts U (BinaryOp l opr r) =
     (if opr = OpAnd then extract_equality_conjuncts U l @ extract_equality_conjuncts U r
      else if opr = OpEq then eq_conjunct U l r
      else [])"
| "extract_equality_conjuncts U _ = []"

text \<open>The loop that builds the row holding only the pinned key cells.\<close>

fun pin_key :: "table \<Rightarrow> (rstr \<times> db_value) list \<Rightarrow> nat set \<Rightarrow> row \<Rightarrow> row lookup" where
  "pin_key t [] seen key_row = found key_row"
| "pin_key t ((c, v) # cs) seen key_row =
     (case tbl_col_index t c of
        None \<Rightarrow> fall_back
      | Some ci \<Rightarrow>
          (if length (tbl_columns t) \<le> ci then None
           else let col = tbl_columns t ! ci
                in if \<not> col_primary_key col \<or> ci \<in> seen then fall_back
                   else if has_type (col_dtype col) v
                   then pin_key t cs (insert ci seen) (key_row[ci := v])
                   else if snd (coerce_value v (col_dtype col))
                   then pin_key t cs (insert ci seen) (key_row[ci := coerced (col_dtype col) v])
                   else fall_back))"

definition try_pk_index :: "unicode \<Rightarrow> sql_expr option \<Rightarrow> table \<Rightarrow> row list lookup" where
  "try_pk_index U w t =
     (case w of
        None \<Rightarrow> fall_back
      | Some e \<Rightarrow>
          (let conjuncts = extract_equality_conjuncts U e; pks = pk_indices (tbl_columns t)
           in if pks = [] \<or> length conjuncts \<noteq> length pks then fall_back
              else case pin_key t conjuncts {} (replicate (length (tbl_columns t)) DNull) of
                     None \<Rightarrow> None
                   | Some None \<Rightarrow> fall_back
                   | Some (Some key_row) \<Rightarrow>
                       (case pk_key t key_row of
                          None \<Rightarrow> fall_back
                        | Some k \<Rightarrow>
                            (case tbl_pk_row_index t k of
                               Some i \<Rightarrow> found_rows t [i]
                             | None \<Rightarrow> found []))))"

section \<open>Ranges\<close>

fun flip_cmp :: "bin_op \<Rightarrow> bin_op option" where
  "flip_cmp OpGt = Some OpLt"
| "flip_cmp OpGtEq = Some OpLtEq"
| "flip_cmp OpLt = Some OpGt"
| "flip_cmp OpLtEq = Some OpGtEq"
| "flip_cmp _ = None"

fun bound_literal :: "sql_expr \<Rightarrow> db_value option" where
  "bound_literal (Nested e) = bound_literal e"
| "bound_literal (Value v) = Some (sql_val_to_db v)"
| "bound_literal _ = None"

fun column_ident :: "unicode \<Rightarrow> sql_expr \<Rightarrow> rstr option" where
  "column_ident U (Identifier i) = Some (to_lowercase U i)"
| "column_ident U (Nested e) = column_ident U e"
| "column_ident U _ = None"

text \<open>\<open>f.floor() as i64\<close> for a finite float on an INT column, the coercion of INSERT otherwise.\<close>

definition coerce_bound :: "db_value \<Rightarrow> table \<Rightarrow> rstr \<Rightarrow> db_value lookup" where
  "coerce_bound v t c =
     (case tbl_col_index t c of
        None \<Rightarrow> fall_back
      | Some ci \<Rightarrow>
          (if length (tbl_columns t) \<le> ci then None
           else let ty = col_dtype (tbl_columns t ! ci)
                in if has_type ty v \<and> v \<noteq> DNull then found v
                   else case (ty, v) of
                          (TInt, DFloat f) \<Rightarrow>
                            (if f64_is_finite f then found (DInt (f64_as_i64 (f64_floor f)))
                             else found (coerced ty v))
                        | _ \<Rightarrow> (if snd (coerce_value v ty) then found (coerced ty v) else fall_back)))"

text \<open>The last byte plus one, when that is still UTF-8.\<close>

definition increment_last_byte :: "rstr \<Rightarrow> rstr option" where
  "increment_last_byte s =
     (if s = [] then None
      else let s' = butlast s @ [char_of ((of_char (last s) + 1) mod 256 :: nat)]
           in if valid_utf8 (bytes_of s') then Some s' else None)"

type_synonym key_range = "rstr \<times> rstr bound \<times> rstr bound"

definition lbind :: "'a lookup \<Rightarrow> ('a \<Rightarrow> 'b lookup) \<Rightarrow> 'b lookup" where
  "lbind r f = (case r of None \<Rightarrow> None | Some None \<Rightarrow> fall_back | Some (Some x) \<Rightarrow> f x)"

lemma lbind_simps [simp]:
  "lbind None f = None" "lbind (Some None) f = Some None" "lbind (Some (Some x)) f = f x"
  by (simp_all add: lbind_def)

lemma lbind_found: "lbind r f = Some (Some y) \<longleftrightarrow> (\<exists>x. r = Some (Some x) \<and> f x = Some (Some y))"
  by (auto simp: lbind_def split: option.splits)

definition cmp_bounds :: "rstr \<Rightarrow> bin_op \<Rightarrow> rstr \<Rightarrow> key_range lookup" where
  "cmp_bounds c opr key =
     (case opr of
        OpGt \<Rightarrow> found (c, Excluded key, Unbounded)
      | OpGtEq \<Rightarrow> found (c, Included key, Unbounded)
      | OpLt \<Rightarrow> found (c, Unbounded, Included key)
      | OpLtEq \<Rightarrow> found (c, Unbounded, Included key)
      | _ \<Rightarrow> fall_back)"

definition cmp_range :: "table \<Rightarrow> rstr \<Rightarrow> bin_op \<Rightarrow> sql_value \<Rightarrow> key_range lookup" where
  "cmp_range t c opr v =
     (if sql_val_to_db v = DNull then fall_back
      else lbind (coerce_bound (sql_val_to_db v) t c) (\<lambda>b. cmp_bounds c opr (encode_key b)))"

definition between_range :: "table \<Rightarrow> rstr \<Rightarrow> db_value \<Rightarrow> db_value \<Rightarrow> key_range lookup" where
  "between_range t c lo hi =
     (if lo = DNull \<or> hi = DNull then fall_back
      else lbind (coerce_bound lo t c) (\<lambda>l. lbind (coerce_bound hi t c) (\<lambda>h.
        if encode_key h < encode_key l then fall_back
        else found (c, Included (encode_key l), Included (encode_key h)))))"

text \<open>\<open>pat.ends_with('%')\<close> and the rest before it, which may hold no other wildcard.\<close>

definition literal_prefix :: "rstr \<Rightarrow> rstr option" where
  "literal_prefix pat =
     (if pat = [] \<or> last pat \<noteq> CHR ''%'' then None
      else let p = butlast pat
           in if p = [] \<or> CHR ''%'' \<in> set p \<or> CHR ''_'' \<in> set p then None else Some p)"

definition prefix_range :: "table \<Rightarrow> rstr \<Rightarrow> rstr \<Rightarrow> key_range lookup" where
  "prefix_range t c pat =
     (case literal_prefix pat of
        None \<Rightarrow> fall_back
      | Some p \<Rightarrow>
          (case tbl_col_index t c of
             None \<Rightarrow> fall_back
           | Some ci \<Rightarrow>
               (if length (tbl_columns t) \<le> ci then None
                else if col_dtype (tbl_columns t ! ci) \<noteq> TString then fall_back
                else case increment_last_byte (encode_key (DString p)) of
                       None \<Rightarrow> fall_back
                     | Some up \<Rightarrow> found (c, Included (encode_key (DString p)), Excluded up))))"

text \<open>The string a LIKE pattern literal holds.\<close>

definition pattern_literal :: "sql_expr \<Rightarrow> rstr option" where
  "pattern_literal e =
     (case value_of e of
        Some v \<Rightarrow> (case sql_val_to_db v of DString s \<Rightarrow> Some s | _ \<Rightarrow> None)
      | None \<Rightarrow> None)"

definition comparison_range :: "unicode \<Rightarrow> table \<Rightarrow> sql_expr \<Rightarrow> bin_op \<Rightarrow> sql_expr \<Rightarrow> key_range lookup" where
  "comparison_range U t l opr r =
     (case (ident_of l, value_of r) of
        (Some i, Some v) \<Rightarrow> cmp_range t (to_lowercase U i) opr v
      | _ \<Rightarrow>
          (case (value_of l, ident_of r) of
             (Some v, Some i) \<Rightarrow>
               (case flip_cmp opr of
                  None \<Rightarrow> fall_back
                | Some opr' \<Rightarrow> cmp_range t (to_lowercase U i) opr' v)
           | _ \<Rightarrow> fall_back))"

definition range_bounds :: "unicode \<Rightarrow> sql_expr \<Rightarrow> table \<Rightarrow> key_range lookup" where
  "range_bounds U e t =
     (case e of
        BinaryOp l opr r \<Rightarrow> comparison_range U t l opr r
      | Between a l h False \<Rightarrow>
          (case (column_ident U a, bound_literal l, bound_literal h) of
             (Some c, Some lo, Some hi) \<Rightarrow> between_range t c lo hi
           | _ \<Rightarrow> fall_back)
      | Like False a p None \<Rightarrow>
          (case (column_ident U a, pattern_literal p) of
             (Some c, Some pat) \<Rightarrow> prefix_range t c pat
           | _ \<Rightarrow> fall_back)
      | _ \<Rightarrow> fall_back)"

fun strip_nested :: "sql_expr \<Rightarrow> sql_expr" where
  "strip_nested (Nested e) = strip_nested e"
| "strip_nested e = e"

definition eq_literal :: "unicode \<Rightarrow> sql_expr \<Rightarrow> sql_expr \<Rightarrow> (rstr \<times> db_value) option" where
  "eq_literal U l r =
     (case (ident_of l, value_of r) of
        (Some i, Some v) \<Rightarrow> Some (to_lowercase U i, sql_val_to_db v)
      | _ \<Rightarrow>
          (case (value_of l, ident_of r) of
             (Some v, Some i) \<Rightarrow> Some (to_lowercase U i, sql_val_to_db v)
           | _ \<Rightarrow> None))"

definition btree_range :: "unicode \<Rightarrow> sql_expr \<Rightarrow> table \<Rightarrow> row list lookup" where
  "btree_range U e t =
     lbind (range_bounds U e t) (\<lambda>(c, lo, hi).
       case find_index c KBTree t of
         Some (IBTree ix) \<Rightarrow>
           (case bt_range lo hi ix of
              None \<Rightarrow> None
            | Some is \<Rightarrow> (if row_count t \<le> length is then fall_back else found_rows t is))
       | _ \<Rightarrow> fall_back)"

definition btree_eq :: "unicode \<Rightarrow> sql_expr \<Rightarrow> sql_expr \<Rightarrow> table \<Rightarrow> row list lookup" where
  "btree_eq U l r t =
     (case eq_literal U l r of
        None \<Rightarrow> fall_back
      | Some (c, v) \<Rightarrow>
          (case btree_lookup c v t of None \<Rightarrow> fall_back | Some is \<Rightarrow> found_rows t is))"

definition try_btree_index :: "unicode \<Rightarrow> sql_expr option \<Rightarrow> table \<Rightarrow> row list lookup" where
  "try_btree_index U w t =
     (case w of
        None \<Rightarrow> fall_back
      | Some e0 \<Rightarrow>
          (case strip_nested e0 of
             BinaryOp l opr r \<Rightarrow>
               (if opr = OpEq then btree_eq U l r t else btree_range U (BinaryOp l opr r) t)
           | e \<Rightarrow> btree_range U e t))"

section \<open>Containment and similarity\<close>

text \<open>\<open>longest_literal_run\<close>: the first longest piece between wildcards, if it has three characters.\<close>

fun split_runs :: "uchar list \<Rightarrow> uchar list \<Rightarrow> uchar list list" where
  "split_runs cur [] = [cur]"
| "split_runs cur (c # cs) =
     (if c = 37 \<or> c = 95 then cur # split_runs [] cs else split_runs (cur @ [c]) cs)"

fun first_longest :: "uchar list \<Rightarrow> uchar list list \<Rightarrow> uchar list" where
  "first_longest best [] = best"
| "first_longest best (r # rs) = first_longest (if length best < length r then r else best) rs"

definition longest_literal_run :: "rstr \<Rightarrow> rstr option" where
  "longest_literal_run pat =
     (let best = first_longest [] (split_runs [] (chars pat))
      in if 3 \<le> length best then Some (utf8 best) else None)"

definition trigram_column :: "unicode \<Rightarrow> sql_expr \<Rightarrow> rstr option" where
  "trigram_column U e =
     (case e of
        Identifier i \<Rightarrow> Some (to_lowercase U i)
      | CompoundIdentifier ps \<Rightarrow> Some (join ''.'' (map (to_lowercase U) ps))
      | _ \<Rightarrow> None)"

definition quoted_literal :: "sql_expr \<Rightarrow> rstr option" where
  "quoted_literal e =
     (case value_of e of
        Some (SqlSingleQuoted s) \<Rightarrow> Some s
      | Some (SqlDoubleQuoted s) \<Rightarrow> Some s
      | _ \<Rightarrow> None)"

fun fuzzy_call :: "unicode \<Rightarrow> func_args \<Rightarrow> (rstr \<times> rstr) option" where
  "fuzzy_call U (ArgList (a # b # _)) =
     (case (get_func_arg_unnamed a, get_func_arg_unnamed b) of
        (Inr c, Inr p) \<Rightarrow>
          (case (trigram_column U c, quoted_literal p) of (Some n, Some s) \<Rightarrow> Some (n, s) | _ \<Rightarrow> None)
      | _ \<Rightarrow> None)"
| "fuzzy_call U _ = None"

text \<open>The candidate row numbers; \<open>ord\<close> is the iteration order of a hash set.\<close>

definition trigram_on :: "rstr \<Rightarrow> table \<Rightarrow> trigram_index lookup" where
  "trigram_on c t =
     (case find_index c KTrigram t of
        None \<Rightarrow> fall_back
      | Some (ITrigram ix) \<Rightarrow> found ix
      | Some (IBTree _) \<Rightarrow> None)"

definition trigram_candidates :: "unicode \<Rightarrow> (rstr set \<Rightarrow> rstr list) \<Rightarrow> sql_expr \<Rightarrow> table \<Rightarrow> nat set lookup" where
  "trigram_candidates U ord e t =
     (case e of
        Function nm args mods \<Rightarrow>
          (if to_lowercase U nm \<noteq> ''fuzzy_match'' then fall_back
           else case fuzzy_call U args of
                  None \<Rightarrow> fall_back
                | Some (c, pat) \<Rightarrow>
                    lbind (trigram_on c t) (\<lambda>ix. found (tg_candidates ix (ord (trigrams U pat)))))
      | Like False a p None \<Rightarrow>
          (case (column_ident U a, pattern_literal p) of
             (Some c, Some pat) \<Rightarrow>
               (case longest_literal_run pat of
                  None \<Rightarrow> fall_back
                | Some run \<Rightarrow> lbind (trigram_on c t) (\<lambda>ix. found (tg_like_candidates U run ix)))
           | _ \<Rightarrow> fall_back)
      | _ \<Rightarrow> fall_back)"

definition try_trigram_index :: "unicode \<Rightarrow> (rstr set \<Rightarrow> rstr list) \<Rightarrow> (nat set \<Rightarrow> nat list)
    \<Rightarrow> sql_expr option \<Rightarrow> table \<Rightarrow> row list lookup" where
  "try_trigram_index U ord visit w t =
     (case w of
        None \<Rightarrow> fall_back
      | Some e \<Rightarrow>
          lbind (trigram_candidates U ord e t) (\<lambda>is.
            if is = {} \<or> row_count t \<le> card is then fall_back else found_rows t (visit is)))"

section \<open>The rows of a WHERE clause\<close>

text \<open>\<open>is_truthy(&eval_expr(..).unwrap_or(false))\<close>; a row is kept when there is no clause.\<close>

definition keeps_row :: "eval_env \<Rightarrow> col_map \<Rightarrow> sql_expr option \<Rightarrow> row \<Rightarrow> bool panicking" where
  "keeps_row E m w r =
     (case w of
        None \<Rightarrow> Some True
      | Some e \<Rightarrow> map_option (\<lambda>v. case v of Inr x \<Rightarrow> is_truthy x | Inl _ \<Rightarrow> False) (eval_expr E r m e))"

fun filter_rows :: "('r \<Rightarrow> bool panicking) \<Rightarrow> 'r list \<Rightarrow> 'r list panicking" where
  "filter_rows p [] = Some []"
| "filter_rows p (r # rs) =
     (case p r of
        None \<Rightarrow> None
      | Some b \<Rightarrow> map_option (\<lambda>xs. if b then r # xs else xs) (filter_rows p rs))"

definition scan_rows :: "eval_env \<Rightarrow> sql_expr option \<Rightarrow> table \<Rightarrow> row list panicking" where
  "scan_rows E w t = filter_rows (keeps_row E (tbl_col_index t) w) (tbl_rows t)"

text \<open>\<open>filtered_rows\<close> of \<open>exec_select_rows\<close>: the first path that answers, its candidates re-checked.
  \<open>ord\<close> and \<open>visit\<close> are the orders in which hash sets are walked.\<close>

definition where_rows :: "eval_env \<Rightarrow> (rstr set \<Rightarrow> rstr list) \<Rightarrow> (nat set \<Rightarrow> nat list) \<Rightarrow> sql_expr option
    \<Rightarrow> table \<Rightarrow> row list panicking" where
  "where_rows E ord visit w t =
     (let U = env_unicode E; check = filter_rows (keeps_row E (tbl_col_index t) w)
      in case try_pk_index U w t of
           None \<Rightarrow> None
         | Some (Some rs) \<Rightarrow> check rs
         | Some None \<Rightarrow>
             (case try_trigram_index U ord visit w t of
                None \<Rightarrow> None
              | Some (Some rs) \<Rightarrow> check rs
              | Some None \<Rightarrow>
                  (case try_btree_index U w t of
                     None \<Rightarrow> None
                   | Some (Some rs) \<Rightarrow> check rs
                   | Some None \<Rightarrow> scan_rows E w t)))"

end
