(* ===== verification/LookupKeys.thy ===== *)
theory LookupKeys
  imports Lookup
begin

text \<open>
  Where an ordered or a prefix key answers like the evaluator: the values on which the BTREE key order
  is \<open>db_value_cmp\<close>, and what a LIKE pattern says about the texts it matches.
\<close>

section \<open>Integers as floats\<close>

definition small_int :: "i64 \<Rightarrow> bool" where
  "small_int n \<longleftrightarrow> \<bar>sint n\<bar> < 2 ^ 53"

lemma small_int_cmp:
  assumes "small_int a" and "small_int b"
  shows "db_value_cmp (DInt a) (DInt b) = cmp (sint a) (sint b)"
proof -
  have n: "f64_num (i64_as_f64 a) = sint a * int f64_unit_den" "f64_num (i64_as_f64 b) = sint b * int f64_unit_den"
    "\<not> f64_is_nan (i64_as_f64 a)" "\<not> f64_is_nan (i64_as_f64 b)"
    using assms f64_of_small [of "sint a"] f64_of_small [of "sint b"] by (simp_all add: small_int_def i64_as_f64_def)
  have d: "0 < int f64_unit_den" by (simp add: f64_unit_den_def)
  have "f64_key (i64_as_f64 a) < f64_key (i64_as_f64 b) \<longleftrightarrow> sint a < sint b"
    using d by (simp add: f64_key_value_less n)
  moreover have "f64_key (i64_as_f64 a) = f64_key (i64_as_f64 b) \<longleftrightarrow> sint a = sint b"
    using d by (simp add: f64_key_value_eq n)
  ultimately show ?thesis
    using n by (simp add: db_value_cmp_def f64_partial_cmp_def) (simp add: cmp_def)
qed

section \<open>Where the key order is the comparison\<close>

fun key_ordered :: "db_value \<Rightarrow> db_value \<Rightarrow> bool" where
  "key_ordered (DInt a) (DInt b) = (small_int a \<and> small_int b)"
| "key_ordered (DFloat x) (DFloat y) = (\<not> f64_is_nan x \<and> \<not> f64_is_nan y)"
| "key_ordered (DBool a) (DBool b) = True"
| "key_ordered (DString s) (DString u) = (parse_f64 s = None \<or> parse_f64 u = None)"
| "key_ordered _ _ = False"

lemma key_ordered_cmp: "key_ordered x v \<Longrightarrow> cmp (encode_key x) (encode_key v) = db_value_cmp x v"
proof (induction x v rule: key_ordered.induct)
  case (1 a b)
  then have "db_value_cmp (DInt a) (DInt b) = cmp (sint a) (sint b)" by (intro small_int_cmp) simp_all
  moreover have "cmp (int_key_bits a) (int_key_bits b) = cmp (sint a) (sint b)"
    by (auto simp: cmp_def int_key_less int_key_eq intro: signed_word_eqI)
  ultimately show ?case by (simp add: pad20_cmp)
next
  case (2 x y)
  then show ?case using encode_key_float_cmp [of x y] by (simp add: db_value_cmp_def f64_partial_cmp_def)
next
  case (3 a b)
  have "db_value_cmp (DBool a) (DBool b) = cmp (bool_to_string a) (bool_to_string b)" by (simp add: db_value_cmp_def)
  then show ?case by (cases a; cases b) (simp_all, code_simp+)
next
  case (4 s u)
  then show ?case by (auto simp: db_value_cmp_def split: option.splits)
qed simp_all

section \<open>Patterns over literal text\<close>

text \<open>A Rust string: the encoding of a list of scalar values.\<close>

definition rust_str :: "rstr \<Rightarrow> bool" where
  "rust_str s \<longleftrightarrow> (\<exists>cs. (\<forall>c \<in> set cs. is_scalar c) \<and> s = utf8 cs)"

lemma rust_strD: "rust_str s \<Longrightarrow> s = utf8 (chars s) \<and> (\<forall>c \<in> set (chars s). is_scalar c)"
  by (auto simp: rust_str_def)

lemma glob_literal:
  "\<forall>c \<in> set ps. c \<noteq> any \<and> c \<noteq> one \<Longrightarrow> glob_match any one v (ps @ qs) \<longleftrightarrow>
     (\<exists>w. v = ps @ w \<and> glob_match any one w qs)"
proof (induction ps arbitrary: v)
  case (Cons p ps)
  then show ?case by (cases v) auto
qed simp

lemma glob_runs:
  "glob_match 37 95 v (cur @ cs) \<Longrightarrow> \<forall>c \<in> set cur. c \<noteq> 37 \<and> c \<noteq> 95 \<Longrightarrow>
     run \<in> set (split_runs cur cs) \<Longrightarrow> \<exists>a b. v = a @ run @ b"
proof (induction cur cs arbitrary: v rule: split_runs.induct)
  case (1 cur)
  then show ?case using glob_literal [of cur 37 95 v "[]"] by (auto intro: exI [of _ "[]"])
next
  case (2 cur c cs)
  show ?case
  proof (cases "c = 37 \<or> c = 95")
    case wild: True
    from 2(3,4) obtain w where w: "v = cur @ w" "glob_match 37 95 w (c # cs)"
      using glob_literal [of cur 37 95 v "c # cs"] by blast
    have "\<exists>u x. w = u @ x \<and> glob_match 37 95 x cs"
    proof (cases "c = 37")
      case True
      with w(2) have "glob_any 37 95 w cs" by simp
      then show ?thesis by (simp add: glob_any_iff)
    next
      case False
      with w(2) wild obtain d y where "w = [d] @ y" "glob_match 37 95 y cs" by (cases w) auto
      then show ?thesis by blast
    qed
    then obtain u x where x: "w = u @ x" "glob_match 37 95 x ([] @ cs)" by auto
    show ?thesis
    proof (cases "run = cur")
      case True
      with w(1) have "v = [] @ run @ w" by simp
      then show ?thesis by blast
    next
      case False
      with 2(5) wild have "run \<in> set (split_runs [] cs)" by auto
      from 2(1) [OF wild x(2) _ this] obtain a b where "x = a @ run @ b" by auto
      then have "v = (cur @ u @ a) @ run @ b" by (simp add: w(1) x(1))
      then show ?thesis by blast
    qed
  next
    case False
    with 2 show ?thesis by auto
  qed
qed

lemma first_longest_in: "first_longest best rs \<in> insert best (set rs)"
proof (induction best rs rule: first_longest.induct)
  case (2 best r rs)
  then show ?case by (cases "length best < length r") auto
qed simp

lemma longest_run_contained:
  assumes "longest_literal_run pat = Some run" and "simple_like s pat" and "rust_str s"
  shows "contains_sub s run"
proof -
  let ?best = "first_longest [] (split_runs [] (chars pat))"
  from assms(1) have b: "3 \<le> length ?best" "run = utf8 ?best"
    by (auto simp: longest_literal_run_def Let_def split: if_splits)
  then have "?best \<noteq> []" by auto
  then have "?best \<in> set (split_runs [] (chars pat))"
    using first_longest_in [of "[]" "split_runs [] (chars pat)"] by auto
  moreover have "glob_match 37 95 (chars s) ([] @ chars pat)"
    using assms(2) by (simp add: simple_like_def like_match_def)
  ultimately obtain a c where "chars s = a @ ?best @ c"
    using glob_runs [of "chars s" "[]" "chars pat" ?best] by auto
  then have "s = utf8 a @ run @ utf8 c" using rust_strD [OF assms(3)] b(2) by (metis utf8_append)
  then show ?thesis by (auto simp: contains_sub_def find_sub_None_iff)
qed

text \<open>The encoding of one character: ASCII is itself, every other byte is from 128 to 247.\<close>

lemma utf8_single: "utf8 [c] = str_of (utf8_encode_char c)"
  by (simp add: utf8_def)

lemma utf8_bytes_high:
  assumes "is_scalar c" and "128 \<le> c" and "x \<in> set (utf8 [c])"
  shows "128 \<le> (of_char x :: nat) \<and> (of_char x :: nat) < 255"
proof -
  have c: "c < 1114112" using assms(1) by (auto simp: is_scalar_def)
  then have "c div 262144 < 5" by (simp add: div_less_iff_less_mult)
  moreover have "c < 65536 \<Longrightarrow> c div 4096 < 16" by (simp add: div_less_iff_less_mult)
  moreover have "c < 2048 \<Longrightarrow> c div 64 < 32" by (simp add: div_less_iff_less_mult)
  moreover have "c div 64 mod 64 < 64" "c mod 64 < 64" "c div 4096 mod 64 < 64" by simp_all
  ultimately show ?thesis
    using assms(2,3) by (auto simp: utf8_single utf8_encode_char_def str_of_def split: if_splits)
qed

lemma utf8_char_ascii: "c < 128 \<Longrightarrow> utf8 [c] = [char_of c]"
  by (simp add: utf8_single utf8_encode_char_def str_of_def)

lemma utf8_ne: "utf8 [c] \<noteq> []"
  by (simp add: utf8_single utf8_encode_char_def str_of_def)

lemma utf8_bytes_less: "\<forall>c \<in> set cs. is_scalar c \<Longrightarrow> x \<in> set (utf8 cs) \<Longrightarrow> (of_char x :: nat) < 255"
proof (induction cs)
  case (Cons c cs)
  have "utf8 (c # cs) = utf8 [c] @ utf8 cs" using utf8_append [of "[c]" cs] by simp
  moreover have "(of_char y :: nat) < 255" if "y \<in> set (utf8 [c])" for y
    using that utf8_bytes_high [of c y] Cons.prems(1) by (cases "c < 128") (auto simp: utf8_char_ascii)
  ultimately show ?case using Cons by auto
qed simp

lemma like_prefix:
  assumes "rust_str pat" and "rust_str s" and "simple_like s pat" and p: "literal_prefix pat = Some p"
  shows "\<exists>rest. s = p @ rest"
proof -
  let ?cs = "chars pat"
  have cs: "pat = utf8 ?cs" "\<forall>c \<in> set ?cs. is_scalar c" using rust_strD [OF assms(1)] by simp_all
  from p have pat: "pat \<noteq> []" "last pat = CHR ''%''" "p = butlast pat" "CHR ''%'' \<notin> set p" "CHR ''_'' \<notin> set p"
    by (auto simp: literal_prefix_def Let_def split: if_splits)
  from pat(1) cs(1) have "?cs \<noteq> []" by auto
  then obtain ds d where d: "?cs = ds @ [d]" by (metis append_butlast_last_id)
  then have e: "pat = utf8 ds @ utf8 [d]" using cs(1) by (metis utf8_append)
  have d37: "d = 37"
  proof (cases "d < 128")
    case True
    then have "char_of d = CHR ''%''" using e pat(2) by (simp add: utf8_char_ascii)
    then have "of_char (char_of d :: char) = (37 :: nat)" by simp
    then show ?thesis using True by simp
  next
    case False
    have "last pat \<in> set (utf8 [d])" using e utf8_ne [of d] by (metis last_appendR last_in_set)
    then show ?thesis using utf8_bytes_high [of d "CHR ''%''"] False cs(2) d pat(2) by simp
  qed
  have pds: "p = utf8 ds" using e pat(3) d37 by (simp add: utf8_char_ascii)
  have lit: "\<forall>c \<in> set ds. c \<noteq> 37 \<and> c \<noteq> 95"
  proof
    fix c assume "c \<in> set ds"
    then obtain a b where "ds = a @ [c] @ b" by (metis append_Cons append_Nil split_list)
    then have "p = utf8 a @ utf8 [c] @ utf8 b" using pds by (metis utf8_append)
    then have "set (utf8 [c]) \<subseteq> set p" by (simp only: set_append) blast
    moreover have "utf8 [37] = ''%''" "utf8 [95] = ''_''" by code_simp+
    ultimately show "c \<noteq> 37 \<and> c \<noteq> 95" using pat(4,5) by auto
  qed
  have "glob_match 37 95 (chars s) (ds @ [37])"
    using assms(3) d d37 by (simp add: simple_like_def like_match_def)
  then obtain w where "chars s = ds @ w" using glob_literal [OF lit] by blast
  then have "s = p @ utf8 w" using rust_strD [OF assms(2)] pds by (metis utf8_append)
  then show ?thesis by blast
qed

lemma prefix_le: "p \<le> p @ (r :: rstr)"
  by (induction p) simp_all

lemma common_prefix_less: "a < b \<Longrightarrow> u @ a # x < u @ b # (y :: rstr)"
  by (induction u) simp_all

lemma prefix_in_range:
  assumes "p \<noteq> []" and "\<forall>x \<in> set p. (of_char x :: nat) < 255"
    and "increment_last_byte (encode_key (DString p)) = Some up"
  shows "encode_key (DString p) \<le> encode_key (DString (p @ r)) \<and> encode_key (DString (p @ r)) < up"
proof -
  obtain q a where q: "p = q @ [a]" using assms(1) by (metis append_butlast_last_id)
  have "(of_char a :: nat) < 255" using assms(2) by (simp add: q)
  then have "a < char_of ((of_char a + 1) mod 256 :: nat)" by (simp add: less_char_def)
  moreover have "up = CHR 0x04 # q @ [char_of ((of_char a + 1) mod 256 :: nat)]"
    using assms(3) by (auto simp: increment_last_byte_def q Let_def split: if_splits)
  ultimately show ?thesis using prefix_le [of "q @ [a]" r] by (simp add: q common_prefix_less)
qed

end
