(* ===== verification/LookupExact.thy ===== *)
theory LookupExact
  imports LookupKeys "HOL-Library.Multiset"
begin

text \<open>
  No index path loses a row: the primary-key map, the BTREE and the TRIGRAM path each give candidates
  that contain every row of the scan, under a condition on the clause and the cells of its column
  (\<open>pk_safe\<close>, \<open>btree_safe\<close>, \<open>trigram_safe\<close>).
\<close>

lemma filter_rows_iff:
  "filter_rows p rs = Some ys \<longleftrightarrow> (\<forall>r \<in> set rs. p r \<noteq> None) \<and> ys = filter (\<lambda>r. p r = Some True) rs"
  by (induction rs arbitrary: ys) (auto split: option.splits)

lemma rows_at_iff: "rows_at t is = Some rs \<longleftrightarrow> (\<forall>i \<in> set is. i < length (tbl_rows t)) \<and> rs = map ((!) (tbl_rows t)) is"
  by (induction "is" arbitrary: rs) (auto simp: rows_at_def split: option.splits)

text \<open>Candidates that contain every row of the scan give the scan's rows, in their own order.\<close>

lemma candidates_exact:
  assumes scan: "filter_rows p rows = Some ys"
    and "distinct is" and "\<forall>i \<in> set is. i < length rows"
    and all: "\<And>i. i < length rows \<Longrightarrow> p (rows ! i) = Some True \<Longrightarrow> i \<in> set is"
  shows "\<exists>zs. filter_rows p (map ((!) rows) is) = Some zs \<and> mset zs = mset ys"
proof -
  let ?P = "\<lambda>r. p r = Some True"
  have p: "\<forall>r \<in> set rows. p r \<noteq> None" and ys: "ys = filter ?P rows"
    using scan by (auto simp: filter_rows_iff)
  have m: "mset (filter ?P (map ((!) rows) js)) = image_mset ((!) rows) (mset_set {i \<in> set js. ?P (rows ! i)})"
    if "distinct js" for js
  proof -
    have "mset (filter ?P (map ((!) rows) js)) = image_mset ((!) rows) (mset (filter (\<lambda>i. ?P (rows ! i)) js))"
      by (simp add: filter_map comp_def del: mset_filter)
    also have "mset (filter (\<lambda>i. ?P (rows ! i)) js) = mset_set {i \<in> set js. ?P (rows ! i)}"
      using mset_set_set [of "filter (\<lambda>i. ?P (rows ! i)) js"] that by simp
    finally show ?thesis .
  qed
  have "{i \<in> set is. ?P (rows ! i)} = {i \<in> set [0..<length rows]. ?P (rows ! i)}"
    using assms(3) all by auto
  then have "mset (filter ?P (map ((!) rows) is)) = mset (filter ?P (map ((!) rows) [0..<length rows]))"
    using m [OF assms(2)] m [of "[0..<length rows]"] by simp
  then show ?thesis using p ys assms(3) by (auto simp: filter_rows_iff map_nth)
qed

lemma at_most_one: "mset xs = mset ys \<Longrightarrow> length xs \<le> 1 \<Longrightarrow> xs = ys"
  by (cases xs; cases "tl xs") auto

section \<open>Conjuncts\<close>

definition clock_names :: "rstr set" where
  "clock_names = {''current_timestamp'', ''current_time'', ''current_date''}"

definition plain_columns :: "table \<Rightarrow> bool" where
  "plain_columns t \<longleftrightarrow> (\<forall>c \<in> set (tbl_columns t). col_name c \<notin> clock_names)"

lemma plain_index: "wf_columns t \<Longrightarrow> plain_columns t \<Longrightarrow> tbl_col_index t c = Some ci \<Longrightarrow> c \<notin> clock_names"
  by (auto simp: wf_columns_def plain_columns_def col_map_of_def position_Some)

lemma eval_column:
  assumes "wf_columns t" and "plain_columns t" and "tbl_col_index t (to_lowercase (env_unicode E) i) = Some ci"
  shows "eval_expr E r (tbl_col_index t) (Identifier i) = cell r ci"
  using plain_index [OF assms] assms(3) by (auto simp: eval_identifier_def clock_names_def Let_def)

lemma literal_of_eval: "literal_of e = Some v \<Longrightarrow> eval_expr E r m e = pok x \<Longrightarrow> x = v"
  by (induction e rule: literal_of.induct) auto

text \<open>What a kept row says about every conjunct.\<close>

definition holds :: "table \<Rightarrow> row \<Rightarrow> rstr \<times> db_value \<Rightarrow> bool" where
  "holds t r cv \<longleftrightarrow> (\<forall>ci. tbl_col_index t (fst cv) = Some ci \<longrightarrow> ci < length r \<and>
     (values_equal (r ! ci) (snd cv) \<or> values_equal (snd cv) (r ! ci)))"

lemma pinned_holds:
  assumes "wf_columns t" and "plain_columns t"
    and "eval_expr E r (tbl_col_index t) (Identifier i) = pok x" and "eval_expr E r (tbl_col_index t) e = pok y"
    and "values_equal x y \<or> values_equal y x" and "cv \<in> set (pinned (env_unicode E) i e)"
  shows "holds t r cv"
proof -
  from assms(6) obtain v where v: "literal_of e = Some v" "cv = (to_lowercase (env_unicode E) i, v)"
    by (cases "literal_of e") (auto simp: pinned_def)
  have "y = v" using literal_of_eval [OF v(1) assms(4)] .
  with v assms eval_column [OF assms(1,2)] show ?thesis
    by (auto simp: holds_def cell_def split: if_splits simp del: eval_expr.simps)
qed

lemma eq_conjunct_holds:
  assumes "wf_columns t" and "plain_columns t"
    and "eval_expr E r (tbl_col_index t) a = pok x" and "eval_expr E r (tbl_col_index t) b = pok y"
    and "values_equal x y" and "cv \<in> set (eq_conjunct (env_unicode E) a b)"
  shows "holds t r cv"
proof -
  have i: "ident_of e = Some i \<longleftrightarrow> e = Identifier i" for e i by (auto simp: ident_of_def split: sql_expr.splits)
  from assms(6) consider (l) i where "a = Identifier i" "cv \<in> set (pinned (env_unicode E) i b)"
    | (r) i where "b = Identifier i" "cv \<in> set (pinned (env_unicode E) i a)"
    by (cases "ident_of a"; cases "ident_of b") (auto simp: eq_conjunct_def i)
  then show ?thesis
  proof cases
    case l
    then show ?thesis using pinned_holds [OF assms(1,2)] assms by blast
  next
    case r
    then show ?thesis using pinned_holds [OF assms(1,2)] assms by blast
  qed
qed

lemma conjuncts_hold:
  assumes "wf_columns t" and "plain_columns t" 
  shows "eval_expr E r (tbl_col_index t) e = pok x \<Longrightarrow> is_truthy x \<Longrightarrow>
    cv \<in> set (extract_equality_conjuncts (env_unicode E) e) \<Longrightarrow> holds t r cv"
proof (induction "env_unicode E" e arbitrary: x rule: extract_equality_conjuncts.induct)
  case (2 l opr r')
  from 2(3) obtain a b where a: "eval_expr E r (tbl_col_index t) l = pok a"
      "eval_expr E r (tbl_col_index t) r' = pok b" and x: "apply_binary_op (env_unicode E) a opr b = pok x"
    by (auto simp: pbind_Inr_iff)
  consider "opr = OpAnd" | "opr = OpEq" using 2(5) by (auto split: if_splits)
  then show ?case
  proof cases
    case 1
    with 2 a x show ?thesis by auto
  next
    case e: 2
    have "values_equal a b" using e x 2(4) by auto
    moreover have "cv \<in> set (eq_conjunct (env_unicode E) l r')" using e 2(5) by simp
    ultimately show ?thesis by (rule eq_conjunct_holds [OF assms a])
  qed
qed auto


section \<open>The primary-key path\<close>

text \<open>The literals that a column of the type compares exactly with: INSERT's coercion of the literal has
  the key of every cell that equals it.  Floats compare within an epsilon, so they are not exact.\<close>

fun exact_literal :: "column_type \<Rightarrow> db_value \<Rightarrow> bool" where
  "exact_literal TInt v = (\<nexists>f. v = DFloat f)"
| "exact_literal TString v = True"
| "exact_literal TBool v = True"
| "exact_literal _ v = False"

lemma exact_literal_key:
  assumes "exact_literal ty v" and "has_type ty x" and "has_type ty v \<or> snd (coerce_value v ty)"
    and "values_equal x v \<or> values_equal v x"
  shows "same_key x (coerced ty v)"
  using assms by (cases ty; cases x; cases v) (auto simp: values_equal_def coerced_def)

definition pinned_at :: "table \<Rightarrow> row \<Rightarrow> rstr \<times> db_value \<Rightarrow> nat \<Rightarrow> bool" where
  "pinned_at t key_row cv ci \<longleftrightarrow>
     tbl_col_index t (fst cv) = Some ci \<and> ci < length (tbl_columns t) \<and> col_primary_key (tbl_columns t ! ci) \<and>
     (let ty = col_dtype (tbl_columns t ! ci)
      in key_row ! ci = coerced ty (snd cv) \<and> (has_type ty (snd cv) \<or> snd (coerce_value (snd cv) ty)))"

lemma pin_key_cases:
  assumes "pin_key t ((c, v) # cs) seen r = found r'"
  obtains ci where "tbl_col_index t c = Some ci" "ci < length (tbl_columns t)"
    "col_primary_key (tbl_columns t ! ci)" "ci \<notin> seen"
    "has_type (col_dtype (tbl_columns t ! ci)) v \<or> snd (coerce_value v (col_dtype (tbl_columns t ! ci)))"
    "pin_key t cs (insert ci seen) (r[ci := coerced (col_dtype (tbl_columns t ! ci)) v]) = found r'"
  using assms by (auto simp: Let_def has_type_coerced split: option.splits if_splits)

lemma pin_key_found:
  "pin_key t cs seen r = found r' \<Longrightarrow> length r = length (tbl_columns t) \<Longrightarrow>
     \<exists>cis. list_all2 (pinned_at t r') cs cis \<and> distinct cis \<and> set cis \<inter> seen = {} \<and>
       (\<forall>i. i \<notin> set cis \<longrightarrow> r' ! i = r ! i)"
proof (induction cs arbitrary: seen r)
  case (Cons cv cs)
  obtain c v where cv: "cv = (c, v)" by (cases cv)
  from Cons.prems(1) [unfolded cv] show ?case
  proof (rule pin_key_cases)
    fix ci
    let ?ty = "col_dtype (tbl_columns t ! ci)"
    assume ci: "tbl_col_index t c = Some ci" "ci < length (tbl_columns t)"
      "col_primary_key (tbl_columns t ! ci)" "ci \<notin> seen"
      and ty: "has_type ?ty v \<or> snd (coerce_value v ?ty)"
      and rest: "pin_key t cs (insert ci seen) (r[ci := coerced ?ty v]) = found r'"
    from Cons.IH [OF rest] Cons.prems(2) obtain cis where
      cis: "list_all2 (pinned_at t r') cs cis" "distinct cis" "set cis \<inter> insert ci seen = {}"
        "\<forall>i. i \<notin> set cis \<longrightarrow> r' ! i = r[ci := coerced ?ty v] ! i" by auto
    then have "r' ! ci = coerced ?ty v" using ci(2) Cons.prems(2) by auto
    then have "pinned_at t r' cv ci" using ci ty by (simp add: pinned_at_def cv Let_def)
    then have "list_all2 (pinned_at t r') (cv # cs) (ci # cis)" using cis(1) by simp
    moreover have "\<forall>i. i \<notin> set (ci # cis) \<longrightarrow> r' ! i = r ! i" using cis(4) by auto
    ultimately show ?case using cis(2,3) ci(4) by (intro exI [of _ "ci # cis"]) auto
  qed
qed (auto intro!: exI [of _ "[]"])

lemma pin_key_pairs:
  assumes "list_all2 (pinned_at t r') cs cis" and "ci \<in> set cis"
  shows "\<exists>cv \<in> set cs. pinned_at t r' cv ci"
  using assms by (induction rule: list_all2_induct) auto

text \<open>All key columns are pinned, so a row that satisfies the conjuncts has the built key.\<close>

lemma pinned_row_key:
  assumes "wf_columns t" and r: "row_ok (tbl_columns t) r"
    and p: "pin_key t cs {} (replicate (length (tbl_columns t)) DNull) = found kr"
    and n: "length cs = length (pk_indices (tbl_columns t))" and ne: "pk_indices (tbl_columns t) \<noteq> []"
    and h: "\<forall>cv \<in> set cs. holds t r cv"
    and x: "\<forall>cv \<in> set cs. \<forall>ci. tbl_col_index t (fst cv) = Some ci \<longrightarrow>
          exact_literal (col_dtype (tbl_columns t ! ci)) (snd cv)"
  shows "pk_key t r = pk_key t kr"
proof -
  from pin_key_found [OF p] obtain cis where
    cis: "list_all2 (pinned_at t kr) cs cis" "distinct cis" by auto
  have sub: "set cis \<subseteq> set (pk_indices (tbl_columns t))"
    using pin_key_pairs [OF cis(1)] by (auto simp: pinned_at_def pk_indices_def)
  have "card (set cis) = length (pk_indices (tbl_columns t))"
    using n cis by (simp add: distinct_card list_all2_lengthD)
  moreover have "distinct (pk_indices (tbl_columns t))" by (simp add: pk_indices_def)
  ultimately have "card (set cis) = card (set (pk_indices (tbl_columns t)))"
    by (simp only: distinct_card)
  then have all: "set cis = set (pk_indices (tbl_columns t))"
    using sub by (simp add: card_subset_eq)
  have "same_key (r ! i) (kr ! i)" if "i < length (tbl_columns t)" "col_primary_key (tbl_columns t ! i)" for i
  proof -
    have "i \<in> set cis" using that all by (simp add: pk_indices_def)
    from pin_key_pairs [OF cis(1) this] obtain cv where cv: "cv \<in> set cs" "pinned_at t kr cv i" by blast
    then have c: "tbl_col_index t (fst cv) = Some i" by (simp add: pinned_at_def)
    have "has_type (col_dtype (tbl_columns t ! i)) (r ! i)"
      using r that(1) by (auto simp: row_ok_def list_all2_conv_all_nth)
    then show ?thesis
      using exact_literal_key x h cv c by (auto simp: pinned_at_def holds_def Let_def)
  qed
  then show ?thesis using pk_key_eq_iff [OF ne] by (simp add: pk_key_def)
qed

lemma typed_row: "typed_table t \<Longrightarrow> r \<in> set (tbl_rows t) \<Longrightarrow> row_ok (tbl_columns t) r"
  by (simp add: typed_table_def)

lemma keeps_row_true:
  "keeps_row E m (Some e) r = Some True \<longleftrightarrow> (\<exists>v. eval_expr E r m e = pok v \<and> is_truthy v)"
  by (cases "eval_expr E r m e") (auto simp: keeps_row_def split: sum.split)

definition pk_safe :: "unicode \<Rightarrow> table \<Rightarrow> sql_expr \<Rightarrow> bool" where
  "pk_safe U t e \<longleftrightarrow> (\<forall>cv \<in> set (extract_equality_conjuncts U e). \<forall>ci.
     tbl_col_index t (fst cv) = Some ci \<longrightarrow> exact_literal (col_dtype (tbl_columns t ! ci)) (snd cv))"

lemma pk_path_exact:
  assumes wf: "wf_table (env_unicode E) t" and ty: "typed_table t" and pl: "plain_columns t"
    and safe: "pk_safe (env_unicode E) t e"
    and scan: "scan_rows E (Some e) t = Some ys"
  shows "\<exists>lk. try_pk_index (env_unicode E) (Some e) t = Some lk \<and>
    (\<forall>cs. lk = Some cs \<longrightarrow> filter_rows (keeps_row E (tbl_col_index t) (Some e)) cs = Some ys)"
proof -
  let ?U = "env_unicode E" and ?p = "keeps_row E (tbl_col_index t) (Some e)"
  let ?cs = "extract_equality_conjuncts ?U e" and ?z = "replicate (length (tbl_columns t)) DNull"
  have wc: "wf_columns t" using wf by (simp add: wf_table_def)
  have np: "pin_key t cs seen r \<noteq> None" for cs seen r
    by (induction cs arbitrary: seen r)
      (use wf_columns_less [OF wc] in \<open>fastforce simp: Let_def split: option.splits\<close>)+
  have reg: "tbl_pk_row_index t k = Some i \<longleftrightarrow> i < length (tbl_rows t) \<and> pk_key t (tbl_rows t ! i) = Some k" for k i
    using wf by (simp add: wf_table_def registered_def key_stores_def pk_key_def)
  show ?thesis
  proof (cases "pk_indices (tbl_columns t) \<noteq> [] \<and> length ?cs = length (pk_indices (tbl_columns t))
      \<and> (\<exists>kr k. pin_key t ?cs {} ?z = found kr \<and> pk_key t kr = Some k)")
    case False
    then show ?thesis using np [of ?cs "{}" ?z]
      by (auto simp: try_pk_index_def Let_def split: option.splits)
  next
    case True
    then obtain kr k where kr: "pin_key t ?cs {} ?z = found kr" and k: "pk_key t kr = Some k"
      and n: "length ?cs = length (pk_indices (tbl_columns t))" and ne: "pk_indices (tbl_columns t) \<noteq> []" by blast
    have key: "tbl_pk_row_index t k = Some i" if i: "i < length (tbl_rows t)" "?p (tbl_rows t ! i) = Some True" for i
    proof -
      from i obtain v where "eval_expr E (tbl_rows t ! i) (tbl_col_index t) e = pok v" "is_truthy v"
        by (auto simp: keeps_row_true)
      then have "\<forall>cv \<in> set ?cs. holds t (tbl_rows t ! i) cv" using conjuncts_hold [OF wc pl] by blast
      then have "pk_key t (tbl_rows t ! i) = pk_key t kr"
        using safe by (intro pinned_row_key [OF wc typed_row [OF ty] kr n ne]) (auto simp: i pk_safe_def)
      then show ?thesis using i k reg by simp
    qed
    let ?is = "case tbl_pk_row_index t k of Some i \<Rightarrow> [i] | None \<Rightarrow> []"
    have v: "\<forall>i \<in> set ?is. i < length (tbl_rows t)"
    proof (cases "tbl_pk_row_index t k")
      case (Some i)
      then have "i < length (tbl_rows t)" using reg by blast
      with Some show ?thesis by simp
    qed simp
    have t: "try_pk_index ?U (Some e) t = found_rows t ?is"
      using kr k n ne by (auto simp: try_pk_index_def Let_def found_rows_def rows_at_def split: option.splits)
    have d: "distinct ?is" by (simp split: option.split)
    have "i \<in> set ?is" if "i < length (tbl_rows t)" "?p (tbl_rows t ! i) = Some True" for i
      using key [OF that] by simp
    from candidates_exact [OF scan [unfolded scan_rows_def] d v this] obtain zs where
      zs: "filter_rows ?p (map ((!) (tbl_rows t)) ?is) = Some zs" "mset zs = mset ys" by blast
    have "length zs \<le> 1" using zs(1) by (auto simp: filter_rows_iff split: option.splits)
    with zs(2) have "zs = ys" by (rule at_most_one)
    moreover have "rows_at t ?is = Some (map ((!) (tbl_rows t)) ?is)" using v by (simp add: rows_at_iff)
    ultimately show ?thesis using t zs by (auto simp: found_rows_def)
  qed
qed

section \<open>The cells a path depends on\<close>

definition column_cells :: "table \<Rightarrow> rstr \<Rightarrow> db_value set" where
  "column_cells t c = {r ! ci | r ci. r \<in> set (tbl_rows t) \<and> tbl_col_index t c = Some ci}"

text \<open>An equality probe is exact for a cell of the literal's own type, floats apart.\<close>

fun eq_exact :: "db_value \<Rightarrow> db_value \<Rightarrow> bool" where
  "eq_exact DNull _ = True"
| "eq_exact (DInt _) (DInt _) = True"
| "eq_exact (DString _) (DString _) = True"
| "eq_exact (DBool _) (DBool _) = True"
| "eq_exact _ _ = False"

lemma eq_exact_key:
  "eq_exact x v \<Longrightarrow> values_equal x v \<or> values_equal v x \<Longrightarrow> encode_key x = encode_key v"
  by (induction x v rule: eq_exact.induct) (auto simp: values_equal_def)

text \<open>LIKE is exact over string cells when lower-casing keeps the searched run a part.\<close>

definition like_safe :: "unicode \<Rightarrow> table \<Rightarrow> sql_expr \<Rightarrow> sql_expr \<Rightarrow> bool" where
  "like_safe U t a p \<longleftrightarrow>
     (\<forall>c pat. column_ident U a = Some c \<longrightarrow> pattern_literal p = Some pat \<longrightarrow>
        rust_str pat \<and>
        (\<forall>x \<in> column_cells t c. \<exists>s. x = DString s \<and> rust_str s \<and>
           (\<forall>run. longest_literal_run pat = Some run \<longrightarrow> contains_sub s run \<longrightarrow>
              contains_sub (to_lowercase U s) (to_lowercase U run))))"

definition btree_safe :: "unicode \<Rightarrow> table \<Rightarrow> sql_expr \<Rightarrow> bool" where
  "btree_safe U t e \<longleftrightarrow>
     (case strip_nested e of
        BinaryOp l opr r \<Rightarrow>
          (\<forall>c v. eq_literal U l r = Some (c, v) \<longrightarrow> (\<forall>x \<in> column_cells t c.
             if opr = OpEq then eq_exact x v else x = DNull \<or> key_ordered x v))
      | Between a l h neg \<Rightarrow>
          (\<forall>c lo hi. column_ident U a = Some c \<longrightarrow> bound_literal l = Some lo \<longrightarrow> bound_literal h = Some hi \<longrightarrow>
             (\<forall>x \<in> column_cells t c. key_ordered x lo \<and> key_ordered x hi))
      | Like neg a p esc \<Rightarrow> like_safe U t a p
      | _ \<Rightarrow> True)"

definition trigram_safe :: "unicode \<Rightarrow> table \<Rightarrow> sql_expr \<Rightarrow> bool" where
  "trigram_safe U t e \<longleftrightarrow>
     (case e of
        Function nm _ _ \<Rightarrow> to_lowercase U nm \<noteq> ''fuzzy_match''
      | Like neg a p esc \<Rightarrow> like_safe U t a p
      | _ \<Rightarrow> True)"

section \<open>Paths\<close>

text \<open>A path is exact when it does not panic and its checked candidates are the scan's rows.\<close>

definition exact_path :: "(row \<Rightarrow> bool panicking) \<Rightarrow> row list \<Rightarrow> row list lookup \<Rightarrow> bool" where
  "exact_path p ys lk \<longleftrightarrow>
     (\<exists>l. lk = Some l \<and> (\<forall>cs. l = Some cs \<longrightarrow> (\<exists>zs. filter_rows p cs = Some zs \<and> mset zs = mset ys)))"

lemma exact_fall_back [simp]: "exact_path p ys fall_back"
  by (simp add: exact_path_def)

lemma exact_found:
  assumes "filter_rows p (tbl_rows t) = Some ys" and "distinct is" and "\<forall>i \<in> set is. i < length (tbl_rows t)"
    and "\<And>i. i < length (tbl_rows t) \<Longrightarrow> p (tbl_rows t ! i) = Some True \<Longrightarrow> i \<in> set is"
  shows "exact_path p ys (found_rows t is)"
proof -
  have "rows_at t is = Some (map ((!) (tbl_rows t)) is)" using assms(3) by (simp add: rows_at_iff)
  then show ?thesis using candidates_exact [OF assms] by (simp add: exact_path_def found_rows_def)
qed

lemma exact_lbind:
  assumes "lk \<noteq> None" and "\<And>x. lk = found x \<Longrightarrow> exact_path p ys (f x)"
  shows "exact_path p ys (lbind lk f)"
  using assms by (cases lk; cases "the lk") auto

section \<open>Indexes of a well-formed table\<close>

lemma index_column:
  assumes "wf_table U t" and "mi \<in> set (tbl_indices t)"
  shows "impl_matches (fst mi) (snd mi) \<and>
    (\<exists>ci. tbl_col_index t (ix_column (fst mi)) = Some ci \<and>
       impl_represents U (snd mi) (map (\<lambda>r. r ! ci) (tbl_rows t)))"
  using assms by (auto simp: wf_table_def index_ok_def)

lemma btree_on_column:
  assumes "wf_table U t" and "btree_on c (tbl_indices t) = Some ix"
  shows "\<exists>ci. tbl_col_index t c = Some ci \<and> represents bt_ok bt_posts bt_keys ix (map (\<lambda>r. r ! ci) (tbl_rows t))"
  using btree_on_ok [OF _ assms(2)] assms(1) by (auto simp: wf_table_def)

lemma find_index_in:
  "find_index c ty t = Some ix \<Longrightarrow> \<exists>m. (m, ix) \<in> set (tbl_indices t) \<and> ix_column m = c \<and> ix_type m = ty"
proof -
  assume "find_index c ty t = Some ix"
  then obtain mi where mi: "List.find (\<lambda>mi. ix_column (fst mi) = c \<and> ix_type (fst mi) = ty) (tbl_indices t) = Some mi"
    and ix: "ix = snd mi" by (auto simp: find_index_def)
  from mi have "mi \<in> set (tbl_indices t) \<and> ix_column (fst mi) = c \<and> ix_type (fst mi) = ty"
    by (auto simp: find_Some_iff)
  with ix show ?thesis by (intro exI [of _ "fst mi"]) simp
qed

lemma find_index_represents:
  assumes "wf_table U t" and "find_index c ty t = Some ix"
  shows "(ty = KBTree \<longleftrightarrow> (\<exists>b. ix = IBTree b)) \<and>
    (\<exists>ci. tbl_col_index t c = Some ci \<and> impl_represents U ix (map (\<lambda>r. r ! ci) (tbl_rows t)))"
proof -
  from find_index_in [OF assms(2)] obtain m where "(m, ix) \<in> set (tbl_indices t)" "ix_column m = c" "ix_type m = ty"
    by blast
  with index_column [OF assms(1) this(1)] show ?thesis by (cases ix) auto
qed

lemma cell_in_column:
  "i < length (tbl_rows t) \<Longrightarrow> tbl_col_index t c = Some ci \<Longrightarrow> tbl_rows t ! i ! ci \<in> column_cells t c"
  by (auto simp: column_cells_def)

text \<open>What a column reference evaluates to.\<close>

lemma column_ident_eval:
  assumes "wf_columns t" and "plain_columns t" and "tbl_col_index t c = Some ci"
  shows "column_ident (env_unicode E) a = Some c \<Longrightarrow> eval_expr E r (tbl_col_index t) a = cell r ci"
proof (induction "env_unicode E" a rule: column_ident.induct)
  case (1 i)
  then show ?case using eval_column [OF assms(1,2)] assms(3) by (simp del: eval_expr.simps)
qed simp_all

lemma cell_pok: "cell r ci = pok x \<longleftrightarrow> ci < length r \<and> x = r ! ci"
  by (auto simp: cell_def)

lemma bound_literal_eval: "bound_literal e = Some v \<Longrightarrow> eval_expr E r m e = pok v"
  by (induction e rule: bound_literal.induct) simp_all

lemma ident_of_iff: "ident_of e = Some i \<longleftrightarrow> e = Identifier i"
  by (simp add: ident_of_def split: sql_expr.split)

lemma value_of_iff: "value_of e = Some v \<longleftrightarrow> e = Value v"
  by (simp add: value_of_def split: sql_expr.split)

lemma destructor_simps [simp]:
  "ident_of (Identifier i) = Some i" "ident_of (Value v) = None"
  "value_of (Value v) = Some v" "value_of (Identifier i) = None"
  by (simp_all add: ident_of_def value_of_def)

text \<open>A kept comparison of a column with a literal.\<close>

lemma eq_literal_cases:
  assumes "eq_literal U l r = Some (c, v)"
  obtains (right) i sv where "l = Identifier i" "r = Value sv" "c = to_lowercase U i" "v = sql_val_to_db sv"
    | (left) i sv where "l = Value sv" "r = Identifier i" "c = to_lowercase U i" "v = sql_val_to_db sv"
  using assms by (auto simp: eq_literal_def ident_of_iff value_of_iff split: option.splits)

text \<open>The two orders of a comparison of a column with a literal.\<close>

lemma literal_sides:
  assumes "wf_columns t" and "plain_columns t" and "tbl_col_index t (to_lowercase (env_unicode E) i) = Some ci"
    and "eval_expr E r (tbl_col_index t) (Identifier i) = pok x"
    and "eval_expr E r (tbl_col_index t) (Value sv) = pok y"
  shows "ci < length r \<and> x = r ! ci \<and> y = sql_val_to_db sv"
proof -
  have "cell r ci = pok x" using eval_column [OF assms(1-3), of r] assms(4) by (simp only:)
  then show ?thesis using assms(5) by (simp add: cell_pok)
qed

lemma eq_literal_values:
  assumes "wf_columns t" and "plain_columns t" and q: "eq_literal (env_unicode E) l r = Some (c, v)"
    and ci: "tbl_col_index t c = Some ci"
    and a: "eval_expr E row (tbl_col_index t) l = pok a" and b: "eval_expr E row (tbl_col_index t) r = pok b"
  shows "(a = row ! ci \<and> b = v) \<or> (a = v \<and> b = row ! ci)"
  using q
proof (cases rule: eq_literal_cases)
  case (right i sv)
  then show ?thesis using literal_sides [OF assms(1,2), of E i ci row a sv b] ci a b by simp
next
  case (left i sv)
  then show ?thesis using literal_sides [OF assms(1,2), of E i ci row b sv a] ci a b by simp
qed

lemma strip_eval: "eval_expr E r m (strip_nested e) = eval_expr E r m e"
  by (induction e rule: strip_nested.induct) simp_all

lemma eq_path_exact:
  assumes wf: "wf_table (env_unicode E) t" and pl: "plain_columns t"
    and scan: "scan_rows E (Some e) t = Some ys" and e: "strip_nested e = BinaryOp l OpEq r"
    and safe: "btree_safe (env_unicode E) t e"
  shows "exact_path (keeps_row E (tbl_col_index t) (Some e)) ys (btree_eq (env_unicode E) l r t)"
proof (cases "eq_literal (env_unicode E) l r")
  case (Some cv)
  obtain c v where cv: "cv = (c, v)" by (cases cv)
  show ?thesis
  proof (cases "btree_on c (tbl_indices t)")
    case ix: (Some ix)
    from btree_on_column [OF wf ix] obtain ci where ci: "tbl_col_index t c = Some ci"
      and rep: "represents bt_ok bt_posts bt_keys ix (map (\<lambda>r. r ! ci) (tbl_rows t))" by blast
    have wc: "wf_columns t" using wf by (simp add: wf_table_def)
    note post = postings_represented [OF rep, of "encode_key v"]
    have "i \<in> set (postings ix (encode_key v))"
      if i: "i < length (tbl_rows t)" and k: "keeps_row E (tbl_col_index t) (Some e) (tbl_rows t ! i) = Some True" for i
    proof -
      let ?r = "tbl_rows t ! i"
      from k obtain y where y: "eval_expr E ?r (tbl_col_index t) e = pok y" "is_truthy y"
        by (auto simp: keeps_row_true)
      then have "eval_expr E ?r (tbl_col_index t) (BinaryOp l OpEq r) = pok y"
        using strip_eval [of E ?r "tbl_col_index t" e] e by simp
      then obtain a b where ab: "eval_expr E ?r (tbl_col_index t) l = pok a" "eval_expr E ?r (tbl_col_index t) r = pok b"
        "values_equal a b" using y(2) by (auto simp: pbind_Inr_iff)
      have "values_equal (?r ! ci) v \<or> values_equal v (?r ! ci)"
        using eq_literal_values [OF wc pl Some [unfolded cv] ci ab(1,2)] ab(3) by auto
      moreover have "eq_exact (?r ! ci) v"
        using safe e Some cv cell_in_column [OF i ci] by (simp add: btree_safe_def)
      ultimately show ?thesis using eq_exact_key i post by simp
    qed
    then have "exact_path (keeps_row E (tbl_col_index t) (Some e)) ys (found_rows t (postings ix (encode_key v)))"
      using scan post by (intro exact_found) (auto simp: scan_rows_def)
    then show ?thesis using Some cv ix by (simp add: btree_eq_def btree_lookup_def bt_lookup_def)
  qed (use Some cv in \<open>simp add: btree_eq_def btree_lookup_def\<close>)
qed (simp add: btree_eq_def)


text \<open>A range holds the key of a cell.\<close>

definition in_range :: "key_range \<Rightarrow> db_value \<Rightarrow> bool" where
  "in_range kr x = (case kr of (c, lo, hi) \<Rightarrow> above lo (encode_key x) \<and> below hi (encode_key x))"

definition range_of :: "key_range \<Rightarrow> rstr" where
  "range_of kr = fst kr"

lemma cmp_iff:
  "cmp a b = Less \<longleftrightarrow> a < b" "cmp a b = Greater \<longleftrightarrow> b < a" "cmp a b = Equal \<longleftrightarrow> a = b"
  by (auto simp: cmp_def)

lemma cmp_bounds_sound:
  assumes "cmp_bounds c opr (encode_key v) = found kr" and "key_ordered x v"
    and "apply_binary_op U x opr v = pok y" and "is_truthy y"
  shows "fst kr = c \<and> in_range kr x"
proof -
  have n: "x \<noteq> DNull" "v \<noteq> DNull" using assms(2) by (auto elim: key_ordered.elims)
  have k: "db_value_cmp x v = cmp (encode_key x) (encode_key v)" using key_ordered_cmp [OF assms(2)] by simp
  show ?thesis
    using assms(1,3,4) n unfolding cmp_bounds_def
    by (cases opr) (auto simp: cmp_values_def in_range_def k cmp_iff cmp_def split: if_splits)
qed

lemma flip_cmp_op:
  assumes "flip_cmp opr = Some opr'" and "apply_binary_op U v opr x = pok y" and "is_truthy y"
  shows "\<exists>z. apply_binary_op U x opr' v = pok z \<and> is_truthy z"
  using assms
  by (cases opr; cases "db_value_cmp x v") (auto simp: cmp_values_def db_value_cmp_reverse [of v x] split: if_splits)

lemma key_ordered_type: "key_ordered x v \<Longrightarrow> has_type ty x \<Longrightarrow> has_type ty v \<and> v \<noteq> DNull"
  by (induction x v rule: key_ordered.induct; cases ty) simp_all

lemma coerce_bound_same:
  assumes "wf_columns t" and "tbl_col_index t c = Some ci" and "row_ok (tbl_columns t) r"
    and "key_ordered (r ! ci) v"
  shows "coerce_bound v t c = found v"
proof -
  have l: "ci < length (tbl_columns t)" using wf_columns_less [OF assms(1,2)] .
  then have "has_type (col_dtype (tbl_columns t ! ci)) (r ! ci)"
    using assms(3) by (auto simp: row_ok_def list_all2_conv_all_nth)
  then show ?thesis using key_ordered_type [OF assms(4)] l assms(2) by (simp add: coerce_bound_def Let_def)
qed

lemma coerce_bound_defined: "wf_columns t \<Longrightarrow> coerce_bound v t c \<noteq> None"
  using wf_columns_less [of t c]
  by (auto simp: coerce_bound_def Let_def split: option.split column_type.split db_value.split if_splits)

text \<open>Whatever range is tried, every kept row of a safe clause is in it.\<close>

definition range_sound :: "eval_env \<Rightarrow> table \<Rightarrow> sql_expr \<Rightarrow> key_range lookup \<Rightarrow> bool" where
  "range_sound E t e lk \<longleftrightarrow>
     lk \<noteq> None \<and>
     (\<forall>kr r y ci. lk = found kr \<longrightarrow> r \<in> set (tbl_rows t) \<longrightarrow> eval_expr E r (tbl_col_index t) e = pok y \<longrightarrow>
        is_truthy y \<longrightarrow> tbl_col_index t (fst kr) = Some ci \<longrightarrow> in_range kr (r ! ci))"

lemma range_sound_fall_back [simp]: "range_sound E t e fall_back"
  by (simp add: range_sound_def)

lemma cmp_range_sound:
  assumes wc: "wf_columns t" and ty: "typed_table t"
    and safe: "\<forall>x \<in> column_cells t c. x = DNull \<or> key_ordered x (sql_val_to_db sv)"
    and holds: "\<And>r y ci. r \<in> set (tbl_rows t) \<Longrightarrow> eval_expr E r (tbl_col_index t) e = pok y \<Longrightarrow> is_truthy y \<Longrightarrow>
       tbl_col_index t c = Some ci \<Longrightarrow>
       \<exists>z. apply_binary_op (env_unicode E) (r ! ci) opr (sql_val_to_db sv) = pok z \<and> is_truthy z"
  shows "range_sound E t e (cmp_range t c opr sv)"
proof -
  have "in_range kr (r ! ci)"
    if kr: "cmp_range t c opr sv = found kr" and r: "r \<in> set (tbl_rows t)"
      and y: "eval_expr E r (tbl_col_index t) e = pok y" "is_truthy y" and ci: "tbl_col_index t (fst kr) = Some ci"
    for kr r y ci
  proof -
    let ?v = "sql_val_to_db sv"
    from kr obtain b where b: "coerce_bound ?v t c = found b" "cmp_bounds c opr (encode_key b) = found kr"
      and nn: "?v \<noteq> DNull" by (auto simp: cmp_range_def lbind_found split: if_splits)
    have c: "fst kr = c" using b(2) by (cases opr) (auto simp: cmp_bounds_def)
    from holds [OF r y] ci c obtain z where z: "apply_binary_op (env_unicode E) (r ! ci) opr ?v = pok z" "is_truthy z"
      by auto
    have "r ! ci \<noteq> DNull"
    proof
      assume "r ! ci = DNull"
      with z b(2) show False by (cases opr) (auto simp: cmp_bounds_def cmp_values_def)
    qed
    moreover have "r ! ci \<in> column_cells t c" using r ci c by (auto simp: column_cells_def)
    ultimately have k: "key_ordered (r ! ci) ?v" using safe by blast
    have "b = ?v" using coerce_bound_same [OF wc _ typed_row [OF ty r] k, of c] ci c b(1) by simp
    then show ?thesis using cmp_bounds_sound [OF _ k z] b(2) by simp
  qed
  moreover have "cmp_range t c opr sv \<noteq> None"
    using coerce_bound_defined [OF wc, of "sql_val_to_db sv" c]
    by (auto simp: cmp_range_def lbind_def cmp_bounds_def split: option.splits bin_op.splits)
  ultimately show ?thesis by (auto simp: range_sound_def)
qed

lemma eq_literal_ident_value:
  "ident_of l = Some i \<Longrightarrow> value_of r = Some sv \<Longrightarrow> eq_literal U l r = Some (to_lowercase U i, sql_val_to_db sv)"
  "value_of l = Some sv \<Longrightarrow> ident_of r = Some i \<Longrightarrow> eq_literal U l r = Some (to_lowercase U i, sql_val_to_db sv)"
  by (auto simp: eq_literal_def ident_of_iff value_of_iff)

lemma comparison_range_cases:
  "ident_of l = Some i \<Longrightarrow> value_of r = Some sv \<Longrightarrow>
     comparison_range U t l opr r = cmp_range t (to_lowercase U i) opr sv"
  "value_of l = Some sv \<Longrightarrow> ident_of r = Some i \<Longrightarrow>
     comparison_range U t l opr r =
       (case flip_cmp opr of None \<Rightarrow> fall_back | Some opr' \<Rightarrow> cmp_range t (to_lowercase U i) opr' sv)"
  by (auto simp: comparison_range_def ident_of_iff value_of_iff)

lemma comparison_range_sound:
  assumes wc: "wf_columns t" and ty: "typed_table t" and pl: "plain_columns t"
    and safe: "\<forall>c v. eq_literal (env_unicode E) l r = Some (c, v) \<longrightarrow>
      (\<forall>x \<in> column_cells t c. x = DNull \<or> key_ordered x v)"
  shows "range_sound E t (BinaryOp l opr r) (comparison_range (env_unicode E) t l opr r)"
proof -
  let ?U = "env_unicode E" and ?m = "tbl_col_index t"
  consider (right) i sv where "ident_of l = Some i" "value_of r = Some sv"
    | (left) sv i where "value_of l = Some sv" "ident_of r = Some i"
    | (none) "comparison_range ?U t l opr r = fall_back"
    by (cases "ident_of l"; cases "value_of r"; cases "value_of l"; cases "ident_of r")
      (auto simp: comparison_range_def ident_of_iff value_of_iff)
  then show ?thesis
  proof cases
    case right
    have "range_sound E t (BinaryOp l opr r) (cmp_range t (to_lowercase ?U i) opr sv)"
    proof (rule cmp_range_sound [OF wc ty])
      fix row y ci assume y: "eval_expr E row ?m (BinaryOp l opr r) = pok y" "is_truthy y"
        and ci: "?m (to_lowercase ?U i) = Some ci"
      from y obtain a b where ab: "eval_expr E row ?m l = pok a" "eval_expr E row ?m r = pok b"
        "apply_binary_op ?U a opr b = pok y" by (auto simp: pbind_Inr_iff)
      have "a = row ! ci \<and> b = sql_val_to_db sv"
        using literal_sides [OF wc pl ci] ab right by (simp only: ident_of_iff value_of_iff)
      with ab(3) y(2) show "\<exists>z. apply_binary_op ?U (row ! ci) opr (sql_val_to_db sv) = pok z \<and> is_truthy z" by blast
    qed (use safe eq_literal_ident_value(1) [OF right] in blast)
    then show ?thesis by (simp only: comparison_range_cases(1) [OF right])
  next
    case left
    show ?thesis
    proof (cases "flip_cmp opr")
      case (Some opr')
      have "range_sound E t (BinaryOp l opr r) (cmp_range t (to_lowercase ?U i) opr' sv)"
      proof (rule cmp_range_sound [OF wc ty])
        fix row y ci assume y: "eval_expr E row ?m (BinaryOp l opr r) = pok y" "is_truthy y"
          and ci: "?m (to_lowercase ?U i) = Some ci"
        from y obtain a b where ab: "eval_expr E row ?m l = pok a" "eval_expr E row ?m r = pok b"
          "apply_binary_op ?U a opr b = pok y" by (auto simp: pbind_Inr_iff)
        have "b = row ! ci \<and> a = sql_val_to_db sv"
          using literal_sides [OF wc pl ci] ab left by (simp only: ident_of_iff value_of_iff)
        with ab(3) y(2) flip_cmp_op [OF Some]
        show "\<exists>z. apply_binary_op ?U (row ! ci) opr' (sql_val_to_db sv) = pok z \<and> is_truthy z" by blast
      qed (use safe eq_literal_ident_value(2) [OF left] in blast)
      then show ?thesis by (simp add: comparison_range_cases(2) [OF left] Some)
    qed (simp add: comparison_range_cases(2) [OF left])
  qed simp
qed

lemma between_range_sound:
  assumes wc: "wf_columns t" and ty: "typed_table t" and pl: "plain_columns t"
    and a: "column_ident (env_unicode E) a = Some c" and l: "bound_literal l = Some lo" and h: "bound_literal h = Some hi"
    and safe: "\<forall>x \<in> column_cells t c. key_ordered x lo \<and> key_ordered x hi"
  shows "range_sound E t (Between a l h False) (between_range t c lo hi)"
proof -
  let ?m = "tbl_col_index t"
  have "in_range kr (r ! ci)"
    if kr: "between_range t c lo hi = found kr" and r: "r \<in> set (tbl_rows t)"
      and y: "eval_expr E r ?m (Between a l h False) = pok y" "is_truthy y" and ci: "?m (fst kr) = Some ci"
    for kr r y ci
  proof -
    from kr obtain b b' where b: "coerce_bound lo t c = found b" "coerce_bound hi t c = found b'"
      and e: "kr = (c, Included (encode_key b), Included (encode_key b'))"
      by (auto simp: between_range_def lbind_found split: if_splits)
    have ci: "?m c = Some ci" using ci e by simp
    have x: "r ! ci \<in> column_cells t c" using r ci by (auto simp: column_cells_def)
    then have k: "key_ordered (r ! ci) lo" "key_ordered (r ! ci) hi" using safe by auto
    have "b = lo" "b' = hi"
      using coerce_bound_same [OF wc ci typed_row [OF ty r]] k b by simp_all
    moreover have "db_value_cmp (r ! ci) lo \<noteq> Less \<and> db_value_cmp (r ! ci) hi \<noteq> Greater"
      using y column_ident_eval [OF wc pl ci a, of r] bound_literal_eval [OF l] bound_literal_eval [OF h]
      by (auto simp: pbind_Inr_iff negate_if_def cell_pok)
    ultimately show ?thesis
      using key_ordered_cmp [OF k(1)] key_ordered_cmp [OF k(2)] by (auto simp: in_range_def e cmp_def split: if_splits)
  qed
  moreover have "between_range t c lo hi \<noteq> None"
    using coerce_bound_defined [OF wc, of lo c] coerce_bound_defined [OF wc, of hi c]
    by (auto simp: between_range_def lbind_def split: option.splits)
  ultimately show ?thesis by (auto simp: range_sound_def)
qed

lemma prefix_range_sound:
  assumes wc: "wf_columns t" and pl: "plain_columns t"
    and a: "column_ident (env_unicode E) a = Some c" and p: "pattern_literal p = Some pat"
    and safe: "like_safe (env_unicode E) t a p"
  shows "range_sound E t (Like False a p None) (prefix_range t c pat)"
proof -
  let ?m = "tbl_col_index t"
  have pv: "eval_expr E r m p = pok (DString pat)" for r m
    using p by (auto simp: pattern_literal_def value_of_iff split: option.splits db_value.splits)
  have "in_range kr (r ! ci)"
    if kr: "prefix_range t c pat = found kr" and r: "r \<in> set (tbl_rows t)"
      and y: "eval_expr E r ?m (Like False a p None) = pok y" "is_truthy y" and ci: "?m (fst kr) = Some ci"
    for kr r y ci
  proof -
    from kr obtain pre up where pre: "literal_prefix pat = Some pre"
      and up: "increment_last_byte (encode_key (DString pre)) = Some up"
      and e: "kr = (c, Included (encode_key (DString pre)), Excluded up)"
      by (auto simp: prefix_range_def split: option.splits if_splits)
    have ci: "?m c = Some ci" using ci e by simp
    have "r ! ci \<in> column_cells t c" using r ci by (auto simp: column_cells_def)
    then obtain s where s: "r ! ci = DString s" "rust_str s" and pat: "rust_str pat"
      using safe a p by (auto simp: like_safe_def)
    have "simple_like s pat"
      using y column_ident_eval [OF wc pl ci a, of r] pv s(1) by (auto simp: pbind_Inr_iff negate_if_def cell_pok)
    then obtain rest where rest: "s = pre @ rest" using like_prefix [OF pat s(2) _ pre] by blast
    have "pre \<noteq> []" "set pre \<subseteq> set pat"
      using pre by (auto simp: literal_prefix_def Let_def dest: in_set_butlastD split: if_splits)
    moreover have "\<forall>x \<in> set pat. (of_char x :: nat) < 255"
      using rust_strD [OF pat] utf8_bytes_less [of "chars pat"] by auto
    ultimately show ?thesis
      using prefix_in_range [OF _ _ up, of rest] s(1) rest by (auto simp: in_range_def e)
  qed
  moreover have "prefix_range t c pat \<noteq> None"
    using wf_columns_less [OF wc] by (fastforce simp: prefix_range_def split: option.splits)
  ultimately show ?thesis by (auto simp: range_sound_def)
qed

lemma range_path_exact:
  assumes wf: "wf_table (env_unicode E) t" and ty: "typed_table t" and pl: "plain_columns t"
    and scan: "scan_rows E (Some e) t = Some ys"
    and sound: "range_sound E t (strip_nested e) (range_bounds (env_unicode E) (strip_nested e) t)"
    and np: "\<And>c lo hi. range_bounds (env_unicode E) (strip_nested e) t = found (c, lo, hi) \<Longrightarrow> \<not> range_panics lo hi"
  shows "exact_path (keeps_row E (tbl_col_index t) (Some e)) ys (btree_range (env_unicode E) (strip_nested e) t)"
  unfolding btree_range_def
proof (rule exact_lbind)
  show "range_bounds (env_unicode E) (strip_nested e) t \<noteq> None" using sound by (simp add: range_sound_def)
next
  fix kr assume kr: "range_bounds (env_unicode E) (strip_nested e) t = found kr"
  obtain c lo hi where k: "kr = (c, lo, hi)" by (cases kr)
  let ?p = "keeps_row E (tbl_col_index t) (Some e)"
  have "exact_path ?p ys (case bt_range lo hi ix of
          None \<Rightarrow> None | Some is \<Rightarrow> (if row_count t \<le> length is then fall_back else found_rows t is))"
    if f: "find_index c KBTree t = Some (IBTree ix)" for ix
  proof -
    from find_index_represents [OF wf f] obtain ci where ci: "tbl_col_index t c = Some ci"
      and rep: "represents bt_ok bt_posts bt_keys ix (map (\<lambda>r. r ! ci) (tbl_rows t))" by auto
    obtain "is" where l: "bt_range lo hi ix = Some is"
      using np kr k by (cases "bt_range lo hi ix") (auto simp: bt_range_def split: if_splits)
    note r = bt_range_represented [OF rep l]
    have "i \<in> set is" if i: "i < length (tbl_rows t)" "?p (tbl_rows t ! i) = Some True" for i
    proof -
      from i(2) obtain y where y: "eval_expr E (tbl_rows t ! i) (tbl_col_index t) (strip_nested e) = pok y" "is_truthy y"
        by (auto simp: keeps_row_true strip_eval)
      have "in_range kr (tbl_rows t ! i ! ci)"
        using sound kr y ci k nth_mem [OF i(1)] unfolding range_sound_def by (metis fst_conv)
      then show ?thesis using r i(1) by (simp add: in_range_def k)
    qed
    then have "exact_path ?p ys (found_rows t is)"
      using scan r by (intro exact_found) (auto simp: scan_rows_def)
    with l show ?thesis by simp
  qed
  moreover have "find_index c KBTree t = Some ix \<Longrightarrow> \<exists>b. ix = IBTree b" for ix
    using find_index_represents [OF wf] by blast
  ultimately show "exact_path ?p ys (case kr of (c, lo, hi) \<Rightarrow>
       case find_index c KBTree t of
         Some (IBTree ix) \<Rightarrow>
           (case bt_range lo hi ix of
              None \<Rightarrow> None
            | Some is \<Rightarrow> (if row_count t \<le> length is then fall_back else found_rows t is))
       | _ \<Rightarrow> fall_back)"
    by (auto simp: k split: option.split index_impl.split)
qed

text \<open>No range that is tried is inverted, so \<open>BTreeMap::range\<close> does not panic.\<close>

lemma increment_less: "increment_last_byte s = Some up \<Longrightarrow> \<forall>x \<in> set s. (of_char x :: nat) < 255 \<Longrightarrow> s < up"
proof -
  assume up: "increment_last_byte s = Some up" and b: "\<forall>x \<in> set s. (of_char x :: nat) < 255"
  then have "s \<noteq> []" by (auto simp: increment_last_byte_def)
  then obtain q a where q: "s = q @ [a]" by (metis append_butlast_last_id)
  have "(of_char a :: nat) < 255" using b by (simp add: q)
  then have "a < char_of ((of_char a + 1) mod 256 :: nat)" by (simp add: less_char_def)
  moreover have "up = q @ [char_of ((of_char a + 1) mod 256 :: nat)]"
    using up by (auto simp: increment_last_byte_def q Let_def split: if_splits)
  ultimately show ?thesis by (simp add: q common_prefix_less)
qed

lemma prefix_no_panic:
  assumes "prefix_range t c pat = found (c', lo, hi)" and "\<forall>x \<in> set pat. (of_char x :: nat) < 255"
  shows "\<not> range_panics lo hi"
proof -
  from assms(1) obtain pre up where pre: "literal_prefix pat = Some pre"
    and up: "increment_last_byte (encode_key (DString pre)) = Some up"
    and e: "lo = Included (encode_key (DString pre))" "hi = Excluded up"
    by (auto simp: prefix_range_def split: option.splits if_splits)
  have "set pre \<subseteq> set pat"
    using pre by (auto simp: literal_prefix_def Let_def dest: in_set_butlastD split: if_splits)
  then have "\<forall>x \<in> set (encode_key (DString pre)). (of_char x :: nat) < 255" using assms(2) by auto
  from increment_less [OF up this] show ?thesis by (simp add: e less_imp_le)
qed

lemma cmp_no_panic: "cmp_range t c opr sv = found (c', lo, hi) \<Longrightarrow> \<not> range_panics lo hi"
  by (cases opr) (auto simp: cmp_range_def lbind_found cmp_bounds_def split: if_splits)

lemma comparison_no_panic: "comparison_range U t l opr r = found (c', lo, hi) \<Longrightarrow> \<not> range_panics lo hi"
  by (auto simp: comparison_range_def split: option.splits dest: cmp_no_panic)

lemma between_no_panic: "between_range t c l h = found (c', lo, hi) \<Longrightarrow> \<not> range_panics lo hi"
  by (auto simp: between_range_def lbind_found split: if_splits)

lemma btree_path_exact:
  assumes wf: "wf_table (env_unicode E) t" and ty: "typed_table t" and pl: "plain_columns t"
    and scan: "scan_rows E (Some e) t = Some ys" and safe: "btree_safe (env_unicode E) t e"
  shows "exact_path (keeps_row E (tbl_col_index t) (Some e)) ys (try_btree_index (env_unicode E) (Some e) t)"
proof -
  let ?U = "env_unicode E" and ?p = "keeps_row E (tbl_col_index t) (Some e)"
  have wc: "wf_columns t" using wf by (simp add: wf_table_def)
  show ?thesis
  proof (cases "\<exists>l r. strip_nested e = BinaryOp l OpEq r")
    case True
    then show ?thesis using eq_path_exact [OF wf pl scan _ safe] by (auto simp: try_btree_index_def)
  next
    case False
    have "try_btree_index ?U (Some e) t = btree_range ?U (strip_nested e) t"
      using False by (auto simp: try_btree_index_def split: sql_expr.split)
    moreover have "exact_path ?p ys (btree_range ?U (strip_nested e) t)"
    proof (cases "\<exists>l opr r. strip_nested e = BinaryOp l opr r")
      case True
      then obtain l opr r where e: "strip_nested e = BinaryOp l opr r" by blast
      then have "range_sound E t (strip_nested e) (range_bounds ?U (strip_nested e) t)"
        using False safe comparison_range_sound [OF wc ty pl, of E l r opr]
        by (simp add: range_bounds_def btree_safe_def)
      then show ?thesis
        by (rule range_path_exact [OF wf ty pl scan]) (auto simp: e range_bounds_def dest: comparison_no_panic)
    next
      case nb: False
      show ?thesis
      proof (cases "\<exists>a l h c lo hi. strip_nested e = Between a l h False \<and> column_ident ?U a = Some c \<and>
          bound_literal l = Some lo \<and> bound_literal h = Some hi")
        case True
        then obtain a l h c lo hi where e: "strip_nested e = Between a l h False"
          and b: "column_ident ?U a = Some c" "bound_literal l = Some lo" "bound_literal h = Some hi" by blast
        have "range_sound E t (strip_nested e) (range_bounds ?U (strip_nested e) t)"
          using safe between_range_sound [OF wc ty pl b] by (simp add: range_bounds_def btree_safe_def e b)
        then show ?thesis
          by (rule range_path_exact [OF wf ty pl scan]) (auto simp: e b range_bounds_def dest: between_no_panic)
      next
        case nbt: False
        show ?thesis
        proof (cases "\<exists>a p c pat. strip_nested e = Like False a p None \<and> column_ident ?U a = Some c \<and>
            pattern_literal p = Some pat")
          case True
          then obtain a p c pat where e: "strip_nested e = Like False a p None"
            and b: "column_ident ?U a = Some c" "pattern_literal p = Some pat" by blast
          have ls: "like_safe ?U t a p" using safe by (simp add: btree_safe_def e)
          then have "rust_str pat" using b by (simp add: like_safe_def)
          then have bytes: "\<forall>x \<in> set pat. (of_char x :: nat) < 255"
            using rust_strD utf8_bytes_less by metis
          have "range_sound E t (strip_nested e) (range_bounds ?U (strip_nested e) t)"
            using prefix_range_sound [OF wc pl b ls] by (simp add: range_bounds_def e b)
          then show ?thesis
            by (rule range_path_exact [OF wf ty pl scan])
              (auto simp: e b range_bounds_def dest: prefix_no_panic [OF _ bytes])
        next
          case False
          have "range_bounds ?U (strip_nested e) t = fall_back"
            using nb nbt False by (auto simp: range_bounds_def split: sql_expr.split bool.split option.split)
          then show ?thesis by (simp add: btree_range_def)
        qed
      qed
    qed
    ultimately show ?thesis by simp
  qed
qed

section \<open>The trigram path\<close>

lemma like_candidates_rows:
  assumes "represents tg_ok tg_postings (tg_keys U) ix vals" and "i \<in> tg_like_candidates U run ix"
  shows "i < length vals"
proof -
  have l: "3 \<le> length (to_lowercase U run)"
    using assms(2) by (auto simp: tg_like_candidates_def Let_def split: if_splits)
  from assms(2) obtain w l where "tg_map ix (from_utf8_lossy w) = Some l" "i \<in> l"
    unfolding like_candidates_iff [OF l] by blast
  then have "i \<in> tg_postings ix (from_utf8_lossy w)" by (simp add: tg_postings_def)
  then show ?thesis using assms(1) by (simp add: represents_def)
qed

lemma trigram_on_found:
  assumes "wf_table U t"
  shows "trigram_on c t \<noteq> None \<and> (\<forall>ix. trigram_on c t = found ix \<longrightarrow>
    (\<exists>ci. tbl_col_index t c = Some ci \<and> represents tg_ok tg_postings (tg_keys U) ix (map (\<lambda>r. r ! ci) (tbl_rows t))))"
proof (cases "find_index c KTrigram t")
  case (Some ix)
  from find_index_represents [OF assms this] show ?thesis
    by (cases ix) (auto simp: trigram_on_def Some)
qed (simp add: trigram_on_def)

lemma like_trigram_exact:
  assumes wf: "wf_table (env_unicode E) t" and pl: "plain_columns t"
    and scan: "scan_rows E (Some (Like False a p None)) t = Some ys"
    and a: "column_ident (env_unicode E) a = Some c" and p: "pattern_literal p = Some pat"
    and run: "longest_literal_run pat = Some run" and ix: "trigram_on c t = found ix"
    and ls: "like_safe (env_unicode E) t a p"
    and ne: "tg_like_candidates (env_unicode E) run ix \<noteq> {}"
    and visit: "\<And>X. finite X \<Longrightarrow> set (visit X) = X \<and> distinct (visit X)"
  shows "exact_path (keeps_row E (tbl_col_index t) (Some (Like False a p None))) ys
    (found_rows t (visit (tg_like_candidates (env_unicode E) run ix)))"
proof -
  let ?U = "env_unicode E" and ?p = "keeps_row E (tbl_col_index t) (Some (Like False a p None))"
  let ?is = "tg_like_candidates (env_unicode E) run ix"
  have wc: "wf_columns t" using wf by (simp add: wf_table_def)
  from trigram_on_found [OF wf, of c] ix obtain ci where ci: "tbl_col_index t c = Some ci"
    and rep: "represents tg_ok tg_postings (tg_keys ?U) ix (map (\<lambda>r. r ! ci) (tbl_rows t))" by blast
  have lt: "\<forall>i \<in> ?is. i < length (tbl_rows t)" using like_candidates_rows [OF rep] by auto
  then have "finite ?is" by (meson bounded_nat_set_is_finite)
  from visit [OF this] have v: "set (visit ?is) = ?is" "distinct (visit ?is)" by simp_all
  have len: "3 \<le> length (to_lowercase ?U run)"
    using ne by (auto simp: tg_like_candidates_def Let_def split: if_splits)
  have pv: "eval_expr E r m p = pok (DString pat)" for r m
    using p by (auto simp: pattern_literal_def value_of_iff split: option.splits db_value.splits)
  have "i \<in> ?is" if i: "i < length (tbl_rows t)" "?p (tbl_rows t ! i) = Some True" for i
  proof -
    let ?x = "tbl_rows t ! i ! ci"
    have "?x \<in> column_cells t c" using i(1) ci by (rule cell_in_column)
    then obtain s where s: "?x = DString s" "rust_str s"
      "contains_sub s run \<longrightarrow> contains_sub (to_lowercase ?U s) (to_lowercase ?U run)"
      using ls a p run by (auto simp: like_safe_def)
    have "simple_like s pat"
      using i(2) column_ident_eval [OF wc pl ci a, of "tbl_rows t ! i"] pv s(1)
      by (auto simp: keeps_row_true pbind_Inr_iff negate_if_def cell_pok)
    then have "contains_sub s run" using longest_run_contained [OF run _ s(2)] by blast
    then show ?thesis using like_candidates_sound [OF rep len, of i] i(1) s by simp
  qed
  then show ?thesis using scan v lt by (intro exact_found) (auto simp: scan_rows_def)
qed

lemma trigram_path_exact:
  assumes wf: "wf_table (env_unicode E) t" and pl: "plain_columns t"
    and scan: "scan_rows E (Some e) t = Some ys" and safe: "trigram_safe (env_unicode E) t e"
    and visit: "\<And>X. finite X \<Longrightarrow> set (visit X) = X \<and> distinct (visit X)"
  shows "exact_path (keeps_row E (tbl_col_index t) (Some e)) ys (try_trigram_index (env_unicode E) ord visit (Some e) t)"
proof (cases "\<exists>a p c pat run. e = Like False a p None \<and> column_ident (env_unicode E) a = Some c \<and>
    pattern_literal p = Some pat \<and> longest_literal_run pat = Some run")
  case True
  then obtain a p c pat run where e: "e = Like False a p None" and c: "column_ident (env_unicode E) a = Some c"
    "pattern_literal p = Some pat" "longest_literal_run pat = Some run" by blast
  have ls: "like_safe (env_unicode E) t a p" using safe by (simp add: trigram_safe_def e)
  show ?thesis
  proof (cases "trigram_on c t")
    case None
    then show ?thesis using trigram_on_found [OF wf, of c] by simp
  next
    case (Some o1)
    show ?thesis
    proof (cases o1)
      case ix: (Some ix)
      then show ?thesis
        using like_trigram_exact [OF wf pl scan [unfolded e] c _ ls _ visit, of ix] Some
        by (simp add: try_trigram_index_def trigram_candidates_def e c)
    qed (use Some in \<open>simp add: try_trigram_index_def trigram_candidates_def e c\<close>)
  qed
next
  case False
  have "trigram_candidates (env_unicode E) ord e t = fall_back"
    using False safe
    by (auto simp: trigram_candidates_def trigram_safe_def split: sql_expr.split bool.split option.split)
  then show ?thesis by (simp add: try_trigram_index_def)
qed

section \<open>The paths together\<close>

lemma where_rows_exact:
  assumes "wf_table (env_unicode E) t" and "typed_table t" and "plain_columns t"
    and "pk_safe (env_unicode E) t e" and "trigram_safe (env_unicode E) t e" and "btree_safe (env_unicode E) t e"
    and "\<And>X. finite X \<Longrightarrow> set (visit X) = X \<and> distinct (visit X)"
    and "scan_rows E (Some e) t = Some ys"
  shows "\<exists>zs. where_rows E ord visit (Some e) t = Some zs \<and> mset zs = mset ys"
proof -
  let ?p = "keeps_row E (tbl_col_index t) (Some e)" and ?U = "env_unicode E"
  from pk_path_exact [OF assms(1-4,8)] obtain l1 where l1: "try_pk_index ?U (Some e) t = Some l1"
    "\<forall>cs. l1 = Some cs \<longrightarrow> filter_rows ?p cs = Some ys" by blast
  from trigram_path_exact [OF assms(1,3,8,5,7)] obtain l2 where l2: "try_trigram_index ?U ord visit (Some e) t = Some l2"
    "\<forall>cs. l2 = Some cs \<longrightarrow> (\<exists>zs. filter_rows ?p cs = Some zs \<and> mset zs = mset ys)"
    unfolding exact_path_def by blast
  from btree_path_exact [OF assms(1,2,3,8,6)] obtain l3 where l3: "try_btree_index ?U (Some e) t = Some l3"
    "\<forall>cs. l3 = Some cs \<longrightarrow> (\<exists>zs. filter_rows ?p cs = Some zs \<and> mset zs = mset ys)"
    unfolding exact_path_def by blast
  show ?thesis
    using l1 l2 l3 assms(8) by (cases l1; cases l2; cases l3) (simp_all add: where_rows_def)
qed

end
