(* ===== verification/LookupProps.thy ===== *)
theory LookupProps
  imports LookupExact TableProps
begin

text \<open>
  The property of index-assisted lookup, and the three clauses on which an index path and the scan
  disagree: a FLOAT key or index probed with an integer, a FLOAT key within the epsilon of \<open>=\<close>, and a
  range over numeric texts.
\<close>

section \<open>The paths together\<close>


abbreviation probe_id :: sql_expr where
  "probe_id \<equiv> BinaryOp (Identifier ''id'') OpEq (Value (SqlNumber ''1''))"

lemma probe_literal: "sql_val_to_db (SqlNumber ''1'') = DInt 1"
  by code_simp

lemma lower_id: "to_lowercase U ''id'' = ''id''"
  by (simp add: to_lowercase_def) code_simp


section \<open>Where they disagree\<close>

text \<open>An equality probe of a BTREE index on a FLOAT column with an integer literal finds nothing,
  whatever the column holds: the literal is not coerced and its key has another tag, while the scan
  compares the two as numbers.\<close>

theorem float_index_integer_probe:
  assumes "wf_table U t" and "typed_table t" and "tbl_col_index t c = Some ci"
    and "col_dtype (tbl_columns t ! ci) = TFloat" and "btree_on c (tbl_indices t) \<noteq> None"
  shows "btree_lookup c (DInt n) t = Some []"
proof -
  from assms(5) obtain ix where ix: "btree_on c (tbl_indices t) = Some ix" by blast
  from btree_on_column [OF assms(1) ix] assms(3)
  have rep: "represents bt_ok bt_posts bt_keys ix (map (\<lambda>r. r ! ci) (tbl_rows t))" by auto
  have "encode_key (tbl_rows t ! i ! ci) \<noteq> encode_key (DInt n)" if i: "i < length (tbl_rows t)" for i
  proof -
    have "row_ok (tbl_columns t) (tbl_rows t ! i)" using typed_row [OF assms(2)] i by simp
    moreover have "ci < length (tbl_columns t)"
      using wf_columns_less assms(1,3) by (auto simp: wf_table_def)
    ultimately have "has_type TFloat (tbl_rows t ! i ! ci)"
      using assms(4) by (auto simp: row_ok_def list_all2_conv_all_nth)
    then show ?thesis by (cases "tbl_rows t ! i ! ci") (auto simp: encode_key_int_iff)
  qed
  then have "set (postings ix (encode_key (DInt n))) = {}"
    using postings_represented [OF rep, of "encode_key (DInt n)"] by auto
  then show ?thesis using ix by (simp add: btree_lookup_def bt_lookup_def)
qed

text \<open>\<open>=\<close> on floats is closeness within an epsilon; the key map compares decimal texts.\<close>

lemma float_key_misses_close_value:
  "values_equal (DFloat 0x3FD3333333333334) (DFloat 0x3FD3333333333333) \<and>
   encode_key (DFloat 0x3FD3333333333334) \<noteq> encode_key (DFloat 0x3FD3333333333333)"
proof -
  let ?x = "0x3FD3333333333334 :: f64" and ?y = "0x3FD3333333333333 :: f64" and ?m = "969 * 2 ^ 52 :: nat"
  have "f64_num ?x + f64_num (f64_neg ?y) = int (f64_units ?m)"
    by (simp add: f64_num_def f64_neg_def f64_units_def f64_sig_def f64_bexp_def f64_sign_def f64_mag_def f64_of_mag_def)
  moreover have "round_mag (f64_units ?m) f64_unit_den = ?m"
    by (rule round_mag_exact) (simp add: inf_mag_def)
  moreover have "\<not> f64_is_nan ?x" "\<not> f64_is_nan (f64_neg ?y)" "\<not> f64_is_inf ?x" "\<not> f64_is_inf (f64_neg ?y)"
    by (simp_all add: f64_is_nan_def f64_is_inf_def f64_mag_def f64_neg_def inf_mag_def f64_of_mag_def f64_sign_def)
  moreover have "0 < f64_units ?m" by (simp add: f64_units_def f64_sig_def)
  ultimately have "f64_sub ?x ?y = f64_of_mag False ?m"
    by (simp add: f64_sub_def f64_add_def f64_round_def Let_def)
  moreover have "f64_lt (f64_abs (f64_of_mag False ?m)) f64_epsilon"
    by (simp add: f64_lt_def f64_abs_def f64_epsilon_def f64_partial_cmp_def f64_is_nan_def inf_mag_def f64_key_def)
  moreover have "uint (sortable_bits ?x) \<noteq> uint (sortable_bits ?y)"
    by (simp add: uint_sortable_bits f64_is_nan_def f64_key_def f64_sign_def f64_mag_def inf_mag_def)
  then have "sortable_bits ?x \<noteq> sortable_bits ?y" by metis
  ultimately show ?thesis by (simp add: values_equal_def f64_close_def pad20_eq_iff)
qed

text \<open>The scan compares numeric texts as numbers, the index as texts.\<close>

lemma text_range_misses_number:
  "apply_binary_op U (DString ''10'') OpGt (DString ''9'') = pok (DBool True) \<and>
   encode_key (DString ''10'') < encode_key (DString ''9'')"
proof -
  have m: "round_mag 9 1 = 0x4022000000000000" "round_mag 10 1 = 0x4024000000000000"
    by (rule round_mag_units; simp add: inf_mag_def f64_units_def f64_sig_def f64_bexp_def f64_unit_den_def)+
  have n: "parse_f64 ''9'' = Some 0x4022000000000000" "parse_f64 ''10'' = Some 0x4024000000000000"
    by (simp_all add: parse_f64_def Let_def to_ascii_lowercase_def ascii_lower_def parse_exponent_def is_digit_def
        digits_val_def digit_val_def round_dec_def dec_frac_def m [simplified] f64_of_mag_def)
  have "f64_partial_cmp 0x4024000000000000 0x4022000000000000 = Some Greater"
    by (simp add: f64_partial_cmp_def f64_is_nan_def f64_mag_def inf_mag_def f64_key_def f64_sign_def)
  then show ?thesis by (simp add: n cmp_values_def db_value_cmp_def less_char_def)
qed

text \<open>A NULL cell is matched by LIKE as the text NULL, which no index holds.\<close>

lemma null_matches_like: "simple_like (value_to_string DNull) ''NUL%''"
  by (simp add: simple_like_def like_match_def chars_ascii is_ascii_def bytes_of_def)

end
