(* ===== verification/Aggregate.thy ===== *)
theory Aggregate
  imports Session Sorting
begin

text \<open>
  \<open>functions/aggregate.rs\<close>: GROUP BY, HAVING and ORDER BY over groups, and the aggregate functions.
  Rows that fail to evaluate are skipped, rows that panic stop the statement.  Integer sums wrap, as
  the release build does.
\<close>

section \<open>The clauses of a SELECT\<close>

datatype group_by = GroupExprs "sql_expr list" | GroupAll

datatype distinct_clause = DistinctRows | DistinctOn "sql_expr list"

text \<open>What stands in FROM: a named table with its alias, a derived table (LATERAL or not, its query, its
  alias with column names), or another factor; each with the joins that follow it.\<close>

datatype from_factor =
    FromTable object_name "rstr option"
  | FromDerived bool query "(rstr \<times> rstr list) option"
  | FromOther

datatype join_constraint = JoinOn sql_expr | JoinUsing "rstr list" | JoinNatural | JoinNone

datatype join_operator =
    JoinInner join_constraint | JoinLeftOuter join_constraint | JoinRightOuter join_constraint
  | JoinFullOuter join_constraint | JoinPlain join_constraint | JoinCross join_constraint
  | JoinLeft join_constraint | JoinRight join_constraint | JoinOther

type_synonym table_with_joins = "from_factor \<times> (from_factor \<times> join_operator) list"

record select =
  sel_projection :: "select_item list"
  sel_from :: "table_with_joins list"
  sel_selection :: "sql_expr option"
  sel_group_by :: group_by
  sel_having :: "sql_expr option"
  sel_distinct :: "distinct_clause option"

definition has_group_by :: "select \<Rightarrow> bool" where
  "has_group_by s = (case sel_group_by s of GroupExprs es \<Rightarrow> es \<noteq> [] | GroupAll \<Rightarrow> True)"

definition aggregate_names :: "rstr list" where
  "aggregate_names = [''count'', ''sum'', ''avg'', ''min'', ''max'', ''group_concat'']"

fun contains_aggregate :: "unicode \<Rightarrow> sql_expr \<Rightarrow> bool" where
  "contains_aggregate U (Function nm args mods) =
     (call_over mods = None \<and> to_lowercase U nm \<in> set aggregate_names)"
| "contains_aggregate U (Nested e) = contains_aggregate U e"
| "contains_aggregate U _ = False"

definition has_aggregate :: "unicode \<Rightarrow> select_item list \<Rightarrow> bool" where
  "has_aggregate U items =
     list_ex (\<lambda>it. case item_expr it of Some e \<Rightarrow> contains_aggregate U e | None \<Rightarrow> False) items"

section \<open>Groups\<close>

text \<open>The alias map; of two equal aliases the later one counts.\<close>

fun item_alias :: "select_item \<Rightarrow> (rstr \<times> sql_expr) option" where
  "item_alias (ExprWithAlias e a) = Some (a, e)"
| "item_alias _ = None"

definition alias_map :: "select_item list \<Rightarrow> rstr \<rightharpoonup> sql_expr" where
  "alias_map items = map_of (rev (List.map_filter item_alias items))"

definition group_exprs :: "select \<Rightarrow> sql_expr list" where
  "group_exprs s = (case sel_group_by s of GroupExprs es \<Rightarrow> es | GroupAll \<Rightarrow> [])"

definition resolve_alias :: "(rstr \<rightharpoonup> sql_expr) \<Rightarrow> sql_expr \<Rightarrow> sql_expr" where
  "resolve_alias al e =
     (case ident_of e of
        Some i \<Rightarrow> (case al i of Some x \<Rightarrow> x | None \<Rightarrow> e)
      | None \<Rightarrow> e)"

definition resolve_group_by_aliases :: "select \<Rightarrow> sql_expr list" where
  "resolve_group_by_aliases s = map (resolve_alias (alias_map (sel_projection s))) (group_exprs s)"

text \<open>\<open>collect::<Result<Vec<_>, _>>()\<close>: the values up to the first error.\<close>

fun eval_all :: "(sql_expr \<Rightarrow> db_value eres panicking) \<Rightarrow> sql_expr list \<Rightarrow> db_value list eres panicking" where
  "eval_all f [] = pok []"
| "eval_all f (e # es) = pbind (f e) (\<lambda>v. pbind (eval_all f es) (\<lambda>vs. pok (v # vs)))"

text \<open>\<open>groups.entry(key).or_default().push(row)\<close> on a map that keeps insertion order.\<close>

fun add_to_group :: "db_value list \<Rightarrow> 'r \<Rightarrow> (db_value list \<times> 'r list) list \<Rightarrow> (db_value list \<times> 'r list) list" where
  "add_to_group k r [] = [(k, [r])]"
| "add_to_group k r ((k', rs) # gs) =
     (if group_key_eq k k' then (k', rs @ [r]) # gs else (k', rs) # add_to_group k r gs)"

fun group_rows :: "(row \<Rightarrow> db_value list eres panicking) \<Rightarrow> row list \<Rightarrow> (db_value list \<times> row list) list
    \<Rightarrow> (db_value list \<times> row list) list eres panicking" where
  "group_rows key [] gs = pok gs"
| "group_rows key (r # rs) gs = pbind (key r) (\<lambda>k. group_rows key rs (add_to_group k r gs))"

definition partition_by_group :: "eval_env \<Rightarrow> col_map \<Rightarrow> select \<Rightarrow> row list \<Rightarrow> row list list eres panicking" where
  "partition_by_group E m s rows =
     pbind (group_rows (\<lambda>r. eval_all (eval_expr E r m) (resolve_group_by_aliases s)) rows [])
       (\<lambda>gs. pok (map snd gs))"

section \<open>Aggregate functions\<close>

definition extract_func_arg :: "func_args \<Rightarrow> sql_expr eres" where
  "extract_func_arg args =
     (case args of
        ArgList [] \<Rightarrow> Inl (ExecError ''Function requires argument'')
      | ArgList (a # _) \<Rightarrow> get_func_arg_unnamed a
      | _ \<Rightarrow> Inl (ExecError ''Function requires argument list''))"

text \<open>\<open>passes_filter\<close>: a FILTER clause that fails to evaluate lets the row pass.\<close>

definition passes_filter :: "eval_env \<Rightarrow> col_map \<Rightarrow> call_mods \<Rightarrow> row \<Rightarrow> bool panicking" where
  "passes_filter E m mods r =
     (case call_filter mods of
        None \<Rightarrow> Some True
      | Some e \<Rightarrow> map_option (\<lambda>v. case v of Inr x \<Rightarrow> is_truthy x | Inl _ \<Rightarrow> True) (eval_expr E r m e))"

text \<open>The values of the argument on the rows that pass and evaluate.\<close>

fun passing_values :: "(row \<Rightarrow> bool panicking) \<Rightarrow> (row \<Rightarrow> db_value eres panicking) \<Rightarrow> row list
    \<Rightarrow> db_value list panicking" where
  "passing_values p f [] = Some []"
| "passing_values p f (r # rs) =
     (case p r of
        None \<Rightarrow> None
      | Some False \<Rightarrow> passing_values p f rs
      | Some True \<Rightarrow>
          (case f r of
             None \<Rightarrow> None
           | Some (Inl _) \<Rightarrow> passing_values p f rs
           | Some (Inr v) \<Rightarrow> map_option ((#) v) (passing_values p f rs)))"

fun count_passing :: "(row \<Rightarrow> bool panicking) \<Rightarrow> row list \<Rightarrow> nat panicking" where
  "count_passing p [] = Some 0"
| "count_passing p (r # rs) =
     (case p r of
        None \<Rightarrow> None
      | Some b \<Rightarrow> map_option (\<lambda>n. if b then Suc n else n) (count_passing p rs))"

abbreviation every_row :: "row \<Rightarrow> bool panicking" where "every_row \<equiv> (\<lambda>_. Some True)"

fun as_int :: "db_value \<Rightarrow> i64 option" where
  "as_int (DInt n) = Some n"
| "as_int _ = None"

text \<open>\<open>usize as i64\<close> and \<open>usize as f64\<close>.\<close>

definition count_value :: "nat \<Rightarrow> db_value" where
  "count_value n = DInt (word_of_int (int n))"

text \<open>\<open>Iterator::sum\<close>: from 0 on integers, from -0.0 on floats.\<close>

definition sum_ints :: "db_value list \<Rightarrow> db_value" where
  "sum_ints vs = DInt (fold (\<lambda>n acc. acc + n) (List.map_filter as_int vs) 0)"

definition sum_from :: "f64 \<Rightarrow> db_value list \<Rightarrow> f64" where
  "sum_from z vs = fold (\<lambda>x acc. f64_add acc x) (List.map_filter to_f64 vs) z"

definition sum_floats :: "db_value list \<Rightarrow> db_value" where
  "sum_floats vs = DFloat (sum_from (f64_neg f64_zero) vs)"

text \<open>The first value decides the kind of the sum, whether it passes the FILTER or not; the float sum
  ignores the FILTER.\<close>

definition aggregate_sum :: "eval_env \<Rightarrow> col_map \<Rightarrow> func_args \<Rightarrow> call_mods \<Rightarrow> row list \<Rightarrow> db_value eres panicking" where
  "aggregate_sum E m args mods rows =
     pbind (Some (extract_func_arg args)) (\<lambda>arg.
       case rows of
         [] \<Rightarrow> pok DNull
       | r # _ \<Rightarrow>
           pbind (eval_expr E r m arg) (\<lambda>first.
             case first of
               DInt _ \<Rightarrow> map_option (\<lambda>vs. Inr (sum_ints vs))
                 (passing_values (passes_filter E m mods) (\<lambda>r. eval_expr E r m arg) rows)
             | DFloat _ \<Rightarrow> map_option (\<lambda>vs. Inr (sum_floats vs))
                 (passing_values every_row (\<lambda>r. eval_expr E r m arg) rows)
             | v \<Rightarrow> perr (TypeError ''numeric column'' (db_debug (env_unicode E) v))))"

text \<open>\<open>sum / count as f64\<close>, NULL when no value is a number.\<close>

definition average :: "db_value list \<Rightarrow> db_value" where
  "average vs =
     (let n = length (List.map_filter to_f64 vs)
      in if n = 0 then DNull else DFloat (f64_div (sum_from f64_zero vs) (f64_of_int (int n))))"

definition aggregate_avg :: "eval_env \<Rightarrow> col_map \<Rightarrow> func_args \<Rightarrow> call_mods \<Rightarrow> row list \<Rightarrow> db_value eres panicking" where
  "aggregate_avg E m args mods rows =
     pbind (Some (extract_func_arg args)) (\<lambda>arg.
       map_option (\<lambda>vs. Inr (average vs))
         (passing_values (passes_filter E m mods) (\<lambda>r. eval_expr E r m arg) rows))"

text \<open>\<open>min_by\<close> keeps the first of equal values, \<open>max_by\<close> the last.\<close>

fun min_by :: "('a \<Rightarrow> 'a \<Rightarrow> ordering) \<Rightarrow> 'a list \<Rightarrow> 'a option" where
  "min_by c [] = None"
| "min_by c (x # xs) = Some (fold (\<lambda>y best. if c best y = Greater then y else best) xs x)"

fun max_by :: "('a \<Rightarrow> 'a \<Rightarrow> ordering) \<Rightarrow> 'a list \<Rightarrow> 'a option" where
  "max_by c [] = None"
| "max_by c (x # xs) = Some (fold (\<lambda>y best. if c best y = Greater then best else y) xs x)"

definition or_empty :: "rstr \<Rightarrow> db_value option \<Rightarrow> db_value eres" where
  "or_empty msg v = (case v of Some x \<Rightarrow> Inr x | None \<Rightarrow> Inl (ExecError msg))"

definition aggregate_min :: "eval_env \<Rightarrow> col_map \<Rightarrow> func_args \<Rightarrow> call_mods \<Rightarrow> row list \<Rightarrow> db_value eres panicking" where
  "aggregate_min E m args mods rows =
     pbind (Some (extract_func_arg args)) (\<lambda>arg.
       map_option (\<lambda>vs. or_empty ''MIN on empty set'' (min_by db_value_cmp (filter (\<lambda>v. v \<noteq> DNull) vs)))
         (passing_values (passes_filter E m mods) (\<lambda>r. eval_expr E r m arg) rows))"

definition aggregate_max :: "eval_env \<Rightarrow> col_map \<Rightarrow> func_args \<Rightarrow> call_mods \<Rightarrow> row list \<Rightarrow> db_value eres panicking" where
  "aggregate_max E m args mods rows =
     pbind (Some (extract_func_arg args)) (\<lambda>arg.
       map_option (\<lambda>vs. or_empty ''MAX on empty set'' (max_by db_value_cmp (filter (\<lambda>v. v \<noteq> DNull) vs)))
         (passing_values (passes_filter E m mods) (\<lambda>r. eval_expr E r m arg) rows))"

definition is_count_star :: "func_args \<Rightarrow> bool" where
  "is_count_star args = (args = ArgList [Unnamed ArgWildcard] \<or> args = NoArgs)"

text \<open>\<open>if !seen.contains(&val) { seen.push(val) }\<close>.\<close>

fun push_unseen :: "db_value list \<Rightarrow> db_value list \<Rightarrow> db_value list" where
  "push_unseen seen [] = seen"
| "push_unseen seen (v # vs) =
     (if list_ex (\<lambda>x. db_eq x v) seen then push_unseen seen vs else push_unseen (seen @ [v]) vs)"

text \<open>The DISTINCT mark belongs to an argument list.  Without an argument expression no row counts.\<close>

definition aggregate_count :: "eval_env \<Rightarrow> col_map \<Rightarrow> func_args \<Rightarrow> call_mods \<Rightarrow> row list \<Rightarrow> db_value panicking" where
  "aggregate_count E m args mods rows =
     (let p = passes_filter E m mods;
          values = (case extract_func_arg args of
                      Inr arg \<Rightarrow> passing_values p (\<lambda>r. eval_expr E r m arg) rows
                    | Inl _ \<Rightarrow> map_option (\<lambda>_. []) (count_passing p rows))
      in if (\<exists>as. args = ArgList as) \<and> call_distinct mods
         then map_option (\<lambda>vs. count_value (length (push_unseen [] vs))) values
         else if is_count_star args then map_option count_value (count_passing p rows)
         else map_option (\<lambda>vs. count_value (length (filter (\<lambda>v. \<not> db_eq v DNull) vs))) values)"

text \<open>The separator: the second argument when it is a literal, a comma otherwise.\<close>

definition concat_separator :: "eval_env \<Rightarrow> func_args \<Rightarrow> rstr panicking" where
  "concat_separator E args =
     (case args of
        ArgList (_ # b # _) \<Rightarrow>
          (case get_func_arg_unnamed b of
             Inl _ \<Rightarrow> Some '',''
           | Inr e \<Rightarrow> map_option (\<lambda>v. case v of Inr x \<Rightarrow> value_to_string x | Inl _ \<Rightarrow> '','') (eval_literal_expr E e))
      | _ \<Rightarrow> Some '','')"

definition aggregate_concat :: "eval_env \<Rightarrow> col_map \<Rightarrow> func_args \<Rightarrow> call_mods \<Rightarrow> row list \<Rightarrow> db_value eres panicking" where
  "aggregate_concat E m args mods rows =
     pbind (Some (extract_func_arg args)) (\<lambda>arg.
       case concat_separator E args of
         None \<Rightarrow> None
       | Some sep \<Rightarrow>
           map_option (\<lambda>vs. Inr (DString (join sep (map value_to_string (filter (\<lambda>v. v \<noteq> DNull) vs)))))
             (passing_values (passes_filter E m mods) (\<lambda>r. eval_expr E r m arg) rows))"

section \<open>Expressions over a group\<close>

definition eval_expr_on_group :: "eval_env \<Rightarrow> col_map \<Rightarrow> row list \<Rightarrow> sql_expr \<Rightarrow> db_value eres panicking" where
  "eval_expr_on_group E m rows e = (case rows of [] \<Rightarrow> pok DNull | r # _ \<Rightarrow> eval_expr E r m e)"

definition named :: "rstr \<Rightarrow> db_value eres panicking \<Rightarrow> (rstr \<times> db_value) eres panicking" where
  "named n r = pbind r (\<lambda>v. pok (n, v))"

definition eval_call_on_group :: "eval_env \<Rightarrow> col_map \<Rightarrow> row list \<Rightarrow> rstr \<Rightarrow> func_args \<Rightarrow> call_mods
    \<Rightarrow> (rstr \<times> db_value) eres panicking" where
  "eval_call_on_group E m rows nm args mods =
     (let name = to_lowercase (env_unicode E) nm
      in if name = ''group_concat'' then named ''GROUP_CONCAT'' (aggregate_concat E m args mods rows)
         else if name = ''count'' then named ''COUNT'' (map_option Inr (aggregate_count E m args mods rows))
         else if name = ''sum'' then named ''SUM'' (aggregate_sum E m args mods rows)
         else if name = ''avg'' then named ''AVG'' (aggregate_avg E m args mods rows)
         else if name = ''min'' then named ''MIN'' (aggregate_min E m args mods rows)
         else if name = ''max'' then named ''MAX'' (aggregate_max E m args mods rows)
         else named nm (eval_expr_on_group E m rows (Function nm args mods)))"

definition eval_ident_on_group :: "eval_env \<Rightarrow> col_map \<Rightarrow> row list \<Rightarrow> rstr \<Rightarrow> (rstr \<times> db_value) eres panicking" where
  "eval_ident_on_group E m rows i =
     (let n = to_lowercase (env_unicode E) i
      in named n (case rows of
           [] \<Rightarrow> pok DNull
         | r # _ \<Rightarrow> (case m n of None \<Rightarrow> perr (ColumnNotFound i) | Some ix \<Rightarrow> cell r ix)))"

fun eval_projection_expr :: "eval_env \<Rightarrow> col_map \<Rightarrow> row list \<Rightarrow> sql_expr \<Rightarrow> (rstr \<times> db_value) eres panicking" where
  "eval_projection_expr E m rows (Function nm args mods) = eval_call_on_group E m rows nm args mods"
| "eval_projection_expr E m rows (Identifier i) = eval_ident_on_group E m rows i"
| "eval_projection_expr E m rows (BinaryOp l opr r) =
     pbind (eval_projection_expr E m rows l) (\<lambda>x. pbind (eval_projection_expr E m rows r) (\<lambda>y.
       named ''expr'' (apply_binary_op (env_unicode E) (snd x) opr (snd y))))"
| "eval_projection_expr E m rows (UnaryOp opr e) =
     pbind (eval_projection_expr E m rows e) (\<lambda>x. named ''expr'' (Some (apply_unary_op opr (snd x))))"
| "eval_projection_expr E m rows (Nested e) = eval_projection_expr E m rows e"
| "eval_projection_expr E m rows (IsNull e) =
     pbind (eval_projection_expr E m rows e) (\<lambda>x. pok (''expr'', DBool (snd x = DNull)))"
| "eval_projection_expr E m rows (IsNotNull e) =
     pbind (eval_projection_expr E m rows e) (\<lambda>x. pok (''expr'', DBool (snd x \<noteq> DNull)))"
| "eval_projection_expr E m rows e = named ''expr'' (eval_expr_on_group E m rows e)"

text \<open>\<open>.map(|(_, v)| v).unwrap_or(Null)\<close>.\<close>

definition group_value :: "eval_env \<Rightarrow> col_map \<Rightarrow> sql_expr \<Rightarrow> row list \<Rightarrow> db_value panicking" where
  "group_value E m e rows =
     map_option (\<lambda>r. case r of Inr (_, v) \<Rightarrow> v | Inl _ \<Rightarrow> DNull) (eval_projection_expr E m rows e)"

section \<open>Ordering groups, HAVING, the result\<close>

fun compare_groups :: "eval_env \<Rightarrow> col_map \<Rightarrow> order_item list \<Rightarrow> row list \<Rightarrow> row list \<Rightarrow> ordering panicking" where
  "compare_groups E m [] a b = Some Equal"
| "compare_groups E m ((e, asc) # items) a b =
     (case (group_value E m e a, group_value E m e b) of
        (Some x, Some y) \<Rightarrow>
          (let o1 = db_value_cmp x y;
               o2 = (if case asc of Some d \<Rightarrow> d | None \<Rightarrow> True then o1 else ord_reverse o1)
           in if o2 \<noteq> Equal then Some o2 else compare_groups E m items a b)
      | _ \<Rightarrow> None)"

definition sort_partitions :: "eval_env \<Rightarrow> col_map \<Rightarrow> order_item list \<Rightarrow> row list list \<Rightarrow> row list list panicking" where
  "sort_partitions E m order parts =
     (if order = [] then Some parts else sort_by (compare_groups E m order) parts)"

text \<open>The HAVING filter of \<open>exec_select_rows\<close>: a group that fails to evaluate is dropped.\<close>

definition having_keeps :: "eval_env \<Rightarrow> col_map \<Rightarrow> sql_expr \<Rightarrow> row list \<Rightarrow> bool panicking" where
  "having_keeps E m h g =
     (if g = [] then Some False
      else map_option (\<lambda>r. case r of Inr (_, v) \<Rightarrow> is_truthy v | Inl _ \<Rightarrow> False) (eval_projection_expr E m g h))"

fun aggregate_header :: "unicode \<Rightarrow> select_item list \<Rightarrow> rstr list eres" where
  "aggregate_header U [] = Inr []"
| "aggregate_header U (UnnamedExpr e # its) =
     bind_res (aggregate_header U its) (\<lambda>h. Inr (projection_expr_name U e # h))"
| "aggregate_header U (ExprWithAlias e a # its) = bind_res (aggregate_header U its) (\<lambda>h. Inr (a # h))"
| "aggregate_header U (_ # its) = Inl (ExecError ''Unsupported SELECT item in aggregate query'')"

definition aggregate_cell :: "eval_env \<Rightarrow> col_map \<Rightarrow> row list \<Rightarrow> select_item \<Rightarrow> db_value panicking" where
  "aggregate_cell E m g it = (case item_expr it of None \<Rightarrow> Some DNull | Some e \<Rightarrow> group_value E m e g)"

definition compute_aggregate_rows :: "eval_env \<Rightarrow> col_map \<Rightarrow> select_item list \<Rightarrow> row list list
    \<Rightarrow> (rstr list \<times> row list) eres panicking" where
  "compute_aggregate_rows E m items parts =
     (if parts = [] then pok ([], [])
      else pbind (Some (aggregate_header (env_unicode E) items)) (\<lambda>header.
        map_option (\<lambda>rows. Inr (header, rows))
          (map_option_list (\<lambda>g. map_option_list (aggregate_cell E m g) items) parts)))"

end
