(* ===== verification/Window.thy ===== *)
theory Window
  imports Aggregate
begin

text \<open>
  \<open>stmts/select/window.rs\<close>: window functions.  A partition is a list of row numbers, sorted by the
  window's ORDER BY; a frame is a pair of positions in it, both included.  All row numbers come from
  \<open>0..rows.len()\<close>, so \<open>rows ! i\<close> is always in range.
\<close>

definition has_window_function :: "select_item list \<Rightarrow> bool" where
  "has_window_function items =
     list_ex (\<lambda>it. case item_expr it of Some e \<Rightarrow> is_window e | None \<Rightarrow> False) items"

section \<open>Frames\<close>

text \<open>The first ORDER BY value of a row.\<close>

definition order_by_value :: "eval_env \<Rightarrow> col_map \<Rightarrow> order_item list \<Rightarrow> row list \<Rightarrow> nat \<Rightarrow> db_value panicking" where
  "order_by_value E m order rows i =
     (case order of
        [] \<Rightarrow> Some DNull
      | (e, _) # _ \<Rightarrow> map_option or_null (eval_expr E (rows ! i) m e))"

text \<open>The peer groups of an ordered partition: \<open>k\<close> positions are left, \<open>start\<close> is the first of the
  current group; \<open>val\<close> gives the ORDER BY value at a position.\<close>

fun peer_bounds :: "(nat \<Rightarrow> db_value panicking) \<Rightarrow> nat \<Rightarrow> nat \<Rightarrow> nat \<Rightarrow> (nat \<times> nat) list panicking" where
  "peer_bounds val start pos 0 = Some [(start, pos - 1)]"
| "peer_bounds val start pos (Suc k) =
     (case (val pos, val start) of
        (Some a, Some b) \<Rightarrow>
          (if \<not> db_eq a b then map_option ((#) (start, pos - 1)) (peer_bounds val pos (pos + 1) k)
           else peer_bounds val start (pos + 1) k)
      | _ \<Rightarrow> None)"

definition compute_group_bounds :: "(nat \<Rightarrow> db_value panicking) \<Rightarrow> order_item list \<Rightarrow> nat \<Rightarrow> (nat \<times> nat) list panicking" where
  "compute_group_bounds val order len =
     (if order = [] \<or> len = 0 then Some [(0, len - 1)] else peer_bounds val 0 1 (len - 1))"

text \<open>\<open>eval_offset\<close>: a literal integer, not negative; anything else is 0.\<close>

definition eval_offset :: "eval_env \<Rightarrow> sql_expr \<Rightarrow> nat panicking" where
  "eval_offset E e =
     map_option (\<lambda>v. case v of Inr (DInt i) \<Rightarrow> nat (max (sint i) 0) | _ \<Rightarrow> 0) (eval_literal_expr E e)"

definition saturating_add :: "i64 \<Rightarrow> i64 \<Rightarrow> int" where
  "saturating_add x y = max i64_min (min i64_max (sint x + sint y))"

fun db_value_diff_ge :: "db_value \<Rightarrow> db_value \<Rightarrow> i64 \<Rightarrow> bool" where
  "db_value_diff_ge (DInt a) (DInt b) off = (saturating_add b off \<le> sint a)"
| "db_value_diff_ge (DFloat a) (DFloat b) off = f64_ge a (f64_add b (i64_as_f64 off))"
| "db_value_diff_ge (DInt a) (DFloat b) off = f64_ge (i64_as_f64 a) (f64_add b (i64_as_f64 off))"
| "db_value_diff_ge (DFloat a) (DInt b) off = f64_ge a (f64_add (i64_as_f64 b) (i64_as_f64 off))"
| "db_value_diff_ge _ _ _ = False"

text \<open>The two walks from the current position, up to the first position that stops.\<close>

fun walk_back :: "(nat \<Rightarrow> bool panicking) \<Rightarrow> nat \<Rightarrow> nat panicking" where
  "walk_back stop 0 = Some 0"
| "walk_back stop (Suc s) =
     (case stop s of None \<Rightarrow> None | Some True \<Rightarrow> Some (Suc s) | Some False \<Rightarrow> walk_back stop s)"

fun walk_on :: "(nat \<Rightarrow> bool panicking) \<Rightarrow> nat \<Rightarrow> nat \<Rightarrow> nat panicking" where
  "walk_on stop e 0 = Some e"
| "walk_on stop e (Suc k) =
     (case stop (Suc e) of None \<Rightarrow> None | Some True \<Rightarrow> Some e | Some False \<Rightarrow> walk_on stop (Suc e) k)"

text \<open>A pair of positions in order.\<close>

definition ordered :: "nat \<Rightarrow> nat \<Rightarrow> nat \<times> nat" where
  "ordered s e = (min s e, max e s)"

definition with_offset :: "eval_env \<Rightarrow> sql_expr \<Rightarrow> (nat \<Rightarrow> nat panicking) \<Rightarrow> nat panicking" where
  "with_offset E e f = (case eval_offset E e of None \<Rightarrow> None | Some n \<Rightarrow> f n)"

text \<open>ROWS: physical offsets.\<close>

fun rows_start :: "eval_env \<Rightarrow> nat \<Rightarrow> nat \<Rightarrow> frame_bound \<Rightarrow> nat panicking" where
  "rows_start E pos last_pos (Preceding None) = Some 0"
| "rows_start E pos last_pos (Preceding (Some e)) = with_offset E e (\<lambda>n. Some (pos - n))"
| "rows_start E pos last_pos CurrentRow = Some pos"
| "rows_start E pos last_pos (Following None) = Some pos"
| "rows_start E pos last_pos (Following (Some e)) = with_offset E e (\<lambda>n. Some (min (pos + n) last_pos))"

fun rows_end :: "eval_env \<Rightarrow> nat \<Rightarrow> nat \<Rightarrow> frame_bound option \<Rightarrow> nat panicking" where
  "rows_end E pos last_pos (Some (Preceding None)) = Some 0"
| "rows_end E pos last_pos (Some (Preceding (Some e))) = with_offset E e (\<lambda>n. Some (pos - n))"
| "rows_end E pos last_pos (Some CurrentRow) = Some pos"
| "rows_end E pos last_pos (Some (Following None)) = Some last_pos"
| "rows_end E pos last_pos (Some (Following (Some e))) = with_offset E e (\<lambda>n. Some (min (pos + n) last_pos))"
| "rows_end E pos last_pos None = Some pos"

text \<open>RANGE: value differences; \<open>val\<close> is the value at a position, \<open>cur\<close> that at the current one.\<close>

definition far_before :: "(nat \<Rightarrow> db_value panicking) \<Rightarrow> db_value \<Rightarrow> nat \<Rightarrow> nat \<Rightarrow> bool panicking" where
  "far_before val cur off i = map_option (\<lambda>v. db_value_diff_ge cur v (word_of_int (int off))) (val i)"

definition far_after :: "(nat \<Rightarrow> db_value panicking) \<Rightarrow> db_value \<Rightarrow> nat \<Rightarrow> nat \<Rightarrow> bool panicking" where
  "far_after val cur off i = map_option (\<lambda>v. db_value_diff_ge v cur (word_of_int (int off))) (val i)"

definition no_peer :: "(nat \<Rightarrow> db_value panicking) \<Rightarrow> db_value \<Rightarrow> nat \<Rightarrow> bool panicking" where
  "no_peer val cur i = map_option (\<lambda>v. \<not> db_eq v cur) (val i)"

fun range_start :: "eval_env \<Rightarrow> (nat \<Rightarrow> db_value panicking) \<Rightarrow> db_value \<Rightarrow> nat \<Rightarrow> nat \<Rightarrow> frame_bound \<Rightarrow> nat panicking" where
  "range_start E val cur pos last_pos (Preceding None) = Some 0"
| "range_start E val cur pos last_pos (Preceding (Some e)) =
     with_offset E e (\<lambda>n. walk_back (far_before val cur n) pos)"
| "range_start E val cur pos last_pos CurrentRow = walk_back (no_peer val cur) pos"
| "range_start E val cur pos last_pos (Following None) = Some pos"
| "range_start E val cur pos last_pos (Following (Some e)) =
     with_offset E e (\<lambda>n. walk_on (far_after val cur n) pos (last_pos - pos))"

fun range_end :: "eval_env \<Rightarrow> (nat \<Rightarrow> db_value panicking) \<Rightarrow> db_value \<Rightarrow> nat \<Rightarrow> nat \<Rightarrow> frame_bound option
    \<Rightarrow> nat panicking" where
  "range_end E val cur pos last_pos (Some (Preceding None)) = Some 0"
| "range_end E val cur pos last_pos (Some (Preceding (Some e))) =
     with_offset E e (\<lambda>n. walk_back (far_before val cur n) pos)"
| "range_end E val cur pos last_pos (Some CurrentRow) = walk_on (no_peer val cur) pos (last_pos - pos)"
| "range_end E val cur pos last_pos (Some (Following None)) = Some last_pos"
| "range_end E val cur pos last_pos (Some (Following (Some e))) =
     with_offset E e (\<lambda>n. walk_on (far_after val cur n) pos (last_pos - pos))"
| "range_end E val cur pos last_pos None = Some pos"

text \<open>GROUPS: offsets in peer groups; \<open>n\<close> groups, \<open>g\<close> the current one.\<close>

fun groups_start :: "eval_env \<Rightarrow> nat \<Rightarrow> nat \<Rightarrow> frame_bound \<Rightarrow> nat panicking" where
  "groups_start E g n (Preceding None) = Some 0"
| "groups_start E g n (Preceding (Some e)) = with_offset E e (\<lambda>k. Some (g - k))"
| "groups_start E g n CurrentRow = Some g"
| "groups_start E g n (Following None) = Some g"
| "groups_start E g n (Following (Some e)) = with_offset E e (\<lambda>k. Some (min (g + k) (n - 1)))"

fun groups_end :: "eval_env \<Rightarrow> nat \<Rightarrow> nat \<Rightarrow> frame_bound option \<Rightarrow> nat panicking" where
  "groups_end E g n (Some (Preceding None)) = Some 0"
| "groups_end E g n (Some (Preceding (Some e))) = with_offset E e (\<lambda>k. Some (g - k))"
| "groups_end E g n (Some CurrentRow) = Some g"
| "groups_end E g n (Some (Following None)) = Some (n - 1)"
| "groups_end E g n (Some (Following (Some e))) = with_offset E e (\<lambda>k. Some (min (g + k) (n - 1)))"
| "groups_end E g n None = Some g"

definition both :: "nat panicking \<Rightarrow> nat panicking \<Rightarrow> (nat \<Rightarrow> nat \<Rightarrow> 'a panicking) \<Rightarrow> 'a panicking" where
  "both a b f = (case (a, b) of (Some s, Some e) \<Rightarrow> f s e | _ \<Rightarrow> None)"

definition group_frame :: "(nat \<times> nat) list \<Rightarrow> nat \<Rightarrow> nat \<Rightarrow> (nat \<times> nat) panicking" where
  "group_frame groups gs ge =
     (if max gs ge < length groups then Some (fst (groups ! min gs ge), snd (groups ! max ge gs)) else None)"

definition current_group :: "(nat \<times> nat) list \<Rightarrow> nat \<Rightarrow> nat" where
  "current_group groups pos =
     (case position (\<lambda>(s, e). s \<le> pos \<and> pos \<le> e) groups of Some g \<Rightarrow> g | None \<Rightarrow> 0)"

fun frame_bounds :: "eval_env \<Rightarrow> (nat \<Rightarrow> db_value panicking) \<Rightarrow> order_item list \<Rightarrow> nat \<Rightarrow> nat \<Rightarrow> window_frame
    \<Rightarrow> (nat \<times> nat) panicking" where
  "frame_bounds E val order len pos (WindowFrame units start_bound end_bound) =
     (let last_pos = len - 1
      in case units of
           FrameRows \<Rightarrow>
             both (rows_start E pos last_pos start_bound) (rows_end E pos last_pos end_bound)
               (\<lambda>s e. Some (ordered s e))
         | FrameRange \<Rightarrow>
             (if order = [] then Some (0, last_pos)
              else case val pos of
                     None \<Rightarrow> None
                   | Some cur \<Rightarrow>
                       both (range_start E val cur pos last_pos start_bound)
                         (range_end E val cur pos last_pos end_bound) (\<lambda>s e. Some (ordered s e)))
         | FrameGroups \<Rightarrow>
             (if order = [] then Some (0, last_pos)
              else case compute_group_bounds val order len of
                     None \<Rightarrow> None
                   | Some groups \<Rightarrow>
                       both (groups_start E (current_group groups pos) (length groups) start_bound)
                         (groups_end E (current_group groups pos) (length groups) end_bound)
                         (group_frame groups)))"

section \<open>Aggregates over a frame\<close>

fun evaluated :: "(row \<Rightarrow> db_value eres panicking) \<Rightarrow> row list \<Rightarrow> db_value list panicking" where
  "evaluated f rows = passing_values every_row f rows"

definition window_sum :: "(row \<Rightarrow> db_value eres panicking) \<Rightarrow> row list \<Rightarrow> db_value panicking" where
  "window_sum f rows =
     (case rows of
        [] \<Rightarrow> Some (sum_floats [])
      | r # _ \<Rightarrow>
          (case f r of
             None \<Rightarrow> None
           | Some (Inr (DInt _)) \<Rightarrow> map_option sum_ints (evaluated f rows)
           | Some _ \<Rightarrow> map_option sum_floats (evaluated f rows)))"

definition eval_window_aggregate :: "eval_env \<Rightarrow> col_map \<Rightarrow> rstr \<Rightarrow> row list \<Rightarrow> sql_expr option \<Rightarrow> db_value eres panicking" where
  "eval_window_aggregate E m name rows arg =
     (let f = (\<lambda>e r. eval_expr E r m e);
          needed = (\<lambda>msg g. case arg of None \<Rightarrow> perr (ExecError msg) | Some e \<Rightarrow> g (f e))
      in if name = ''count''
         then (case arg of
                 None \<Rightarrow> pok (count_value (length rows))
               | Some e \<Rightarrow>
                   map_option (\<lambda>vs. Inr (count_value (length (filter (\<lambda>v. v \<noteq> DNull) vs)))) (evaluated (f e) rows))
         else if name = ''sum'' then needed ''SUM requires an argument'' (\<lambda>g. map_option Inr (window_sum g rows))
         else if name = ''avg''
         then needed ''AVG requires an argument'' (\<lambda>g. map_option (\<lambda>vs. Inr (average vs)) (evaluated g rows))
         else if name = ''min''
         then needed ''MIN requires an argument'' (\<lambda>g.
                map_option (\<lambda>vs. or_empty ''MIN on empty frame'' (min_by db_value_cmp vs)) (evaluated g rows))
         else if name = ''max''
         then needed ''MAX requires an argument'' (\<lambda>g.
                map_option (\<lambda>vs. or_empty ''MAX on empty frame'' (max_by db_value_cmp vs)) (evaluated g rows))
         else perr (ExecError (quote_msg ''Aggregate '' name '' not supported as window function'')))"

section \<open>Partitions\<close>

text \<open>The values of the PARTITION BY expressions that evaluate.\<close>

fun partition_key :: "(sql_expr \<Rightarrow> db_value eres panicking) \<Rightarrow> sql_expr list \<Rightarrow> db_value list panicking" where
  "partition_key f [] = Some []"
| "partition_key f (e # es) =
     (case f e of
        None \<Rightarrow> None
      | Some (Inl _) \<Rightarrow> partition_key f es
      | Some (Inr v) \<Rightarrow> map_option ((#) v) (partition_key f es))"

fun add_to_partition :: "db_value list \<Rightarrow> nat \<Rightarrow> (db_value list \<times> nat list) list \<Rightarrow> (db_value list \<times> nat list) list" where
  "add_to_partition k i [] = [(k, [i])]"
| "add_to_partition k i ((k', is) # gs) =
     (if list_all2 db_eq k' k then (k', is @ [i]) # gs else (k', is) # add_to_partition k i gs)"

fun partition_rows :: "(row \<Rightarrow> db_value list panicking) \<Rightarrow> (nat \<times> row) list \<Rightarrow> (db_value list \<times> nat list) list
    \<Rightarrow> (db_value list \<times> nat list) list panicking" where
  "partition_rows key [] gs = Some gs"
| "partition_rows key ((i, r) # irs) gs =
     (case key r of None \<Rightarrow> None | Some k \<Rightarrow> partition_rows key irs (add_to_partition k i gs))"

definition window_partitions :: "eval_env \<Rightarrow> col_map \<Rightarrow> sql_expr list \<Rightarrow> row list \<Rightarrow> nat list list panicking" where
  "window_partitions E m by rows =
     (if by = [] then Some [[0..<length rows]]
      else map_option (map snd)
        (partition_rows (\<lambda>r. partition_key (eval_expr E r m) by) (enumerate 0 rows) []))"

definition sort_partition :: "eval_env \<Rightarrow> col_map \<Rightarrow> order_item list \<Rightarrow> row list \<Rightarrow> nat list \<Rightarrow> nat list panicking" where
  "sort_partition E m order rows part =
     (if order = [] then Some part
      else sort_by (\<lambda>a b. compare_rows E m order (rows ! a) (rows ! b)) part)"

section \<open>The window functions\<close>

text \<open>Whether two neighbours agree on every ORDER BY value.\<close>

fun peers_equal :: "eval_env \<Rightarrow> col_map \<Rightarrow> order_item list \<Rightarrow> row \<Rightarrow> row \<Rightarrow> bool panicking" where
  "peers_equal E m [] cur prev = Some True"
| "peers_equal E m ((e, _) # items) cur prev =
     (case (eval_expr E cur m e, eval_expr E prev m e) of
        (Some a, Some b) \<Rightarrow>
          (if \<not> db_eq (or_null a) (or_null b) then Some False else peers_equal E m items cur prev)
      | _ \<Rightarrow> None)"

text \<open>RANK and DENSE_RANK walk the partition; \<open>next\<close> gives the rank of a row that differs from its
  predecessor from the rank before and the position.\<close>

fun ranks_from :: "(nat \<Rightarrow> nat \<Rightarrow> bool panicking) \<Rightarrow> (nat \<Rightarrow> nat \<Rightarrow> nat) \<Rightarrow> nat \<Rightarrow> nat \<Rightarrow> nat \<Rightarrow> nat list
    \<Rightarrow> (nat \<times> nat) list panicking" where
  "ranks_from eq nxt prev rank pos [] = Some []"
| "ranks_from eq nxt prev rank pos (i # is) =
     (case eq i prev of
        None \<Rightarrow> None
      | Some same \<Rightarrow>
          (let r = (if same then rank else nxt rank pos)
           in map_option ((#) (i, r)) (ranks_from eq nxt i r (pos + 1) is)))"

fun ranks :: "(nat \<Rightarrow> nat \<Rightarrow> bool panicking) \<Rightarrow> (nat \<Rightarrow> nat \<Rightarrow> nat) \<Rightarrow> nat list \<Rightarrow> (nat \<times> nat) list panicking" where
  "ranks eq nxt [] = Some []"
| "ranks eq nxt (i # is) = map_option ((#) (i, 1)) (ranks_from eq nxt i 1 1 is)"

definition rank_next :: "nat \<Rightarrow> nat \<Rightarrow> nat" where "rank_next rank pos = pos + 1"
definition dense_next :: "nat \<Rightarrow> nat \<Rightarrow> nat" where "dense_next rank pos = rank + 1"

text \<open>\<open>f as usize\<close> for a float that is not negative.\<close>

definition f64_as_usize :: "f64 \<Rightarrow> nat" where
  "f64_as_usize f = (if f64_is_inf f then 2 ^ 64 - 1 else min (2 ^ 64 - 1) (nat (f64_num f) div f64_unit_den))"

definition call_args :: "func_args \<Rightarrow> func_arg list" where
  "call_args args = (case args of ArgList as \<Rightarrow> as | _ \<Rightarrow> [])"

definition nth_arg :: "func_args \<Rightarrow> nat \<Rightarrow> sql_expr option" where
  "nth_arg args n =
     (if n < length (call_args args)
      then (case get_func_arg_unnamed (call_args args ! n) of Inr e \<Rightarrow> Some e | Inl _ \<Rightarrow> None) else None)"

definition shift_offset :: "eval_env \<Rightarrow> func_args \<Rightarrow> nat panicking" where
  "shift_offset E args =
     (case nth_arg args 1 of
        None \<Rightarrow> Some 1
      | Some e \<Rightarrow>
          map_option (\<lambda>v. case v of
              Inr (DInt i) \<Rightarrow> nat (max (sint i) 0)
            | Inr (DFloat f) \<Rightarrow> (if f64_ge f f64_zero then f64_as_usize f else 1)
            | _ \<Rightarrow> 1) (eval_literal_expr E e))"

definition value_at :: "eval_env \<Rightarrow> col_map \<Rightarrow> row list \<Rightarrow> sql_expr option \<Rightarrow> nat \<Rightarrow> db_value panicking" where
  "value_at E m rows e i =
     (case e of None \<Rightarrow> Some DNull | Some x \<Rightarrow> map_option or_null (eval_expr E (rows ! i) m x))"

text \<open>LAG and LEAD: the row \<open>offset\<close> positions away in the partition, or the default on this row.\<close>

definition shifted_cell :: "eval_env \<Rightarrow> col_map \<Rightarrow> row list \<Rightarrow> bool \<Rightarrow> func_args \<Rightarrow> nat \<Rightarrow> nat list \<Rightarrow> nat
    \<Rightarrow> db_value panicking" where
  "shifted_cell E m rows lag args off part pos =
     (let target = (if lag then (if off \<le> pos then Some (pos - off) else None) else Some (pos + off))
      in case target of
           None \<Rightarrow> value_at E m rows (nth_arg args 2) (part ! pos)
         | Some k \<Rightarrow>
             (if k < length part then value_at E m rows (nth_arg args 0) (part ! k)
              else value_at E m rows (nth_arg args 2) (part ! pos)))"

definition arg_of :: "func_args \<Rightarrow> sql_expr option" where
  "arg_of args = (case extract_func_arg args of Inr e \<Rightarrow> Some e | Inl _ \<Rightarrow> None)"

definition frame_at :: "eval_env \<Rightarrow> col_map \<Rightarrow> row list \<Rightarrow> order_item list \<Rightarrow> nat list \<Rightarrow> nat \<Rightarrow> window_frame
    \<Rightarrow> (nat \<times> nat) panicking" where
  "frame_at E m rows order part pos fr =
     frame_bounds E (\<lambda>k. order_by_value E m order rows (part ! k)) order (length part) pos fr"

definition edge_cell :: "eval_env \<Rightarrow> col_map \<Rightarrow> row list \<Rightarrow> bool \<Rightarrow> func_args \<Rightarrow> order_item list
    \<Rightarrow> window_frame option \<Rightarrow> nat list \<Rightarrow> nat \<Rightarrow> db_value panicking" where
  "edge_cell E m rows first args order frame part pos =
     (case (case frame of None \<Rightarrow> Some (0, length part - 1) | Some fr \<Rightarrow> frame_at E m rows order part pos fr) of
        None \<Rightarrow> None
      | Some (fs, fe) \<Rightarrow>
          (let k = (if first then fs else fe)
           in if k < length part then value_at E m rows (arg_of args) (part ! k) else Some DNull))"

text \<open>\<open>part_indices[fs..=fe]\<close>.\<close>

definition frame_slice :: "'a list \<Rightarrow> nat \<Rightarrow> nat \<Rightarrow> 'a list panicking" where
  "frame_slice xs fs fe = (if fs \<le> fe + 1 \<and> fe < length xs then Some (take (fe + 1 - fs) (drop fs xs)) else None)"

definition aggregate_frame :: "eval_env \<Rightarrow> col_map \<Rightarrow> row list \<Rightarrow> order_item list \<Rightarrow> window_frame option
    \<Rightarrow> nat list \<Rightarrow> nat \<Rightarrow> (nat \<times> nat) panicking" where
  "aggregate_frame E m rows order frame part pos =
     (case frame of
        Some fr \<Rightarrow> frame_at E m rows order part pos fr
      | None \<Rightarrow> Some (0, if order \<noteq> [] then pos else length part - 1))"

definition aggregate_window_cell :: "eval_env \<Rightarrow> col_map \<Rightarrow> row list \<Rightarrow> rstr \<Rightarrow> func_args \<Rightarrow> order_item list
    \<Rightarrow> window_frame option \<Rightarrow> nat list \<Rightarrow> nat \<Rightarrow> db_value eres panicking" where
  "aggregate_window_cell E m rows name args order frame part pos =
     (case aggregate_frame E m rows order frame part pos of
        None \<Rightarrow> None
      | Some (fs, fe) \<Rightarrow>
          (case frame_slice part fs fe of
             None \<Rightarrow> None
           | Some is \<Rightarrow> eval_window_aggregate E m name (map ((!) rows) is) (arg_of args)))"

text \<open>One cell per position; the first error stops.\<close>

fun cells_of :: "(nat \<Rightarrow> db_value eres panicking) \<Rightarrow> (nat \<times> nat) list \<Rightarrow> (nat \<times> db_value) list eres panicking" where
  "cells_of f [] = pok []"
| "cells_of f ((pos, i) # ps) = pbind (f pos) (\<lambda>v. pbind (cells_of f ps) (\<lambda>vs. pok ((i, v) # vs)))"

definition rank_cells :: "(nat \<times> nat) list panicking \<Rightarrow> (nat \<times> db_value) list eres panicking" where
  "rank_cells rs = map_option (\<lambda>l. Inr (map (\<lambda>(i, r). (i, count_value r)) l)) rs"

text \<open>The cells of one ordered partition.  DENSE_RANK is computed twice in the code, the second time
  over the first.\<close>

definition partition_cells :: "eval_env \<Rightarrow> col_map \<Rightarrow> row list \<Rightarrow> rstr \<Rightarrow> func_args \<Rightarrow> order_item list
    \<Rightarrow> window_frame option \<Rightarrow> nat list \<Rightarrow> (nat \<times> db_value) list eres panicking" where
  "partition_cells E m rows name args order frame part =
     (let eq = (\<lambda>a b. peers_equal E m order (rows ! a) (rows ! b));
          each = (\<lambda>f. cells_of f (enumerate 0 part))
      in if name = ''row_number'' then each (\<lambda>pos. pok (count_value (pos + 1)))
         else if name = ''rank'' then rank_cells (ranks eq rank_next part)
         else if name = ''dense_rank'' then rank_cells (ranks eq dense_next part)
         else if name = ''lag'' \<or> name = ''lead''
         then (case shift_offset E args of
                 None \<Rightarrow> None
               | Some off \<Rightarrow>
                   each (\<lambda>pos. map_option Inr (shifted_cell E m rows (name = ''lag'') args off part pos)))
         else if name = ''first_value'' \<or> name = ''last_value''
         then each (\<lambda>pos. map_option Inr (edge_cell E m rows (name = ''first_value'') args order frame part pos))
         else if name \<in> {''count'', ''sum'', ''avg'', ''min'', ''max''}
         then each (aggregate_window_cell E m rows name args order frame part)
         else perr (ExecError (quote_msg ''Window function '' name '' not supported'')))"

definition set_cells :: "(nat \<times> db_value) list \<Rightarrow> db_value list \<Rightarrow> db_value list" where
  "set_cells cells computed = fold (\<lambda>(i, v) acc. acc[i := v]) cells computed"

fun all_partitions :: "(nat list \<Rightarrow> nat list panicking) \<Rightarrow> (nat list \<Rightarrow> (nat \<times> db_value) list eres panicking)
    \<Rightarrow> nat list list \<Rightarrow> db_value list \<Rightarrow> db_value list eres panicking" where
  "all_partitions srt cells [] computed = pok computed"
| "all_partitions srt cells (p # ps) computed =
     (case srt p of
        None \<Rightarrow> None
      | Some q \<Rightarrow> pbind (cells q) (\<lambda>cs. all_partitions srt cells ps (set_cells cs computed)))"

text \<open>The window call of an item, when its OVER clause is a specification.\<close>

fun window_call :: "sql_expr \<Rightarrow> (rstr \<times> func_args \<times> sql_expr list \<times> order_item list \<times> window_frame option) option" where
  "window_call (Function nm args mods) =
     (case call_over mods of
        Some (WindowSpec by order frame) \<Rightarrow> Some (nm, args, by, order, frame)
      | _ \<Rightarrow> None)"
| "window_call _ = None"

definition window_column :: "eval_env \<Rightarrow> col_map \<Rightarrow> row list
    \<Rightarrow> (rstr \<times> func_args \<times> sql_expr list \<times> order_item list \<times> window_frame option)
    \<Rightarrow> db_value list eres panicking" where
  "window_column E m rows c =
     (case c of (nm, args, by, order, frame) \<Rightarrow>
        (case window_partitions E m by rows of
           None \<Rightarrow> None
         | Some parts \<Rightarrow>
             all_partitions (sort_partition E m order rows)
               (partition_cells E m rows (to_lowercase (env_unicode E) nm) args order frame)
               parts (replicate (length rows) DNull)))"

fun window_items :: "eval_env \<Rightarrow> col_map \<Rightarrow> select_item list \<Rightarrow> row list \<Rightarrow> row list eres panicking" where
  "window_items E m [] rows = pok rows"
| "window_items E m (it # its) rows =
     (case Option.bind (item_expr it) window_call of
        None \<Rightarrow> window_items E m its rows
      | Some c \<Rightarrow>
          pbind (window_column E m rows c) (\<lambda>vs.
            window_items E m its (map (\<lambda>(r, v). r @ [v]) (zip rows vs))))"

definition compute_window_functions :: "eval_env \<Rightarrow> col_map \<Rightarrow> select_item list \<Rightarrow> row list \<Rightarrow> row list eres panicking" where
  "compute_window_functions E m items rows = (if rows = [] then pok [] else window_items E m items rows)"

end
