(* ===== verification/Select.thy ===== *)
theory Select
  imports Window Lookup Ddl
begin

text \<open>
  \<open>execute/select.rs\<close> and the table resolution of \<open>builtin.rs\<close>: SELECT over one table or view.  The
  pipeline is WHERE, grouping, HAVING, aggregates or DISTINCT, window functions, ORDER BY, LIMIT and
  the projection.  FROM lists with joins, several tables or derived tables go to another executor,
  an argument here, as are the parser and the executor of a view's text.
\<close>

section \<open>Which clauses hold a subquery\<close>

definition unnamed_exprs :: "func_args \<Rightarrow> sql_expr list" where
  "unnamed_exprs args =
     (case args of
        ArgList as \<Rightarrow> List.map_filter (\<lambda>a. case a of Unnamed (ArgExpr e) \<Rightarrow> Some e | _ \<Rightarrow> None) as
      | _ \<Rightarrow> [])"

lemma unnamed_exprs_size [termination_simp]: "e \<in> set (unnamed_exprs args) \<Longrightarrow> size e < size args"
proof (cases args)
  case (ArgList as)
  assume "e \<in> set (unnamed_exprs args)"
  then obtain a where a: "a \<in> set as" "(case a of Unnamed (ArgExpr e) \<Rightarrow> Some e | _ \<Rightarrow> None) = Some e"
    using ArgList by (auto simp: unnamed_exprs_def set_map_filter)
  from a(2) have "a = Unnamed (ArgExpr e)" by (cases a rule: get_func_arg_unnamed.cases) auto
  with a(1) have "Unnamed (ArgExpr e) \<in> set as" by simp
  then have "size (Unnamed (ArgExpr e)) < Suc (size_list size as)"
    by (metis less_Suc_eq size_list_estimation' order_refl le_imp_less_Suc)
  then show ?thesis using ArgList by simp
qed (simp_all add: unnamed_exprs_def)

fun expr_has_subquery :: "sql_expr \<Rightarrow> bool" where
  "expr_has_subquery (Subquery q) = True"
| "expr_has_subquery (Exists q neg) = True"
| "expr_has_subquery (InSubquery e q neg) = True"
| "expr_has_subquery (BinaryOp l opr r) = (expr_has_subquery l \<or> expr_has_subquery r)"
| "expr_has_subquery (UnaryOp opr e) = expr_has_subquery e"
| "expr_has_subquery (Nested e) = expr_has_subquery e"
| "expr_has_subquery (Function nm args mods) =
     ((\<exists>q. args = SubqueryArgs q) \<or> list_ex expr_has_subquery (unnamed_exprs args))"
| "expr_has_subquery (InList e es neg) = (expr_has_subquery e \<or> list_ex expr_has_subquery es)"
| "expr_has_subquery (Between e l h neg) = (expr_has_subquery e \<or> expr_has_subquery l \<or> expr_has_subquery h)"
| "expr_has_subquery (Case op cs els) =
     ((case op of Some e \<Rightarrow> expr_has_subquery e | None \<Rightarrow> False) \<or>
      list_ex (\<lambda>(c, r). expr_has_subquery c \<or> expr_has_subquery r) cs)"
| "expr_has_subquery (Cast e t) = expr_has_subquery e"
| "expr_has_subquery (Substring e a b) = expr_has_subquery e"
| "expr_has_subquery _ = False"

definition option_has_subquery :: "sql_expr option \<Rightarrow> bool" where
  "option_has_subquery o1 = (case o1 of Some e \<Rightarrow> expr_has_subquery e | None \<Rightarrow> False)"

definition needs_snapshot :: "select \<Rightarrow> bool" where
  "needs_snapshot sel =
     (list_ex (\<lambda>it. option_has_subquery (item_expr it)) (sel_projection sel) \<or>
      option_has_subquery (sel_selection sel) \<or>
      list_ex expr_has_subquery (group_exprs sel) \<or>
      option_has_subquery (sel_having sel))"

text \<open>The cache of subquery results, which is cleared too, only saves work and is left out.\<close>

definition set_subq_snapshot_if_needed :: "select \<Rightarrow> 'ast session \<Rightarrow> 'ast session" where
  "set_subq_snapshot_if_needed sel s = (if needs_snapshot sel then s\<lparr>se_snapshot := Some (se_db s)\<rparr> else s)"

section \<open>Views\<close>

fun json_type_to_column :: "json \<Rightarrow> column_type" where
  "json_type_to_column (JBool _) = TBool"
| "json_type_to_column (JNumber (JFloat _)) = TFloat"
| "json_type_to_column (JNumber _) = TInt"
| "json_type_to_column _ = TString"

text \<open>\<open>let _ = table.insert(..)\<close>: a row that is refused is left out.\<close>

fun insert_ignoring :: "eval_env \<Rightarrow> row list \<Rightarrow> table \<Rightarrow> table panicking" where
  "insert_ignoring E [] t = Some t"
| "insert_ignoring E (r # rs) t =
     (case insert_row E r t of
        None \<Rightarrow> None
      | Some (Inl _) \<Rightarrow> insert_ignoring E rs t
      | Some (Inr t') \<Rightarrow> insert_ignoring E rs t')"

definition view_column :: "unicode \<Rightarrow> json list option \<Rightarrow> nat \<times> json \<Rightarrow> column" where
  "view_column U first ih =
     (let (i, h) = ih
      in plain_column (to_lowercase U (case json_as_str h of Some x \<Rightarrow> x | None \<Rightarrow> ''col''))
           (case first of
              Some r \<Rightarrow> (if i < length r then json_type_to_column (r ! i) else TString)
            | None \<Rightarrow> TString))"

definition view_table :: "eval_env \<Rightarrow> json_printer \<Rightarrow> rstr \<Rightarrow> json list \<Rightarrow> json list list \<Rightarrow> table option panicking" where
  "view_table E J n header rows =
     (case new_table n (map (view_column (env_unicode E) (case rows of r # _ \<Rightarrow> Some r | [] \<Rightarrow> None)) (enumerate 0 header)) of
        Inl _ \<Rightarrow> Some None
      | Inr t \<Rightarrow> map_option Some (insert_ignoring E (map (map (json_val_to_dbvalue J)) rows) t))"

definition materialize_view :: "('ast, 'stmt) host \<Rightarrow> (rstr \<Rightarrow> 'stmt list sres) \<Rightarrow> ('stmt \<Rightarrow> ('ast, rstr) exec)
    \<Rightarrow> rstr \<Rightarrow> ('ast, unit) exec" where
  "materialize_view H parse ex n s =
     (case get_view n (se_db s) of
        None \<Rightarrow> Some (Inl (ViewNotFound n), s)
      | Some sql \<Rightarrow>
          (case parse sql of
             Inl e \<Rightarrow> Some (Inl (ParseError e), s)
           | Inr [] \<Rightarrow> Some (Inl (ExecError ''View definition is empty''), s)
           | Inr (st # _) \<Rightarrow>
               xbind (ex st) (\<lambda>text s1.
                 case host_json_rows H text of
                   Inl e \<Rightarrow> Some (Inl (ExecError (''View result parse: '' @ e)), s1)
                 | Inr [] \<Rightarrow> Some (Inr (), s1)
                 | Inr (header # rows) \<Rightarrow>
                     map_option (\<lambda>t. (Inr (), case t of Some t' \<Rightarrow> put_table n t' s1 | None \<Rightarrow> s1))
                       (view_table (host_env H s1) (host_json H) n header rows)) s))"

definition resolve_single_table :: "unicode \<Rightarrow> table_with_joins list \<Rightarrow> 'ast database \<Rightarrow> table eres" where
  "resolve_single_table U from db =
     (case from of
        [] \<Rightarrow> Inl (ExecError ''No FROM clause'')
      | (FromTable nm _, _) # _ \<Rightarrow> xlift (get_table (object_name_str U nm) db)
      | _ \<Rightarrow> Inl (ExecError ''Only simple table references supported in FROM''))"

text \<open>The view that FROM names, when no table has its name.\<close>

definition view_in_from :: "unicode \<Rightarrow> table_with_joins list \<Rightarrow> 'ast database \<Rightarrow> rstr option" where
  "view_in_from U from db =
     (case from of
        (FromTable nm _, _) # _ \<Rightarrow>
          (let n = object_name_str U nm in if \<not> has_table n db \<and> has_view n db then Some n else None)
      | _ \<Rightarrow> None)"

section \<open>The query\<close>

datatype order_by = OrderExprs "order_item list" | OrderAll

text \<open>The body is a SELECT or something else; of the WITH clauses only whether one has a subquery.\<close>

record select_query =
  sq_body :: "select option"
  sq_order_by :: "order_by option"
  sq_limit :: "limit_clause option"
  sq_with_nested :: bool

definition has_multiple_tables :: "select \<Rightarrow> bool" where
  "has_multiple_tables sel =
     (1 < length (sel_from sel) \<or> list_ex (\<lambda>f. snd f \<noteq> []) (sel_from sel) \<or>
      list_ex (\<lambda>f. case fst f of FromDerived _ _ _ \<Rightarrow> True | _ \<Rightarrow> False) (sel_from sel))"

type_synonym result_rows = "rstr list \<times> row list"

section \<open>Without FROM\<close>

fun bare_header :: "unicode \<Rightarrow> select_item \<Rightarrow> rstr" where
  "bare_header U SelectWildcard = ''*''"
| "bare_header U it = item_header U it"

fun empty_header :: "unicode \<Rightarrow> select_item \<Rightarrow> rstr" where
  "empty_header U (OtherItem _) = ''*''"
| "empty_header U it = bare_header U it"

definition bare_cell :: "eval_env \<Rightarrow> select_item \<Rightarrow> db_value panicking" where
  "bare_cell E it =
     (case item_expr it of None \<Rightarrow> Some DNull | Some e \<Rightarrow> map_option or_null (eval_expr E [] Map.empty e))"

definition bare_select :: "eval_env \<Rightarrow> select \<Rightarrow> result_rows panicking" where
  "bare_select E sel =
     (case keeps_row E Map.empty (sel_selection sel) [] of
        None \<Rightarrow> None
      | Some False \<Rightarrow> Some (map (empty_header (env_unicode E)) (sel_projection sel), [])
      | Some True \<Rightarrow>
          map_option (\<lambda>cells. (map (bare_header (env_unicode E)) (sel_projection sel), [cells]))
            (map_option_list (bare_cell E) (sel_projection sel)))"

section \<open>DISTINCT\<close>

text \<open>What DISTINCT compares: the DISTINCT ON expressions, or the projection's expressions that have no
  alias; those that fail to evaluate are left out.\<close>

definition distinct_exprs :: "distinct_clause \<Rightarrow> select_item list \<Rightarrow> sql_expr list" where
  "distinct_exprs d items =
     (case d of
        DistinctOn es \<Rightarrow> es
      | DistinctRows \<Rightarrow> List.map_filter (\<lambda>it. case it of UnnamedExpr e \<Rightarrow> Some e | _ \<Rightarrow> None) items)"

fun dedup :: "(row \<Rightarrow> db_value list panicking) \<Rightarrow> db_value list list \<Rightarrow> row list \<Rightarrow> row list panicking" where
  "dedup key seen [] = Some []"
| "dedup key seen (r # rs) =
     (case key r of
        None \<Rightarrow> None
      | Some k \<Rightarrow>
          (if list_ex (group_key_eq k) seen then dedup key seen rs
           else map_option ((#) r) (dedup key (seen @ [k]) rs)))"

definition distinct_rows :: "eval_env \<Rightarrow> col_map \<Rightarrow> select \<Rightarrow> row list \<Rightarrow> row list panicking" where
  "distinct_rows E m sel rows =
     (case sel_distinct sel of
        None \<Rightarrow> Some rows
      | Some d \<Rightarrow> dedup (\<lambda>r. partition_key (eval_expr E r m) (distinct_exprs d (sel_projection sel))) [] rows)"

section \<open>The projection\<close>

definition project_cell :: "eval_env \<Rightarrow> col_map \<Rightarrow> nat \<Rightarrow> select_item \<Rightarrow> row \<Rightarrow> db_value panicking" where
  "project_cell E m win it r =
     (case item_expr it of
        None \<Rightarrow> Some DNull
      | Some e \<Rightarrow>
          (if is_window e \<and> win < length r then Some (r ! win)
           else map_option or_null (eval_expr E r m e)))"

fun project_row :: "eval_env \<Rightarrow> col_map \<Rightarrow> nat \<Rightarrow> select_item list \<Rightarrow> row \<Rightarrow> row panicking" where
  "project_row E m win [] r = Some []"
| "project_row E m win (it # its) r =
     (case project_cell E m win it r of
        None \<Rightarrow> None
      | Some c \<Rightarrow> map_option ((#) c) (project_row E m (next_window win it) its r))"

definition project_cells :: "eval_env \<Rightarrow> col_map \<Rightarrow> select_item list \<Rightarrow> table \<Rightarrow> row list \<Rightarrow> result_rows panicking" where
  "project_cells E m items t rows =
     (if SelectWildcard \<in> set items then Some (map col_name (tbl_columns t), rows)
      else map_option (\<lambda>rs. (map (item_header (env_unicode E)) items, rs))
        (map_option_list (project_row E m (card (dom m)) items) rows))"

text \<open>\<open>format_rows_json\<close>: \<open>[]\<close> without a header, else the header and the rows.\<close>

definition format_rows_json :: "rstr list \<Rightarrow> row list \<Rightarrow> rstr" where
  "format_rows_json header rows =
     (if header = [] then ''[]''
      else bracketed (bracketed (map quoted header) # map (\<lambda>r. bracketed (map to_json_string r)) rows))"

section \<open>The pipeline over one table\<close>

text \<open>The outer result is an early return, which leaves a materialised view behind; the inner one is
  returned after the view is dropped.\<close>

type_synonym 'a staged = "'a eres eres panicking"

definition order_items :: "order_by option \<Rightarrow> order_item list" where
  "order_items o1 = (case o1 of Some (OrderExprs es) \<Rightarrow> es | _ \<Rightarrow> [])"

definition having_groups :: "eval_env \<Rightarrow> col_map \<Rightarrow> select \<Rightarrow> row list list \<Rightarrow> row list list panicking" where
  "having_groups E m sel parts =
     (case sel_having sel of None \<Rightarrow> Some parts | Some h \<Rightarrow> filter_rows (having_keeps E m h) parts)"

definition select_aggregates :: "eval_env \<Rightarrow> col_map \<Rightarrow> select_query \<Rightarrow> select \<Rightarrow> row list \<Rightarrow> result_rows staged" where
  "select_aggregates E m q sel rows =
     pbind (if has_group_by sel then partition_by_group E m sel rows else pok [rows]) (\<lambda>parts.
       case having_groups E m sel parts of
         None \<Rightarrow> None
       | Some kept \<Rightarrow>
           (case sort_partitions E m (order_items (sq_order_by q)) kept of
              None \<Rightarrow> None
            | Some sorted_parts \<Rightarrow>
                map_option Inr (compute_aggregate_rows E m (sel_projection sel) sorted_parts)))"

text \<open>\<open>p[0]\<close> of each group.\<close>

definition first_rows :: "row list list \<Rightarrow> row list panicking" where
  "first_rows parts = map_option_list (\<lambda>p. case p of [] \<Rightarrow> None | r # _ \<Rightarrow> Some r) parts"

definition grouped_rows :: "eval_env \<Rightarrow> col_map \<Rightarrow> select \<Rightarrow> row list \<Rightarrow> row list eres panicking" where
  "grouped_rows E m sel rows =
     (if has_group_by sel
      then pbind (partition_by_group E m sel rows) (\<lambda>parts.
        case having_groups E m sel parts of
          None \<Rightarrow> None
        | Some kept \<Rightarrow> map_option Inr (first_rows kept))
      else pok rows)"

definition order_rows :: "eval_env \<Rightarrow> col_map \<Rightarrow> order_by option \<Rightarrow> row list \<Rightarrow> row list eres panicking" where
  "order_rows E m order rows =
     (case order of
        None \<Rightarrow> pok rows
      | Some OrderAll \<Rightarrow> perr (ExecError ''ORDER BY ALL not supported'')
      | Some (OrderExprs es) \<Rightarrow> (if es = [] then pok rows else sort_rows E rows es m))"

definition select_plain :: "eval_env \<Rightarrow> select_query \<Rightarrow> select \<Rightarrow> table \<Rightarrow> row list \<Rightarrow> result_rows staged" where
  "select_plain E q sel t rows =
     (let m = tbl_col_index t; items = sel_projection sel
      in pbind (grouped_rows E m sel rows) (\<lambda>grouped.
           case distinct_rows E m sel grouped of
             None \<Rightarrow> None
           | Some deduped \<Rightarrow>
               pbind (if has_window_function items then compute_window_functions E m items deduped else pok deduped)
                 (\<lambda>windowed.
               pbind (order_rows E m (sq_order_by q) windowed) (\<lambda>ordered_rows.
                 case apply_limit_offset ordered_rows (sq_limit q) of
                   None \<Rightarrow> None
                 | Some page \<Rightarrow> map_option (\<lambda>res. Inr (Inr res)) (project_cells E m items t page)))))"

definition select_from_table :: "eval_env \<Rightarrow> (rstr set \<Rightarrow> rstr list) \<Rightarrow> (nat set \<Rightarrow> nat list) \<Rightarrow> select_query \<Rightarrow> select
    \<Rightarrow> table \<Rightarrow> result_rows staged" where
  "select_from_table E ord visit q sel t =
     (case where_rows E ord visit (sel_selection sel) t of
        None \<Rightarrow> None
      | Some rows \<Rightarrow>
          (if has_aggregate (env_unicode E) (sel_projection sel)
           then select_aggregates E (tbl_col_index t) q sel rows
           else select_plain E q sel t rows))"

section \<open>The executor\<close>

text \<open>The parser of view texts, the executor of statements, the executor of multi-table SELECTs (\<open>Joins\<close>),
  the executor of a derived table's query, what is asked of that query (is it correlated, does it hold
  a subquery), and the orders in which hash sets are walked.\<close>

record ('ast, 'stmt) select_host =
  sx_host :: "('ast, 'stmt) host"
  sx_parse :: "rstr \<Rightarrow> 'stmt list sres"
  sx_execute :: "'stmt \<Rightarrow> ('ast, rstr) exec"
  sx_joins :: "select_query \<Rightarrow> select \<Rightarrow> ('ast, result_rows) exec"
  sx_joins_json :: "select_query \<Rightarrow> select \<Rightarrow> ('ast, rstr) exec"
  sx_query :: "query \<Rightarrow> ('ast, rstr) exec"
  sx_correlated :: "query \<Rightarrow> bool"
  sx_nested :: "query \<Rightarrow> bool"
  sx_ord :: "rstr set \<Rightarrow> rstr list"
  sx_visit :: "nat set \<Rightarrow> nat list"

definition drop_views :: "rstr option \<Rightarrow> 'ast session \<Rightarrow> 'ast session" where
  "drop_views v s =
     (case v of
        None \<Rightarrow> s
      | Some n \<Rightarrow> (case drop_table n (se_db s) of Inr db \<Rightarrow> s\<lparr>se_db := db\<rparr> | Inl _ \<Rightarrow> s))"

definition run_select :: "('ast, 'stmt) select_host \<Rightarrow> select_query \<Rightarrow> select \<Rightarrow> rstr option \<Rightarrow> ('ast, result_rows) exec" where
  "run_select X q sel v s =
     (let U = env_unicode (host_env (sx_host X) s)
      in case resolve_single_table U (sel_from sel) (se_db s) of
           Inl e \<Rightarrow> Some (Inl e, s)
         | Inr t \<Rightarrow>
             (let s1 = set_subq_snapshot_if_needed sel s
              in case select_from_table (host_env (sx_host X) s1) (sx_ord X) (sx_visit X) q sel t of
                   None \<Rightarrow> None
                 | Some (Inl e) \<Rightarrow> Some (Inl e, s1)
                 | Some (Inr res) \<Rightarrow> Some (res, drop_views v s1)))"

definition exec_select_rows :: "('ast, 'stmt) select_host \<Rightarrow> select_query \<Rightarrow> ('ast, result_rows) exec" where
  "exec_select_rows X q s =
     (let H = sx_host X
      in case sq_body q of
           None \<Rightarrow> Some (Inl (ExecError ''Only SELECT statements supported''), s)
         | Some sel \<Rightarrow>
             (if has_multiple_tables sel then sx_joins X q sel s
              else if sel_from sel = []
              then (let s1 = set_subq_snapshot_if_needed sel s
                    in map_option (\<lambda>res. (Inr res, s1)) (bare_select (host_env H s1) sel))
              else case view_in_from (env_unicode (host_env H s)) (sel_from sel) (se_db s) of
                     None \<Rightarrow> run_select X q sel None s
                   | Some n \<Rightarrow>
                       xbind (materialize_view H (sx_parse X) (sx_execute X) n) (\<lambda>_. run_select X q sel (Some n)) s))"

definition exec_select :: "('ast, 'stmt) select_host \<Rightarrow> select_query \<Rightarrow> ('ast, rstr) exec" where
  "exec_select X q s =
     (case sq_body q of
        None \<Rightarrow> Some (Inl (ExecError ''Only SELECT statements supported''), s)
      | Some sel \<Rightarrow>
          (if has_multiple_tables sel then sx_joins_json X q sel s
           else xbind (exec_select_rows X q) (\<lambda>(header, rows). xret (format_rows_json header rows)) s))"

end
