(* ===== verification/RowGroups.thy ===== *)
theory RowGroups
  imports Select
begin

text \<open>
  The grouping that GROUP BY and DISTINCT promise, as a function on the rows alone, and that the code's
  insertion-ordered hash map computes it.
\<close>

section \<open>Groups\<close>

text \<open>The grouping that GROUP BY promises: the rows with the first row's key, then the groups of the others.\<close>

function group_spec :: "('r \<Rightarrow> db_value list) \<Rightarrow> 'r list \<Rightarrow> 'r list list" where
  "group_spec key [] = []"
| "group_spec key (r # rs) =
     filter (\<lambda>x. group_key_eq (key x) (key r)) (r # rs) #
     group_spec key (filter (\<lambda>x. \<not> group_key_eq (key x) (key r)) rs)"
  by pat_completeness auto
termination
  by (relation "measure (\<lambda>(_, rs). length rs)") (auto simp: le_imp_less_Suc)

lemma group_values_equal_hash: "group_values_equal a b \<longleftrightarrow> hash_group_value a = hash_group_value b"
  using hash_front [of a "[]" b "[]"] hash_same by auto

lemma group_key_eq_hash: "group_key_eq a b \<longleftrightarrow> map hash_group_value a = map hash_group_value b"
  by (simp add: group_key_eq_iff group_values_equal_hash list_all2_conv_all_nth list_eq_iff_nth_eq)
    (auto simp: list_eq_iff_nth_eq)

lemma group_key_refl [simp]: "group_key_eq a a"
  by (simp add: group_key_eq_hash)

lemma group_key_sym: "group_key_eq a b \<longleftrightarrow> group_key_eq b a"
  by (auto simp: group_key_eq_hash)

lemma group_key_trans: "group_key_eq a b \<Longrightarrow> group_key_eq b c \<Longrightarrow> group_key_eq a c"
  by (simp add: group_key_eq_hash)

text \<open>Adding rows one by one to a list of groups with distinct keys.\<close>

definition extend_groups :: "(db_value list \<times> 'r list) list \<Rightarrow> ('r \<Rightarrow> db_value list) \<Rightarrow> 'r list \<Rightarrow> 'r list list" where
  "extend_groups gs key rs =
     map (\<lambda>(k, g). g @ filter (\<lambda>x. group_key_eq (key x) k) rs) gs @
     group_spec key (filter (\<lambda>x. \<forall>(k, g) \<in> set gs. \<not> group_key_eq (key x) k) rs)"

abbreviation apart_keys :: "(db_value list \<times> 'r list) list \<Rightarrow> bool" where
  "apart_keys gs \<equiv> sorted_wrt (\<lambda>a b. \<not> group_key_eq (fst a) (fst b)) gs"

lemma add_to_group_keys:
  "map fst (add_to_group k r gs) = (if \<exists>g \<in> set gs. group_key_eq k (fst g) then map fst gs else map fst gs @ [k])"
  by (induction k r gs rule: add_to_group.induct) auto

lemma apart_keys_fst: "apart_keys gs \<longleftrightarrow> sorted_wrt (\<lambda>a b. \<not> group_key_eq a b) (map fst gs)"
  by (simp add: sorted_wrt_map)

lemma add_to_group_apart: "apart_keys gs \<Longrightarrow> apart_keys (add_to_group k r gs)"
  by (auto simp: apart_keys_fst add_to_group_keys sorted_wrt_append group_key_sym)

lemma add_to_group_old:
  assumes "apart_keys gs" and "\<exists>g \<in> set gs. group_key_eq k (fst g)"
  shows "add_to_group k r gs = map (\<lambda>(k', g). (k', if group_key_eq k k' then g @ [r] else g)) gs"
  using assms
proof (induction k r gs rule: add_to_group.induct)
  case (2 k r k' rs gs)
  show ?case
  proof (cases "group_key_eq k k'")
    case True
    then have "\<not> group_key_eq k (fst g)" if "g \<in> set gs" for g
      using 2(2) that True by (auto simp: group_key_eq_hash)
    then have "map (\<lambda>(k', g). (k', if group_key_eq k k' then g @ [r] else g)) gs = gs"
      by (intro map_idI) auto
    with True show ?thesis by simp
  qed (use 2 in auto)
qed simp

lemma add_to_group_new:
  "\<forall>g \<in> set gs. \<not> group_key_eq k (fst g) \<Longrightarrow> add_to_group k r gs = gs @ [(k, [r])]"
  by (induction k r gs rule: add_to_group.induct) auto

lemma extend_step:
  assumes "apart_keys gs"
  shows "extend_groups (add_to_group (key r) r gs) key rs = extend_groups gs key (r # rs)"
proof (cases "\<exists>g \<in> set gs. group_key_eq (key r) (fst g)")
  case True
  have k: "(\<forall>(k, g) \<in> set (add_to_group (key r) r gs). P k) \<longleftrightarrow> (\<forall>(k, g) \<in> set gs. P k)" for P
    using True by (auto simp: add_to_group_old [OF assms True])
  from True show ?thesis unfolding extend_groups_def k
    by (auto simp: add_to_group_old [OF assms True] split_def)
next
  case False
  then have n: "add_to_group (key r) r gs = gs @ [(key r, [r])]" by (intro add_to_group_new) auto
  have f: "filter (\<lambda>x. \<forall>(k, g) \<in> set (gs @ [(key r, [r])]). \<not> group_key_eq (key x) k) rs =
      filter (\<lambda>x. \<not> group_key_eq (key x) (key r)) (filter (\<lambda>x. \<forall>(k, g) \<in> set gs. \<not> group_key_eq (key x) k) rs)"
    by (auto intro: filter_cong)
  have g: "filter (\<lambda>x. group_key_eq (key x) (key r)) (filter (\<lambda>x. \<forall>(k, g) \<in> set gs. \<not> group_key_eq (key x) k) rs)
      = filter (\<lambda>x. group_key_eq (key x) (key r)) rs"
    using False by (auto intro!: filter_cong simp: group_key_eq_hash)
  from False show ?thesis unfolding extend_groups_def n f
    by (auto simp: split_def g [unfolded split_def filter_filter])
qed

definition key_of :: "(row \<Rightarrow> db_value list eres panicking) \<Rightarrow> row \<Rightarrow> db_value list" where
  "key_of key r = (case key r of Some (Inr k) \<Rightarrow> k | _ \<Rightarrow> [])"

lemma group_rows_spec:
  "group_rows key rows gs = pok gs' \<Longrightarrow> apart_keys gs \<Longrightarrow>
     (\<forall>r \<in> set rows. key r = pok (key_of key r)) \<and> map snd gs' = extend_groups gs (key_of key) rows"
proof (induction rows arbitrary: gs)
  case Nil
  then show ?case by (auto simp: extend_groups_def split_def intro: map_cong)
next
  case (Cons r rs)
  from Cons.prems(1) obtain kr where kr: "key r = pok kr" and rest: "group_rows key rs (add_to_group kr r gs) = pok gs'"
    by (auto simp: pbind_Inr_iff)
  have k: "key_of key r = kr" by (simp add: key_of_def kr)
  from Cons.IH [OF rest add_to_group_apart [OF Cons.prems(2)]] kr k extend_step [OF Cons.prems(2), of "key_of key" r rs]
  show ?case by simp
qed

text \<open>The groups together are the rows.\<close>

lemma group_spec_mset: "mset (concat (group_spec key rows)) = mset rows"
proof (induction key rows rule: group_spec.induct)
  case (2 key r rs)
  have "mset (filter (\<lambda>x. group_key_eq (key x) (key r)) rs) + mset (filter (\<lambda>x. \<not> group_key_eq (key x) (key r)) rs) = mset rs"
    by (simp add: multiset_partition [symmetric])
  with 2 show ?case by simp
qed simp

lemma group_spec_members:
  "g \<in> set (group_spec key rows) \<Longrightarrow> g \<noteq> [] \<and> set g \<subseteq> set rows \<and> (\<forall>x \<in> set g. group_key_eq (key x) (key (hd g)))"
proof (induction key rows rule: group_spec.induct)
  case (2 key r rs)
  from 2(2) consider "g = filter (\<lambda>x. group_key_eq (key x) (key r)) (r # rs)"
    | "g \<in> set (group_spec key (filter (\<lambda>x. \<not> group_key_eq (key x) (key r)) rs))"
    unfolding group_spec.simps list.set by blast
  then show ?case
  proof cases
    case 1
    then show ?thesis by simp (use group_key_eq_hash in blast)
  next
    case 2
    from "2.IH" [OF this] show ?thesis by auto
  qed
qed simp

lemma group_spec_apart:
  "sorted_wrt (\<lambda>a b. \<forall>x \<in> set a. \<forall>y \<in> set b. \<not> group_key_eq (key x) (key y)) (group_spec key rows)"
proof (induction key rows rule: group_spec.induct)
  case (2 key r rs)
  have "\<not> group_key_eq (key x) (key y)"
    if "x \<in> set (filter (\<lambda>x. group_key_eq (key x) (key r)) (r # rs))"
      and "g \<in> set (group_spec key (filter (\<lambda>x. \<not> group_key_eq (key x) (key r)) rs))" and "y \<in> set g" for x y g
  proof -
    from group_spec_members [OF that(2)] that(3) have "\<not> group_key_eq (key y) (key r)" by auto
    moreover from that(1) have "group_key_eq (key x) (key r)" by auto
    ultimately show ?thesis unfolding group_key_eq_hash by metis
  qed
  with 2 show ?case unfolding group_spec.simps sorted_wrt.simps by blast
qed simp

lemma partition_by_group_spec:
  assumes "partition_by_group E m s rows = pok parts"
  shows "parts = group_spec (key_of (\<lambda>r. eval_all (eval_expr E r m) (resolve_group_by_aliases s))) rows"
proof -
  let ?key = "\<lambda>r. eval_all (eval_expr E r m) (resolve_group_by_aliases s)"
  from assms obtain gs where "group_rows ?key rows [] = pok gs" "parts = map snd gs"
    by (auto simp: partition_by_group_def pbind_Inr_iff)
  with group_rows_spec [of ?key rows "[]" gs] show ?thesis by (simp add: extend_groups_def)
qed

text \<open>DISTINCT keeps the first row of each group.\<close>

lemma dedup_spec:
  "dedup f seen rows = Some out \<Longrightarrow>
     (\<forall>r \<in> set rows. f r \<noteq> None) \<and>
     out = map hd (group_spec (the \<circ> f) (filter (\<lambda>r. \<forall>k \<in> set seen. \<not> group_key_eq (the (f r)) k) rows))"
proof (induction f seen rows arbitrary: out rule: dedup.induct)
  case (2 f seen r rs)
  from 2(3) obtain k where k: "f r = Some k" by (cases "f r") auto
  show ?case
  proof (cases "list_ex (group_key_eq k) seen")
    case True
    with 2(3) k have d: "dedup f seen rs = Some out" by simp
    from True have "\<not> (\<forall>k' \<in> set seen. \<not> group_key_eq k k')" by (auto simp: list_ex_iff)
    with 2(1) [OF k True d] k show ?thesis by auto
  next
    case False
    with 2(3) k obtain out' where o: "dedup f (seen @ [k]) rs = Some out'" "out = r # out'" by auto
    from False have n: "\<forall>k' \<in> set seen. \<not> group_key_eq k k'" by (auto simp: list_ex_iff)
    have "filter (\<lambda>r. \<forall>k' \<in> set (seen @ [k]). \<not> group_key_eq (the (f r)) k') rs =
        filter (\<lambda>x. \<not> group_key_eq (the (f x)) k) (filter (\<lambda>r. \<forall>k' \<in> set seen. \<not> group_key_eq (the (f r)) k') rs)"
      by (auto intro: filter_cong)
    with 2(2) [OF k False o(1)] o(2) k n show ?thesis by simp
  qed
qed simp

lemma group_spec_empty_keys:
  assumes "\<forall>r \<in> set rows. key r = []"
  shows "length (group_spec key rows) \<le> 1"
proof (cases rows)
  case (Cons r rs)
  with assms have "filter (\<lambda>x. \<not> group_key_eq (key x) (key r)) rs = []" by (auto simp: filter_empty_conv)
  with Cons show ?thesis by simp
qed simp

end
