(* ===== verification/SelectRows.thy ===== *)
theory SelectRows
  imports RowGroups LookupExact
begin

text \<open>
  Lemmas about the stages of a SELECT: every stage returns rows it was given, and only
  the subquery snapshot of the session changes.
\<close>

section \<open>Every stage returns rows it was given\<close>

lemma filter_rows_subset: "filter_rows p rs = Some ys \<Longrightarrow> set ys \<subseteq> set rs"
  by (auto simp: filter_rows_iff)

lemma found_rows_subset: "found_rows t is = Some (Some rs) \<Longrightarrow> set rs \<subseteq> set (tbl_rows t)"
  by (auto simp: found_rows_def rows_at_iff)

lemma pk_subset: "try_pk_index U w t = Some (Some rs) \<Longrightarrow> set rs \<subseteq> set (tbl_rows t)"
  by (auto simp: try_pk_index_def Let_def dest!: found_rows_subset split: option.splits if_splits)

lemma trigram_subset: "try_trigram_index U ord visit w t = Some (Some rs) \<Longrightarrow> set rs \<subseteq> set (tbl_rows t)"
  by (auto simp: try_trigram_index_def lbind_found dest!: found_rows_subset split: option.splits if_splits)

lemma btree_range_subset:
  assumes "btree_range U e t = Some (Some rs)"
  shows "set rs \<subseteq> set (tbl_rows t)"
proof -
  obtain c lo hi where "range_bounds U e t = Some (Some (c, lo, hi))"
    using assms by (auto simp: btree_range_def lbind_found)
  with assms show ?thesis
    by (simp add: btree_range_def split: option.split_asm index_impl.split_asm if_split_asm)
      (rule found_rows_subset)
qed

lemma btree_eq_subset: "btree_eq U l r t = Some (Some rs) \<Longrightarrow> set rs \<subseteq> set (tbl_rows t)"
  by (auto simp: btree_eq_def dest!: found_rows_subset split: option.splits)

lemma try_btree_cases:
  "try_btree_index U (Some e) t =
     (case strip_nested e of
        BinaryOp l opr r \<Rightarrow> if opr = OpEq then btree_eq U l r t else btree_range U (strip_nested e) t
      | _ \<Rightarrow> btree_range U (strip_nested e) t)"
  unfolding try_btree_index_def option.case by (cases "strip_nested e") simp_all

lemma btree_subset:
  assumes "try_btree_index U w t = Some (Some rs)"
  shows "set rs \<subseteq> set (tbl_rows t)"
proof (cases w)
  case (Some e)
  have "btree_range U (strip_nested e) t = Some (Some rs) \<or> (\<exists>l r. btree_eq U l r t = Some (Some rs))"
    using assms unfolding Some try_btree_cases by (cases "strip_nested e") (auto split: if_splits)
  then show ?thesis using btree_range_subset btree_eq_subset by blast
qed (use assms in \<open>simp add: try_btree_index_def\<close>)

lemma where_rows_subset: "where_rows E ord visit w t = Some rs \<Longrightarrow> set rs \<subseteq> set (tbl_rows t)"
  unfolding where_rows_def Let_def scan_rows_def
  by (auto split: option.splits dest!: filter_rows_subset pk_subset trigram_subset btree_subset)

lemma insert_tail_mset: "insert_tail c x ys = Some zs \<Longrightarrow> mset zs = add_mset x (mset ys)"
  by (induction ys arbitrary: zs) (auto split: option.splits ordering.splits)

lemma sort_onto_mset: "sort_onto c acc xs = Some zs \<Longrightarrow> mset zs = mset acc + mset xs"
  by (induction xs arbitrary: acc) (auto split: option.splits dest!: insert_tail_mset)

lemma sort_by_mset: "sort_by c xs = Some zs \<Longrightarrow> mset zs = mset xs"
  by (simp add: sort_by_def sort_onto_mset)

lemma order_rows_mset: "order_rows E m o1 rows = pok ys \<Longrightarrow> mset ys = mset rows"
  by (auto simp: order_rows_def sort_rows_def sort_by_mset split: option.splits order_by.splits if_splits)

lemma limit_subset: "apply_limit_offset rows c = Some page \<Longrightarrow> set page \<subseteq> set rows"
  by (auto simp: apply_limit_offset_def Let_def split: prod.splits option.splits if_splits
      dest!: in_set_takeD in_set_dropD)

lemma dedup_subset: "dedup f seen rows = Some out \<Longrightarrow> set out \<subseteq> set rows"
proof (induction f seen rows arbitrary: out rule: dedup.induct)
  case (2 f seen r rs)
  then show ?case by (fastforce split: option.splits if_splits)
qed simp

lemma distinct_subset: "distinct_rows E m s rows = Some out \<Longrightarrow> set out \<subseteq> set rows"
  by (auto simp: distinct_rows_def dest: dedup_subset split: option.splits)

lemma having_subset: "having_groups E m s parts = Some kept \<Longrightarrow> set kept \<subseteq> set parts"
  by (auto simp: having_groups_def dest: filter_rows_subset split: option.splits)

lemma map_option_list_iff:
  "map_option_list f xs = Some ys \<longleftrightarrow> (\<forall>x \<in> set xs. f x \<noteq> None) \<and> ys = map (the \<circ> f) xs"
  by (induction xs arbitrary: ys) (auto split: option.splits)

lemma grouped_subset:
  assumes "grouped_rows E m s rows = pok out"
  shows "set out \<subseteq> set rows"
proof (cases "has_group_by s")
  case True
  with assms obtain parts kept where p: "partition_by_group E m s rows = pok parts"
    and k: "having_groups E m s parts = Some kept" and f: "first_rows kept = Some out"
    by (auto simp: grouped_rows_def pbind_Inr_iff split: option.splits)
  have "hd g \<in> set rows" if "g \<in> set kept" for g
    using group_spec_members [of g] partition_by_group_spec [OF p] having_subset [OF k] that by fastforce
  moreover have "the (case g of [] \<Rightarrow> None | r # _ \<Rightarrow> Some r) = hd g" if "g \<noteq> []" for g :: "row list"
    using that by (cases g) auto
  ultimately show ?thesis
    using f unfolding first_rows_def map_option_list_iff by (auto split: list.splits)
qed (use assms in \<open>auto simp: grouped_rows_def\<close>)

text \<open>The plain pipeline as one relation between its stages.\<close>

lemma select_plain_stages:
  assumes "select_plain E q s t rows = Some (Inr (Inr res))"
  obtains grouped deduped windowed sorted_rows page
  where "grouped_rows E (tbl_col_index t) s rows = pok grouped"
    and "distinct_rows E (tbl_col_index t) s grouped = Some deduped"
    and "(if has_window_function (sel_projection s)
          then compute_window_functions E (tbl_col_index t) (sel_projection s) deduped else pok deduped) = pok windowed"
    and "order_rows E (tbl_col_index t) (sq_order_by q) windowed = pok sorted_rows"
    and "apply_limit_offset sorted_rows (sq_limit q) = Some page"
    and "project_cells E (tbl_col_index t) (sel_projection s) t page = Some res"
  using assms unfolding select_plain_def Let_def
  by (auto simp: pbind_Inr_iff split: option.splits)

section \<open>Only the snapshot of the session changes\<close>

definition same_but_snapshot :: "'ast session \<Rightarrow> 'ast session \<Rightarrow> bool" where
  "same_but_snapshot s s' \<longleftrightarrow> (\<exists>d. s' = s\<lparr>se_snapshot := d\<rparr>)"

lemma same_refl [simp]: "same_but_snapshot s s"
  by (auto simp: same_but_snapshot_def intro: exI [of _ "se_snapshot s"])

lemma same_trans: "same_but_snapshot s s1 \<Longrightarrow> same_but_snapshot s1 s2 \<Longrightarrow> same_but_snapshot s s2"
  by (auto simp: same_but_snapshot_def)

lemma same_db: "same_but_snapshot s s' \<Longrightarrow> se_db s' = se_db s"
  by (auto simp: same_but_snapshot_def)

lemma snapshot_same [simp]: "same_but_snapshot s (set_subq_snapshot_if_needed sel s)"
  by (simp add: set_subq_snapshot_if_needed_def) (auto simp: same_but_snapshot_def)

lemma run_select_same: "run_select X q sel None s = Some (r, s') \<Longrightarrow> same_but_snapshot s s'"
  by (auto simp: run_select_def drop_views_def Let_def split: option.splits sum.splits)

lemma materialize_view_table:
  assumes "materialize_view H parse ex n s = Some (Inr u, s')"
    and "\<And>st s r s'. ex st s = Some (r, s') \<Longrightarrow> same_but_snapshot s s'"
  obtains s1 where "same_but_snapshot s s1" "s' = s1 \<or> (\<exists>t. s' = put_table n t s1)"
  using assms unfolding materialize_view_def xbind_def
  by (fastforce split: option.splits sum.splits list.splits)

lemma run_select_view_same:
  assumes "run_select X q sel (Some n) s1 = Some (Inr res, s')" and "s1 = put_table n t s0"
    and "same_but_snapshot s s0" and "\<not> has_table n (se_db s)"
  shows "same_but_snapshot s s'"
proof -
  from assms(3) obtain d where s0: "s0 = s\<lparr>se_snapshot := d\<rparr>" by (auto simp: same_but_snapshot_def)
  from assms(1) have "s' = drop_views (Some n) (set_subq_snapshot_if_needed sel s1)"
    by (auto simp: run_select_def Let_def split: option.splits sum.splits)
  moreover have "drop_table n (add_table n t (se_db s)) = Inr (se_db s)"
    using assms(4) by (simp add: drop_table_def add_table_def has_table_def fun_upd_idem)
  ultimately show ?thesis
    unfolding assms(2) s0 by (auto simp: drop_views_def put_table_def set_subq_snapshot_if_needed_def same_but_snapshot_def)
qed

end
