(* ===== verification/SelectProps.thy ===== *)
theory SelectProps
  imports SelectRows TableProps
begin

text \<open>
  The properties of SELECT over one table: GROUP BY, DISTINCT, the pipeline, what it returns and what it
  leaves behind.
\<close>

section \<open>GROUP BY and DISTINCT\<close>

definition group_key_of :: "eval_env \<Rightarrow> col_map \<Rightarrow> select \<Rightarrow> row \<Rightarrow> db_value list" where
  "group_key_of E m s = key_of (\<lambda>r. eval_all (eval_expr E r m) (resolve_group_by_aliases s))"

text \<open>C12.  GROUP BY splits the rows by the values of its expressions (aliases of the projection
  resolved): the first group holds the rows with the first row's key, in order, the next ones group the
  remaining rows the same way.  So the groups together are the rows, none is empty, the rows of a group
  have one key and those of two groups have different keys.\<close>

theorem group_by_partitions:
  assumes "partition_by_group E m s rows = pok parts"
  shows "parts = group_spec (group_key_of E m s) rows \<and> mset (concat parts) = mset rows \<and>
    (\<forall>g \<in> set parts. g \<noteq> [] \<and> (\<forall>x \<in> set g. group_key_eq (group_key_of E m s x) (group_key_of E m s (hd g)))) \<and>
    sorted_wrt (\<lambda>a b. \<forall>x \<in> set a. \<forall>y \<in> set b. \<not> group_key_eq (group_key_of E m s x) (group_key_of E m s y)) parts"
proof -
  have p: "parts = group_spec (group_key_of E m s) rows"
    using partition_by_group_spec [OF assms] by (simp add: group_key_of_def)
  show ?thesis unfolding p
    using group_spec_mset group_spec_members group_spec_apart by blast
qed

abbreviation by_name :: select where
  "by_name \<equiv> \<lparr>sel_projection = [UnnamedExpr (Identifier ''n'')], sel_from = [], sel_selection = None,
     sel_group_by = GroupExprs [Identifier ''n''], sel_having = None, sel_distinct = None\<rparr>"

abbreviation "ab_rows \<equiv> [[DString ''a'', DInt 1], [DString ''b'', DInt 2], [DString ''a'', DInt 3]]"

definition n_map :: col_map where "n_map \<equiv> [''n'' \<mapsto> 0, ''v'' \<mapsto> 1]"

lemma column_n: "eval_expr E r n_map (Identifier ''n'') = cell r 0"
  by (simp add: n_map_def eval_identifier_def to_lowercase_def is_ascii_def to_ascii_lowercase_def ascii_lower_def)

theorem group_by_partitions_witness:
  "group_spec (group_key_of no_env n_map by_name) ab_rows =
     [[[DString ''a'', DInt 1], [DString ''a'', DInt 3]], [[DString ''b'', DInt 2]]]"
proof -
  have "partition_by_group no_env n_map by_name ab_rows =
      pok [[[DString ''a'', DInt 1], [DString ''a'', DInt 3]], [[DString ''b'', DInt 2]]]"
    by (simp add: partition_by_group_def resolve_group_by_aliases_def resolve_alias_def group_exprs_def alias_map_def
        ident_of_def column_n cell_def group_key_eq_iff del: eval_expr.simps)
  from group_by_partitions [OF this] show ?thesis by simp
qed

text \<open>C13.  DISTINCT keeps the first row of each group of rows that agree on what it compares: the
  DISTINCT ON expressions, or the items of the projection that carry no alias.  A projection of \<open>*\<close> or
  of aliased items alone compares nothing, and at most one row is left whatever the table holds.\<close>

definition distinct_key :: "eval_env \<Rightarrow> col_map \<Rightarrow> select \<Rightarrow> distinct_clause \<Rightarrow> row \<Rightarrow> db_value list" where
  "distinct_key E m s d r = the (partition_key (eval_expr E r m) (distinct_exprs d (sel_projection s)))"

theorem distinct_keeps_first_of_each:
  assumes "sel_distinct s = Some d" and "distinct_rows E m s rows = Some out"
  shows "out = map hd (group_spec (distinct_key E m s d) rows) \<and>
    (d = DistinctRows \<longrightarrow> (\<forall>it \<in> set (sel_projection s). \<forall>e. it \<noteq> UnnamedExpr e) \<longrightarrow> length out \<le> 1)"
proof -
  have out: "out = map hd (group_spec (distinct_key E m s d) rows)"
    using assms dedup_spec [of "\<lambda>r. partition_key (eval_expr E r m) (distinct_exprs d (sel_projection s))" "[]" rows out]
    by (simp add: distinct_rows_def distinct_key_def [abs_def] comp_def)
  have "length out \<le> 1" if "d = DistinctRows" "\<forall>it \<in> set (sel_projection s). \<forall>e. it \<noteq> UnnamedExpr e"
  proof -
    have "(case it of UnnamedExpr e \<Rightarrow> Some e | _ \<Rightarrow> None) = None" if "it \<in> set (sel_projection s)" for it
      using \<open>\<forall>it \<in> set (sel_projection s). _ it\<close> that by (cases it) auto
    then have "distinct_exprs d (sel_projection s) = []"
      using that(1) by (simp add: distinct_exprs_def map_filter_def filter_empty_conv)
    then show ?thesis unfolding out length_map
      by (intro group_spec_empty_keys) (simp add: distinct_key_def)
  qed
  with out show ?thesis by blast
qed

abbreviation distinct_star :: select where
  "distinct_star \<equiv> by_name\<lparr>sel_projection := [SelectWildcard], sel_distinct := Some DistinctRows\<rparr>"

theorem distinct_keeps_first_of_each_witness:
  "distinct_rows no_env n_map distinct_star ab_rows = Some [[DString ''a'', DInt 1]] \<and>
   length [[DString ''a'', DInt 1]] \<le> 1"
proof -
  have d: "distinct_rows no_env n_map distinct_star ab_rows = Some [[DString ''a'', DInt 1]]"
    by (simp add: distinct_rows_def distinct_exprs_def map_filter_def)
  with distinct_keeps_first_of_each [OF _ d] show ?thesis by simp
qed

section \<open>The pipeline of \<open>SELECT *\<close>\<close>

text \<open>A \<open>SELECT * FROM t WHERE ..\<close> without grouping, DISTINCT or window functions.\<close>

definition star_select :: "unicode \<Rightarrow> select \<Rightarrow> bool" where
  "star_select U s \<longleftrightarrow>
     SelectWildcard \<in> set (sel_projection s) \<and> \<not> has_aggregate U (sel_projection s) \<and>
     \<not> has_window_function (sel_projection s)"


definition star_of_t :: select where
  "star_of_t = \<lparr>sel_projection = [SelectWildcard], sel_from = [(FromTable [NameIdent ''t''] None, [])],
     sel_selection = None, sel_group_by = GroupExprs [], sel_having = None, sel_distinct = None\<rparr>"

definition first_two :: select_query where
  "first_two = \<lparr>sq_body = Some star_of_t, sq_order_by = Some (OrderExprs []),
     sq_limit = Some (LimitOffset (Some (Value (SqlNumber ''2''))) None), sq_with_nested = False\<rparr>"

lemma star_fields: "sel_projection star_of_t = [SelectWildcard]" "sel_selection star_of_t = None"
  "sq_order_by first_two = Some (OrderExprs [])"
  "sq_limit first_two = Some (LimitOffset (Some (Value (SqlNumber ''2''))) None)"
  by (simp_all add: star_of_t_def first_two_def)

lemma star_of_t: "star_select U star_of_t" "\<not> has_group_by star_of_t" "sel_distinct star_of_t = None"
  by (simp_all add: star_select_def star_of_t_def has_aggregate_def has_window_function_def has_group_by_def)

lemma where_none: "where_rows E ord visit None t = Some (tbl_rows t)"
  by (simp add: where_rows_def try_pk_index_def try_trigram_index_def try_btree_index_def scan_rows_def filter_rows_iff
      keeps_row_def)


section \<open>What a SELECT returns\<close>

text \<open>C15.  \<open>SELECT *\<close> over one table, with any WHERE, GROUP BY, HAVING, DISTINCT, ORDER BY and LIMIT, on any
  index path, returns the column names and only rows that the table stores; in a typed table every cell
  has the type of its column and keys and NOT NULL columns are not NULL.\<close>

theorem select_star_rows_typed:
  assumes "typed_table t" and "star_select (env_unicode E) s"
    and "select_from_table E ord visit q s t = Some (Inr (Inr (header, out)))"
  shows "header = map col_name (tbl_columns t) \<and> set out \<subseteq> set (tbl_rows t) \<and>
    (\<forall>r \<in> set out. row_ok (tbl_columns t) r)"
proof -
  from assms(2,3) obtain rows where w: "where_rows E ord visit (sel_selection s) t = Some rows"
    and p: "select_plain E q s t rows = Some (Inr (Inr (header, out)))"
    by (auto simp: select_from_table_def star_select_def split: option.splits)
  from p obtain grouped deduped sorted_rows page where
    g: "grouped_rows E (tbl_col_index t) s rows = pok grouped"
    and d: "distinct_rows E (tbl_col_index t) s grouped = Some deduped"
    and o: "order_rows E (tbl_col_index t) (sq_order_by q) deduped = pok sorted_rows"
    and l: "apply_limit_offset sorted_rows (sq_limit q) = Some page"
    and res: "project_cells E (tbl_col_index t) (sel_projection s) t page = Some (header, out)"
    using assms(2) by (auto elim!: select_plain_stages simp: star_select_def)
  have "set page \<subseteq> set rows"
    using grouped_subset [OF g] distinct_subset [OF d] limit_subset [OF l] mset_eq_setD [OF order_rows_mset [OF o]]
    by blast
  then have "set page \<subseteq> set (tbl_rows t)" using where_rows_subset [OF w] by blast
  moreover have "header = map col_name (tbl_columns t)" "out = page"
    using res assms(2) by (simp_all add: project_cells_def star_select_def)
  ultimately show ?thesis using assms(1) by (auto simp: typed_table_def)
qed

theorem select_star_rows_typed_witness:
  "\<exists>t. insert_row no_env (demo_row 1 ''a'') demo_table = pok t \<and>
     select_from_table no_env sorted_list_of_set sorted_list_of_set first_two star_of_t t = Some (Inr (Inr ([''id'', ''tag''], [demo_row 1 ''a'']))) \<and>
     row_ok demo_columns (demo_row 1 ''a'')"
proof -
  from demo_insert obtain t where t: "insert_row no_env (demo_row 1 ''a'') demo_table = pok t"
    "tbl_rows t = [demo_row 1 ''a'']" "tbl_columns t = demo_columns" by blast
  have ty: "typed_table t" using insert_row_pok [OF demo_wf t(1)] by (auto simp: typed_table_def)
  have s: "select_from_table no_env sorted_list_of_set sorted_list_of_set first_two star_of_t t = Some (Inr (Inr ([''id'', ''tag''], [demo_row 1 ''a''])))"
    using star_of_t(1) [of no_unicode]
    by (simp add: star_select_def select_from_table_def select_plain_def grouped_rows_def star_of_t(2,3) star_fields
        where_none distinct_rows_def order_rows_def apply_limit_offset_def parse_usize_def is_digit_def digits_val_def
        digit_val_def project_cells_def t demo_columns_def plain_column_def)
  from select_star_rows_typed [OF ty star_of_t(1) s] t s show ?thesis by auto
qed

end
