(* ===== verification/SelectReturns.thy ===== *)
theory SelectReturns
  imports SelectRows
begin

text \<open>
  When a SELECT returns: no stage of the pipeline panics unless an expression does on one of the rows.
\<close>

section \<open>No stage panics by itself\<close>

lemma insert_tail_defined:
  "\<forall>y \<in> set ys. c x y \<noteq> None \<Longrightarrow> insert_tail c x ys \<noteq> None"
  by (induction ys) (auto split: option.split ordering.split)

lemma sort_onto_defined:
  "\<forall>x \<in> set acc \<union> set xs. \<forall>y \<in> set acc \<union> set xs. c x y \<noteq> None \<Longrightarrow> sort_onto c acc xs \<noteq> None"
proof (induction xs arbitrary: acc)
  case (Cons x xs)
  then obtain acc' where a: "insert_tail c x acc = Some acc'"
    using insert_tail_defined [of acc c x] by auto
  from insert_tail_mset [OF a] have "set acc' = insert x (set acc)"
    by (metis set_mset_add_mset_insert set_mset_mset)
  with Cons.prems have "sort_onto c acc' xs \<noteq> None" by (intro Cons.IH) auto
  with a show ?case by simp
qed simp

lemma sort_by_defined: "\<forall>x \<in> set xs. \<forall>y \<in> set xs. c x y \<noteq> None \<Longrightarrow> sort_by c xs \<noteq> None"
  by (simp add: sort_by_def sort_onto_defined)

lemma sort_rows_defined: "\<forall>r \<in> set rows. evaluates E m order r \<Longrightarrow> \<exists>ys. sort_rows E rows order m = pok ys"
  using sort_by_defined [of rows "compare_rows E m order"] compare_rows_defined [of E m order]
  by (auto simp: sort_rows_def)

lemma partition_key_defined: "\<forall>e \<in> set es. f e \<noteq> None \<Longrightarrow> partition_key f es \<noteq> None"
  by (induction es) (auto split: option.split sum.split)

lemma dedup_defined: "\<forall>r \<in> set rows. key r \<noteq> None \<Longrightarrow> dedup key seen rows \<noteq> None"
  by (induction key seen rows rule: dedup.induct) auto

lemma limit_defined:
  "(\<forall>off l. limit_values c = (off, Some l) \<longrightarrow> off + l < 2 ^ 64) \<Longrightarrow> apply_limit_offset rows c \<noteq> None"
  by (auto simp: apply_limit_offset_def Let_def min_def split: prod.split option.split)

lemma project_row_defined:
  "\<forall>it \<in> set items. \<forall>e. item_expr it = Some e \<longrightarrow> eval_expr E r m e \<noteq> None \<Longrightarrow> project_row E m win items r \<noteq> None"
  by (induction E m win items r rule: project_row.induct) (auto simp: project_cell_def split: option.split)

text \<open>The expressions that a plain SELECT evaluates on a row.\<close>

definition select_exprs :: "select_query \<Rightarrow> select \<Rightarrow> sql_expr set" where
  "select_exprs q s =
     {e. sel_selection s = Some e} \<union> (case sel_distinct s of None \<Rightarrow> {} | Some d \<Rightarrow> set (distinct_exprs d (sel_projection s))) \<union>
     fst ` set (order_items (sq_order_by q)) \<union> {e. \<exists>it \<in> set (sel_projection s). item_expr it = Some e}"

definition calm_on :: "eval_env \<Rightarrow> col_map \<Rightarrow> sql_expr set \<Rightarrow> row list \<Rightarrow> bool" where
  "calm_on E m es rows \<longleftrightarrow> (\<forall>r \<in> set rows. \<forall>e \<in> es. eval_expr E r m e \<noteq> None)"

lemma select_plain_returns:
  assumes calm: "calm_on E (tbl_col_index t) (select_exprs q s) rows"
    and "\<not> has_window_function (sel_projection s)" "\<not> has_group_by s" "sq_order_by q \<noteq> Some OrderAll"
    and "\<forall>off l. limit_values (sq_limit q) = (off, Some l) \<longrightarrow> off + l < 2 ^ 64"
  shows "\<exists>res. select_plain E q s t rows = Some (Inr (Inr res))"
proof -
  let ?m = "tbl_col_index t"
  have "distinct_rows E ?m s rows \<noteq> None"
  proof (cases "sel_distinct s")
    case (Some d)
    have "partition_key (eval_expr E r ?m) (distinct_exprs d (sel_projection s)) \<noteq> None" if "r \<in> set rows" for r
      using calm that by (intro partition_key_defined) (auto simp: calm_on_def select_exprs_def Some)
    then show ?thesis using dedup_defined [of rows] by (simp add: distinct_rows_def Some)
  qed (simp add: distinct_rows_def)
  then obtain deduped where d: "distinct_rows E ?m s rows = Some deduped" by auto
  have sub: "calm_on E ?m (select_exprs q s) xs" if "set xs \<subseteq> set rows" for xs
    using calm that by (auto simp: calm_on_def)
  have "\<forall>r \<in> set deduped. evaluates E ?m (order_items (sq_order_by q)) r"
    using sub [OF distinct_subset [OF d]] unfolding calm_on_def select_exprs_def evaluates_def by force
  then obtain ys where "sort_rows E deduped (order_items (sq_order_by q)) ?m = pok ys"
    using sort_rows_defined by blast
  moreover have "order_rows E ?m (sq_order_by q) deduped = sort_rows E deduped (order_items (sq_order_by q)) ?m"
    using assms(4) by (auto simp: order_rows_def order_items_def sort_rows_def split: option.splits order_by.splits)
  ultimately have o: "order_rows E ?m (sq_order_by q) deduped = pok ys" by simp
  obtain page where p: "apply_limit_offset ys (sq_limit q) = Some page"
    using limit_defined [OF assms(5)] by auto
  have "set page \<subseteq> set rows"
    using distinct_subset [OF d] limit_subset [OF p] mset_eq_setD [OF order_rows_mset [OF o]] by blast
  then have "project_row E ?m (card (dom ?m)) (sel_projection s) r \<noteq> None" if "r \<in> set page" for r
    using sub [of page] that unfolding calm_on_def select_exprs_def by (intro project_row_defined) blast
  then have "project_cells E ?m (sel_projection s) t page \<noteq> None"
    by (simp add: project_cells_def map_option_list_iff [THEN iffD2])
  with d o p assms(2,3) show ?thesis by (auto simp: select_plain_def Let_def grouped_rows_def)
qed

end
