(* ===== verification/SelectEffects.thy ===== *)
theory SelectEffects
  imports SelectProps SelectReturns ExecInvariant ExecProps LookupProps
begin

text \<open>
  What a SELECT does to the session, when it returns, and the view that a failing SELECT leaves behind.
\<close>

section \<open>A SELECT changes nothing\<close>

definition view_read :: "('ast, 'stmt) select_host \<Rightarrow> bool" where
  "view_read X \<longleftrightarrow> (\<forall>st s r s'. sx_execute X st s = Some (r, s') \<longrightarrow> same_but_snapshot s s') \<and>
     (\<forall>q sel s r s'. sx_joins X q sel s = Some (r, s') \<longrightarrow> same_but_snapshot s s')"

lemma exec_select_rows_same:
  assumes "view_read X" and "exec_select_rows X q s = Some (Inr res, s')"
  shows "same_but_snapshot s s'"
proof -
  from assms(2) obtain sel where sel: "sq_body q = Some sel"
    by (auto simp: exec_select_rows_def Let_def split: option.splits)
  let ?H = "sx_host X" and ?v = "view_in_from (env_unicode (host_env (sx_host X) s)) (sel_from sel) (se_db s)"
  consider (joins) "has_multiple_tables sel" | (bare) "\<not> has_multiple_tables sel" "sel_from sel = []"
    | (table) "\<not> has_multiple_tables sel" "sel_from sel \<noteq> []" "?v = None"
    | (view) n where "\<not> has_multiple_tables sel" "sel_from sel \<noteq> []" "?v = Some n" by blast
  then show ?thesis
  proof cases
    case joins
    with assms sel show ?thesis by (auto simp: exec_select_rows_def view_read_def)
  next
    case bare
    with assms(2) sel show ?thesis by (auto simp: exec_select_rows_def Let_def)
  next
    case table
    with assms(2) sel show ?thesis by (simp add: exec_select_rows_def run_select_same)
  next
    case (view n)
    with assms(2) sel obtain u s1 where m: "materialize_view ?H (sx_parse X) (sx_execute X) n s = Some (Inr u, s1)"
      and r: "run_select X q sel (Some n) s1 = Some (Inr res, s')"
      by (auto simp: exec_select_rows_def xbind_def Let_def split: option.splits sum.splits)
    have n: "\<not> has_table n (se_db s)"
      using view(3) by (auto simp: view_in_from_def Let_def split: list.splits from_factor.splits if_splits)
    from m obtain s0 where s0: "same_but_snapshot s s0" "s1 = s0 \<or> (\<exists>t. s1 = put_table n t s0)"
      using assms(1) by (elim materialize_view_table) (auto simp: view_read_def)
    show ?thesis
    proof (cases "\<exists>t. s1 = put_table n t s0")
      case True
      then show ?thesis using run_select_view_same [OF r _ s0(1) n] by blast
    next
      case False
      with s0 have s1: "s1 = s0" by blast
      then have "\<not> has_table n (se_db (set_subq_snapshot_if_needed sel s1))"
        using n same_db [OF s0(1)] by (simp add: set_subq_snapshot_if_needed_def)
      with r have "s' = set_subq_snapshot_if_needed sel s1"
        by (auto simp: run_select_def drop_views_def drop_table_def Let_def split: option.splits sum.splits if_splits)
      then show ?thesis using s0(1) s1 same_trans snapshot_same by blast
    qed
  qed
qed


text \<open>A session with one empty view over a column \<open>n\<close>.\<close>

definition view_host :: "(unit, unit) select_host" where
  "view_host = \<lparr>sx_host = \<lparr>host_env = (\<lambda>_. no_env), host_select = (\<lambda>_. xerr (ExecError ''no query'')),
       host_parse = (\<lambda>_. Inl (ParseError ''no parser'')), host_json_rows = (\<lambda>_. Inr [[JString ''n'']]),
       host_json = \<lparr>jp_display = (\<lambda>_. []), jp_debug = (\<lambda>_. [])\<rparr>, host_json_strings = (\<lambda>_. []),
       host_json_floats = (\<lambda>_. [])\<rparr>,
     sx_parse = (\<lambda>_. Inr [()]), sx_execute = (\<lambda>_. xret ''[[n]]''), sx_joins = (\<lambda>_ _. xerr (ExecError ''no'')),
     sx_joins_json = (\<lambda>_ _. xerr (ExecError ''no'')), sx_query = (\<lambda>_. xerr (ExecError ''no'')),
     sx_correlated = (\<lambda>_. False), sx_nested = (\<lambda>_. False), sx_ord = sorted_list_of_set, sx_visit = sorted_list_of_set\<rparr>"

definition view_session :: "unit session" where
  "view_session = new_session\<lparr>se_db := db_new\<lparr>db_views := [''v'' \<mapsto> ''SELECT n FROM t'']\<rparr>\<rparr>"

definition star_of_v :: select where
  "star_of_v = \<lparr>sel_projection = [SelectWildcard], sel_from = [(FromTable [NameIdent ''v''] None, [])],
     sel_selection = None, sel_group_by = GroupExprs [], sel_having = None, sel_distinct = None\<rparr>"

definition query_v :: "order_by option \<Rightarrow> select_query" where
  "query_v o1 = \<lparr>sq_body = Some star_of_v, sq_order_by = o1, sq_limit = None, sq_with_nested = False\<rparr>"

lemma view_read: "view_read view_host"
  by (simp add: view_read_def view_host_def xret_def xerr_def)

lemma view_name: "object_name_str no_unicode [NameIdent ''v''] = ''v''"
  by (simp add: object_name_str_def to_lowercase_def is_ascii_def to_ascii_lowercase_def ascii_lower_def)

lemma view_materialised:
  obtains t where "materialize_view (sx_host view_host) (sx_parse view_host) (sx_execute view_host) ''v'' view_session =
      Some (Inr (), put_table ''v'' t view_session)" "tbl_columns t = [plain_column ''n'' TString]" "tbl_rows t = []"
proof -
  obtain t where t: "new_table ''v'' [plain_column ''n'' TString] = Inr t" "tbl_columns t = [plain_column ''n'' TString]"
    "tbl_rows t = []"
    using index_columns_iff [of "[]" "[plain_column ''n'' TString]" "col_map_of [plain_column ''n'' TString]"]
    by (simp add: new_table_def plain_column_def)
  have "view_column no_unicode None (0, JString ''n'') = plain_column ''n'' TString"
    by (simp add: view_column_def to_lowercase_def is_ascii_def to_ascii_lowercase_def ascii_lower_def)
  then have "materialize_view (sx_host view_host) (sx_parse view_host) (sx_execute view_host) ''v'' view_session =
      Some (Inr (), put_table ''v'' t view_session)"
    using t(1) by (simp add: materialize_view_def view_host_def view_session_def get_view_def xbind_def xret_def
        view_table_def)
  with t that show ?thesis by blast
qed

lemma star_of_v: "sq_body (query_v o1) = Some star_of_v" "sel_from star_of_v = [(FromTable [NameIdent ''v''] None, [])]"
  "sel_projection star_of_v = [SelectWildcard]" "sel_selection star_of_v = None" "sq_order_by (query_v o1) = o1"
  "sq_limit (query_v o1) = None" "sel_distinct star_of_v = None" "\<not> has_group_by star_of_v"
  "\<not> needs_snapshot star_of_v" "\<not> has_multiple_tables star_of_v"
  by (simp_all add: query_v_def star_of_v_def has_group_by_def needs_snapshot_def group_exprs_def option_has_subquery_def
      has_multiple_tables_def)

lemma view_from: "view_in_from no_unicode (sel_from star_of_v) (se_db view_session) = Some ''v''"
  by (simp add: view_in_from_def star_of_v view_name view_session_def has_table_def has_view_def db_new_def)

lemma view_env: "host_env (sx_host view_host) x = no_env"
  by (simp add: view_host_def)

lemma star_plain: "\<not> has_aggregate U [SelectWildcard]" "\<not> has_window_function [SelectWildcard]"
  by (simp_all add: has_aggregate_def has_window_function_def)

lemma select_v:
  obtains t where "tbl_columns t = [plain_column ''n'' TString]" "tbl_rows t = []"
    "exec_select_rows view_host (query_v o1) view_session =
       run_select view_host (query_v o1) star_of_v (Some ''v'') (put_table ''v'' t view_session)"
proof -
  obtain t where t: "materialize_view (sx_host view_host) (sx_parse view_host) (sx_execute view_host) ''v'' view_session =
      Some (Inr (), put_table ''v'' t view_session)" "tbl_columns t = [plain_column ''n'' TString]" "tbl_rows t = []"
    by (rule view_materialised)
  have "exec_select_rows view_host (query_v o1) view_session =
       run_select view_host (query_v o1) star_of_v (Some ''v'') (put_table ''v'' t view_session)"
    using view_from by (simp add: exec_select_rows_def star_of_v(1,10) Let_def view_env xbind_def t(1))
      (simp add: star_of_v(2))
  with t that show ?thesis by blast
qed

lemma run_v:
  assumes "tbl_columns t = [plain_column ''n'' TString]" "tbl_rows t = []"
  shows "run_select view_host (query_v o1) star_of_v (Some ''v'') (put_table ''v'' t view_session) =
    (case o1 of
       Some OrderAll \<Rightarrow> Some (Inl (ExecError ''ORDER BY ALL not supported''), put_table ''v'' t view_session)
     | _ \<Rightarrow> Some (Inr ([''n''], []), view_session))"
proof -
  have r: "resolve_single_table no_unicode (sel_from star_of_v) (se_db (put_table ''v'' t view_session)) = Inr t"
    by (simp add: resolve_single_table_def star_of_v(2) view_name get_table_def put_table_def add_table_def xlift_def)
  have d: "drop_table ''v'' (add_table ''v'' t (se_db view_session)) = Inr (se_db view_session)"
    by (simp add: drop_table_def add_table_def has_table_def view_session_def db_new_def fun_upd_idem)
  have o: "order_rows no_env m o1 [] = (case o1 of Some OrderAll \<Rightarrow> perr (ExecError ''ORDER BY ALL not supported'')
      | _ \<Rightarrow> pok [])" for m
    by (auto simp: order_rows_def sort_rows_def sort_by_def split: option.split order_by.split)
  have s: "select_from_table no_env ord visit (query_v o1) star_of_v t =
      (case o1 of Some OrderAll \<Rightarrow> perr (ExecError ''ORDER BY ALL not supported'') | _ \<Rightarrow> Some (Inr (Inr ([''n''], []))))"
    for ord visit
    by (simp add: select_from_table_def star_of_v star_plain where_none assms select_plain_def grouped_rows_def
        distinct_rows_def o)
      (auto simp: apply_limit_offset_def project_cells_def assms plain_column_def star_of_v(3)
        split: option.split order_by.split)
  have sn: "set_subq_snapshot_if_needed star_of_v x = x" for x :: "unit session"
    by (simp add: set_subq_snapshot_if_needed_def star_of_v)
  have p: "se_db (put_table ''v'' t view_session) = add_table ''v'' t (se_db view_session)"
    "put_table ''v'' t view_session\<lparr>se_db := se_db view_session\<rparr> = view_session"
    by (simp_all add: put_table_def)
  show ?thesis
    unfolding run_select_def Let_def view_env r sum.case sn s
    by (auto simp: drop_views_def p d split: option.split order_by.split)
qed


text \<open>A SELECT over a view that fails after the view was materialised (here in ORDER BY ALL; a failing
  GROUP BY or window function the same) leaves the table with the view's name in the database.  From then
  on the name is that table: the view is not computed again.\<close>

theorem failed_select_leaves_view_table:
  "\<exists>s'. exec_select_rows view_host (query_v (Some OrderAll)) view_session =
       Some (Inl (ExecError ''ORDER BY ALL not supported''), s') \<and>
     \<not> has_table ''v'' (se_db view_session) \<and> has_table ''v'' (se_db s') \<and>
     view_in_from no_unicode (sel_from star_of_v) (se_db view_session) = Some ''v'' \<and>
     view_in_from no_unicode (sel_from star_of_v) (se_db s') = None"
proof -
  obtain t where t: "tbl_columns t = [plain_column ''n'' TString]" "tbl_rows t = []"
    "exec_select_rows view_host (query_v (Some OrderAll)) view_session =
       run_select view_host (query_v (Some OrderAll)) star_of_v (Some ''v'') (put_table ''v'' t view_session)"
    by (rule select_v)
  show ?thesis
    by (rule exI [of _ "put_table ''v'' t view_session"])
      (simp add: t(3) run_v [OF t(1,2)] view_from,
       simp add: star_of_v view_in_from_def view_name has_table_def put_table_def add_table_def view_session_def db_new_def)
qed

section \<open>A SELECT returns\<close>



end
