(* ===== verification/WindowProps.thy ===== *)
theory WindowProps
  imports Window SelectProps LookupKeys
begin

text \<open>
  The properties of window functions: frames stay inside their partition, and the ranks count the rows
  that come before.
\<close>

section \<open>Frames\<close>

lemma walk_back_le: "walk_back stop p = Some s \<Longrightarrow> s \<le> p"
  by (induction stop p rule: walk_back.induct) (fastforce split: option.splits bool.splits)+

lemma walk_back_defined: "\<forall>i < p. stop i \<noteq> None \<Longrightarrow> walk_back stop p \<noteq> None"
  by (induction stop p rule: walk_back.induct) (auto split: option.split bool.split)

lemma walk_on_le: "walk_on stop e k = Some r \<Longrightarrow> r \<le> e + k"
  by (induction stop e k rule: walk_on.induct) (fastforce split: option.splits bool.splits)+

lemma walk_on_defined: "\<forall>i. e < i \<and> i \<le> e + k \<longrightarrow> stop i \<noteq> None \<Longrightarrow> walk_on stop e k \<noteq> None"
proof (induction stop e k rule: walk_on.induct)
  case (2 stop e k)
  then have "stop (Suc e) \<noteq> None" by simp
  with 2 show ?case by (auto split: option.split bool.split)
qed simp

text \<open>The peer groups are intervals of positions in ascending order.\<close>

lemma peer_bounds_defined:
  "\<forall>i < pos + k. val i \<noteq> None \<Longrightarrow> start < pos \<Longrightarrow> peer_bounds val start pos k \<noteq> None"
proof (induction val start pos k rule: peer_bounds.induct)
  case (2 val start pos k)
  then obtain a b where "val pos = Some a" "val start = Some b" by (metis add_Suc_right less_add_Suc1 not_None_eq order_less_trans)
  with 2 show ?case by (cases "db_eq a b") auto
qed simp

lemma peer_bounds_intervals:
  "peer_bounds val start pos k = Some gs \<Longrightarrow> start < pos \<Longrightarrow>
     gs \<noteq> [] \<and> (\<forall>g \<in> set gs. start \<le> fst g \<and> fst g \<le> snd g \<and> snd g < pos + k) \<and>
     sorted_wrt (\<lambda>g h. fst g \<le> snd h) gs"
proof (induction val start pos k arbitrary: gs rule: peer_bounds.induct)
  case (2 val start pos k)
  from 2(3) obtain a b where ab: "val pos = Some a" "val start = Some b"
    by (auto split: option.splits)
  show ?case
  proof (cases "db_eq a b")
    case True
    with 2(3) ab have "peer_bounds val start (pos + 1) k = Some gs" by simp
    from 2(2) [OF refl ab _ this] True 2(4) show ?thesis by auto
  next
    case False
    with 2(3) ab obtain hs where hs: "peer_bounds val pos (pos + 1) k = Some hs" "gs = (start, pos - 1) # hs" by auto
    from 2(1) [OF refl ab _ hs(1)] False have h: "\<forall>g \<in> set hs. pos \<le> fst g \<and> fst g \<le> snd g \<and> snd g < pos + 1 + k"
      "sorted_wrt (\<lambda>g h. fst g \<le> snd h) hs" by auto
    show ?thesis using h 2(4) unfolding hs(2) by fastforce
  qed
qed simp

lemma group_bounds_intervals:
  assumes "compute_group_bounds val order len = Some gs" "0 < len"
  shows "gs \<noteq> [] \<and> (\<forall>g \<in> set gs. fst g \<le> snd g \<and> snd g < len) \<and> sorted_wrt (\<lambda>g h. fst g \<le> snd h) gs"
proof (cases "order = []")
  case False
  with assms have "peer_bounds val 0 1 (len - 1) = Some gs" by (simp add: compute_group_bounds_def)
  from peer_bounds_intervals [OF this] assms(2) show ?thesis by auto
qed (use assms in \<open>auto simp: compute_group_bounds_def\<close>)

lemma current_group_less: "gs \<noteq> [] \<Longrightarrow> current_group gs pos < length gs"
  using position_Some [of _ gs] by (auto simp: current_group_def split: option.split)

lemma group_frame_ok:
  assumes "gs \<noteq> []" "\<forall>g \<in> set gs. fst g \<le> snd g \<and> snd g < len" "sorted_wrt (\<lambda>g h. fst g \<le> snd h) gs"
    and "i < length gs" "j < length gs"
  shows "\<exists>s e. group_frame gs i j = Some (s, e) \<and> s \<le> e \<and> e < len"
proof -
  let ?a = "min i j" and ?b = "max j i"
  have ab: "?a \<le> ?b" "?b < length gs" "max i j = ?b" using assms(4,5) by auto
  have "fst (gs ! ?a) \<le> snd (gs ! ?b)"
  proof (cases "?a = ?b")
    case True
    then show ?thesis using assms(2) ab nth_mem [of ?b gs] by metis
  next
    case False
    then show ?thesis using sorted_wrt_nth_less [OF assms(3), of ?a ?b] ab by simp
  qed
  moreover have "snd (gs ! ?b) < len" using assms(2) ab nth_mem [of ?b gs] by blast
  ultimately show ?thesis using ab by (auto simp: group_frame_def)
qed

text \<open>The offset expressions of a frame.\<close>

fun bound_offset :: "frame_bound \<Rightarrow> sql_expr set" where
  "bound_offset (Preceding (Some e)) = {e}"
| "bound_offset (Following (Some e)) = {e}"
| "bound_offset _ = {}"

fun frame_offsets :: "window_frame \<Rightarrow> sql_expr set" where
  "frame_offsets (WindowFrame units s e) = bound_offset s \<union> (case e of None \<Rightarrow> {} | Some b \<Rightarrow> bound_offset b)"

definition calm_offset :: "eval_env \<Rightarrow> sql_expr \<Rightarrow> bool" where
  "calm_offset E e \<longleftrightarrow> eval_literal_expr E e \<noteq> None"

lemma with_offset_ok:
  "calm_offset E e \<Longrightarrow> (\<And>n. \<exists>s. f n = Some s \<and> P s) \<Longrightarrow> \<exists>s. with_offset E e f = Some s \<and> P s"
  by (auto simp: calm_offset_def with_offset_def eval_offset_def split: option.split)

lemma walk_back_ok: "\<forall>i < p. stop i \<noteq> None \<Longrightarrow> p < len \<Longrightarrow> \<exists>s. walk_back stop p = Some s \<and> s < len"
  using walk_back_defined [of p stop] walk_back_le [of stop p] by fastforce

lemma walk_on_ok:
  "\<forall>i < len. stop i \<noteq> None \<Longrightarrow> p < len \<Longrightarrow> \<exists>s. walk_on stop p (len - Suc p) = Some s \<and> s < len"
  using walk_on_defined [of p "len - Suc p" stop] walk_on_le [of stop p "len - Suc p"] by fastforce

lemma rows_bounds_ok:
  assumes "pos < len" "\<forall>e \<in> bound_offset b. calm_offset E e"
  shows "\<exists>s. rows_start E pos (len - 1) b = Some s \<and> s < len"
    and "\<exists>s. rows_end E pos (len - 1) (Some b) = Some s \<and> s < len"
  using assms by (cases b rule: bound_offset.cases; auto intro!: with_offset_ok)+

lemma groups_bounds_ok:
  assumes "g < n" "\<forall>e \<in> bound_offset b. calm_offset E e"
  shows "\<exists>s. groups_start E g n b = Some s \<and> s < n"
    and "\<exists>s. groups_end E g n (Some b) = Some s \<and> s < n"
  using assms by (cases b rule: bound_offset.cases; auto intro!: with_offset_ok)+

lemma range_bounds_ok:
  assumes "pos < len" "\<forall>e \<in> bound_offset b. calm_offset E e" "\<forall>k < len. val k \<noteq> None"
  shows "\<exists>s. range_start E val cur pos (len - 1) b = Some s \<and> s < len"
    and "\<exists>s. range_end E val cur pos (len - 1) (Some b) = Some s \<and> s < len"
proof -
  have d: "\<forall>i < len. far_before val cur n i \<noteq> None" "\<forall>i < len. far_after val cur n i \<noteq> None"
    "\<forall>i < len. no_peer val cur i \<noteq> None" for n
    using assms(3) by (simp_all add: far_before_def far_after_def no_peer_def)
  note w = walk_back_ok [OF _ assms(1)] walk_on_ok [OF _ assms(1)]
  show "\<exists>s. range_start E val cur pos (len - 1) b = Some s \<and> s < len"
    using assms(1,2) d by (cases b rule: bound_offset.cases) (auto intro!: with_offset_ok w)
  show "\<exists>s. range_end E val cur pos (len - 1) (Some b) = Some s \<and> s < len"
    using assms(1,2) d by (cases b rule: bound_offset.cases) (auto intro!: with_offset_ok w)
qed

lemma ordered_ok: "s < len \<Longrightarrow> e < len \<Longrightarrow> fst (ordered s e) \<le> snd (ordered s e) \<and> snd (ordered s e) < len"
  by (auto simp: ordered_def)

text \<open>For every row of a partition and every frame clause (ROWS, RANGE or GROUPS, any bounds), the
  computed frame is a non-empty interval of positions of the partition, so slicing the partition by it
  does not panic; the computation itself panics only when an ORDER BY value or an offset literal does.\<close>

theorem frame_in_partition:
  assumes "pos < length part" and "\<forall>k < length part. val k \<noteq> None"
    and "\<forall>e \<in> frame_offsets fr. calm_offset E e"
  shows "\<exists>s e. frame_bounds E val order (length part) pos fr = Some (s, e) \<and> s \<le> e \<and> e < length part \<and>
    frame_slice part s e = Some (take (e + 1 - s) (drop s part))"
proof -
  let ?len = "length part"
  obtain units sb eb where fr: "fr = WindowFrame units sb eb" by (cases fr)
  have o: "\<forall>e \<in> bound_offset sb. calm_offset E e" "\<And>b. eb = Some b \<Longrightarrow> \<forall>e \<in> bound_offset b. calm_offset E e"
    using assms(3) by (auto simp: fr)
  have "\<exists>s e. frame_bounds E val order ?len pos fr = Some (s, e) \<and> s \<le> e \<and> e < ?len"
  proof (cases units)
    case FrameRows
    have "\<exists>s. rows_end E pos (?len - 1) eb = Some s \<and> s < ?len"
      using rows_bounds_ok(2) [OF assms(1) o(2)] assms(1) by (cases eb) auto
    then obtain s e where "rows_start E pos (?len - 1) sb = Some s" "rows_end E pos (?len - 1) eb = Some e" "s < ?len" "e < ?len"
      using rows_bounds_ok(1) [OF assms(1) o(1)] by blast
    then show ?thesis using ordered_ok [of s ?len e] by (cases "ordered s e") (simp add: fr FrameRows both_def)
  next
    case FrameRange
    obtain cur where cur: "val pos = Some cur" using assms(1,2) by auto
    have "\<exists>s. range_end E val cur pos (?len - 1) eb = Some s \<and> s < ?len"
      using range_bounds_ok(2) [OF assms(1) o(2) assms(2)] assms(1) by (cases eb) auto
    then obtain s e where "range_start E val cur pos (?len - 1) sb = Some s" "range_end E val cur pos (?len - 1) eb = Some e"
      "s < ?len" "e < ?len"
      using range_bounds_ok(1) [OF assms(1) o(1) assms(2)] by blast
    then show ?thesis
      using ordered_ok [of s ?len e] assms(1) cur by (cases "ordered s e") (auto simp: fr FrameRange both_def Let_def)
  next
    case FrameGroups
    show ?thesis
    proof (cases "order = []")
      case False
      have "compute_group_bounds val order ?len \<noteq> None"
        using peer_bounds_defined [of 1 "?len - 1" val 0] assms(1,2) False by (auto simp: compute_group_bounds_def)
      then obtain gs where gs: "compute_group_bounds val order ?len = Some gs" by blast
      have gi: "gs \<noteq> []" "\<forall>g \<in> set gs. fst g \<le> snd g \<and> snd g < ?len" "sorted_wrt (\<lambda>g h. fst g \<le> snd h) gs"
        using group_bounds_intervals [OF gs order.strict_trans1 [OF le0 assms(1)]] by blast+
      note g = current_group_less [OF gi(1), of pos]
      have "\<exists>s. groups_end E (current_group gs pos) (length gs) eb = Some s \<and> s < length gs"
        using groups_bounds_ok(2) [OF g o(2)] g by (cases eb) auto
      then obtain i j where ij: "groups_start E (current_group gs pos) (length gs) sb = Some i"
        "groups_end E (current_group gs pos) (length gs) eb = Some j" "i < length gs" "j < length gs"
        using groups_bounds_ok(1) [OF g o(1)] by blast
      from group_frame_ok [OF gi ij(3,4)] show ?thesis using False by (simp add: fr FrameGroups both_def gs ij(1,2))
    qed (use assms(1) in \<open>auto simp: fr FrameGroups\<close>)
  qed
  then obtain s e where "frame_bounds E val order ?len pos fr = Some (s, e)" "s \<le> e" "e < ?len" by blast
  then show ?thesis by (intro exI [of _ s] exI [of _ e]) (simp add: frame_slice_def)
qed

text \<open>\<open>GROUPS BETWEEN UNBOUNDED PRECEDING AND CURRENT ROW\<close> over the values 10, 20, 20, 30.\<close>

definition demo_frame :: window_frame where
  "demo_frame = WindowFrame FrameGroups (Preceding None) (Some CurrentRow)"

theorem frame_in_partition_witness:
  "\<exists>s e. frame_bounds no_env (\<lambda>k. Some (DInt ([10, 20, 20, 30] ! k))) [(Identifier ''n'', None)]
      (length [7, 8, 9, 6 :: nat]) 1 demo_frame = Some (s, e) \<and>
    s \<le> e \<and> e < length [7, 8, 9, 6 :: nat] \<and> frame_slice [7, 8, 9, 6 :: nat] s e = Some (take (e + 1 - s) (drop s [7, 8, 9, 6]))"
  by (rule frame_in_partition) (simp_all add: demo_frame_def)

section \<open>Ranks\<close>

lemma ranks_from_cong:
  "\<forall>i \<in> insert prev (set js). \<forall>j \<in> insert prev (set js). eq i j = eq' i j \<Longrightarrow>
     ranks_from eq nxt prev rank pos js = ranks_from eq' nxt prev rank pos js"
  by (induction js arbitrary: prev rank pos) (auto split: option.split)

lemma ranks_cong:
  "(\<And>i j. i \<in> set part \<Longrightarrow> j \<in> set part \<Longrightarrow> eq i j = eq' i j) \<Longrightarrow> ranks eq nxt part = ranks eq' nxt part"
  using ranks_from_cong [of _ _ eq eq'] by (cases part) auto

text \<open>Ranks along a list in the order of an integer key, rows with equal keys being peers.\<close>

lemma ranks_from_rank:
  assumes "\<And>i j. eq i j = Some (k i = (k j :: int))"
  shows "pre \<noteq> [] \<Longrightarrow> sorted (map k (pre @ js)) \<Longrightarrow> prev = last pre \<Longrightarrow>
    rank = 1 + length (filter (\<lambda>j. k j < k prev) pre) \<Longrightarrow>
    ranks_from eq rank_next prev rank (length pre) js =
      Some (map (\<lambda>i. (i, 1 + length (filter (\<lambda>j. k j < k i) (pre @ js)))) js)"
proof (induction js arbitrary: pre prev rank)
  case (Cons i js)
  have le: "k j \<le> k prev" if "j \<in> set pre" for j
    using Cons.prems(1,2,3) that by (induction pre rule: rev_induct) (auto simp: sorted_append)
  have ge: "k i \<le> k j" if "j \<in> set (i # js)" for j
    using Cons.prems(2) that by (auto simp: sorted_append)
  have pi: "k prev \<le> k i" using Cons.prems(1,2,3) by (auto simp: sorted_append)
  have none: "filter (\<lambda>j. k j < k i) (i # js) = []" using ge by (auto simp: filter_empty_conv not_less)
  let ?r = "if k i = k prev then rank else rank_next rank (length pre)"
  have r: "?r = 1 + length (filter (\<lambda>j. k j < k i) pre)"
  proof (cases "k i = k prev")
    case False
    then have "filter (\<lambda>j. k j < k i) pre = pre" using le pi by (force simp: filter_id_conv)
    with False show ?thesis by (simp add: rank_next_def)
  qed (simp add: Cons.prems(4))
  define f where "f = (\<lambda>i'. (i', 1 + length (filter (\<lambda>j. k j < k i') (pre @ i # js))))"
  have "ranks_from eq rank_next i ?r (length (pre @ [i])) js =
      Some (map (\<lambda>i'. (i', 1 + length (filter (\<lambda>j. k j < k i') ((pre @ [i]) @ js)))) js)"
    by (rule Cons.IH) (use Cons.prems(2) r in simp_all)
  then have "ranks_from eq rank_next i ?r (Suc (length pre)) js = Some (map f js)" by (simp add: f_def)
  moreover have "f i = (i, ?r)" using r none by (simp add: f_def)
  ultimately have "ranks_from eq rank_next prev rank (length pre) (i # js) = Some (map f (i # js))"
    by (simp add: assms Let_def)
  then show ?case unfolding f_def .
qed simp

lemma ranks_rank:
  assumes "\<And>i j. eq i j = Some (k i = (k j :: int))" "sorted (map k part)"
  shows "ranks eq rank_next part = Some (map (\<lambda>i. (i, 1 + length (filter (\<lambda>j. k j < k i) part))) part)"
proof (cases part)
  case (Cons i js)
  have "\<forall>j \<in> set js. \<not> k j < k i" using assms(2) Cons by auto
  with ranks_from_rank [OF assms(1), where pre = "[i]" and js = js and prev = i and rank = 1] assms(2) Cons show ?thesis
    by (auto simp: filter_empty_conv)
qed simp

lemma ranks_from_dense:
  assumes "\<And>i j. eq i j = Some (k i = (k j :: int))"
  shows "pre \<noteq> [] \<Longrightarrow> sorted (map k (pre @ js)) \<Longrightarrow> prev = last pre \<Longrightarrow>
    rank = card (k ` set pre) \<Longrightarrow>
    ranks_from eq dense_next prev rank (length pre) js =
      Some (map (\<lambda>i. (i, 1 + card {v \<in> k ` set (pre @ js). v < k i})) js)"
proof (induction js arbitrary: pre prev rank)
  case (Cons i js)
  have le: "k j \<le> k prev" if "j \<in> set pre" for j
    using Cons.prems(1,2,3) that by (induction pre rule: rev_induct) (auto simp: sorted_append)
  have ge: "k i \<le> k j" if "j \<in> set (i # js)" for j
    using Cons.prems(2) that by (auto simp: sorted_append)
  have pi: "k prev \<le> k i" using Cons.prems(1,2,3) by (auto simp: sorted_append)
  let ?r = "if k i = k prev then rank else dense_next rank (length pre)"
  have new: "k i \<in> k ` set pre \<longleftrightarrow> k i = k prev"
    using le pi Cons.prems(1,3) by (metis antisym image_eqI image_iff last_in_set)
  then have r: "?r = card (k ` set (pre @ [i]))"
    by (simp add: Cons.prems(4) dense_next_def card_insert_if)
  have "{v \<in> k ` set (pre @ i # js). v < k i} = k ` set pre - {k i}"
    using le ge pi by (auto simp: image_iff) (metis antisym not_le order_trans less_le)+
  then have c: "1 + card {v \<in> k ` set (pre @ i # js). v < k i} = ?r"
    unfolding r by (simp add: card.insert_remove)
  define f where "f = (\<lambda>i'. (i', 1 + card {v \<in> k ` set (pre @ i # js). v < k i'}))"
  have "ranks_from eq dense_next i ?r (length (pre @ [i])) js =
      Some (map (\<lambda>i'. (i', 1 + card {v \<in> k ` set ((pre @ [i]) @ js). v < k i'})) js)"
    by (rule Cons.IH) (use Cons.prems(2) r in simp_all)
  then have "ranks_from eq dense_next i ?r (Suc (length pre)) js = Some (map f js)" by (simp add: f_def)
  moreover have "f i = (i, ?r)" using c by (simp add: f_def)
  ultimately have "ranks_from eq dense_next prev rank (length pre) (i # js) = Some (map f (i # js))"
    by (simp add: assms Let_def)
  then show ?case unfolding f_def .
qed simp

lemma ranks_dense:
  assumes "\<And>i j. eq i j = Some (k i = (k j :: int))" "sorted (map k part)"
  shows "ranks eq dense_next part = Some (map (\<lambda>i. (i, 1 + card {v \<in> k ` set part. v < k i})) part)"
proof (cases part)
  case (Cons i js)
  have "{v. (v = k i \<or> v \<in> k ` set js) \<and> v < k i} = {}" using assms(2) Cons by auto
  with ranks_from_dense [OF assms(1), where pre = "[i]" and js = js and prev = i and rank = 1] assms(2) Cons show ?thesis by simp
qed simp

text \<open>A column of cells written in any order.\<close>

lemma set_cells_map:
  assumes "distinct part" "set part = {..<length xs}"
  shows "set_cells (map (\<lambda>i. (i, f i)) part) xs = map f [0..<length xs]"
proof (rule nth_equalityI)
  have n: "length (set_cells cs ys) = length ys" for cs ys
    by (induction cs arbitrary: ys) (auto simp: set_cells_def)
  show "length (set_cells (map (\<lambda>i. (i, f i)) part) xs) = length (map f [0..<length xs])" by (simp add: n)
  have "set_cells (map (\<lambda>i. (i, f i)) p) ys ! j = (if j \<in> set p then f j else ys ! j)"
    if "distinct p" "j < length ys" for p ys j
    using that by (induction p arbitrary: ys) (auto simp: set_cells_def)
  with assms show "set_cells (map (\<lambda>i. (i, f i)) part) xs ! j = map f [0..<length xs] ! j"
    if "j < length (set_cells (map (\<lambda>i. (i, f i)) part) xs)" for j
    using that n by simp
qed

text \<open>A column of small integers puts the rows in the order of its values.\<close>

lemma sort_by_ints:
  assumes "\<And>i j. i \<in> set xs \<Longrightarrow> j \<in> set xs \<Longrightarrow> f i j = Some (cmp (k i) (k j :: int))"
  shows "\<exists>ys. sort_by f xs = Some ys \<and> mset ys = mset xs \<and> sorted (map k ys)"
proof -
  have "comparator (set xs) (\<lambda>i j. cmp (k i) (k j))"
    by (auto simp: comparator_def not_less ord_reverse_cmp)
  from comparator.sort_by_ok [OF this, of xs f] assms obtain ys where
    ys: "sort_by f xs = Some ys" "mset ys = mset xs" "sorted_wrt (\<lambda>i j. cmp (k i) (k j) \<noteq> Greater) ys" by auto
  from ys(3) have "sorted (map k ys)" by (simp add: sorted_map not_less)
  with ys show ?thesis by blast
qed

text \<open>Over a column of integers (of magnitude at most $2^{53}$, where the comparison as floats is exact)
  \<open>RANK() OVER (ORDER BY c)\<close> gives each row one plus the number of rows with a smaller value, and
  \<open>DENSE_RANK()\<close> one plus the number of smaller distinct values; every row gets its cell in its own place,
  in the original order of the rows.\<close>

theorem rank_counts_smaller:
  assumes "\<forall>i < length rows. eval_expr E (rows ! i) m e = pok (DInt (k i)) \<and> small_int (k i)"
  shows "(to_lowercase (env_unicode E) nm = ''rank'' \<longrightarrow>
      window_column E m rows (nm, args, [], [(e, None)], frame) =
        pok (map (\<lambda>i. count_value (1 + card {j. j < length rows \<and> sint (k j) < sint (k i)})) [0..<length rows])) \<and>
    (to_lowercase (env_unicode E) nm = ''dense_rank'' \<longrightarrow>
      window_column E m rows (nm, args, [], [(e, None)], frame) =
        pok (map (\<lambda>i. count_value (1 + card {v. v < sint (k i) \<and> (\<exists>j < length rows. v = sint (k j))})) [0..<length rows]))"
proof -
  let ?n = "length rows" and ?k = "\<lambda>i. sint (k i)"
  let ?eq = "\<lambda>a b. peers_equal E m [(e, None)] (rows ! a) (rows ! b)"
  have cmp: "compare_rows E m [(e, None)] (rows ! i) (rows ! j) = Some (cmp (?k i) (?k j))" if "i < ?n" "j < ?n" for i j
  proof -
    have e: "eval_expr E (rows ! i) m e = pok (DInt (k i))" "eval_expr E (rows ! j) m e = pok (DInt (k j))"
      and "small_int (k i)" "small_int (k j)" using assms that by auto
    then have "db_value_cmp (or_null (Inr (DInt (k i)))) (or_null (Inr (DInt (k j)))) = cmp (?k i) (?k j)"
      by (simp add: or_null_def small_int_cmp)
    with e show ?thesis unfolding compare_rows.simps Let_def by (simp only: option.case) simp
  qed
  then obtain part where p: "sort_partition E m [(e, None)] rows [0..<?n] = Some part" "mset part = mset [0..<?n]"
    "sorted (map ?k part)"
    using sort_by_ints [of "[0..<?n]" "\<lambda>i j. compare_rows E m [(e, None)] (rows ! i) (rows ! j)" ?k]
    by (auto simp: sort_partition_def)
  have "distinct part \<longleftrightarrow> distinct [0..<?n]" by (rule mset_eq_imp_distinct_iff [OF p(2)])
  moreover have "set part = set [0..<?n]" by (rule mset_eq_setD [OF p(2)])
  ultimately have part: "distinct part" "set part = {..<?n}" by (simp_all add: atLeast0LessThan)
  have col: "window_column E m rows (nm, args, [], [(e, None)], frame) =
      pbind (partition_cells E m rows (to_lowercase (env_unicode E) nm) args [(e, None)] frame part)
        (\<lambda>cs. pok (set_cells cs (replicate ?n DNull)))"
    by (simp add: window_column_def window_partitions_def p(1))
  have len: "length (filter (\<lambda>j. ?k j < ?k i) part) = card {j. j < ?n \<and> ?k j < ?k i}" for i
  proof -
    have "length (filter (\<lambda>j. ?k j < ?k i) part) = card (set (filter (\<lambda>j. ?k j < ?k i) part))"
      using part(1) by (metis distinct_card distinct_filter)
    then show ?thesis by (simp add: part(2))
  qed
  have vals: "{v \<in> ?k ` {..<?n}. v < ?k i} = {v. v < ?k i \<and> (\<exists>j < ?n. v = ?k j)}" for i
    by auto
  have eq: "?eq i j = Some (?k i = ?k j)" if "i \<in> set part" "j \<in> set part" for i j
  proof -
    have "eval_expr E (rows ! i) m e = pok (DInt (k i))" "eval_expr E (rows ! j) m e = pok (DInt (k j))"
      using assms that part(2) by auto
    then show ?thesis unfolding peers_equal.simps by (auto simp: or_null_def intro: signed_word_eqI)
  qed
  have r: "ranks ?eq rank_next part = Some (map (\<lambda>i. (i, 1 + length (filter (\<lambda>j. ?k j < ?k i) part))) part)"
    "ranks ?eq dense_next part = Some (map (\<lambda>i. (i, 1 + card {v \<in> ?k ` set part. v < ?k i})) part)"
    using ranks_cong [OF eq] ranks_rank [OF refl p(3)] ranks_dense [OF refl p(3)] by simp_all
  show ?thesis unfolding col partition_cells_def rank_cells_def
    using set_cells_map [OF part(1), of "replicate ?n DNull"] part(2)
    by (simp add: r len vals comp_def del: peers_equal.simps)
qed

abbreviation "score_rows \<equiv> [[DString ''a'', DInt 30], [DString ''b'', DInt 10], [DString ''c'', DInt 30]]"

lemma column_v: "eval_expr no_env r n_map (Identifier ''v'') = cell r 1"
  by (simp add: n_map_def eval_identifier_def to_lowercase_def is_ascii_def to_ascii_lowercase_def ascii_lower_def)

theorem rank_counts_smaller_witness:
  "window_column no_env n_map score_rows (''RANK'', NoArgs, [], [(Identifier ''v'', None)], None) =
     pok [DInt 2, DInt 1, DInt 2]"
proof -
  let ?k = "\<lambda>i :: nat. (if i = 1 then 10 else 30) :: i64"
  have u: "to_lowercase no_unicode ''RANK'' = ''rank''"
    by code_simp
  have k: "\<forall>i < length score_rows. eval_expr no_env (score_rows ! i) n_map (Identifier ''v'') = pok (DInt (?k i)) \<and> small_int (?k i)"
    by (auto simp: column_v cell_def small_int_def less_Suc_eq numeral_3_eq_3 simp del: eval_expr.simps)
  have c: "{j. j < 3 \<and> sint (?k j) < 30} = {1}" "{j. j < 3 \<and> sint (?k j) < 10} = {}"
    by (auto split: if_splits)
  from rank_counts_smaller [OF k, of "''RANK''" NoArgs None] u show ?thesis
    by (simp add: c count_value_def upt_rec del: eval_expr.simps)
qed

end
