(* ===== verification/AggregateProps.thy ===== *)
theory AggregateProps
  imports Aggregate SelectProps LookupKeys
begin

text \<open>
  The property of the aggregate functions over a column of integers and NULLs.
\<close>

text \<open>The cell of a row whose integer, if any, is given.\<close>

definition int_cell :: "i64 option \<Rightarrow> db_value" where
  "int_cell n = (case n of None \<Rightarrow> DNull | Some i \<Rightarrow> DInt i)"

lemma int_cell_simps [simp]:
  "int_cell n = DNull \<longleftrightarrow> n = None" "int_cell (Some i) = DInt i" "int_cell None = DNull"
  "as_int (int_cell n) = n" "db_eq (int_cell n) DNull \<longleftrightarrow> n = None"
  by (simp_all add: int_cell_def split: option.split)

lemma passing_values_all:
  "\<forall>r \<in> set rows. f r = pok (v r) \<Longrightarrow> passing_values every_row f rows = Some (map v rows)"
  by (induction rows) auto

lemma every_row_plain: "call_filter mods = None \<Longrightarrow> passes_filter E m mods = every_row"
  by (simp add: passes_filter_def fun_eq_iff)

lemma map_filter_cells: "List.map_filter as_int (map (\<lambda>r. int_cell (k r)) rows) = List.map_filter k rows"
  by (induction rows) (simp_all add: map_filter_simps split: option.split)

lemma fold_plus: "fold (\<lambda>n acc. acc + n) xs (z :: 'a :: comm_monoid_add) = z + sum_list xs"
  by (induction xs arbitrary: z) (simp_all add: ac_simps)

lemma non_null_cells:
  "filter (\<lambda>v. v \<noteq> DNull) (map (\<lambda>r. int_cell (k r)) rows) = map DInt (List.map_filter k rows)"
  by (induction rows) (simp_all add: map_filter_simps split: option.split)

lemma count_cells:
  "length (filter (\<lambda>v. \<not> db_eq v DNull) (map (\<lambda>r. int_cell (k r)) rows)) = length (List.map_filter k rows)"
  by (induction rows) (simp_all add: map_filter_simps split: option.split)

lemma fold_min_small:
  "small_int b \<Longrightarrow> \<forall>n \<in> set ns. small_int n \<Longrightarrow>
     \<exists>n \<in> insert b (set ns). fold (\<lambda>y best. if db_value_cmp best y = Greater then y else best) (map DInt ns) (DInt b) = DInt n \<and>
       (\<forall>x \<in> insert b (set ns). sint n \<le> sint x)"
proof (induction ns arbitrary: b)
  case (Cons a ns)
  let ?b = "if sint a < sint b then a else b"
  have "(if db_value_cmp (DInt b) (DInt a) = Greater then DInt a else DInt b) = DInt ?b"
    using Cons.prems by (simp add: small_int_cmp)
  moreover have "small_int ?b" "\<forall>n \<in> set ns. small_int n" using Cons.prems by auto
  from Cons.IH [OF this] obtain n where "n \<in> insert ?b (set ns)" "\<forall>x \<in> insert ?b (set ns). sint n \<le> sint x"
    "fold (\<lambda>y best. if db_value_cmp best y = Greater then y else best) (map DInt ns) (DInt ?b) = DInt n"
    by blast
  ultimately show ?case by (intro bexI [of _ n]) (auto split: if_splits)
qed auto

lemma fold_max_small:
  "small_int b \<Longrightarrow> \<forall>n \<in> set ns. small_int n \<Longrightarrow>
     \<exists>n \<in> insert b (set ns). fold (\<lambda>y best. if db_value_cmp best y = Greater then best else y) (map DInt ns) (DInt b) = DInt n \<and>
       (\<forall>x \<in> insert b (set ns). sint x \<le> sint n)"
proof (induction ns arbitrary: b)
  case (Cons a ns)
  let ?b = "if sint a < sint b then b else a"
  have "(if db_value_cmp (DInt b) (DInt a) = Greater then DInt b else DInt a) = DInt ?b"
    using Cons.prems by (simp add: small_int_cmp)
  moreover have "small_int ?b" "\<forall>n \<in> set ns. small_int n" using Cons.prems by auto
  from Cons.IH [OF this] obtain n where "n \<in> insert ?b (set ns)" "\<forall>x \<in> insert ?b (set ns). sint x \<le> sint n"
    "fold (\<lambda>y best. if db_value_cmp best y = Greater then best else y) (map DInt ns) (DInt ?b) = DInt n"
    by blast
  ultimately show ?case by (intro bexI [of _ n]) (auto split: if_splits)
qed auto

text \<open>Over a group whose argument cells are integers or NULL: COUNT counts the integers, SUM adds them
  modulo $2^{64}$, MIN and MAX are the least and the greatest integer (up to $2^{53}$), and errors when
  there is none.  But SUM looks at the first row only to choose its kind: when that cell is NULL it is a
  type error, whatever the other rows hold.\<close>

theorem aggregates_of_integers:
  assumes "rows \<noteq> []" and "\<forall>r \<in> set rows. eval_expr E r m e = pok (int_cell (k r))"
    and "\<forall>r \<in> set rows. \<forall>n. k r = Some n \<longrightarrow> small_int n"
    and "args = ArgList [Unnamed (ArgExpr e)]" "call_filter mods = None" "\<not> call_distinct mods"
  shows "aggregate_count E m args mods rows = Some (count_value (length (List.map_filter k rows))) \<and>
    aggregate_sum E m args mods rows =
      (if k (hd rows) = None then perr (TypeError ''numeric column'' (db_debug (env_unicode E) DNull))
       else pok (DInt (sum_list (List.map_filter k rows)))) \<and>
    (aggregate_min E m args mods rows = perr (ExecError ''MIN on empty set'') \<and> List.map_filter k rows = [] \<or>
      (\<exists>n \<in> set (List.map_filter k rows). aggregate_min E m args mods rows = pok (DInt n) \<and>
        (\<forall>x \<in> set (List.map_filter k rows). sint n \<le> sint x))) \<and>
    (aggregate_max E m args mods rows = perr (ExecError ''MAX on empty set'') \<and> List.map_filter k rows = [] \<or>
      (\<exists>n \<in> set (List.map_filter k rows). aggregate_max E m args mods rows = pok (DInt n) \<and>
        (\<forall>x \<in> set (List.map_filter k rows). sint x \<le> sint n)))"
proof -
  have arg: "extract_func_arg args = Inr e" by (simp add: assms(4) extract_func_arg_def)
  have f: "passes_filter E m mods = every_row" by (rule every_row_plain [OF assms(5)])
  have pv: "passing_values every_row (\<lambda>r. eval_expr E r m e) rows = Some (map (\<lambda>r. int_cell (k r)) rows)"
    by (rule passing_values_all) (use assms(2) in simp)
  have small: "\<forall>n \<in> set (List.map_filter k rows). small_int n"
    using assms(3) by (auto simp: set_map_filter)
  note mn = non_null_cells [of k rows]
  show ?thesis
  proof (intro conjI)
  show "aggregate_count E m args mods rows = Some (count_value (length (List.map_filter k rows)))"
    using assms(6) unfolding aggregate_count_def Let_def arg f sum.case pv
    by (simp add: assms(4) is_count_star_def count_cells del: length_filter_map)
  show "aggregate_sum E m args mods rows =
      (if k (hd rows) = None then perr (TypeError ''numeric column'' (db_debug (env_unicode E) DNull))
       else pok (DInt (sum_list (List.map_filter k rows))))"
    using assms(1,2) pv map_filter_cells [of k rows]
    by (cases "k (hd rows)")
      (simp_all add: aggregate_sum_def arg f list.case_eq_if sum_ints_def fold_plus del: eval_expr.simps)
  show "aggregate_min E m args mods rows = perr (ExecError ''MIN on empty set'') \<and> List.map_filter k rows = [] \<or>
      (\<exists>n \<in> set (List.map_filter k rows). aggregate_min E m args mods rows = pok (DInt n) \<and>
        (\<forall>x \<in> set (List.map_filter k rows). sint n \<le> sint x))"
  proof (cases "List.map_filter k rows")
    case (Cons b ns)
    with fold_min_small [of b ns] small show ?thesis by (auto simp: aggregate_min_def arg f pv mn or_empty_def)
  qed (simp add: aggregate_min_def arg f pv mn or_empty_def)
  show "aggregate_max E m args mods rows = perr (ExecError ''MAX on empty set'') \<and> List.map_filter k rows = [] \<or>
      (\<exists>n \<in> set (List.map_filter k rows). aggregate_max E m args mods rows = pok (DInt n) \<and>
        (\<forall>x \<in> set (List.map_filter k rows). sint x \<le> sint n))"
  proof (cases "List.map_filter k rows")
    case (Cons b ns)
    with fold_max_small [of b ns] small show ?thesis by (auto simp: aggregate_max_def arg f pv mn or_empty_def)
  qed (simp add: aggregate_max_def arg f pv mn or_empty_def)
  qed
qed

theorem aggregates_of_integers_witness:
  "aggregate_sum no_env n_map (ArgList [Unnamed (ArgExpr (Identifier ''v''))]) plain_call
       [[DString ''a'', DInt 4], [DString ''b'', DNull], [DString ''c'', DInt 3]] = pok (DInt 7) \<and>
   aggregate_sum no_env n_map (ArgList [Unnamed (ArgExpr (Identifier ''v''))]) plain_call
       [[DString ''b'', DNull], [DString ''c'', DInt 3]] = perr (TypeError ''numeric column'' (db_debug no_unicode DNull))"
proof -
  let ?k = "\<lambda>r :: row. as_int (r ! 1)" and ?args = "ArgList [Unnamed (ArgExpr (Identifier ''v''))]"
  have v: "eval_expr no_env r n_map (Identifier ''v'') = cell r 1" for r
    by (simp add: n_map_def eval_identifier_def to_lowercase_def is_ascii_def to_ascii_lowercase_def ascii_lower_def)
  have s: "small_int (4 :: i64)" "small_int (3 :: i64)" by (simp_all add: small_int_def)
  have a: "\<forall>r \<in> set rows. eval_expr no_env r n_map (Identifier ''v'') = pok (int_cell (?k r))"
      "\<forall>r \<in> set rows. \<forall>n. ?k r = Some n \<longrightarrow> small_int n"
    if "set rows \<subseteq> {[DString ''a'', DInt 4], [DString ''b'', DNull], [DString ''c'', DInt 3]}" for rows
    using that s by (auto simp: v cell_def simp del: eval_expr.simps)
  have n: "call_filter plain_call = None" "\<not> call_distinct plain_call" by simp_all
  from aggregates_of_integers [OF _ a refl n, of "[[DString ''a'', DInt 4], [DString ''b'', DNull], [DString ''c'', DInt 3]]"]
    aggregates_of_integers [OF _ a refl n, of "[[DString ''b'', DNull], [DString ''c'', DInt 3]]"]
  show ?thesis by (simp add: map_filter_simps)
qed

end
