(* ===== verification/Joins.thy ===== *)
theory Joins
  imports Select
begin

text \<open>
  \<open>stmts/select/joins.rs\<close> and \<open>derived.rs\<close>: SELECT over several tables.  The tables of FROM are resolved
  in order (views and derived tables become temporary tables), a combination of rows is a list of row
  numbers, one per table (\<open>None\<close> for the NULL row of an outer join; the code writes \<open>usize::MAX\<close>), and
  the expressions are evaluated on the flat row of all cells.
\<close>

section \<open>Expressions on a flat row\<close>

text \<open>\<open>eval_expr_on_flat_row\<close>: fewer expressions than \<open>eval_expr\<close>, and a fixed threshold.\<close>

fun flat_similarity :: "eval_env \<Rightarrow> (sql_expr \<Rightarrow> db_value eres panicking) \<Rightarrow> func_args \<Rightarrow> db_value eres panicking" where
  "flat_similarity E f (ArgList (a # b # _)) =
     pbind (eval_arg f a) (\<lambda>x. pbind (eval_arg f b) (\<lambda>y.
       pok (DBool (f64_ge (trigram_similarity (env_unicode E) (value_to_string x) (value_to_string y)) default_threshold))))"
| "flat_similarity E f (ArgList _) = perr (ExecError ''fuzzy_match requires 2 args'')"
| "flat_similarity E f _ = perr (ExecError ''fuzzy_match requires args'')"

definition flat_function :: "eval_env \<Rightarrow> (sql_expr \<Rightarrow> db_value eres panicking) \<Rightarrow> rstr \<Rightarrow> func_args \<Rightarrow> row
    \<Rightarrow> col_map \<Rightarrow> db_value eres panicking" where
  "flat_function E f nm args r m =
     (let name = to_lowercase (env_unicode E) nm
      in case (if args = NoArgs then m name else None) of
           Some i \<Rightarrow> cell r i
         | None \<Rightarrow>
             (if name = ''fuzzy_match'' then flat_similarity E f args
              else exec_std_function E name args (map (eval_arg (eval_expr E r m)) (args_list args))))"

lemma flat_similarity_cong:
  assumes "\<And>e. e \<in> set (args_exprs args) \<Longrightarrow> f e = g e"
  shows "flat_similarity E f args = flat_similarity E g args"
proof (cases "\<exists>x y opt. args = ArgList (x # y # opt)")
  case True
  then obtain x y opt where v: "args = ArgList (x # y # opt)" by blast
  have "eval_arg f x = eval_arg g x" "eval_arg f y = eval_arg g y"
    by (rule eval_arg_cong; use assms v in \<open>force split: sum.splits\<close>)+
  then show ?thesis by (simp add: v)
next
  case False
  then show ?thesis by (cases "(E, f, args)" rule: flat_similarity.cases) auto
qed

lemma flat_function_cong [fundef_cong]:
  assumes "nm = nm'" and "args = args'" and "r = r'" and "m = m'"
    and "\<And>e. e \<in> set (args_exprs args') \<Longrightarrow> f e = g e"
  shows "flat_function E f nm args r m = flat_function E g nm' args' r' m'"
  using assms(1-4) flat_similarity_cong [of args' f g E, OF assms(5)]
  by (simp add: flat_function_def Let_def cong: if_cong option.case_cong)

fun eval_expr_on_flat_row :: "eval_env \<Rightarrow> col_map \<Rightarrow> row \<Rightarrow> sql_expr \<Rightarrow> db_value eres panicking" where
  "eval_expr_on_flat_row E m r (Identifier i) = eval_identifier E i r m"
| "eval_expr_on_flat_row E m r (CompoundIdentifier ps) = eval_compound E ps r m"
| "eval_expr_on_flat_row E m r (Value v) = pok (sql_val_to_db v)"
| "eval_expr_on_flat_row E m r (BinaryOp a op b) =
     pbind (eval_expr_on_flat_row E m r a) (\<lambda>x. pbind (eval_expr_on_flat_row E m r b) (\<lambda>y.
       apply_binary_op (env_unicode E) x op y))"
| "eval_expr_on_flat_row E m r (Nested a) = eval_expr_on_flat_row E m r a"
| "eval_expr_on_flat_row E m r (Function nm args mods) = flat_function E (eval_expr_on_flat_row E m r) nm args r m"
| "eval_expr_on_flat_row E m r (IsNull a) = pbind (eval_expr_on_flat_row E m r a) (\<lambda>x. pok (DBool (x = DNull)))"
| "eval_expr_on_flat_row E m r (IsNotNull a) = pbind (eval_expr_on_flat_row E m r a) (\<lambda>x. pok (DBool (x \<noteq> DNull)))"
| "eval_expr_on_flat_row E m r (Like neg a p esc) =
     pbind (eval_expr_on_flat_row E m r a) (\<lambda>x. pbind (eval_expr_on_flat_row E m r p) (\<lambda>y.
       pok (negate_if neg (simple_like (value_to_string x) (value_to_string y)))))"
| "eval_expr_on_flat_row E m r (Case operand conds els) =
     pbind (eval_opt (eval_expr_on_flat_row E m r) operand) (\<lambda>op. eval_conds (eval_expr_on_flat_row E m r) op conds els)"
| "eval_expr_on_flat_row E m r (Between a l h neg) =
     pbind (eval_expr_on_flat_row E m r a) (\<lambda>x. pbind (eval_expr_on_flat_row E m r l) (\<lambda>lo.
       pbind (eval_expr_on_flat_row E m r h) (\<lambda>hi.
       pok (negate_if neg (db_value_cmp x lo \<noteq> Less \<and> db_value_cmp x hi \<noteq> Greater)))))"
| "eval_expr_on_flat_row E m r (Subquery q) =
     pbind (Some (env_subquery E q r m)) (\<lambda>vs. pok (case vs of [] \<Rightarrow> DNull | v # _ \<Rightarrow> v))"
| "eval_expr_on_flat_row E m r (InSubquery a q neg) =
     pbind (eval_expr_on_flat_row E m r a) (\<lambda>x. pbind (Some (env_subquery E q r m)) (\<lambda>vs.
       pok (negate_if neg (\<exists>v \<in> set vs. db_eq v x))))"
| "eval_expr_on_flat_row E m r (Exists q neg) =
     pbind (Some (env_subquery E q r m)) (\<lambda>vs. pok (DBool (if neg then vs = [] else vs \<noteq> [])))"
| "eval_expr_on_flat_row E m r e = perr (ExecError (''Unsupported expression in JOIN: '' @ env_expr_debug E e))"

definition flat_keeps :: "eval_env \<Rightarrow> col_map \<Rightarrow> sql_expr \<Rightarrow> row \<Rightarrow> bool panicking" where
  "flat_keeps E m e r =
     map_option (\<lambda>v. case v of Inr x \<Rightarrow> is_truthy x | Inl _ \<Rightarrow> False) (eval_expr_on_flat_row E m r e)"

section \<open>The tables\<close>

record joined =
  jt_name :: rstr
  jt_alias :: "rstr option"
  jt_start :: nat
  jt_cols :: nat
  jt_rows :: "row list"
  jt_view :: bool  \<comment> \<open>a view has its name\<close>
  jt_temp :: bool  \<comment> \<open>a derived table\<close>

definition jt_qualifier :: "joined \<Rightarrow> rstr" where
  "jt_qualifier j = (case jt_alias j of Some a \<Rightarrow> a | None \<Rightarrow> jt_name j)"

text \<open>\<open>raw.rsplit('.').next()\<close>: what follows the last dot.\<close>

definition after_dot :: "rstr \<Rightarrow> rstr" where
  "after_dot s = rev (takeWhile (\<lambda>c. c \<noteq> CHR ''.'') (rev s))"

definition derived_column :: "unicode \<Rightarrow> rstr list \<Rightarrow> json list option \<Rightarrow> nat \<times> json \<Rightarrow> column" where
  "derived_column U names first ih =
     (let (i, h) = ih; raw = to_lowercase U (case json_as_str h of Some x \<Rightarrow> x | None \<Rightarrow> ''col'')
      in plain_column (if i < length names then names ! i else after_dot raw)
           (case first of
              Some r \<Rightarrow> (if i < length r then json_type_to_column (r ! i) else TString)
            | None \<Rightarrow> TString))"

definition subquery_json_to_table :: "eval_env \<Rightarrow> json_printer \<Rightarrow> json list list sres \<Rightarrow> (rstr \<times> rstr list) option
    \<Rightarrow> rstr \<Rightarrow> table eres panicking" where
  "subquery_json_to_table E J parsed alias n =
     (case parsed of
        Inl e \<Rightarrow> perr (ExecError (''Derived table result parse: '' @ e))
      | Inr [] \<Rightarrow> perr (ExecError ''Derived table returned no header'')
      | Inr (header # rows) \<Rightarrow>
          (let U = env_unicode E;
               names = (case alias of Some (_, cs) \<Rightarrow> map (to_lowercase U) cs | None \<Rightarrow> []);
               first = (case rows of r # _ \<Rightarrow> Some r | [] \<Rightarrow> None)
           in case new_table n (map (derived_column U names first) (enumerate 0 header)) of
                Inl e \<Rightarrow> perr (ExecError e)
              | Inr t \<Rightarrow> map_option Inr (insert_ignoring E (map (map (json_val_to_dbvalue J)) rows) t)))"

definition temp_name :: "nat \<Rightarrow> rstr" where
  "temp_name n = ''__a3sql_derived_'' @ dec_nat n"

text \<open>A plain table or view: \<open>materialize_view\<close> when only a view has the name.\<close>

definition resolve_named :: "('ast, 'stmt) select_host \<Rightarrow> rstr \<Rightarrow> rstr option \<Rightarrow> ('ast, rstr \<times> rstr option \<times> table) exec" where
  "resolve_named X n alias s =
     xbind (if \<not> has_table n (se_db s) \<and> has_view n (se_db s)
            then materialize_view (sx_host X) (sx_parse X) (sx_execute X) n else xret ())
       (\<lambda>_ s1. case get_table n (se_db s1) of
           Inl e \<Rightarrow> Some (Inl (ExecError e), s1)
         | Inr t \<Rightarrow> Some (Inr (n, map_option (to_lowercase (env_unicode (host_env (sx_host X) s1))) alias, t), s1)) s"

definition resolve_derived :: "('ast, 'stmt) select_host \<Rightarrow> nat \<Rightarrow> query \<Rightarrow> (rstr \<times> rstr list) option
    \<Rightarrow> ('ast, rstr \<times> rstr option \<times> table) exec" where
  "resolve_derived X k q alias =
     xbind (sx_query X q) (\<lambda>text s1.
       let E = host_env (sx_host X) s1; n = temp_name k
       in case subquery_json_to_table E (host_json (sx_host X)) (host_json_rows (sx_host X) text) alias n of
            None \<Rightarrow> None
          | Some (Inl e) \<Rightarrow> Some (Inl e, s1)
          | Some (Inr t) \<Rightarrow>
              Some (Inr (n, map_option (\<lambda>a. to_lowercase (env_unicode E) (fst a)) alias, t), put_table n t s1))"

text \<open>\<open>k\<close> is the number that the next derived table gets.\<close>

fun resolve_any_factor :: "('ast, 'stmt) select_host \<Rightarrow> nat \<Rightarrow> from_factor \<Rightarrow> ('ast, rstr \<times> rstr option \<times> table) exec" where
  "resolve_any_factor X k (FromTable nm alias) s =
     resolve_named X (object_name_str (env_unicode (host_env (sx_host X) s)) nm) alias s"
| "resolve_any_factor X k (FromDerived lateral q alias) s =
     (if lateral then xerr (ExecError ''LATERAL derived tables not supported'') s
      else if sx_correlated X q then xerr (ExecError ''correlated subquery in FROM not supported'') s
      else resolve_derived X k q alias s)"
| "resolve_any_factor X k FromOther s =
     xerr (ExecError ''Only simple table references or derived tables supported in FROM'') s"

fun is_derived :: "from_factor \<Rightarrow> bool" where
  "is_derived (FromDerived _ _ _) = True"
| "is_derived _ = False"

fun resolve_factors :: "('ast, 'stmt) select_host \<Rightarrow> from_factor list \<Rightarrow> nat \<Rightarrow> nat \<Rightarrow> ('ast, joined list) exec" where
  "resolve_factors X [] start k = xret []"
| "resolve_factors X (f # fs) start k =
     xbind (resolve_any_factor X k f) (\<lambda>(n, a, t) s1.
       let j = \<lparr>jt_name = n, jt_alias = a, jt_start = start, jt_cols = length (tbl_columns t), jt_rows = tbl_rows t,
                jt_view = has_view n (se_db s1), jt_temp = is_derived f\<rparr>
       in xbind (resolve_factors X fs (start + jt_cols j) (if is_derived f then k + 1 else k))
            (\<lambda>js. xret (j # js)) s1)"

definition from_factors :: "table_with_joins list \<Rightarrow> from_factor list" where
  "from_factors from = concat (map (\<lambda>(f, js). f # map fst js) from)"

section \<open>The columns of the flat row\<close>

definition dotted :: "rstr \<Rightarrow> rstr \<Rightarrow> rstr" where
  "dotted q c = q @ ''.'' @ c"

definition table_columns :: "'ast database \<Rightarrow> joined \<Rightarrow> (rstr \<times> rstr \<times> nat) list eres" where
  "table_columns db j =
     (case get_table (jt_name j) db of
        Inl _ \<Rightarrow> Inl (TableNotFound (jt_name j))
      | Inr t \<Rightarrow> Inr (map (\<lambda>(ci, c). (dotted (jt_qualifier j) (col_name c), col_name c, jt_start j + ci))
                       (enumerate 0 (tbl_columns t))))"

definition flat_columns :: "'ast database \<Rightarrow> joined list \<Rightarrow> (rstr \<times> rstr \<times> nat) list eres" where
  "flat_columns db js = bind_res (map_res (table_columns db) js) (\<lambda>cs. Inr (concat cs))"

text \<open>Later columns overwrite earlier ones of the same bare name.\<close>

definition flat_map :: "(rstr \<times> rstr \<times> nat) list \<Rightarrow> col_map" where
  "flat_map cs = fold (\<lambda>(q, c, p) m. m(q \<mapsto> p, c \<mapsto> p)) cs Map.empty"

definition table_part :: "joined \<Rightarrow> nat option \<Rightarrow> row" where
  "table_part j i = (case i of None \<Rightarrow> replicate (jt_cols j) DNull | Some k \<Rightarrow> jt_rows j ! k)"

definition flat_row :: "joined list \<Rightarrow> nat option list \<Rightarrow> row" where
  "flat_row js idxs = concat (map (\<lambda>(j, i). table_part j i) (zip js idxs))"

section \<open>The joins\<close>

fun join_constraint_of :: "join_operator \<Rightarrow> join_constraint" where
  "join_constraint_of (JoinInner c) = c"
| "join_constraint_of (JoinLeftOuter c) = c"
| "join_constraint_of (JoinRightOuter c) = c"
| "join_constraint_of (JoinFullOuter c) = c"
| "join_constraint_of (JoinPlain c) = c"
| "join_constraint_of (JoinCross c) = c"
| "join_constraint_of (JoinLeft c) = c"
| "join_constraint_of (JoinRight c) = c"
| "join_constraint_of JoinOther = JoinNone"

fun preserves_left :: "join_operator \<Rightarrow> bool" where
  "preserves_left (JoinLeftOuter _) = True"
| "preserves_left (JoinLeft _) = True"
| "preserves_left (JoinFullOuter _) = True"
| "preserves_left _ = False"

fun preserves_right :: "join_operator \<Rightarrow> bool" where
  "preserves_right (JoinRightOuter _) = True"
| "preserves_right (JoinRight _) = True"
| "preserves_right (JoinFullOuter _) = True"
| "preserves_right _ = False"

text \<open>The positions of a column in the first table on the left that has it, and on the right.\<close>

definition has_column :: "'ast database \<Rightarrow> rstr \<Rightarrow> joined \<Rightarrow> bool" where
  "has_column db c j =
     (case get_table (jt_name j) db of Inr t \<Rightarrow> c \<in> col_name ` set (tbl_columns t) | Inl _ \<Rightarrow> False)"

fun shared_column :: "'ast database \<Rightarrow> col_map \<Rightarrow> joined list \<Rightarrow> joined \<Rightarrow> rstr \<Rightarrow> (nat \<times> nat) option" where
  "shared_column db m [] right c = None"
| "shared_column db m (j # js) right c =
     (case (if has_column db c j
            then (case (m (dotted (jt_qualifier j) c), m (dotted (jt_qualifier right) c)) of
                    (Some lp, Some rp) \<Rightarrow> Some (lp, rp) | _ \<Rightarrow> None)
            else None) of
        Some p \<Rightarrow> Some p
      | None \<Rightarrow> shared_column db m js right c)"

definition using_pairs :: "unicode \<Rightarrow> 'ast database \<Rightarrow> col_map \<Rightarrow> joined list \<Rightarrow> joined \<Rightarrow> rstr list \<Rightarrow> (nat \<times> nat) list" where
  "using_pairs U db m lefts right cs = List.map_filter (\<lambda>c. shared_column db m lefts right (to_lowercase U c)) cs"

text \<open>NATURAL, except for a CROSS JOIN.\<close>

definition natural_pairs :: "'ast database \<Rightarrow> col_map \<Rightarrow> joined list \<Rightarrow> joined \<Rightarrow> join_operator \<Rightarrow> (nat \<times> nat) list" where
  "natural_pairs db m lefts right opr =
     (if opr = JoinCross JoinNatural then []
      else case get_table (jt_name right) db of
             Inl _ \<Rightarrow> []
           | Inr t \<Rightarrow> List.map_filter (\<lambda>c. shared_column db m lefts right (col_name c)) (tbl_columns t))"

definition pairs_agree :: "(nat \<times> nat) list \<Rightarrow> row \<Rightarrow> bool" where
  "pairs_agree ps r =
     list_all (\<lambda>(lp, rp). lp < length r \<and> rp < length r \<and> values_equal (r ! lp) (r ! rp)) ps"

definition join_test :: "eval_env \<Rightarrow> 'ast database \<Rightarrow> col_map \<Rightarrow> joined list \<Rightarrow> joined \<Rightarrow> join_operator \<Rightarrow> row \<Rightarrow> bool panicking" where
  "join_test E db m lefts right opr r =
     (case join_constraint_of opr of
        JoinOn e \<Rightarrow> flat_keeps E m e r
      | JoinUsing cs \<Rightarrow> Some (pairs_agree (using_pairs (env_unicode E) db m lefts right cs) r)
      | JoinNatural \<Rightarrow> Some (pairs_agree (natural_pairs db m lefts right opr) r)
      | JoinNone \<Rightarrow> Some True)"

text \<open>One join: for each combination so far the matching rows of the new table, or its NULL row when the
  left side is preserved; then the rows that matched nothing, when the right side is preserved.\<close>

definition extend_left :: "bool \<Rightarrow> nat option list \<Rightarrow> nat list \<Rightarrow> nat option list list" where
  "extend_left keep ls hits =
     map (\<lambda>i. ls @ [Some i]) hits @ (if keep \<and> hits = [] then [ls @ [None]] else [])"

definition unmatched_right :: "nat \<Rightarrow> nat \<Rightarrow> nat list list \<Rightarrow> nat option list list" where
  "unmatched_right k n hits =
     map (\<lambda>i. replicate k None @ [Some i]) (filter (\<lambda>i. \<forall>h \<in> set hits. i \<notin> set h) [0..<n])"

definition join_step :: "(nat option list \<Rightarrow> bool panicking) \<Rightarrow> bool \<Rightarrow> bool \<Rightarrow> nat \<Rightarrow> nat \<Rightarrow> nat option list list
    \<Rightarrow> nat option list list panicking" where
  "join_step ok keep_left keep_right k n combos =
     map_option (\<lambda>hits. concat (map2 (extend_left keep_left) combos hits) @
         (if keep_right then unmatched_right k n hits else []))
       (map_option_list (\<lambda>ls. filter_rows (\<lambda>i. ok (ls @ [Some i])) [0..<n]) combos)"

text \<open>The remaining tables one by one; only the joins of the first FROM entry have operators, every other
  table is joined without a condition.\<close>

fun join_tables :: "eval_env \<Rightarrow> 'ast database \<Rightarrow> col_map \<Rightarrow> joined list \<Rightarrow> joined list \<Rightarrow> join_operator list
    \<Rightarrow> nat option list list \<Rightarrow> nat option list list panicking" where
  "join_tables E db m lefts [] oprs combos = Some combos"
| "join_tables E db m lefts (j # js) oprs combos =
     (let opr = (case oprs of o1 # _ \<Rightarrow> o1 | [] \<Rightarrow> JoinOther);
          ok = (\<lambda>cs. join_test E db m lefts j opr (flat_row (lefts @ [j]) cs))
      in case join_step ok (preserves_left opr) (preserves_right opr) (length lefts) (length (jt_rows j)) combos of
           None \<Rightarrow> None
         | Some next \<Rightarrow> join_tables E db m (lefts @ [j]) js (tl oprs) next)"

definition joined_rows :: "eval_env \<Rightarrow> 'ast database \<Rightarrow> col_map \<Rightarrow> joined list \<Rightarrow> join_operator list \<Rightarrow> row list panicking" where
  "joined_rows E db m js oprs =
     (case js of
        [] \<Rightarrow> None
      | j # rest \<Rightarrow>
          map_option (map (flat_row js))
            (join_tables E db m [j] rest oprs (map (\<lambda>i. [Some i]) [0..<length (jt_rows j)])))"

section \<open>The pipeline\<close>

fun compare_flat :: "eval_env \<Rightarrow> col_map \<Rightarrow> order_item list \<Rightarrow> row \<Rightarrow> row \<Rightarrow> ordering panicking" where
  "compare_flat E m [] a b = Some Equal"
| "compare_flat E m ((e, asc) # items) a b =
     (case (eval_expr_on_flat_row E m a e, eval_expr_on_flat_row E m b e) of
        (Some x, Some y) \<Rightarrow>
          (let o1 = cmp (value_to_string (or_null x)) (value_to_string (or_null y));
               o2 = (if case asc of Some d \<Rightarrow> d | None \<Rightarrow> True then o1 else ord_reverse o1)
           in if o2 \<noteq> Equal then Some o2 else compare_flat E m items a b)
      | _ \<Rightarrow> None)"

definition order_flat :: "eval_env \<Rightarrow> col_map \<Rightarrow> order_by option \<Rightarrow> row list \<Rightarrow> row list eres panicking" where
  "order_flat E m order rows =
     (case order of
        None \<Rightarrow> pok rows
      | Some OrderAll \<Rightarrow> perr (ExecError ''ORDER BY ALL not supported'')
      | Some (OrderExprs es) \<Rightarrow> (if es = [] then pok rows else map_option Inr (sort_by (compare_flat E m es) rows)))"

text \<open>HAVING looks at the first row of a group only, as a plain expression.\<close>

definition flat_having :: "eval_env \<Rightarrow> col_map \<Rightarrow> select \<Rightarrow> row list list \<Rightarrow> row list list panicking" where
  "flat_having E m sel parts =
     (case sel_having sel of
        None \<Rightarrow> Some parts
      | Some h \<Rightarrow> filter_rows (\<lambda>g. case g of [] \<Rightarrow> Some False | r # _ \<Rightarrow> flat_keeps E m h r) parts)"

text \<open>The cells of the projection; an item that fails to evaluate has no cell at all.\<close>

fun flat_cells :: "eval_env \<Rightarrow> col_map \<Rightarrow> select_item list \<Rightarrow> row \<Rightarrow> row panicking" where
  "flat_cells E m [] r = Some []"
| "flat_cells E m (it # its) r =
     (case item_expr it of
        None \<Rightarrow> flat_cells E m its r
      | Some e \<Rightarrow>
          (case eval_expr_on_flat_row E m r e of
             None \<Rightarrow> None
           | Some (Inl _) \<Rightarrow> flat_cells E m its r
           | Some (Inr v) \<Rightarrow> map_option ((#) v) (flat_cells E m its r)))"

definition flat_aggregates :: "eval_env \<Rightarrow> col_map \<Rightarrow> select_query \<Rightarrow> select \<Rightarrow> row list \<Rightarrow> result_rows staged" where
  "flat_aggregates E m q sel rows =
     pbind (if has_group_by sel then partition_by_group E m sel rows else pok [rows]) (\<lambda>parts.
       case flat_having E m sel parts of
         None \<Rightarrow> None
       | Some kept \<Rightarrow>
           (case sort_partitions E m (order_items (sq_order_by q)) kept of
              None \<Rightarrow> None
            | Some sorted_parts \<Rightarrow>
                map_option Inr (compute_aggregate_rows E m (sel_projection sel) sorted_parts)))"

definition flat_plain :: "eval_env \<Rightarrow> col_map \<Rightarrow> rstr list \<Rightarrow> select_query \<Rightarrow> select \<Rightarrow> row list \<Rightarrow> result_rows staged" where
  "flat_plain E m header q sel rows =
     pbind (order_flat E m (sq_order_by q) rows) (\<lambda>sorted_rows.
       case apply_limit_offset sorted_rows (sq_limit q) of
         None \<Rightarrow> None
       | Some page \<Rightarrow>
           (if SelectWildcard \<in> set (sel_projection sel) then Some (Inr (Inr (header, page)))
            else map_option (\<lambda>rs. Inr (Inr (map (item_header (env_unicode E)) (sel_projection sel), rs)))
              (map_option_list (flat_cells E m (sel_projection sel)) page)))"

definition select_joined :: "eval_env \<Rightarrow> 'ast database \<Rightarrow> joined list \<Rightarrow> (rstr \<times> rstr \<times> nat) list \<Rightarrow> select_query \<Rightarrow> select
    \<Rightarrow> result_rows staged" where
  "select_joined E db js cols q sel =
     (let m = flat_map cols
      in case joined_rows E db m js (map snd (snd (hd (sel_from sel)))) of
           None \<Rightarrow> None
         | Some all_combos \<Rightarrow>
             (case (case sel_selection sel of None \<Rightarrow> Some all_combos | Some e \<Rightarrow> filter_rows (flat_keeps E m e) all_combos) of
                None \<Rightarrow> None
              | Some rows \<Rightarrow>
                  (if has_aggregate (env_unicode E) (sel_projection sel) then flat_aggregates E m q sel rows
                   else flat_plain E m (map fst cols) q sel rows)))"

section \<open>The executor\<close>

fun constraint_has_subquery :: "join_constraint \<Rightarrow> bool" where
  "constraint_has_subquery (JoinOn e) = expr_has_subquery e"
| "constraint_has_subquery _ = False"

fun factor_has_subquery :: "('ast, 'stmt) select_host \<Rightarrow> from_factor \<Rightarrow> bool" where
  "factor_has_subquery X (FromDerived _ q _) = sx_nested X q"
| "factor_has_subquery X _ = False"

fun limit_has_subquery :: "limit_clause option \<Rightarrow> bool" where
  "limit_has_subquery None = False"
| "limit_has_subquery (Some (LimitOffset lim off)) = (option_has_subquery lim \<or> option_has_subquery off)"
| "limit_has_subquery (Some (OffsetCommaLimit off lim)) = (expr_has_subquery off \<or> expr_has_subquery lim)"

text \<open>\<open>query_has_subquery\<close> for a query whose body is a SELECT.\<close>

definition select_has_subquery :: "('ast, 'stmt) select_host \<Rightarrow> select \<Rightarrow> bool" where
  "select_has_subquery X sel =
     (needs_snapshot sel \<or>
      list_ex (\<lambda>(f, js). factor_has_subquery X f \<or>
        list_ex (\<lambda>(g, opr). factor_has_subquery X g \<or> constraint_has_subquery (join_constraint_of opr)) js) (sel_from sel))"

definition query_has_subquery :: "('ast, 'stmt) select_host \<Rightarrow> select_query \<Rightarrow> select \<Rightarrow> bool" where
  "query_has_subquery X q sel =
     (select_has_subquery X sel \<or> sq_with_nested q \<or> list_ex (\<lambda>(e, _). expr_has_subquery e) (order_items (sq_order_by q)) \<or>
      limit_has_subquery (sq_limit q))"

fun drop_tables :: "rstr list \<Rightarrow> 'ast session \<Rightarrow> 'ast session" where
  "drop_tables [] s = s"
| "drop_tables (n # ns) s = drop_tables ns (drop_views (Some n) s)"

definition temporaries :: "joined list \<Rightarrow> rstr list" where
  "temporaries js = map jt_name (filter jt_view js) @ map jt_name (filter jt_temp js)"

definition exec_select_joins_rows :: "('ast, 'stmt) select_host \<Rightarrow> select_query \<Rightarrow> select \<Rightarrow> ('ast, result_rows) exec" where
  "exec_select_joins_rows X q sel s =
     (let s0 = (if query_has_subquery X q sel then s\<lparr>se_snapshot := Some (se_db s)\<rparr> else s)
      in xbind (resolve_factors X (from_factors (sel_from sel)) 0 1) (\<lambda>js s1.
           case flat_columns (se_db s1) js of
             Inl e \<Rightarrow> Some (Inl e, s1)
           | Inr cols \<Rightarrow>
               (case select_joined (host_env (sx_host X) s1) (se_db s1) js cols q sel of
                  None \<Rightarrow> None
                | Some (Inl e) \<Rightarrow> Some (Inl e, s1)
                | Some (Inr res) \<Rightarrow> Some (res, drop_tables (temporaries js) s1))) s0)"

definition format_joined :: "rstr list \<Rightarrow> row list \<Rightarrow> rstr" where
  "format_joined header rows =
     (if rows = [] then bracketed (map quoted header)
      else bracketed (bracketed (map quoted header) # map (\<lambda>r. bracketed (map to_json_string r)) rows))"

definition exec_select_joins :: "('ast, 'stmt) select_host \<Rightarrow> select_query \<Rightarrow> select \<Rightarrow> ('ast, rstr) exec" where
  "exec_select_joins X q sel = xbind (exec_select_joins_rows X q sel) (\<lambda>(header, rows). xret (format_joined header rows))"

text \<open>The host whose multi-table SELECTs are these.\<close>

definition with_joins :: "('ast, 'stmt) select_host \<Rightarrow> ('ast, 'stmt) select_host" where
  "with_joins X = X\<lparr>sx_joins := exec_select_joins_rows X, sx_joins_json := exec_select_joins X\<rparr>"

end
