(* ===== verification/JoinProps.thy ===== *)
theory JoinProps
  imports Joins SelectEffects
begin

text \<open>
  The properties of SELECT over several tables: a join is the relational join, every joined row has the
  cells of every table, the session is as before when the query returns, and the table that a join drops.
\<close>

section \<open>One join\<close>

lemma filter_rows_total:
  "\<forall>x \<in> set xs. p x \<noteq> None \<Longrightarrow> filter_rows p xs = Some (filter (\<lambda>x. p x = Some True) xs)"
  by (simp only: filter_rows_iff)

lemma map_option_list_total:
  "\<forall>x \<in> set xs. f x = Some (g x) \<Longrightarrow> map_option_list f xs = Some (map g xs)"
  by (auto simp: map_option_list_iff)

lemma map_option_list_defined: "map_option_list f xs = Some ys \<Longrightarrow> x \<in> set xs \<Longrightarrow> f x \<noteq> None"
  by (simp add: map_option_list_iff)

definition join_hits :: "(nat option list \<Rightarrow> bool panicking) \<Rightarrow> nat \<Rightarrow> nat option list \<Rightarrow> nat list" where
  "join_hits ok n ls = filter (\<lambda>i. ok (ls @ [Some i]) = Some True) [0..<n]"

lemma join_step_iff:
  "join_step ok kl kr k n combos = Some next \<longleftrightarrow>
     (\<forall>ls \<in> set combos. \<forall>i < n. ok (ls @ [Some i]) \<noteq> None) \<and>
     next = concat (map (\<lambda>ls. extend_left kl ls (join_hits ok n ls)) combos) @
       (if kr then unmatched_right k n (map (join_hits ok n) combos) else [])"
proof -
  have zip_map: "map2 f xs (map g xs) = map (\<lambda>x. f x (g x)) xs" for f :: "nat option list \<Rightarrow> nat list \<Rightarrow> nat option list list" and g xs
    by (induction xs) auto
  have one: "filter_rows (\<lambda>i. ok (ls @ [Some i])) [0..<n] =
      (if \<forall>i < n. ok (ls @ [Some i]) \<noteq> None then Some (join_hits ok n ls) else None)" for ls
  proof (cases "\<forall>i < n. ok (ls @ [Some i]) \<noteq> None")
    case True
    then show ?thesis by (subst filter_rows_total) (auto simp: join_hits_def)
  next
    case False
    then have "filter_rows (\<lambda>i. ok (ls @ [Some i])) [0..<n] \<noteq> Some ys" for ys
      by (simp only: filter_rows_iff) auto
    then show ?thesis using False by auto
  qed
  show ?thesis
  proof (cases "\<forall>ls \<in> set combos. \<forall>i < n. ok (ls @ [Some i]) \<noteq> None")
    case True
    then have "map_option_list (\<lambda>ls. filter_rows (\<lambda>i. ok (ls @ [Some i])) [0..<n]) combos = Some (map (join_hits ok n) combos)"
      by (intro map_option_list_total) (simp add: one)
    then show ?thesis using True by (auto simp: join_step_def zip_map)
  next
    case False
    then have "map_option_list (\<lambda>ls. filter_rows (\<lambda>i. ok (ls @ [Some i])) [0..<n]) combos = None"
      by (auto simp: one map_option_list_iff not_Some_eq [symmetric] simp del: not_Some_eq split: if_splits)
    then show ?thesis using False by (auto simp: join_step_def)
  qed
qed

section \<open>Two tables\<close>

definition nulls :: "joined \<Rightarrow> row" where
  "nulls j = replicate (jt_cols j) DNull"

text \<open>The join of two relations under a condition, the outer sides padded with NULL cells.\<close>

definition relational_join :: "bool \<Rightarrow> bool \<Rightarrow> (row \<Rightarrow> bool) \<Rightarrow> joined \<Rightarrow> joined \<Rightarrow> row multiset" where
  "relational_join kl kr ok a b =
     mset (filter ok (concat (map (\<lambda>ra. map ((@) ra) (jt_rows b)) (jt_rows a)))) +
     (if kl then mset (map (\<lambda>ra. ra @ nulls b) (filter (\<lambda>ra. \<forall>rb \<in> set (jt_rows b). \<not> ok (ra @ rb)) (jt_rows a))) else {#}) +
     (if kr then mset (map ((@) (nulls a)) (filter (\<lambda>rb. \<forall>ra \<in> set (jt_rows a). \<not> ok (ra @ rb)) (jt_rows b))) else {#})"

lemma map_nth_upt: "map (\<lambda>i. f (xs ! i)) [0..<length xs] = map f xs"
  by (rule nth_equalityI) auto

lemma map_filter_upt: "map (\<lambda>i. f (xs ! i)) (filter (\<lambda>i. P (xs ! i)) [0..<length xs]) = map f (filter P xs)"
proof -
  have "map f (filter P (map ((!) xs) [0..<length xs])) = map (\<lambda>i. f (xs ! i)) (filter (\<lambda>i. P (xs ! i)) [0..<length xs])"
    by (simp add: filter_map comp_def)
  then show ?thesis by (simp add: map_nth)
qed

lemma filter_empty_upt: "filter (\<lambda>i. P (xs ! i)) [0..<length xs] = [] \<longleftrightarrow> (\<forall>x \<in> set xs. \<not> P x)"
  by (auto simp: filter_empty_conv all_set_conv_all_nth)

lemma mset_concat_pairs:
  "mset (concat (map (\<lambda>x. f x @ g x) xs)) = mset (concat (map f xs)) + mset (concat (map g xs))"
  by (induction xs) auto

lemma concat_single_filter: "concat (map (\<lambda>x. if P x then [f x] else []) xs) = map f (filter P xs)"
  by (induction xs) auto

text \<open>C20.  Joining two tables is the relational join: the pairs of rows that satisfy ON, USING or NATURAL, for
  a LEFT or FULL join each left row without a partner once with NULL cells on the right, and for a RIGHT or
  FULL join each right row without a partner once with NULL cells on the left; nothing else, with
  multiplicities.\<close>

theorem join_is_relational_join:
  assumes "\<forall>ra \<in> set (jt_rows a). \<forall>rb \<in> set (jt_rows b). join_test E db m [a] b opr (ra @ rb) \<noteq> None"
  shows "\<exists>rows. joined_rows E db m [a, b] [opr] = Some rows \<and>
    mset rows = relational_join (preserves_left opr) (preserves_right opr) (\<lambda>r. join_test E db m [a] b opr r = Some True) a b"
proof -
  let ?ok = "\<lambda>cs. join_test E db m [a] b opr (flat_row [a, b] cs)"
  let ?P = "\<lambda>r. join_test E db m [a] b opr r = Some True"
  let ?na = "length (jt_rows a)" and ?nb = "length (jt_rows b)"
  let ?kl = "preserves_left opr" and ?kr = "preserves_right opr"
  let ?combos = "map (\<lambda>i. [Some i]) [0..<?na]"
  have pair: "flat_row [a, b] [Some i, Some k] = jt_rows a ! i @ jt_rows b ! k" for i k
    by (simp add: flat_row_def table_part_def)
  have left: "flat_row [a, b] [Some i, None] = jt_rows a ! i @ nulls b" for i
    by (simp add: flat_row_def table_part_def nulls_def)
  have right: "flat_row [a, b] [None, Some k] = nulls a @ jt_rows b ! k" for k
    by (simp add: flat_row_def table_part_def nulls_def)
  have hits: "join_hits ?ok ?nb [Some i] = filter (\<lambda>k. ?P (jt_rows a ! i @ jt_rows b ! k)) [0..<?nb]" for i
    by (simp add: join_hits_def pair)
  define next_combos where "next_combos = concat (map (\<lambda>ls. extend_left ?kl ls (join_hits ?ok ?nb ls)) ?combos) @
       (if ?kr then unmatched_right 1 ?nb (map (join_hits ?ok ?nb) ?combos) else [])"
  have "join_step ?ok ?kl ?kr 1 ?nb ?combos = Some next_combos"
    using assms by (auto simp: join_step_iff pair next_combos_def)
  then have run: "joined_rows E db m [a, b] [opr] = Some (map (flat_row [a, b]) next_combos)"
    by (simp add: joined_rows_def Let_def)
  let ?m1 = "\<lambda>ra. map ((@) ra) (filter (\<lambda>rb. ?P (ra @ rb)) (jt_rows b))"
  let ?p1 = "\<lambda>ra. if ?kl \<and> (\<forall>rb \<in> set (jt_rows b). \<not> ?P (ra @ rb)) then [ra @ nulls b] else []"
  have "map (flat_row [a, b]) (extend_left ?kl [Some i] (join_hits ?ok ?nb [Some i])) = ?m1 (jt_rows a ! i) @ ?p1 (jt_rows a ! i)" for i
    using map_filter_upt [of "(@) (jt_rows a ! i)" "jt_rows b" "\<lambda>rb. ?P (jt_rows a ! i @ rb)"]
    by (simp add: extend_left_def hits pair left comp_def filter_empty_upt [of "\<lambda>rb. ?P (jt_rows a ! i @ rb)" "jt_rows b"])
  then have e1: "map (flat_row [a, b]) (concat (map (\<lambda>ls. extend_left ?kl ls (join_hits ?ok ?nb ls)) ?combos)) =
      concat (map (\<lambda>ra. ?m1 ra @ ?p1 ra) (jt_rows a))"
    using map_nth_upt [of "\<lambda>ra. ?m1 ra @ ?p1 ra" "jt_rows a"] by (simp only: map_concat map_map comp_def)
  have e2: "mset (concat (map (\<lambda>ra. ?m1 ra @ ?p1 ra) (jt_rows a))) =
      mset (filter ?P (concat (map (\<lambda>ra. map ((@) ra) (jt_rows b)) (jt_rows a)))) +
      (if ?kl then mset (map (\<lambda>ra. ra @ nulls b) (filter (\<lambda>ra. \<forall>rb \<in> set (jt_rows b). \<not> ?P (ra @ rb)) (jt_rows a))) else {#})"
    by (simp add: mset_concat_pairs filter_concat filter_map comp_def concat_single_filter)
  have e3: "map (flat_row [a, b]) (unmatched_right 1 ?nb (map (join_hits ?ok ?nb) ?combos)) =
      map ((@) (nulls a)) (filter (\<lambda>rb. \<forall>ra \<in> set (jt_rows a). \<not> ?P (ra @ rb)) (jt_rows b))"
  proof -
    have "filter (\<lambda>i. \<forall>h \<in> set (map (join_hits ?ok ?nb) ?combos). i \<notin> set h) [0..<?nb] =
        filter (\<lambda>k. \<forall>ra \<in> set (jt_rows a). \<not> ?P (ra @ jt_rows b ! k)) [0..<?nb]"
      by (intro filter_cong refl) (simp add: hits, auto simp: all_set_conv_all_nth [of "jt_rows a"])
    then show ?thesis
      using map_filter_upt [of "(@) (nulls a)" "jt_rows b" "\<lambda>rb. \<forall>ra \<in> set (jt_rows a). \<not> ?P (ra @ rb)"]
      by (simp add: unmatched_right_def right comp_def)
  qed
  have "mset (map (flat_row [a, b]) next_combos) = relational_join ?kl ?kr ?P a b"
    by (cases ?kr) (simp_all only: next_combos_def map_append mset_append relational_join_def e1 e2 e3 if_True if_False
        simp_thms list.map mset.simps)
  with run show ?thesis by blast
qed

text \<open>Two tables with one column \<open>id\<close>, and \<open>a FULL JOIN b ON a.id = b.id\<close>.\<close>

definition left_demo :: joined where
  "left_demo = \<lparr>jt_name = ''a'', jt_alias = None, jt_start = 0, jt_cols = 1, jt_rows = [[DInt 1], [DInt 2]],
     jt_view = False, jt_temp = False\<rparr>"

definition right_demo :: joined where
  "right_demo = \<lparr>jt_name = ''b'', jt_alias = None, jt_start = 1, jt_cols = 1, jt_rows = [[DInt 2], [DInt 3]],
     jt_view = False, jt_temp = False\<rparr>"

definition demo_map :: col_map where
  "demo_map = [''a.id'' \<mapsto> 0, ''b.id'' \<mapsto> 1]"

definition full_on_id :: join_operator where
  "full_on_id = JoinFullOuter (JoinOn (BinaryOp (CompoundIdentifier [''a'', ''id'']) OpEq (CompoundIdentifier [''b'', ''id''])))"

lemma demo_test:
  "join_test no_env db demo_map [left_demo] right_demo full_on_id [DInt i, DInt k] = Some (i = k)"
  by (simp add: join_test_def full_on_id_def flat_keeps_def eval_compound_def to_lowercase_def is_ascii_def
      to_ascii_lowercase_def ascii_lower_def demo_map_def cell_def values_equal_def)

lemma demo_joined: "jt_rows left_demo = [[DInt 1], [DInt 2]]" "jt_cols left_demo = 1"
  "jt_rows right_demo = [[DInt 2], [DInt 3]]" "jt_cols right_demo = 1"
  "preserves_left full_on_id" "preserves_right full_on_id"
  by (simp_all add: left_demo_def right_demo_def full_on_id_def)

theorem join_is_relational_join_witness:
  "\<exists>rows. joined_rows no_env (db_new :: unit database) demo_map [left_demo, right_demo] [full_on_id] = Some rows \<and>
     mset rows = {#[DNull, DInt 3], [DInt 1, DNull], [DInt 2, DInt 2]#}"
proof -
  have "\<exists>rows. joined_rows no_env (db_new :: unit database) demo_map [left_demo, right_demo] [full_on_id] = Some rows \<and>
     mset rows = relational_join True True (\<lambda>r. join_test no_env (db_new :: unit database) demo_map [left_demo] right_demo full_on_id r = Some True)
       left_demo right_demo"
    using join_is_relational_join [of left_demo right_demo no_env "db_new :: unit database" demo_map full_on_id]
    by (simp add: demo_test demo_joined ex_bool_eq)
  then show ?thesis
    by (simp add: relational_join_def nulls_def demo_test demo_joined)
qed

section \<open>The cells of joined rows\<close>

definition row_number :: "joined \<Rightarrow> nat option \<Rightarrow> bool" where
  "row_number j i \<longleftrightarrow> (case i of None \<Rightarrow> True | Some k \<Rightarrow> k < length (jt_rows j))"

lemma row_number_simps [simp]: "row_number j None" "row_number j (Some k) \<longleftrightarrow> k < length (jt_rows j)"
  by (simp_all add: row_number_def)

lemma join_step_numbers:
  assumes "join_step ok kl kr (length lefts) (length (jt_rows j)) combos = Some next"
    and "\<forall>cs \<in> set combos. list_all2 row_number lefts cs" "cs \<in> set next"
  shows "list_all2 row_number (lefts @ [j]) cs"
proof -
  have "list_all2 row_number lefts (replicate (length lefts) None)"
    by (simp add: list_all2_conv_all_nth)
  moreover have "list_all2 row_number lefts ls \<Longrightarrow> c \<in> set (extend_left kl ls (join_hits ok (length (jt_rows j)) ls)) \<Longrightarrow>
      list_all2 row_number (lefts @ [j]) c" for ls c
    by (auto simp: extend_left_def join_hits_def list_all2_appendI split: if_splits)
  ultimately show ?thesis
    using assms by (auto simp: join_step_iff unmatched_right_def list_all2_appendI split: if_splits)
qed

lemma join_tables_numbers:
  "join_tables E db m lefts js oprs combos = Some out \<Longrightarrow> \<forall>cs \<in> set combos. list_all2 row_number lefts cs \<Longrightarrow>
     cs \<in> set out \<Longrightarrow> list_all2 row_number (lefts @ js) cs"
proof (induction js arbitrary: lefts oprs combos)
  case (Cons j js)
  from Cons.prems(1) obtain combos2 where
    j: "join_step (\<lambda>cs. join_test E db m lefts j (case oprs of o1 # _ \<Rightarrow> o1 | [] \<Rightarrow> JoinOther) (flat_row (lefts @ [j]) cs))
       (preserves_left (case oprs of o1 # _ \<Rightarrow> o1 | [] \<Rightarrow> JoinOther)) (preserves_right (case oprs of o1 # _ \<Rightarrow> o1 | [] \<Rightarrow> JoinOther))
       (length lefts) (length (jt_rows j)) combos = Some combos2"
    and r: "join_tables E db m (lefts @ [j]) js (tl oprs) combos2 = Some out"
    by (auto simp: Let_def split: option.splits)
  from Cons.IH [OF r _ Cons.prems(3)] join_step_numbers [OF j Cons.prems(2)] show ?case by simp
qed simp

definition cells_of :: "joined \<Rightarrow> row \<Rightarrow> bool" where
  "cells_of j p \<longleftrightarrow> p \<in> set (jt_rows j) \<or> p = nulls j"

lemma flat_row_cells:
  assumes "list_all2 row_number js cs"
  shows "\<exists>parts. flat_row js cs = concat parts \<and> list_all2 cells_of js parts"
  using assms
proof (induction rule: list_all2_induct)
  case Nil
  show ?case by (rule exI [of _ "[]"]) (simp add: flat_row_def)
next
  case (Cons j js i cs)
  then obtain parts where "flat_row js cs = concat parts" "list_all2 cells_of js parts" by blast
  moreover have "cells_of j (table_part j i)" using Cons.hyps(1)
    by (auto simp: cells_of_def table_part_def nulls_def split: option.splits)
  ultimately show ?case by (intro exI [of _ "table_part j i # parts"]) (simp add: flat_row_def)
qed

lemma joined_rows_cells:
  assumes "joined_rows E db m js oprs = Some rows" "r \<in> set rows"
  shows "\<exists>parts. r = concat parts \<and> list_all2 cells_of js parts"
proof (cases js)
  case Nil
  with assms show ?thesis by (simp add: joined_rows_def)
next
  case (Cons j rest)
  with assms(1) obtain out where out: "join_tables E db m [j] rest oprs (map (\<lambda>i. [Some i]) [0..<length (jt_rows j)]) = Some out"
    and rows: "rows = map (flat_row js) out"
    by (auto simp: joined_rows_def)
  from assms(2) rows obtain cs where cs: "cs \<in> set out" "r = flat_row js cs" by auto
  have "list_all2 row_number ([j] @ rest) cs" by (rule join_tables_numbers [OF out _ cs(1)]) auto
  then show ?thesis using flat_row_cells cs(2) Cons by auto
qed

lemma cells_width:
  "list_all2 cells_of js parts \<Longrightarrow> \<forall>j \<in> set js. \<forall>r \<in> set (jt_rows j). length r = jt_cols j \<Longrightarrow>
     length (concat parts) = sum_list (map jt_cols js)"
  by (induction rule: list_all2_induct) (auto simp: cells_of_def nulls_def)

text \<open>The tables of FROM as they were resolved.\<close>

definition resolved_table :: "'ast database \<Rightarrow> joined \<Rightarrow> bool" where
  "resolved_table db j \<longleftrightarrow> (\<exists>t. get_table (jt_name j) db = Inr t \<and> jt_rows j = tbl_rows t \<and>
     jt_cols j = length (tbl_columns t) \<and> typed_table t)"

lemma resolved_widths: "resolved_table db j \<Longrightarrow> r \<in> set (jt_rows j) \<Longrightarrow> length r = jt_cols j"
  by (fastforce simp: resolved_table_def typed_table_def row_ok_def dest: list_all2_lengthD)

lemma flat_columns_length:
  "flat_columns db js = Inr cols \<Longrightarrow> \<forall>j \<in> set js. resolved_table db j \<Longrightarrow> length cols = sum_list (map jt_cols js)"
proof (induction js arbitrary: cols)
  case Nil
  then show ?case by (simp add: flat_columns_def)
next
  case (Cons j js)
  from Cons.prems(2) obtain t where t: "get_table (jt_name j) db = Inr t" "jt_cols j = length (tbl_columns t)"
    by (auto simp: resolved_table_def)
  from Cons.prems(1) t obtain css where "map_res (table_columns db) js = Inr css"
    "length cols = length (tbl_columns t) + length (concat css)"
    by (auto simp: flat_columns_def table_columns_def bind_res_def split: sum.splits)
  moreover from this(1) have "length (concat css) = sum_list (map jt_cols js)"
    using Cons.IH [of "concat css"] Cons.prems(2) by (simp add: flat_columns_def)
  ultimately show ?case using t by simp
qed

text \<open>\<open>SELECT *\<close> over joined tables: every row of the answer is made of one row of each table, or the NULL
  row of that table, in the order of FROM, and has exactly one cell for each column name of the header.\<close>

theorem joined_rows_complete:
  assumes "\<forall>j \<in> set js. resolved_table db j" and "flat_columns db js = Inr cols"
    and "SelectWildcard \<in> set (sel_projection sel)" "\<not> has_aggregate (env_unicode E) (sel_projection sel)"
    and "select_joined E db js cols q sel = Some (Inr (Inr (header, out)))"
  shows "header = map fst cols \<and>
    (\<forall>r \<in> set out. length r = length header \<and> (\<exists>parts. r = concat parts \<and> list_all2 cells_of js parts))"
proof -
  let ?m = "flat_map cols"
  from assms(5) obtain combos rows where c: "joined_rows E db ?m js (map snd (snd (hd (sel_from sel)))) = Some combos"
    and w: "(case sel_selection sel of None \<Rightarrow> Some combos | Some e \<Rightarrow> filter_rows (flat_keeps E ?m e) combos) = Some rows"
    and p: "flat_plain E ?m (map fst cols) q sel rows = Some (Inr (Inr (header, out)))"
    using assms(4) by (auto simp: select_joined_def Let_def split: option.splits)
  from p obtain sorted_rows page where o: "order_flat E ?m (sq_order_by q) rows = pok sorted_rows"
    and l: "apply_limit_offset sorted_rows (sq_limit q) = Some page" and res: "header = map fst cols" "out = page"
    using assms(3) by (auto simp: flat_plain_def pbind_Inr_iff split: option.splits)
  have "set page \<subseteq> set rows"
    using limit_subset [OF l] o by (auto simp: order_flat_def split: option.splits order_by.splits if_splits
      dest!: sort_by_mset mset_eq_setD)
  moreover have "set rows \<subseteq> set combos" using w by (auto simp: filter_rows_iff split: option.splits)
  ultimately have sub: "r \<in> set out \<Longrightarrow> \<exists>parts. r = concat parts \<and> list_all2 cells_of js parts" for r
    using joined_rows_cells [OF c] res by blast
  have "length header = sum_list (map jt_cols js)"
    using flat_columns_length [OF assms(2,1)] res by simp
  with sub show ?thesis
    using cells_width resolved_widths assms(1) res by metis
qed

text \<open>\<open>SELECT * FROM t, t\<close> over the table with two columns and no rows.\<close>

definition t_joined :: "nat \<Rightarrow> joined" where
  "t_joined k = \<lparr>jt_name = ''t'', jt_alias = None, jt_start = k, jt_cols = 2, jt_rows = [], jt_view = False, jt_temp = False\<rparr>"

definition t_db :: "unit database" where
  "t_db = db_new\<lparr>db_tables := [''t'' \<mapsto> demo_table]\<rparr>"

lemma t_db_table: "get_table ''t'' t_db = Inr demo_table"
  by (simp add: get_table_def t_db_def)

lemma t_columns: "flat_columns t_db [t_joined 0, t_joined 2] =
    Inr [(''t.id'', ''id'', 0), (''t.tag'', ''tag'', 1), (''t.id'', ''id'', 2), (''t.tag'', ''tag'', 3)]"
proof -
  have "table_columns t_db (t_joined k) = Inr [(''t.id'', ''id'', k), (''t.tag'', ''tag'', k + 1)]" for k
    unfolding table_columns_def t_joined_def joined.simps t_db_table
    by (simp add: demo_cols demo_columns_def plain_column_def jt_qualifier_def dotted_def)
  then show ?thesis by (simp add: flat_columns_def)
qed

theorem joined_rows_complete_witness:
  "\<exists>header out. select_joined no_env t_db [t_joined 0, t_joined 2]
      [(''t.id'', ''id'', 0), (''t.tag'', ''tag'', 1), (''t.id'', ''id'', 2), (''t.tag'', ''tag'', 3)] (query_v None) star_of_v
      = Some (Inr (Inr (header, out))) \<and> header = [''t.id'', ''t.tag'', ''t.id'', ''t.tag''] \<and> out = []"
proof -
  let ?cs = "[(''t.id'', ''id'', 0 :: nat), (''t.tag'', ''tag'', 1), (''t.id'', ''id'', 2), (''t.tag'', ''tag'', 3)]"
  have j: "\<forall>j \<in> set [t_joined 0, t_joined 2]. resolved_table t_db j"
    by (simp add: resolved_table_def t_joined_def t_db_table demo_cols demo_columns_def demo_typed)
  have "select_joined no_env t_db [t_joined 0, t_joined 2] ?cs (query_v None) star_of_v =
      Some (Inr (Inr (map fst ?cs, [])))"
    by (simp add: select_joined_def joined_rows_def t_joined_def Let_def star_of_v star_plain join_step_def flat_plain_def
        order_flat_def apply_limit_offset_def unmatched_right_def)
  from joined_rows_complete [OF j t_columns _ _ this] this show ?thesis
    by (simp add: star_of_v star_plain)
qed

section \<open>The session\<close>

text \<open>\<open>s\<close> is \<open>s0\<close> up to the snapshot and the tables named in \<open>N\<close>.\<close>

definition same_but_tables :: "rstr set \<Rightarrow> 'ast session \<Rightarrow> 'ast session \<Rightarrow> bool" where
  "same_but_tables N s0 s \<longleftrightarrow> (\<exists>d T. s = s0\<lparr>se_snapshot := d, se_db := (se_db s0)\<lparr>db_tables := T\<rparr>\<rparr> \<and>
     (\<forall>n. n \<notin> N \<longrightarrow> T n = db_tables (se_db s0) n))"

lemma same_but_tables_refl: "same_but_tables N s s"
  unfolding same_but_tables_def
  by (rule exI [of _ "se_snapshot s"], rule exI [of _ "db_tables (se_db s)"]) simp

lemma same_but_tables_mono: "same_but_tables N s0 s \<Longrightarrow> N \<subseteq> M \<Longrightarrow> same_but_tables M s0 s"
  unfolding same_but_tables_def by blast

lemma same_but_tablesI:
  "s = s0\<lparr>se_snapshot := d, se_db := (se_db s0)\<lparr>db_tables := T\<rparr>\<rparr> \<Longrightarrow> (\<And>n. n \<notin> N \<Longrightarrow> T n = db_tables (se_db s0) n) \<Longrightarrow>
     same_but_tables N s0 s"
  unfolding same_but_tables_def by blast

lemma same_but_tables_snapshot:
  assumes "same_but_tables N s0 s" "same_but_snapshot s s1"
  shows "same_but_tables N s0 s1"
proof -
  obtain d T e where "s = s0\<lparr>se_snapshot := d, se_db := (se_db s0)\<lparr>db_tables := T\<rparr>\<rparr>"
    "\<forall>n. n \<notin> N \<longrightarrow> T n = db_tables (se_db s0) n" "s1 = s\<lparr>se_snapshot := e\<rparr>"
    using assms unfolding same_but_tables_def same_but_snapshot_def by blast
  then show ?thesis by (intro same_but_tablesI [where d = e and T = T]) auto
qed

lemma same_but_tables_put:
  assumes "same_but_tables N s0 s"
  shows "same_but_tables (insert n N) s0 (put_table n t s)"
proof -
  obtain d T where "s = s0\<lparr>se_snapshot := d, se_db := (se_db s0)\<lparr>db_tables := T\<rparr>\<rparr>"
    "\<forall>n. n \<notin> N \<longrightarrow> T n = db_tables (se_db s0) n"
    using assms unfolding same_but_tables_def by blast
  then show ?thesis
    by (intro same_but_tablesI [where d = d and T = "T(n \<mapsto> t)"]) (auto simp: put_table_def add_table_def)
qed

lemma same_but_tables_view: "same_but_tables N s0 s \<Longrightarrow> has_view n (se_db s) = has_view n (se_db s0)"
  by (auto simp: same_but_tables_def has_view_def)

lemma resolve_named_tables:
  assumes "view_read X" and "same_but_tables N s0 s" and "resolve_named X n alias s = Some (Inr (n', a, t), s')"
  shows "n' = n \<and> same_but_tables (if has_view n (se_db s0) then insert n N else N) s0 s'"
proof -
  have *: "same_but_tables (insert n N) s0 s1"
    if m: "materialize_view (sx_host X) (sx_parse X) (sx_execute X) n s = Some (Inr u, s1)" for u s1
  proof -
    from m obtain s2 where "same_but_snapshot s s2" "s1 = s2 \<or> (\<exists>t. s1 = put_table n t s2)"
      using assms(1) by (elim materialize_view_table) (auto simp: view_read_def)
    with assms(2) show ?thesis
      using same_but_tables_snapshot same_but_tables_put same_but_tables_mono [of N s0 s2 "insert n N"] by blast
  qed
  have v: "has_view n (se_db s) = has_view n (se_db s0)" by (rule same_but_tables_view [OF assms(2)])
  from assms(3) show ?thesis
    using * assms(2) same_but_tables_mono [OF assms(2) subset_insertI] v
    by (auto simp: resolve_named_def xbind_def xret_def split: option.splits sum.splits if_splits)
qed

lemma resolve_factors_tables:
  "view_read X \<Longrightarrow> same_but_tables N s0 s \<Longrightarrow> \<forall>f \<in> set fs. \<not> is_derived f \<Longrightarrow>
     resolve_factors X fs start k s = Some (Inr js, s') \<Longrightarrow>
     same_but_tables (N \<union> set (temporaries js)) s0 s' \<and> (\<forall>n \<in> set (temporaries js). has_view n (se_db s0))"
proof (induction fs arbitrary: N start k s js)
  case Nil
  then show ?case by (simp add: xret_def temporaries_def)
next
  case (Cons f fs)
  from Cons.prems(4) obtain n a t s1 js' where f: "resolve_any_factor X k f s = Some (Inr (n, a, t), s1)"
    and r: "resolve_factors X fs (start + length (tbl_columns t)) (if is_derived f then k + 1 else k) s1 = Some (Inr js', s')"
    and js: "js = \<lparr>jt_name = n, jt_alias = a, jt_start = start, jt_cols = length (tbl_columns t), jt_rows = tbl_rows t,
                jt_view = has_view n (se_db s1), jt_temp = is_derived f\<rparr> # js'"
    by (auto simp: xbind_def xret_def Let_def split: option.splits sum.splits)
  from f Cons.prems(3) obtain nm al where nm: "resolve_named X nm al s = Some (Inr (n, a, t), s1)"
    by (cases f) (auto simp: xerr_def)
  from resolve_named_tables [OF Cons.prems(1,2) this]
  have n: "nm = n" and s1: "same_but_tables (if has_view n (se_db s0) then insert n N else N) s0 s1" by auto
  have v: "has_view n (se_db s1) = has_view n (se_db s0)" by (rule same_but_tables_view [OF s1])
  have d: "\<not> is_derived f" using Cons.prems(3) by simp
  from Cons.IH [OF Cons.prems(1) s1 _ r] Cons.prems(3) show ?case
    by (cases "has_view n (se_db s0)") (simp_all add: js temporaries_def v d insert_commute Un_insert_left)
qed

lemma drop_tables_eq:
  "drop_tables ns s = s\<lparr>se_db := (se_db s)\<lparr>db_tables := (\<lambda>n. if n \<in> set ns then None else db_tables (se_db s) n)\<rparr>\<rparr>"
proof (induction ns arbitrary: s)
  case (Cons n ns)
  have "drop_views (Some n) s = s\<lparr>se_db := (se_db s)\<lparr>db_tables := (db_tables (se_db s))(n := None)\<rparr>\<rparr>"
    by (auto simp: drop_views_def drop_table_def has_table_def fun_upd_idem)
  with Cons show ?case by (auto simp: fun_eq_iff)
qed simp


section \<open>Queries over views and derived tables\<close>

definition star_of :: "table_with_joins list \<Rightarrow> select" where
  "star_of fs = \<lparr>sel_projection = [SelectWildcard], sel_from = fs,
     sel_selection = None, sel_group_by = GroupExprs [], sel_having = None, sel_distinct = None\<rparr>"

definition plain_query :: "select \<Rightarrow> select_query" where
  "plain_query sel = \<lparr>sq_body = Some sel, sq_order_by = None, sq_limit = None, sq_with_nested = False\<rparr>"

lemma star_of [simp]: "sel_from (star_of fs) = fs" "sel_projection (star_of fs) = [SelectWildcard]"
  "sel_selection (star_of fs) = None" "\<not> has_group_by (star_of fs)" "sq_order_by (plain_query sel) = None"
  "sq_limit (plain_query sel) = None" "\<not> sq_with_nested (plain_query sel)" "\<not> needs_snapshot (star_of fs)"
  by (simp_all add: star_of_def plain_query_def has_group_by_def needs_snapshot_def group_exprs_def option_has_subquery_def)

text \<open>\<open>SELECT *\<close> over two tables without rows.\<close>

lemma select_joined_empty:
  "jt_rows j = [] \<Longrightarrow> fs \<noteq> [] \<Longrightarrow> list_all (\<lambda>f. snd f = []) fs \<Longrightarrow> length js = 1 \<or> length js = 0 \<Longrightarrow>
   select_joined no_env db (j # js) cols (plain_query (star_of fs)) (star_of fs) = Some (Inr (Inr (map fst cols, [])))"
  by (cases js; cases fs)
    (auto simp: select_joined_def joined_rows_def Let_def star_plain join_step_def flat_plain_def
      order_flat_def apply_limit_offset_def unmatched_right_def)

definition two_views :: "table_with_joins list" where
  "two_views = [(FromTable [NameIdent ''v''] None, []), (FromTable [NameIdent ''v''] None, [])]"

lemma named_view:
  assumes "db_tables (se_db s) ''v'' = None" "db_views (se_db s) = [''v'' \<mapsto> ''SELECT n FROM t'']"
  obtains t where "tbl_columns t = [plain_column ''n'' TString]" "tbl_rows t = []"
    "resolve_any_factor view_host k (FromTable [NameIdent ''v''] None) s = Some (Inr (''v'', None, t), put_table ''v'' t s)"
proof -
  obtain t where t: "new_table ''v'' [plain_column ''n'' TString] = Inr t" "tbl_columns t = [plain_column ''n'' TString]"
    "tbl_rows t = []"
    using index_columns_iff [of "[]" "[plain_column ''n'' TString]" "col_map_of [plain_column ''n'' TString]"]
    by (simp add: new_table_def plain_column_def)
  have "view_column no_unicode None (0, JString ''n'') = plain_column ''n'' TString"
    by (simp add: view_column_def to_lowercase_def is_ascii_def to_ascii_lowercase_def ascii_lower_def)
  then have "materialize_view (sx_host view_host) (sx_parse view_host) (sx_execute view_host) ''v'' s =
      Some (Inr (), put_table ''v'' t s)"
    using t(1) assms by (simp add: materialize_view_def view_host_def get_view_def xbind_def xret_def
        view_table_def)
  then have "resolve_any_factor view_host k (FromTable [NameIdent ''v''] None) s = Some (Inr (''v'', None, t), put_table ''v'' t s)"
    using assms by (simp add: view_env view_name resolve_named_def has_table_def has_view_def xbind_def get_table_def
        put_table_def add_table_def)
  with t that show ?thesis by blast
qed

lemma named_table:
  assumes "db_tables (se_db s) ''v'' = Some t"
  shows "resolve_any_factor view_host k (FromTable [NameIdent ''v''] None) s = Some (Inr (''v'', None, t), s)"
  using assms by (simp add: view_env view_name resolve_named_def has_table_def xbind_def xret_def get_table_def)

lemma no_constraint: "\<not> query_has_subquery view_host (plain_query (star_of two_views)) (star_of two_views)"
  by (simp add: query_has_subquery_def select_has_subquery_def two_views_def order_items_def)

text \<open>The table \<open>v\<close> has no view: one of its rows twice.\<close>

lemma two_views_resolved:
  assumes "db_tables (se_db s) ''v'' = None" "db_views (se_db s) = [''v'' \<mapsto> ''SELECT n FROM t'']"
  obtains t js where "tbl_columns t = [plain_column ''n'' TString]" "tbl_rows t = []"
    "resolve_factors view_host (from_factors two_views) 0 1 s = Some (Inr js, put_table ''v'' t s)"
    "js = [\<lparr>jt_name = ''v'', jt_alias = None, jt_start = 0, jt_cols = 1, jt_rows = [], jt_view = True, jt_temp = False\<rparr>,
      \<lparr>jt_name = ''v'', jt_alias = None, jt_start = 1, jt_cols = 1, jt_rows = [], jt_view = True, jt_temp = False\<rparr>]"
proof -
  obtain t where t: "tbl_columns t = [plain_column ''n'' TString]" "tbl_rows t = []"
    "resolve_any_factor view_host 1 (FromTable [NameIdent ''v''] None) s = Some (Inr (''v'', None, t), put_table ''v'' t s)"
    by (rule named_view [OF assms])
  have "db_tables (se_db (put_table ''v'' t s)) ''v'' = Some t" "db_views (se_db (put_table ''v'' t s)) = [''v'' \<mapsto> ''SELECT n FROM t'']"
    using assms(2) by (simp_all add: put_table_def add_table_def)
  from t named_table [OF this(1), of 1] this(2) that show ?thesis
    by (simp add: from_factors_def two_views_def xbind_def xret_def has_view_def del: resolve_any_factor.simps)
qed

lemma drop_put:
  assumes "db_tables (se_db s) n = None" "set ns = {n}"
  shows "drop_tables ns (put_table n t s) = s"
proof -
  have "(\<lambda>k. if k \<in> set ns then None else db_tables (se_db (put_table n t s)) k) = db_tables (se_db s)"
    using assms by (auto simp: fun_eq_iff put_table_def add_table_def)
  then show ?thesis
    by (simp add: drop_tables_eq cong del: if_weak_cong) (simp add: put_table_def add_table_def)
qed

lemma join_two_views:
  "exec_select_joins view_host (plain_query (star_of two_views)) (star_of two_views) view_session =
     Some (Inr (format_joined [''v.n'', ''v.n''] []), view_session)"
proof -
  have v: "db_tables (se_db view_session) ''v'' = None" "db_views (se_db view_session) = [''v'' \<mapsto> ''SELECT n FROM t'']"
    by (simp_all add: view_session_def db_new_def)
  obtain t js where t: "tbl_columns t = [plain_column ''n'' TString]" "tbl_rows t = []"
    "resolve_factors view_host (from_factors two_views) 0 1 view_session = Some (Inr js, put_table ''v'' t view_session)"
    "js = [\<lparr>jt_name = ''v'', jt_alias = None, jt_start = 0, jt_cols = 1, jt_rows = [], jt_view = True, jt_temp = False\<rparr>,
      \<lparr>jt_name = ''v'', jt_alias = None, jt_start = 1, jt_cols = 1, jt_rows = [], jt_view = True, jt_temp = False\<rparr>]"
    by (rule two_views_resolved [OF v])
  have c: "flat_columns (se_db (put_table ''v'' t view_session)) js = Inr [(''v.n'', ''n'', 0), (''v.n'', ''n'', 1)]"
    by (simp add: flat_columns_def table_columns_def t(1,4) get_table_def put_table_def add_table_def jt_qualifier_def
        dotted_def plain_column_def)
  have j: "select_joined no_env db js cols (plain_query (star_of two_views)) (star_of two_views) = Some (Inr (Inr (map fst cols, [])))"
    for db :: "unit database" and cols
    unfolding t(4) by (rule select_joined_empty) (simp_all add: two_views_def)
  have d: "drop_tables (temporaries js) (put_table ''v'' t view_session) = view_session"
    by (rule drop_put) (simp_all add: v t(4) temporaries_def)
  show ?thesis
    by (simp add: exec_select_joins_def exec_select_joins_rows_def no_constraint xbind_def t(3) c j view_env d xret_def
        del: One_nat_def)
qed


section \<open>What joins get wrong\<close>

text \<open>A view \<open>v\<close> and, created after it, a table \<open>v\<close> (CREATE TABLE does not look at the views).\<close>

definition shadow_table :: table where
  "shadow_table = demo_table\<lparr>tbl_rows := [demo_row 1 ''a'']\<rparr>"

definition shadow_session :: "unit session" where
  "shadow_session = put_table ''v'' shadow_table view_session"

text \<open>A join that names a table which shares its name with a view drops that table, with its rows, when it
  returns: the executor takes it for a view it materialised itself.\<close>

theorem join_drops_table_named_like_view:
  "\<exists>header out s'. exec_select_joins_rows view_host (plain_query (star_of two_views)) (star_of two_views) shadow_session =
       Some (Inr (header, out), s') \<and> length out = 1 \<and>
     get_table ''v'' (se_db shadow_session) = Inr shadow_table \<and> \<not> has_table ''v'' (se_db s')"
proof -
  let ?j = "\<lambda>k. \<lparr>jt_name = ''v'', jt_alias = None, jt_start = k, jt_cols = 2, jt_rows = [demo_row 1 ''a''], jt_view = True,
      jt_temp = False\<rparr>"
  have t: "tbl_rows shadow_table = [demo_row 1 ''a'']" "tbl_columns shadow_table = demo_columns"
    by (simp_all add: shadow_table_def demo_cols)
  have v: "db_tables (se_db shadow_session) ''v'' = Some shadow_table" "has_view ''v'' (se_db shadow_session)"
    by (simp_all add: shadow_session_def put_table_def add_table_def has_view_def view_session_def)
  have r: "resolve_factors view_host (from_factors two_views) 0 1 shadow_session = Some (Inr [?j 0, ?j 2], shadow_session)"
    using named_table [OF v(1)] v(2)
    by (simp add: from_factors_def two_views_def xbind_def xret_def t demo_columns_def del: resolve_any_factor.simps)
  obtain cols where c: "flat_columns (se_db shadow_session) [?j 0, ?j 2] = Inr cols"
    using v(1) by (auto simp: flat_columns_def table_columns_def get_table_def)
  have "select_joined no_env (se_db shadow_session) [?j 0, ?j 2] cols (plain_query (star_of two_views)) (star_of two_views) =
      Some (Inr (Inr (map fst cols, [demo_row 1 ''a'' @ demo_row 1 ''a''])))"
    by (simp add: select_joined_def joined_rows_def Let_def star_plain join_step_def flat_plain_def order_flat_def
        apply_limit_offset_def two_views_def join_test_def extend_left_def flat_row_def table_part_def)
  then have "exec_select_joins_rows view_host (plain_query (star_of two_views)) (star_of two_views) shadow_session =
      Some (Inr (map fst cols, [demo_row 1 ''a'' @ demo_row 1 ''a'']), drop_tables [''v'', ''v''] shadow_session)"
    by (simp add: exec_select_joins_rows_def no_constraint xbind_def r c view_env xret_def temporaries_def
        del: One_nat_def drop_tables.simps)
  moreover have "\<not> has_table ''v'' (se_db (drop_tables [''v'', ''v''] shadow_session))"
    by (simp add: drop_tables_eq has_table_def del: drop_tables.simps)
  moreover have "get_table ''v'' (se_db shadow_session) = Inr shadow_table" using v(1) by (simp add: get_table_def)
  ultimately show ?thesis by simp
qed

text \<open>Derived tables whose queries answer with a column \<open>n\<close> and no rows; the second one is itself a query over
  a derived table.\<close>

definition inner_from :: "table_with_joins list" where
  "inner_from = [(FromDerived False ''SELECT n FROM t'' None, [])]"

definition inner_host :: "(unit, unit) select_host" where
  "inner_host = view_host\<lparr>sx_query := (\<lambda>_. xret ''[[n]]'')\<rparr>"

definition outer_from :: "table_with_joins list" where
  "outer_from = [(FromDerived False ''SELECT n FROM t'' None, []),
     (FromDerived False ''SELECT * FROM (SELECT n FROM t)'' None, [])]"

definition outer_host :: "(unit, unit) select_host" where
  "outer_host = view_host\<lparr>sx_query := (\<lambda>q. if q = ''SELECT n FROM t'' then xret ''[[n]]''
     else exec_select_joins inner_host (plain_query (star_of inner_from)) (star_of inner_from))\<rparr>"

lemma derived_hosts [simp]: "sx_host inner_host = sx_host view_host" "sx_host outer_host = sx_host view_host"
  "host_json_rows (sx_host view_host) x = Inr [[JString ''n'']]" "sx_correlated inner_host q = False"
  "sx_correlated outer_host q = False" "sx_query inner_host q = xret ''[[n]]''"
  "sx_query outer_host ''SELECT n FROM t'' = xret ''[[n]]''"
  "sx_query outer_host ''SELECT * FROM (SELECT n FROM t)'' =
     exec_select_joins inner_host (plain_query (star_of inner_from)) (star_of inner_from)"
  by (simp_all add: inner_host_def outer_host_def view_host_def)

lemma derived_table:
  obtains t where "subquery_json_to_table no_env (host_json (sx_host view_host)) (Inr [[JString ''n'']]) None nm = pok t"
    "tbl_columns t = [plain_column ''n'' TString]" "tbl_rows t = []"
proof -
  obtain t where t: "new_table nm [plain_column ''n'' TString] = Inr t" "tbl_columns t = [plain_column ''n'' TString]"
    "tbl_rows t = []"
    using index_columns_iff [of "[]" "[plain_column ''n'' TString]" "col_map_of [plain_column ''n'' TString]"]
    by (simp add: new_table_def plain_column_def)
  have "derived_column no_unicode [] None (0, JString ''n'') = plain_column ''n'' TString"
    by (simp add: derived_column_def to_lowercase_def is_ascii_def to_ascii_lowercase_def ascii_lower_def after_dot_def)
  with t that show ?thesis by (simp add: subquery_json_to_table_def)
qed

lemma inner_drops_temp:
  "\<exists>text. exec_select_joins inner_host (plain_query (star_of inner_from)) (star_of inner_from) s =
     Some (Inr text, s\<lparr>se_db := (se_db s)\<lparr>db_tables := (db_tables (se_db s))(temp_name 1 := None)\<rparr>\<rparr>)"
proof -
  obtain t where t: "subquery_json_to_table no_env (host_json (sx_host view_host)) (Inr [[JString ''n'']]) None (temp_name 1) = pok t"
    "tbl_columns t = [plain_column ''n'' TString]" "tbl_rows t = []"
    by (rule derived_table)
  let ?s1 = "put_table (temp_name 1) t s"
  let ?j = "\<lparr>jt_name = temp_name 1, jt_alias = None, jt_start = 0, jt_cols = 1, jt_rows = [],
      jt_view = has_view (temp_name 1) (se_db ?s1), jt_temp = True\<rparr>"
  have r: "resolve_factors inner_host (from_factors inner_from) 0 1 s = Some (Inr [?j], ?s1)"
    using t by (simp add: from_factors_def inner_from_def resolve_derived_def xbind_def xret_def view_env Let_def del: One_nat_def)
  obtain cols where c: "flat_columns (se_db ?s1) [?j] = Inr cols"
    by (auto simp: flat_columns_def table_columns_def get_table_def put_table_def add_table_def)
  have q: "\<not> query_has_subquery inner_host (plain_query (star_of inner_from)) (star_of inner_from)"
    by (simp add: query_has_subquery_def select_has_subquery_def inner_from_def order_items_def inner_host_def view_host_def)
  have "select_joined no_env (se_db ?s1) [?j] cols (plain_query (star_of inner_from)) (star_of inner_from) =
      Some (Inr (Inr (map fst cols, [])))"
    by (rule select_joined_empty) (simp_all add: inner_from_def)
  moreover have "drop_tables (temporaries [?j]) ?s1 = s\<lparr>se_db := (se_db s)\<lparr>db_tables := (db_tables (se_db s))(temp_name 1 := None)\<rparr>\<rparr>"
  proof -
    have "(\<lambda>n. if n \<in> set (temporaries [?j]) then None else db_tables (se_db ?s1) n) = (db_tables (se_db s))(temp_name 1 := None)"
      by (auto simp: temporaries_def put_table_def add_table_def fun_eq_iff)
    then show ?thesis
      by (simp add: drop_tables_eq cong del: if_weak_cong) (simp add: put_table_def add_table_def)
  qed
  ultimately show ?thesis
    by (simp add: exec_select_joins_def exec_select_joins_rows_def xbind_def q r c view_env xret_def
        del: One_nat_def)
qed

text \<open>The temporary tables of derived tables are numbered from 1 in every query, nested ones included: when
  the second derived table of FROM is a query over a derived table, running it replaces and drops the
  first temporary table of the outer query, which then fails.\<close>

theorem nested_derived_table_drops_outer:
  "\<exists>s'. exec_select_joins outer_host (plain_query (star_of outer_from)) (star_of outer_from) new_session =
     Some (Inl (TableNotFound (temp_name 1)), s')"
proof -
  obtain t where t: "subquery_json_to_table no_env (host_json (sx_host view_host)) (Inr [[JString ''n'']]) None (temp_name 1) = pok t"
    "tbl_columns t = [plain_column ''n'' TString]" "tbl_rows t = []"
    by (rule derived_table)
  obtain t2 where t2: "subquery_json_to_table no_env (host_json (sx_host view_host)) (Inr [[JString ''n'']]) None (temp_name 2) = pok t2"
    "tbl_columns t2 = [plain_column ''n'' TString]" "tbl_rows t2 = []"
    by (rule derived_table)
  let ?s = "new_session :: unit session"
  let ?s1 = "put_table (temp_name 1) t ?s"
  obtain out where i: "exec_select_joins inner_host (plain_query (star_of inner_from)) (star_of inner_from) ?s1 =
      Some (Inr out, ?s1\<lparr>se_db := (se_db ?s1)\<lparr>db_tables := (db_tables (se_db ?s1))(temp_name 1 := None)\<rparr>\<rparr>)"
    using inner_drops_temp by blast
  define s2 where "s2 = ?s1\<lparr>se_db := (se_db ?s1)\<lparr>db_tables := (db_tables (se_db ?s1))(temp_name 1 := None)\<rparr>\<rparr>"
  let ?s3 = "put_table (temp_name 2) t2 s2"
  obtain j1 j2 where r: "resolve_factors outer_host (from_factors outer_from) 0 1 ?s = Some (Inr [j1, j2], ?s3)"
    and j1: "jt_name j1 = temp_name 1"
    using t t2 i [folded s2_def]
    by (simp add: from_factors_def outer_from_def resolve_derived_def xbind_def xret_def view_env Let_def numeral_2_eq_2)
  have "temp_name 1 \<noteq> temp_name 2" by (simp add: temp_name_def dec_nat_inject)
  then have c: "flat_columns (se_db ?s3) [j1, j2] = Inl (TableNotFound (temp_name 1))"
    by (simp add: flat_columns_def table_columns_def get_table_def put_table_def add_table_def j1 s2_def)
  have q: "\<not> query_has_subquery outer_host (plain_query (star_of outer_from)) (star_of outer_from)"
    by (simp add: query_has_subquery_def select_has_subquery_def outer_from_def order_items_def outer_host_def view_host_def)
  show ?thesis
    by (simp add: exec_select_joins_def exec_select_joins_rows_def xbind_def q r c del: One_nat_def)
qed

end
