(* ===== verification/Cte.thy ===== *)
theory Cte
  imports Joins SetOps
begin

text \<open>
  \<open>stmts/select/cte.rs\<close>: a whole query.  Its WITH clauses are executed one after the other and stored as
  tables; recursive ones are run again until they bring nothing new, at most 100 times; then the body runs,
  the tables are dropped and SELECT INTO stores the answer.
\<close>

section \<open>The syntax\<close>

text \<open>The body of a query is a tree of set operations over SELECTs; \<open>None\<close> is any other body.\<close>

record plain_query =
  pq_body :: "select option set_expr"
  pq_order_by :: "order_by option"
  pq_limit :: "limit_clause option"

record cte =
  cte_alias :: rstr
  cte_columns :: "rstr list"
  cte_not_materialized :: bool
  cte_query :: plain_query

record into_clause =
  into_name :: rstr
  into_table :: bool

record full_query = plain_query +
  fq_recursive :: bool
  fq_ctes :: "cte list"
  fq_into :: "into_clause option"

definition is_set_operation :: "'q set_expr \<Rightarrow> bool" where
  "is_set_operation b = (case b of SetOperation _ _ _ _ \<Rightarrow> True | SetSelect _ \<Rightarrow> False)"

fun body_select :: "select option set_expr \<Rightarrow> select option" where
  "body_select (SetSelect s) = s"
| "body_select (SetOperation _ _ _ _) = None"

definition select_query_of :: "('z) plain_query_scheme \<Rightarrow> select_query" where
  "select_query_of q = \<lparr>sq_body = body_select (pq_body q), sq_order_by = pq_order_by q, sq_limit = pq_limit q, sq_with_nested = False\<rparr>"

text \<open>\<open>wrap_setexpr\<close>: a branch of a set operation as a query of its own.\<close>

definition wrap_setexpr :: "select option set_expr \<Rightarrow> select_query" where
  "wrap_setexpr b = \<lparr>sq_body = body_select b, sq_order_by = None, sq_limit = None, sq_with_nested = False\<rparr>"

section \<open>Rows of JSON\<close>

text \<open>\<open>serde_json::from_str(..).unwrap_or_default()\<close>.\<close>

definition rows_or_default :: "('ast, 'stmt) host \<Rightarrow> rstr \<Rightarrow> json list list" where
  "rows_or_default H text = (case host_json_rows H text of Inr rows \<Rightarrow> rows | Inl _ \<Rightarrow> [])"

definition print_rows :: "('ast, 'stmt) host \<Rightarrow> json list list \<Rightarrow> rstr" where
  "print_rows H rows = bracketed (map (\<lambda>r. bracketed (map (jp_display (host_json H)) r)) rows)"

definition run_union :: "('ast, 'stmt) select_host \<Rightarrow> select option set_expr \<Rightarrow> ('ast, rstr) exec" where
  "run_union X b s =
     exec_union (\<lambda>side. exec_select X (wrap_setexpr side)) (rows_or_default (sx_host X)) (print_rows (sx_host X)) b s"

text \<open>\<open>query_has_subquery\<close> of the query of a WITH clause.\<close>

fun body_has_subquery :: "('ast, 'stmt) select_host \<Rightarrow> select option set_expr \<Rightarrow> bool" where
  "body_has_subquery X (SetSelect (Some sel)) = select_has_subquery X sel"
| "body_has_subquery X (SetSelect None) = False"
| "body_has_subquery X (SetOperation l _ _ r) = (body_has_subquery X l \<or> body_has_subquery X r)"

definition cte_has_subquery :: "('ast, 'stmt) select_host \<Rightarrow> cte \<Rightarrow> bool" where
  "cte_has_subquery X c =
     (body_has_subquery X (pq_body (cte_query c)) \<or>
      list_ex (\<lambda>(e, _). expr_has_subquery e) (order_items (pq_order_by (cte_query c))) \<or>
      limit_has_subquery (pq_limit (cte_query c)))"

definition main_query :: "('ast, 'stmt) select_host \<Rightarrow> full_query \<Rightarrow> select_query" where
  "main_query X q = (select_query_of q)\<lparr>sq_with_nested := list_ex (cte_has_subquery X) (fq_ctes q)\<rparr>"

definition run_query :: "('ast, 'stmt) select_host \<Rightarrow> full_query \<Rightarrow> ('ast, rstr) exec" where
  "run_query X q =
     (if is_set_operation (pq_body q) then run_union X (pq_body q) else exec_select X (main_query X q))"

section \<open>The tables of WITH\<close>

definition cte_column :: "unicode \<Rightarrow> rstr list \<Rightarrow> json list \<Rightarrow> nat \<times> json \<Rightarrow> column" where
  "cte_column U names first ih =
     (let (i, h) = ih
      in plain_column
           (if i < length names then names ! i
            else to_lowercase U (case json_as_str h of Some x \<Rightarrow> x | None \<Rightarrow> ''col''))
           (if i < length first then json_type_to_column (first ! i) else TString))"

text \<open>The anchor of a recursive clause is the left branch of its set operation.\<close>

definition cte_text :: "('ast, 'stmt) select_host \<Rightarrow> bool \<Rightarrow> cte \<Rightarrow> ('ast, rstr) exec" where
  "cte_text X recursive c =
     (case pq_body (cte_query c) of
        SetOperation left _ _ _ \<Rightarrow>
          (if recursive then exec_select X (wrap_setexpr left) else run_union X (pq_body (cte_query c)))
      | SetSelect _ \<Rightarrow> exec_select X (select_query_of (cte_query c)))"

definition store_rows :: "('ast, 'stmt) select_host \<Rightarrow> rstr \<Rightarrow> column list \<Rightarrow> json list list \<Rightarrow> ('ast, rstr list) exec" where
  "store_rows X n cols rows s =
     (case new_table n cols of
        Inl _ \<Rightarrow> Some (Inr [], s)
      | Inr t \<Rightarrow>
          map_option (\<lambda>t'. (Inr [n], put_table n t' s))
            (insert_ignoring (host_env (sx_host X) s) (map (map (json_val_to_dbvalue (host_json (sx_host X)))) rows) t))"

text \<open>The result is the name of the stored table, when there is one.\<close>

definition run_cte :: "('ast, 'stmt) select_host \<Rightarrow> bool \<Rightarrow> cte \<Rightarrow> ('ast, rstr list) exec" where
  "run_cte X recursive c s =
     (let U = env_unicode (host_env (sx_host X) s); n = to_lowercase U (cte_alias c)
      in if cte_not_materialized c then Some (Inr [], s)
         else xbind (cte_text X recursive c) (\<lambda>text s1.
           case rows_or_default (sx_host X) text of
             header # first # rows \<Rightarrow>
               store_rows X n (map (cte_column U (map (to_lowercase U) (cte_columns c)) first) (enumerate 0 header))
                 (first # rows) s1
           | _ \<Rightarrow> Some (Inr [], s1)) s)"

fun run_ctes :: "('ast, 'stmt) select_host \<Rightarrow> bool \<Rightarrow> cte list \<Rightarrow> ('ast, rstr list) exec" where
  "run_ctes X recursive [] = xret []"
| "run_ctes X recursive (c # cs) =
     xbind (run_cte X recursive c) (\<lambda>ns. xbind (run_ctes X recursive cs) (\<lambda>ms. xret (ns @ ms)))"

section \<open>Recursive clauses\<close>

text \<open>The rows that the table does not hold yet.\<close>

fun insert_fresh :: "eval_env \<Rightarrow> row list \<Rightarrow> table \<Rightarrow> table panicking" where
  "insert_fresh E [] t = Some t"
| "insert_fresh E (r # rs) t =
     (if \<exists>x \<in> set (tbl_rows t). list_all2 db_eq x r then insert_fresh E rs t
      else case insert_row E r t of
             None \<Rightarrow> None
           | Some (Inl _) \<Rightarrow> insert_fresh E rs t
           | Some (Inr t') \<Rightarrow> insert_fresh E rs t')"

definition stored_count :: "rstr \<Rightarrow> 'ast session \<Rightarrow> nat" where
  "stored_count n s = (case get_table n (se_db s) of Inr t \<Rightarrow> row_count t | Inl _ \<Rightarrow> 0)"

text \<open>One round: \<open>True\<close> when it brings no more rows than the table has.\<close>

definition recursive_round :: "('ast, 'stmt) select_host \<Rightarrow> rstr \<Rightarrow> select option set_expr \<Rightarrow> ('ast, bool) exec" where
  "recursive_round X n b s =
     xbind (run_union X b) (\<lambda>text s1.
       let current = rows_or_default (sx_host X) text
       in if length current - 1 \<le> stored_count n s then Some (Inr True, s1)
          else case get_table n (se_db s1) of
                 Inl _ \<Rightarrow> Some (Inr False, s1)
               | Inr t \<Rightarrow>
                   map_option (\<lambda>t'. (Inr False, put_table n t' s1))
                     (insert_fresh (host_env (sx_host X) s1)
                        (map (map (json_val_to_dbvalue (host_json (sx_host X)))) (tl current)) t)) s"

definition max_iters :: nat where
  "max_iters = 100"

definition iterations_message :: "rstr \<Rightarrow> rstr" where
  "iterations_message n = ''recursive CTE '' @ [CHR 0x27] @ n @ [CHR 0x27] @ '' did not terminate within '' @ dec_nat max_iters @ '' iterations''"

fun recursive_rounds :: "('ast, 'stmt) select_host \<Rightarrow> rstr \<Rightarrow> select option set_expr \<Rightarrow> nat \<Rightarrow> ('ast, unit) exec" where
  "recursive_rounds X n b 0 = xerr (ExecError (iterations_message n))"
| "recursive_rounds X n b (Suc k) =
     xbind (recursive_round X n b) (\<lambda>fix. if fix then xret () else recursive_rounds X n b k)"

fun run_recursive :: "('ast, 'stmt) select_host \<Rightarrow> cte list \<Rightarrow> ('ast, unit) exec" where
  "run_recursive X [] s = xret () s"
| "run_recursive X (c # cs) s =
     (let n = to_lowercase (env_unicode (host_env (sx_host X) s)) (cte_alias c); b = pq_body (cte_query c)
      in xbind (if is_set_operation b then recursive_rounds X n b max_iters else xret ()) (\<lambda>_. run_recursive X cs) s)"

section \<open>SELECT INTO\<close>

definition into_column :: "unicode \<Rightarrow> json list \<Rightarrow> nat \<times> json \<Rightarrow> column" where
  "into_column U first ih =
     (let (i, h) = ih
      in plain_column (to_lowercase U (case json_as_str h of Some x \<Rightarrow> x | None \<Rightarrow> ''col'' @ dec_nat i))
           (if i < length first then json_type_to_column (first ! i) else TString))"

definition select_into :: "('ast, 'stmt) select_host \<Rightarrow> full_query \<Rightarrow> rstr \<Rightarrow> ('ast, unit) exec" where
  "select_into X q text s =
     (case (if body_select (pq_body q) = None then None else fq_into q) of
        None \<Rightarrow> Some (Inr (), s)
      | Some i \<Rightarrow>
          (let U = env_unicode (host_env (sx_host X) s); n = to_lowercase U (into_name i)
           in case (into_table i, host_json_rows (sx_host X) text) of
                (True, Inr (header # first # rows)) \<Rightarrow>
                  map_option (\<lambda>(_, s'). (Inr (), s'))
                    (store_rows X n (map (into_column U first) (enumerate 0 header)) (first # rows) s)
              | _ \<Rightarrow> Some (Inr (), s)))"

section \<open>The query\<close>

definition exec_cte_query :: "('ast, 'stmt) select_host \<Rightarrow> full_query \<Rightarrow> ('ast, rstr) exec" where
  "exec_cte_query X q =
     xbind (run_ctes X (fq_recursive q) (fq_ctes q)) (\<lambda>names.
     xbind (if fq_recursive q then run_recursive X (fq_ctes q) else xret ()) (\<lambda>_ s1.
       case run_query X q s1 of
         None \<Rightarrow> None
       | Some (Inl e, s2) \<Rightarrow> Some (Inl e, drop_tables names s2)
       | Some (Inr text, s2) \<Rightarrow> xbind (select_into X q text) (\<lambda>_. xret text) (drop_tables names s2)))"

end
