(* ===== verification/DateProps.thy ===== *)
theory DateProps
  imports ScalarFunctions TextProps
begin

text \<open>
  The calendar: the date of a day and the day of a date are inverse, on the 64-bit arithmetic of the code,
  for every day from 1970 on; and the texts of negative times.
\<close>

section \<open>The civil calendar on numbers\<close>

definition nat_civil :: "nat \<Rightarrow> nat \<Rightarrow> nat \<times> nat \<times> nat" where
  "nat_civil era doe =
     (let yoe = (doe - doe div 1460 + doe div 36524 - doe div 146096) div 365;
          doy = doe - (365 * yoe + yoe div 4 - yoe div 100);
          mp = (5 * doy + 2) div 153;
          m = (if mp < 10 then mp + 3 else mp - 9)
      in (yoe + era * 400 + (if m \<le> 2 then 1 else 0), m, doy - (153 * mp + 2) div 5 + 1))"

definition year_of_era :: "nat \<Rightarrow> nat" where
  "year_of_era doe = (doe - doe div 1460 + doe div 36524 - doe div 146096) div 365"

definition days_before_year :: "nat \<Rightarrow> nat" where
  "days_before_year yoe = 365 * yoe + yoe div 4 - yoe div 100"

lemma nat_civil_alt:
  "nat_civil era doe =
     (let y = year_of_era doe; doy = doe - days_before_year y; mp = (5 * doy + 2) div 153;
          m = (if mp < 10 then mp + 3 else mp - 9)
      in (y + era * 400 + (if m \<le> 2 then 1 else 0), m, doy - (153 * mp + 2) div 5 + 1))"
  by (simp only: nat_civil_def year_of_era_def days_before_year_def Let_def)

lemma div_bounds: "0 < k \<Longrightarrow> k * (n div k) \<le> n \<and> n < k * (n div k) + k" for k n :: nat
  using times_div_less_eq_dividend [of k n] dividend_less_times_div [of k n] by simp

text \<open>Within a century \<open>b\<close> of the era the year is found with one correction.\<close>

lemma year_in_century:
  fixes r b k :: nat
  assumes r: "r < 36524" "b \<le> 3" and k: "k = (r - (24 * b + r) div 1460) div 365"
  shows "k < 100 \<and> 365 * k + k div 4 \<le> r \<and> r \<le> 365 * k + k div 4 + 365"
proof -
  define t where "t = (24 * b + r) div 1460"
  have t: "1460 * t \<le> 24 * b + r" "24 * b + r < 1460 * t + 1460"
    using div_bounds [of 1460 "24 * b + r"] unfolding t_def by simp_all
  have tr: "t \<le> r" using t r by linarith
  have k': "365 * k \<le> r - t" "r - t < 365 * k + 365"
    using div_bounds [of 365 "r - t"] unfolding k t_def [symmetric] by simp_all
  define q where "q = k div 4"
  have q: "4 * q \<le> k" "k \<le> 4 * q + 3" using div_bounds [of 4 k] unfolding q_def by simp_all
  have "k < 100" using k' t r tr by linarith
  moreover have "q \<le> t" using t k' q tr by linarith
  moreover have "t \<le> q + 1" using t k' q r tr \<open>k < 100\<close> by linarith
  ultimately show ?thesis using k' tr q unfolding q_def [symmetric] by linarith
qed

lemma year_of_era_bounds:
  assumes "doe < 146097"
  shows "year_of_era doe < 400 \<and> days_before_year (year_of_era doe) \<le> doe \<and> doe \<le> days_before_year (year_of_era doe) + 365"
proof (cases "doe = 146096")
  case True
  then show ?thesis by (simp add: year_of_era_def days_before_year_def)
next
  case False
  define b where "b = doe div 36524"
  define r where "r = doe mod 36524"
  have doe: "doe = 36524 * b + r" "r < 36524" by (simp_all add: b_def r_def)
  with assms False have b: "b \<le> 3" by linarith
  have c: "doe div 146096 = 0" using assms False by simp
  have a: "doe div 1460 = 25 * b + (24 * b + r) div 1460"
  proof -
    have "doe = (24 * b + r) + 1460 * (25 * b)" using doe by simp
    then show ?thesis by (metis div_mult_self2 add.commute zero_neq_numeral)
  qed
  have s: "(24 * b + r) div 1460 \<le> r"
  proof (cases "r = 0")
    case True
    with b show ?thesis by simp
  next
    case False
    then have "24 * b + r \<le> 1460 * r" using b by linarith
    then show ?thesis by (metis div_le_mono nonzero_mult_div_cancel_left zero_neq_numeral)
  qed
  define k where "k = (r - (24 * b + r) div 1460) div 365"
  have k: "k < 100" "365 * k + k div 4 \<le> r" "r \<le> 365 * k + k div 4 + 365"
    using year_in_century [OF doe(2) b k_def] by auto
  have "doe - doe div 1460 + b - 0 = 365 * (100 * b) + (r - (24 * b + r) div 1460)"
    using doe a s b by linarith
  then have y: "year_of_era doe = 100 * b + k"
    unfolding year_of_era_def c b_def [symmetric] k_def by (simp only: div_mult_self4 zero_neq_numeral)
  have "(100 * b + k) div 4 = 25 * b + k div 4" "(100 * b + k) div 100 = b"
    using k(1) by simp_all
  then have "days_before_year (100 * b + k) = 36524 * b + 365 * k + k div 4"
    by (simp add: days_before_year_def)
  with y k b doe show ?thesis by simp
qed

text \<open>Month and day of a day of the year, and back.\<close>

lemma month_of_day:
  fixes doy :: nat
  assumes "doy \<le> 365" and "mp = (5 * doy + 2) div 153"
  shows "mp \<le> 11 \<and> (153 * mp + 2) div 5 \<le> doy \<and> doy < (153 * mp + 2) div 5 + 31"
proof -
  have m: "153 * mp \<le> 5 * doy + 2" "5 * doy + 2 < 153 * mp + 153"
    using div_bounds [of 153 "5 * doy + 2"] assms(2) by simp_all
  have q: "5 * ((153 * mp + 2) div 5) \<le> 153 * mp + 2" "153 * mp + 2 < 5 * ((153 * mp + 2) div 5) + 5"
    using div_bounds [of 5 "153 * mp + 2"] by simp_all
  have "mp \<le> 11" using m assms(1) by linarith
  moreover have "(153 * mp + 2) div 5 \<le> doy" using m q by linarith
  moreover have "doy < (153 * mp + 2) div 5 + 31" using m q by linarith
  ultimately show ?thesis by blast
qed

section \<open>Words\<close>

lemma word_eqI_unat: "unat a = unat b \<Longrightarrow> a = b" for a b :: u64
  by (simp add: word_unat_eq_iff)

lemma of_nat_div_word: "a < 2 ^ 64 \<Longrightarrow> b < 2 ^ 64 \<Longrightarrow> (of_nat a :: u64) div of_nat b = of_nat (a div b)"
  using le_less_trans [OF div_le_dividend, of a "2 ^ 64" b]
  by (intro word_eqI_unat) (simp add: unat_div unat_of_nat take_bit_nat_eq_self)

lemma of_nat_diff_word: "b \<le> a \<Longrightarrow> (of_nat a :: u64) - of_nat b = of_nat (a - b)"
  by (simp add: of_nat_diff)

lemma of_nat_less_word: "a < 2 ^ 64 \<Longrightarrow> b < 2 ^ 64 \<Longrightarrow> (of_nat a :: u64) < of_nat b \<longleftrightarrow> a < b"
  by (simp add: word_less_nat_alt unat_of_nat take_bit_nat_eq_self)

lemma of_nat_le_word: "a < 2 ^ 64 \<Longrightarrow> b < 2 ^ 64 \<Longrightarrow> (of_nat a :: u64) \<le> of_nat b \<longleftrightarrow> a \<le> b"
  by (simp add: word_le_nat_alt unat_of_nat take_bit_nat_eq_self)

lemma sint_of_nat: "a < 2 ^ 63 \<Longrightarrow> sint (of_nat a :: i64) = int a"
  by (simp add: sint_uint signed_take_bit_int_eq_self_iff uint_nat unat_of_nat take_bit_nat_eq_self)

lemma sdiv64_of_nat: "a < 2 ^ 63 \<Longrightarrow> b < 2 ^ 63 \<Longrightarrow> sdiv64 (of_nat a) (of_nat b) = of_nat (a div b)"
  by (simp add: sdiv64_def sint_of_nat signed_divide_int_def zdiv_int [symmetric])

lemma year_word:
  assumes "doe < 146097"
  shows "((of_nat doe :: u64) - of_nat doe div 1460 + of_nat doe div 36524 - of_nat doe div 146096) div 365 = of_nat (year_of_era doe)"
proof -
  let ?d = "of_nat doe :: u64"
  have b: "doe < 2 ^ 64" using assms by simp
  have q: "?d div 1460 = of_nat (doe div 1460)" "?d div 36524 = of_nat (doe div 36524)" "?d div 146096 = of_nat (doe div 146096)"
    using of_nat_div_word [OF b, of 1460] of_nat_div_word [OF b, of 36524] of_nat_div_word [OF b, of 146096] by simp_all
  have le: "doe div 1460 \<le> doe" "doe div 146096 \<le> doe - doe div 1460 + doe div 36524"
    using div_le_dividend [of doe 1460] div_le_mono2 [of 36524 146096 doe] by (simp_all add: trans_le_add2)
  define n where "n = doe - doe div 1460 + doe div 36524 - doe div 146096"
  have w: "?d - ?d div 1460 + ?d div 36524 - ?d div 146096 = of_nat n"
    unfolding q n_def using le by (simp add: of_nat_diff)
  have "n < 2 ^ 64" using assms div_le_dividend [of doe 36524] by (simp add: n_def)
  from of_nat_div_word [OF this, of 365] show ?thesis
    unfolding w year_of_era_def n_def [symmetric] by simp
qed

lemma days_word:
  assumes "y < 400"
  shows "365 * (of_nat y :: u64) + of_nat y div 4 - of_nat y div 100 = of_nat (days_before_year y)"
proof -
  have "(of_nat y :: u64) div 4 = of_nat (y div 4)" "(of_nat y :: u64) div 100 = of_nat (y div 100)"
    using of_nat_div_word [of y 4] of_nat_div_word [of y 100] assms by simp_all
  moreover have "y div 100 \<le> 365 * y + y div 4" using div_le_dividend [of y 100] by linarith
  ultimately show ?thesis by (simp add: days_before_year_def of_nat_diff)
qed

lemma month_word:
  assumes "doy \<le> 365"
  shows "(5 * (of_nat doy :: u64) + 2) div 153 = of_nat ((5 * doy + 2) div 153)"
    and "mp \<le> 11 \<Longrightarrow> (153 * (of_nat mp :: u64) + 2) div 5 = of_nat ((153 * mp + 2) div 5)"
  using of_nat_div_word [of "5 * doy + 2" 153] of_nat_div_word [of "153 * mp + 2" 5] assms
  by (simp_all add: add.commute)

lemma civil_of_era_nat:
  assumes "doe < 146097"
  shows "civil_of_era (of_nat era) (of_nat doe) = (case nat_civil era doe of (y, m, d) \<Rightarrow> (of_nat y, of_nat m, of_nat d))"
proof -
  define y where "y = year_of_era doe"
  define doy where "doy = doe - days_before_year y"
  define mp where "mp = (5 * doy + 2) div 153"
  have y: "y < 400" "days_before_year y \<le> doe" "doy \<le> 365"
    using year_of_era_bounds [OF assms] by (auto simp: y_def doy_def)
  have mp: "mp \<le> 11" "(153 * mp + 2) div 5 \<le> doy" using month_of_day [OF y(3) mp_def] by simp_all
  have w: "of_nat doe - (of_nat (days_before_year y) :: u64) = of_nat doy"
    unfolding doy_def by (rule of_nat_diff_word [OF y(2)])
  have lt: "(of_nat mp :: u64) < 10 \<longleftrightarrow> mp < 10"
    using of_nat_less_word [of mp 10] mp(1) by simp
  define m where "m = (if mp < 10 then mp + 3 else mp - 9)"
  have mw: "(if (of_nat mp :: u64) < 10 then of_nat mp + 3 else of_nat mp - 9) = (of_nat m :: u64)"
    using lt by (simp add: m_def of_nat_diff)
  have m2: "(of_nat m :: u64) \<le> 2 \<longleftrightarrow> m \<le> 2"
  proof -
    have "m \<le> 12" using mp(1) unfolding m_def by (cases "mp < 10") auto
    then have "m < 2 ^ 64" by simp
    from of_nat_le_word [OF this, of 2] show ?thesis by simp
  qed
  have d: "of_nat doy - (of_nat ((153 * mp + 2) div 5) :: u64) + 1 = of_nat (doy - (153 * mp + 2) div 5 + 1)"
    using of_nat_diff_word [OF mp(2)] by simp
  have n: "nat_civil era doe = (y + era * 400 + (if m \<le> 2 then 1 else 0), m, doy - (153 * mp + 2) div 5 + 1)"
    unfolding nat_civil_alt Let_def y_def [symmetric] doy_def [symmetric] mp_def [symmetric] m_def [symmetric] ..
  show ?thesis
    unfolding civil_of_era_def Let_def year_word [OF assms] y_def [symmetric] days_word [OF y(1)] w month_word(1) [OF y(3)]
      mp_def [symmetric] month_word(2) [OF y(3) mp(1)] mw d m2 n prod.case
    by simp
qed

lemma civil_parts:
  assumes "doe < 146097" "nat_civil era doe = (y, m, d)"
  obtains y0 doy mp where "y0 < 400" "doe = days_before_year y0 + doy" "doy \<le> 365" "mp \<le> 11"
    "doy = (153 * mp + 2) div 5 + (d - 1)" "1 \<le> d" "d \<le> 31" "1 \<le> m" "m \<le> 12"
    "m \<le> 2 \<longleftrightarrow> 10 \<le> mp" "m = (if mp < 10 then mp + 3 else mp - 9)"
    "y = y0 + era * 400 + (if m \<le> 2 then 1 else 0)"
proof -
  define y0 where "y0 = year_of_era doe"
  define doy where "doy = doe - days_before_year y0"
  define mp where "mp = (5 * doy + 2) div 153"
  have y: "y0 < 400" "days_before_year y0 \<le> doe" "doy \<le> 365"
    using year_of_era_bounds [OF assms(1)] by (auto simp: y0_def doy_def)
  have mp: "mp \<le> 11" "(153 * mp + 2) div 5 \<le> doy" "doy < (153 * mp + 2) div 5 + 31"
    using month_of_day [OF y(3) mp_def] by simp_all
  define m' where "m' = (if mp < 10 then mp + 3 else mp - 9)"
  have "nat_civil era doe = (y0 + era * 400 + (if m' \<le> 2 then 1 else 0), m', doy - (153 * mp + 2) div 5 + 1)"
    unfolding nat_civil_alt Let_def y0_def [symmetric] doy_def [symmetric] mp_def [symmetric] m'_def [symmetric] ..
  from trans [OF this [symmetric] assms(2)]
  have e: "y = y0 + era * 400 + (if m' \<le> 2 then 1 else 0)" "m = m'" "d = doy - (153 * mp + 2) div 5 + 1"
    by blast+
  have r: "m' \<le> 12" "1 \<le> m'" "m' \<le> 2 \<longleftrightarrow> 10 \<le> mp" using mp(1) unfolding m'_def by (cases "mp < 10"; auto)+
  have d: "doe = days_before_year y0 + doy" using y(2) by (simp add: doy_def)
  have dd: "doy = (153 * mp + 2) div 5 + (d - 1)" "1 \<le> d" "d \<le> 31" using mp(2,3) e(3) by simp_all
  show ?thesis
    by (rule that [OF y(1) d y(3) mp(1) dd]) (simp_all only: e r, simp only: m'_def)
qed

text \<open>The two directions of the calendar agree.\<close>

lemma date_to_days_civil:
  assumes "doe < 146097" "era < 2 ^ 40" "nat_civil era doe = (y, m, d)"
  shows "date_to_days (of_nat y) (of_nat m) (of_nat d) = of_nat (era * 146097 + doe) - 719468"
proof -
  from civil_parts [OF assms(1,3)] obtain y0 doy mp where p: "y0 < 400" "doe = days_before_year y0 + doy" "doy \<le> 365" "mp \<le> 11"
    "doy = (153 * mp + 2) div 5 + (d - 1)" "1 \<le> d" "m \<le> 12" "m \<le> 2 \<longleftrightarrow> 10 \<le> mp"
    "m = (if mp < 10 then mp + 3 else mp - 9)" "y = y0 + era * 400 + (if m \<le> 2 then 1 else 0)"
    by metis
  have m2: "sint (of_nat m :: i64) \<le> 2 \<longleftrightarrow> m \<le> 2" using sint_of_nat [of m] p(7) by simp
  have adj: "(if m \<le> 2 then (of_nat m + 9, of_nat y - 1) else (of_nat m - 3, of_nat y)) =
      (of_nat mp :: i64, of_nat (y0 + era * 400) :: i64)"
    using p(4,8,9,10) by (auto simp: of_nat_diff)
  have y0: "y0 + era * 400 < 2 ^ 63" using p(1) assms(2) by simp
  have era: "(if 0 \<le> sint (of_nat (y0 + era * 400) :: i64) then sdiv64 (of_nat (y0 + era * 400)) 400
      else sdiv64 (of_nat (y0 + era * 400) - 399) 400) = of_nat era"
    using sdiv64_of_nat [OF y0, of 400] sint_of_nat [OF y0] p(1) by simp
  have yoe: "of_nat (y0 + era * 400) - of_nat era * 400 = (of_nat y0 :: i64)" by simp
  have doy: "sdiv64 (153 * of_nat mp + 2) 5 + of_nat d - 1 = (of_nat doy :: i64)"
    using sdiv64_of_nat [of "153 * mp + 2" 5] p(4,6) unfolding p(5) by (simp add: of_nat_diff add.commute)
  have doe: "of_nat y0 * 365 + sdiv64 (of_nat y0) 4 - sdiv64 (of_nat y0) 100 + of_nat doy = (of_nat doe :: i64)"
  proof -
    have "y0 div 100 \<le> 365 * y0 + y0 div 4" using div_le_dividend [of y0 100] by linarith
    then show ?thesis
      using sdiv64_of_nat [of y0 4] sdiv64_of_nat [of y0 100] p(1)
      unfolding p(2) by (simp add: days_before_year_def of_nat_diff)
  qed
  show ?thesis
    unfolding date_to_days_def Let_def m2 adj prod.case era yoe doy doe by simp
qed

section \<open>Day numbers\<close>

lemma civil_of_days_nat:
  assumes "n < 2 ^ 50" "nat_civil (n div 146097) (n mod 146097) = (y, m, d)"
  shows "civil_of_days (of_nat n) = (of_nat y, of_nat m, of_nat d)"
proof -
  have e: "sdiv64 (of_nat n) 146097 = of_nat (n div 146097)"
    using sdiv64_of_nat [of n 146097] assms(1) by simp
  have r: "of_nat n - of_nat (n div 146097) * 146097 = (of_nat (n mod 146097) :: u64)"
    by (metis add_diff_cancel_left' div_mult_mod_eq of_nat_add of_nat_mult of_nat_numeral)
  show ?thesis
    using civil_of_era_nat [of "n mod 146097" "n div 146097"] assms(2)
    by (simp add: civil_of_days_def e r)
qed

lemma civil_day:
  assumes "k < 2 ^ 40"
  obtains y m d where "civil_of_days (of_nat k + 719468) = (of_nat y, of_nat m, of_nat d)"
    "date_to_days (of_nat y) (of_nat m) (of_nat d) = of_nat k" "y < 2 ^ 40" "1 \<le> m" "m \<le> 12" "1 \<le> d" "d \<le> 31"
proof -
  let ?n = "k + 719468"
  have n: "?n < 2 ^ 50" using assms by simp
  obtain y m d where c: "nat_civil (?n div 146097) (?n mod 146097) = (y, m, d)" by (cases "nat_civil (?n div 146097) (?n mod 146097)")
  have l: "?n mod 146097 < 146097" by simp
  have era: "?n div 146097 < 2 ^ 25" using assms by (simp add: less_mult_imp_div_less)
  from civil_parts [OF l c] obtain y0 where b: "y0 < 400" "1 \<le> d" "d \<le> 31" "1 \<le> m" "m \<le> 12"
    "y = y0 + ?n div 146097 * 400 + (if m \<le> 2 then 1 else 0)" by metis
  have "civil_of_days (of_nat ?n) = (of_nat y, of_nat m, of_nat d)" by (rule civil_of_days_nat [OF n c])
  moreover have "date_to_days (of_nat y) (of_nat m) (of_nat d) = of_nat ?n - 719468"
    using date_to_days_civil [OF l _ c] era by (simp del: of_nat_add)
  moreover have "y < 2 ^ 40" using b(1,6) era by simp
  ultimately show ?thesis using that b(2-5) by simp
qed

section \<open>The clock's text read again\<close>

lemma digits_ascii: "\<forall>c \<in> set s. is_digit c \<Longrightarrow> is_ascii s"
  by (auto simp: is_ascii_def is_digit_def)

lemma parse_i64_pad: "n < 2 ^ 63 \<Longrightarrow> parse_i64 (pad_dec w n) = Some (of_nat n)"
proof -
  assume n: "n < 2 ^ 63"
  have "pad_dec w n \<noteq> []" by (simp add: pad_dec_def)
  moreover from this have "is_digit (hd (pad_dec w n))" using pad_dec_digits by (metis hd_in_set)
  then have "hd (pad_dec w n) \<noteq> CHR ''-''" "hd (pad_dec w n) \<noteq> CHR ''+''" by (auto simp: is_digit_def)
  ultimately have "parse_int (pad_dec w n) = Some (int n)"
    using pad_dec_digits [of w n] by (auto simp: parse_int_def Let_def)
  with n show ?thesis by (simp add: parse_i64_def i64_min_def i64_max_def)
qed

lemma split_on_end: "c \<notin> set s \<Longrightarrow> split_on c s = [s]"
  by (induction s) auto

lemma split_on_step: "c \<notin> set s \<Longrightarrow> split_on c (s @ c # t) = s # split_on c t"
  by (induction s) auto

lemma find_char: "c \<notin> set s \<Longrightarrow> find_sub (s @ c # t) [c] = Some (length s)"
  by (induction s) auto

lemma no_char_in_digits: "\<not> is_digit c \<Longrightarrow> c \<notin> set (pad_dec w n)"
  using pad_dec_digits by blast

lemma separators: "\<not> is_digit CHR ''-''" "\<not> is_digit CHR '':''" "\<not> is_digit CHR ''T''" "\<not> is_digit CHR ''.''"
  by (simp_all add: is_digit_def)

lemma part_or_zero_parse: "i < length ps \<Longrightarrow> ps ! i = pad_dec w n \<Longrightarrow> n < 2 ^ 63 \<Longrightarrow> part_or_zero ps i = of_nat n"
  by (simp add: part_or_zero_def parse_i64_pad)

lemma after_mark: "take (length xs) (xs @ c # ys) = xs" "drop (length xs + 1) (xs @ c # ys) = ys"
  by simp_all

lemma iso_text_parsed:
  assumes "y < 2 ^ 63" "m < 2 ^ 63" "d < 2 ^ 63" "h < 2 ^ 63" "mi < 2 ^ 63" "sec < 2 ^ 63"
  shows "parse_iso_date (pad_dec 4 y @ ''-'' @ pad_dec 2 m @ ''-'' @ pad_dec 2 d @ ''T'' @
      pad_dec 2 h @ '':'' @ pad_dec 2 mi @ '':'' @ pad_dec 2 sec) =
    Some (of_nat y, of_nat m, of_nat d, of_nat h, of_nat mi, of_nat sec)"
proof -
  let ?date = "pad_dec 4 y @ ''-'' @ pad_dec 2 m @ ''-'' @ pad_dec 2 d"
  let ?time = "pad_dec 2 h @ '':'' @ pad_dec 2 mi @ '':'' @ pad_dec 2 sec"
  let ?s = "?date @ CHR ''T'' # ?time"
  note no = separators [THEN no_char_in_digits]
  have cs: "\<forall>c \<in> set ?s. is_digit c \<or> c \<in> {CHR ''-'', CHR ''T'', CHR '':''}"
    using pad_dec_digits by auto
  have asc: "is_ascii ?s" unfolding is_ascii_def
  proof
    fix c assume "c \<in> set ?s"
    with cs have "is_digit c \<or> c \<in> {CHR ''-'', CHR ''T'', CHR '':''}" by blast
    then show "(of_char c :: nat) < 128" by (auto simp: is_digit_def)
  qed
  have "\<forall>c \<in> set (chars ?s). \<not> is_whitespace c"
  proof
    fix c assume "c \<in> set (chars ?s)"
    then have "c \<in> of_char ` set ?s" unfolding chars_ascii [OF asc] bytes_of_def by (simp only: set_map)
    then obtain b where b: "b \<in> set ?s" "c = of_char b" by blast
    with cs have "is_digit b \<or> b \<in> {CHR ''-'', CHR ''T'', CHR '':''}" by blast
    then show "\<not> is_whitespace c" by (auto simp: b(2) is_digit_def is_whitespace_def)
  qed
  from trim_no_space [OF this] have t: "trim ?s = ?s" by (simp only: utf8_chars_ascii [OF asc])
  have mark: "time_mark ?s = Some (length ?date)"
    using find_char [of "CHR ''T''" ?date ?time] no by (simp add: time_mark_def)
  have date: "split_on CHR ''-'' ?date = [pad_dec 4 y, pad_dec 2 m, pad_dec 2 d]"
    using no by (simp add: split_on_step split_on_end)
  have time: "split_on CHR '':'' ?time = [pad_dec 2 h, pad_dec 2 mi, pad_dec 2 sec]"
    using no by (simp add: split_on_step split_on_end)
  have "parse_time ?time = (of_nat h, of_nat mi, of_nat sec)"
    unfolding parse_time_def time Let_def
    using assms(4-6) no by (simp add: part_or_zero_parse split_on_end)
  moreover have "take (length ?date) ?s = ?date" "drop (length ?date + 1) ?s = ?time"
    using after_mark [of ?date "CHR ''T''" ?time] by (simp_all only: append_assoc)
  ultimately have "parse_iso_date ?s = Some (of_nat y, of_nat m, of_nat d, of_nat h, of_nat mi, of_nat sec)"
    unfolding parse_iso_date_def Let_def t mark option.case prod.case
    using assms(1-3) by (simp only: date list.case parse_i64_pad option.case prod.case)
  then show ?thesis by simp
qed

lemma clock_sum: "a * 60 + s = n \<Longrightarrow> b * 60 + mi = a \<Longrightarrow> c * 24 + h = b \<Longrightarrow> c * 86400 + h * 3600 + mi * 60 + s = n"
  for a b c :: nat
  by auto

lemma unix_of_nat:
  "date_to_days y m d = of_nat k \<Longrightarrow>
     unix_seconds (y, m, d, of_nat h, of_nat mi, of_nat s) = of_nat (k * 86400 + h * 3600 + mi * 60 + s)"
  by (simp add: unix_seconds_def)

lemma clock_div:
  fixes n :: nat
  shows "n div 3600 * 60 + n div 60 mod 60 = n div 60" "n div 86400 * 24 + n div 3600 mod 24 = n div 3600"
  using div_mult_mod_eq [of "n div 60" 60] div_mult_mod_eq [of "n div 3600" 24]
  by (simp_all add: div_mult2_eq [symmetric])

text \<open>Divisions that truncate: a time before 1970 has negative fields.\<close>

lemma negative_time_text: "epoch_to_datetime (- 1) = ''1970-01-01 00:00:-1''"
  by code_simp

text \<open>C24.  The text of the clock, read again, is the clock: \<open>unix_timestamp(now())\<close> gives the seconds that
  \<open>now()\<close> was made from, for every time in the first 30000 years after 1970, on the wrapping 64-bit
  arithmetic of both conversions (leap years, centuries and eras included).\<close>

theorem clock_text_roundtrip:
  assumes "unat secs < 2 ^ 40"
  shows "\<exists>p. parse_iso_date (now_text secs) = Some p \<and> unix_seconds p = secs"
proof -
  let ?n = "unat secs" and ?k = "unat secs div 86400"
  have k: "?k < 2 ^ 40" using assms div_le_dividend [of ?n 86400] by linarith
  have w: "secs div 86400 = of_nat ?k" "secs div 3600 mod 24 = of_nat (?n div 3600 mod 24)"
    "secs div 60 mod 60 = of_nat (?n div 60 mod 60)" "secs mod 60 = of_nat (?n mod 60)"
    using k by (simp_all add: word_unat_eq_iff unat_div unat_mod unat_of_nat take_bit_nat_eq_self)
  obtain y m d where c: "civil_of_days (of_nat ?k + 719468) = (of_nat y, of_nat m, of_nat d)"
    "date_to_days (of_nat y) (of_nat m) (of_nat d) = of_nat ?k" and b: "y < 2 ^ 40" "m \<le> 12" "d \<le> 31"
    by (rule civil_day [OF k])
  have pads: "pad_u64 2 (of_nat (?n div 3600 mod 24)) = pad_dec 2 (?n div 3600 mod 24)"
    "pad_u64 2 (of_nat (?n div 60 mod 60)) = pad_dec 2 (?n div 60 mod 60)" "pad_u64 2 (of_nat (?n mod 60)) = pad_dec 2 (?n mod 60)"
    "pad_u64 4 (of_nat y) = pad_dec 4 y" "pad_u64 2 (of_nat m) = pad_dec 2 m" "pad_u64 2 (of_nat d) = pad_dec 2 d"
    using b by (simp_all add: pad_u64_def unat_of_nat take_bit_nat_eq_self)
  have "now_text secs = pad_dec 4 y @ ''-'' @ pad_dec 2 m @ ''-'' @ pad_dec 2 d @ ''T'' @
      pad_dec 2 (?n div 3600 mod 24) @ '':'' @ pad_dec 2 (?n div 60 mod 60) @ '':'' @ pad_dec 2 (?n mod 60)"
    unfolding now_text_def w c Let_def prod.case pads ..
  with iso_text_parsed [of y m d "?n div 3600 mod 24" "?n div 60 mod 60" "?n mod 60"] b
  have p: "parse_iso_date (now_text secs) =
      Some (of_nat y, of_nat m, of_nat d, of_nat (?n div 3600 mod 24), of_nat (?n div 60 mod 60), of_nat (?n mod 60))"
    by simp
  have "?k * 86400 + ?n div 3600 mod 24 * 3600 + ?n div 60 mod 60 * 60 + ?n mod 60 = ?n"
    by (rule clock_sum [OF div_mult_mod_eq [of ?n 60] clock_div(1) clock_div(2)])
  with unix_of_nat [OF c(2)] have "unix_seconds (of_nat y, of_nat m, of_nat d, of_nat (?n div 3600 mod 24),
      of_nat (?n div 60 mod 60), of_nat (?n mod 60)) = of_nat ?n" by metis
  with p show ?thesis by simp
qed

theorem clock_text_roundtrip_witness:
  "parse_iso_date (now_text 951782400) \<noteq> None"
  using clock_text_roundtrip [of 951782400] by auto

end
