(* ===== verification/Corr.thy ===== *)
theory Corr
  imports Cte
begin

text \<open>
  \<open>functions/eval/corr.rs\<close> and \<open>nondet.rs\<close>: which expressions of a subquery refer to the outer row, the
  condition with the outer columns replaced by literals, and the calls whose value the cache of subquery
  results must not keep.
\<close>

section \<open>The names of a subquery\<close>

definition ident_names :: "unicode \<Rightarrow> object_name \<Rightarrow> rstr list" where
  "ident_names U nm = concat (map (\<lambda>p. case p of NameIdent i \<Rightarrow> [to_lowercase U i] | NameOther \<Rightarrow> []) nm)"

fun table_names_and_aliases :: "unicode \<Rightarrow> from_factor \<Rightarrow> rstr list" where
  "table_names_and_aliases U (FromTable nm alias) =
     (if ident_names U nm = [] then [] else [join ''.'' (ident_names U nm)]) @
     (case alias of Some a \<Rightarrow> [to_lowercase U a] | None \<Rightarrow> [])"
| "table_names_and_aliases U _ = []"

definition subquery_table_names :: "unicode \<Rightarrow> select option \<Rightarrow> rstr list" where
  "subquery_table_names U body =
     (case body of
        Some sel \<Rightarrow> concat (map (table_names_and_aliases U) (from_factors (sel_from sel)))
      | None \<Rightarrow> [])"

definition query_has_from :: "unicode \<Rightarrow> select option \<Rightarrow> bool" where
  "query_has_from U body = (subquery_table_names U body \<noteq> [])"

text \<open>The columns of the subquery's own tables, in the snapshot.\<close>

definition subquery_own_columns :: "unicode \<Rightarrow> 'ast database option \<Rightarrow> select option \<Rightarrow> rstr set" where
  "subquery_own_columns U snapshot body =
     (case snapshot of
        None \<Rightarrow> {}
      | Some db \<Rightarrow>
          \<Union> (set (map (\<lambda>n. case get_table n db of Inr t \<Rightarrow> dom (tbl_col_index t) | Inl _ \<Rightarrow> {})
                 (subquery_table_names U body))))"

section \<open>References to the outer row\<close>

fun has_outer_refs :: "unicode \<Rightarrow> rstr list \<Rightarrow> rstr set \<Rightarrow> col_map \<Rightarrow> sql_expr \<Rightarrow> bool" where
  "has_outer_refs U tables own m (Identifier i) =
     (m (to_lowercase U i) \<noteq> None \<and> to_lowercase U i \<notin> own)"
| "has_outer_refs U tables own m (CompoundIdentifier parts) =
     (2 \<le> length parts \<and> to_lowercase U (hd parts) \<notin> set tables)"
| "has_outer_refs U tables own m (Nested a) = has_outer_refs U tables own m a"
| "has_outer_refs U tables own m (BinaryOp a op b) = (has_outer_refs U tables own m a \<or> has_outer_refs U tables own m b)"
| "has_outer_refs U tables own m (UnaryOp op a) = has_outer_refs U tables own m a"
| "has_outer_refs U tables own m (IsNull a) = has_outer_refs U tables own m a"
| "has_outer_refs U tables own m (IsNotNull a) = has_outer_refs U tables own m a"
| "has_outer_refs U tables own m (Like neg a p esc) = (has_outer_refs U tables own m a \<or> has_outer_refs U tables own m p)"
| "has_outer_refs U tables own m (Between a l h neg) =
     (has_outer_refs U tables own m a \<or> has_outer_refs U tables own m l \<or> has_outer_refs U tables own m h)"
| "has_outer_refs U tables own m (InList a es neg) =
     (has_outer_refs U tables own m a \<or> (\<exists>e \<in> set es. has_outer_refs U tables own m e))"
| "has_outer_refs U tables own m _ = False"

definition is_correlated :: "unicode \<Rightarrow> rstr set \<Rightarrow> col_map \<Rightarrow> select option \<Rightarrow> bool" where
  "is_correlated U own m body =
     (case body of
        None \<Rightarrow> False
      | Some sel \<Rightarrow>
          (case sel_selection sel of
             None \<Rightarrow> False
           | Some e \<Rightarrow> has_outer_refs U (subquery_table_names U body) own m e))"

text \<open>\<open>derived_is_correlated\<close>: a derived table has no outer row, so only qualified names can be outer.\<close>

definition derived_is_correlated :: "unicode \<Rightarrow> select option \<Rightarrow> bool" where
  "derived_is_correlated U body =
     (case body of
        None \<Rightarrow> False
      | Some sel \<Rightarrow>
          (let outer = has_outer_refs U (subquery_table_names U body) {} Map.empty
           in (case sel_selection sel of Some e \<Rightarrow> outer e | None \<Rightarrow> False) \<or>
              list_ex (\<lambda>it. case item_expr it of Some e \<Rightarrow> outer e | None \<Rightarrow> False) (sel_projection sel)))"

section \<open>The rewritten condition\<close>

text \<open>A value as a literal; \<open>js\<close> and \<open>jf\<close> print the arrays as JSON.\<close>

fun literal_value :: "(rstr list \<Rightarrow> rstr) \<Rightarrow> (f64 list \<Rightarrow> rstr) \<Rightarrow> db_value \<Rightarrow> sql_value" where
  "literal_value js jf DNull = SqlNull"
| "literal_value js jf (DBool b) = SqlBoolean b"
| "literal_value js jf (DInt i) = SqlNumber (i64_to_string i)"
| "literal_value js jf (DFloat f) = SqlNumber (f64_to_string f)"
| "literal_value js jf (DString s) = SqlSingleQuoted s"
| "literal_value js jf (DStrings ss) = SqlSingleQuoted (js ss)"
| "literal_value js jf (DFloats fs) = SqlSingleQuoted (jf fs)"

definition dbvalue_to_literal_expr :: "(rstr list \<Rightarrow> rstr) \<Rightarrow> (f64 list \<Rightarrow> rstr) \<Rightarrow> db_value \<Rightarrow> sql_expr" where
  "dbvalue_to_literal_expr js jf v = Value (literal_value js jf v)"

text \<open>The outer row: its cells, its columns and the printers of literals.\<close>

record outer_row =
  or_row :: row
  or_map :: col_map
  or_strings :: "rstr list \<Rightarrow> rstr"
  or_floats :: "f64 list \<Rightarrow> rstr"

definition outer_literal :: "outer_row \<Rightarrow> nat \<Rightarrow> sql_expr panicking" where
  "outer_literal R i =
     (if i < length (or_row R) then Some (dbvalue_to_literal_expr (or_strings R) (or_floats R) (or_row R ! i)) else None)"

definition outer_position :: "unicode \<Rightarrow> rstr list \<Rightarrow> col_map \<Rightarrow> rstr list \<Rightarrow> nat option" where
  "outer_position U tables m parts =
     (let lower = map (to_lowercase U) parts
      in if 2 \<le> length lower \<and> hd lower \<notin> set tables
         then (case m (join ''.'' lower) of Some p \<Rightarrow> Some p | None \<Rightarrow> m (join ''.'' (tl lower)))
         else None)"

lemma map_option_list_cong [fundef_cong]:
  "xs = ys \<Longrightarrow> (\<And>x. x \<in> set ys \<Longrightarrow> f x = g x) \<Longrightarrow> map_option_list f xs = map_option_list g ys"
  by (induction ys arbitrary: xs) (auto split: option.splits)

definition both :: "('a \<Rightarrow> 'b \<Rightarrow> 'c) \<Rightarrow> 'a option \<Rightarrow> 'b option \<Rightarrow> 'c option" where
  "both f x y = (case x of None \<Rightarrow> None | Some a \<Rightarrow> map_option (f a) y)"

lemma both_simps [simp]: "both f (Some a) (Some b) = Some (f a b)" "both f None y = None" "both f x None = None"
  by (simp_all add: both_def split: option.split)

lemma both_Some_iff: "both f x y = Some c \<longleftrightarrow> (\<exists>a b. x = Some a \<and> y = Some b \<and> c = f a b)"
  by (auto simp: both_def split: option.splits)

fun rewrite_outer_refs :: "unicode \<Rightarrow> rstr list \<Rightarrow> rstr set \<Rightarrow> outer_row \<Rightarrow> sql_expr \<Rightarrow> sql_expr panicking" where
  "rewrite_outer_refs U tables own R (Identifier i) =
     (case (if to_lowercase U i \<in> own then None else or_map R (to_lowercase U i)) of
        Some p \<Rightarrow> outer_literal R p
      | None \<Rightarrow> Some (Identifier i))"
| "rewrite_outer_refs U tables own R (CompoundIdentifier parts) =
     (case outer_position U tables (or_map R) parts of
        Some p \<Rightarrow> outer_literal R p
      | None \<Rightarrow> Some (CompoundIdentifier parts))"
| "rewrite_outer_refs U tables own R (Nested a) = map_option Nested (rewrite_outer_refs U tables own R a)"
| "rewrite_outer_refs U tables own R (BinaryOp a op b) =
     both (\<lambda>x y. BinaryOp x op y) (rewrite_outer_refs U tables own R a) (rewrite_outer_refs U tables own R b)"
| "rewrite_outer_refs U tables own R (UnaryOp op a) = map_option (UnaryOp op) (rewrite_outer_refs U tables own R a)"
| "rewrite_outer_refs U tables own R (IsNull a) = map_option IsNull (rewrite_outer_refs U tables own R a)"
| "rewrite_outer_refs U tables own R (IsNotNull a) = map_option IsNotNull (rewrite_outer_refs U tables own R a)"
| "rewrite_outer_refs U tables own R (Like neg a p esc) =
     both (\<lambda>x y. Like neg x y esc) (rewrite_outer_refs U tables own R a) (rewrite_outer_refs U tables own R p)"
| "rewrite_outer_refs U tables own R (Between a l h neg) =
     both (\<lambda>x f. f x) (rewrite_outer_refs U tables own R a)
       (both (\<lambda>y z x. Between x y z neg) (rewrite_outer_refs U tables own R l) (rewrite_outer_refs U tables own R h))"
| "rewrite_outer_refs U tables own R (InList a es neg) =
     both (\<lambda>x ys. InList x ys neg) (rewrite_outer_refs U tables own R a) (map_option_list (rewrite_outer_refs U tables own R) es)"
| "rewrite_outer_refs U tables own R e = Some e"

definition rewrite_if_correlated :: "unicode \<Rightarrow> 'ast database option \<Rightarrow> outer_row \<Rightarrow> select option \<Rightarrow> select option panicking" where
  "rewrite_if_correlated U snapshot R body =
     (let own = subquery_own_columns U snapshot body
      in case body of
           None \<Rightarrow> Some None
         | Some sel \<Rightarrow>
             (case sel_selection sel of
                Some e \<Rightarrow>
                  (if is_correlated U own (or_map R) body
                   then map_option (\<lambda>e'. Some (sel\<lparr>sel_selection := Some e'\<rparr>))
                     (rewrite_outer_refs U (subquery_table_names U body) own R e)
                   else Some body)
              | None \<Rightarrow> Some body))"

section \<open>Calls that read the clock\<close>

definition clock_calls :: "rstr list" where
  "clock_calls = [''random'', ''now'', ''curdate'', ''current_timestamp'', ''current_time'', ''current_date'',
     ''datetime'', ''date'', ''time'', ''strftime'']"

text \<open>\<open>q\<close> says of a subquery's text whether it contains such a call.\<close>

definition core_nondeterministic :: "rstr \<Rightarrow> func_args \<Rightarrow> bool" where
  "core_nondeterministic name args =
     (if name \<in> set clock_calls then True
      else if name = ''unix_timestamp''
      then (case args of NoArgs \<Rightarrow> True | ArgList as \<Rightarrow> as = [] | SubqueryArgs _ \<Rightarrow> False)
      else False)"

fun plain_args :: "func_args \<Rightarrow> sql_expr list" where
  "plain_args (ArgList as) = concat (map (\<lambda>a. case a of Unnamed (ArgExpr e) \<Rightarrow> [e] | _ \<Rightarrow> []) as)"
| "plain_args _ = []"

lemma plain_args_size [termination_simp]: "e \<in> set (plain_args args) \<Longrightarrow> size e < size args"
proof (cases args)
  case (ArgList as)
  assume "e \<in> set (plain_args args)"
  then have "Unnamed (ArgExpr e) \<in> set as"
    using ArgList by (auto split: func_arg.splits arg_expr.splits)
  then have "size (Unnamed (ArgExpr e)) < Suc (size_list size as)"
    by (metis less_Suc_eq size_list_estimation' order_refl le_imp_less_Suc)
  then show ?thesis using ArgList by simp
qed simp_all

fun expr_has_nondeterministic :: "unicode \<Rightarrow> (query \<Rightarrow> bool) \<Rightarrow> sql_expr \<Rightarrow> bool" where
  "expr_has_nondeterministic U q (Identifier i) =
     (to_lowercase U i \<in> {''current_timestamp'', ''current_time'', ''current_date''})"
| "expr_has_nondeterministic U q (Function nm args mods) =
     (core_nondeterministic (to_lowercase U nm) args \<or>
      (\<exists>e \<in> set (plain_args args). expr_has_nondeterministic U q e) \<or>
      (case args of SubqueryArgs s \<Rightarrow> q s | _ \<Rightarrow> False))"
| "expr_has_nondeterministic U q (Subquery s) = q s"
| "expr_has_nondeterministic U q (Exists s neg) = q s"
| "expr_has_nondeterministic U q (InSubquery a s neg) = q s"
| "expr_has_nondeterministic U q (BinaryOp a op b) = (expr_has_nondeterministic U q a \<or> expr_has_nondeterministic U q b)"
| "expr_has_nondeterministic U q (UnaryOp op a) = expr_has_nondeterministic U q a"
| "expr_has_nondeterministic U q (Nested a) = expr_has_nondeterministic U q a"
| "expr_has_nondeterministic U q (IsNull a) = expr_has_nondeterministic U q a"
| "expr_has_nondeterministic U q (IsNotNull a) = expr_has_nondeterministic U q a"
| "expr_has_nondeterministic U q (Like neg a p esc) = (expr_has_nondeterministic U q a \<or> expr_has_nondeterministic U q p)"
| "expr_has_nondeterministic U q (InList a es neg) =
     (expr_has_nondeterministic U q a \<or> (\<exists>e \<in> set es. expr_has_nondeterministic U q e))"
| "expr_has_nondeterministic U q (Between a l h neg) =
     (expr_has_nondeterministic U q a \<or> expr_has_nondeterministic U q l \<or> expr_has_nondeterministic U q h)"
| "expr_has_nondeterministic U q (Case operand conds els) =
     ((\<exists>e \<in> set_option operand. expr_has_nondeterministic U q e) \<or>
      (\<exists>(c, v) \<in> set conds. expr_has_nondeterministic U q c \<or> expr_has_nondeterministic U q v))"
| "expr_has_nondeterministic U q (Cast a t) = expr_has_nondeterministic U q a"
| "expr_has_nondeterministic U q (Substring a from len) = expr_has_nondeterministic U q a"
| "expr_has_nondeterministic U q _ = False"

definition item_nondeterministic :: "unicode \<Rightarrow> (query \<Rightarrow> bool) \<Rightarrow> select_item \<Rightarrow> bool" where
  "item_nondeterministic U q it = (case item_expr it of Some e \<Rightarrow> expr_has_nondeterministic U q e | None \<Rightarrow> False)"

definition option_nondeterministic :: "unicode \<Rightarrow> (query \<Rightarrow> bool) \<Rightarrow> sql_expr option \<Rightarrow> bool" where
  "option_nondeterministic U q e = (case e of Some x \<Rightarrow> expr_has_nondeterministic U q x | None \<Rightarrow> False)"

text \<open>\<open>set_expr_has_nondeterministic\<close>; bodies that are neither SELECTs nor set operations are not looked into here.\<close>

definition select_has_nondeterministic :: "unicode \<Rightarrow> (query \<Rightarrow> bool) \<Rightarrow> select \<Rightarrow> bool" where
  "select_has_nondeterministic U q sel =
     (list_ex (item_nondeterministic U q) (sel_projection sel) \<or>
      option_nondeterministic U q (sel_selection sel) \<or>
      list_ex (expr_has_nondeterministic U q) (group_exprs sel) \<or>
      option_nondeterministic U q (sel_having sel))"

fun limit_nondeterministic :: "unicode \<Rightarrow> (query \<Rightarrow> bool) \<Rightarrow> limit_clause option \<Rightarrow> bool" where
  "limit_nondeterministic U q None = False"
| "limit_nondeterministic U q (Some (LimitOffset lim off)) = (option_nondeterministic U q lim \<or> option_nondeterministic U q off)"
| "limit_nondeterministic U q (Some (OffsetCommaLimit off lim)) =
     (expr_has_nondeterministic U q off \<or> expr_has_nondeterministic U q lim)"

fun body_has_nondeterministic :: "unicode \<Rightarrow> (query \<Rightarrow> bool) \<Rightarrow> select option set_expr \<Rightarrow> bool" where
  "body_has_nondeterministic U q (SetSelect (Some sel)) = select_has_nondeterministic U q sel"
| "body_has_nondeterministic U q (SetSelect None) = False"
| "body_has_nondeterministic U q (SetOperation l _ _ r) =
     (body_has_nondeterministic U q l \<or> body_has_nondeterministic U q r)"

definition plain_has_nondeterministic :: "unicode \<Rightarrow> (query \<Rightarrow> bool) \<Rightarrow> 'z plain_query_scheme \<Rightarrow> bool" where
  "plain_has_nondeterministic U q pq =
     (body_has_nondeterministic U q (pq_body pq) \<or>
      list_ex (\<lambda>(e, _). expr_has_nondeterministic U q e) (order_items (pq_order_by pq)) \<or>
      limit_nondeterministic U q (pq_limit pq))"

definition query_has_nondeterministic :: "unicode \<Rightarrow> (query \<Rightarrow> bool) \<Rightarrow> full_query \<Rightarrow> bool" where
  "query_has_nondeterministic U q fq =
     (plain_has_nondeterministic U q fq \<or>
      list_ex (\<lambda>c. plain_has_nondeterministic U q (cte_query c)) (fq_ctes fq))"

end
