(* ===== verification/CorrProps.thy ===== *)
theory CorrProps
  imports Corr TableProps
begin

text \<open>
  What rewriting a correlated condition means: its value on a row of the subquery is the value of the
  original on that row followed by the outer row.  And what the check for nondeterministic calls guarantees
  to the cache of subquery results, with the expressions it misses.
\<close>

section \<open>Conditions and the scope of their names\<close>

text \<open>The conditions that the rewriting walks completely; the clock's names are no columns.\<close>

fun walked :: "unicode \<Rightarrow> sql_expr \<Rightarrow> bool" where
  "walked U (Identifier i) = (to_lowercase U i \<notin> {''current_timestamp'', ''current_time'', ''current_date''})"
| "walked U (Value v) = True"
| "walked U (Nested a) = walked U a"
| "walked U (BinaryOp a op b) = (walked U a \<and> walked U b)"
| "walked U (UnaryOp op a) = walked U a"
| "walked U (IsNull a) = walked U a"
| "walked U (IsNotNull a) = walked U a"
| "walked U (Like neg a p esc) = (walked U a \<and> walked U p)"
| "walked U (Between a l h neg) = (walked U a \<and> walked U l \<and> walked U h)"
| "walked U (InList a es neg) = (walked U a \<and> (\<forall>e \<in> set es. walked U e))"
| "walked U _ = False"

text \<open>A name is a column of the subquery's tables if they have it, else one of the outer row.\<close>

definition scoped_map :: "rstr set \<Rightarrow> col_map \<Rightarrow> col_map \<Rightarrow> nat \<Rightarrow> col_map" where
  "scoped_map own inner outer n c =
     (if c \<in> own then inner c
      else case outer c of Some p \<Rightarrow> Some (n + p) | None \<Rightarrow> inner c)"

text \<open>The values that a literal gives back.\<close>

fun literal_exact :: "db_value \<Rightarrow> bool" where
  "literal_exact (DFloat _) = False"
| "literal_exact (DStrings _) = False"
| "literal_exact (DFloats _) = False"
| "literal_exact _ = True"

lemma literal_value_exact:
  assumes "literal_exact v"
  shows "sql_val_to_db (literal_value js jf v) = v"
proof (cases v)
  case (DInt n)
  have "\<not> is_digit c \<and> c \<noteq> CHR ''-''" if "c \<in> {CHR ''.'', CHR ''e'', CHR ''E''}" for c
    using that by (auto simp: is_digit_def)
  then have "c \<notin> set (i64_to_string n)" if "c \<in> {CHR ''.'', CHR ''e'', CHR ''E''}" for c
    using that dec_nat_digits by (fastforce simp: i64_to_string_def dec_int_def split: if_splits)
  then show ?thesis by (simp add: DInt)
qed (use assms in auto)

section \<open>The rewritten condition\<close>

lemma map_option_list_Some: "map_option_list f xs = Some ys \<longleftrightarrow> list_all2 (\<lambda>x y. f x = Some y) xs ys"
  by (induction xs arbitrary: ys) (auto simp: list_all2_Cons1 split: option.splits)

lemma map_option_list_returns: "(\<And>x. x \<in> set xs \<Longrightarrow> \<exists>y. f x = Some y) \<Longrightarrow> \<exists>ys. map_option_list f xs = Some ys"
proof (induction xs)
  case (Cons x xs)
  from Cons.prems [of x] obtain y where "f x = Some y" by auto
  moreover from Cons obtain ys where "map_option_list f xs = Some ys" by auto
  ultimately show ?case by simp
qed simp

lemma eval_in_list_all2:
  "list_all2 (\<lambda>x y. f x = g y) es fs \<Longrightarrow> eval_in_list f v es = eval_in_list g v fs"
  by (induction rule: list_all2_induct) (simp_all cong: if_cong)

text \<open>A row of the subquery \<open>r\<close> with its columns, and the outer row, whose positions exist.\<close>

definition scopes_fit :: "rstr set \<Rightarrow> col_map \<Rightarrow> row \<Rightarrow> outer_row \<Rightarrow> bool" where
  "scopes_fit own inner r R \<longleftrightarrow>
     (\<forall>c i. inner c = Some i \<longrightarrow> i < length r) \<and>
     (\<forall>c p. or_map R c = Some p \<longrightarrow> p < length (or_row R)) \<and>
     (\<forall>v \<in> set (or_row R). literal_exact v)"

lemma rewritten_identifier:
  assumes "scopes_fit own inner r R" and "walked U (Identifier i)" and "env_unicode E = U"
  shows "\<exists>e'. rewrite_outer_refs U tables own R (Identifier i) = Some e' \<and>
    eval_expr E r inner e' = eval_expr E (r @ or_row R) (scoped_map own inner (or_map R) (length r)) (Identifier i)"
proof (cases "if to_lowercase U i \<in> own then None else or_map R (to_lowercase U i)")
  case None
  have b: "k < length r \<and> k < length r + length (or_row R)" if "inner c = Some k" for c k
    using assms(1) that by (auto simp: scopes_fit_def intro: trans_less_add1)
  from None show ?thesis
    using assms(2,3)
    by (auto simp: eval_identifier_def scoped_map_def cell_def nth_append Let_def dest: b split: if_splits option.splits)
next
  case (Some p)
  then have p: "p < length (or_row R)" "literal_exact (or_row R ! p)"
    using assms(1) by (auto simp: scopes_fit_def split: if_splits)
  with Some assms(2,3) show ?thesis
    by (auto simp: outer_literal_def dbvalue_to_literal_expr_def literal_value_exact eval_identifier_def scoped_map_def
        cell_def nth_append split: if_splits)
qed

lemma rewritten_condition:
  assumes fit: "scopes_fit own inner r R"
  shows "walked U e \<Longrightarrow> env_unicode E = U \<Longrightarrow> \<exists>e'. rewrite_outer_refs U tables own R e = Some e' \<and>
    eval_expr E r inner e' = eval_expr E (r @ or_row R) (scoped_map own inner (or_map R) (length r)) e"
proof (induction U e rule: walked.induct)
  case (1 U i)
  then show ?case using rewritten_identifier [OF fit] by blast
next
  case (10 U a es neg)
  let ?g = "rewrite_outer_refs U tables own R"
  from 10 obtain a' where a: "?g a = Some a'"
    "eval_expr E r inner a' = eval_expr E (r @ or_row R) (scoped_map own inner (or_map R) (length r)) a" by auto
  have "\<exists>e'. ?g e = Some e' \<and> eval_expr E r inner e' = eval_expr E (r @ or_row R) (scoped_map own inner (or_map R) (length r)) e"
    if "e \<in> set es" for e
    using 10 that by auto
  then obtain h where h: "\<And>e. e \<in> set es \<Longrightarrow> ?g e = Some (h e) \<and>
      eval_expr E r inner (h e) = eval_expr E (r @ or_row R) (scoped_map own inner (or_map R) (length r)) e" by metis
  have "map_option_list ?g es = Some (map h es)"
    using h by (simp add: map_option_list_Some list_all2_conv_all_nth)
  moreover have "eval_in_list (eval_expr E r inner) v (map h es) =
      eval_in_list (eval_expr E (r @ or_row R) (scoped_map own inner (or_map R) (length r))) v es" for v
    using h by (intro eval_in_list_all2) (simp add: list_all2_conv_all_nth)
  ultimately show ?case using a by (auto simp: cong: pbind_cong)
qed auto


text \<open>A subquery over \<open>id\<close> and an outer row with \<open>dept\<close>: \<open>id = dept\<close> becomes \<open>id = 7\<close>.\<close>

definition demo_outer :: outer_row where
  "demo_outer = \<lparr>or_row = [DInt 7], or_map = [''dept'' \<mapsto> 0], or_strings = (\<lambda>_. []), or_floats = (\<lambda>_. [])\<rparr>"

lemma demo_lower: "to_lowercase no_unicode ''id'' = ''id''" "to_lowercase no_unicode ''dept'' = ''dept''"
  by (simp_all add: to_lowercase_def is_ascii_def to_ascii_lowercase_def ascii_lower_def)


text \<open>What has no outer reference is left as it is.\<close>

lemma not_outer_unchanged:
  "\<not> has_outer_refs U tables own (or_map R) e \<Longrightarrow> rewrite_outer_refs U tables own R e = Some e"
proof (induction U tables own R e rule: rewrite_outer_refs.induct)
  case (2 U tables own R parts)
  then show ?case by (cases parts) (auto simp: outer_position_def Let_def)
next
  case (10 U tables own R a es neg)
  then have "map_option_list (rewrite_outer_refs U tables own R) es = Some es"
    by (auto simp: map_option_list_Some list_all2_conv_all_nth)
  with 10 show ?case by simp
qed (auto split: option.splits if_splits)

text \<open>An outer column inside a call is not seen, nor replaced.\<close>

lemma outer_reference_in_call_missed:
  "\<not> has_outer_refs U tables own m (Function nm args mods)"
  "rewrite_outer_refs U tables own R (Function nm args mods) = Some (Function nm args mods)"
  by simp_all

section \<open>Calls that the cache must not keep\<close>

text \<open>
  The environments of two moments of one statement: another time, another random number, and other answers of
  the subqueries that the check \<open>q\<close> reports.
\<close>

definition other_moment :: "(query \<Rightarrow> bool) \<Rightarrow> eval_env \<Rightarrow> eval_env \<Rightarrow> bool" where
  "other_moment q E E' \<longleftrightarrow>
     (\<exists>a b S. E' = E\<lparr>env_secs := a, env_random := b, env_subquery := S\<rparr> \<and>
        (\<forall>s r m. \<not> q s \<longrightarrow> S s r m = env_subquery E s r m))"

text \<open>The expressions that the check walks completely.\<close>

fun looked_into :: "unicode \<Rightarrow> (query \<Rightarrow> bool) \<Rightarrow> sql_expr \<Rightarrow> bool" where
  "looked_into U q (Identifier i) = True"
| "looked_into U q (CompoundIdentifier ps) = True"
| "looked_into U q (Value v) = True"
| "looked_into U q (BinaryOp a op b) = (looked_into U q a \<and> looked_into U q b)"
| "looked_into U q (UnaryOp op a) = looked_into U q a"
| "looked_into U q (Nested a) = looked_into U q a"
| "looked_into U q (IsNull a) = looked_into U q a"
| "looked_into U q (IsNotNull a) = looked_into U q a"
| "looked_into U q (Like neg a p esc) = (looked_into U q a \<and> looked_into U q p)"
| "looked_into U q (InList a es neg) = (looked_into U q a \<and> (\<forall>e \<in> set es. looked_into U q e))"
| "looked_into U q (Between a l h neg) = (looked_into U q a \<and> looked_into U q l \<and> looked_into U q h)"
| "looked_into U q (Cast a t) = looked_into U q a"
| "looked_into U q (Subquery s) = True"
| "looked_into U q (Exists s neg) = True"
| "looked_into U q (InSubquery a s neg) = (looked_into U q a \<and> \<not> expr_has_nondeterministic U q a)"
| "looked_into U q (Case operand conds els) =
     ((\<forall>e \<in> set_option operand. looked_into U q e) \<and>
      (\<forall>(c, v) \<in> set conds. looked_into U q c \<and> looked_into U q v) \<and> els = None)"
| "looked_into U q (Function nm (ArgList as) mods) =
     ((\<forall>e \<in> set (plain_args (ArgList as)). looked_into U q e) \<and> (\<forall>a \<in> set as. \<exists>e. a = Unnamed (ArgExpr e)))"
| "looked_into U q (Substring a from len) = (looked_into U q a \<and> from = None \<and> len = None)"
| "looked_into U q _ = False"

lemma moment_fields:
  fixes E E' :: eval_env
  assumes "E' = E\<lparr>env_secs := a, env_random := b, env_subquery := S\<rparr>"
  shows "env_unicode E' = env_unicode E" "env_plugin E' = env_plugin E" "env_expr_debug E' = env_expr_debug E"
    "round_with E' = round_with E" "type_error E' = type_error E"
proof -
  show u: "env_unicode E' = env_unicode E" and "env_plugin E' = env_plugin E" and "env_expr_debug E' = env_expr_debug E"
    by (simp_all add: assms)
  show "round_with E' = round_with E" "type_error E' = type_error E"
    unfolding fun_eq_iff round_with_def type_error_def u by blast+
qed

lemma functions_at_another_moment:
  fixes E E' :: eval_env
  assumes "E' = E\<lparr>env_secs := a, env_random := b, env_subquery := S\<rparr>"
  shows "text_function E' = text_function E" "round_function E' = round_function E"
    "session_function E' = session_function E" "embedded_function E' = embedded_function E"
    "number_function E' = number_function E"
    "name \<noteq> ''random'' \<Longrightarrow> kind_function E' name rs = kind_function E name rs"
    "name \<notin> set clock_calls \<Longrightarrow> clock_function E' name as = clock_function E name as"
    "name \<noteq> ''unix_timestamp'' \<or> rs \<noteq> [] \<Longrightarrow> calendar_function E' name rs = calendar_function E name rs"
proof -
  note m = moment_fields [OF assms]
  have p: "env_sqf E' = env_sqf E" "env_powf E' = env_powf E" "env_pow10 E' = env_pow10 E" "env_rowid E' = env_rowid E"
    "env_changes E' = env_changes E" by (simp_all add: assms)
  have "substr_value E' = substr_value E" "round_value E' = round_value E" "abs_value E' = abs_value E"
    "pow_value E' = pow_value E" "sqrt_value E' = sqrt_value E" "sign_value E' = sign_value E"
    unfolding fun_eq_iff substr_value_def round_value_def abs_value_def pow_value_def sqrt_value_def sign_value_def m p
    by blast+
  note v = this m p
  show "text_function E' = text_function E" "round_function E' = round_function E"
    "session_function E' = session_function E" "embedded_function E' = embedded_function E"
    "number_function E' = number_function E"
    unfolding fun_eq_iff text_function_def round_function_def session_function_def embedded_function_def
      number_function_def v by blast+
  show "name \<noteq> ''random'' \<Longrightarrow> kind_function E' name rs = kind_function E name rs" by (simp add: kind_function_def m)
  show "name \<notin> set clock_calls \<Longrightarrow> clock_function E' name as = clock_function E name as"
    by (simp add: clock_function_def clock_calls_def)
  show "name \<noteq> ''unix_timestamp'' \<or> rs \<noteq> [] \<Longrightarrow> calendar_function E' name rs = calendar_function E name rs"
    by (auto simp: calendar_function_def)
qed

lemma exec_std_function_at_another_moment:
  fixes E :: eval_env
  assumes "\<not> core_nondeterministic name (ArgList as)" and "rs = map f as"
  shows "exec_std_function (E\<lparr>env_secs := a, env_random := b, env_subquery := S\<rparr>) name (ArgList as) rs =
    exec_std_function E name (ArgList as) rs"
proof -
  have n: "name \<notin> set clock_calls" and u: "name \<noteq> ''unix_timestamp'' \<or> rs \<noteq> []"
    using assms by (auto simp: core_nondeterministic_def split: if_splits)
  from n have r: "name \<noteq> ''random''" by (auto simp: clock_calls_def)
  note f = functions_at_another_moment [OF refl]
  show ?thesis unfolding exec_std_function_def func_args.case f(1-5) f(6) [OF r] f(7) [OF n] f(8) [OF u] ..
qed

lemma similarity_at_another_moment:
  assumes "env_unicode E' = env_unicode E"
  shows "eval_similarity E' f score name args = eval_similarity E f score name args"
proof (cases "\<exists>x y opt. args = ArgList (x # y # opt)")
  case True
  then obtain x y opt where "args = ArgList (x # y # opt)" by blast
  then show ?thesis unfolding eval_similarity.simps assms by (simp only: eval_similarity.simps assms)
next
  case False
  then show ?thesis by (cases "(E, f, score, name, args)" rule: eval_similarity.cases) auto
qed

lemma args_exprs_plain:
  "\<forall>a \<in> set as. \<exists>e. a = Unnamed (ArgExpr e) \<Longrightarrow> args_exprs (ArgList as) = plain_args (ArgList as)"
  by (induction as) auto

lemma call_at_another_moment:
  assumes E': "E' = E\<lparr>env_secs := a, env_random := b, env_subquery := S\<rparr>"
    and core: "\<not> core_nondeterministic (to_lowercase (env_unicode E) nm) (ArgList as)"
    and args: "\<forall>a \<in> set as. \<exists>e. a = Unnamed (ArgExpr e)"
    and f: "\<And>e. e \<in> set (plain_args (ArgList as)) \<Longrightarrow> f e = g e"
  shows "exec_function E' f nm (ArgList as) r m = exec_function E g nm (ArgList as) r m"
proof -
  note u = moment_fields [OF E']
  have "exec_function E' f nm (ArgList as) r m = exec_function E' g nm (ArgList as) r m"
    using f unfolding args_exprs_plain [OF args, symmetric] by (intro exec_function_cong refl)
  also have "\<dots> = exec_function E g nm (ArgList as) r m"
    unfolding exec_function_def u(1,2) similarity_at_another_moment [OF u(1)] Let_def
    using exec_std_function_at_another_moment [OF core refl] unfolding E' args_list_def by simp
  finally show ?thesis .
qed

lemma value_at_another_moment:
  assumes E': "E' = E\<lparr>env_secs := a, env_random := b, env_subquery := S\<rparr>"
  shows "\<forall>s r m. \<not> q s \<longrightarrow> S s r m = env_subquery E s r m \<Longrightarrow> U = env_unicode E \<Longrightarrow> looked_into U q e \<Longrightarrow> \<not> expr_has_nondeterministic U q e \<Longrightarrow>
    eval_expr E' r m e = eval_expr E r m e"
proof (induction U q e rule: looked_into.induct)
  case (1 U q i)
  then have "to_lowercase (env_unicode E) i \<notin> {''current_timestamp'', ''current_time'', ''current_date''}" by simp
  then show ?case by (simp add: eval_identifier_def moment_fields [OF E'] Let_def)
next
  case (2 U q ps)
  then show ?case unfolding eval_expr.simps eval_compound_def moment_fields [OF E'] by blast
next
  case (10 U q a es neg)
  then have "eval_in_list (eval_expr E' r m) v es = eval_in_list (eval_expr E r m) v es" for v
    by (intro eval_in_list_cong) auto
  with 10 show ?case by simp
next
  case (16 U q operand conds els)
  then have "eval_opt (eval_expr E' r m) operand = eval_opt (eval_expr E r m) operand"
    by (intro eval_opt_cong) auto
  moreover have "eval_expr E' r m c = eval_expr E r m c" "eval_expr E' r m v = eval_expr E r m v" if "(c, v) \<in> set conds" for c v
    using that 16(2) [OF that refl] 16(3) [OF that refl] 16(4-7) by fastforce+
  then have "eval_conds (eval_expr E' r m) op conds els = eval_conds (eval_expr E r m) op conds els" for op
    using 16(6) by (intro eval_conds_cong) auto
  ultimately show ?case by simp
next
  case (17 U q nm as mods)
  then show ?case
    unfolding eval_expr.simps by (intro call_at_another_moment [OF E']) auto
qed (simp_all add: moment_fields [OF E'] E')

text \<open>C26.  What the cache of subquery results may keep: an expression that the check does not report has the
  same value at any other moment of the statement, whatever the clock and the random numbers are then and
  whatever the reported subqueries answer.  This is for the expressions that the check walks completely;
  \<open>looked_into\<close> leaves out ELSE, the bounds of SUBSTRING, TRIM, SIMILAR TO, RLIKE, CEIL, FLOOR, named
  arguments and calls without an argument list, which it does not look into.\<close>

theorem unreported_is_timeless:
  assumes "other_moment q E E'" and "looked_into (env_unicode E) q e"
    and "\<not> expr_has_nondeterministic (env_unicode E) q e"
  shows "eval_expr E' r m e = eval_expr E r m e"
proof -
  from assms(1) obtain a b S where E': "E' = E\<lparr>env_secs := a, env_random := b, env_subquery := S\<rparr>"
    and "\<forall>s r m. \<not> q s \<longrightarrow> S s r m = env_subquery E s r m"
    by (auto simp: other_moment_def)
  from value_at_another_moment [OF E' this(2) refl assms(2,3)] show ?thesis .
qed

definition next_second :: eval_env where
  "next_second = no_env\<lparr>env_secs := 1, env_random := 5, env_subquery := env_subquery no_env\<rparr>"

definition upper_call :: sql_expr where
  "upper_call = Function ''upper'' (ArgList [Unnamed (ArgExpr (Value (SqlSingleQuoted ''x'')))]) plain_call"

theorem unreported_is_timeless_witness:
  "eval_expr next_second [] Map.empty upper_call = eval_expr no_env [] Map.empty upper_call"
proof (rule unreported_is_timeless)
  show "other_moment (\<lambda>_. False) no_env next_second" unfolding other_moment_def next_second_def by blast
  show "looked_into no_unicode (\<lambda>_. False) upper_call" by (simp add: upper_call_def)
  show "\<not> expr_has_nondeterministic no_unicode (\<lambda>_. False) upper_call"
    by (simp add: upper_call_def core_nondeterministic_def clock_calls_def to_lowercase_def is_ascii_def
        to_ascii_lowercase_def ascii_lower_def)
qed

text \<open>The check is no superset of what reads the clock: ELSE, and a keyword call it has not in its list.\<close>

definition else_random :: sql_expr where
  "else_random = Case None [] (Some (Function ''random'' (ArgList []) plain_call))"

definition localtimestamp :: sql_expr where
  "localtimestamp = Function ''localtimestamp'' NoArgs plain_call"

lemma else_is_missed:
  "\<not> expr_has_nondeterministic no_unicode q else_random"
  "eval_expr no_env r m else_random \<noteq> eval_expr next_second r m else_random"
proof -
  have n: "to_lowercase no_unicode ''random'' = ''random''" "env_unicode next_second = no_unicode"
    by (simp_all add: to_lowercase_def is_ascii_def to_ascii_lowercase_def ascii_lower_def next_second_def)
  show "\<not> expr_has_nondeterministic no_unicode q else_random" by (simp add: else_random_def)
  show "eval_expr no_env r m else_random \<noteq> eval_expr next_second r m else_random"
    by (simp add: else_random_def exec_function_def n exec_std_function_def args_list_def
        text_function_def null_function_def round_function_def clock_function_def session_function_def
        calendar_function_def embedded_function_def number_function_def search_function_def kind_function_def)
      (simp add: no_env_def next_second_def)
qed

end
