(* ===== verification/SqfLexer.thy ===== *)
theory SqfLexer
  imports DbValue
begin

text \<open>
  \<open>sqf/lexer.rs\<close>: the tokens of SQF expressions, their texts and the lexer, over the characters of the
  expression.
\<close>

section \<open>Tokens\<close>

datatype token =
    TokNumber rstr  \<comment> \<open>the text of a number\<close>
  | TokString rstr  \<comment> \<open>without its quotes\<close>
  | TokIdent rstr
  | TokTrue | TokFalse | TokNil
  | TokPlus | TokMinus | TokStar | TokSlash | TokPercent
  | TokEq | TokNeq | TokLt | TokGt | TokLe | TokGe
  | TokAnd | TokOr | TokNot
  | TokHash | TokSelect
  | TokLParen | TokRParen | TokLBracket | TokRBracket | TokComma

text \<open>\<open>Display\<close>.\<close>

fun token_display :: "token \<Rightarrow> rstr" where
  "token_display (TokNumber s) = s"
| "token_display (TokString s) = [CHR 34] @ s @ [CHR 34]"
| "token_display (TokIdent s) = s"
| "token_display TokTrue = ''true''"
| "token_display TokFalse = ''false''"
| "token_display TokNil = ''nil''"
| "token_display TokPlus = ''+''"
| "token_display TokMinus = ''-''"
| "token_display TokStar = ''*''"
| "token_display TokSlash = ''/''"
| "token_display TokPercent = ''%''"
| "token_display TokEq = ''==''"
| "token_display TokNeq = ''!=''"
| "token_display TokLt = ''<''"
| "token_display TokGt = ''>''"
| "token_display TokLe = ''<=''"
| "token_display TokGe = ''>=''"
| "token_display TokAnd = ''&&''"
| "token_display TokOr = ''||''"
| "token_display TokNot = ''!''"
| "token_display TokHash = ''#''"
| "token_display TokSelect = ''select''"
| "token_display TokLParen = ''(''"
| "token_display TokRParen = '')''"
| "token_display TokLBracket = ''[''"
| "token_display TokRBracket = '']''"
| "token_display TokComma = '',''"

section \<open>The lexer\<close>

text \<open>After the opening quote \<open>q\<close>: the content, where two quotes stand for one, and the rest; \<open>None\<close> when the
  string does not end.  In characters the quote is 34.\<close>

fun lex_string :: "'a \<Rightarrow> 'a list \<Rightarrow> ('a list \<times> 'a list) option" where
  "lex_string q [] = None"
| "lex_string q (c # cs) =
     (if c \<noteq> q then map_option (\<lambda>(s, rest). (c # s, rest)) (lex_string q cs)
      else case cs of
             [] \<Rightarrow> Some ([], [])
           | d # ds \<Rightarrow>
               (if d = q then map_option (\<lambda>(s, rest). (q # s, rest)) (lex_string q ds) else Some ([], cs)))"

definition keyword_or_ident :: "rstr \<Rightarrow> token" where
  "keyword_or_ident s =
     (if s = ''true'' then TokTrue else if s = ''false'' then TokFalse else if s = ''nil'' then TokNil
      else if s = ''select'' then TokSelect else TokIdent s)"

definition ident_char :: "unicode \<Rightarrow> uchar \<Rightarrow> bool" where
  "ident_char U c = (is_alphanumeric U c \<or> c = 95)"

definition ident_start :: "uchar \<Rightarrow> bool" where
  "ident_start c = (c = 95 \<or> is_ascii_alphabetic c)"

text \<open>Digits, then a point (46) and more digits.\<close>

definition lex_number :: "uchar list \<Rightarrow> uchar list \<times> uchar list" where
  "lex_number cs =
     (let ds = takeWhile is_ascii_digit cs; rest = dropWhile is_ascii_digit cs
      in case rest of
           c # frac \<Rightarrow>
             (if c = 46 then (ds @ 46 # takeWhile is_ascii_digit frac, dropWhile is_ascii_digit frac) else (ds, rest))
         | [] \<Rightarrow> (ds, rest))"

text \<open>Operators of two characters, by their codes, and of one.\<close>

definition double_operator :: "uchar \<Rightarrow> uchar \<Rightarrow> token option" where
  "double_operator c d =
     (if c = 124 \<and> d = 124 then Some TokOr
      else if c = 38 \<and> d = 38 then Some TokAnd
      else if c = 61 \<and> d = 61 then Some TokEq
      else if c = 33 \<and> d = 61 then Some TokNeq
      else if c = 60 \<and> d = 61 then Some TokLe
      else if c = 62 \<and> d = 61 then Some TokGe
      else None)"

definition single_operator :: "uchar \<Rightarrow> token option" where
  "single_operator c =
     (if c = 43 then Some TokPlus else if c = 45 then Some TokMinus
      else if c = 42 then Some TokStar else if c = 47 then Some TokSlash
      else if c = 37 then Some TokPercent else if c = 60 then Some TokLt
      else if c = 62 then Some TokGt else if c = 33 then Some TokNot
      else if c = 35 then Some TokHash else if c = 40 then Some TokLParen
      else if c = 41 then Some TokRParen else if c = 91 then Some TokLBracket
      else if c = 93 then Some TokRBracket else if c = 44 then Some TokComma
      else None)"

definition lex_operator :: "uchar \<Rightarrow> uchar list \<Rightarrow> (token \<times> uchar list) option" where
  "lex_operator c cs =
     (case (case cs of d # ds \<Rightarrow> map_option (\<lambda>t. (t, ds)) (double_operator c d) | [] \<Rightarrow> None) of
        Some r \<Rightarrow> Some r
      | None \<Rightarrow> map_option (\<lambda>t. (t, cs)) (single_operator c))"

text \<open>\<open>{:?}\<close> of a character.\<close>

definition char_debug :: "unicode \<Rightarrow> uchar \<Rightarrow> rstr" where
  "char_debug U c =
     [CHR 39] @
     (if c = 39 then [CHR 92, CHR 39] else if c = 34 then [CHR 34]
      else if c < 128 then escape_debug_char (char_of c) else uni_debug U (utf8 [c])) @
     [CHR 39]"

definition lex_token :: "unicode \<Rightarrow> uchar \<Rightarrow> uchar list \<Rightarrow> (token \<times> uchar list) sres" where
  "lex_token U c cs =
     (if c = 34
      then (case lex_string 34 cs of
              None \<Rightarrow> Inl ''unclosed SQF string literal''
            | Some (s, rest) \<Rightarrow> Inr (TokString (utf8 s), rest))
      else if ident_start c
      then Inr (keyword_or_ident (utf8 (c # takeWhile (ident_char U) cs)), dropWhile (ident_char U) cs)
      else if is_ascii_digit c
      then (case lex_number (c # cs) of (ds, rest) \<Rightarrow> Inr (TokNumber (utf8 ds), rest))
      else case lex_operator c cs of
             Some (t, rest) \<Rightarrow> Inr (t, rest)
           | None \<Rightarrow> Inl (''unexpected character in SQF expression: '' @ char_debug U c))"

text \<open>A token takes at least one character.\<close>

lemma lex_string_shorter: "lex_string q cs = Some (s, rest) \<Longrightarrow> length rest < length cs"
  by (induction q cs arbitrary: s rest rule: lex_string.induct)
    (auto split: if_splits list.splits, fastforce+)

lemma lex_number_shorter: "is_ascii_digit c \<Longrightarrow> lex_number (c # cs) = (ds, rest) \<Longrightarrow> length rest \<le> length cs"
  using length_dropWhile_le [of is_ascii_digit cs]
  by (auto simp: lex_number_def Let_def split: list.splits if_splits intro: order_trans [OF length_dropWhile_le])

lemma lex_operator_shorter: "lex_operator c cs = Some (t, rest) \<Longrightarrow> length rest \<le> length cs"
  by (auto simp: lex_operator_def split: option.splits list.splits)

lemma lex_token_shorter: "lex_token U c cs = Inr (t, rest) \<Longrightarrow> length rest \<le> length cs"
  by (auto simp: lex_token_def length_dropWhile_le split: if_splits option.splits prod.splits
      dest: lex_string_shorter lex_number_shorter lex_operator_shorter)

function lex_all :: "unicode \<Rightarrow> uchar list \<Rightarrow> token list sres" where
  "lex_all U [] = Inr []"
| "lex_all U (c # cs) =
     (if is_whitespace c then lex_all U cs
      else case lex_token U c cs of
             Inl e \<Rightarrow> Inl e
           | Inr (t, rest) \<Rightarrow> bind_res (lex_all U rest) (\<lambda>ts. Inr (t # ts)))"
  by pat_completeness auto
termination
  by (relation "measure (length \<circ> snd)") (auto simp: less_Suc_eq_le dest: lex_token_shorter)

definition tokenize :: "unicode \<Rightarrow> rstr \<Rightarrow> token list sres" where
  "tokenize U input = lex_all U (chars input)"

end
