(* ===== verification/SqfDatabase.thy ===== *)
theory SqfDatabase
  imports DbValue
begin

text \<open>
  \<open>sqf/database.rs\<close>: what is known of the SQF commands.  The data of the Arma 3 wiki come from a library and
  may be missing; the commands implemented here are added with the metadata of a fixed table.
\<close>

datatype arity = ArNular | ArUnary | ArBinary

datatype return_type = RetNumber | RetString | RetBoolean | RetArray | RetNothing | RetOther

text \<open>The types of the wiki that the code matches on.\<close>

datatype wiki_value =
    WNumber | WNumberEnum | WNumberRange
  | WString | WStringEnum | WStructuredText
  | WBoolean
  | WArraySized | WArrayUnknown | WArrayUnsized | WArrayEmpty | WArrayDate | WArrayColor | WArrayColorRgb
  | WArrayColorRgba | WArrayEdenEntities
  | WPosition | WPosition2d | WPosition3d | WPosition3dASL | WPosition3DASLW | WPosition3dATL | WPosition3dAGL
  | WPosition3dAGLS | WPosition3dRelative
  | WVector | WVector2d | WVector3d | WTurretPath | WUnitLoadoutArray
  | WNothing | WAnything
  | WOtherValue

definition from_wiki_value :: "wiki_value \<Rightarrow> return_type" where
  "from_wiki_value v =
     (if v \<in> {WNumber, WNumberEnum, WNumberRange} then RetNumber
      else if v \<in> {WString, WStringEnum, WStructuredText} then RetString
      else if v = WBoolean then RetBoolean
      else if v = WNothing then RetNothing
      else if v \<in> {WAnything, WOtherValue} then RetOther
      else RetArray)"

definition is_implementable :: "return_type \<Rightarrow> bool" where
  "is_implementable r = (r \<noteq> RetOther)"

record cmd_info =
  ci_arity :: arity
  ci_ret :: return_type
  ci_groups :: "rstr list"

text \<open>A command of the wiki has groups and syntaxes.\<close>

record wiki =
  wk_commands :: "(rstr \<times> rstr list \<times> (arity \<times> wiki_value) list) list"
  wk_updated :: bool
  wk_major :: u8
  wk_minor :: u8

record wiki_meta =
  wm_source :: rstr
  wm_major :: u8
  wm_minor :: u8
  wm_count :: nat

text \<open>The syntax that is kept: nular before unary before binary, and a known return type before an unknown
  one, in the order of the wiki.\<close>

fun better_arity :: "arity \<Rightarrow> arity \<Rightarrow> bool" where
  "better_arity ArBinary ArUnary = True"
| "better_arity ArBinary ArNular = True"
| "better_arity ArUnary ArNular = True"
| "better_arity _ _ = False"

fun pick_syntax :: "(arity \<times> return_type) option \<Rightarrow> arity \<times> wiki_value \<Rightarrow> (arity \<times> return_type) option" where
  "pick_syntax None (a, v) = Some (a, from_wiki_value v)"
| "pick_syntax (Some (ea, er)) (a, v) =
     (if better_arity ea a \<or> (er = RetOther \<and> from_wiki_value v \<noteq> RetOther)
      then Some (a, from_wiki_value v) else Some (ea, er))"

definition best_syntax :: "(arity \<times> wiki_value) list \<Rightarrow> (arity \<times> return_type) option" where
  "best_syntax syntaxes = foldl pick_syntax None syntaxes"

definition wiki_command :: "(rstr \<rightharpoonup> cmd_info) \<Rightarrow> rstr \<times> rstr list \<times> (arity \<times> wiki_value) list \<Rightarrow> (rstr \<rightharpoonup> cmd_info)" where
  "wiki_command m c =
     (case c of (name, groups, syntaxes) \<Rightarrow>
        case best_syntax syntaxes of
          None \<Rightarrow> m
        | Some (a, r) \<Rightarrow> m(name \<mapsto> \<lparr>ci_arity = a, ci_ret = r, ci_groups = groups\<rparr>))"

text \<open>The commands with an implementation, and the table of their metadata.\<close>

definition native_names :: "rstr list" where
  "native_names = [
     ''pi'', ''true'', ''false'', ''nil'', ''sqrt'', ''sin'', ''cos'', ''tan'', ''abs'', ''exp'', ''ln'',
     ''log'', ''log10'', ''asin'', ''acos'', ''atan'', ''deg'', ''rad'', ''cosec'', ''sec'', ''cot'',
     ''round'', ''floor'', ''ceil'', ''trunc'', ''sign'', ''random'', ''min'', ''max'', ''atan2'', ''clamp'',
     ''str'', ''to_string'', ''toupper'', ''to_upper'', ''tolower'', ''to_lower'', ''typename'', ''type_name'',
     ''count'', ''parsenumber'', ''parse_number'', ''trim'', ''find'', ''replace'', ''isnil'', ''is_null'',
     ''isequalto'', ''is_equal_to'', ''select'', ''in'', ''pushback'', ''deleteat'', ''vectormagnitude'',
     ''hint'', ''hintc'']"

definition native_meta :: "(rstr \<times> arity \<times> return_type) list" where
  "native_meta = [
     (''pi'', ArNular, RetNumber), (''true'', ArNular, RetBoolean), (''false'', ArNular, RetBoolean),
     (''nil'', ArNular, RetNothing), (''abs'', ArUnary, RetNumber), (''acos'', ArUnary, RetNumber),
     (''asin'', ArUnary, RetNumber), (''atan'', ArUnary, RetNumber), (''ceil'', ArUnary, RetNumber),
     (''cos'', ArUnary, RetNumber), (''deg'', ArUnary, RetNumber), (''exp'', ArUnary, RetNumber),
     (''floor'', ArUnary, RetNumber), (''ln'', ArUnary, RetNumber), (''log'', ArUnary, RetNumber),
     (''log10'', ArUnary, RetNumber), (''rad'', ArUnary, RetNumber), (''round'', ArUnary, RetNumber),
     (''sin'', ArUnary, RetNumber), (''sqrt'', ArUnary, RetNumber), (''tan'', ArUnary, RetNumber),
     (''cosec'', ArUnary, RetNumber), (''sec'', ArUnary, RetNumber), (''cot'', ArUnary, RetNumber),
     (''str'', ArUnary, RetString), (''to_string'', ArUnary, RetString), (''toupper'', ArUnary, RetString),
     (''to_upper'', ArUnary, RetString), (''tolower'', ArUnary, RetString), (''to_lower'', ArUnary, RetString),
     (''trim'', ArUnary, RetString), (''typename'', ArUnary, RetString), (''type_name'', ArUnary, RetString),
     (''count'', ArUnary, RetNumber), (''parsenumber'', ArUnary, RetNumber),
     (''parse_number'', ArUnary, RetNumber), (''random'', ArUnary, RetNumber), (''trunc'', ArUnary, RetNumber),
     (''sign'', ArUnary, RetNumber), (''hint'', ArUnary, RetString), (''hintc'', ArUnary, RetString),
     (''vectormagnitude'', ArUnary, RetNumber), (''isnil'', ArUnary, RetBoolean),
     (''is_null'', ArUnary, RetBoolean), (''min'', ArBinary, RetNumber), (''max'', ArBinary, RetNumber),
     (''atan2'', ArBinary, RetNumber), (''clamp'', ArBinary, RetNumber), (''find'', ArBinary, RetNumber),
     (''select'', ArBinary, RetOther), (''in'', ArBinary, RetBoolean), (''replace'', ArBinary, RetString),
     (''isequalto'', ArBinary, RetBoolean), (''is_equal_to'', ArBinary, RetBoolean),
     (''pushback'', ArBinary, RetArray), (''deleteat'', ArBinary, RetArray)]"

definition native_info :: "rstr \<Rightarrow> cmd_info" where
  "native_info name =
     (case map_of native_meta name of
        Some (a, r) \<Rightarrow> \<lparr>ci_arity = a, ci_ret = r, ci_groups = [''Native'']\<rparr>
      | None \<Rightarrow> \<lparr>ci_arity = ArUnary, ci_ret = RetOther, ci_groups = [''Native'']\<rparr>)"

definition add_native :: "(rstr \<rightharpoonup> cmd_info) \<Rightarrow> rstr \<Rightarrow> (rstr \<rightharpoonup> cmd_info)" where
  "add_native m name = (if m name = None then m(name \<mapsto> native_info name) else m)"

definition load_commands :: "wiki option \<Rightarrow> rstr \<rightharpoonup> cmd_info" where
  "load_commands w =
     foldl add_native (case w of Some k \<Rightarrow> foldl wiki_command Map.empty (wk_commands k) | None \<Rightarrow> Map.empty) native_names"

definition load_meta :: "wiki option \<Rightarrow> wiki_meta" where
  "load_meta w =
     (case w of
        Some k \<Rightarrow> \<lparr>wm_source = (if wk_updated k then ''git'' else ''cache''), wm_major = wk_major k, wm_minor = wk_minor k,
            wm_count = length (wk_commands k)\<rparr>
      | None \<Rightarrow> \<lparr>wm_source = ''static'', wm_major = 0, wm_minor = 0, wm_count = 0\<rparr>)"

text \<open>\<open>lookup\<close>: the arity.\<close>

definition lookup_arity :: "(rstr \<rightharpoonup> cmd_info) \<Rightarrow> rstr \<Rightarrow> arity option" where
  "lookup_arity db name = map_option ci_arity (db name)"

lemma add_native_fold: "foldl add_native m names n =
    (case m n of Some i \<Rightarrow> Some i | None \<Rightarrow> if n \<in> set names then Some (native_info n) else None)"
  by (induction names arbitrary: m) (auto simp: add_native_def split: option.splits)

text \<open>Without the wiki every implemented command has its own metadata.\<close>

lemma offline_commands: "load_commands None n = (if n \<in> set native_names then Some (native_info n) else None)"
  by (simp add: load_commands_def add_native_fold)

end
