(* ===== verification/SqfParser.thy ===== *)
theory SqfParser
  imports SqfLexer SqfDatabase
begin

text \<open>
  \<open>sqf/parser.rs\<close>: the Pratt parser.  The parser's position is the list of the tokens that are left.  Its
  recursion has fuel, \<open>None\<close> when that runs out; \<open>parse\<close> gives it twice the number of tokens and two.
\<close>

datatype sqf_op =
  OpAdd | OpSub | OpMul | OpDiv | OpMod | OpEqual | OpUnequal | OpLess | OpMore | OpAtMost | OpAtLeast | OpConj | OpDisj

datatype sqf_unary = NegOp | NotOp

datatype sqf_expr =
    SInt i64
  | SFloat f64
  | SString rstr
  | SBool bool
  | SNull
  | SVariable rstr
  | SCommand rstr "sqf_expr list"
  | SBinary sqf_op sqf_expr sqf_expr
  | SUnary sqf_unary sqf_expr

fun precedence :: "token \<Rightarrow> nat" where
  "precedence TokOr = 1"
| "precedence TokAnd = 2"
| "precedence TokEq = 3"
| "precedence TokNeq = 3"
| "precedence TokLt = 3"
| "precedence TokGt = 3"
| "precedence TokLe = 3"
| "precedence TokGe = 3"
| "precedence TokPlus = 4"
| "precedence TokMinus = 4"
| "precedence TokStar = 5"
| "precedence TokSlash = 5"
| "precedence TokPercent = 5"
| "precedence _ = 0"

definition is_binary_op :: "token \<Rightarrow> bool" where
  "is_binary_op t =
     (t \<in> {TokPlus, TokMinus, TokStar, TokSlash, TokPercent, TokEq, TokNeq, TokLt, TokGt, TokLe, TokGe, TokAnd, TokOr})"

fun op_from_token :: "token \<Rightarrow> sqf_op option" where
  "op_from_token TokPlus = Some OpAdd"
| "op_from_token TokMinus = Some OpSub"
| "op_from_token TokStar = Some OpMul"
| "op_from_token TokSlash = Some OpDiv"
| "op_from_token TokPercent = Some OpMod"
| "op_from_token TokEq = Some OpEqual"
| "op_from_token TokNeq = Some OpUnequal"
| "op_from_token TokLt = Some OpLess"
| "op_from_token TokGt = Some OpMore"
| "op_from_token TokLe = Some OpAtMost"
| "op_from_token TokGe = Some OpAtLeast"
| "op_from_token TokAnd = Some OpConj"
| "op_from_token TokOr = Some OpDisj"
| "op_from_token _ = None"

type_synonym commands = "rstr \<Rightarrow> arity option"

text \<open>The name is looked up as it is written.\<close>

definition is_binary_cmd :: "commands \<Rightarrow> token \<Rightarrow> bool" where
  "is_binary_cmd L t = (case t of TokIdent name \<Rightarrow> L name = Some ArBinary | _ \<Rightarrow> False)"

text \<open>How tightly a token binds as an infix; commands bind least.\<close>

definition infix_prec :: "commands \<Rightarrow> token \<Rightarrow> nat option" where
  "infix_prec L t =
     (if is_binary_cmd L t then Some 0 else if is_binary_op t then Some (precedence t) else None)"

type_synonym parsed = "(sqf_expr \<times> token list) sres option"

definition pf_bind :: "parsed \<Rightarrow> (sqf_expr \<Rightarrow> token list \<Rightarrow> parsed) \<Rightarrow> parsed" where
  "pf_bind r f = (case r of None \<Rightarrow> None | Some (Inl e) \<Rightarrow> Some (Inl e) | Some (Inr (x, ts)) \<Rightarrow> f x ts)"

lemma pf_bind_simps [simp]:
  "pf_bind None f = None" "pf_bind (Some (Inl e)) f = Some (Inl e)" "pf_bind (Some (Inr (x, ts))) f = f x ts"
  by (simp_all add: pf_bind_def)

lemma pf_bind_Inr_iff: "pf_bind r f = Some (Inr y) \<longleftrightarrow> (\<exists>x ts. r = Some (Inr (x, ts)) \<and> f x ts = Some (Inr y))"
  by (auto simp: pf_bind_def split: option.splits sum.splits)

abbreviation pf_ret :: "sqf_expr \<Rightarrow> token list \<Rightarrow> parsed" where "pf_ret e ts \<equiv> Some (Inr (e, ts))"
abbreviation pf_err :: "rstr \<Rightarrow> parsed" where "pf_err e \<equiv> Some (Inl e)"

definition number_expr :: "rstr \<Rightarrow> sqf_expr sres" where
  "number_expr s =
     (if CHR ''.'' \<in> set s
      then (case parse_f64 s of Some f \<Rightarrow> Inr (SFloat f) | None \<Rightarrow> Inl ''bad number: invalid float literal'')
      else case parse_i64 s of
             Some n \<Rightarrow> Inr (SInt n)
           | None \<Rightarrow> Inl ''bad number: number too large to fit in target type'')"

definition expect_rparen :: "sqf_expr \<Rightarrow> token list \<Rightarrow> parsed" where
  "expect_rparen e ts =
     (case ts of
        [] \<Rightarrow> pf_err ''expected ), got end of input''
      | t # rest \<Rightarrow> (if t = TokRParen then pf_ret e rest else pf_err (''expected ), got '' @ token_display t)))"

text \<open>\<open>parse_bp\<close>, its loop \<open>parse_infix\<close> over the operators that bind at least as tightly as \<open>m\<close>, and
  \<open>parse_prefix\<close>.\<close>

fun parse_bp :: "commands \<Rightarrow> nat \<Rightarrow> nat \<Rightarrow> token list \<Rightarrow> parsed"
  and parse_infix :: "commands \<Rightarrow> nat \<Rightarrow> nat \<Rightarrow> sqf_expr \<Rightarrow> token list \<Rightarrow> parsed"
  and parse_prefix :: "commands \<Rightarrow> nat \<Rightarrow> token list \<Rightarrow> parsed" where
  "parse_bp L 0 m ts = None"
| "parse_bp L (Suc n) m ts = pf_bind (parse_prefix L n ts) (\<lambda>lhs rest. parse_infix L n m lhs rest)"
| "parse_infix L 0 m lhs ts = None"
| "parse_infix L (Suc n) m lhs ts =
     (case ts of
        [] \<Rightarrow> pf_ret lhs []
      | t # rest \<Rightarrow>
          (case infix_prec L t of
             None \<Rightarrow> pf_ret lhs ts
           | Some p \<Rightarrow>
               (if p < m then pf_ret lhs ts
                else case t of
                  TokIdent name \<Rightarrow>
                    pf_bind (parse_bp L n 0 rest) (\<lambda>rhs ts'. parse_infix L n m (SCommand (to_ascii_lowercase name) [lhs, rhs]) ts')
                | _ \<Rightarrow>
                    pf_bind (parse_bp L n (p + 1) rest) (\<lambda>rhs ts'.
                      case op_from_token t of
                        Some opr \<Rightarrow> parse_infix L n m (SBinary opr lhs rhs) ts'
                      | None \<Rightarrow> pf_err (''unknown operator: '' @ token_display t)))))"
| "parse_prefix L 0 ts = None"
| "parse_prefix L (Suc n) ts =
     (case ts of
        [] \<Rightarrow> pf_err ''unexpected end of SQF expression''
      | t # rest \<Rightarrow>
          (case t of
             TokNumber s \<Rightarrow> Some (bind_res (number_expr s) (\<lambda>e. Inr (e, rest)))
           | TokString s \<Rightarrow> pf_ret (SString s) rest
           | TokIdent name \<Rightarrow>
               (if starts_with name ''_'' then pf_ret (SVariable name) rest
                else let lower = to_ascii_lowercase name
                     in case L lower of
                          None \<Rightarrow> pf_ret (SVariable name) rest
                        | Some ArNular \<Rightarrow> pf_ret (SCommand lower []) rest
                        | Some ArUnary \<Rightarrow> pf_bind (parse_bp L n 7 rest) (\<lambda>a. pf_ret (SCommand lower [a]))
                        | Some ArBinary \<Rightarrow>
                            pf_err (''binary command '' @ [CHR 39] @ lower @ [CHR 39] @
                              '' used without left operand at expression start''))
           | TokTrue \<Rightarrow> pf_ret (SBool True) rest
           | TokFalse \<Rightarrow> pf_ret (SBool False) rest
           | TokNil \<Rightarrow> pf_ret SNull rest
           | TokMinus \<Rightarrow> pf_bind (parse_bp L n 6 rest) (\<lambda>e. pf_ret (SUnary NegOp e))
           | TokNot \<Rightarrow> pf_bind (parse_bp L n 6 rest) (\<lambda>e. pf_ret (SUnary NotOp e))
           | TokLParen \<Rightarrow> pf_bind (parse_bp L n 0 rest) expect_rparen
           | _ \<Rightarrow> pf_err (''unexpected token in SQF expression: '' @ token_display t)))"

definition parse :: "commands \<Rightarrow> token list \<Rightarrow> sqf_expr sres option" where
  "parse L ts =
     (case parse_bp L (2 * length ts + 2) 0 ts of
        None \<Rightarrow> None
      | Some (Inl e) \<Rightarrow> Some (Inl e)
      | Some (Inr (e, rest)) \<Rightarrow>
          (if rest = [] then Some (Inr e)
           else Some (Inl (''trailing tokens in SQF expression: '' @ join '' '' (map token_display rest)))))"

end
