(* ===== verification/SqfEval.thy ===== *)
theory SqfEval
  imports SqfParser ScalarFunctions
begin

text \<open>
  \<open>sqf/eval.rs\<close>, \<open>sqf/commands.rs\<close> and its modules, and \<open>eval_sqf\<close>: the values of SQF expressions.  The
  state is the random generator's cell; a panic is \<open>None\<close>.  The trigonometric functions, exponential and
  logarithms of the math library are an argument, like the clock that seeds the generator and the macro
  preprocessor, which is a library.
\<close>

section \<open>Operators\<close>

fun value_str :: "db_value \<Rightarrow> rstr" where
  "value_str DNull = ''nil''"
| "value_str (DBool b) = bool_to_string b"
| "value_str (DInt n) = i64_to_string n"
| "value_str (DFloat f) = f64_to_string f"
| "value_str (DString s) = s"
| "value_str (DStrings v) = join '','' v"
| "value_str (DFloats v) = join '','' (map f64_to_string v)"

type_synonym sqf_value = "db_value sres panicking"

abbreviation sok :: "db_value \<Rightarrow> sqf_value" where "sok v \<equiv> Some (Inr v)"
abbreviation serr :: "rstr \<Rightarrow> sqf_value" where "serr e \<equiv> Some (Inl e)"

definition type_mismatch :: "db_value \<Rightarrow> db_value \<Rightarrow> rstr" where
  "type_mismatch l r = ''type mismatch: '' @ db_display l @ '' op '' @ db_display r"

text \<open>Sums, products and differences wrap; an integer division panics for 0 and for the minimum by \<open>-1\<close>.\<close>

definition sqf_arith :: "(i64 \<Rightarrow> i64 \<Rightarrow> i64 option) \<Rightarrow> (f64 \<Rightarrow> f64 \<Rightarrow> f64) \<Rightarrow> db_value \<Rightarrow> db_value \<Rightarrow> sqf_value" where
  "sqf_arith int_op float_op l r =
     (if l = DNull \<or> r = DNull then sok DNull
      else case (l, r) of
             (DInt a, DInt b) \<Rightarrow> map_option (\<lambda>n. Inr (DInt n)) (int_op a b)
           | _ \<Rightarrow> (case (to_f64 l, to_f64 r) of
                     (Some a, Some b) \<Rightarrow> sok (DFloat (float_op a b))
                   | _ \<Rightarrow> serr (type_mismatch l r)))"

definition i64_rem :: "i64 \<Rightarrow> i64 \<Rightarrow> i64 option" where
  "i64_rem x y =
     (if y = 0 \<or> (sint x = i64_min \<and> sint y = -1) then None else Some (word_of_int (sint x smod sint y)))"

definition sqf_arith_int :: "(i64 \<Rightarrow> i64 \<Rightarrow> i64 option) \<Rightarrow> db_value \<Rightarrow> db_value \<Rightarrow> sqf_value" where
  "sqf_arith_int int_op l r =
     (if l = DNull \<or> r = DNull then sok DNull
      else case (l, r) of
             (DInt a, DInt b) \<Rightarrow> map_option (\<lambda>n. Inr (DInt n)) (int_op a b)
           | _ \<Rightarrow> serr (type_mismatch l r))"

definition sqf_add :: "db_value \<Rightarrow> db_value \<Rightarrow> sqf_value" where
  "sqf_add l r =
     (if is_text l \<or> is_text r then sok (DString (value_str l @ value_str r))
      else sqf_arith (\<lambda>a b. Some (a + b)) f64_add l r)"

text \<open>Numbers compare as floats, everything else as texts; what is not ordered is equal.\<close>

definition sqf_cmp :: "db_value \<Rightarrow> db_value \<Rightarrow> (ordering \<Rightarrow> bool) \<Rightarrow> db_value" where
  "sqf_cmp l r p =
     (if l = DNull \<or> r = DNull then DBool False
      else DBool (p (case (to_f64 l, to_f64 r) of
             (Some a, Some b) \<Rightarrow> (case f64_partial_cmp a b of Some c \<Rightarrow> c | None \<Rightarrow> Equal)
           | _ \<Rightarrow> cmp (value_str l) (value_str r))))"

fun to_bool :: "db_value \<Rightarrow> bool" where
  "to_bool (DBool b) = b"
| "to_bool (DInt n) = (n \<noteq> 0)"
| "to_bool (DFloat f) = (\<not> f64_eq f f64_zero)"
| "to_bool DNull = False"
| "to_bool (DString s) = (s \<noteq> [])"
| "to_bool _ = True"

fun apply_binary :: "sqf_op \<Rightarrow> db_value \<Rightarrow> db_value \<Rightarrow> sqf_value" where
  "apply_binary OpAdd l r = sqf_add l r"
| "apply_binary OpSub l r = sqf_arith (\<lambda>a b. Some (a - b)) f64_sub l r"
| "apply_binary OpMul l r = sqf_arith (\<lambda>a b. Some (a * b)) f64_mul l r"
| "apply_binary OpDiv l r = sqf_arith i64_div f64_div l r"
| "apply_binary OpMod l r = sqf_arith_int i64_rem l r"
| "apply_binary OpEqual l r = sok (sqf_cmp l r (\<lambda>c. c = Equal))"
| "apply_binary OpUnequal l r = sok (sqf_cmp l r (\<lambda>c. c \<noteq> Equal))"
| "apply_binary OpLess l r = sok (sqf_cmp l r (\<lambda>c. c = Less))"
| "apply_binary OpMore l r = sok (sqf_cmp l r (\<lambda>c. c = Greater))"
| "apply_binary OpAtMost l r = sok (sqf_cmp l r (\<lambda>c. c \<noteq> Greater))"
| "apply_binary OpAtLeast l r = sok (sqf_cmp l r (\<lambda>c. c \<noteq> Less))"
| "apply_binary OpConj l r = sok (DBool (to_bool l \<and> to_bool r))"
| "apply_binary OpDisj l r = sok (DBool (to_bool l \<or> to_bool r))"

fun apply_unary :: "sqf_unary \<Rightarrow> db_value \<Rightarrow> sqf_value" where
  "apply_unary NegOp r =
     (case r of
        DInt n \<Rightarrow> sok (DInt (- n)) | DFloat f \<Rightarrow> sok (DFloat (f64_neg f)) | _ \<Rightarrow> serr (''cannot negate '' @ db_display r))"
| "apply_unary NotOp r =
     (case r of
        DBool b \<Rightarrow> sok (DBool (\<not> b)) | DInt n \<Rightarrow> sok (DBool (n = 0)) | _ \<Rightarrow> serr (''cannot apply ! to '' @ db_display r))"

section \<open>Arguments of commands\<close>

text \<open>The functions of the math library that have no exact definition here.\<close>

record math_lib =
  ml_sin :: "f64 \<Rightarrow> f64"
  ml_cos :: "f64 \<Rightarrow> f64"
  ml_tan :: "f64 \<Rightarrow> f64"
  ml_exp :: "f64 \<Rightarrow> f64"
  ml_ln :: "f64 \<Rightarrow> f64"
  ml_log10 :: "f64 \<Rightarrow> f64"
  ml_asin :: "f64 \<Rightarrow> f64"
  ml_acos :: "f64 \<Rightarrow> f64"
  ml_atan :: "f64 \<Rightarrow> f64"
  ml_atan2 :: "f64 \<Rightarrow> f64 \<Rightarrow> f64"
  ml_degrees :: "f64 \<Rightarrow> f64"
  ml_radians :: "f64 \<Rightarrow> f64"

definition need :: "nat \<Rightarrow> db_value list \<Rightarrow> rstr \<Rightarrow> sqf_value \<Rightarrow> sqf_value" where
  "need n args message r = (if length args < n then serr message else r)"

definition numeric_argument :: "db_value \<Rightarrow> (f64 \<Rightarrow> sqf_value) \<Rightarrow> sqf_value" where
  "numeric_argument v f =
     (case v of
        DInt n \<Rightarrow> f (i64_as_f64 n) | DFloat x \<Rightarrow> f x | DNull \<Rightarrow> sok DNull
      | _ \<Rightarrow> serr (''numeric argument expected, got '' @ db_display v))"

definition unary_math :: "(f64 \<Rightarrow> f64) \<Rightarrow> db_value list \<Rightarrow> sqf_value" where
  "unary_math f args =
     need 1 args ''command requires 1 argument'' (numeric_argument (args ! 0) (\<lambda>x. sok (DFloat (f x))))"

definition unary_math_int :: "(f64 \<Rightarrow> f64) \<Rightarrow> db_value list \<Rightarrow> sqf_value" where
  "unary_math_int f args =
     need 1 args ''command requires 1 argument'' (numeric_argument (args ! 0) (\<lambda>x. sok (DInt (f64_as_i64 (f x)))))"

text \<open>\<open>to_f64(..).ok_or_else(..)?\<close>.\<close>

definition numeric :: "db_value \<Rightarrow> (f64 \<Rightarrow> sqf_value) \<Rightarrow> sqf_value" where
  "numeric v f = (case to_f64 v of Some x \<Rightarrow> f x | None \<Rightarrow> serr (''numeric expected, got '' @ db_display v))"

definition binary_math :: "(f64 \<Rightarrow> f64 \<Rightarrow> f64) \<Rightarrow> db_value list \<Rightarrow> sqf_value" where
  "binary_math f args =
     need 2 args ''command requires 2 arguments''
       (numeric (args ! 0) (\<lambda>a. numeric (args ! 1) (\<lambda>b. sok (DFloat (f a b)))))"

section \<open>Numbers\<close>

definition pi_bits :: f64 where
  "pi_bits = 0x400921FB54442D18"

definition reciprocal :: "(f64 \<Rightarrow> f64) \<Rightarrow> f64 \<Rightarrow> f64" where
  "reciprocal f x = f64_div (f64_of_int 1) (f x)"

text \<open>\<open>f64::signum\<close> has the sign of zeros too.\<close>

definition f64_signum :: "f64 \<Rightarrow> f64" where
  "f64_signum x = (if f64_is_nan x then x else f64_of_int (if f64_sign x then - 1 else 1))"

text \<open>\<open>f64::min\<close> and \<open>f64::max\<close> prefer the other side to a NaN.\<close>

definition f64_min :: "f64 \<Rightarrow> f64 \<Rightarrow> f64" where
  "f64_min a b = (if f64_is_nan a then b else if f64_is_nan b then a else if f64_lt b a then b else a)"

definition f64_max :: "f64 \<Rightarrow> f64 \<Rightarrow> f64" where
  "f64_max a b = (if f64_is_nan a then b else if f64_is_nan b then a else if f64_lt a b then b else a)"

definition cmd_trunc :: "db_value list \<Rightarrow> sqf_value" where
  "cmd_trunc args =
     need 1 args ''trunc requires 1 argument''
       (case args ! 0 of
          DInt n \<Rightarrow> sok (DInt n) | DFloat f \<Rightarrow> sok (DInt (f64_as_i64 (f64_trunc f))) | DNull \<Rightarrow> sok DNull
        | v \<Rightarrow> serr (''numeric expected, got '' @ db_display v))"

definition cmd_sign :: "db_value list \<Rightarrow> sqf_value" where
  "cmd_sign args =
     need 1 args ''sign requires 1 argument''
       (case args ! 0 of
          DInt n \<Rightarrow> sok (DInt (word_of_int (sgn (sint n)))) | DFloat f \<Rightarrow> sok (DInt (f64_as_i64 (f64_signum f)))
        | DNull \<Rightarrow> sok DNull | v \<Rightarrow> serr (''numeric expected, got '' @ db_display v))"

definition cmd_min :: "db_value list \<Rightarrow> sqf_value" where
  "cmd_min args =
     need 2 args ''min requires 2 arguments''
       (case (args ! 0, args ! 1) of
          (DInt a, DInt b) \<Rightarrow> sok (DInt (if sint b < sint a then b else a))
        | (v, w) \<Rightarrow> numeric v (\<lambda>a. numeric w (\<lambda>b. sok (DFloat (f64_min a b)))))"

definition cmd_max :: "db_value list \<Rightarrow> sqf_value" where
  "cmd_max args =
     need 2 args ''max requires 2 arguments''
       (case (args ! 0, args ! 1) of
          (DInt a, DInt b) \<Rightarrow> sok (DInt (if sint a \<le> sint b then b else a))
        | (v, w) \<Rightarrow> numeric v (\<lambda>a. numeric w (\<lambda>b. sok (DFloat (f64_max a b)))))"

text \<open>\<open>f64::clamp\<close> panics unless the lower bound is at most the upper one.\<close>

definition f64_clamp :: "f64 \<Rightarrow> f64 \<Rightarrow> f64 \<Rightarrow> f64 option" where
  "f64_clamp x lo hi =
     (if f64_ge hi lo then Some (if f64_lt x lo then lo else if f64_lt hi x then hi else x) else None)"

definition cmd_clamp :: "db_value list \<Rightarrow> sqf_value" where
  "cmd_clamp args =
     need 3 args ''clamp requires 3 arguments''
       (numeric (args ! 0) (\<lambda>x. numeric (args ! 1) (\<lambda>lo. numeric (args ! 2) (\<lambda>hi.
          map_option (\<lambda>y. Inr (DFloat y)) (f64_clamp x lo hi)))))"

section \<open>Texts\<close>

definition cmd_str :: "db_value list \<Rightarrow> sqf_value" where
  "cmd_str args = need 1 args ''str requires 1 argument'' (sok (DString (value_str (args ! 0))))"

definition cmd_toupper :: "unicode \<Rightarrow> db_value list \<Rightarrow> sqf_value" where
  "cmd_toupper U args =
     need 1 args ''toUpper requires 1 argument'' (sok (DString (to_uppercase U (value_str (args ! 0)))))"

definition cmd_tolower :: "unicode \<Rightarrow> db_value list \<Rightarrow> sqf_value" where
  "cmd_tolower U args =
     need 1 args ''toLower requires 1 argument'' (sok (DString (to_lowercase U (value_str (args ! 0)))))"

fun sqf_type_name :: "db_value \<Rightarrow> rstr" where
  "sqf_type_name DNull = ''NULL''"
| "sqf_type_name (DBool _) = ''BOOL''"
| "sqf_type_name (DInt _) = ''SCALAR''"
| "sqf_type_name (DFloat _) = ''SCALAR''"
| "sqf_type_name (DString _) = ''STRING''"
| "sqf_type_name (DStrings _) = ''ARRAY''"
| "sqf_type_name (DFloats _) = ''ARRAY''"

definition cmd_typename :: "db_value list \<Rightarrow> sqf_value" where
  "cmd_typename args = need 1 args ''typeName requires 1 argument'' (sok (DString (sqf_type_name (args ! 0))))"

text \<open>A text counts its bytes.\<close>

fun count_of :: "db_value \<Rightarrow> nat" where
  "count_of (DString s) = length s"
| "count_of (DStrings v) = length v"
| "count_of (DFloats v) = length v"
| "count_of _ = 0"

definition cmd_count :: "db_value list \<Rightarrow> sqf_value" where
  "cmd_count args = need 1 args ''count requires 1 argument'' (sok (DInt (of_nat (count_of (args ! 0)))))"

text \<open>A number that an integer holds exactly becomes that integer; no number at all is 0.\<close>

definition parsed_number :: "rstr \<Rightarrow> db_value" where
  "parsed_number s =
     (case parse_f64 (trim s) of
        None \<Rightarrow> DInt 0
      | Some n \<Rightarrow>
          (if f64_is_integral n \<and> f64_eq (i64_as_f64 (f64_as_i64 n)) n then DInt (f64_as_i64 n) else DFloat n))"

definition cmd_parsenumber :: "db_value list \<Rightarrow> sqf_value" where
  "cmd_parsenumber args =
     need 1 args ''parseNumber requires 1 argument'' (sok (parsed_number (value_str (args ! 0))))"

definition cmd_trim :: "db_value list \<Rightarrow> sqf_value" where
  "cmd_trim args = need 1 args ''trim requires 1 argument'' (sok (DString (trim (value_str (args ! 0)))))"

definition cmd_replace :: "db_value list \<Rightarrow> sqf_value" where
  "cmd_replace args =
     need 2 args ''replace requires 2 arguments''
       (sok (DString (replace_text (value_str (args ! 0)) (value_str (args ! 1))
          (if 3 \<le> length args then value_str (args ! 2) else []))))"

definition cmd_find :: "db_value list \<Rightarrow> sqf_value" where
  "cmd_find args =
     need 2 args ''find requires 2 arguments''
       (sok (DInt (case find_sub (value_str (args ! 0)) (value_str (args ! 1)) of Some i \<Rightarrow> of_nat i | None \<Rightarrow> - 1)))"

section \<open>Arrays\<close>

definition index_argument :: "db_value \<Rightarrow> (i64 \<Rightarrow> sqf_value) \<Rightarrow> sqf_value" where
  "index_argument v f =
     (case v of DInt i \<Rightarrow> f i | _ \<Rightarrow> serr (''numeric index expected, got '' @ db_display v))"

text \<open>\<open>idx >= 0 && (idx as usize) < len\<close>.\<close>

definition in_bounds :: "i64 \<Rightarrow> 'a list \<Rightarrow> bool" where
  "in_bounds i xs = (0 \<le> sint i \<and> nat (sint i) < length xs)"

definition pick :: "('a \<Rightarrow> db_value) \<Rightarrow> 'a list \<Rightarrow> i64 \<Rightarrow> db_value" where
  "pick f xs i = (if in_bounds i xs then f (xs ! nat (sint i)) else DNull)"

definition cmd_select :: "db_value list \<Rightarrow> sqf_value" where
  "cmd_select args =
     need 2 args ''select requires 2 arguments''
       (index_argument (args ! 1) (\<lambda>i. case args ! 0 of
          DStrings v \<Rightarrow> sok (pick DString v i)
        | DFloats v \<Rightarrow> sok (pick DFloat v i)
        | DString s \<Rightarrow> sok (pick (\<lambda>c. DString (utf8 [c])) (chars s) i)
        | v \<Rightarrow> serr (''select on unsupported type: '' @ db_display v)))"

definition cmd_in :: "db_value list \<Rightarrow> sqf_value" where
  "cmd_in args =
     need 2 args ''in requires 2 arguments''
       (case args ! 1 of
          DStrings v \<Rightarrow> sok (DBool (list_ex (\<lambda>s. db_eq (DString s) (args ! 0)) v))
        | DFloats v \<Rightarrow> sok (DBool (list_ex (\<lambda>f. db_eq (DFloat f) (args ! 0)) v))
        | v \<Rightarrow> serr (''in expects array, got '' @ db_display v))"

definition cmd_pushback :: "db_value list \<Rightarrow> sqf_value" where
  "cmd_pushback args =
     need 2 args ''pushBack requires 2 arguments''
       (case args ! 0 of
          DStrings v \<Rightarrow> sok (DStrings (v @ [value_str (args ! 1)]))
        | DFloats v \<Rightarrow>
            (case to_f64 (args ! 1) of
               Some f \<Rightarrow> sok (DFloats (v @ [f])) | None \<Rightarrow> serr ''type mismatch for array pushBack'')
        | v \<Rightarrow> serr (''pushBack on non-array: '' @ db_display v))"

definition remove_at :: "i64 \<Rightarrow> 'a list \<Rightarrow> 'a list" where
  "remove_at i xs = (if in_bounds i xs then take (nat (sint i)) xs @ drop (Suc (nat (sint i))) xs else xs)"

definition cmd_deleteat :: "db_value list \<Rightarrow> sqf_value" where
  "cmd_deleteat args =
     need 2 args ''deleteAt requires 2 arguments''
       (index_argument (args ! 1) (\<lambda>i. case args ! 0 of
          DStrings v \<Rightarrow> sok (DStrings (remove_at i v))
        | DFloats v \<Rightarrow> sok (DFloats (remove_at i v))
        | v \<Rightarrow> serr (''deleteAt on non-array: '' @ db_display v)))"

text \<open>The sum starts at \<open>-0.0\<close>, the neutral element of the float addition.\<close>

definition magnitude :: "f64 list \<Rightarrow> f64" where
  "magnitude v = f64_sqrt (foldl f64_add (f64_neg f64_zero) (map (\<lambda>c. f64_mul c c) v))"

definition cmd_vectormagnitude :: "db_value list \<Rightarrow> sqf_value" where
  "cmd_vectormagnitude args =
     need 1 args ''vectorMagnitude requires 1 argument''
       (case args ! 0 of
          DFloats v \<Rightarrow> sok (DFloat (magnitude v))
        | DStrings v \<Rightarrow> sok (DFloat (magnitude (List.map_filter parse_f64 v)))
        | v \<Rightarrow> serr (''vector expected, got '' @ db_display v))"

definition cmd_isnil :: "db_value list \<Rightarrow> sqf_value" where
  "cmd_isnil args = need 1 args ''isNil requires 1 argument'' (sok (DBool (args ! 0 = DNull)))"

definition cmd_isequalto :: "db_value list \<Rightarrow> sqf_value" where
  "cmd_isequalto args =
     need 2 args ''isEqualTo requires 2 arguments'' (sok (DBool (db_eq (args ! 0) (args ! 1))))"

definition cmd_hint :: "db_value list \<Rightarrow> sqf_value" where
  "cmd_hint args = need 1 args ''hint requires 1 argument'' (sok (DString (value_str (args ! 0))))"

section \<open>The random generator\<close>

text \<open>A linear congruential generator of 64 bits; the cell is 0 before the first call, which seeds it from
  the clock.  The result has 53 bits.\<close>

type_synonym sqf_action = "u64 \<Rightarrow> (db_value sres \<times> u64) panicking"

definition pure_cmd :: "(db_value list \<Rightarrow> sqf_value) \<Rightarrow> db_value list \<Rightarrow> sqf_action" where
  "pure_cmd f args st = map_option (\<lambda>r. (r, st)) (f args)"

definition lcg_next :: "u64 \<Rightarrow> u64" where
  "lcg_next x = x * 6364136223846793005 + 1442695040888963407"

definition fast_rand :: "u64 \<Rightarrow> u64 \<Rightarrow> f64 \<times> u64" where
  "fast_rand nanos st =
     (let new = lcg_next (if st = 0 then nanos else st)
      in (f64_div (f64_of_int (uint (drop_bit 11 new))) (f64_of_int (2 ^ 53)), new))"

definition cmd_random :: "u64 \<Rightarrow> db_value list \<Rightarrow> sqf_action" where
  "cmd_random nanos args st =
     (if args = [] then Some (Inl ''random requires 1 argument'', st)
      else case hd args of
             DNull \<Rightarrow> Some (Inr DNull, st)
           | v \<Rightarrow> (case to_f64 v of
                     None \<Rightarrow> Some (Inl (''numeric expected, got '' @ db_display v), st)
                   | Some n \<Rightarrow> (let (r, new) = fast_rand nanos st in Some (Inr (DFloat (f64_mul r n)), new))))"

section \<open>Commands\<close>

record sqf_env =
  sq_unicode :: unicode
  sq_math :: math_lib
  sq_nanos :: u64
  sq_commands :: "rstr \<rightharpoonup> cmd_info"
  sq_preprocess :: "rstr \<Rightarrow> rstr option"

text \<open>\<open>NATIVE_CMD_FNS\<close>.\<close>

definition native_fns :: "sqf_env \<Rightarrow> (rstr \<times> (db_value list \<Rightarrow> sqf_action)) list" where
  "native_fns E = (let U = sq_unicode E; M = sq_math E in [
     (''pi'', pure_cmd (\<lambda>_. sok (DFloat pi_bits))), (''true'', pure_cmd (\<lambda>_. sok (DBool True))),
     (''false'', pure_cmd (\<lambda>_. sok (DBool False))), (''nil'', pure_cmd (\<lambda>_. sok DNull)),
     (''sqrt'', pure_cmd (unary_math f64_sqrt)), (''sin'', pure_cmd (unary_math (ml_sin M))),
     (''cos'', pure_cmd (unary_math (ml_cos M))), (''tan'', pure_cmd (unary_math (ml_tan M))),
     (''abs'', pure_cmd (unary_math f64_abs)), (''exp'', pure_cmd (unary_math (ml_exp M))),
     (''ln'', pure_cmd (unary_math (ml_ln M))), (''log'', pure_cmd (unary_math (ml_log10 M))),
     (''log10'', pure_cmd (unary_math (ml_log10 M))), (''asin'', pure_cmd (unary_math (ml_asin M))),
     (''acos'', pure_cmd (unary_math (ml_acos M))), (''atan'', pure_cmd (unary_math (ml_atan M))),
     (''deg'', pure_cmd (unary_math (ml_degrees M))), (''rad'', pure_cmd (unary_math (ml_radians M))),
     (''cosec'', pure_cmd (unary_math (reciprocal (ml_sin M)))),
     (''sec'', pure_cmd (unary_math (reciprocal (ml_cos M)))),
     (''cot'', pure_cmd (unary_math (reciprocal (ml_tan M)))),
     (''round'', pure_cmd (unary_math_int f64_round_away)), (''floor'', pure_cmd (unary_math_int f64_floor)),
     (''ceil'', pure_cmd (unary_math_int f64_ceil)), (''trunc'', pure_cmd cmd_trunc),
     (''sign'', pure_cmd cmd_sign), (''random'', cmd_random (sq_nanos E)), (''min'', pure_cmd cmd_min),
     (''max'', pure_cmd cmd_max), (''atan2'', pure_cmd (binary_math (ml_atan2 M))),
     (''clamp'', pure_cmd cmd_clamp), (''str'', pure_cmd cmd_str), (''to_string'', pure_cmd cmd_str),
     (''toupper'', pure_cmd (cmd_toupper U)), (''to_upper'', pure_cmd (cmd_toupper U)),
     (''tolower'', pure_cmd (cmd_tolower U)), (''to_lower'', pure_cmd (cmd_tolower U)),
     (''typename'', pure_cmd cmd_typename), (''type_name'', pure_cmd cmd_typename),
     (''count'', pure_cmd cmd_count), (''parsenumber'', pure_cmd cmd_parsenumber),
     (''parse_number'', pure_cmd cmd_parsenumber), (''trim'', pure_cmd cmd_trim), (''find'', pure_cmd cmd_find),
     (''replace'', pure_cmd cmd_replace), (''isnil'', pure_cmd cmd_isnil), (''is_null'', pure_cmd cmd_isnil),
     (''isequalto'', pure_cmd cmd_isequalto), (''is_equal_to'', pure_cmd cmd_isequalto),
     (''select'', pure_cmd cmd_select), (''in'', pure_cmd cmd_in), (''pushback'', pure_cmd cmd_pushback),
     (''deleteat'', pure_cmd cmd_deleteat), (''vectormagnitude'', pure_cmd cmd_vectormagnitude),
     (''hint'', pure_cmd cmd_hint), (''hintc'', pure_cmd cmd_hint)])"

definition eval_command :: "sqf_env \<Rightarrow> rstr \<Rightarrow> db_value list \<Rightarrow> sqf_action" where
  "eval_command E name args st =
     (case map_of (native_fns E) name of
        Some f \<Rightarrow> f args st
      | None \<Rightarrow>
          (case sq_commands E name of
             Some i \<Rightarrow> Some (Inr (if is_implementable (ci_ret i) \<and> args \<noteq> [] then hd args else DNull), st)
           | None \<Rightarrow> Some (Inr DNull, st)))"

section \<open>Expressions\<close>

definition sqf_bind :: "('a sres \<times> u64) panicking \<Rightarrow> ('a \<Rightarrow> u64 \<Rightarrow> ('b sres \<times> u64) panicking) \<Rightarrow> ('b sres \<times> u64) panicking" where
  "sqf_bind r f =
     (case r of None \<Rightarrow> None | Some (Inl e, st) \<Rightarrow> Some (Inl e, st) | Some (Inr x, st) \<Rightarrow> f x st)"

lemma sqf_bind_simps [simp]:
  "sqf_bind None f = None" "sqf_bind (Some (Inl e, st)) f = Some (Inl e, st)" "sqf_bind (Some (Inr x, st)) f = f x st"
  by (simp_all add: sqf_bind_def)

lemma sqf_bind_cong [fundef_cong]:
  "r = r' \<Longrightarrow> (\<And>x st. f x st = g x st) \<Longrightarrow> sqf_bind r f = sqf_bind r' g"
  by (auto simp: sqf_bind_def split: option.splits prod.splits sum.splits)

fun eval_all_args :: "(sqf_expr \<Rightarrow> sqf_action) \<Rightarrow> sqf_expr list \<Rightarrow> u64 \<Rightarrow> (db_value list sres \<times> u64) panicking" where
  "eval_all_args f [] st = Some (Inr [], st)"
| "eval_all_args f (e # es) st =
     sqf_bind (f e st) (\<lambda>v st1. sqf_bind (eval_all_args f es st1) (\<lambda>vs st2. Some (Inr (v # vs), st2)))"

lemma eval_all_args_cong [fundef_cong]:
  "es = es' \<Longrightarrow> st = st' \<Longrightarrow> (\<And>e s. e \<in> set es' \<Longrightarrow> f e s = g e s) \<Longrightarrow> eval_all_args f es st = eval_all_args g es' st'"
  by (induction es' arbitrary: es st st') (auto cong: sqf_bind_cong)

definition with_state :: "u64 \<Rightarrow> sqf_value \<Rightarrow> (db_value sres \<times> u64) panicking" where
  "with_state st r = map_option (\<lambda>x. (x, st)) r"

fun sqf_eval :: "sqf_env \<Rightarrow> (rstr \<rightharpoonup> db_value) \<Rightarrow> sqf_expr \<Rightarrow> sqf_action" where
  "sqf_eval E b (SInt n) st = Some (Inr (DInt n), st)"
| "sqf_eval E b (SFloat f) st = Some (Inr (DFloat f), st)"
| "sqf_eval E b (SString s) st = Some (Inr (DString s), st)"
| "sqf_eval E b (SBool v) st = Some (Inr (DBool v), st)"
| "sqf_eval E b SNull st = Some (Inr DNull, st)"
| "sqf_eval E b (SVariable name) st =
     (case b name of
        Some v \<Rightarrow> Some (Inr v, st) | None \<Rightarrow> Some (Inl (''undefined variable in SQF expression: '' @ name), st))"
| "sqf_eval E b (SCommand name args) st =
     sqf_bind (eval_all_args (sqf_eval E b) args st) (\<lambda>vs st1. eval_command E name vs st1)"
| "sqf_eval E b (SUnary opr e) st = sqf_bind (sqf_eval E b e st) (\<lambda>v st1. with_state st1 (apply_unary opr v))"
| "sqf_eval E b (SBinary opr l r) st =
     sqf_bind (sqf_eval E b l st) (\<lambda>x st1. sqf_bind (sqf_eval E b r st1) (\<lambda>y st2. with_state st2 (apply_binary opr x y)))"

text \<open>\<open>eval_sqf\<close>: macros that fail to expand leave the text as it is.\<close>

definition eval_sqf :: "sqf_env \<Rightarrow> rstr \<Rightarrow> (rstr \<rightharpoonup> db_value) \<Rightarrow> sqf_action" where
  "eval_sqf E text b st =
     (let expanded = (case sq_preprocess E text of Some t \<Rightarrow> t | None \<Rightarrow> text)
      in case tokenize (sq_unicode E) expanded of
           Inl e \<Rightarrow> Some (Inl e, st)
         | Inr ts \<Rightarrow>
             (case parse (lookup_arity (sq_commands E)) ts of
                None \<Rightarrow> None
              | Some (Inl e) \<Rightarrow> Some (Inl e, st)
              | Some (Inr e) \<Rightarrow> sqf_eval E b e st))"

lemma native_fns_names: "map fst (native_fns E) = native_names"
  by (simp add: native_fns_def native_names_def Let_def)

end
