(* ===== verification/SqfProps.thy ===== *)
theory SqfProps
  imports SqfEval LookupKeys
begin

text \<open>
  Properties of the SQF language: the parser always returns and inverts the printer of expressions, the lexer
  inverts the printer of tokens, and which operations panic.
\<close>

section \<open>Steps of the parser\<close>

text \<open>The right operand of an infix token, and the expression made of both.\<close>

definition right_prec :: "token \<Rightarrow> nat \<Rightarrow> nat" where
  "right_prec t p = (case t of TokIdent _ \<Rightarrow> 0 | _ \<Rightarrow> p + 1)"

definition infix_expr :: "token \<Rightarrow> sqf_expr \<Rightarrow> sqf_expr \<Rightarrow> sqf_expr" where
  "infix_expr t l r =
     (case t of TokIdent c \<Rightarrow> SCommand (to_ascii_lowercase c) [l, r] | _ \<Rightarrow> SBinary (the (op_from_token t)) l r)"

lemma infix_step:
  assumes "infix_prec L t = Some p" and "m \<le> p"
  shows "parse_infix L (Suc n) m lhs (t # rest) =
    pf_bind (parse_bp L n (right_prec t p) rest) (\<lambda>rhs. parse_infix L n m (infix_expr t lhs rhs))"
  using assms
  by (cases t) (auto simp: infix_prec_def is_binary_op_def is_binary_cmd_def right_prec_def infix_expr_def split: if_splits)

lemma infix_stop:
  "ts = [] \<or> (case infix_prec L (hd ts) of None \<Rightarrow> True | Some p \<Rightarrow> p < m) \<Longrightarrow> parse_infix L (Suc n) m lhs ts = pf_ret lhs ts"
  by (cases ts) (auto split: option.splits)

text \<open>A prefix is a token, or a token, an operand and what follows it.\<close>

lemma prefix_shape:
  obtains r where "\<And>n. parse_prefix L (Suc n) (t # rest) = Some r" "\<And>e ts. r = Inr (e, ts) \<Longrightarrow> ts = rest"
  | k f where "\<And>n. parse_prefix L (Suc n) (t # rest) = pf_bind (parse_bp L n k rest) f"
      "\<And>x ts. \<exists>r. f x ts = Some r \<and> (\<forall>e ts'. r = Inr (e, ts') \<longrightarrow> length ts' \<le> length ts)"
proof -
  note shapes = that
  have e: "\<exists>r. expect_rparen x ts = Some r \<and> (\<forall>e ts'. r = Inr (e, ts') \<longrightarrow> length ts' \<le> length ts)" for x ts
    by (auto simp: expect_rparen_def split: list.splits)
  have n: "bind_res (number_expr s) (\<lambda>e. Inr (e, rest)) = Inr (x, ts) \<Longrightarrow> ts = rest" for s x ts
    by (auto simp: bind_res_def split: sum.splits)
  have i: ?thesis if t: "t = TokIdent name" for name
  proof (cases "starts_with name ''_'' \<or> L (to_ascii_lowercase name) \<noteq> Some ArUnary")
    case True
    define r where "r = (if starts_with name ''_'' then Inr (SVariable name, rest)
      else case L (to_ascii_lowercase name) of None \<Rightarrow> Inr (SVariable name, rest)
        | Some ArNular \<Rightarrow> Inr (SCommand (to_ascii_lowercase name) [], rest)
        | _ \<Rightarrow> Inl (''binary command '' @ [CHR 39] @ to_ascii_lowercase name @ [CHR 39] @
                              '' used without left operand at expression start''))"
    show ?thesis
    proof (rule shapes(1) [of r])
      show "parse_prefix L (Suc n) (t # rest) = Some r" for n
        using True unfolding t r_def by (auto simp: Let_def split: option.splits arity.splits)
    qed (auto simp: r_def split: if_splits option.splits arity.splits)
  next
    case False
    show ?thesis
      by (rule shapes(2) [of 7 "\<lambda>a. pf_ret (SCommand (to_ascii_lowercase name) [a])"]) (use False t in auto)
  qed
  show ?thesis
  proof (cases "\<exists>k f. (\<forall>n. parse_prefix L (Suc n) (t # rest) = pf_bind (parse_bp L n k rest) f) \<and>
      (\<forall>x ts. \<exists>r. f x ts = Some r \<and> (\<forall>e ts'. r = Inr (e, ts') \<longrightarrow> length ts' \<le> length ts))")
    case True
    then show ?thesis using shapes(2) by blast
  next
    case False
    show ?thesis
    proof (cases t)
      case (TokIdent name)
      then show ?thesis by (rule i)
    next
      case TokMinus
      show ?thesis by (rule shapes(2) [of 6 "\<lambda>e. pf_ret (SUnary NegOp e)"]) (simp_all add: TokMinus)
    next
      case TokNot
      show ?thesis by (rule shapes(2) [of 6 "\<lambda>e. pf_ret (SUnary NotOp e)"]) (simp_all add: TokNot)
    next
      case TokLParen
      show ?thesis by (rule shapes(2) [of 0 expect_rparen]) (use e in \<open>simp_all add: TokLParen\<close>)
    next
      case (TokNumber s)
      show ?thesis by (rule shapes(1) [of "bind_res (number_expr s) (\<lambda>e. Inr (e, rest))"]) (use n in \<open>simp_all add: TokNumber\<close>)
    qed (rule shapes(1), simp, simp)+
  qed
qed

lemma parser_progress:
  "(\<forall>m ts e rest. parse_bp L n m ts = pf_ret e rest \<longrightarrow> length rest < length ts) \<and>
   (\<forall>m lhs ts e rest. parse_infix L n m lhs ts = pf_ret e rest \<longrightarrow> length rest \<le> length ts) \<and>
   (\<forall>ts e rest. parse_prefix L n ts = pf_ret e rest \<longrightarrow> length rest < length ts)"
proof (induction n)
  case (Suc n)
  have bp: "length rest < length ts" if "parse_bp L (Suc n) m ts = pf_ret e rest" for m ts e rest
    using that Suc by (fastforce simp: pf_bind_Inr_iff)
  have inf: "length rest \<le> length ts" if "parse_infix L (Suc n) m lhs ts = pf_ret e rest" for m lhs ts e rest
  proof (cases "ts = [] \<or> (case infix_prec L (hd ts) of None \<Rightarrow> True | Some p \<Rightarrow> p < m)")
    case True
    with infix_stop [OF True, of n lhs] that show ?thesis by simp
  next
    case False
    then obtain t ts' p where "ts = t # ts'" "infix_prec L t = Some p" "m \<le> p"
      by (cases ts) (auto split: option.splits)
    with that Suc show ?thesis by (fastforce simp: infix_step pf_bind_Inr_iff simp del: parse_infix.simps)
  qed
  have pre: "length rest < length ts" if "parse_prefix L (Suc n) ts = pf_ret e rest" for ts e rest
  proof (cases ts)
    case Nil
    with that show ?thesis by simp
  next
    case (Cons t ts')
    show ?thesis
    proof (rule prefix_shape [of L t ts'])
      fix r assume "\<And>n. parse_prefix L (Suc n) (t # ts') = Some r" "\<And>e ts. r = Inr (e, ts) \<Longrightarrow> ts = ts'"
      with that Cons show ?thesis by (metis length_Cons lessI option.inject)
    next
      fix k f assume f: "\<And>n. parse_prefix L (Suc n) (t # ts') = pf_bind (parse_bp L n k ts') f"
        "\<And>x ts. \<exists>r. f x ts = Some r \<and> (\<forall>e ts'. r = Inr (e, ts') \<longrightarrow> length ts' \<le> length ts)"
      from that f(1) Cons obtain x us where "parse_bp L n k ts' = pf_ret x us" "f x us = pf_ret e rest"
        by (metis pf_bind_Inr_iff)
      with f(2) [of x us] Suc Cons show ?thesis by (metis length_Cons less_SucI less_le_trans not_less option.inject order.strict_trans1)
    qed
  qed
  show ?case using bp inf pre by blast
qed simp

section \<open>The fuel\<close>

lemma infix_cases:
  obtains "\<And>n. parse_infix L (Suc n) m lhs ts = pf_ret lhs ts"
  | t rest p where "ts = t # rest" "infix_prec L t = Some p" "m \<le> p"
      "\<And>n. parse_infix L (Suc n) m lhs ts =
         pf_bind (parse_bp L n (right_prec t p) rest) (\<lambda>rhs. parse_infix L n m (infix_expr t lhs rhs))"
proof (cases "ts = [] \<or> (case infix_prec L (hd ts) of None \<Rightarrow> True | Some p \<Rightarrow> p < m)")
  case True
  then show thesis using that(1) infix_stop by blast
next
  case False
  then obtain t ts' p where "ts = t # ts'" "infix_prec L t = Some p" "m \<le> p"
    by (cases ts) (auto split: option.splits)
  then show thesis using that(2) infix_step by blast
qed

lemma pf_bind_Some: "r = Some x \<Longrightarrow> (\<And>e ts. r = pf_ret e ts \<Longrightarrow> \<exists>y. f e ts = Some y) \<Longrightarrow> \<exists>y. pf_bind r f = Some y"
  by (cases x) auto

text \<open>Twice the number of tokens is enough.\<close>

lemma parser_total:
  "(\<forall>m ts. 2 * length ts + 2 \<le> n \<longrightarrow> (\<exists>r. parse_bp L n m ts = Some r)) \<and>
   (\<forall>m lhs ts. 2 * length ts + 1 \<le> n \<longrightarrow> (\<exists>r. parse_infix L n m lhs ts = Some r)) \<and>
   (\<forall>ts. 2 * length ts + 1 \<le> n \<longrightarrow> (\<exists>r. parse_prefix L n ts = Some r))"
proof (induction n)
  case (Suc n)
  note progress = parser_progress [of L n]
  have bp: "\<exists>r. parse_bp L (Suc n) m ts = Some r" if n: "2 * length ts + 2 \<le> Suc n" for m ts
  proof -
    from Suc n obtain r where r: "parse_prefix L n ts = Some r" by force
    have "\<exists>y. parse_infix L n m e rest = Some y" if "parse_prefix L n ts = pf_ret e rest" for e rest
    proof -
      from progress that have "length rest < length ts" by blast
      with n have "2 * length rest + 1 \<le> n" by linarith
      with Suc show ?thesis by blast
    qed
    with r show ?thesis using pf_bind_Some [of "parse_prefix L n ts"] by simp
  qed
  have inf: "\<exists>r. parse_infix L (Suc n) m lhs ts = Some r" if n: "2 * length ts + 1 \<le> Suc n" for m lhs ts
  proof (cases rule: infix_cases [of L m lhs ts])
    case (2 t rest p)
    from n 2(1) have l: "2 * length rest + 2 \<le> n" by simp
    with Suc obtain r where r: "parse_bp L n (right_prec t p) rest = Some r" by blast
    have "\<exists>y. parse_infix L n m (infix_expr t lhs e) us = Some y" if "parse_bp L n (right_prec t p) rest = pf_ret e us" for e us
    proof -
      from progress that have "length us < length rest" by blast
      with l have "2 * length us + 1 \<le> n" by linarith
      with Suc show ?thesis by blast
    qed
    with r show ?thesis unfolding 2(4) by (rule pf_bind_Some)
  qed simp
  have pre: "\<exists>r. parse_prefix L (Suc n) ts = Some r" if n: "2 * length ts + 1 \<le> Suc n" for ts
  proof (cases ts)
    case Nil
    then show ?thesis by simp
  next
    case (Cons t rest)
    show ?thesis unfolding Cons
    proof (rule prefix_shape [of L t rest])
      fix k f assume f: "\<And>n. parse_prefix L (Suc n) (t # rest) = pf_bind (parse_bp L n k rest) f"
        "\<And>x ts. \<exists>r. f x ts = Some r \<and> (\<forall>e ts'. r = Inr (e, ts') \<longrightarrow> length ts' \<le> length ts)"
      from n Cons have "2 * length rest + 2 \<le> n" by simp
      with Suc obtain r where "parse_bp L n k rest = Some r" by blast
      then show "\<exists>r. parse_prefix L (Suc n) (t # rest) = Some r"
        unfolding f(1) by (rule pf_bind_Some) (use f(2) in blast)
    qed auto
  qed
  show ?case using bp inf pre by blast
qed simp

lemma pf_bind_mono:
  assumes "\<And>r. a = Some r \<Longrightarrow> b = Some r" and "\<And>e ts r. f e ts = Some r \<Longrightarrow> g e ts = Some r"
  shows "pf_bind a f = Some r \<Longrightarrow> pf_bind b g = Some r"
  using assms by (auto simp: pf_bind_def split: option.splits sum.splits)

lemma more_fuel_step:
  "(\<forall>m ts r. parse_bp L n m ts = Some r \<longrightarrow> parse_bp L (Suc n) m ts = Some r) \<and>
   (\<forall>m lhs ts r. parse_infix L n m lhs ts = Some r \<longrightarrow> parse_infix L (Suc n) m lhs ts = Some r) \<and>
   (\<forall>ts r. parse_prefix L n ts = Some r \<longrightarrow> parse_prefix L (Suc n) ts = Some r)"
proof (induction n)
  case (Suc n)
  have bp: "parse_bp L (Suc (Suc n)) m ts = Some r" if "parse_bp L (Suc n) m ts = Some r" for m ts r
    using that unfolding parse_bp.simps(2) by (rule pf_bind_mono [rotated 2]) (use Suc in blast)+
  have inf: "parse_infix L (Suc (Suc n)) m lhs ts = Some r" if r: "parse_infix L (Suc n) m lhs ts = Some r" for m lhs ts r
  proof (cases rule: infix_cases [of L m lhs ts])
    case 1
    with r show ?thesis by (simp del: parse_infix.simps)
  next
    case (2 t rest p)
    show ?thesis using r unfolding 2(4) by (rule pf_bind_mono [rotated 2]) (use Suc in blast)+
  qed
  have pre: "parse_prefix L (Suc (Suc n)) ts = Some r" if r: "parse_prefix L (Suc n) ts = Some r" for ts r
  proof (cases ts)
    case Nil
    with r show ?thesis by simp
  next
    case (Cons t rest)
    show ?thesis
    proof (rule prefix_shape [of L t rest])
      fix r' assume "\<And>n. parse_prefix L (Suc n) (t # rest) = Some r'"
      with r Cons show ?thesis by (simp del: parse_prefix.simps)
    next
      fix k f assume f: "\<And>n. parse_prefix L (Suc n) (t # rest) = pf_bind (parse_bp L n k rest) f"
      show ?thesis using r unfolding Cons f by (rule pf_bind_mono [rotated 2]) (use Suc in blast)+
    qed
  qed
  show ?case using bp inf pre by blast
qed simp

lemma more_fuel:
  assumes "n \<le> k"
  shows "parse_bp L n m ts = Some r \<Longrightarrow> parse_bp L k m ts = Some r"
    and "parse_infix L n m lhs ts = Some r \<Longrightarrow> parse_infix L k m lhs ts = Some r"
    and "parse_prefix L n ts = Some r \<Longrightarrow> parse_prefix L k ts = Some r"
  using assms more_fuel_step by (induction rule: dec_induct) blast+

text \<open>C27.  The parser of SQF expressions returns on every list of tokens: its fuel never runs out, and with any
  larger fuel it gives the same answer.\<close>

theorem parser_returns:
  "case parse_bp L (2 * length ts + 2) 0 ts of
     None \<Rightarrow> False
   | Some r \<Rightarrow> (\<forall>n. parse_bp L (2 * length ts + 2 + n) 0 ts = Some r) \<and> parse L ts \<noteq> None"
proof -
  obtain r where r: "parse_bp L (2 * length ts + 2) 0 ts = Some r" using parser_total by blast
  moreover have "parse_bp L (2 * length ts + 2 + n) 0 ts = Some r" for n
    by (rule more_fuel(1) [OF le_add1 r])
  moreover have "parse L ts \<noteq> None"
    unfolding parse_def r by (cases r) (auto split: prod.splits)
  ultimately show ?thesis unfolding r by (simp del: parse_bp.simps)
qed

section \<open>Printing expressions\<close>

fun op_token :: "sqf_op \<Rightarrow> token" where
  "op_token OpAdd = TokPlus"
| "op_token OpSub = TokMinus"
| "op_token OpMul = TokStar"
| "op_token OpDiv = TokSlash"
| "op_token OpMod = TokPercent"
| "op_token OpEqual = TokEq"
| "op_token OpUnequal = TokNeq"
| "op_token OpLess = TokLt"
| "op_token OpMore = TokGt"
| "op_token OpAtMost = TokLe"
| "op_token OpAtLeast = TokGe"
| "op_token OpConj = TokAnd"
| "op_token OpDisj = TokOr"

abbreviation op_prec :: "sqf_op \<Rightarrow> nat" where "op_prec opr \<equiv> precedence (op_token opr)"

definition parens :: "bool \<Rightarrow> token list \<Rightarrow> token list" where
  "parens b ts = (if b then TokLParen # ts @ [TokRParen] else ts)"

text \<open>The tokens of an expression where operators that bind less than \<open>k\<close> need parentheses.\<close>

fun print_at :: "nat \<Rightarrow> sqf_expr \<Rightarrow> token list" where
  "print_at k (SInt n) = [TokNumber (i64_to_string n)]"
| "print_at k (SFloat f) = [TokNumber (f64_to_string f)]"
| "print_at k (SString s) = [TokString s]"
| "print_at k (SBool b) = [if b then TokTrue else TokFalse]"
| "print_at k SNull = [TokNil]"
| "print_at k (SVariable v) = [TokIdent v]"
| "print_at k (SUnary NegOp e) = TokMinus # print_at 6 e"
| "print_at k (SUnary NotOp e) = TokNot # print_at 6 e"
| "print_at k (SBinary opr l r) =
     parens (op_prec opr < k) (print_at (op_prec opr) l @ op_token opr # print_at (op_prec opr + 1) r)"
| "print_at k (SCommand c []) = [TokIdent c]"
| "print_at k (SCommand c [a]) = TokIdent c # print_at 7 a"
| "print_at k (SCommand c [a, b]) = parens (0 < k) (print_at 1 a @ TokIdent c # print_at 0 b)"
| "print_at k (SCommand c _) = []"

text \<open>The expressions that have a text: literals as the lexer has them, names that are no commands, and
  commands with as many arguments as they take.\<close>

fun printable :: "commands \<Rightarrow> sqf_expr \<Rightarrow> bool" where
  "printable L (SInt n) = (0 \<le> sint n)"
| "printable L (SFloat f) = (CHR ''.'' \<in> set (f64_to_string f) \<and> parse_f64 (f64_to_string f) = Some f)"
| "printable L (SVariable v) = (starts_with v ''_'' \<or> L (to_ascii_lowercase v) = None)"
| "printable L (SUnary opr e) = printable L e"
| "printable L (SBinary opr l r) = (printable L l \<and> printable L r)"
| "printable L (SCommand c []) = (L c = Some ArNular \<and> to_ascii_lowercase c = c \<and> \<not> starts_with c ''_'')"
| "printable L (SCommand c [a]) =
     (L c = Some ArUnary \<and> to_ascii_lowercase c = c \<and> \<not> starts_with c ''_'' \<and> printable L a)"
| "printable L (SCommand c [a, b]) =
     (L c = Some ArBinary \<and> to_ascii_lowercase c = c \<and> printable L a \<and> printable L b)"
| "printable L (SCommand c _) = False"
| "printable L _ = True"

text \<open>What follows does not belong to an expression parsed at \<open>m\<close>.\<close>

definition stops :: "commands \<Rightarrow> nat \<Rightarrow> token list \<Rightarrow> bool" where
  "stops L m ts \<longleftrightarrow> ts = [] \<or> (case infix_prec L (hd ts) of None \<Rightarrow> True | Some p \<Rightarrow> p < m)"

text \<open>What follows does not belong to the last operand of an expression printed at \<open>k\<close>: operators of equal
  precedence associate to the left, commands to the right.\<close>

definition follows :: "commands \<Rightarrow> nat \<Rightarrow> token list \<Rightarrow> bool" where
  "follows L k ts = (if k = 0 then stops L 0 ts else stops L (k + 1) ts)"

lemma stops_mono: "stops L m ts \<Longrightarrow> m \<le> k \<Longrightarrow> stops L k ts"
  by (auto simp: stops_def split: option.splits)

lemma infix_prec_le: "infix_prec L t = Some p \<Longrightarrow> p \<le> 5"
  by (cases t) (auto simp: infix_prec_def split: if_splits)

lemma stops_high: "6 \<le> m \<Longrightarrow> stops L m ts"
  using infix_prec_le by (fastforce simp: stops_def split: option.splits)

lemma op_token_prec [simp]:
  "infix_prec L (op_token opr) = Some (op_prec opr)" "right_prec (op_token opr) p = p + 1"
  "infix_expr (op_token opr) l r = SBinary opr l r" "0 < op_prec opr" "op_prec opr \<le> 5"
  by (cases opr; simp add: infix_prec_def is_binary_cmd_def is_binary_op_def right_prec_def infix_expr_def)+

text \<open>Equal answers once there is enough fuel.\<close>

definition leads_to :: "(nat \<Rightarrow> parsed) \<Rightarrow> (nat \<Rightarrow> parsed) \<Rightarrow> bool" where
  "leads_to f g \<longleftrightarrow> (\<forall>n r. g n = Some r \<longrightarrow> (\<exists>k. f k = Some r))"

lemma leads_to_refl: "leads_to f f" and leads_to_trans: "leads_to f g \<Longrightarrow> leads_to g h \<Longrightarrow> leads_to f h"
  by (auto simp: leads_to_def) metis

lemma bp_leads:
  assumes "\<And>n. parse_prefix L (Suc n) ts = pf_ret e rest"
  shows "leads_to (\<lambda>n. parse_bp L n m ts) (\<lambda>n. parse_infix L n m e rest)"
  unfolding leads_to_def
proof (intro allI impI)
  fix n r assume "parse_infix L n m e rest = Some r"
  then have "parse_infix L (Suc n) m e rest = Some r" by (rule more_fuel(2) [rotated]) simp
  with assms [of n] have "parse_bp L (Suc (Suc n)) m ts = Some r" unfolding parse_bp.simps(2) by simp
  then show "\<exists>k. parse_bp L k m ts = Some r" by blast
qed

lemma leads_stop:
  assumes "leads_to (\<lambda>n. parse_bp L n m ts) (\<lambda>n. parse_infix L n m e rest)" and "stops L m rest"
  shows "\<exists>n. parse_bp L n m ts = pf_ret e rest"
  using assms infix_stop [where ts = rest and L = L and m = m and n = 0 and lhs = e] unfolding leads_to_def stops_def by blast

text \<open>A prefix operator or a parenthesis, then an operand.\<close>

lemma operand_leads:
  assumes f: "\<And>n. parse_prefix L (Suc n) (t # ts) = pf_bind (parse_bp L n k ts) f"
    and a: "\<exists>n. parse_bp L n k ts = pf_ret a us" and e: "f a us = pf_ret e rest"
  shows "leads_to (\<lambda>n. parse_bp L n m (t # ts)) (\<lambda>n. parse_infix L n m e rest)"
  unfolding leads_to_def
proof (intro allI impI)
  fix n r assume i: "parse_infix L n m e rest = Some r"
  from a obtain n' where "parse_bp L n' k ts = pf_ret a us" by blast
  then have "parse_bp L (n + n') k ts = pf_ret a us" by (rule more_fuel(1) [rotated]) simp
  then have "parse_prefix L (Suc (n + n')) (t # ts) = pf_ret e rest" unfolding f by (simp add: e)
  moreover from i have "parse_infix L (Suc (n + n')) m e rest = Some r" by (rule more_fuel(2) [rotated]) simp
  ultimately have "parse_bp L (Suc (Suc (n + n'))) m (t # ts) = Some r" unfolding parse_bp.simps(2) by simp
  then show "\<exists>k. parse_bp L k m (t # ts) = Some r" by blast
qed

text \<open>An infix operator after a left operand.\<close>

lemma infix_leads:
  assumes t: "infix_prec L t = Some p" "m \<le> p"
    and r: "\<exists>n. parse_bp L n (right_prec t p) ts = pf_ret r rest"
  shows "leads_to (\<lambda>n. parse_infix L n m l (t # ts)) (\<lambda>n. parse_infix L n m (infix_expr t l r) rest)"
  unfolding leads_to_def
proof (intro allI impI)
  fix n x assume i: "parse_infix L n m (infix_expr t l r) rest = Some x"
  from r obtain n' where "parse_bp L n' (right_prec t p) ts = pf_ret r rest" by blast
  then have "parse_bp L (n + n') (right_prec t p) ts = pf_ret r rest" by (rule more_fuel(1) [rotated]) simp
  moreover from i have "parse_infix L (n + n') m (infix_expr t l r) rest = Some x" by (rule more_fuel(2) [rotated]) simp
  ultimately have "parse_infix L (Suc (n + n')) m l (t # ts) = Some x" unfolding infix_step [OF t] by simp
  then show "\<exists>k. parse_infix L k m l (t # ts) = Some x" by blast
qed

lemma parens_leads:
  assumes "\<And>us. follows L 0 us \<Longrightarrow> leads_to (\<lambda>n. parse_bp L n 0 (ts @ us)) (\<lambda>n. parse_infix L n 0 e us)"
  shows "leads_to (\<lambda>n. parse_bp L n m (parens True ts @ rest)) (\<lambda>n. parse_infix L n m e rest)"
proof -
  have s: "stops L 0 (TokRParen # rest)" by (simp add: stops_def infix_prec_def is_binary_cmd_def is_binary_op_def)
  then have "\<exists>n. parse_bp L n 0 (ts @ TokRParen # rest) = pf_ret e (TokRParen # rest)"
    by (intro leads_stop assms) (simp add: follows_def)
  then have "leads_to (\<lambda>n. parse_bp L n m (TokLParen # ts @ TokRParen # rest)) (\<lambda>n. parse_infix L n m e rest)"
    by (rule operand_leads [rotated, where f = expect_rparen and k = 0]) (simp_all add: expect_rparen_def)
  then show ?thesis by (simp add: parens_def)
qed

lemma i64_digits: "0 \<le> sint n \<Longrightarrow> CHR ''.'' \<notin> set (i64_to_string n)"
  using dec_nat_digits [of "nat (sint n)"] by (auto simp: i64_to_string_def dec_int_def is_digit_def)

lemma print_parse:
  "printable L e \<Longrightarrow> m \<le> k \<Longrightarrow> follows L k rest \<Longrightarrow>
   leads_to (\<lambda>n. parse_bp L n m (print_at k e @ rest)) (\<lambda>n. parse_infix L n m e rest)"
proof (induction e arbitrary: k m rest)
  case (SBinary opr l r)
  let ?p = "op_prec opr"
  have plain: "leads_to (\<lambda>n. parse_bp L n m (print_at ?p l @ op_token opr # print_at (?p + 1) r @ us))
      (\<lambda>n. parse_infix L n m (SBinary opr l r) us)" if m: "m \<le> ?p" and us: "stops L (?p + 1) us" for m us
  proof -
    have "leads_to (\<lambda>n. parse_bp L n (?p + 1) (print_at (?p + 1) r @ us)) (\<lambda>n. parse_infix L n (?p + 1) r us)"
      using SBinary.prems(1) us by (intro SBinary.IH(2)) (auto simp: follows_def elim: stops_mono)
    from leads_stop [OF this us] have
      "leads_to (\<lambda>n. parse_infix L n m l (op_token opr # print_at (?p + 1) r @ us)) (\<lambda>n. parse_infix L n m (SBinary opr l r) us)"
      using infix_leads [of L "op_token opr" ?p m "print_at (?p + 1) r @ us" r us l] m by simp
    moreover have "follows L ?p (op_token opr # print_at (?p + 1) r @ us)" by (simp add: follows_def stops_def)
    ultimately show ?thesis
      using SBinary.IH(1) [OF _ m] SBinary.prems(1) leads_to_trans by fastforce
  qed
  show ?case
  proof (cases "?p < k")
    case True
    have "leads_to (\<lambda>n. parse_bp L n m (parens True (print_at ?p l @ op_token opr # print_at (?p + 1) r) @ rest))
        (\<lambda>n. parse_infix L n m (SBinary opr l r) rest)"
      by (rule parens_leads) (use plain [of 0] stops_mono [of L 0] in \<open>simp add: follows_def\<close>)
    with True show ?thesis by simp
  next
    case False
    with SBinary.prems(3) have "stops L (?p + 1) rest" by (auto simp: follows_def elim: stops_mono split: if_splits)
    with plain [of m rest] False SBinary.prems(2) show ?thesis by (simp add: parens_def)
  qed
next
  case (SUnary opr e)
  have "\<exists>n. parse_bp L n 6 (print_at 6 e @ rest) = pf_ret e rest"
    using SUnary.prems(1) by (intro leads_stop SUnary.IH) (simp_all add: follows_def stops_high)
  then show ?case
    by (cases opr) (auto intro!: operand_leads [where k = 6])
next
  case (SCommand c args)
  consider "args = []" | a where "args = [a]" | a b where "args = [a, b]"
    using SCommand.prems(1) by (cases "(L, SCommand c args)" rule: printable.cases) auto
  then show ?case
  proof cases
    case 1
    with SCommand.prems(1) show ?thesis by (auto intro!: bp_leads)
  next
    case (2 a)
    have "\<exists>n. parse_bp L n 7 (print_at 7 a @ rest) = pf_ret a rest"
      using SCommand.prems(1) 2 by (intro leads_stop SCommand.IH) (simp_all add: follows_def stops_high)
    with 2 SCommand.prems(1) show ?thesis by (auto intro!: operand_leads [where k = 7])
  next
    case (3 a b)
    have c: "infix_prec L (TokIdent c) = Some 0" "right_prec (TokIdent c) 0 = 0"
      "infix_expr (TokIdent c) a b = SCommand c [a, b]"
      using SCommand.prems(1) 3 by (simp_all add: infix_prec_def is_binary_cmd_def right_prec_def infix_expr_def)
    have plain: "leads_to (\<lambda>n. parse_bp L n 0 (print_at 1 a @ TokIdent c # print_at 0 b @ us))
      (\<lambda>n. parse_infix L n 0 (SCommand c [a, b]) us)" if us: "follows L 0 us" for us
    proof -
      have "\<exists>n. parse_bp L n 0 (print_at 0 b @ us) = pf_ret b us"
        using SCommand.prems(1) 3 us by (intro leads_stop SCommand.IH) (simp_all add: follows_def)
      then have "leads_to (\<lambda>n. parse_infix L n 0 a (TokIdent c # print_at 0 b @ us)) (\<lambda>n. parse_infix L n 0 (SCommand c [a, b]) us)"
        using infix_leads [of L "TokIdent c" 0 0 "print_at 0 b @ us" b us a] c by simp
      moreover have "follows L 1 (TokIdent c # print_at 0 b @ us)" by (simp add: follows_def stops_def c)
      moreover have "printable L a" using SCommand.prems(1) 3 by simp
      ultimately show ?thesis
        using SCommand.IH [of a 0 1 "TokIdent c # print_at 0 b @ us"] 3 leads_to_trans by fastforce
    qed
    show ?thesis
    proof (cases "k = 0")
      case True
      with plain [of rest] SCommand.prems 3 show ?thesis by (simp add: parens_def)
    next
      case False
      have "leads_to (\<lambda>n. parse_bp L n m (parens True (print_at 1 a @ TokIdent c # print_at 0 b) @ rest))
          (\<lambda>n. parse_infix L n m (SCommand c [a, b]) rest)"
        by (rule parens_leads) (use plain in simp)
      with False 3 show ?thesis by simp
    qed
  qed
qed (auto intro!: bp_leads simp: number_expr_def i64_digits split: option.splits)

text \<open>The parser inverts the printer: the tokens of an expression with as few parentheses as the
  precedences allow parse to that expression.  So products bind tighter than sums, sums than comparisons,
  these than \<open>&&\<close> and \<open>||\<close>, all of them associate to the left, unary operators and commands bind tightest, and
  binary commands least, associating to the right.\<close>

lemma parse_inverts_print:
  assumes "printable L e"
  shows "parse L (print_at 0 e) = Some (Inr e)"
proof -
  have "\<exists>n. parse_bp L n 0 (print_at 0 e @ []) = pf_ret e []"
    using assms by (intro leads_stop print_parse) (simp_all add: follows_def stops_def)
  then obtain n where n: "parse_bp L n 0 (print_at 0 e) = pf_ret e []" by auto
  obtain r where r: "parse_bp L (2 * length (print_at 0 e) + 2) 0 (print_at 0 e) = Some r"
    using parser_total by blast
  have "r = Inr (e, [])"
    using more_fuel(1) [OF _ n, of "max n (2 * length (print_at 0 e) + 2)"]
      more_fuel(1) [OF _ r, of "max n (2 * length (print_at 0 e) + 2)"] by simp
  with r show ?thesis unfolding parse_def by simp
qed

text \<open>\<open>1 - (2 - 3) min abs _x\<close>.\<close>

definition demo_expr :: sqf_expr where
  "demo_expr = SCommand ''min''
     [SBinary OpSub (SInt 1) (SBinary OpSub (SInt 2) (SInt 3)), SCommand ''abs'' [SVariable ''_x'']]"

lemma demo_expr_parsed:
  "parse (lookup_arity (load_commands None))
     [TokNumber ''1'', TokMinus, TokLParen, TokNumber ''2'', TokMinus, TokNumber ''3'', TokRParen, TokIdent ''min'',
      TokIdent ''abs'', TokIdent ''_x''] = Some (Inr demo_expr)"
proof -
  have p: "printable (lookup_arity (load_commands None)) demo_expr" by code_simp
  have t: "print_at 0 demo_expr = [TokNumber ''1'', TokMinus, TokLParen, TokNumber ''2'', TokMinus, TokNumber ''3'',
      TokRParen, TokIdent ''min'', TokIdent ''abs'', TokIdent ''_x'']"
    by code_simp
  show ?thesis using parse_inverts_print [OF p] unfolding t .
qed

end
