(* ===== verification/SqfTextProps.thy ===== *)
theory SqfTextProps
  imports SqfProps TableProps
begin

text \<open>
  From the text of an SQF expression to its value: the lexer inverts the text of tokens, and the operations
  that panic.
\<close>

section \<open>The text of tokens\<close>

fun good_token :: "unicode \<Rightarrow> token \<Rightarrow> bool" where
  "good_token U (TokNumber s) =
     (is_ascii s \<and> s \<noteq> [] \<and> is_ascii_digit (hd (chars s)) \<and> lex_number (chars s) = (chars s, []))"
| "good_token U (TokString s) = (rust_str s \<and> 34 \<notin> set (chars s))"
| "good_token U (TokIdent s) =
     (is_ascii s \<and> s \<noteq> [] \<and> ident_start (hd (chars s)) \<and> list_all (ident_char U) (tl (chars s)) \<and>
      keyword_or_ident s = TokIdent s)"
| "good_token U _ = True"

fun token_chars :: "token \<Rightarrow> uchar list" where
  "token_chars (TokString s) = 34 # chars s @ [34]"
| "token_chars t = chars (token_display t)"

lemma ascii_scalars: "is_ascii s \<Longrightarrow> \<forall>c \<in> set (chars s). is_scalar c"
  by (auto simp: chars_ascii is_ascii_def bytes_of_def is_scalar_def)

lemma token_chars_text:
  assumes "good_token U t"
  shows "utf8 (token_chars t) = token_display t" "\<forall>c \<in> set (token_chars t). is_scalar c"
proof -
  have a: "utf8 (chars s) = s \<and> (\<forall>c \<in> set (chars s). is_scalar c)" if "is_ascii s" for s
    using utf8_chars_ascii [OF that] ascii_scalars [OF that] by simp
  have q: "utf8 [34] = [CHR 34]" by code_simp
  have s: "utf8 (token_chars t) = token_display t \<and> (\<forall>c \<in> set (token_chars t). is_scalar c)"
  proof (cases "\<exists>s. t = TokString s")
    case True
    then obtain s where t: "t = TokString s" by blast
    with assms have r: "s = utf8 (chars s)" "\<forall>c \<in> set (chars s). is_scalar c" using rust_strD by auto
    have "utf8 (token_chars t) = utf8 [34] @ utf8 (chars s) @ utf8 [34]"
      unfolding t token_chars.simps utf8_append [symmetric] by simp
    with r t show ?thesis by (simp add: q is_scalar_def)
  next
    case False
    then have "token_chars t = chars (token_display t)" and "is_ascii (token_display t)"
      using assms by (cases t; simp add: is_ascii_def)+
    then show ?thesis using a by simp
  qed
  from s show "utf8 (token_chars t) = token_display t" "\<forall>c \<in> set (token_chars t). is_scalar c" by auto
qed

section \<open>Lexing one token\<close>

lemma lex_string_plain: "(34 :: nat) \<notin> set cs \<Longrightarrow> rest = [] \<or> hd rest \<noteq> 34 \<Longrightarrow> lex_string 34 (cs @ 34 # rest) = Some (cs, rest)"
  by (induction cs) (auto split: list.splits)

lemma takeWhile_stop:
  "list_all P cs \<Longrightarrow> rest = [] \<or> \<not> P (hd rest) \<Longrightarrow> takeWhile P (cs @ rest) = cs \<and> dropWhile P (cs @ rest) = rest"
  by (induction cs) (auto, (cases rest; simp)+)

lemma lex_number_all:
  assumes "lex_number cs = (cs, [])" and "rest = [] \<or> hd rest = 32"
  shows "lex_number (cs @ rest) = (cs, rest)"
proof -
  have sp: "rest = [] \<or> \<not> is_ascii_digit (hd rest)" using assms(2) by (auto simp: is_ascii_digit_def)
  show ?thesis
  proof (cases "list_all is_ascii_digit cs")
    case True
    then have "takeWhile is_ascii_digit (cs @ rest) = cs" "dropWhile is_ascii_digit (cs @ rest) = rest"
      using takeWhile_stop [OF True sp] by auto
    with assms(2) show ?thesis by (auto simp: lex_number_def split: list.splits)
  next
    case False
    define ds where "ds = takeWhile is_ascii_digit cs"
    from False have d: "dropWhile is_ascii_digit cs \<noteq> []" by (auto simp: list_all_iff dropWhile_eq_Nil_conv)
    then obtain c fs where c: "dropWhile is_ascii_digit cs = c # fs" by (cases "dropWhile is_ascii_digit cs") auto
    have cs: "cs = ds @ c # fs" unfolding ds_def c [symmetric] by simp
    have "\<not> is_ascii_digit c" using c by (metis hd_dropWhile d list.sel(1))
    moreover have "list_all is_ascii_digit ds" by (auto simp: ds_def list_all_iff dest: set_takeWhileD)
    ultimately have s: "takeWhile is_ascii_digit (cs @ rest) = ds \<and> dropWhile is_ascii_digit (cs @ rest) = c # fs @ rest"
      using takeWhile_stop [of is_ascii_digit ds "c # fs @ rest"] unfolding cs by simp
    from assms(1) have "c = 46" "dropWhile is_ascii_digit fs = []"
      unfolding lex_number_def Let_def c by (auto split: if_splits)
    then have "takeWhile is_ascii_digit (fs @ rest) = fs \<and> dropWhile is_ascii_digit (fs @ rest) = rest"
      by (intro takeWhile_stop sp) (auto simp: list_all_iff dropWhile_eq_Nil_conv)
    with s \<open>c = 46\<close> cs show ?thesis by (simp add: lex_number_def)
  qed
qed

lemma lex_word:
  assumes "is_ascii s" and c: "chars s = c # cs" "ident_start c" "list_all (ident_char U) cs"
    and rest: "rest = [] \<or> hd rest = 32"
  shows "\<not> is_whitespace c" "lex_token U c (cs @ rest) = Inr (keyword_or_ident s, rest)"
proof -
  have n: "c \<noteq> 34" and w: "\<not> is_whitespace c"
    using c(2) by (auto simp: ident_start_def is_ascii_alphabetic_def is_whitespace_def)
  have "\<not> ident_char U 32" by (simp add: ident_char_def is_alphanumeric_def is_ascii_alphabetic_def is_ascii_digit_def)
  then have "takeWhile (ident_char U) (cs @ rest) = cs \<and> dropWhile (ident_char U) (cs @ rest) = rest"
    using rest by (intro takeWhile_stop c(3)) auto
  moreover have "utf8 (c # cs) = s" using c(1) utf8_chars_ascii [OF assms(1)] by simp
  ultimately show "lex_token U c (cs @ rest) = Inr (keyword_or_ident s, rest)" using c(2) n by (simp add: lex_token_def)
  show "\<not> is_whitespace c" by (rule w)
qed

lemma operator_start:
  assumes "c \<in> {33, 35, 37, 38, 40, 41, 42, 43, 44, 45, 47, 60, 61, 62, 91, 93, 124}"
  shows "c \<noteq> 34" "\<not> ident_start c" "\<not> is_ascii_digit c" "\<not> is_whitespace c"
  using assms by (auto simp: ident_start_def is_ascii_alphabetic_def is_ascii_digit_def is_whitespace_def)

lemma lex_symbol:
  assumes "c \<in> {33, 35, 37, 38, 40, 41, 42, 43, 44, 45, 47, 60, 61, 62, 91, 93, 124}" and rest: "rest = [] \<or> hd rest = 32"
  shows "single_operator c = Some t \<Longrightarrow> lex_token U c rest = Inr (t, rest)"
    and "double_operator c d = Some t \<Longrightarrow> lex_token U c (d # rest) = Inr (t, rest)"
proof -
  have "double_operator c 32 = None" by (simp add: double_operator_def)
  then show "single_operator c = Some t \<Longrightarrow> lex_token U c rest = Inr (t, rest)"
    using rest by (cases rest) (simp_all add: lex_token_def operator_start [OF assms(1)] lex_operator_def)
  show "double_operator c d = Some t \<Longrightarrow> lex_token U c (d # rest) = Inr (t, rest)"
    by (simp add: lex_token_def operator_start [OF assms(1)] lex_operator_def)
qed

lemma symbol_chars:
  "chars ''+'' = [43]" "chars ''-'' = [45]" "chars ''*'' = [42]" "chars ''/'' = [47]" "chars ''%'' = [37]"
  "chars ''=='' = [61, 61]" "chars ''!='' = [33, 61]" "chars ''<'' = [60]" "chars ''>'' = [62]" "chars ''<='' = [60, 61]"
  "chars ''>='' = [62, 61]" "chars ''&&'' = [38, 38]" "chars ''||'' = [124, 124]" "chars ''!'' = [33]" "chars ''#'' = [35]"
  "chars ''('' = [40]" "chars '')'' = [41]" "chars ''['' = [91]" "chars '']'' = [93]" "chars '','' = [44]"
  by (simp_all add: chars_ascii is_ascii_def bytes_of_def)

lemma keyword_chars:
  "chars ''true'' = [116, 114, 117, 101]" "chars ''false'' = [102, 97, 108, 115, 101]"
  "chars ''nil'' = [110, 105, 108]" "chars ''select'' = [115, 101, 108, 101, 99, 116]"
  by (simp_all add: chars_ascii is_ascii_def bytes_of_def)

definition lexes :: "unicode \<Rightarrow> token \<Rightarrow> uchar list \<Rightarrow> bool" where
  "lexes U t rest \<longleftrightarrow>
     (\<exists>c cs. token_chars t = c # cs \<and> \<not> is_whitespace c \<and> lex_token U c (cs @ rest) = Inr (t, rest))"

lemma lexes_single:
  assumes "token_chars t = [c]" and c: "c \<in> {33, 35, 37, 38, 40, 41, 42, 43, 44, 45, 47, 60, 61, 62, 91, 93, 124}"
    and "rest = [] \<or> hd rest = 32" and "single_operator c = Some t"
  shows "lexes U t rest"
  using assms(1) operator_start(4) [OF c] lex_symbol(1) [OF c assms(3,4), of U]
  unfolding lexes_def by (intro exI [of _ c] exI [of _ "[]"]) simp

lemma lexes_double:
  assumes "token_chars t = [c, d]" and c: "c \<in> {33, 35, 37, 38, 40, 41, 42, 43, 44, 45, 47, 60, 61, 62, 91, 93, 124}"
    and "rest = [] \<or> hd rest = 32" and "double_operator c d = Some t"
  shows "lexes U t rest"
  using assms(1) operator_start(4) [OF c] lex_symbol(2) [OF c assms(3,4), of U]
  unfolding lexes_def by (intro exI [of _ c] exI [of _ "[d]"]) simp

lemma lexes_keyword:
  "token_chars t = chars s \<Longrightarrow> chars s = c # cs \<Longrightarrow> is_ascii s \<Longrightarrow> ident_start c \<Longrightarrow> list_all (ident_char U) cs \<Longrightarrow>
   rest = [] \<or> hd rest = 32 \<Longrightarrow> keyword_or_ident s = t \<Longrightarrow> lexes U t rest"
  unfolding lexes_def using lex_word by metis

lemmas char_kinds = ident_start_def ident_char_def is_alphanumeric_def is_ascii_alphabetic_def is_ascii_digit_def

lemma lex_good_token:
  assumes g: "good_token U t" and rest: "rest = [] \<or> hd rest = 32"
  shows "lexes U t rest"
proof (cases t)
  case (TokString s)
  with g have "34 \<notin> set (chars s)" "s = utf8 (chars s)" using rust_strD by auto
  with TokString rest show ?thesis
    by (auto simp: lexes_def lex_token_def lex_string_plain is_whitespace_def)
next
  case (TokNumber s)
  with g obtain c cs where c: "chars s = c # cs" by (cases "chars s") (auto simp: chars_ascii bytes_of_def)
  with g TokNumber have d: "is_ascii_digit c" by simp
  then have n: "c \<noteq> 34" "\<not> ident_start c" "\<not> is_whitespace c"
    by (auto simp: is_ascii_digit_def ident_start_def is_ascii_alphabetic_def is_whitespace_def)
  from g TokNumber c have "lex_number (c # cs @ rest) = (c # cs, rest)"
    using lex_number_all [OF _ rest, of "c # cs"] by simp
  moreover have "utf8 (c # cs) = s" using g TokNumber c utf8_chars_ascii [of s] by simp
  ultimately show ?thesis using c TokNumber d n by (simp add: lexes_def lex_token_def)
next
  case (TokIdent s)
  with g obtain c cs where c: "chars s = c # cs" by (cases "chars s") (auto simp: chars_ascii bytes_of_def)
  with g TokIdent rest show ?thesis by (intro lexes_keyword [of t s c cs]) simp_all
next
  case TokTrue
  with rest show ?thesis
    by (intro lexes_keyword [OF _ keyword_chars(1)]) (simp_all add: is_ascii_def char_kinds keyword_or_ident_def)
next
  case TokFalse
  with rest show ?thesis
    by (intro lexes_keyword [OF _ keyword_chars(2)]) (simp_all add: is_ascii_def char_kinds keyword_or_ident_def)
next
  case TokNil
  with rest show ?thesis
    by (intro lexes_keyword [OF _ keyword_chars(3)]) (simp_all add: is_ascii_def char_kinds keyword_or_ident_def)
next
  case TokSelect
  with rest show ?thesis
    by (intro lexes_keyword [OF _ keyword_chars(4)]) (simp_all add: is_ascii_def char_kinds keyword_or_ident_def)
next
  case TokEq
  with rest show ?thesis by (intro lexes_double [of t 61 61]) (simp_all add: symbol_chars double_operator_def)
next
  case TokNeq
  with rest show ?thesis by (intro lexes_double [of t 33 61]) (simp_all add: symbol_chars double_operator_def)
next
  case TokLe
  with rest show ?thesis by (intro lexes_double [of t 60 61]) (simp_all add: symbol_chars double_operator_def)
next
  case TokGe
  with rest show ?thesis by (intro lexes_double [of t 62 61]) (simp_all add: symbol_chars double_operator_def)
next
  case TokAnd
  with rest show ?thesis by (intro lexes_double [of t 38 38]) (simp_all add: symbol_chars double_operator_def)
next
  case TokOr
  with rest show ?thesis by (intro lexes_double [of t 124 124]) (simp_all add: symbol_chars double_operator_def)
next
  case TokPlus
  with rest show ?thesis by (intro lexes_single [of t 43]) (simp_all add: symbol_chars single_operator_def)
next
  case TokMinus
  with rest show ?thesis by (intro lexes_single [of t 45]) (simp_all add: symbol_chars single_operator_def)
next
  case TokStar
  with rest show ?thesis by (intro lexes_single [of t 42]) (simp_all add: symbol_chars single_operator_def)
next
  case TokSlash
  with rest show ?thesis by (intro lexes_single [of t 47]) (simp_all add: symbol_chars single_operator_def)
next
  case TokPercent
  with rest show ?thesis by (intro lexes_single [of t 37]) (simp_all add: symbol_chars single_operator_def)
next
  case TokLt
  with rest show ?thesis by (intro lexes_single [of t 60]) (simp_all add: symbol_chars single_operator_def)
next
  case TokGt
  with rest show ?thesis by (intro lexes_single [of t 62]) (simp_all add: symbol_chars single_operator_def)
next
  case TokNot
  with rest show ?thesis by (intro lexes_single [of t 33]) (simp_all add: symbol_chars single_operator_def)
next
  case TokHash
  with rest show ?thesis by (intro lexes_single [of t 35]) (simp_all add: symbol_chars single_operator_def)
next
  case TokLParen
  with rest show ?thesis by (intro lexes_single [of t 40]) (simp_all add: symbol_chars single_operator_def)
next
  case TokRParen
  with rest show ?thesis by (intro lexes_single [of t 41]) (simp_all add: symbol_chars single_operator_def)
next
  case TokLBracket
  with rest show ?thesis by (intro lexes_single [of t 91]) (simp_all add: symbol_chars single_operator_def)
next
  case TokRBracket
  with rest show ?thesis by (intro lexes_single [of t 93]) (simp_all add: symbol_chars single_operator_def)
next
  case TokComma
  with rest show ?thesis by (intro lexes_single [of t 44]) (simp_all add: symbol_chars single_operator_def)
qed

section \<open>Lexing a text\<close>

fun spaced :: "token list \<Rightarrow> uchar list" where
  "spaced [] = []"
| "spaced [t] = token_chars t"
| "spaced (t # u # ts) = token_chars t @ 32 # spaced (u # ts)"

lemma lex_spaced: "\<forall>t \<in> set ts. good_token U t \<Longrightarrow> lex_all U (spaced ts) = Inr ts"
proof (induction ts rule: spaced.induct)
  case (2 t)
  then obtain c cs where "token_chars t = c # cs" "\<not> is_whitespace c" "lex_token U c (cs @ []) = Inr (t, [])"
    using lex_good_token [of U t "[]"] by (auto simp: lexes_def)
  then show ?case by simp
next
  case (3 t u ts)
  then obtain c cs where "token_chars t = c # cs" "\<not> is_whitespace c"
    "lex_token U c (cs @ 32 # spaced (u # ts)) = Inr (t, 32 # spaced (u # ts))"
    using lex_good_token [of U t "32 # spaced (u # ts)"] by (auto simp: lexes_def)
  moreover have "is_whitespace 32" by (simp add: is_whitespace_def)
  ultimately show ?case using 3 by simp
qed simp

lemma spaced_text:
  "\<forall>t \<in> set ts. good_token U t \<Longrightarrow>
   utf8 (spaced ts) = join '' '' (map token_display ts) \<and> (\<forall>c \<in> set (spaced ts). is_scalar c)"
proof (induction ts rule: spaced.induct)
  case (2 t)
  then show ?case using token_chars_text [of U t] by simp
next
  case (3 t u ts)
  have "utf8 (32 # spaced (u # ts)) = utf8 [32] @ utf8 (spaced (u # ts))" by (simp flip: utf8_append)
  moreover have "utf8 [32] = '' ''" by code_simp
  moreover have "is_scalar 32" by (simp add: is_scalar_def)
  ultimately show ?case using 3 token_chars_text [of U t] by auto
qed simp

text \<open>The lexer inverts the text of tokens: written with spaces between them, tokens are read back as they
  were, for numbers and names as the grammar has them and strings without quotes.\<close>

lemma tokenize_inverts_display:
  assumes "\<forall>t \<in> set ts. good_token U t"
  shows "tokenize U (join '' '' (map token_display ts)) = Inr ts"
proof -
  have "chars (utf8 (spaced ts)) = spaced ts" using spaced_text [OF assms] by (intro chars_utf8) blast
  then show ?thesis using spaced_text [OF assms] lex_spaced [OF assms] by (simp add: tokenize_def)
qed

text \<open>C28.  The value of a text: an expression written out with as few parentheses as the precedences allow and
  spaces between its tokens is lexed, parsed and evaluated to the value of the expression, when no macro
  changes the text.\<close>

theorem eval_sqf_of_printed_text:
  assumes "printable (lookup_arity (sq_commands E)) e" and "\<forall>t \<in> set (print_at 0 e). good_token (sq_unicode E) t"
    and "text = join '' '' (map token_display (print_at 0 e))" and "sq_preprocess E text \<in> {None, Some text}"
  shows "eval_sqf E text b st = sqf_eval E b e st"
proof -
  from assms(4) have "(case sq_preprocess E text of Some t \<Rightarrow> t | None \<Rightarrow> text) = text" by auto
  then show ?thesis
    unfolding eval_sqf_def Let_def using tokenize_inverts_display [OF assms(2)] parse_inverts_print [OF assms(1)]
    by (simp add: assms(3))
qed

definition demo_math :: math_lib where
  "demo_math = \<lparr>ml_sin = id, ml_cos = id, ml_tan = id, ml_exp = id, ml_ln = id, ml_log10 = id, ml_asin = id, ml_acos = id,
     ml_atan = id, ml_atan2 = (\<lambda>y x. y), ml_degrees = id, ml_radians = id\<rparr>"

definition demo_sqf :: sqf_env where
  "demo_sqf = \<lparr>sq_unicode = no_unicode, sq_math = demo_math, sq_nanos = 0, sq_commands = load_commands None,
     sq_preprocess = Some\<rparr>"

definition sum_of_product :: sqf_expr where
  "sum_of_product = SBinary OpAdd (SInt 1) (SBinary OpMul (SInt 2) (SInt 3))"

theorem eval_sqf_of_printed_text_witness:
  "eval_sqf demo_sqf ''1 + 2 * 3'' Map.empty 0 = Some (Inr (DInt 7), 0)"
proof -
  have t: "print_at 0 sum_of_product = [TokNumber ''1'', TokPlus, TokNumber ''2'', TokStar, TokNumber ''3'']"
    by code_simp
  have "eval_sqf demo_sqf ''1 + 2 * 3'' Map.empty 0 = sqf_eval demo_sqf Map.empty sum_of_product 0"
  proof (rule eval_sqf_of_printed_text)
    show "printable (lookup_arity (sq_commands demo_sqf)) sum_of_product" by (simp add: sum_of_product_def)
    show "\<forall>t \<in> set (print_at 0 sum_of_product). good_token (sq_unicode demo_sqf) t"
      unfolding t by (simp add: chars_ascii is_ascii_def bytes_of_def is_ascii_digit_def lex_number_def)
    show "''1 + 2 * 3'' = join '' '' (map token_display (print_at 0 sum_of_product))" unfolding t by simp
    show "sq_preprocess demo_sqf ''1 + 2 * 3'' \<in> {None, Some ''1 + 2 * 3''}" by (simp add: demo_sqf_def)
  qed
  also have "\<dots> = Some (Inr (DInt 7), 0)"
    by (simp add: sum_of_product_def with_state_def sqf_add_def sqf_arith_def is_text_def)
  finally show ?thesis .
qed

section \<open>Panics\<close>

text \<open>C29.  An SQF operator panics exactly on an integer division or remainder by 0, or of the smallest integer by
  \<open>-1\<close>: \<open>SELECT SQF_EVAL('1 / 0')\<close> does not return an error, it aborts.\<close>

theorem sqf_panics_on_division:
  "apply_binary opr l r = None \<longleftrightarrow>
     opr \<in> {OpDiv, OpMod} \<and>
     (\<exists>a b. l = DInt a \<and> r = DInt b \<and> (b = 0 \<or> (sint a = i64_min \<and> sint b = - 1)))"
proof -
  have a: "sqf_arith f g l r = None \<longleftrightarrow> (\<exists>a b. l = DInt a \<and> r = DInt b \<and> f a b = None)" for f g
    by (cases l; cases r) (auto simp: sqf_arith_def split: option.splits)
  have i: "sqf_arith_int f l r = None \<longleftrightarrow> (\<exists>a b. l = DInt a \<and> r = DInt b \<and> f a b = None)" for f
    by (cases l; cases r) (auto simp: sqf_arith_int_def)
  show ?thesis
    by (cases opr) (auto simp: a i sqf_add_def i64_div_def i64_rem_def simp del: not_None_eq)
qed

text \<open>The text of a string does not double its quotes, so it does not read back.\<close>

lemma quote_not_escaped:
  "tokenize U (token_display (TokString [CHR 34])) = Inl ''unclosed SQF string literal''"
  by (simp add: tokenize_def chars_ascii is_ascii_def bytes_of_def is_whitespace_def lex_token_def)

text \<open>Commands are looked up as they are written when they stand between their operands, but in lower case
  elsewhere: \<open>1 Min 2\<close> is refused.\<close>

lemma infix_command_case:
  "is_binary_cmd (lookup_arity (load_commands None)) (TokIdent ''min'')"
  "\<not> is_binary_cmd (lookup_arity (load_commands None)) (TokIdent ''Min'')"
  by (simp_all add: is_binary_cmd_def lookup_arity_def offline_commands native_names_def native_info_def native_meta_def)

text \<open>The sign of a float zero is 1.\<close>

lemma sign_of_zero: "f64_signum f64_zero = f64_of_int 1" "cmd_sign [DInt 0] = sok (DInt 0)"
  by (simp_all add: cmd_sign_def need_def f64_signum_def f64_is_nan_def f64_mag_def f64_sign_def f64_zero_def inf_mag_def)

end
