(* ===== verification/SqfLiteral.thy ===== *)
theory SqfLiteral
  imports SqfLexer TextFormats
begin

text \<open>
  \<open>parser/sqf_literal.rs\<close>: the parser of SQF literals.  A parser's error is the input at which it stands and
  the kind the combinators give it.  The recursion has fuel, \<open>None\<close> when that runs out; \<open>parse_sqf_literal\<close>
  gives it twice the length of the text and two.
\<close>

datatype nom_kind = KindTag | KindDigit | KindMapRes | KindTooLarge

fun nom_kind_debug :: "nom_kind \<Rightarrow> rstr" where
  "nom_kind_debug KindTag = ''Tag''"
| "nom_kind_debug KindDigit = ''Digit''"
| "nom_kind_debug KindMapRes = ''MapRes''"
| "nom_kind_debug KindTooLarge = ''TooLarge''"

type_synonym literal_result = "(rstr \<times> nom_kind) + (json \<times> rstr)"

definition literal_depth :: nat where
  "literal_depth = 128"

section \<open>Atoms\<close>

definition literal_word :: "rstr \<Rightarrow> json \<Rightarrow> rstr \<Rightarrow> literal_result" where
  "literal_word w v input =
     (if starts_with input w then Inr (v, drop (length w) input) else Inl (input, KindTag))"

definition literal_nil :: "rstr \<Rightarrow> literal_result" where
  "literal_nil input = literal_word ''nil'' JNull input"

definition literal_bool :: "rstr \<Rightarrow> literal_result" where
  "literal_bool input =
     (case literal_word ''true'' (JBool True) input of
        Inr r \<Rightarrow> Inr r | Inl _ \<Rightarrow> literal_word ''false'' (JBool False) input)"

text \<open>The text of a number: a sign, a zero or digits, and a point with digits if there are any.\<close>

definition integer_digits :: "rstr \<Rightarrow> (rstr \<times> nom_kind) + (rstr \<times> rstr)" where
  "integer_digits r =
     (if starts_with r ''0'' then Inr (''0'', tl r)
      else if takeWhile is_digit r = [] then Inl (r, KindDigit)
      else Inr (takeWhile is_digit r, dropWhile is_digit r))"

definition fraction_digits :: "rstr \<Rightarrow> rstr \<times> rstr" where
  "fraction_digits r =
     (if starts_with r ''.'' \<and> takeWhile is_digit (tl r) \<noteq> []
      then (CHR ''.'' # takeWhile is_digit (tl r), dropWhile is_digit (tl r)) else ([], r))"

definition number_text :: "rstr \<Rightarrow> (rstr \<times> nom_kind) + (rstr \<times> rstr)" where
  "number_text input =
     (let (sign, r) = (if starts_with input ''-'' then (''-'', tl input) else ([], input))
      in bind_res (integer_digits r) (\<lambda>(ds, r2).
           let (fs, r3) = fraction_digits r2 in Inr (sign @ ds @ fs, r3)))"

text \<open>\<open>Value::from\<close>: a float that is not finite becomes null.\<close>

definition json_of_f64 :: "f64 \<Rightarrow> json" where
  "json_of_f64 f = (if f64_is_finite f then JNumber (JFloat f) else JNull)"

definition json_of_i64 :: "i64 \<Rightarrow> json" where
  "json_of_i64 n = JNumber (if 0 \<le> sint n then PosInt n else NegInt n)"

definition number_json :: "rstr \<Rightarrow> json option" where
  "number_json s =
     (if CHR ''.'' \<in> set s then map_option json_of_f64 (parse_f64 s) else map_option json_of_i64 (parse_i64 s))"

definition literal_number :: "rstr \<Rightarrow> literal_result" where
  "literal_number input =
     bind_res (number_text input) (\<lambda>(s, rest).
       case number_json s of Some v \<Rightarrow> Inr (v, rest) | None \<Rightarrow> Inl (input, KindMapRes))"

text \<open>After the opening quote; the quote is byte 34.\<close>

definition literal_string :: "rstr \<Rightarrow> literal_result" where
  "literal_string input =
     (case lex_string (CHR 34) (tl input) of
        Some (s, rest) \<Rightarrow> Inr (JString s, rest) | None \<Rightarrow> Inl (tl input, KindTag))"

section \<open>Values and arrays\<close>

definition blank :: "char \<Rightarrow> bool" where
  "blank c = (c \<in> {CHR '' '', CHR 9, CHR 10, CHR 13})"

definition multispace0 :: "rstr \<Rightarrow> rstr" where
  "multispace0 s = dropWhile blank s"

definition literal_atom :: "rstr \<Rightarrow> literal_result" where
  "literal_atom input =
     (case input of
        [] \<Rightarrow> Inl (input, KindTag)
      | c # _ \<Rightarrow>
          (if c = CHR ''n'' then literal_nil input
           else if c = CHR ''t'' \<or> c = CHR ''f'' then literal_bool input
           else if c = CHR 34 then literal_string input
           else if c = CHR ''-'' \<or> is_digit c then literal_number input
           else Inl (input, KindTag)))"

text \<open>\<open>parse_items\<close> is the loop of \<open>parse_array\<close>; a trailing comma is allowed.\<close>

definition after_value :: "json list \<Rightarrow> rstr \<Rightarrow> (rstr \<Rightarrow> literal_result option) \<Rightarrow> literal_result option" where
  "after_value vs rest continue =
     (case multispace0 rest of
        [] \<Rightarrow> Some (Inl ([], KindTag))
      | c # r \<Rightarrow>
          (if c = CHR '','' then
             (case multispace0 r of
                [] \<Rightarrow> continue []
              | d # r' \<Rightarrow> (if d = CHR '']'' then Some (Inr (JArray vs, r')) else continue (d # r')))
           else if c = CHR '']'' then Some (Inr (JArray vs, r))
           else Some (Inl (c # r, KindTag))))"

lemma after_value_cong [fundef_cong]:
  "vs = vs' \<Longrightarrow> r = r' \<Longrightarrow> (\<And>x. f x = g x) \<Longrightarrow> after_value vs r f = after_value vs' r' g"
  by (simp add: after_value_def cong: list.case_cong if_cong)

definition lit_bind :: "literal_result option \<Rightarrow> (json \<Rightarrow> rstr \<Rightarrow> literal_result option) \<Rightarrow> literal_result option" where
  "lit_bind r f = (case r of None \<Rightarrow> None | Some (Inl e) \<Rightarrow> Some (Inl e) | Some (Inr (v, rest)) \<Rightarrow> f v rest)"

lemma lit_bind_simps [simp]:
  "lit_bind None f = None" "lit_bind (Some (Inl e)) f = Some (Inl e)" "lit_bind (Some (Inr (v, rest))) f = f v rest"
  by (simp_all add: lit_bind_def)

fun parse_value :: "nat \<Rightarrow> nat \<Rightarrow> rstr \<Rightarrow> literal_result option"
  and parse_items :: "nat \<Rightarrow> nat \<Rightarrow> json list \<Rightarrow> rstr \<Rightarrow> literal_result option" where
  "parse_value 0 depth input = None"
| "parse_value (Suc n) depth input =
     (if literal_depth < depth then Some (Inl (input, KindTooLarge))
      else if \<not> starts_with input ''['' then Some (literal_atom input)
      else let i = multispace0 (tl input)
           in if starts_with i '']'' then Some (Inr (JArray [], tl i)) else parse_items n depth [] i)"
| "parse_items 0 depth vs input = None"
| "parse_items (Suc n) depth vs input =
     lit_bind (parse_value n (depth + 1) (multispace0 input)) (\<lambda>v rest.
       after_value (vs @ [v]) rest (parse_items n depth (vs @ [v])))"

definition parse_sqf_literal :: "unicode \<Rightarrow> rstr \<Rightarrow> json sres option" where
  "parse_sqf_literal U input =
     (let trimmed = trim input
      in if trimmed = [] then Some (Inl ''empty input'')
         else case parse_value (2 * length trimmed + 2) 0 (multispace0 trimmed) of
                None \<Rightarrow> None
              | Some (Inr (v, remaining)) \<Rightarrow>
                  (if trim remaining = [] then Some (Inr v)
                   else Some (Inl (''trailing characters after SQF literal: '' @ str_debug U (trim remaining))))
              | Some (Inl (at, kind)) \<Rightarrow>
                  Some (Inl (if kind = KindTooLarge
                    then ''maximum nesting depth exceeded ('' @ dec_nat literal_depth @ '' levels)''
                    else ''SQF parse error near byte '' @ dec_nat (length trimmed - length at) @ '': '' @ nom_kind_debug kind)))"

end
