(* ===== verification/SqfLiteralProps.thy ===== *)
theory SqfLiteralProps
  imports SqfLiteral
begin

text \<open>
  The parser of SQF literals returns on every text: each value takes at least one byte, so the fuel that
  \<open>parse_sqf_literal\<close> gives is enough.
\<close>

section \<open>Values take bytes\<close>

lemma literal_word_shorter: "literal_word w v input = Inr (x, rest) \<Longrightarrow> w \<noteq> [] \<Longrightarrow> length rest < length input"
  by (cases w) (auto simp: literal_word_def starts_with_iff split: if_splits)

lemma integer_digits_shorter: "integer_digits r = Inr (ds, rest) \<Longrightarrow> length rest < length r"
proof -
  assume a: "integer_digits r = Inr (ds, rest)"
  have "length (dropWhile is_digit r) < length r" if "takeWhile is_digit r \<noteq> []"
  proof -
    have "length (takeWhile is_digit r) + length (dropWhile is_digit r) = length r"
      by (metis length_append takeWhile_dropWhile_id)
    moreover have "0 < length (takeWhile is_digit r)" using that by simp
    ultimately show ?thesis by linarith
  qed
  then show ?thesis using a by (cases r) (auto simp: integer_digits_def split: if_splits)
qed

lemma fraction_digits_le: "length (snd (fraction_digits r)) \<le> length r"
proof -
  have "length (dropWhile is_digit (tl r)) \<le> length r"
    by (rule order.trans [OF length_dropWhile_le]) simp
  then show ?thesis by (simp add: fraction_digits_def)
qed

lemma literal_number_shorter: "literal_number input = Inr (v, rest) \<Longrightarrow> length rest < length input"
proof -
  assume "literal_number input = Inr (v, rest)"
  then obtain s where "number_text input = Inr (s, rest)"
    by (auto simp: literal_number_def bind_res_Inr_iff split: option.splits)
  then obtain sign r ds r2 where s: "(sign, r) = (if starts_with input ''-'' then (''-'', tl input) else ([], input))"
      and i: "integer_digits r = Inr (ds, r2)" and rest: "rest = snd (fraction_digits r2)"
    by (auto simp: number_text_def bind_res_Inr_iff Let_def case_prod_unfold split: if_splits)
  have "length r \<le> length input" using s by (auto split: if_splits)
  then show ?thesis using integer_digits_shorter [OF i] fraction_digits_le [of r2] rest by simp
qed

lemma literal_atom_shorter: "literal_atom input = Inr (v, rest) \<Longrightarrow> length rest < length input"
proof -
  have s: "literal_string input = Inr (v, rest) \<Longrightarrow> input \<noteq> [] \<Longrightarrow> length rest < length input"
    by (cases input) (auto simp: literal_string_def dest: lex_string_shorter split: option.splits)
  have b: "literal_bool input = Inr (v, rest) \<Longrightarrow> length rest < length input"
    by (auto simp: literal_bool_def split: sum.splits dest: literal_word_shorter)
  assume "literal_atom input = Inr (v, rest)"
  then show ?thesis
    using s b literal_word_shorter [of "''nil''" JNull input v rest] literal_number_shorter [of input v rest]
    by (auto simp: literal_atom_def literal_nil_def split: list.splits if_splits)
qed

lemma multispace0_le: "length (multispace0 s) \<le> length s"
  unfolding multispace0_def by (rule length_dropWhile_le)

section \<open>Enough fuel\<close>

text \<open>A result, and an input left over that is shorter.\<close>

definition ends_before :: "nat \<Rightarrow> literal_result option \<Rightarrow> bool" where
  "ends_before n r = (r \<noteq> None \<and> (\<forall>v rest. r = Some (Inr (v, rest)) \<longrightarrow> length rest < n))"

lemma after_value_ends:
  assumes "length rest < n" "\<And>r. length r < length rest \<Longrightarrow> ends_before n (continue r)"
  shows "ends_before n (after_value vs rest continue)"
proof -
  have m: "length (multispace0 s) \<le> length s" for s by (rule multispace0_le)
  show ?thesis
  proof (cases "multispace0 rest")
    case Nil
    then show ?thesis by (simp add: after_value_def ends_before_def)
  next
    case (Cons c r)
    then have r: "length r < length rest" using m [of rest] by simp
    show ?thesis
    proof (cases "multispace0 r")
      case Nil
      have "length ([] :: rstr) < length rest" using r by (metis gr_zeroI list.size(3) not_less_zero)
      then have "ends_before n (continue [])" by (rule assms(2))
      then show ?thesis using assms(1) r Cons Nil by (auto simp: after_value_def ends_before_def)
    next
      case d: (Cons d r')
      then have l: "length (d # r') < length rest" using m [of r] r by (metis order.strict_trans1)
      then have "ends_before n (continue (d # r'))" by (rule assms(2))
      then show ?thesis using assms(1) r l Cons d by (auto simp: after_value_def ends_before_def)
    qed
  qed
qed

lemma ends_before_mono: "ends_before m r \<Longrightarrow> m \<le> n \<Longrightarrow> ends_before n r"
  by (auto simp: ends_before_def)

lemma fuel_enough:
  "2 * length input + 2 \<le> n \<Longrightarrow> ends_before (length input) (parse_value n d input)"
  "2 * length input + 3 \<le> n \<Longrightarrow> ends_before (length input) (parse_items n d vs input)"
proof (induction n arbitrary: d vs input)
  case (Suc n)
  {
    case 1
    let ?i = "multispace0 (tl input)"
    have "ends_before (length input) (Some (literal_atom input))"
      using literal_atom_shorter by (auto simp: ends_before_def)
    moreover have "ends_before (length input) (parse_value (Suc n) d input)" if "starts_with input ''[''"
    proof -
      have ne: "input \<noteq> []" using that by auto
      have i: "length ?i < length input" using multispace0_le [of "tl input"] ne
        by (metis Suc_pred diff_Suc_1 le_imp_less_Suc length_greater_0_conv length_tl)
      then have "ends_before (length ?i) (parse_items n d [] ?i)" using 1 by (intro Suc.IH(2)) simp
      then have "ends_before (length input) (parse_items n d [] ?i)" using i by (auto intro: ends_before_mono)
      then show ?thesis using that i by (auto simp: ends_before_def Let_def)
    qed
    ultimately show ?case by (auto simp: ends_before_def)
  next
    case 2
    let ?j = "multispace0 input"
    have j: "length ?j \<le> length input" by (rule multispace0_le)
    then have v: "ends_before (length ?j) (parse_value n (d + 1) ?j)" using 2 by (intro Suc.IH(1)) simp
    show ?case
    proof (cases "parse_value n (d + 1) ?j")
      case None
      then show ?thesis using v by (simp add: ends_before_def)
    next
      case (Some r)
      show ?thesis
      proof (cases r)
        case (Inl e)
        then show ?thesis using Some by (simp add: ends_before_def)
      next
        case (Inr p)
        obtain x rest where p: "p = (x, rest)" by fastforce
        have rest: "length rest < length input" using v Some Inr p j by (simp add: ends_before_def)
        have "ends_before (length input) (parse_items n d (vs @ [x]) t)" if t: "length t < length rest" for t
        proof (rule ends_before_mono)
          show "ends_before (length t) (parse_items n d (vs @ [x]) t)" using t rest 2 by (intro Suc.IH(2)) simp
          show "length t \<le> length input" using t rest by simp
        qed
        then have "ends_before (length input) (after_value (vs @ [x]) rest (parse_items n d (vs @ [x])))"
          by (rule after_value_ends [OF rest])
        then show ?thesis using Some Inr p by simp
      qed
    qed
  }
qed simp_all

text \<open>The parser of SQF literals returns a value or an error on every text.\<close>

theorem literal_parser_returns: "parse_sqf_literal U input \<noteq> None"
proof -
  let ?t = "trim input"
  have "length (multispace0 ?t) \<le> length ?t" by (rule multispace0_le)
  then have "parse_value (2 * length ?t + 2) 0 (multispace0 ?t) \<noteq> None"
    using fuel_enough(1) [of "multispace0 ?t" "2 * length ?t + 2" 0] by (simp add: ends_before_def)
  then show ?thesis by (auto simp: parse_sqf_literal_def Let_def split: sum.splits)
qed

end
