(* ===== verification/SaveFile.thy ===== *)
theory SaveFile
  imports Dates TextFormats
begin

text \<open>
  \<open>dispatch/commands/io.rs\<close>: the sandbox of the data directory, saving and loading the database, export and
  import.  The disk maps paths to the contents of regular files and remembers the states it has passed
  through, which are what a crash can leave behind.  The operating system decides which directories exist
  and where links lead, which reads fail, and what the n-th writing call does.
\<close>

section \<open>The disk\<close>

text \<open>A writing call fails before it has any effect, or after so many bytes.\<close>

datatype fault = FailsBefore rstr | FailsAfter nat rstr

record os =
  os_data_dir :: rstr
  os_canonical :: "rstr \<Rightarrow> rstr option"
  os_make_dirs :: "rstr \<Rightarrow> rstr option"
  os_unreadable :: "rstr \<Rightarrow> rstr option"
  os_missing :: rstr
  os_fault :: "nat \<Rightarrow> fault option"

record disk =
  dk_files :: "rstr \<rightharpoonup> bytes"
  dk_past :: "(rstr \<rightharpoonup> bytes) list"
  dk_calls :: nat

definition disk_step :: "(rstr \<rightharpoonup> bytes) list \<Rightarrow> (rstr \<rightharpoonup> bytes) \<Rightarrow> disk \<Rightarrow> disk" where
  "disk_step between f d = \<lparr>dk_files = f, dk_past = dk_past d @ [dk_files d] @ between, dk_calls = dk_calls d + 1\<rparr>"

text \<open>A file that is being written: truncated first, then longer byte by byte.\<close>

definition growing :: "rstr \<Rightarrow> bytes \<Rightarrow> nat \<Rightarrow> (rstr \<rightharpoonup> bytes) \<Rightarrow> (rstr \<rightharpoonup> bytes) list" where
  "growing p b n f = map (\<lambda>k. f(p \<mapsto> take k b)) [0..<n]"

definition write_file :: "os \<Rightarrow> rstr \<Rightarrow> bytes \<Rightarrow> disk \<Rightarrow> unit sres \<times> disk" where
  "write_file OS p b d =
     (case os_fault OS (dk_calls d) of
        None \<Rightarrow> (Inr (), disk_step (growing p b (length b) (dk_files d)) ((dk_files d)(p \<mapsto> b)) d)
      | Some (FailsBefore e) \<Rightarrow> (Inl e, disk_step [] (dk_files d) d)
      | Some (FailsAfter n e) \<Rightarrow>
          (Inl e, disk_step (growing p b n (dk_files d)) ((dk_files d)(p \<mapsto> take n b)) d))"

definition fault_text :: "fault \<Rightarrow> rstr" where
  "fault_text f = (case f of FailsBefore e \<Rightarrow> e | FailsAfter _ e \<Rightarrow> e)"

text \<open>Renaming replaces the target at once.\<close>

definition rename_file :: "os \<Rightarrow> rstr \<Rightarrow> rstr \<Rightarrow> disk \<Rightarrow> unit sres \<times> disk" where
  "rename_file OS a b d =
     (case os_fault OS (dk_calls d) of
        Some f \<Rightarrow> (Inl (fault_text f), disk_step [] (dk_files d) d)
      | None \<Rightarrow>
          (case dk_files d a of
             None \<Rightarrow> (Inl (os_missing OS), disk_step [] (dk_files d) d)
           | Some c \<Rightarrow> (Inr (), disk_step [] ((dk_files d)(a := None, b \<mapsto> c)) d)))"

definition remove_file :: "os \<Rightarrow> rstr \<Rightarrow> disk \<Rightarrow> disk" where
  "remove_file OS p d =
     disk_step [] (if os_fault OS (dk_calls d) = None then (dk_files d)(p := None) else dk_files d) d"

definition read_file :: "os \<Rightarrow> rstr \<Rightarrow> disk \<Rightarrow> bytes sres" where
  "read_file OS p d =
     (case os_unreadable OS p of
        Some e \<Rightarrow> Inl e
      | None \<Rightarrow> (case dk_files d p of None \<Rightarrow> Inl (os_missing OS) | Some b \<Rightarrow> Inr b))"

section \<open>Paths\<close>

text \<open>\<open>Path::components\<close> on Unix: empty and \<open>.\<close> components are dropped, a leading \<open>.\<close> is kept.\<close>

definition proper_part :: "rstr \<Rightarrow> bool" where
  "proper_part c = (c \<noteq> [] \<and> c \<noteq> ''.'')"

definition path_components :: "rstr \<Rightarrow> rstr list" where
  "path_components p =
     (if starts_with p ''/'' then ''/'' # filter proper_part (split_on (CHR ''/'') p)
      else case split_on (CHR ''/'') p of
             [] \<Rightarrow> []
           | c # cs \<Rightarrow> (if c = [] then [] else [c]) @ filter proper_part cs)"

definition path_parent :: "rstr \<Rightarrow> rstr option" where
  "path_parent p =
     (case rev (path_components p) of
        [] \<Rightarrow> None
      | c # cs \<Rightarrow>
          (if c = ''/'' then None
           else Some (case rev cs of r # ds \<Rightarrow> (if r = ''/'' then r @ join ''/'' ds else join ''/'' (r # ds)) | [] \<Rightarrow> [])))"

definition path_join :: "rstr \<Rightarrow> rstr \<Rightarrow> rstr" where
  "path_join base name =
     (if starts_with name ''/'' then name
      else base @ (if base \<noteq> [] \<and> last base \<noteq> CHR ''/'' then ''/'' else []) @ name)"

definition path_within :: "rstr \<Rightarrow> rstr \<Rightarrow> bool" where
  "path_within p base = starts_with (path_components p) (path_components base)"

definition with_ext_suffix :: "rstr \<Rightarrow> rstr \<Rightarrow> rstr" where
  "with_ext_suffix path suffix = path @ ''.'' @ suffix"

definition path_exists :: "rstr \<Rightarrow> disk \<Rightarrow> bool" where
  "path_exists p d = (dk_files d p \<noteq> None)"

definition parent_within :: "os \<Rightarrow> rstr \<Rightarrow> rstr \<Rightarrow> unit sres" where
  "parent_within OS parent data_dir =
     (case os_make_dirs OS parent of
        Some e \<Rightarrow> Inl (error_response Io (''Cannot create dir: '' @ e))
      | None \<Rightarrow>
          (case os_canonical OS parent of
             None \<Rightarrow> Inl (error_response Io ''Cannot resolve path'')
           | Some cp \<Rightarrow>
               (case os_canonical OS data_dir of
                  None \<Rightarrow> Inl (error_response Io ''Cannot resolve data dir'')
                | Some cd \<Rightarrow>
                    (if path_within cp cd then Inr () else Inl (error_response Io ''Path escapes data directory'')))))"

definition ensure_within_data_dir :: "os \<Rightarrow> rstr \<Rightarrow> rstr \<Rightarrow> disk \<Rightarrow> unit sres" where
  "ensure_within_data_dir OS p data_dir d =
     bind_res (case path_parent p of None \<Rightarrow> Inr () | Some parent \<Rightarrow> parent_within OS parent data_dir) (\<lambda>_.
       if path_exists p d
       then (case os_canonical OS p of
               None \<Rightarrow> Inl (error_response Io ''Cannot resolve path'')
             | Some c \<Rightarrow>
                 (if path_within c (case os_canonical OS data_dir of Some cd \<Rightarrow> cd | None \<Rightarrow> data_dir) then Inr ()
                  else Inl (error_response Io ''Path escapes data directory'')))
       else Inr ())"

fun components_allowed :: "rstr list \<Rightarrow> unit sres" where
  "components_allowed [] = Inr ()"
| "components_allowed (c # cs) =
     (if c = ''..'' then Inl (error_response Io (quote_msg ''Path must not contain '' ''..'' []))
      else if c = ''~'' then Inl (error_response Io (quote_msg ''Path must not contain '' ''~'' []))
      else components_allowed cs)"

definition safe_data_path :: "os \<Rightarrow> rstr \<Rightarrow> disk \<Rightarrow> rstr sres" where
  "safe_data_path OS filename d =
     (if starts_with filename ''/'' then Inl (error_response Io ''Absolute paths are not allowed'')
      else bind_res (components_allowed (path_components filename)) (\<lambda>_.
        let p = path_join (os_data_dir OS) filename
        in bind_res (ensure_within_data_dir OS p (os_data_dir OS) d) (\<lambda>_. Inr p)))"

section \<open>Saving\<close>

definition first_or :: "rstr list \<Rightarrow> rstr \<Rightarrow> rstr" where
  "first_or args dflt = (case args of a # _ \<Rightarrow> a | [] \<Rightarrow> dflt)"

text \<open>The previous save becomes the backup, then the new one takes its place; a failure of the first renaming
  is ignored.\<close>

definition swap_in :: "os \<Rightarrow> rstr \<Rightarrow> disk \<Rightarrow> unit sres \<times> disk" where
  "swap_in OS path d =
     rename_file OS (with_ext_suffix path ''tmp'') path
       (if path_exists path d then snd (rename_file OS path (with_ext_suffix path ''bak'') d) else d)"

definition save_at :: "os \<Rightarrow> (sql_expr \<Rightarrow> rstr) \<Rightarrow> 'ast database \<Rightarrow> rstr \<Rightarrow> rstr \<Rightarrow> disk \<Rightarrow> rstr \<times> disk" where
  "save_at OS disp db filename path d =
     (case write_file OS (with_ext_suffix path ''tmp'') (export_binary disp db) d of
        (Inl e, d1) \<Rightarrow> (error_response Io (''Save failed: '' @ e), d1)
      | (Inr _, d1) \<Rightarrow>
          (case swap_in OS path d1 of
             (Inl e, d2) \<Rightarrow> (error_response Io (''Save failed: '' @ e), remove_file OS (with_ext_suffix path ''tmp'') d2)
           | (Inr _, d2) \<Rightarrow>
               (ok_response (json_text (quote_msg ''Saved to '' (os_data_dir OS @ ''/'' @ filename) [])), d2)))"

definition handle_save :: "os \<Rightarrow> (sql_expr \<Rightarrow> rstr) \<Rightarrow> 'ast database \<Rightarrow> rstr list \<Rightarrow> disk \<Rightarrow> rstr \<times> disk" where
  "handle_save OS disp db args d =
     (let filename = first_or args ''a3sql.bin''
      in if filename = [] then (error_response Io ''Filename must not be empty'', d)
         else case safe_data_path OS filename d of
           Inl e \<Rightarrow> (e, d)
         | Inr path \<Rightarrow>
             (case ensure_within_data_dir OS (with_ext_suffix path ''tmp'') (os_data_dir OS) d of
                Inl e \<Rightarrow> (e, d)
              | Inr _ \<Rightarrow> save_at OS disp db filename path d))"

definition persist_save :: "os \<Rightarrow> (sql_expr \<Rightarrow> rstr) \<Rightarrow> 'ast database \<Rightarrow> rstr \<Rightarrow> disk \<Rightarrow> unit sres \<times> disk" where
  "persist_save OS disp db path d =
     (case write_file OS (with_ext_suffix path ''tmp'') (export_binary disp db) d of
        (Inl e, d1) \<Rightarrow> (Inl (''Save failed: '' @ e), d1)
      | (Inr _, d1) \<Rightarrow>
          (case swap_in OS path d1 of
             (Inl e, d2) \<Rightarrow> (Inl (''Save failed: '' @ e), d2)
           | (Inr _, d2) \<Rightarrow> (Inr (), d2)))"

section \<open>Loading\<close>

text \<open>A file is read into a new database; the current one is replaced only when that succeeds.\<close>

definition load_bytes :: "eval_env \<Rightarrow> bytes \<Rightarrow> 'ast database sres panicking" where
  "load_bytes E b =
     (case import_binary E b db_new of
        None \<Rightarrow> None
      | Some (None, db) \<Rightarrow> Some (Inr db)
      | Some (Some e, _) \<Rightarrow> Some (Inl e))"

definition load_file :: "eval_env \<Rightarrow> os \<Rightarrow> rstr \<Rightarrow> disk \<Rightarrow> (error_code \<times> rstr + 'ast database) panicking" where
  "load_file E OS path d =
     (case read_file OS path d of
        Inl e \<Rightarrow> Some (Inl (Io, ''Read failed: '' @ e))
      | Inr b \<Rightarrow>
          (case load_bytes E b of
             None \<Rightarrow> None
           | Some (Inl e) \<Rightarrow> Some (Inl (Exec, ''Load failed: '' @ e))
           | Some (Inr db) \<Rightarrow> Some (Inr db)))"

definition both_failed :: "rstr \<Rightarrow> rstr \<Rightarrow> rstr" where
  "both_failed main_err bak_err = ''Load failed (main: '' @ main_err @ ''; backup: '' @ bak_err @ '')''"

definition persist_load :: "eval_env \<Rightarrow> os \<Rightarrow> rstr \<Rightarrow> disk \<Rightarrow> 'ast database \<Rightarrow> (unit sres \<times> 'ast database) panicking" where
  "persist_load E OS path d db =
     (case load_file E OS path d of
        None \<Rightarrow> None
      | Some (Inr fresh) \<Rightarrow> Some (Inr (), fresh)
      | Some (Inl (_, main_err)) \<Rightarrow>
          (case read_file OS (with_ext_suffix path ''bak'') d of
             Inl _ \<Rightarrow> Some (Inl main_err, db)
           | Inr b \<Rightarrow>
               (case load_bytes E b of
                  None \<Rightarrow> None
                | Some (Inl bak_err) \<Rightarrow> Some (Inl (both_failed main_err bak_err), db)
                | Some (Inr fresh) \<Rightarrow> Some (Inr (), fresh))))"

definition file_name :: "rstr \<Rightarrow> rstr" where
  "file_name p = (case rev (path_components p) of c # _ \<Rightarrow> (if c = ''/'' \<or> c = ''..'' then [] else c) | [] \<Rightarrow> [])"

definition handle_load :: "eval_env \<Rightarrow> os \<Rightarrow> rstr list \<Rightarrow> disk \<Rightarrow> 'ast database \<Rightarrow> (rstr \<times> 'ast database) panicking" where
  "handle_load E OS args d db =
     (let filename = first_or args ''a3sql.bin''
      in if filename = [] then Some (error_response Io ''Filename must not be empty'', db)
         else case safe_data_path OS filename d of
           Inl e \<Rightarrow> Some (e, db)
         | Inr path \<Rightarrow>
             (let bak = with_ext_suffix path ''bak''
              in case load_file E OS path d of
                   None \<Rightarrow> None
                 | Some (Inr fresh) \<Rightarrow>
                     Some (ok_response (json_text (quote_msg ''Loaded from '' (os_data_dir OS @ ''/'' @ filename) [])), fresh)
                 | Some (Inl (code, main_err)) \<Rightarrow>
                     (case read_file OS bak d of
                        Inl _ \<Rightarrow> Some (error_response code main_err, db)
                      | Inr b \<Rightarrow>
                          (case load_bytes E b of
                             None \<Rightarrow> None
                           | Some (Inl bak_err) \<Rightarrow> Some (error_response Exec (both_failed main_err bak_err), db)
                           | Some (Inr fresh) \<Rightarrow>
                               Some (ok_response (json_text (quote_msg ''Loaded from backup ''
                                   (os_data_dir OS @ ''/'' @ file_name bak)
                                   ('' ('' @ (if code = Io then ''main save unreadable'' else ''main save corrupt'') @
                                    '': '' @ main_err @ '')''))), fresh)))))"

section \<open>Export and import\<close>

text \<open>\<open>splitn(k, whitespace)\<close>: at most k pieces, the last one holds the rest.\<close>

fun splitn_ws :: "nat \<Rightarrow> uchar list \<Rightarrow> uchar list \<Rightarrow> uchar list list" where
  "splitn_ws k acc [] = [acc]"
| "splitn_ws k acc (c # cs) =
     (if 1 < k \<and> is_whitespace c then acc # splitn_ws (k - 1) [] cs else splitn_ws k (acc @ [c]) cs)"

definition splitn_whitespace :: "nat \<Rightarrow> rstr \<Rightarrow> rstr list" where
  "splitn_whitespace k s = map utf8 (splitn_ws k [] (chars s))"

definition nth_or :: "'a list \<Rightarrow> nat \<Rightarrow> 'a option" where
  "nth_or xs i = (if i < length xs then Some (xs ! i) else None)"

definition export_table :: "(rstr \<Rightarrow> rstr) \<Rightarrow> (sql_expr \<Rightarrow> rstr) \<Rightarrow> format \<Rightarrow> rstr option \<Rightarrow> 'ast database \<Rightarrow> rstr" where
  "export_table jq disp fmt name db =
     (case name of
        None \<Rightarrow> error_response Exec ''Usage: export <format> <table>''
      | Some n \<Rightarrow>
          (if n = [] then error_response Exec ''Usage: export <format> <table>''
           else case get_table n db of
             Inl e \<Rightarrow> error_response Table e
           | Inr t \<Rightarrow> ok_response (if fmt = FCsv then jq (export_as disp fmt t db) else export_as disp fmt t db)))"

definition handle_export :: "unicode \<Rightarrow> (rstr \<Rightarrow> rstr) \<Rightarrow> (sql_expr \<Rightarrow> rstr) \<Rightarrow> 'ast database \<Rightarrow> rstr \<Rightarrow> rstr" where
  "handle_export U jq disp db input =
     (let parts = splitn_whitespace 3 input;
          format_str = (case nth_or parts 1 of Some f \<Rightarrow> f | None \<Rightarrow> ''json'')
      in case format_from_str U format_str of
           Inl e \<Rightarrow> error_response Exec e
         | Inr FSql \<Rightarrow> ok_response (jq (export_sql db))
         | Inr FBinary \<Rightarrow> ok_response (json_text (hex_encode (export_binary disp db)))
         | Inr fmt \<Rightarrow> export_table jq disp fmt (map_option trim (nth_or parts 2)) db)"

definition handle_dump_sql :: "(rstr \<Rightarrow> rstr) \<Rightarrow> 'ast database \<Rightarrow> rstr" where
  "handle_dump_sql jq db = ok_response (jq (export_sql db))"

definition handle_import :: "(rstr \<Rightarrow> json sres) \<Rightarrow> eval_env \<Rightarrow> json_printer \<Rightarrow> rstr \<Rightarrow> rstr list \<Rightarrow> 'ast database
    \<Rightarrow> (rstr \<times> 'ast database) panicking" where
  "handle_import parse E J input args db =
     (let parts = splitn_whitespace 3 input;
          format_str = (case nth_or parts 1 of Some f \<Rightarrow> f | None \<Rightarrow> ''json'');
          tname = (case nth_or parts 2 of Some n \<Rightarrow> trim n | None \<Rightarrow> []);
          data = first_or args []
      in if tname = [] then Some (error_response Exec ''Usage: import <format> <table>'', db)
         else case format_from_str (env_unicode E) format_str of
           Inl e \<Rightarrow> Some (error_response Exec e, db)
         | Inr fmt \<Rightarrow>
             (if data = [] then Some (error_response Exec ''No data provided'', db)
              else map_option (\<lambda>(e, db').
                  (case e of None \<Rightarrow> ok_response (json_text (quote_msg ''Imported into '' tname [])) | Some m \<Rightarrow> error_response Exec m, db'))
                (import_as parse E J fmt tname data db)))"

definition export_file_name :: "rstr \<Rightarrow> rstr option \<Rightarrow> rstr" where
  "export_file_name format_str tname =
     (if format_str = ''sql'' then ''a3sql_export.sql''
      else case tname of Some t \<Rightarrow> t @ ''.'' @ format_str | None \<Rightarrow> ''a3sql_export.txt'')"

definition export_text :: "(sql_expr \<Rightarrow> rstr) \<Rightarrow> format \<Rightarrow> rstr option \<Rightarrow> 'ast database \<Rightarrow> rstr sres" where
  "export_text disp fmt tname db =
     (if fmt = FSql then Inr (export_sql db)
      else if fmt = FBinary then Inr (hex_encode (export_binary disp db))
      else case tname of
        None \<Rightarrow> Inl (error_response Exec ''Table name required for json/csv export'')
      | Some n \<Rightarrow>
          (case get_table n db of
             Inl e \<Rightarrow> Inl (error_response Table e)
           | Inr t \<Rightarrow> Inr (export_as disp fmt t db)))"

definition handle_export_to_file :: "unicode \<Rightarrow> os \<Rightarrow> (sql_expr \<Rightarrow> rstr) \<Rightarrow> 'ast database \<Rightarrow> rstr \<Rightarrow> rstr list \<Rightarrow> disk
    \<Rightarrow> rstr \<times> disk" where
  "handle_export_to_file U OS disp db trimmed args d =
     (let parts = splitn_whitespace 4 trimmed;
          format_str = (case nth_or parts 1 of Some f \<Rightarrow> f | None \<Rightarrow> ''json'');
          has_name = (case nth_or parts 2 of Some n \<Rightarrow> n \<noteq> [] | None \<Rightarrow> False);
          tname = (if has_name then nth_or parts 2 else None);
          cmd_path = (if has_name then nth_or parts 3 else nth_or parts 2);
          filename = (case cmd_path of Some p \<Rightarrow> p
                      | None \<Rightarrow> first_or args (export_file_name format_str tname))
      in if filename = [] then (error_response Io ''Filename must not be empty'', d)
         else case format_from_str U format_str of
           Inl e \<Rightarrow> (error_response Exec e, d)
         | Inr fmt \<Rightarrow>
             (case export_text disp fmt tname db of
                Inl r \<Rightarrow> (r, d)
              | Inr data \<Rightarrow>
                  (case safe_data_path OS filename d of
                     Inl e \<Rightarrow> (e, d)
                   | Inr path \<Rightarrow>
                       (case write_file OS path data d of
                          (Inl e, d1) \<Rightarrow> (error_response Io (''Write failed: '' @ e), d1)
                        | (Inr _, d1) \<Rightarrow> (ok_response (json_text (quote_msg ''Exported to '' path [])), d1)))))"

end
