(* ===== verification/SaveProps.thy ===== *)
theory SaveProps
  imports SaveFile StoreProps DateProps
begin

text \<open>
  Saving over a running system: at whatever point the process stops, what a later start loads is the previous
  save or the new one.  And a client's save changes nothing outside the data directory.
\<close>

section \<open>Crash states\<close>

text \<open>The states of the disk since \<open>d\<close>.\<close>

definition crash_states :: "disk \<Rightarrow> disk \<Rightarrow> (rstr \<rightharpoonup> bytes) set" where
  "crash_states d d' = insert (dk_files d') (set (drop (length (dk_past d)) (dk_past d')))"

lemma crash_disk_step [simp]:
  "crash_states d (disk_step between f d) = insert f (insert (dk_files d) (set between))"
  "dk_files (disk_step between f d) = f"
  by (auto simp: crash_states_def disk_step_def)

text \<open>The past only grows.\<close>

definition follows :: "disk \<Rightarrow> disk \<Rightarrow> bool" where
  "follows d d' \<longleftrightarrow> (\<exists>xs. dk_past d' = dk_past d @ dk_files d # xs) \<or> d' = d"

lemma follows_step [simp]: "follows d (disk_step between f d)"
  by (simp add: follows_def disk_step_def)

lemma follows_refl [simp]: "follows d d"
  by (simp add: follows_def)

lemma crash_refl [simp]: "crash_states d d = {dk_files d}"
  by (simp add: crash_states_def)

lemma crash_trans: "follows d d1 \<Longrightarrow> follows d1 d2 \<Longrightarrow> crash_states d d2 = crash_states d d1 \<union> crash_states d1 d2"
  by (auto simp: crash_states_def follows_def)

lemma follows_trans: "follows d d1 \<Longrightarrow> follows d1 d2 \<Longrightarrow> follows d d2"
  by (auto simp: follows_def)

section \<open>The writing calls\<close>

lemma write_follows: "write_file OS p b d = (r, d') \<Longrightarrow> follows d d'"
  by (auto simp: write_file_def split: option.splits fault.splits)

lemma write_states:
  "write_file OS p b d = (r, d') \<Longrightarrow> f \<in> crash_states d d' \<Longrightarrow> q \<noteq> p \<Longrightarrow> f q = dk_files d q"
  by (auto simp: write_file_def growing_def split: option.splits fault.splits)

lemma write_done: "write_file OS p b d = (Inr x, d') \<Longrightarrow> dk_files d' = (dk_files d)(p \<mapsto> b)"
  by (auto simp: write_file_def split: option.splits fault.splits)

lemma rename_follows: "rename_file OS a b d = (r, d') \<Longrightarrow> follows d d'"
  by (auto simp: rename_file_def split: option.splits)

lemma rename_states: "rename_file OS a b d = (r, d') \<Longrightarrow> crash_states d d' = {dk_files d, dk_files d'}"
  by (auto simp: rename_file_def split: option.splits)

lemma rename_done:
  "rename_file OS a b d = (Inr x, d') \<Longrightarrow> \<exists>c. dk_files d a = Some c \<and> dk_files d' = (dk_files d)(a := None, b \<mapsto> c)"
  by (auto simp: rename_file_def split: option.splits)

lemma rename_failed: "rename_file OS a b d = (Inl e, d') \<Longrightarrow> dk_files d' = dk_files d"
  by (auto simp: rename_file_def split: option.splits)

lemma suffix_names [simp]:
  "with_ext_suffix p ''tmp'' \<noteq> p" "with_ext_suffix p ''bak'' \<noteq> p" "with_ext_suffix p ''tmp'' \<noteq> with_ext_suffix p ''bak''"
  "p \<noteq> with_ext_suffix p ''tmp''" "p \<noteq> with_ext_suffix p ''bak''" "with_ext_suffix p ''bak'' \<noteq> with_ext_suffix p ''tmp''"
  by (simp_all add: with_ext_suffix_def)

text \<open>What the main file and the backup can be while one replaces the other.\<close>

definition main_or_backup :: "rstr \<Rightarrow> disk \<Rightarrow> (rstr \<rightharpoonup> bytes) \<Rightarrow> bool" where
  "main_or_backup path d f \<longleftrightarrow>
     f path = dk_files d path \<and> f (with_ext_suffix path ''bak'') = dk_files d (with_ext_suffix path ''bak'') \<or>
     dk_files d path \<noteq> None \<and> f path = None \<and> f (with_ext_suffix path ''bak'') = dk_files d path"

lemma swap_follows: "swap_in OS path d = (r, d') \<Longrightarrow> follows d d'"
  unfolding swap_in_def
  by (rule follows_trans [OF _ rename_follows])
    (auto simp: rename_follows [OF prod.collapse [symmetric]])

lemma swap_states:
  assumes "swap_in OS path d = (r, d')" and "f \<in> crash_states d d'" and t: "dk_files d (with_ext_suffix path ''tmp'') = Some b"
  shows "main_or_backup path d f \<or> r = Inr () \<and> f = dk_files d' \<and> f path = Some b"
    and "r = Inr () \<Longrightarrow> dk_files d' path = Some b"
proof -
  let ?bak = "with_ext_suffix path ''bak''" and ?tmp = "with_ext_suffix path ''tmp''"
  define d1 where "d1 = (if path_exists path d then snd (rename_file OS path ?bak d) else d)"
  have swap: "rename_file OS ?tmp path d1 = (r, d')" using assms(1) by (simp add: swap_in_def d1_def)
  have d1: "follows d d1" "crash_states d d1 \<subseteq> {dk_files d, dk_files d1}"
    using rename_follows [of OS path ?bak d] rename_states [of OS path ?bak d]
    by (cases "rename_file OS path ?bak d"; auto simp: d1_def)+
  have m1: "main_or_backup path d (dk_files d1)" and t1: "dk_files d1 ?tmp = Some b"
  proof -
    obtain r1 x1 where r1: "rename_file OS path ?bak d = (r1, x1)" by fastforce
    show "main_or_backup path d (dk_files d1)"
    proof (cases r1)
      case (Inl e)
      then show ?thesis using rename_failed [of OS path ?bak d e x1] r1 by (simp add: d1_def main_or_backup_def)
    next
      case (Inr u)
      then show ?thesis using rename_done [of OS path ?bak d u x1] r1 by (auto simp: d1_def main_or_backup_def)
    qed
    show "dk_files d1 ?tmp = Some b"
    proof (cases r1)
      case (Inl e)
      then show ?thesis using rename_failed [of OS path ?bak d e x1] r1 t by (simp add: d1_def)
    next
      case (Inr u)
      then show ?thesis using rename_done [of OS path ?bak d u x1] r1 t by (auto simp: d1_def)
    qed
  qed
  have all: "crash_states d d' \<subseteq> {dk_files d, dk_files d1, dk_files d'}"
    using crash_trans [OF d1(1) rename_follows [OF swap]] d1(2) rename_states [OF swap] by auto
  have m0: "main_or_backup path d (dk_files d)" by (simp add: main_or_backup_def)
  show placed: "r = Inr () \<Longrightarrow> dk_files d' path = Some b"
    using rename_done [of OS ?tmp path d1 "()" d'] swap t1 by auto
  show "main_or_backup path d f \<or> r = Inr () \<and> f = dk_files d' \<and> f path = Some b"
  proof (cases r)
    case (Inl e)
    then have "dk_files d' = dk_files d1" using rename_failed swap by blast
    then show ?thesis using all assms(2) m0 m1 by auto
  next
    case (Inr u)
    then show ?thesis using all assms(2) m0 m1 placed by auto
  qed
qed

lemma swap_final_failed: "swap_in OS path d = (Inl e, d') \<Longrightarrow> dk_files d (with_ext_suffix path ''tmp'') = Some b \<Longrightarrow>
    main_or_backup path d (dk_files d')"
  using swap_states(1) [of OS path d "Inl e" d' "dk_files d'" b] by (simp add: crash_states_def)

text \<open>Writing the temporary file and swapping it in.\<close>

lemma write_swap_states:
  assumes w: "write_file OS (with_ext_suffix path ''tmp'') b d = (Inr u, d1)" and s: "swap_in OS path d1 = (r, d2)"
    and f: "f \<in> crash_states d d2"
  shows "main_or_backup path d f \<or> r = Inr () \<and> f path = Some b"
proof -
  note tmp = write_done [OF w]
  have old: "main_or_backup path d1 g \<Longrightarrow> main_or_backup path d g" for g
    by (simp add: main_or_backup_def tmp)
  have "f \<in> crash_states d d1 \<or> f \<in> crash_states d1 d2"
    using f crash_trans [OF write_follows [OF w] swap_follows [OF s]] by blast
  then show ?thesis
  proof
    assume "f \<in> crash_states d d1"
    then show ?thesis using write_states [OF w, of f] by (simp add: main_or_backup_def)
  next
    assume "f \<in> crash_states d1 d2"
    then show ?thesis using swap_states(1) [OF s, of f b] old by (auto simp: tmp)
  qed
qed

lemma persist_save_states:
  assumes "persist_save OS disp db path d = (r, d')" and "f \<in> crash_states d d'"
  shows "main_or_backup path d f \<or> r = Inr () \<and> f path = Some (export_binary disp db)"
    and "r = Inr () \<Longrightarrow> dk_files d' path = Some (export_binary disp db)"
proof -
  let ?b = "export_binary disp db" and ?tmp = "with_ext_suffix path ''tmp''"
  obtain r1 d1 where w: "write_file OS ?tmp ?b d = (r1, d1)" by fastforce
  obtain r2 d2 where s: "swap_in OS path d1 = (r2, d2)" by fastforce
  have "(main_or_backup path d f \<or> r = Inr () \<and> f path = Some ?b) \<and> (r = Inr () \<longrightarrow> dk_files d' path = Some ?b)"
  proof (cases r1)
    case (Inl e)
    then have "d' = d1" "r \<noteq> Inr ()" using assms(1) w by (auto simp: persist_save_def)
    then show ?thesis using write_states [OF w, of f] assms(2) by (simp add: main_or_backup_def)
  next
    case (Inr u)
    then have d': "d' = d2" "(r = Inr ()) = (r2 = Inr ())" using assms(1) w s by (cases r2; auto simp: persist_save_def)+
    have "main_or_backup path d f \<or> r2 = Inr () \<and> f path = Some ?b"
      using write_swap_states w s assms(2) Inr d'(1) by blast
    moreover have "r2 = Inr () \<longrightarrow> dk_files d2 path = Some ?b"
      using swap_states(2) [OF s, of "dk_files d2" ?b] write_done w Inr by (auto simp: crash_states_def)
    ultimately show ?thesis using d' by simp
  qed
  then show "main_or_backup path d f \<or> r = Inr () \<and> f path = Some ?b" "r = Inr () \<Longrightarrow> dk_files d' path = Some ?b"
    by blast+
qed

section \<open>What is loaded\<close>

definition same_content :: "unicode \<Rightarrow> 'ast database \<Rightarrow> 'ast database \<Rightarrow> bool" where
  "same_content U db x \<longleftrightarrow>
     dom (db_tables x) = dom (db_tables db) \<and>
     (\<forall>n t. db_tables db n = Some t \<longrightarrow> (\<exists>t'. db_tables x n = Some t' \<and> same_data t t' \<and> wf_table U t'))"

lemma export_loads:
  assumes "saveable_db (env_unicode E) disp db"
  shows "\<exists>x. load_bytes E (export_binary disp db) = Some (Inr x) \<and> same_content (env_unicode E) db (x :: 'ast database)"
  using import_export [OF assms, of "db_new :: 'ast database"]
  by (auto simp: load_bytes_def same_content_def db_new_def)

definition readable :: "os \<Rightarrow> rstr \<Rightarrow> bool" where
  "readable OS path \<longleftrightarrow> os_unreadable OS path = None \<and> os_unreadable OS (with_ext_suffix path ''bak'') = None"

lemma load_main:
  "readable OS path \<Longrightarrow> dk_files d path = Some b \<Longrightarrow> load_bytes E b = Some (Inr x) \<Longrightarrow>
   persist_load E OS path d db = Some (Inr (), x)"
  by (simp add: persist_load_def load_file_def read_file_def readable_def)

lemma load_backup:
  "readable OS path \<Longrightarrow> dk_files d path = None \<Longrightarrow> dk_files d (with_ext_suffix path ''bak'') = Some b \<Longrightarrow>
   load_bytes E b = Some (Inr x) \<Longrightarrow> persist_load E OS path d db = Some (Inr (), x)"
  by (simp add: persist_load_def load_file_def read_file_def readable_def)

lemma load_same_files:
  "dk_files d path = dk_files d' path \<Longrightarrow>
   dk_files d (with_ext_suffix path ''bak'') = dk_files d' (with_ext_suffix path ''bak'') \<Longrightarrow>
   persist_load E OS path d db = persist_load E OS path d' db"
proof -
  assume "dk_files d path = dk_files d' path"
    and "dk_files d (with_ext_suffix path ''bak'') = dk_files d' (with_ext_suffix path ''bak'')"
  then have r: "read_file OS path d = read_file OS path d'"
    "read_file OS (with_ext_suffix path ''bak'') d = read_file OS (with_ext_suffix path ''bak'') d'"
    unfolding read_file_def by (metis, metis)
  show ?thesis unfolding persist_load_def load_file_def r ..
qed

lemma load_main_or_backup:
  assumes "main_or_backup path d f" and "readable OS path" and "dk_files d2 = f"
    and main: "\<forall>c. dk_files d path = Some c \<longrightarrow> (\<exists>x. load_bytes E c = Some (Inr (x :: 'ast database)))"
  shows "persist_load E OS path d2 db = persist_load E OS path d (db :: 'ast database)"
proof (cases "f path = dk_files d path \<and> f (with_ext_suffix path ''bak'') = dk_files d (with_ext_suffix path ''bak'')")
  case True
  then show ?thesis using assms(3) by (intro load_same_files) auto
next
  case False
  then obtain c where c: "dk_files d path = Some c" "f path = None" "f (with_ext_suffix path ''bak'') = Some c"
    using assms(1) by (auto simp: main_or_backup_def)
  obtain x where x: "load_bytes E c = Some (Inr (x :: 'ast database))" using main c by blast
  have "persist_load E OS path d2 db = Some (Inr (), x)"
    using c assms(2,3) x by (intro load_backup) auto
  moreover have "persist_load E OS path d db = Some (Inr (), x)"
    using c assms(2) x by (intro load_main) auto
  ultimately show ?thesis by simp
qed


definition calm_os :: os where
  "calm_os = \<lparr>os_data_dir = ''data'', os_canonical = Some, os_make_dirs = (\<lambda>_. None), os_unreadable = (\<lambda>_. None),
     os_missing = [], os_fault = (\<lambda>_. None)\<rparr>"

definition disk_with :: "(rstr \<times> bytes) list \<Rightarrow> disk" where
  "disk_with fs = \<lparr>dk_files = map_of fs, dk_past = [], dk_calls = 0\<rparr>"


text \<open>The main file must load: over a corrupt one, the corrupt file replaces the good backup before the new save is in
  place, and a crash there leaves nothing that loads.\<close>

lemma save_over_corrupt_main_loses_backup:
  "\<exists>f \<in> crash_states (disk_with [(''s'', []), (''s.bak'', good)])
       (snd (persist_save calm_os disp db ''s'' (disk_with [(''s'', []), (''s.bak'', good)]))).
     \<exists>e. persist_load E calm_os ''s'' \<lparr>dk_files = f, dk_past = [], dk_calls = 0\<rparr> db0 = Some (Inl e, db0 :: 'ast database)"
proof -
  let ?d = "disk_with [(''s'', []), (''s.bak'', good)]" let ?new = "export_binary disp db"
  let ?f = "(dk_files ?d)(''s.tmp'' \<mapsto> ?new, ''s'' := None, ''s.bak'' \<mapsto> [])"
  have "?f \<in> crash_states ?d (snd (persist_save calm_os disp db ''s'' ?d))"
    by (simp add: crash_states_def persist_save_def write_file_def swap_in_def rename_file_def disk_step_def disk_with_def
        calm_os_def path_exists_def with_ext_suffix_def)
  moreover have "load_bytes E [] = Some (Inl ''Binary data too short'' :: 'ast database sres)"
    by (simp add: load_bytes_def import_binary_def)
  then have "\<exists>e. persist_load E calm_os ''s'' \<lparr>dk_files = ?f, dk_past = [], dk_calls = 0\<rparr> db0 = Some (Inl e, db0 :: 'ast database)"
    by (simp add: persist_load_def load_file_def read_file_def calm_os_def with_ext_suffix_def)
  ultimately show ?thesis by blast
qed

section \<open>The data directory\<close>

lemma split_on_nonempty [simp]: "split_on c s \<noteq> []"
  by (induction s) (auto split: list.splits)

lemma split_on_append: "split_on c (s @ c # t) = split_on c s @ split_on c t"
  by (induction s) (auto split: list.splits)

lemma split_on_suffix: "c \<notin> set t \<Longrightarrow> split_on c (s @ t) = butlast (split_on c s) @ [last (split_on c s) @ t]"
proof (induction s)
  case Nil
  then show ?case by (simp add: split_on_end)
next
  case (Cons x s)
  then show ?case
    by (cases "split_on c s") (auto split: list.splits)
qed

definition parts :: "rstr \<Rightarrow> rstr list" where
  "parts p = filter proper_part (split_on (CHR ''/'') p)"

lemma parts_append: "parts (s @ CHR ''/'' # t) = parts s @ parts t"
  by (simp add: parts_def split_on_append)

lemma starts_slash: "starts_with s ''/'' \<longleftrightarrow> s \<noteq> [] \<and> hd s = CHR ''/''"
  by (cases s) auto

definition lead :: "rstr \<Rightarrow> rstr list" where
  "lead p = (if starts_with p ''/'' then [''/''] else if hd (split_on (CHR ''/'') p) = ''.'' then [''.''] else [])"

lemma split_on_first: "x \<noteq> c \<Longrightarrow> \<exists>p ps. split_on c (x # xs) = (x # p) # ps"
  by (cases "split_on c xs") auto

lemma components_parts: "path_components p = lead p @ parts p"
proof (cases "p = [] \<or> hd p = CHR ''/''")
  case True
  then show ?thesis by (cases p) (auto simp: path_components_def parts_def proper_part_def lead_def)
next
  case False
  then obtain x xs where p: "p = x # xs" "x \<noteq> CHR ''/''" by (cases p) auto
  obtain c cs where s: "split_on (CHR ''/'') p = (x # c) # cs" using split_on_first [OF p(2)] p(1) by blast
  have n: "\<not> starts_with p ''/''" using False by (simp add: starts_slash)
  show ?thesis unfolding path_components_def parts_def lead_def s by (simp add: n proper_part_def)
qed

lemma lead_append: "s \<noteq> [] \<Longrightarrow> lead (s @ CHR ''/'' # t) = lead s"
  by (simp add: lead_def starts_slash split_on_append)

lemma components_append: "s \<noteq> [] \<Longrightarrow> path_components (s @ CHR ''/'' # t) = path_components s @ parts t"
  by (simp add: components_parts lead_append parts_append)

text \<open>The components of a joined path are those of the directory and then those of the name.\<close>

lemma components_join:
  assumes "base \<noteq> []" and "\<not> starts_with name ''/''"
  shows "path_components (path_join base name) = path_components base @ parts name"
proof (cases "last base = CHR ''/''")
  case True
  then obtain b where b: "base = b @ [CHR ''/'']" using assms(1) by (metis append_butlast_last_id)
  have j: "path_join base name = b @ CHR ''/'' # name" using True assms by (simp add: path_join_def b)
  show ?thesis
  proof (cases "b = []")
    case True
    then show ?thesis unfolding j by (simp add: b components_parts lead_def parts_def proper_part_def)
  next
    case False
    have "parts [] = []" by (simp add: parts_def proper_part_def)
    then show ?thesis using components_append [OF False, of name] components_append [OF False, of "[]"]
      unfolding j by (simp add: b)
  qed
next
  case False
  then have "path_join base name = base @ CHR ''/'' # name" using assms by (simp add: path_join_def)
  then show ?thesis using components_append [OF assms(1)] by simp
qed

lemma components_allowed_ok: "components_allowed cs = Inr () \<Longrightarrow> ''..'' \<notin> set cs"
  by (induction cs) (auto split: if_splits)

lemma parts_suffix: "''..'' \<notin> set (parts n) \<Longrightarrow> CHR ''/'' \<notin> set x \<Longrightarrow> 2 < length x \<Longrightarrow> ''..'' \<notin> set (parts (n @ x))"
proof -
  assume n: "''..'' \<notin> set (parts n)" and x: "CHR ''/'' \<notin> set x" "2 < length x"
  have "last (split_on (CHR ''/'') n) @ x \<noteq> ''..''"
  proof
    assume "last (split_on (CHR ''/'') n) @ x = ''..''"
    then have "length (last (split_on (CHR ''/'') n)) + length x = 2" by (metis length_append list.size(3,4) One_nat_def add.right_neutral add_Suc_right numeral_2_eq_2)
    with x show False by simp
  qed
  then show ?thesis
    using n x by (auto simp: parts_def proper_part_def split_on_suffix dest: in_set_butlastD)
qed

lemma join_suffix: "n \<noteq> [] \<Longrightarrow> \<not> starts_with n ''/'' \<Longrightarrow> path_join b n @ x = path_join b (n @ x) \<and> \<not> starts_with (n @ x) ''/''"
  by (auto simp: path_join_def starts_slash)

definition in_data_dir :: "os \<Rightarrow> rstr \<Rightarrow> bool" where
  "in_data_dir OS q \<longleftrightarrow>
     (\<exists>cs. path_components q = path_components (os_data_dir OS) @ cs \<and> ''..'' \<notin> set cs) \<and>
     (\<exists>parent cp cd. path_parent q = Some parent \<and> os_canonical OS parent = Some cp \<and>
        os_canonical OS (os_data_dir OS) = Some cd \<and> path_within cp cd)"

lemma ensure_parent:
  "ensure_within_data_dir OS p dd d = Inr () \<Longrightarrow> path_parent p = Some q \<Longrightarrow>
   \<exists>cp cd. os_canonical OS q = Some cp \<and> os_canonical OS dd = Some cd \<and> path_within cp cd"
  by (auto simp: ensure_within_data_dir_def parent_within_def bind_res_Inr_iff split: option.splits if_splits)

lemma write_tmp_changes:
  "write_file OS p b d = (r, d') \<Longrightarrow> f \<in> crash_states d d' \<Longrightarrow> f q \<noteq> dk_files d q \<Longrightarrow> q = p"
  using write_states by metis

lemma rename_changes:
  "rename_file OS a b d = (r, d') \<Longrightarrow> f \<in> crash_states d d' \<Longrightarrow> f q \<noteq> dk_files d q \<Longrightarrow> q = a \<or> q = b"
  by (auto simp: rename_file_def split: option.splits if_splits)

text \<open>All changes are at the given paths.\<close>

definition changes_only :: "rstr set \<Rightarrow> disk \<Rightarrow> disk \<Rightarrow> bool" where
  "changes_only P d d' \<longleftrightarrow> follows d d' \<and> (\<forall>f \<in> crash_states d d'. \<forall>q. f q \<noteq> dk_files d q \<longrightarrow> q \<in> P)"

lemma changes_final: "changes_only P d d' \<Longrightarrow> q \<notin> P \<Longrightarrow> dk_files d' q = dk_files d q"
  by (auto simp: changes_only_def crash_states_def)

lemma changes_trans: "changes_only P d d1 \<Longrightarrow> changes_only P d1 d2 \<Longrightarrow> changes_only P d d2"
proof -
  assume a: "changes_only P d d1" and b: "changes_only P d1 d2"
  have f: "follows d d1" "follows d1 d2" using a b by (simp_all add: changes_only_def)
  have "q \<in> P" if "f \<in> crash_states d d2" "f q \<noteq> dk_files d q" for f q
  proof (cases "f \<in> crash_states d d1")
    case True
    then show ?thesis using a that by (simp add: changes_only_def)
  next
    case False
    then have "f \<in> crash_states d1 d2" using that(1) crash_trans [OF f] by blast
    then show ?thesis using b that(2) changes_final [OF a, of q] unfolding changes_only_def by metis
  qed
  then show ?thesis using follows_trans [OF f] by (simp add: changes_only_def)
qed

lemma changes_refl [simp]: "changes_only P d d"
  by (simp add: changes_only_def)

lemma changes_write: "p \<in> P \<Longrightarrow> write_file OS p b d = (r, d') \<Longrightarrow> changes_only P d d'"
  using write_tmp_changes write_follows by (fastforce simp: changes_only_def)

lemma changes_rename: "a \<in> P \<Longrightarrow> b \<in> P \<Longrightarrow> rename_file OS a b d = (r, d') \<Longrightarrow> changes_only P d d'"
  using rename_changes rename_follows by (fastforce simp: changes_only_def)

lemma changes_remove: "p \<in> P \<Longrightarrow> changes_only P d (remove_file OS p d)"
  by (auto simp: changes_only_def remove_file_def split: if_splits)

lemma changes_swap:
  "{path, with_ext_suffix path ''tmp'', with_ext_suffix path ''bak''} \<subseteq> P \<Longrightarrow> swap_in OS path d = (r, d') \<Longrightarrow> changes_only P d d'"
  unfolding swap_in_def
  by (rule changes_trans [OF _ changes_rename]) (auto intro: changes_rename [OF _ _ prod.collapse [symmetric]])

lemma save_at_changes:
  assumes "save_at OS disp db filename path d = (resp, d')"
  shows "changes_only {path, with_ext_suffix path ''tmp'', with_ext_suffix path ''bak''} d d'"
proof -
  let ?tmp = "with_ext_suffix path ''tmp''" let ?P = "{path, ?tmp, with_ext_suffix path ''bak''}"
  obtain r1 d1 where w: "write_file OS ?tmp (export_binary disp db) d = (r1, d1)" by fastforce
  obtain r2 d2 where s: "swap_in OS path d1 = (r2, d2)" by fastforce
  have c1: "changes_only ?P d d1" using changes_write [OF _ w] by simp
  have c2: "changes_only ?P d d2" using changes_trans [OF c1 changes_swap [OF _ s]] by simp
  have "d' \<in> {d1, d2, remove_file OS ?tmp d2}"
    using assms w s by (auto simp: save_at_def split: sum.splits)
  then show ?thesis using c1 c2 changes_trans [OF c2 changes_remove [where p = ?tmp and P = ?P]] by auto
qed

lemma save_changes:
  assumes "handle_save OS disp db args d = (resp, d')" and "d' \<noteq> d"
  obtains name path where "name \<noteq> []" "safe_data_path OS name d = Inr path"
    "ensure_within_data_dir OS (with_ext_suffix path ''tmp'') (os_data_dir OS) d = Inr ()"
    "changes_only {path, with_ext_suffix path ''tmp'', with_ext_suffix path ''bak''} d d'"
proof -
  define name where "name = first_or args ''a3sql.bin''"
  have "name \<noteq> []" using assms by (auto simp: handle_save_def name_def)
  moreover obtain path where p: "safe_data_path OS name d = Inr path"
    using assms \<open>name \<noteq> []\<close> by (cases "safe_data_path OS name d") (simp_all add: handle_save_def name_def)
  moreover have e: "ensure_within_data_dir OS (with_ext_suffix path ''tmp'') (os_data_dir OS) d = Inr ()"
    using assms \<open>name \<noteq> []\<close> p
    by (cases "ensure_within_data_dir OS (with_ext_suffix path ''tmp'') (os_data_dir OS) d")
      (simp_all add: handle_save_def name_def)
  ultimately show ?thesis
    using that save_at_changes [of OS disp db name path d resp d'] assms(1) by (simp add: handle_save_def name_def)
qed

text \<open>The suffixes of the temporary file and of the backup give the same directory.\<close>

lemma lead_suffix:
  "p \<noteq> [] \<Longrightarrow> CHR ''/'' \<notin> set x \<Longrightarrow> 2 < length x \<Longrightarrow>
   lead (p @ x) = (if starts_with p ''/'' then [''/''] else if CHR ''/'' \<in> set p \<and> hd (split_on (CHR ''/'') p) = ''.'' then [''.''] else [])"
proof -
  assume p: "p \<noteq> []" and x: "CHR ''/'' \<notin> set x" "2 < length x"
  have slash: "starts_with (p @ x) ''/'' = starts_with p ''/''" using p by (simp add: starts_slash)
  show ?thesis
  proof (cases "CHR ''/'' \<in> set p")
    case True
    then obtain u v where "p = u @ CHR ''/'' # v" by (meson split_list)
    then have "hd (split_on (CHR ''/'') (p @ x)) = hd (split_on (CHR ''/'') p)" by (simp add: split_on_append)
    then show ?thesis using True slash by (simp add: lead_def)
  next
    case False
    then have "split_on (CHR ''/'') (p @ x) = [p @ x]" using x by (intro split_on_end) simp
    moreover have "p @ x \<noteq> ''.''" using x by (auto simp: append_eq_Cons_conv)
    ultimately show ?thesis using False slash by (simp add: lead_def)
  qed
qed

lemma parts_of_suffix:
  "CHR ''/'' \<notin> set x \<Longrightarrow> 2 < length x \<Longrightarrow>
   parts (p @ x) = filter proper_part (butlast (split_on (CHR ''/'') p)) @ [last (split_on (CHR ''/'') p) @ x]"
  by (auto simp: parts_def split_on_suffix proper_part_def append_eq_Cons_conv)

lemma parent_suffix:
  assumes "p \<noteq> []" and "CHR ''/'' \<notin> set x" and "2 < length x" and "CHR ''/'' \<notin> set y" and "2 < length y"
  shows "path_parent (p @ x) = path_parent (p @ y) \<and> path_parent (p @ x) \<noteq> None"
proof -
  obtain cs l where c: "\<And>z. CHR ''/'' \<notin> set z \<Longrightarrow> 2 < length z \<Longrightarrow> path_components (p @ z) = cs @ [l @ z]"
    using lead_suffix [OF assms(1)] parts_of_suffix by (simp add: components_parts)
  have "l @ z \<noteq> ''/''" if "2 < length z" for z using that by (auto simp: append_eq_Cons_conv)
  then show ?thesis using c assms by (simp add: path_parent_def)
qed

lemma joined_in_data_dir:
  assumes "os_data_dir OS \<noteq> []" and "\<not> starts_with name ''/''" and "''..'' \<notin> set (parts name)"
    and "ensure_within_data_dir OS p (os_data_dir OS) d = Inr ()"
    and "path_parent p = path_parent q" and "path_parent q \<noteq> None" and "q = path_join (os_data_dir OS) name"
  shows "in_data_dir OS q"
  using components_join [OF assms(1,2)] assms ensure_parent [OF assms(4)] by (auto simp: in_data_dir_def)

lemma safe_path:
  assumes "safe_data_path OS name d = Inr path"
  shows "\<not> starts_with name ''/''" and "''..'' \<notin> set (parts name)" and "path = path_join (os_data_dir OS) name"
    and "ensure_within_data_dir OS path (os_data_dir OS) d = Inr ()"
  using assms components_allowed_ok [of "path_components name"]
  by (auto simp: safe_data_path_def Let_def bind_res_Inr_iff components_parts split: if_splits)

text \<open>C33.  A client's SAVE stays in the data directory.  Whatever file name it names, every path whose file a SAVE ever
  changes lies under the components of the data directory and has no \<open>..\<close> among the others; and its parent
  directory, all links resolved, is inside the data directory, all links resolved.\<close>

theorem save_stays_in_data_dir:
  assumes "os_data_dir OS \<noteq> []" and "handle_save OS disp db args d = (resp, d')"
    and "f \<in> crash_states d d'" and "f q \<noteq> dk_files d q" and "path_parent q \<noteq> None"
  shows "in_data_dir OS q"
proof -
  have "d' \<noteq> d" using assms(3,4) by auto
  with assms(2) obtain name path where n: "name \<noteq> []" and path: "safe_data_path OS name d = Inr path"
    and tmp: "ensure_within_data_dir OS (with_ext_suffix path ''tmp'') (os_data_dir OS) d = Inr ()"
    and c: "changes_only {path, with_ext_suffix path ''tmp'', with_ext_suffix path ''bak''} d d'"
    by (elim save_changes)
  note p = safe_path [OF path]
  have sfx: "with_ext_suffix path x = path_join (os_data_dir OS) (name @ ''.'' @ x)" "\<not> starts_with (name @ ''.'' @ x) ''/''" for x
    using join_suffix [OF n p(1), of "os_data_dir OS" "''.'' @ x"] by (simp_all add: with_ext_suffix_def p(3))
  have ne: "path \<noteq> []" using assms(1) n by (simp add: p(3) path_join_def)
  have q: "q = path \<or> q = with_ext_suffix path ''tmp'' \<or> q = with_ext_suffix path ''bak''"
    using c assms(3,4) by (auto simp: changes_only_def)
  then show ?thesis
  proof (elim disjE)
    assume "q = path"
    then show ?thesis using joined_in_data_dir [OF assms(1) p(1,2,4) _ _ p(3)] assms(5) by simp
  next
    assume "q = with_ext_suffix path ''tmp''"
    then show ?thesis
      using joined_in_data_dir [OF assms(1) sfx(2) parts_suffix [OF p(2)] tmp _ _ sfx(1)] assms(5) by simp
  next
    assume q: "q = with_ext_suffix path ''bak''"
    have "path_parent (with_ext_suffix path ''tmp'') = path_parent (with_ext_suffix path ''bak'')"
      using parent_suffix [OF ne, of "''.tmp''" "''.bak''"] by (simp add: with_ext_suffix_def)
    then show ?thesis
      using joined_in_data_dir [OF assms(1) sfx(2) parts_suffix [OF p(2)] tmp _ _ sfx(1)] assms(5) q by simp
  qed
qed

theorem save_stays_in_data_dir_witness:
  "dk_files (snd (handle_save calm_os (\<lambda>_. []) (db_new :: unit database) [''s''] (disk_with []))) ''data/s'' \<noteq> None \<and>
   in_data_dir calm_os ''data/s''"
proof -
  have j: "path_join ''data'' ''s'' = ''data/s''" by (simp add: path_join_def)
  have c: "path_components ''data'' = [''data'']" "path_components ''data/s'' = [''data'', ''s'']"
    "path_components ''data/s.tmp'' = [''data'', ''s.tmp'']" "path_components ''s'' = [''s'']"
    by (simp_all add: path_components_def proper_part_def)
  have p: "path_parent ''data/s'' = Some ''data''" "path_parent ''data/s.tmp'' = Some ''data''"
    by (simp_all add: path_parent_def c)
  have e: "ensure_within_data_dir calm_os ''data/s'' ''data'' (disk_with []) = Inr ()"
    "ensure_within_data_dir calm_os ''data/s.tmp'' ''data'' (disk_with []) = Inr ()"
    by (simp_all add: ensure_within_data_dir_def p parent_within_def calm_os_def path_within_def path_exists_def disk_with_def c)
  have safe: "safe_data_path calm_os ''s'' (disk_with []) = Inr ''data/s''"
    using e(1) by (simp add: safe_data_path_def c j calm_os_def)
  obtain resp d' where run: "handle_save calm_os (\<lambda>_. []) (db_new :: unit database) [''s''] (disk_with []) = (resp, d')"
    by fastforce
  have "handle_save calm_os (\<lambda>_. []) (db_new :: unit database) [''s''] (disk_with []) =
      save_at calm_os (\<lambda>_. []) (db_new :: unit database) ''s'' ''data/s'' (disk_with [])"
    using e(2) by (simp add: handle_save_def first_or_def safe with_ext_suffix_def Let_def) (simp add: calm_os_def)
  then have "dk_files d' ''data/s'' \<noteq> None"
    using run by (auto simp: save_at_def write_file_def swap_in_def rename_file_def
        disk_step_def calm_os_def with_ext_suffix_def path_exists_def disk_with_def)
  moreover from this have "in_data_dir calm_os ''data/s''"
    using save_stays_in_data_dir [OF _ run, of "dk_files d'" "''data/s''"] p(1)
    by (simp add: calm_os_def crash_states_def disk_with_def)
  ultimately show ?thesis by (simp add: run)
qed

end
