(* ===== verification/SqlText.thy ===== *)
theory SqlText
  imports Execute
begin

text \<open>
  \<open>dispatch/sql.rs\<close>: a batch of SQL text is split at semicolons, the placeholders of each statement are filled
  with the arguments of the call, CREATE TRIGGER is read by hand, everything else goes through the parse cache
  to \<open>execute\<close>.
\<close>

section \<open>Splitting\<close>

definition add_trimmed :: "uchar list \<Rightarrow> rstr list \<Rightarrow> rstr list" where
  "add_trimmed cur rest = (let t = trim (utf8 cur) in if t = [] then rest else t # rest)"

fun split_stmts :: "bool \<Rightarrow> uchar \<Rightarrow> uchar list \<Rightarrow> uchar list \<Rightarrow> rstr list" where
  "split_stmts in_string prev cur [] = add_trimmed cur []"
| "split_stmts in_string prev cur (c # cs) =
     (let ins = (if c = 39 \<and> prev \<noteq> 92 then \<not> in_string else in_string)
      in if c = 59 \<and> \<not> ins then add_trimmed cur (split_stmts ins c [] cs)
         else split_stmts ins c (cur @ [c]) cs)"

definition split_sql :: "rstr \<Rightarrow> rstr list" where
  "split_sql sql = split_stmts False 32 [] (chars sql)"

section \<open>Placeholders\<close>

text \<open>\<open>num_str.parse::<usize>().unwrap_or(1)\<close> of a text of digits.\<close>

definition placeholder_index :: "rstr \<Rightarrow> nat" where
  "placeholder_index num = (if digits_val num < 2 ^ 64 then digits_val num else 1)"

definition is_number_text :: "rstr \<Rightarrow> bool" where
  "is_number_text v = (parse_i64 v \<noteq> None \<or> parse_f64 v \<noteq> None)"

definition argument_text :: "rstr \<Rightarrow> rstr" where
  "argument_text v =
     (if v = [] then [squote, squote]
      else if v = ''NULL'' \<or> v = ''null'' then ''NULL''
      else if is_number_text v then v
      else if v = ''true'' \<or> v = ''false'' then v
      else sql_quoted v)"

definition placeholder_text :: "rstr list \<Rightarrow> rstr \<Rightarrow> rstr" where
  "placeholder_text args num =
     (let i = placeholder_index num
      in if 0 < i \<and> i \<le> length args then argument_text (args ! (i - 1)) else CHR ''$'' # num)"

function fill_params :: "rstr list \<Rightarrow> bool \<Rightarrow> uchar list \<Rightarrow> rstr" where
  "fill_params args in_string [] = []"
| "fill_params args in_string (c # cs) =
     (if c = 39 then utf8 [c] @ fill_params args (\<not> in_string) cs
      else if c = 36 \<and> \<not> in_string then
        (let num = utf8 (takeWhile is_ascii_digit cs)
         in (if num = [] then ''$'' else placeholder_text args num) @
            fill_params args in_string (dropWhile is_ascii_digit cs))
      else utf8 [c] @ fill_params args in_string cs)"
  by pat_completeness auto
termination
  by (relation "measure (\<lambda>(args, ins, cs). length cs)") (auto simp: length_dropWhile_le le_imp_less_Suc)

definition substitute_params :: "rstr \<Rightarrow> rstr list \<Rightarrow> rstr" where
  "substitute_params sql args = fill_params args False (chars sql)"

section \<open>CREATE TRIGGER\<close>

lemma valid_utf8_ascii: "is_ascii s \<Longrightarrow> valid_utf8 (bytes_of s)"
  by (auto simp: valid_utf8_def is_ascii_def bytes_of_def utf8_decode_ascii)

text \<open>Slicing a text at a byte position panics inside a character and past the end.\<close>

definition char_boundary :: "rstr \<Rightarrow> nat \<Rightarrow> bool" where
  "char_boundary s i = (i = length s \<or> i < length s \<and> \<not> is_continuation (s ! i))"

definition split_at_byte :: "rstr \<Rightarrow> nat \<Rightarrow> (rstr \<times> rstr) panicking" where
  "split_at_byte s i = (if char_boundary s i then Some (take i s, drop i s) else None)"

fun strip_any_prefix :: "rstr list \<Rightarrow> rstr \<Rightarrow> rstr option" where
  "strip_any_prefix [] s = None"
| "strip_any_prefix (p # ps) s = (if starts_with s p then Some (drop (length p) s) else strip_any_prefix ps s)"

definition split_once_ws :: "rstr \<Rightarrow> (rstr \<times> rstr) option" where
  "split_once_ws s =
     (case dropWhile (Not \<circ> is_whitespace) (chars s) of
        [] \<Rightarrow> None
      | _ # cs \<Rightarrow> Some (utf8 (takeWhile (Not \<circ> is_whitespace) (chars s)), utf8 cs))"

definition ends_with :: "rstr \<Rightarrow> rstr \<Rightarrow> bool" where
  "ends_with s p = starts_with (rev s) (rev p)"

text \<open>The first of the words that the text starts with, in lower case.\<close>

definition leading_word :: "unicode \<Rightarrow> rstr list \<Rightarrow> rstr \<Rightarrow> rstr option" where
  "leading_word U ws s = find (\<lambda>w. starts_with (to_lowercase U s) w) ws"

definition find_any :: "rstr \<Rightarrow> rstr list \<Rightarrow> nat option" where
  "find_any s ps = (case List.map_filter (find_sub s) ps of i # _ \<Rightarrow> Some i | [] \<Rightarrow> None)"

definition word_ends :: "rstr \<Rightarrow> bool" where
  "word_ends s = (case s of [] \<Rightarrow> True
    | c # _ \<Rightarrow> \<not> (is_ascii_alphabetic (of_char c) \<or> is_ascii_digit (of_char c)) \<and> c \<noteq> CHR ''_'')"

text \<open>The position of the END that closes the body, where only the right end of a word is looked at.\<close>

function body_end :: "nat \<Rightarrow> nat \<Rightarrow> rstr \<Rightarrow> nat option" where
  "body_end depth pos [] = None"
| "body_end depth pos (c # s) =
     (if starts_with (c # s) ''begin'' \<and> word_ends (drop 5 (c # s)) then body_end (depth + 1) (pos + 5) (drop 5 (c # s))
      else if starts_with (c # s) ''end'' \<and> word_ends (drop 3 (c # s))
      then (if depth = 1 then Some pos else body_end (depth - 1) (pos + 3) (drop 3 (c # s)))
      else body_end depth (pos + 1) s)"
  by pat_completeness auto
termination
  by (relation "measure (\<lambda>(depth, pos, s). length s)") auto

definition trim_end_semicolons :: "rstr \<Rightarrow> rstr" where
  "trim_end_semicolons s = rev (dropWhile (\<lambda>c. c = CHR '';'') (rev s))"

text \<open>Sequencing of steps that fail with a message or panic.\<close>

definition tbind :: "'a sres panicking \<Rightarrow> ('a \<Rightarrow> 'b sres panicking) \<Rightarrow> 'b sres panicking" where
  "tbind r f = (case r of None \<Rightarrow> None | Some (Inl e) \<Rightarrow> Some (Inl e) | Some (Inr x) \<Rightarrow> f x)"

lemma tbind_simps [simp]: "tbind None f = None" "tbind (Some (Inl e)) f = Some (Inl e)" "tbind (Some (Inr x)) f = f x"
  by (simp_all add: tbind_def)

definition or_fail :: "rstr \<Rightarrow> 'a option \<Rightarrow> 'a sres panicking" where
  "or_fail e x = Some (case x of None \<Rightarrow> Inl e | Some y \<Rightarrow> Inr y)"

definition cut_at :: "rstr \<Rightarrow> nat \<Rightarrow> (rstr \<times> rstr) sres panicking" where
  "cut_at s i = map_option Inr (split_at_byte s i)"

text \<open>The text after the table: FOR EACH ROW is skipped, a WHEN condition too.\<close>

definition skip_for_each :: "unicode \<Rightarrow> rstr \<Rightarrow> rstr sres panicking" where
  "skip_for_each U rest =
     (case leading_word U [''for each row'', ''for each''] rest of
        None \<Rightarrow> Some (Inr rest)
      | Some w \<Rightarrow> tbind (cut_at rest (length w)) (\<lambda>(_, r). Some (Inr (trim r))))"

definition skip_when :: "unicode \<Rightarrow> rstr \<Rightarrow> rstr sres panicking" where
  "skip_when U rest =
     (if leading_word U [''when''] rest = None then Some (Inr rest)
      else tbind (or_fail ''CREATE TRIGGER: expected BEGIN after WHEN'' (find_sub (to_lowercase U rest) '' begin''))
             (\<lambda>i. tbind (cut_at rest i) (\<lambda>(_, r). Some (Inr r))))"

definition trigger_body_text :: "unicode \<Rightarrow> rstr \<Rightarrow> rstr sres panicking" where
  "trigger_body_text U rest =
     tbind (or_fail ''CREATE TRIGGER: expected BEGIN'' (find_sub (to_lowercase U rest) ''begin'')) (\<lambda>i.
     tbind (cut_at rest (i + 5)) (\<lambda>(_, body_start).
     tbind (or_fail ''CREATE TRIGGER: expected END'' (body_end 1 0 (to_lowercase U body_start))) (\<lambda>j.
     tbind (cut_at body_start j) (\<lambda>(body, _).
       Some (Inr (trim (trim_end_semicolons (trim body))))))))"

definition parse_trigger :: "unicode \<Rightarrow> rstr \<Rightarrow> (rstr \<times> trigger_info) sres panicking" where
  "parse_trigger U sql =
     tbind (or_fail ''CREATE TRIGGER syntax error''
       (strip_any_prefix [''CREATE TRIGGER '', ''create trigger '', ''CREATE OR REPLACE TRIGGER '',
          ''create or replace trigger ''] (trim sql))) (\<lambda>rest.
     tbind (or_fail ''CREATE TRIGGER: expected trigger name'' (split_once_ws rest)) (\<lambda>(nm, rest).
     tbind (or_fail ''CREATE TRIGGER: expected BEFORE or AFTER'' (leading_word U [''before'', ''after''] (trim rest))) (\<lambda>tm.
     tbind (cut_at (trim rest) (length tm)) (\<lambda>(_, rest).
     tbind (or_fail ''CREATE TRIGGER: expected INSERT, UPDATE, or DELETE''
       (leading_word U [''insert'', ''update'', ''delete''] (trim rest))) (\<lambda>ev.
     tbind (cut_at (trim rest) (length ev)) (\<lambda>(_, rest).
     tbind (or_fail ''CREATE TRIGGER: expected ON'' (leading_word U [''on''] (trim rest))) (\<lambda>_.
     tbind (cut_at (trim rest) 2) (\<lambda>(_, rest).
       let rest = trim rest; l = to_lowercase U rest;
           i = (case find_any l ['' for each row'', '' for each'', '' begin''] of Some i \<Rightarrow> i | None \<Rightarrow> length rest)
       in tbind (cut_at rest i) (\<lambda>(tbl, rest).
          tbind (skip_for_each U (trim rest)) (\<lambda>rest.
          tbind (skip_when U rest) (\<lambda>rest.
          tbind (trigger_body_text U rest) (\<lambda>body.
            Some (Inr (to_lowercase U (trim tbl),
              \<lparr>tr_name = to_lowercase U (trim nm), tr_timing = to_uppercase U tm, tr_event = to_uppercase U ev,
               tr_body = body\<rparr>))))))))))))))"

definition handle_create_trigger :: "unicode \<Rightarrow> rstr \<Rightarrow> 'ast database \<Rightarrow> (rstr \<times> 'ast database) sres panicking" where
  "handle_create_trigger U sql db =
     tbind (parse_trigger U sql) (\<lambda>(tn, tr).
       Some (bind_res (modify_table tn (\<lambda>t. t\<lparr>tbl_triggers := tbl_triggers t @ [tr]\<rparr>) db) (\<lambda>db'.
         Inr (json_text (quote_msg ''Trigger '' (tr_name tr) (quote_msg '' created on '' tn [])), db'))))"

section \<open>A batch\<close>

text \<open>The pieces of a trigger body are put together again up to the one that ends with END.\<close>

fun merge_body :: "unicode \<Rightarrow> rstr \<Rightarrow> rstr list \<Rightarrow> rstr" where
  "merge_body U acc [] = acc"
| "merge_body U acc (p # ps) =
     (let acc' = acc @ '';'' @ p; l = to_lowercase U (trim p)
      in if ends_with l ''end'' \<or> ends_with l ''end;'' then acc' else merge_body U acc' ps)"

definition whole_trigger :: "unicode \<Rightarrow> rstr list \<Rightarrow> rstr \<Rightarrow> rstr" where
  "whole_trigger U statements sql =
     (if ends_with (to_lowercase U (trim sql)) ''end'' then sql
      else merge_body U sql (drop 1 (dropWhile (\<lambda>p. p \<noteq> sql) statements)))"

definition is_create_trigger :: "unicode \<Rightarrow> rstr \<Rightarrow> bool" where
  "is_create_trigger U sql =
     (let l = to_lowercase U (trim sql)
      in starts_with l ''create trigger'' \<or> starts_with l ''create or replace trigger'')"

text \<open>The data of \<open>COPY FROM stdin\<close> is the first argument.\<close>

definition set_copy_data :: "rstr list \<Rightarrow> 'o stmt \<Rightarrow> 'ast session \<Rightarrow> rstr + 'ast session" where
  "set_copy_data args st s =
     (case (args, st) of
        (data # _, StCopy src to_target stdin) \<Rightarrow>
          (if to_target then Inr s
           else if 1024 * 1024 < length data then Inl (error_response Io ''COPY FROM stdin data exceeds 1MB limit'')
           else if trim data = [] then Inl (error_response Io ''COPY FROM stdin: empty data'')
           else Inr (s\<lparr>se_stdin := Some data\<rparr>))
      | _ \<Rightarrow> Inr s)"

text \<open>The statements of one text: their results, or the response that ends the batch.\<close>

fun exec_parsed :: "('o stmt \<Rightarrow> ('ast, rstr) exec) \<Rightarrow> rstr list \<Rightarrow> 'o stmt list \<Rightarrow> rstr list \<Rightarrow> 'ast session
    \<Rightarrow> ((rstr + rstr list) \<times> 'ast session) panicking" where
  "exec_parsed ex args [] results s = Some (Inr results, s)"
| "exec_parsed ex args (st # sts) results s =
     (case set_copy_data args st s of
        Inl r \<Rightarrow> Some (Inl r, s)
      | Inr s1 \<Rightarrow>
          (case ex st s1 of
             None \<Rightarrow> None
           | Some (Inl e, s2) \<Rightarrow> Some (Inl (error_response Exec (error_message e)), s2)
           | Some (Inr data, s2) \<Rightarrow> exec_parsed ex args sts (results @ [data]) s2))"

type_synonym 'o parsed_session = "'o stmt list session"

definition exec_text :: "(rstr \<Rightarrow> rstr + 'o stmt list) \<Rightarrow> ('o stmt \<Rightarrow> ('o stmt list, rstr) exec) \<Rightarrow> rstr list \<Rightarrow> rstr
    \<Rightarrow> rstr list \<Rightarrow> 'o parsed_session \<Rightarrow> ((rstr + rstr list) \<times> 'o parsed_session) panicking" where
  "exec_text parse ex args sql results s =
     (case cached_parse parse sql (se_db s) of
        (Inl e, db) \<Rightarrow> Some (Inl (error_response Parse e), s\<lparr>se_db := db\<rparr>)
      | (Inr sts, db) \<Rightarrow> exec_parsed ex args sts results (s\<lparr>se_db := db\<rparr>))"

definition exec_one :: "unicode \<Rightarrow> (rstr \<Rightarrow> rstr + 'o stmt list) \<Rightarrow> ('o stmt \<Rightarrow> ('o stmt list, rstr) exec) \<Rightarrow> rstr list
    \<Rightarrow> rstr list \<Rightarrow> rstr \<Rightarrow> rstr list \<Rightarrow> 'o parsed_session \<Rightarrow> ((rstr + rstr list) \<times> 'o parsed_session) panicking" where
  "exec_one U parse ex statements args piece results s =
     (let sql = (if args = [] then piece else substitute_params piece args);
          l = to_lowercase U (trim sql)
      in if is_create_trigger U sql
         then (case handle_create_trigger U (whole_trigger U statements sql) (se_db s) of
                 None \<Rightarrow> None
               | Some (Inl e) \<Rightarrow> Some (Inl (error_response Exec e), s)
               | Some (Inr (r, db)) \<Rightarrow> Some (Inr (results @ [r]), s\<lparr>se_db := db\<rparr>))
         else if l = ''end'' \<or> l = ''end;'' then Some (Inr results, s)
         else exec_text parse ex args sql results s)"

fun exec_batch :: "unicode \<Rightarrow> (rstr \<Rightarrow> rstr + 'o stmt list) \<Rightarrow> ('o stmt \<Rightarrow> ('o stmt list, rstr) exec) \<Rightarrow> rstr list
    \<Rightarrow> rstr list \<Rightarrow> rstr list \<Rightarrow> rstr list \<Rightarrow> 'o parsed_session \<Rightarrow> ((rstr + rstr list) \<times> 'o parsed_session) panicking" where
  "exec_batch U parse ex statements args [] results s = Some (Inr results, s)"
| "exec_batch U parse ex statements args (p # ps) results s =
     (case exec_one U parse ex statements args p results s of
        None \<Rightarrow> None
      | Some (Inl r, s1) \<Rightarrow> Some (Inl r, s1)
      | Some (Inr rs, s1) \<Rightarrow> exec_batch U parse ex statements args ps rs s1)"

definition batch_response :: "rstr list \<Rightarrow> rstr" where
  "batch_response results =
     (case results of
        [] \<Rightarrow> ok_response (json_text ''OK'')
      | [r] \<Rightarrow> ok_response r
      | _ \<Rightarrow> ok_response (bracketed results))"

definition exec_sql_statements :: "unicode \<Rightarrow> (rstr \<Rightarrow> rstr + 'o stmt list) \<Rightarrow> ('o stmt \<Rightarrow> ('o stmt list, rstr) exec)
    \<Rightarrow> rstr list \<Rightarrow> rstr list \<Rightarrow> 'o parsed_session \<Rightarrow> (rstr \<times> 'o parsed_session) panicking" where
  "exec_sql_statements U parse ex statements args s =
     (if statements = [] then Some (ok_response (json_text []), s)
      else map_option (\<lambda>(r, s'). (case r of Inl resp \<Rightarrow> resp | Inr results \<Rightarrow> batch_response results, s'))
        (exec_batch U parse ex statements args statements [] s))"

end
