(* ===== verification/SqlTextProps.thy ===== *)
theory SqlTextProps
  imports SqlText SqfLexer TextProps LookupKeys
begin

text \<open>
  Arguments never leave their literals when placeholders are filled, a batch splits into the statements it is
  made of, and what the reader of CREATE TRIGGER takes from a text.
\<close>

section \<open>Literals\<close>

text \<open>A text as its string literals and the characters between them.\<close>

datatype sql_piece = Code uchar | Literal "uchar list"

function sql_pieces :: "uchar list \<Rightarrow> sql_piece list option" where
  "sql_pieces [] = Some []"
| "sql_pieces (c # cs) =
     (if c = 39 then
        (case lex_string 39 cs of
           None \<Rightarrow> None
         | Some (s, rest) \<Rightarrow> map_option ((#) (Literal s)) (sql_pieces rest))
      else map_option ((#) (Code c)) (sql_pieces cs))"
  by pat_completeness auto
termination
  by (relation "measure length") (auto dest: lex_string_shorter)

definition double_squotes :: "uchar list \<Rightarrow> uchar list" where
  "double_squotes cs = concat (map (\<lambda>c. if c = 39 then [39, 39] else [c]) cs)"

lemma double_squotes_simps [simp]:
  "double_squotes [] = []"
  "double_squotes (c # cs) = (if c = 39 then [39, 39] else [c]) @ double_squotes cs"
  by (simp_all add: double_squotes_def)

lemma lex_doubled: "rest = [] \<or> hd rest \<noteq> 39 \<Longrightarrow> lex_string 39 (double_squotes cs @ 39 # rest) = Some (cs, rest)"
proof (induction cs)
  case Nil
  then show ?case by (cases rest) auto
qed auto

lemma lex_string_doubled:
  "lex_string 39 cs = Some (s, rest) \<Longrightarrow> cs = double_squotes s @ 39 # rest \<and> (rest = [] \<or> hd rest \<noteq> 39)"
proof (induction "39 :: uchar" cs arbitrary: s rest rule: lex_string.induct)
  case (2 c cs)
  then show ?case by (auto split: if_splits list.splits)
qed simp

lemma pieces_of_literal:
  "rest = [] \<or> hd rest \<noteq> 39 \<Longrightarrow>
   sql_pieces (39 # double_squotes cs @ 39 # rest) = map_option ((#) (Literal cs)) (sql_pieces rest)"
  by (simp add: lex_doubled)

lemma pieces_of_code: "39 \<notin> set cs \<Longrightarrow> sql_pieces (cs @ rest) = map_option ((@) (map Code cs)) (sql_pieces rest)"
  by (cases "sql_pieces rest") (induction cs; simp)+

text \<open>What a piece list starts with.\<close>

lemma pieces_hd: "sql_pieces cs = Some (Code c # ps) \<Longrightarrow> cs \<noteq> [] \<and> hd cs = c \<and> c \<noteq> 39"
  by (cases cs) (auto split: if_splits option.splits)

section \<open>Numbers hold no quotes\<close>

definition plain_char :: "char \<Rightarrow> bool" where
  "plain_char c = (of_char c < (128 :: nat) \<and> c \<noteq> squote)"

lemma plain_lower: "plain_char (ascii_lower c) \<Longrightarrow> plain_char c"
  by (auto simp: plain_char_def ascii_lower_def squote_def Let_def split: if_splits)

lemma plain_digit: "is_digit c \<Longrightarrow> plain_char c"
  by (auto simp: plain_char_def is_digit_def squote_def)

lemma plain_signs [simp]: "plain_char CHR ''-''" "plain_char CHR ''+''" "plain_char CHR ''.''" "plain_char CHR ''e''" "plain_char CHR ''E''"
  by (simp_all add: plain_char_def squote_def)

lemma plain_parse_int: "parse_int s = Some i \<Longrightarrow> list_all plain_char s"
  by (cases s) (auto simp: parse_int_def Let_def list_all_iff plain_digit split: if_splits)

lemma plain_from_lower: "list_all plain_char (to_ascii_lowercase s) \<Longrightarrow> list_all plain_char s"
  by (auto simp: to_ascii_lowercase_def list_all_iff plain_lower)

lemma plain_takeWhile: "list_all plain_char (dropWhile is_digit s) \<Longrightarrow> list_all plain_char s"
  by (induction s) (auto simp: plain_digit split: if_splits)

lemma plain_exponent: "parse_exponent s = Some e \<Longrightarrow> list_all plain_char s"
  by (auto simp: parse_exponent_def plain_parse_int split: list.splits if_splits)

lemma plain_parse_f64:
  assumes "parse_f64 s = Some f"
  shows "list_all plain_char s"
proof -
  define r where "r = (if s \<noteq> [] \<and> (hd s = CHR ''-'' \<or> hd s = CHR ''+'') then tl s else s)"
  have words: "list_all plain_char ''inf''" "list_all plain_char ''infinity''" "list_all plain_char ''nan''"
    by (simp_all add: plain_char_def squote_def)
  have "list_all plain_char r"
  proof (cases "to_ascii_lowercase r \<in> {''inf'', ''infinity'', ''nan''}")
    case True
    then show ?thesis using words plain_from_lower [of r] by auto
  next
    case False
    define r1 where "r1 = dropWhile is_digit r"
    define r2 where "r2 = (if r1 \<noteq> [] \<and> hd r1 = CHR ''.'' then dropWhile is_digit (tl r1) else r1)"
    obtain e where "parse_exponent r2 = Some e"
      using assms False unfolding parse_f64_def r_def [symmetric] r1_def [symmetric] Let_def
      by (auto simp: r2_def split: if_splits option.splits)
    then have "list_all plain_char r2" by (rule plain_exponent)
    then have "list_all plain_char r1"
      using plain_takeWhile [of "tl r1"] by (cases r1) (auto simp: r2_def split: if_splits)
    then show ?thesis using plain_takeWhile unfolding r1_def by blast
  qed
  then show ?thesis by (cases s) (auto simp: r_def split: if_splits)
qed

lemma plain_number: "is_number_text v \<Longrightarrow> list_all plain_char v"
  by (auto simp: is_number_text_def parse_i64_def plain_parse_f64 plain_parse_int split: option.splits)

section \<open>Filling placeholders\<close>

text \<open>The pieces that a placeholder becomes: one literal, or characters without quotes.\<close>

definition arg_pieces :: "rstr \<Rightarrow> sql_piece list" where
  "arg_pieces v =
     (if v = [] then [Literal []]
      else if v = ''NULL'' \<or> v = ''null'' then map Code (chars ''NULL'')
      else if is_number_text v \<or> v = ''true'' \<or> v = ''false'' then map Code (chars v)
      else [Literal (chars v)])"

definition placeholder_pieces :: "rstr list \<Rightarrow> uchar list \<Rightarrow> sql_piece list" where
  "placeholder_pieces args ds =
     (let i = placeholder_index (utf8 ds)
      in if ds \<noteq> [] \<and> 0 < i \<and> i \<le> length args then arg_pieces (args ! (i - 1)) else map Code (36 # ds))"

fun is_digit_piece :: "sql_piece \<Rightarrow> bool" where
  "is_digit_piece (Code d) = is_ascii_digit d"
| "is_digit_piece (Literal s) = False"

fun piece_char :: "sql_piece \<Rightarrow> uchar" where
  "piece_char (Code c) = c"
| "piece_char (Literal s) = 39"

function fill_pieces :: "rstr list \<Rightarrow> sql_piece list \<Rightarrow> sql_piece list" where
  "fill_pieces args [] = []"
| "fill_pieces args (p # ps) =
     (if p = Code 36
      then placeholder_pieces args (map piece_char (takeWhile is_digit_piece ps)) @
           fill_pieces args (dropWhile is_digit_piece ps)
      else p # fill_pieces args ps)"
  by pat_completeness auto
termination
  by (relation "measure (\<lambda>(args, ps). length ps)") (auto simp: length_dropWhile_le le_imp_less_Suc)

text \<open>No placeholder touches a literal or another placeholder.\<close>

fun starts_plain :: "sql_piece list \<Rightarrow> bool" where
  "starts_plain [] = True"
| "starts_plain (Code c # ps) = (c \<noteq> 36)"
| "starts_plain (Literal s # ps) = False"

fun separated :: "sql_piece list \<Rightarrow> bool" where
  "separated [] = True"
| "separated (Literal s # ps) = (starts_plain ps \<and> separated ps)"
| "separated (Code c # ps) = ((c = 36 \<longrightarrow> starts_plain (dropWhile is_digit_piece ps)) \<and> separated ps)"

abbreviation scalars :: "uchar list \<Rightarrow> bool" where
  "scalars cs \<equiv> \<forall>c \<in> set cs. is_scalar c"

text \<open>An argument as it is written into the statement.\<close>

lemma char_of_39: "char_of (39 :: nat) = squote"
  unfolding squote_def by code_simp

lemma replace_squotes_utf8:
  "scalars cs \<Longrightarrow> replace_char squote [squote, squote] (utf8 cs) = utf8 (double_squotes cs)"
proof (induction cs)
  case (Cons c cs)
  have "replace_char squote [squote, squote] (utf8 [c]) = utf8 (if c = 39 then [39, 39] else [c])"
  proof (cases "c = 39")
    case False
    then have "squote \<notin> set (utf8 [c])"
      using low_in_utf8 [of "[c]" 39] Cons.prems by (simp add: char_of_39)
    then show ?thesis using False by (simp add: replace_char_absent)
  qed (simp add: utf8_def utf8_encode_char_def str_of_def replace_char_def char_of_39)
  with Cons show ?case using utf8_append [of "[c]" cs] by simp
qed (simp add: replace_char_def)

lemma utf8_squote: "utf8 [39] = [squote]"
  by (simp add: utf8_def utf8_encode_char_def str_of_def char_of_39)

lemma sql_quoted_utf8: "scalars cs \<Longrightarrow> sql_quoted (utf8 cs) = utf8 (39 # double_squotes cs @ [39])"
  using utf8_append [of "[39]" "double_squotes cs @ [39]"]
  by (simp add: sql_quoted_def replace_squotes_utf8 utf8_squote)

lemma scalars_doubled: "scalars cs \<Longrightarrow> scalars (double_squotes cs)"
  by (auto simp: double_squotes_def split: if_splits)

lemma plain_chars: "list_all plain_char v \<Longrightarrow> v = utf8 (chars v) \<and> scalars (chars v) \<and> 39 \<notin> set (chars v)"
proof -
  assume p: "list_all plain_char v"
  then have a: "is_ascii v" by (auto simp: is_ascii_def list_all_iff plain_char_def)
  have q: "c \<noteq> squote \<Longrightarrow> (of_char c :: nat) \<noteq> 39" for c
    using char_of_39 char_of_char [of c] by metis
  then show ?thesis
    using p q utf8_chars_ascii [OF a]
    by (force simp: chars_ascii [OF a] bytes_of_def list_all_iff plain_char_def is_scalar_def)
qed

lemma argument_out:
  assumes "rust_str v"
  shows "\<exists>out. argument_text v = utf8 out \<and> scalars out \<and>
    (39 \<notin> set out \<and> arg_pieces v = map Code out \<or> (\<exists>s. out = 39 # double_squotes s @ [39] \<and> arg_pieces v = [Literal s]))"
proof -
  have v: "v = utf8 (chars v)" "scalars (chars v)" using rust_strD [OF assms] by blast+
  have words: "list_all plain_char ''NULL''" "list_all plain_char ''true''" "list_all plain_char ''false''"
    by (simp_all add: plain_char_def squote_def)
  consider "v = []" | "v = ''NULL'' \<or> v = ''null''" | "v \<noteq> []" "\<not> (v = ''NULL'' \<or> v = ''null'')" "is_number_text v \<or> v = ''true'' \<or> v = ''false''"
    | "v \<noteq> []" "\<not> (v = ''NULL'' \<or> v = ''null'')" "\<not> (is_number_text v \<or> v = ''true'' \<or> v = ''false'')" by blast
  then show ?thesis
  proof cases
    case 1
    then show ?thesis
      using utf8_append [of "[39]" "[39]"]
      by (intro exI [of _ "[39, 39]"]) (auto simp: argument_text_def arg_pieces_def utf8_squote is_scalar_def intro: exI [of _ "[]"])
  next
    case 2
    then show ?thesis
      using plain_chars [OF words(1)] by (intro exI [of _ "chars ''NULL''"]) (auto simp: argument_text_def arg_pieces_def)
  next
    case 3
    then have "list_all plain_char v" using plain_number words by blast
    then show ?thesis
      using plain_chars [of v] 3 by (intro exI [of _ "chars v"]) (auto simp: argument_text_def arg_pieces_def)
  next
    case 4
    then have a: "argument_text v = utf8 (39 # double_squotes (chars v) @ [39])"
      using sql_quoted_utf8 [OF v(2)] v(1) by (auto simp: argument_text_def)
    have b: "arg_pieces v = [Literal (chars v)]" using 4 by (auto simp: arg_pieces_def)
    have "scalars (39 # double_squotes (chars v) @ [39])" using scalars_doubled [OF v(2)] by (auto simp: is_scalar_def)
    with a b show ?thesis by blast
  qed
qed

lemma digits_plain: "\<forall>d \<in> set ds. is_ascii_digit d \<Longrightarrow> scalars ds \<and> 39 \<notin> set ds"
  by (auto simp: is_ascii_digit_def is_scalar_def)

lemma utf8_dollar: "utf8 (36 # ds) = CHR ''$'' # utf8 ds"
proof -
  have "char_of (36 :: nat) = CHR ''$''" by code_simp
  then show ?thesis using utf8_append [of "[36]" ds] by (simp add: utf8_def utf8_encode_char_def str_of_def)
qed

lemma utf8_empty_digits: "\<forall>d \<in> set ds. is_ascii_digit d \<Longrightarrow> utf8 ds = [] \<longleftrightarrow> ds = []"
  by (subst utf8_small) (auto simp: is_ascii_digit_def str_of_def)

text \<open>What a placeholder becomes, in front of a text that does not start with a quote if the placeholder is text.\<close>

lemma placeholder_out:
  assumes "\<forall>d \<in> set ds. is_ascii_digit d" and "\<forall>a \<in> set args. rust_str a"
    and "scalars out" and "sql_pieces out = Some ps" and "out = [] \<or> hd out \<noteq> 39"
  shows "\<exists>out'. (if utf8 ds = [] then ''$'' else placeholder_text args (utf8 ds)) @ utf8 out = utf8 out' \<and> scalars out' \<and>
    sql_pieces out' = Some (placeholder_pieces args ds @ ps)"
proof -
  let ?i = "placeholder_index (utf8 ds)" let ?t = "if utf8 ds = [] then ''$'' else placeholder_text args (utf8 ds)"
  obtain w where w: "?t = utf8 w" "scalars w"
    "39 \<notin> set w \<and> placeholder_pieces args ds = map Code w \<or>
     (\<exists>s. w = 39 # double_squotes s @ [39] \<and> placeholder_pieces args ds = [Literal s])"
  proof (cases "ds \<noteq> [] \<and> 0 < ?i \<and> ?i \<le> length args")
    case True
    then have "args ! (?i - 1) \<in> set args" by (intro nth_mem) linarith
    then have v: "rust_str (args ! (?i - 1))" using assms(2) by blast
    have t: "?t = argument_text (args ! (?i - 1))"
      using True utf8_empty_digits [OF assms(1)] by (simp add: placeholder_text_def)
    have p: "placeholder_pieces args ds = arg_pieces (args ! (?i - 1))"
      unfolding placeholder_pieces_def Let_def using True by (rule if_P)
    show ?thesis using argument_out [OF v] that unfolding t p by blast
  next
    case False
    have "?t = utf8 (36 # ds)"
      using False utf8_empty_digits [OF assms(1)] by (auto simp: placeholder_text_def utf8_dollar Let_def)
    moreover have "placeholder_pieces args ds = map Code (36 # ds)"
      unfolding placeholder_pieces_def Let_def using False by (rule if_not_P)
    ultimately show ?thesis using that [of "36 # ds"] digits_plain [OF assms(1)] by (auto simp: is_scalar_def)
  qed
  have "?t @ utf8 out = utf8 (w @ out)" and "scalars (w @ out)" using w(1,2) assms(3) by auto
  moreover have "sql_pieces (w @ out) = Some (placeholder_pieces args ds @ ps)"
    using w(3)
  proof
    assume "39 \<notin> set w \<and> placeholder_pieces args ds = map Code w"
    then show ?thesis using pieces_of_code [of w out] assms(4) by simp
  next
    assume "\<exists>s. w = 39 # double_squotes s @ [39] \<and> placeholder_pieces args ds = [Literal s]"
    then obtain s where "w = 39 # double_squotes s @ [39]" "placeholder_pieces args ds = [Literal s]" by blast
    then show ?thesis using pieces_of_literal [OF assms(5), of s] assms(4) by simp
  qed
  ultimately show ?thesis by blast
qed

lemma fill_literal:
  "fill_params args True (double_squotes s @ 39 # rest) = utf8 (double_squotes s @ [39]) @ fill_params args False rest"
proof (induction s)
  case (Cons c s)
  then show ?case
    using utf8_append [of "[c]" "double_squotes s @ [39]"] utf8_append [of "[39]" "39 # double_squotes s @ [39]"]
      utf8_append [of "[39]" "double_squotes s @ [39]"]
    by (auto simp: utf8_append [symmetric] simp del: utf8_append)
qed simp

lemma digit_pieces:
  "sql_pieces cs = Some ps \<Longrightarrow>
   map piece_char (takeWhile is_digit_piece ps) = takeWhile is_ascii_digit cs \<and>
   sql_pieces (dropWhile is_ascii_digit cs) = Some (dropWhile is_digit_piece ps)"
proof (induction cs arbitrary: ps)
  case (Cons c cs)
  show ?case
  proof (cases "c = 39")
    case True
    then show ?thesis using Cons.prems by (auto simp: is_ascii_digit_def split: option.splits)
  next
    case False
    then show ?thesis using Cons by (auto split: option.splits)
  qed
qed auto

lemma separated_drop: "separated ps \<Longrightarrow> separated (dropWhile is_digit_piece ps)"
proof (induction ps)
  case (Cons p ps)
  then show ?case by (cases p) auto
qed simp

lemma pieces_not_literal: "sql_pieces cs = Some (Literal s # ps) \<Longrightarrow> cs \<noteq> [] \<and> hd cs = 39"
  by (cases cs) (auto split: if_splits option.splits)

lemma filled:
  "sql_pieces cs = Some ps \<Longrightarrow> separated ps \<Longrightarrow> scalars cs \<Longrightarrow> \<forall>a \<in> set args. rust_str a \<Longrightarrow>
   \<exists>out. fill_params args False cs = utf8 out \<and> scalars out \<and> sql_pieces out = Some (fill_pieces args ps) \<and>
     (starts_plain ps \<longrightarrow> out = [] \<or> hd out \<noteq> 39)"
proof (induction "length cs" arbitrary: cs ps rule: less_induct)
  case less
  show ?case
  proof (cases cs)
    case Nil
    then show ?thesis using less.prems by (intro exI [of _ "[]"]) auto
  next
    case (Cons c cs')
    consider "c = 39" | "c = 36" | "c \<noteq> 39" "c \<noteq> 36" by blast
    then show ?thesis
    proof cases
      case 1
      then obtain s rest ps' where l: "lex_string 39 cs' = Some (s, rest)" "sql_pieces rest = Some ps'" "ps = Literal s # ps'"
        using less.prems(1) Cons by (auto split: option.splits)
      note d = lex_string_doubled [OF l(1)]
      have "starts_plain ps'" "separated ps'" using less.prems(2) l(3) by simp_all
      moreover have "length rest < length cs" "scalars rest" using less.prems(3) Cons d by auto
      ultimately obtain out where o: "fill_params args False rest = utf8 out" "scalars out"
        "sql_pieces out = Some (fill_pieces args ps')" "out = [] \<or> hd out \<noteq> 39"
        using less.hyps [of rest ps'] l(2) less.prems(4) by blast
      have "fill_params args False cs = utf8 (39 # double_squotes s @ 39 # out)"
        using fill_literal [of args s rest] o(1) Cons 1 d utf8_append [of "[39]" "double_squotes s @ 39 # out"]
          utf8_append [of "double_squotes s @ [39]" out] by simp
      moreover have "scalars (39 # double_squotes s @ 39 # out)" using less.prems(3) Cons d o(2) by (auto simp: is_scalar_def)
      moreover have "sql_pieces (39 # double_squotes s @ 39 # out) = Some (fill_pieces args ps)"
        using pieces_of_literal [OF o(4), of s] o(3) l(3) by simp
      ultimately show ?thesis using l(3) by (intro exI [of _ "39 # double_squotes s @ 39 # out"]) simp
    next
      case 2
      then obtain ps' where p: "sql_pieces cs' = Some ps'" "ps = Code 36 # ps'" using less.prems(1) Cons by auto
      let ?ds = "takeWhile is_ascii_digit cs'" let ?rest = "dropWhile is_ascii_digit cs'"
      note dp = digit_pieces [OF p(1)]
      have "length ?rest < length cs" using Cons length_dropWhile_le [of is_ascii_digit cs'] by simp
      moreover have "separated (dropWhile is_digit_piece ps')" "starts_plain (dropWhile is_digit_piece ps')"
        using less.prems(2) p(2) separated_drop by simp_all
      moreover have "scalars ?rest" using less.prems(3) Cons set_dropWhileD [of _ is_ascii_digit cs'] by auto
      ultimately obtain out where o: "fill_params args False ?rest = utf8 out" "scalars out"
        "sql_pieces out = Some (fill_pieces args (dropWhile is_digit_piece ps'))" "out = [] \<or> hd out \<noteq> 39"
        using less.hyps [of ?rest "dropWhile is_digit_piece ps'"] dp less.prems(4) by blast
      have "\<forall>d \<in> set ?ds. is_ascii_digit d" using set_takeWhileD [of _ is_ascii_digit cs'] by blast
      then obtain out' where "(if utf8 ?ds = [] then ''$'' else placeholder_text args (utf8 ?ds)) @ utf8 out = utf8 out'"
        "scalars out'" "sql_pieces out' = Some (placeholder_pieces args ?ds @ fill_pieces args (dropWhile is_digit_piece ps'))"
        using placeholder_out [OF _ less.prems(4) o(2,3,4)] by blast
      then show ?thesis using Cons 2 o(1) p(2) dp by (intro exI [of _ out']) (simp add: Let_def)
    next
      case 3
      then obtain ps' where p: "sql_pieces cs' = Some ps'" "ps = Code c # ps'" using less.prems(1) Cons by auto
      then obtain out where o: "fill_params args False cs' = utf8 out" "scalars out"
        "sql_pieces out = Some (fill_pieces args ps')"
        using less.hyps [of cs' ps'] less.prems Cons by auto
      then show ?thesis
        using Cons 3 p less.prems(3) utf8_append [of "[c]" out] by (intro exI [of _ "c # out"]) simp
    qed
  qed
qed



section \<open>Splitting a batch\<close>

text \<open>A statement: trimmed, its literals closed, no semicolon outside them, no backslash.\<close>

definition whole_statement :: "rstr \<Rightarrow> bool" where
  "whole_statement st \<longleftrightarrow> st \<noteq> [] \<and> trim st = st \<and> rust_str st \<and> 92 \<notin> set (chars st) \<and>
     (\<exists>ps. sql_pieces (chars st) = Some ps \<and> Code 59 \<notin> set ps)"

lemma split_literal:
  "92 \<notin> set s \<Longrightarrow> prev \<noteq> 92 \<Longrightarrow> \<exists>p. p \<noteq> 92 \<and>
   split_stmts True prev cur (double_squotes s @ 39 # rest) = split_stmts False p (cur @ double_squotes s @ [39]) rest"
proof (induction s arbitrary: prev cur)
  case Nil
  then show ?case by (intro exI [of _ 39]) simp
next
  case (Cons c s)
  show ?case
  proof (cases "c = 39")
    case True
    then show ?thesis using Cons.IH [of 39 "cur @ [39, 39]"] Cons.prems by simp
  next
    case False
    then show ?thesis using Cons.IH [of c "cur @ [c]"] Cons.prems by simp
  qed
qed

lemma split_through:
  "sql_pieces cs = Some ps \<Longrightarrow> Code 59 \<notin> set ps \<Longrightarrow> 92 \<notin> set cs \<Longrightarrow> prev \<noteq> 92 \<Longrightarrow>
   \<exists>p. p \<noteq> 92 \<and> split_stmts False prev cur (cs @ rest) = split_stmts False p (cur @ cs) rest"
proof (induction "length cs" arbitrary: cs ps prev cur rule: less_induct)
  case less
  show ?case
  proof (cases cs)
    case Nil
    then show ?thesis using less.prems by (intro exI [of _ prev]) simp
  next
    case (Cons c cs')
    show ?thesis
    proof (cases "c = 39")
      case True
      then obtain s more_cs ps' where l: "lex_string 39 cs' = Some (s, more_cs)" "sql_pieces more_cs = Some ps'" "ps = Literal s # ps'"
        using less.prems(1) Cons by (auto split: option.splits)
      note d = lex_string_doubled [OF l(1)]
      have s92: "92 \<notin> set s" using less.prems(3) Cons d by (auto simp: double_squotes_def)
      obtain p where p: "p \<noteq> 92" "split_stmts True 39 (cur @ [39]) (double_squotes s @ 39 # more_cs @ rest) =
          split_stmts False p (cur @ 39 # double_squotes s @ [39]) (more_cs @ rest)"
        using split_literal [OF s92, of 39 "cur @ [39]" "more_cs @ rest"] by auto
      obtain p' where "p' \<noteq> 92" "split_stmts False p (cur @ 39 # double_squotes s @ [39]) (more_cs @ rest) =
          split_stmts False p' ((cur @ 39 # double_squotes s @ [39]) @ more_cs) rest"
        using less.hyps [of more_cs ps' p "cur @ 39 # double_squotes s @ [39]"] less.prems Cons d l p(1) by auto
      then show ?thesis using Cons True d p less.prems(4) by (intro exI [of _ p']) simp
    next
      case False
      then obtain ps' where p: "sql_pieces cs' = Some ps'" "ps = Code c # ps'" using less.prems(1) Cons by auto
      obtain p' where "p' \<noteq> 92" "split_stmts False c (cur @ [c]) (cs' @ rest) = split_stmts False p' ((cur @ [c]) @ cs') rest"
        using less.hyps [of cs' ps' c "cur @ [c]"] less.prems Cons p by auto
      then show ?thesis using Cons False p less.prems(2) by (intro exI [of _ p']) auto
    qed
  qed
qed

lemma trim_space: "scalars cs \<Longrightarrow> trim (utf8 (32 # cs)) = trim (utf8 cs)"
proof -
  assume "scalars cs"
  moreover from this have "scalars (32 # cs)" by (simp add: is_scalar_def)
  ultimately show ?thesis by (simp only: trim_def chars_utf8) (simp add: is_whitespace_def)
qed

fun join_statements :: "uchar list list \<Rightarrow> uchar list" where
  "join_statements [] = []"
| "join_statements [x] = x"
| "join_statements (x # y # xs) = x @ 59 # 32 # join_statements (y # xs)"

lemma split_joined:
  "\<forall>cs \<in> set css. scalars cs \<and> whole_statement (utf8 cs) \<Longrightarrow> prev \<noteq> 92 \<Longrightarrow> css \<noteq> [] \<Longrightarrow>
   split_stmts False prev [] (join_statements css) = map utf8 css \<and>
   split_stmts False prev [32] (join_statements css) = map utf8 css"
proof (induction css arbitrary: prev rule: join_statements.induct)
  case (2 x)
  then obtain ps where p: "sql_pieces x = Some ps" "Code 59 \<notin> set ps" "92 \<notin> set x" and w: "trim (utf8 x) = utf8 x" "utf8 x \<noteq> []"
    and sc: "scalars x" by (auto simp: whole_statement_def)
  have "\<exists>q. split_stmts False prev cur x = split_stmts False q (cur @ x) []" for cur
    using split_through [OF p "2.prems"(2), of cur "[]"] by auto
  then have "split_stmts False prev cur x = add_trimmed (cur @ x) []" for cur by (metis split_stmts.simps(1))
  then show ?case using w trim_space [OF sc] by (simp add: add_trimmed_def Let_def del: utf8_append)
next
  case (3 x y xs)
  then obtain ps where p: "sql_pieces x = Some ps" "Code 59 \<notin> set ps" "92 \<notin> set x" and w: "trim (utf8 x) = utf8 x" "utf8 x \<noteq> []"
    and sc: "scalars x" by (auto simp: whole_statement_def)
  have ih: "split_stmts False 32 [32] (join_statements (y # xs)) = map utf8 (y # xs)"
    using "3.IH" [of 32] "3.prems"(1) by simp
  have "split_stmts False prev cur (x @ 59 # 32 # join_statements (y # xs)) = add_trimmed (cur @ x) (map utf8 (y # xs))" for cur
    using split_through [OF p "3.prems"(2), of cur "59 # 32 # join_statements (y # xs)"] ih by auto
  then show ?case using w trim_space [OF sc] by (simp add: add_trimmed_def Let_def del: utf8_append)
qed simp

lemma utf8_semicolon: "utf8 (59 # 32 # cs) = ''; '' @ utf8 cs"
proof -
  have "char_of (59 :: nat) = CHR '';''" "char_of (32 :: nat) = CHR '' ''" by code_simp+
  then show ?thesis using utf8_append [of "[59, 32]" cs] by (simp add: utf8_def utf8_encode_char_def str_of_def)
qed

lemma join_statements_utf8: "join ''; '' (map utf8 css) = utf8 (join_statements css)"
  by (induction css rule: join_statements.induct) (simp_all add: utf8_semicolon)

lemma scalars_join: "\<forall>cs \<in> set css. scalars cs \<Longrightarrow> scalars (join_statements css)"
  by (induction css rule: join_statements.induct) (auto simp: is_scalar_def)

text \<open>C39.  A batch splits into its statements: joining statements with semicolons, whose literals are closed and may hold
  anything but a backslash, and splitting the text gives the statements back.\<close>

theorem split_inverts_join:
  assumes "\<forall>st \<in> set sts. whole_statement st"
  shows "split_sql (join ''; '' sts) = sts"
proof (cases "sts = []")
  case True
  then show ?thesis by (simp add: split_sql_def chars_ascii is_ascii_def bytes_of_def add_trimmed_def trim_def)
next
  case False
  have each: "utf8 (chars st) = st \<and> scalars (chars st)" if "st \<in> set sts" for st
    using assms that rust_strD [of st] by (simp add: whole_statement_def)
  then have m: "map utf8 (map chars sts) = sts" by (simp add: comp_def map_idI)
  have w: "\<forall>cs \<in> set (map chars sts). scalars cs \<and> whole_statement (utf8 cs)" using each assms by auto
  then have sc: "\<forall>cs \<in> set (map chars sts). scalars cs" by blast
  have "chars (join ''; '' sts) = join_statements (map chars sts)"
    using join_statements_utf8 [of "map chars sts"] m scalars_join [OF sc] by simp
  then show ?thesis using split_joined [OF w, of 32] False m by (simp add: split_sql_def)
qed

lemma ascii_rust_str: "is_ascii s \<Longrightarrow> rust_str s"
  using utf8_chars_ascii [of s] unfolding rust_str_def
  by (intro exI [of _ "chars s"]) (auto simp: chars_ascii is_ascii_def bytes_of_def is_scalar_def)

theorem split_inverts_join_witness:
  "split_sql (join ''; '' [[CHR ''x'', squote, CHR '';'', squote], ''y'']) = [[CHR ''x'', squote, CHR '';'', squote], ''y'']"
proof -
  let ?x = "[CHR ''x'', squote, CHR '';'', squote]"
  have a: "is_ascii ?x" "is_ascii ''y''" by (simp_all add: is_ascii_def squote_def)
  have c: "chars ?x = [120, 39, 59, 39]" "chars ''y'' = [121]" by (simp_all add: chars_ascii is_ascii_def bytes_of_def squote_def)
  have t: "trim ?x = ?x" "trim ''y'' = ''y''"
    using utf8_chars_ascii [OF a(1)] utf8_chars_ascii [OF a(2)] by (simp_all add: trim_def c is_whitespace_def)
  have "whole_statement ?x" "whole_statement ''y''" using a t by (simp_all add: whole_statement_def c ascii_rust_str)
  then show ?thesis by (intro split_inverts_join) simp
qed

text \<open>A backslash before a quote hides the end of a literal from the splitter, though not from SQL: the two statements
  stay one text.\<close>

lemma backslash_hides_literal_end:
  "split_sql [squote, CHR 92, squote, CHR '';'', CHR ''b''] = [[squote, CHR 92, squote, CHR '';'', CHR ''b'']]"
proof -
  let ?x = "[squote, CHR 92, squote, CHR '';'', CHR ''b'']"
  have a: "is_ascii ?x" by (simp add: is_ascii_def squote_def)
  have c: "chars ?x = [39, 92, 39, 59, 98]" by (simp add: chars_ascii is_ascii_def bytes_of_def squote_def)
  show ?thesis using utf8_chars_ascii [OF a] by (simp add: split_sql_def c add_trimmed_def trim_def is_whitespace_def)
qed

text \<open>A negative argument after a minus sign opens a comment.\<close>

lemma argument_opens_comment: "substitute_params ''a -$1 AND b'' [''-5''] = ''a --5 AND b''"
proof -
  have a: "is_ascii ''a -$1 AND b''" by (simp add: is_ascii_def)
  have c: "chars ''a -$1 AND b'' = [97, 32, 45, 36, 49, 32, 65, 78, 68, 32, 98]"
    by (simp add: chars_ascii a bytes_of_def)
  have n: "is_number_text ''-5''" by (simp add: is_number_text_def parse_i64_def parse_int_def is_digit_def digits_val_def
      digit_val_def i64_min_def i64_max_def)
  have w: "char_of (97 :: nat) = CHR ''a''" "char_of (32 :: nat) = CHR '' ''" "char_of (45 :: nat) = CHR ''-''"
    "char_of (49 :: nat) = CHR ''1''" "char_of (65 :: nat) = CHR ''A''" "char_of (78 :: nat) = CHR ''N''"
    "char_of (68 :: nat) = CHR ''D''" "char_of (98 :: nat) = CHR ''b''" by code_simp+
  have u: "c < 128 \<Longrightarrow> utf8 [c] = [char_of c]" for c by (simp add: utf8_def utf8_encode_char_def str_of_def)
  show ?thesis
    by (simp add: substitute_params_def c u w is_ascii_digit_def placeholder_text_def placeholder_index_def digits_val_def
        digit_val_def argument_text_def n)
qed

text \<open>The statements of a trigger body after its first one are part of the stored trigger and are executed once
  more, at its creation.\<close>

lemma trigger_body_runs_at_creation:
  assumes "handle_create_trigger U ''CREATE TRIGGER g AFTER INSERT ON t BEGIN DELETE FROM a;DELETE FROM b;END'' (se_db s) =
    Some (Inr (r, db))" and "exec_text parse ex [] ''DELETE FROM b'' [r] (s\<lparr>se_db := db\<rparr>) = Some (Inr rs, s1)"
  shows "exec_batch U parse ex
      [''CREATE TRIGGER g AFTER INSERT ON t BEGIN DELETE FROM a'', ''DELETE FROM b'', ''END'']
      [] [''CREATE TRIGGER g AFTER INSERT ON t BEGIN DELETE FROM a'', ''DELETE FROM b'', ''END''] [] s = Some (Inr rs, s1)"
proof -
  let ?p = "''CREATE TRIGGER g AFTER INSERT ON t BEGIN DELETE FROM a''"
  have t: "trim ?p = ?p" "trim ''DELETE FROM b'' = ''DELETE FROM b''" "trim ''END'' = ''END''"
    using utf8_chars_ascii [of ?p] utf8_chars_ascii [of "''DELETE FROM b''"] utf8_chars_ascii [of "''END''"]
    by (simp_all add: trim_def chars_ascii is_ascii_def bytes_of_def is_whitespace_def)
  have l: "to_lowercase U ?p = ''create trigger g after insert on t begin delete from a''"
    "to_lowercase U ''DELETE FROM b'' = ''delete from b''" "to_lowercase U ''END'' = ''end''"
    by (simp_all add: to_lowercase_def is_ascii_def to_ascii_lowercase_def ascii_lower_def char_of_def drop_bit_eq_div bit_0)
  show ?thesis
    using assms by (simp add: exec_one_def is_create_trigger_def t l whole_trigger_def ends_with_def)
qed

text \<open>A word that ends in \<open>end\<close> closes the body.\<close>

lemma weekend_ends_the_body:
  "trigger_body_text U ''BEGIN UPDATE t SET weekend = 1; END'' = Some (Inr ''UPDATE t SET week'')"
proof -
  let ?p = "''BEGIN UPDATE t SET weekend = 1; END''" let ?q = "'' UPDATE t SET weekend = 1; END''"
  have l: "to_lowercase U ?p = ''begin update t set weekend = 1; end''" "to_lowercase U ?q = '' update t set weekend = 1; end''"
    by (simp_all add: to_lowercase_def is_ascii_def to_ascii_lowercase_def ascii_lower_def char_of_def drop_bit_eq_div bit_0)
  have t: "trim '' UPDATE t SET week'' = ''UPDATE t SET week''" "trim ''UPDATE t SET week'' = ''UPDATE t SET week''"
    using utf8_chars_ascii [of "''UPDATE t SET week''"]
    by (simp_all add: trim_def chars_ascii is_ascii_def bytes_of_def is_whitespace_def)
  show ?thesis
    by (simp add: trigger_body_text_def l or_fail_def cut_at_def split_at_byte_def char_boundary_def is_continuation_def
        is_cont_def word_ends_def is_ascii_alphabetic_def is_ascii_digit_def t trim_end_semicolons_def)
qed

end
