(* ===== verification/Commands.thy ===== *)
theory Commands
  imports SqlText SaveFile Sorting
begin

text \<open>
  \<open>dispatch.rs\<close> and \<open>dispatch/commands.rs\<close>: the text commands of the extension.  A command works on the
  session, the disk and the global cells; a text that is no command is a batch of SQL.
\<close>

section \<open>State and surroundings\<close>

text \<open>\<open>REENTRANT_DEPTH\<close>, \<open>CREDENTIALS\<close>, \<open>REMOTE\<close>, \<open>LISTENER\<close> (the address) and the functions registered
  from SQF.\<close>

record 'o world =
  wd_session :: "'o parsed_session"
  wd_disk :: disk
  wd_depth :: nat
  wd_credentials :: "rstr \<times> rstr"
  wd_remote :: "rstr option"
  wd_listener :: "rstr option"
  wd_functions :: "rstr \<rightharpoonup> rstr \<times> nat"

text \<open>What is outside: the parts the statement execution needs, the SQL parser with the text of its errors, the
  operating system, the printing of expressions, the JSON library, the version, the clock, the network, the
  plugin registry.\<close>

record 'o platform =
  pf_host :: "('o stmt list, 'o stmt) host"
  pf_statement_host :: "('o stmt list, 'o) statement_host"
  pf_parse :: "rstr \<Rightarrow> rstr + 'o stmt list"
  pf_os :: os
  pf_disp :: "sql_expr \<Rightarrow> rstr"
  pf_quote :: "rstr \<Rightarrow> rstr"
  pf_json :: "rstr \<Rightarrow> json sres"
  pf_version :: rstr
  pf_clock :: "nat \<times> nat"
  pf_connect :: "rstr \<Rightarrow> rstr option"
  pf_remote :: "rstr \<Rightarrow> rstr \<Rightarrow> rstr option"
  pf_start_server :: "rstr \<Rightarrow> nat \<Rightarrow> rstr sres"
  pf_plugins :: rstr
  pf_load_plugins :: "rstr \<Rightarrow> rstr"

type_synonym 'o answer = "(rstr \<times> 'o world) panicking"

definition env_of :: "'o platform \<Rightarrow> 'o world \<Rightarrow> eval_env" where
  "env_of P w = host_env (pf_host P) (wd_session w)"

abbreviation unicode_of :: "'o platform \<Rightarrow> 'o world \<Rightarrow> unicode" where
  "unicode_of P w \<equiv> env_unicode (env_of P w)"

definition run_statement :: "'o platform \<Rightarrow> 'o stmt \<Rightarrow> ('o stmt list, rstr) exec" where
  "run_statement P = execute (pf_host P) (pf_statement_host P)"

definition run_sql_text :: "'o platform \<Rightarrow> rstr \<Rightarrow> ('o stmt list, rstr) exec" where
  "run_sql_text P = parse_and_exec (pf_host P) (run_statement P)"

definition on_session :: "('o parsed_session \<Rightarrow> (rstr \<times> 'o parsed_session) panicking) \<Rightarrow> 'o world \<Rightarrow> 'o answer" where
  "on_session f w = map_option (\<lambda>(r, s). (r, w\<lparr>wd_session := s\<rparr>)) (f (wd_session w))"

definition on_db :: "('o stmt list database \<Rightarrow> rstr \<times> 'o stmt list database) \<Rightarrow> 'o world \<Rightarrow> 'o answer" where
  "on_db f w = on_session (\<lambda>s. Some (let (r, db) = f (se_db s) in (r, s\<lparr>se_db := db\<rparr>))) w"

definition answer :: "rstr \<Rightarrow> 'o world \<Rightarrow> 'o answer" where
  "answer r w = Some (r, w)"

definition said :: "rstr \<Rightarrow> rstr" where
  "said r = ok_response (json_text r)"

section \<open>Live patches\<close>

definition patch_table_sql :: rstr where
  "patch_table_sql = ''CREATE TABLE IF NOT EXISTS patch_rules (id INTEGER AUTO_INCREMENT, name TEXT NOT NULL PRIMARY KEY, active INTEGER DEFAULT 1, priority INTEGER DEFAULT 0, match_type TEXT NOT NULL DEFAULT '' @ [squote] @ ''exact'' @ [squote] @ '', match_value TEXT DEFAULT '' @ [squote, squote] @ '', target_type TEXT NOT NULL, property TEXT NOT NULL, operator TEXT DEFAULT '' @ [squote] @ ''set'' @ [squote] @ '', value TEXT NOT NULL, created_at TEXT DEFAULT '' @ [squote, squote] @ '')''"

definition patch_insert_sql :: "nat \<times> nat \<Rightarrow> rstr \<Rightarrow> rstr \<Rightarrow> rstr \<Rightarrow> rstr" where
  "patch_insert_sql clock target_type property v =
     (let name = ''live_patch_'' @ dec_nat (fst clock) @ ''_'' @ pad_dec 9 (snd clock)
      in ''INSERT INTO patch_rules (name, active, priority, match_type, match_value, target_type, property, operator, value, created_at) VALUES ('' @
         sql_quoted name @ '', 1, 0, '' @ sql_quoted ''exact'' @ '', '' @ sql_quoted [] @ '', '' @ sql_quoted target_type @ '', '' @
         sql_quoted property @ '', '' @ sql_quoted ''set'' @ '', '' @ sql_quoted v @ '', '' @ sql_quoted (dec_nat (fst clock)) @ '')'')"

definition live_patch_args :: "rstr \<Rightarrow> rstr list \<Rightarrow> rstr list" where
  "live_patch_args trimmed args =
     (if args \<noteq> [] then args
      else case strip_any_prefix [''live_patch '', ''LIVE_PATCH ''] trimmed of
             None \<Rightarrow> [[]]
           | Some r \<Rightarrow> (if r = [] then [[]] else split_on (CHR '' '') r))"

text \<open>The result of the last of the statements.\<close>

fun exec_last :: "('o stmt \<Rightarrow> ('ast, rstr) exec) \<Rightarrow> 'o stmt list \<Rightarrow> rstr \<Rightarrow> 'ast session \<Rightarrow> (rstr \<times> 'ast session) panicking" where
  "exec_last ex [] r s = Some (ok_response r, s)"
| "exec_last ex (st # sts) r s =
     (case ex st s of
        None \<Rightarrow> None
      | Some (Inl e, s1) \<Rightarrow> Some (error_response Exec (error_message e), s1)
      | Some (Inr r1, s1) \<Rightarrow> exec_last ex sts r1 s1)"

definition live_patch_list :: "'o platform \<Rightarrow> 'o parsed_session \<Rightarrow> (rstr \<times> 'o parsed_session) panicking" where
  "live_patch_list P s =
     (case pf_parse P ''SELECT * FROM patch_rules ORDER BY priority'' of
        Inl e \<Rightarrow> Some (error_response Parse e, s)
      | Inr [] \<Rightarrow> Some (error_response Exec ''no statements'', s)
      | Inr (st # _) \<Rightarrow> exec_last (run_statement P) [st] [] s)"

definition live_patch_query :: "'o platform \<Rightarrow> rstr \<Rightarrow> 'o parsed_session \<Rightarrow> (rstr \<times> 'o parsed_session) panicking" where
  "live_patch_query P sql s =
     (if sql = [] then Some (error_response Exec ''SQL required for query mode'', s)
      else case pf_parse P sql of
             Inl e \<Rightarrow> Some (error_response Parse e, s)
           | Inr [] \<Rightarrow> Some (error_response Exec ''no statements in query'', s)
           | Inr sts \<Rightarrow> exec_last (run_statement P) sts (json_text ''OK'') s)"

definition live_patch_insert :: "'o platform \<Rightarrow> rstr list \<Rightarrow> 'o parsed_session \<Rightarrow> (rstr \<times> 'o parsed_session) panicking" where
  "live_patch_insert P lp s =
     (let target_type = (case nth_or lp 0 of Some x \<Rightarrow> x | None \<Rightarrow> []); property = (case nth_or lp 1 of Some x \<Rightarrow> x | None \<Rightarrow> []);
          v = (case nth_or lp 2 of Some x \<Rightarrow> x | None \<Rightarrow> [])
      in if target_type = [] then Some (error_response Exec ''target_type is required'', s)
         else if property = [] then Some (error_response Exec ''property is required'', s)
         else if v = [] then Some (error_response Exec ''value is required'', s)
         else case run_sql_text P (patch_insert_sql (pf_clock P) target_type property v) s of
                None \<Rightarrow> None
              | Some (Inl e, s1) \<Rightarrow> Some (error_response Exec (error_message e), s1)
              | Some (Inr _, s1) \<Rightarrow>
                  Some (said (''Patch rule inserted with id '' @
                    (case db_last_insert_rowid (se_db s1) of Some i \<Rightarrow> i | None \<Rightarrow> ''unknown'')), s1))"

definition handle_live_patch :: "'o platform \<Rightarrow> rstr \<Rightarrow> rstr list \<Rightarrow> 'o world \<Rightarrow> 'o answer" where
  "handle_live_patch P trimmed args =
     on_session (\<lambda>s.
       let lp = live_patch_args trimmed args; first_arg = (case nth_or lp 0 of Some a \<Rightarrow> a | None \<Rightarrow> [])
       in case run_sql_text P patch_table_sql s of
            None \<Rightarrow> None
          | Some (Inl e, s1) \<Rightarrow> Some (error_response Exec (error_message e), s1)
          | Some (Inr _, s1) \<Rightarrow>
              (if first_arg = ''list'' then live_patch_list P s1
               else if first_arg = ''query''
               then live_patch_query P
                 (if args = [] then (case strip_any_prefix [''live_patch query '', ''LIVE_PATCH QUERY ''] trimmed of
                                       Some q \<Rightarrow> q | None \<Rightarrow> [])
                  else (case nth_or lp 1 of Some q \<Rightarrow> q | None \<Rightarrow> [])) s1
               else live_patch_insert P lp s1))"

section \<open>Cursors\<close>

text \<open>The arguments after the command's name: slicing panics when the text is shorter.\<close>

definition after_byte :: "rstr \<Rightarrow> nat \<Rightarrow> rstr panicking" where
  "after_byte s i = map_option snd (split_at_byte s i)"

definition handle_cursor_create :: "'o platform \<Rightarrow> rstr \<Rightarrow> 'o world \<Rightarrow> 'o answer" where
  "handle_cursor_create P trimmed w =
     (case after_byte trimmed 14 of
        None \<Rightarrow> None
      | Some r \<Rightarrow>
          (case splitn_whitespace 2 (trim r) of
             n # q # _ \<Rightarrow>
               on_db (\<lambda>db. (said (quote_msg ''Cursor '' n '' created''), create_cursor (unicode_of P w) n (trim q) 100 db)) w
           | _ \<Rightarrow> answer (error_response Exec ''Usage: cursor create <name> <query>'') w))"

text \<open>The next page: the offset is moved on by the limit, with wrap-around, and the query run with both.\<close>

definition cursor_page :: "rstr \<Rightarrow> nat \<Rightarrow> cursor_state \<Rightarrow> rstr \<times> cursor_state" where
  "cursor_page n limit c =
     (let next = (cur_offset c + limit) mod 2 ^ 64
      in (cur_sql c @ '' LIMIT '' @ dec_nat limit @ '' OFFSET '' @ dec_nat ((next + 2 ^ 64 - limit) mod 2 ^ 64),
          c\<lparr>cur_offset := next\<rparr>))"

definition handle_cursor_fetch :: "(rstr \<Rightarrow> 'o world \<Rightarrow> 'o answer) \<Rightarrow> rstr \<Rightarrow> 'o world \<Rightarrow> 'o answer" where
  "handle_cursor_fetch again trimmed w =
     (case after_byte trimmed 13 of
        None \<Rightarrow> None
      | Some r \<Rightarrow>
          (let parts = splitn_whitespace 2 (trim r); n = hd parts;
               limit = (case Option.bind (nth_or parts 1) parse_usize of Some k \<Rightarrow> k | None \<Rightarrow> 100)
           in case db_cursors (se_db (wd_session w)) n of
                None \<Rightarrow> answer (error_response Exec (quote_msg ''Cursor '' n '' not found'')) w
              | Some c \<Rightarrow>
                  (let (sql, c') = cursor_page n limit c; s = wd_session w
                   in again sql (w\<lparr>wd_session := s\<lparr>se_db := (se_db s)\<lparr>db_cursors := (db_cursors (se_db s))(n \<mapsto> c')\<rparr>\<rparr>\<rparr>))))"

definition handle_cursor_drop :: "'o platform \<Rightarrow> rstr \<Rightarrow> 'o world \<Rightarrow> 'o answer" where
  "handle_cursor_drop P trimmed w =
     (case after_byte trimmed 12 of
        None \<Rightarrow> None
      | Some r \<Rightarrow>
          on_db (\<lambda>db. case drop_cursor (unicode_of P w) (trim r) db of
              Inr db' \<Rightarrow> (said (quote_msg ''Cursor '' (trim r) '' dropped''), db')
            | Inl e \<Rightarrow> (error_response Exec e, db)) w)"

section \<open>Prepared statements\<close>

definition count_placeholders :: "rstr \<Rightarrow> nat" where
  "count_placeholders sql =
     length (filter (\<lambda>i. sql ! i = CHR ''$'' \<and> i + 1 < length sql \<and> is_digit (sql ! (i + 1))) [0..<length sql])"

definition handle_prepare :: "'o platform \<Rightarrow> rstr \<Rightarrow> 'o world \<Rightarrow> 'o answer" where
  "handle_prepare P rest w =
     (case splitn_whitespace 2 (trim rest) of
        n # q # _ \<Rightarrow>
          on_db (\<lambda>db. (said (quote_msg ''Prepared '' n []), prepare (unicode_of P w) n q (count_placeholders q) db)) w
      | _ \<Rightarrow> answer (error_response Exec ''Usage: prepare <name> <sql>'') w)"

text \<open>\<open>split_whitespace\<close>: the words of a text.\<close>

fun ws_words :: "uchar list \<Rightarrow> uchar list \<Rightarrow> uchar list list" where
  "ws_words acc [] = (if acc = [] then [] else [acc])"
| "ws_words acc (c # cs) =
     (if is_whitespace c then (if acc = [] then ws_words [] cs else acc # ws_words [] cs) else ws_words (acc @ [c]) cs)"

definition split_whitespace :: "rstr \<Rightarrow> rstr list" where
  "split_whitespace s = map utf8 (ws_words [] (chars s))"

definition handle_execute_prepared :: "(rstr \<Rightarrow> 'o world \<Rightarrow> 'o answer) \<Rightarrow> rstr \<Rightarrow> rstr list \<Rightarrow> 'o world \<Rightarrow> 'o answer" where
  "handle_execute_prepared again rest args w =
     (let parts = splitn_whitespace 2 (trim rest); n = hd parts;
          extra = (case nth_or parts 1 of Some r \<Rightarrow> split_whitespace (trim r) | None \<Rightarrow> [])
      in case db_prepared (se_db (wd_session w)) n of
           None \<Rightarrow> answer (error_response Exec (quote_msg ''Prepared statement '' n '' not found'')) w
         | Some p \<Rightarrow> again (substitute_params (prep_sql p) (args @ extra)) w)"

section \<open>The listener\<close>

text \<open>A number of at most so many bits, with an optional plus sign.\<close>

definition parse_port :: "rstr \<Rightarrow> nat option" where
  "parse_port s = (case parse_usize s of Some n \<Rightarrow> (if n < 2 ^ 16 then Some n else None) | None \<Rightarrow> None)"

definition default_port :: nat where
  "default_port = 33306"

definition handle_listen :: "'o platform \<Rightarrow> rstr list \<Rightarrow> 'o world \<Rightarrow> 'o answer" where
  "handle_listen P args w =
     (let port = (case Option.bind (nth_or args 0) parse_port of Some p \<Rightarrow> p | None \<Rightarrow> default_port)
      in case pf_start_server P ''127.0.0.1'' port of
           Inr addr \<Rightarrow> answer (said (''Listening on '' @ addr)) (w\<lparr>wd_listener := Some addr\<rparr>)
         | Inl e \<Rightarrow> answer (error_response Io e) (w\<lparr>wd_listener := None\<rparr>))"

section \<open>Dispatch\<close>

text \<open>The SQL batch of a text.\<close>

definition sql_batch :: "'o platform \<Rightarrow> rstr list \<Rightarrow> rstr list \<Rightarrow> 'o world \<Rightarrow> 'o answer" where
  "sql_batch P statements args w =
     on_session (exec_sql_statements (unicode_of P w) (pf_parse P) (run_statement P) statements args) w"

text \<open>The guard counts the calls that are active.\<close>

definition with_depth :: "('o world \<Rightarrow> 'o answer) \<Rightarrow> 'o world \<Rightarrow> 'o answer" where
  "with_depth f w =
     map_option (\<lambda>(r, w'). (r, w'\<lparr>wd_depth := wd_depth w' - 1\<rparr>)) (f (w\<lparr>wd_depth := wd_depth w + 1\<rparr>))"

text \<open>An argument written after the command's name, in lower or in upper case, where none is passed.\<close>

definition command_args :: "rstr \<Rightarrow> rstr \<Rightarrow> rstr \<Rightarrow> rstr list \<Rightarrow> rstr list" where
  "command_args lower upper trimmed args =
     (case strip_any_prefix [lower, upper] trimmed of
        Some a \<Rightarrow> (if a \<noteq> [] \<and> args = [] then [a] else args)
      | None \<Rightarrow> args)"

definition is_command :: "rstr \<Rightarrow> rstr \<Rightarrow> bool" where
  "is_command name lowered = (lowered = name \<or> starts_with lowered (name @ '' ''))"

definition connect_command :: "'o platform \<Rightarrow> rstr \<Rightarrow> 'o world \<Rightarrow> 'o answer" where
  "connect_command P trimmed w =
     (let parts = splitn_whitespace 3 trimmed;
          address = (case nth_or parts 1 of Some h \<Rightarrow> h | None \<Rightarrow> ''127.0.0.1'') @ '':'' @
            dec_nat (case Option.bind (nth_or parts 2) parse_port of Some p \<Rightarrow> p | None \<Rightarrow> default_port)
      in case pf_connect P address of
           None \<Rightarrow> answer (said (''Connected to '' @ address)) (w\<lparr>wd_remote := Some address\<rparr>)
         | Some e \<Rightarrow> answer (error_response Io (''Connect failed: '' @ e)) w)"

definition register_command :: "rstr \<Rightarrow> 'o world \<Rightarrow> 'o answer" where
  "register_command trimmed w =
     (let parts = splitn_whitespace 4 trimmed;
          name = (case nth_or parts 1 of Some n \<Rightarrow> n | None \<Rightarrow> ''unknown'');
          argc = (case Option.bind (nth_or parts 2) parse_usize of Some k \<Rightarrow> k | None \<Rightarrow> 0);
          body = (case nth_or parts 3 of Some b \<Rightarrow> b | None \<Rightarrow> [])
      in answer (said (quote_msg ''Function '' name ('' registered with '' @ dec_nat argc @ '' args'')))
           (w\<lparr>wd_functions := (wd_functions w)(name \<mapsto> (body, argc))\<rparr>))"

function trim_start_matches :: "rstr \<Rightarrow> rstr \<Rightarrow> rstr" where
  "trim_start_matches p s =
     (if p \<noteq> [] \<and> starts_with s p then trim_start_matches p (drop (length p) s) else s)"
  by pat_completeness auto
termination
  by (relation "measure (\<lambda>(p, s). length s)") (auto simp: starts_with_iff)

declare trim_start_matches.simps [simp del]

definition inspect_response :: "rstr eres \<Rightarrow> rstr" where
  "inspect_response r = (case r of Inr data \<Rightarrow> ok_response data | Inl e \<Rightarrow> error_response Exec (error_message e))"

text \<open>The commands before the remote server is asked, in the code's order: the answer if the text is one.\<close>

definition file_command :: "'o platform \<Rightarrow> rstr \<Rightarrow> rstr \<Rightarrow> rstr list \<Rightarrow> 'o world \<Rightarrow> 'o answer option" where
  "file_command P lowered trimmed args w =
     (let U = unicode_of P w; db = se_db (wd_session w)
      in if lowered = ''ping'' then Some (answer (said ''PONG'') w)
         else if lowered = ''reset'' then Some (on_db (\<lambda>db. (said ''OK'', db_clear db)) w)
         else if lowered = ''version'' then Some (answer (said (''a3sql '' @ pf_version P)) w)
         else if lowered = ''dump_sql'' \<or> lowered = ''export_sql'' then Some (answer (handle_dump_sql (pf_quote P) db) w)
         else if starts_with lowered ''export_to_file''
         then Some (case handle_export_to_file U (pf_os P) (pf_disp P) db trimmed args (wd_disk w) of
                      (r, d) \<Rightarrow> answer r (w\<lparr>wd_disk := d\<rparr>))
         else if starts_with lowered ''export'' then Some (answer (handle_export U (pf_quote P) (pf_disp P) db trimmed) w)
         else if starts_with lowered ''import''
         then Some (on_session (\<lambda>s. map_option (\<lambda>(r, db'). (r, s\<lparr>se_db := db'\<rparr>))
                (handle_import (pf_json P) (env_of P w) (host_json (pf_host P)) trimmed args (se_db s))) w)
         else if is_command ''save'' lowered
         then Some (case handle_save (pf_os P) (pf_disp P) db (command_args ''save '' ''SAVE '' trimmed args) (wd_disk w) of
                      (r, d) \<Rightarrow> answer r (w\<lparr>wd_disk := d\<rparr>))
         else if is_command ''load'' lowered
         then Some (on_session (\<lambda>s. map_option (\<lambda>(r, db'). (r, s\<lparr>se_db := db'\<rparr>))
                (handle_load (env_of P w) (pf_os P) (command_args ''load '' ''LOAD '' trimmed args) (wd_disk w) (se_db s))) w)
         else None)"

definition network_command :: "'o platform \<Rightarrow> rstr \<Rightarrow> rstr \<Rightarrow> rstr list \<Rightarrow> 'o world \<Rightarrow> 'o answer option" where
  "network_command P lowered trimmed args w =
     (if lowered = ''stop_listen'' \<or> lowered = ''stop'' then Some (answer (said ''Listener stopped'') (w\<lparr>wd_listener := None\<rparr>))
      else if starts_with lowered ''set_credentials''
      then Some (answer (said ''Credentials set'') (w\<lparr>wd_credentials :=
             (case nth_or args 0 of Some u \<Rightarrow> u | None \<Rightarrow> [], case nth_or args 1 of Some p \<Rightarrow> p | None \<Rightarrow> [])\<rparr>))
      else if is_command ''listen'' lowered then Some (handle_listen P (command_args ''listen '' ''LISTEN '' trimmed args) w)
      else if starts_with lowered ''live_patch'' then Some (handle_live_patch P trimmed args w)
      else if is_command ''connect'' lowered then Some (connect_command P trimmed w)
      else if lowered = ''disconnect'' then Some (answer (said ''Disconnected'') (w\<lparr>wd_remote := None\<rparr>))
      else if lowered = ''plugins'' then Some (answer (ok_response (pf_plugins P)) w)
      else if starts_with lowered ''register_function '' then Some (register_command trimmed w)
      else if starts_with lowered ''plugin_dir ''
      then Some (answer (ok_response (pf_load_plugins P (trim (trim_start_matches ''plugin_dir '' trimmed)))) w)
      else None)"

definition inspect_command :: "'o platform \<Rightarrow> rstr \<Rightarrow> 'o world \<Rightarrow> 'o answer option" where
  "inspect_command P lowered w =
     (let db = se_db (wd_session w)
      in if starts_with lowered ''describe '' \<and> trim (drop 9 lowered) \<noteq> []
         then Some (answer (inspect_response (describe_table db (trim (drop 9 lowered)))) w)
         else if starts_with lowered ''show create table '' \<and> trim (drop 18 lowered) \<noteq> []
         then Some (answer (inspect_response (show_create_table (pf_quote P) db (trim (drop 18 lowered)))) w)
         else None)"

definition cursor_command :: "'o platform \<Rightarrow> (rstr \<Rightarrow> 'o world \<Rightarrow> 'o answer) \<Rightarrow> rstr \<Rightarrow> rstr \<Rightarrow> rstr list \<Rightarrow> 'o world
    \<Rightarrow> 'o answer option" where
  "cursor_command P again lowered trimmed args w =
     (let joined = join '' '' args
      in if lowered = ''cursor create'' \<and> args \<noteq> [] then Some (handle_cursor_create P (''cursor create '' @ joined) w)
         else if starts_with lowered ''cursor create '' then Some (handle_cursor_create P trimmed w)
         else if lowered = ''cursor fetch'' \<and> args \<noteq> [] then Some (handle_cursor_fetch again (''cursor fetch '' @ joined) w)
         else if starts_with lowered ''cursor fetch '' then Some (handle_cursor_fetch again trimmed w)
         else if lowered = ''cursor drop'' \<and> args \<noteq> [] then Some (handle_cursor_drop P (''cursor drop '' @ joined) w)
         else if is_command ''cursor drop'' lowered then Some (handle_cursor_drop P trimmed w)
         else if lowered = ''prepare'' \<and> args \<noteq> [] then Some (handle_prepare P joined w)
         else if starts_with lowered ''prepare '' then Some (handle_prepare P (drop 8 lowered) w)
         else if starts_with lowered ''execute_prepared ''
         then Some (handle_execute_prepared again (drop 17 lowered) args w)
         else if is_command ''reindex'' lowered
         then Some (if lowered = ''reindex'' then sql_batch P (split_sql ''VACUUM REINDEX'') args w
                    else case after_byte trimmed 8 of
                           None \<Rightarrow> None
                         | Some r \<Rightarrow> sql_batch P (split_sql (''VACUUM REINDEX '' @ r)) args w)
         else None)"

definition output_limit :: nat where
  "output_limit = 30720"

definition too_large :: rstr where
  "too_large = error_response Internal (''Result exceeds output buffer (30KB) '' @ str_of [226, 128, 148] @ '' use '' @ [squote] @
     ''cursor create <name> <query>'' @ [squote] @ '' + '' @ [squote] @ ''cursor fetch <name> [limit]'' @ [squote] @
     '' to page large results'')"

definition limit_response :: "rstr \<Rightarrow> rstr" where
  "limit_response r = (if output_limit \<le> length r then too_large else r)"

definition sql_command :: "'o platform \<Rightarrow> rstr \<Rightarrow> rstr list \<Rightarrow> 'o world \<Rightarrow> 'o answer" where
  "sql_command P trimmed args w =
     (case wd_remote w of
        Some address \<Rightarrow>
          answer (case pf_remote P address trimmed of
                    Some line \<Rightarrow> trim line
                  | None \<Rightarrow> error_response Io ''Remote connection lost'') w
      | None \<Rightarrow> map_option (\<lambda>(r, w'). (limit_response r, w')) (sql_batch P (split_sql trimmed) args w))"

definition dispatch_reentrant :: "'o platform \<Rightarrow> rstr \<Rightarrow> rstr list \<Rightarrow> 'o world \<Rightarrow> 'o answer" where
  "dispatch_reentrant P input args w = sql_batch P (split_sql (trim input)) args w"

fun first_answer :: "'a option list \<Rightarrow> 'a \<Rightarrow> 'a" where
  "first_answer [] d = d"
| "first_answer (Some a # xs) d = a"
| "first_answer (None # xs) d = first_answer xs d"

definition dispatch_command :: "'o platform \<Rightarrow> (rstr \<Rightarrow> 'o world \<Rightarrow> 'o answer) \<Rightarrow> rstr \<Rightarrow> rstr list \<Rightarrow> 'o world \<Rightarrow> 'o answer" where
  "dispatch_command P again input args w =
     (let trimmed = trim input; lowered = to_lowercase (unicode_of P w) trimmed
      in first_answer
           [file_command P lowered trimmed args w, network_command P lowered trimmed args w,
            inspect_command P lowered w, cursor_command P again lowered trimmed args w]
           (sql_command P trimmed args w))"

definition dispatch_inner :: "'o platform \<Rightarrow> rstr \<Rightarrow> rstr list \<Rightarrow> 'o world \<Rightarrow> 'o answer" where
  "dispatch_inner P input args =
     with_depth (\<lambda>w. if 1 < wd_depth w then dispatch_reentrant P input args w
                     else dispatch_command P (\<lambda>sql. with_depth (dispatch_reentrant P sql [])) input args w)"

text \<open>What the handlers call is \<open>dispatch_inner\<close> itself, one level deeper.\<close>

lemma nested_dispatch: "0 < wd_depth w \<Longrightarrow> dispatch_inner P sql [] w = with_depth (dispatch_reentrant P sql []) w"
  by (simp add: dispatch_inner_def with_depth_def)

end
