(* ===== verification/Server.thy ===== *)
theory Server
  imports Commands
begin

text \<open>
  \<open>server.rs\<close>: the TCP server.  A connection reads lines, asks for a LOGIN where one is required, and passes
  every other line to the dispatcher.  Each dispatch holds the lock of the database, so the server as a whole is
  a step relation: the connections and the game take turns, one line or call at a time.
\<close>

section \<open>Comparing credentials\<close>

definition byte_at :: "rstr \<Rightarrow> nat \<Rightarrow> 8 word" where
  "byte_at s i = (if i < length s then of_char (s ! i) else 0)"

text \<open>The loop runs to the longer length, whatever it sees on the way.\<close>

definition ct_eq :: "rstr \<Rightarrow> rstr \<Rightarrow> bool" where
  "ct_eq a b =
     (fold (\<lambda>i acc. Bit_Operations.or acc (Bit_Operations.xor (byte_at a i) (byte_at b i)))
        [0..<max (length a) (length b)] (if length a \<noteq> length b then 1 else 0) = 0)"

section \<open>One connection\<close>

record connection =
  cn_expected :: "rstr \<times> rstr"
  cn_authenticated :: bool
  cn_open :: bool

text \<open>The credentials are read once, when the connection is accepted; \<open>required\<close> is the configuration's
  \<open>listener_auth_required\<close>.\<close>

definition has_auth :: "bool \<Rightarrow> rstr \<times> rstr \<Rightarrow> bool" where
  "has_auth required cred = (fst cred \<noteq> [] \<or> snd cred \<noteq> [] \<or> required)"

definition accept :: "bool \<Rightarrow> rstr \<times> rstr \<Rightarrow> connection" where
  "accept required cred = \<lparr>cn_expected = cred, cn_authenticated = (\<not> has_auth required cred), cn_open = True\<rparr>"

definition auth_error :: "rstr \<Rightarrow> rstr" where
  "auth_error m = ''[-1,'' @ [CHR 34] @ ''ERR_AUTH'' @ [CHR 34] @ '','' @ [CHR 34] @ m @ [CHR 34] @ '']''"

definition no_credentials :: rstr where
  "no_credentials = auth_error (''No credentials configured. In-game: set the A3SQL listener user/password in CBA settings. '' @
     ''Standalone: set listener_require_auth = false in a3sql.toml (loopback only) or call set_credentials <user> <pass> first'')"

definition invalid_credentials :: rstr where
  "invalid_credentials = auth_error ''Invalid credentials''"

definition login_required :: rstr where
  "login_required = auth_error ''LOGIN <user> <pass> required''"

definition authenticated_reply :: rstr where
  "authenticated_reply = ok_response (json_text ''Authenticated'')"

text \<open>The two parts of a text around its first blank.\<close>

definition split_blank :: "rstr \<Rightarrow> (rstr \<times> rstr) option" where
  "split_blank s =
     (case dropWhile (\<lambda>c. c \<noteq> CHR '' '') s of
        [] \<Rightarrow> None
      | _ # r \<Rightarrow> Some (takeWhile (\<lambda>c. c \<noteq> CHR '' '') s, r))"

text \<open>A line of a connection that is not logged in: the reply, and whether the connection goes on.\<close>

definition login_line :: "rstr \<times> rstr \<Rightarrow> rstr \<Rightarrow> rstr \<times> bool" where
  "login_line expected trimmed =
     (case strip_any_prefix [''LOGIN ''] trimmed of
        None \<Rightarrow> (login_required, False)
      | Some rest \<Rightarrow>
          (if fst expected = [] \<and> snd expected = [] then (no_credentials, False)
           else case split_blank rest of
                  None \<Rightarrow> (invalid_credentials, False)
                | Some (user, pass) \<Rightarrow>
                    (if ct_eq user (fst expected) \<and> ct_eq pass (snd expected) then (authenticated_reply, True)
                     else (invalid_credentials, False))))"

text \<open>The panic barrier: \<open>crash\<close> is the state that a panic leaves behind.\<close>

definition command_failed :: rstr where
  "command_failed = error_response Internal ''Command failed''"

definition guarded_dispatch :: "'o platform \<Rightarrow> ('o world \<Rightarrow> rstr \<Rightarrow> rstr list \<Rightarrow> 'o world) \<Rightarrow> rstr \<Rightarrow> rstr list \<Rightarrow> 'o world
    \<Rightarrow> rstr \<times> 'o world" where
  "guarded_dispatch P crash input args w =
     (case dispatch_inner P input args w of
        Some answered \<Rightarrow> answered
      | None \<Rightarrow> (command_failed, crash w input args))"

text \<open>One line; reading a line that is not UTF-8 fails and ends the connection.\<close>

definition serve_line :: "'o platform \<Rightarrow> ('o world \<Rightarrow> rstr \<Rightarrow> rstr list \<Rightarrow> 'o world) \<Rightarrow> connection \<Rightarrow> rstr \<Rightarrow> 'o world
    \<Rightarrow> rstr list \<times> connection \<times> 'o world" where
  "serve_line P crash c line w =
     (let trimmed = trim line
      in if \<not> valid_utf8 (bytes_of line) then ([], c\<lparr>cn_open := False\<rparr>, w)
         else if trimmed = [] then ([], c, w)
         else if trimmed = ''QUIT'' \<or> trimmed = ''EXIT'' then ([], c\<lparr>cn_open := False\<rparr>, w)
         else if \<not> cn_authenticated c
         then (let (r, ok) = login_line (cn_expected c) trimmed
               in ([r], c\<lparr>cn_authenticated := ok, cn_open := ok\<rparr>, w))
         else (let (r, w') = guarded_dispatch P crash trimmed [] w in ([r], c, w')))"

text \<open>A whole connection on its own: the replies to its lines.\<close>

fun serve_client :: "'o platform \<Rightarrow> ('o world \<Rightarrow> rstr \<Rightarrow> rstr list \<Rightarrow> 'o world) \<Rightarrow> connection \<Rightarrow> rstr list \<Rightarrow> 'o world
    \<Rightarrow> rstr list \<times> 'o world" where
  "serve_client P crash c [] w = ([], w)"
| "serve_client P crash c (l # ls) w =
     (if \<not> cn_open c then ([], w)
      else let (rs, c', w1) = serve_line P crash c l w; (rest, w2) = serve_client P crash c' ls w1
           in (rs @ rest, w2))"

section \<open>The server\<close>

record 'o server =
  sv_world :: "'o world"
  sv_connections :: "nat \<Rightarrow> connection option"

datatype event =
    Accepted nat
  | Received nat rstr
  | Hung_up nat
  | Called rstr "rstr list"  \<comment> \<open>a call of the game\<close>

definition set_connection :: "nat \<Rightarrow> connection \<Rightarrow> 'o world \<Rightarrow> 'o server \<Rightarrow> 'o server" where
  "set_connection i c w s = \<lparr>sv_world = w, sv_connections = (sv_connections s)(i \<mapsto> c)\<rparr>"

inductive server_step :: "'o platform \<Rightarrow> ('o world \<Rightarrow> rstr \<Rightarrow> rstr list \<Rightarrow> 'o world) \<Rightarrow> bool \<Rightarrow> 'o server \<Rightarrow> event \<Rightarrow> rstr list
    \<Rightarrow> 'o server \<Rightarrow> bool" for P crash required where
  accept_step: "sv_connections s i = None \<Longrightarrow>
    server_step P crash required s (Accepted i) []
      (set_connection i (accept required (wd_credentials (sv_world s))) (sv_world s) s)"
| line_step: "sv_connections s i = Some c \<Longrightarrow> cn_open c \<Longrightarrow> serve_line P crash c l (sv_world s) = (rs, c', w') \<Longrightarrow>
    server_step P crash required s (Received i l) rs (set_connection i c' w' s)"
| hang_up_step: "sv_connections s i = Some c \<Longrightarrow>
    server_step P crash required s (Hung_up i) [] (set_connection i (c\<lparr>cn_open := False\<rparr>) (sv_world s) s)"
| call_step: "guarded_dispatch P crash input args (sv_world s) = (r, w') \<Longrightarrow>
    server_step P crash required s (Called input args) [r] (s\<lparr>sv_world := w'\<rparr>)"

inductive server_run :: "'o platform \<Rightarrow> ('o world \<Rightarrow> rstr \<Rightarrow> rstr list \<Rightarrow> 'o world) \<Rightarrow> bool \<Rightarrow> 'o server
    \<Rightarrow> (event \<times> rstr list) list \<Rightarrow> 'o server \<Rightarrow> bool" for P crash required where
  run_start: "server_run P crash required s [] s"
| run_step: "server_run P crash required s tr s1 \<Longrightarrow> server_step P crash required s1 e rs s2 \<Longrightarrow>
    server_run P crash required s (tr @ [(e, rs)]) s2"

inductive_cases accepted_cases: "server_step P crash required s (Accepted i) rs s'"
inductive_cases received_cases: "server_step P crash required s (Received i l) rs s'"

end
