(* ===== verification/ServerProps.thy ===== *)
theory ServerProps
  imports Server TextProps
begin

text \<open>
  What \<open>server.rs\<close> guarantees: the comparison of credentials is equality, a connection that must log in reaches
  the dispatcher only after the one right LOGIN line, whatever the other connections and the game do meanwhile,
  and a connection that is logged in gets one reply to every line.
\<close>

section \<open>Comparing credentials\<close>

lemma fold_or_zero:
  "(fold (\<lambda>i acc. Bit_Operations.or acc (f i)) xs a = (0 :: 8 word)) = (a = 0 \<and> (\<forall>i \<in> set xs. f i = 0))"
proof (induction xs arbitrary: a)
  case (Cons x xs)
  have "(Bit_Operations.or a (f x) = 0) = (a = 0 \<and> f x = 0)" by (rule or_eq_0_iff)
  then show ?case by (simp add: Cons.IH)
qed simp

lemma xor_zero_iff: "Bit_Operations.xor a b = (0 :: 8 word) \<longleftrightarrow> a = b"
proof
  assume "Bit_Operations.xor a b = 0"
  then have "Bit_Operations.xor (Bit_Operations.xor a b) b = b" by simp
  then show "a = b" by (simp add: xor.assoc)
qed simp

lemma unat_of_char: "unat (of_char c :: 8 word) = of_char c"
proof -
  have "(of_char c :: 8 word) = word_of_nat (of_char c)" by (rule of_nat_of_char [symmetric])
  moreover have "unat (word_of_nat n :: 8 word) = n" if "n < 256" for n :: nat
    using that by (simp add: unat_of_nat take_bit_nat_eq_self_iff)
  ultimately show ?thesis by simp
qed

lemma byte_at_eq:
  assumes "i < length a" "i < length b" "byte_at a i = byte_at b i"
  shows "a ! i = b ! i"
proof -
  have "unat (of_char (a ! i) :: 8 word) = unat (of_char (b ! i) :: 8 word)"
    using assms by (simp add: byte_at_def)
  then show ?thesis by (simp add: unat_of_char)
qed

lemma ct_eq_iff: "ct_eq a b = (a = b)"
proof -
  have "ct_eq a b \<longleftrightarrow> length a = length b \<and> (\<forall>i < length a. byte_at a i = byte_at b i)"
    unfolding ct_eq_def fold_or_zero xor_zero_iff by auto
  also have "\<dots> \<longleftrightarrow> a = b"
    using nth_equalityI [of a b] byte_at_eq [of _ a b] by metis
  finally show ?thesis .
qed

section \<open>Logging in\<close>

definition login_text :: "rstr \<times> rstr \<Rightarrow> rstr" where
  "login_text cred = ''LOGIN '' @ fst cred @ '' '' @ snd cred"

lemma split_blank_iff: "split_blank s = Some (u, p) \<longleftrightarrow> CHR '' '' \<notin> set u \<and> s = u @ CHR '' '' # p"
proof (induction s arbitrary: u)
  case (Cons x s)
  show ?case
  proof (cases "x = CHR '' ''")
    case True
    then show ?thesis by (cases u) (auto simp: split_blank_def)
  next
    case False
    have d: "dropWhile (\<lambda>c. c \<noteq> CHR '' '') (x # s) = dropWhile (\<lambda>c. c \<noteq> CHR '' '') s"
        "takeWhile (\<lambda>c. c \<noteq> CHR '' '') (x # s) = x # takeWhile (\<lambda>c. c \<noteq> CHR '' '') s"
      using False by simp_all
    have split_case: "(case y of [] \<Rightarrow> None | _ # r \<Rightarrow> Some (x # t, r))
        = map_option (\<lambda>(v, p). (x # v, p)) (case y of [] \<Rightarrow> None | _ # r \<Rightarrow> Some (t, r))" for y t :: rstr
      by (cases y) simp_all
    have "split_blank (x # s) = map_option (\<lambda>(v, p). (x # v, p)) (split_blank s)"
      unfolding split_blank_def d by (rule split_case)
    then show ?thesis using False Cons.IH [of "tl u"] by (cases u) auto
  qed
qed (simp add: split_blank_def)

lemma login_line_iff:
  "snd (login_line cred t) \<longleftrightarrow> cred \<noteq> ([], []) \<and> CHR '' '' \<notin> set (fst cred) \<and> t = login_text cred"
proof (cases "starts_with t ''LOGIN ''")
  case False
  then have "t \<noteq> login_text cred" by (auto simp: login_text_def starts_with_iff)
  then show ?thesis using False by (simp add: login_line_def)
next
  case True
  then obtain r where t: "t = ''LOGIN '' @ r" by (auto simp: starts_with_iff)
  have d: "drop 6 (''LOGIN '' @ r) = r" by simp
  have "snd (login_line cred t) \<longleftrightarrow> cred \<noteq> ([], []) \<and> split_blank r = Some cred"
    using True t by (cases cred; cases "split_blank r") (auto simp: login_line_def ct_eq_iff split: if_splits)
  then show ?thesis by (cases cred) (auto simp: t login_text_def split_blank_iff)
qed

lemma login_line_reply:
  "login_line cred t = (r, ok) \<Longrightarrow> (if ok then r = authenticated_reply else r \<in> {no_credentials, invalid_credentials, login_required})"
  by (auto simp: login_line_def split: option.splits if_splits)

lemma serve_line_keeps_credentials: "serve_line P crash c l w = (rs, c', w') \<Longrightarrow> cn_expected c' = cn_expected c"
  by (auto simp: serve_line_def Let_def split: if_splits prod.splits)

lemma serve_line_logs_in:
  assumes "serve_line P crash c l w = (rs, c', w')" "\<not> cn_authenticated c" "cn_authenticated c'"
  shows "rs = [authenticated_reply] \<and> cn_expected c \<noteq> ([], []) \<and> trim l = login_text (cn_expected c)"
proof -
  obtain r ok where l: "login_line (cn_expected c) (trim l) = (r, ok)" by fastforce
  have "ok" "rs = [r]" using assms l by (auto simp: serve_line_def Let_def split: if_splits)
  then show ?thesis using login_line_iff [of "cn_expected c" "trim l"] login_line_reply [OF l] l by simp
qed

lemma serve_line_refuses:
  assumes "serve_line P crash c l w = (rs, c', w')" "\<not> cn_authenticated c"
  shows "w' = w \<and> set rs \<subseteq> {authenticated_reply, no_credentials, invalid_credentials, login_required}"
proof -
  obtain r ok where l: "login_line (cn_expected c) (trim l) = (r, ok)" by fastforce
  then show ?thesis
    using assms login_line_reply [OF l] by (auto simp: serve_line_def Let_def split: if_splits)
qed

section \<open>The whole server\<close>

lemma step_connection:
  assumes "server_step P crash required s e rs s'" "sv_connections s' i = Some c'"
  shows "(sv_connections s i = None \<and> e = Accepted i \<and> rs = [] \<and> c' = accept required (wd_credentials (sv_world s)))
       \<or> (\<exists>c. sv_connections s i = Some c \<and> (c' = c \<or> c' = c\<lparr>cn_open := False\<rparr>
            \<or> (\<exists>l w'. e = Received i l \<and> serve_line P crash c l (sv_world s) = (rs, c', w'))))"
  using assms by (induction rule: server_step.induct) (auto simp: set_connection_def split: if_splits)

text \<open>A connection that is there was accepted, with the credentials of that moment.\<close>

definition accepted_in :: "'o platform \<Rightarrow> ('o world \<Rightarrow> rstr \<Rightarrow> rstr list \<Rightarrow> 'o world) \<Rightarrow> bool \<Rightarrow> 'o server
    \<Rightarrow> (event \<times> rstr list) list \<Rightarrow> nat \<Rightarrow> connection \<Rightarrow> bool" where
  "accepted_in P crash required s tr i c =
     (\<exists>tr1 s1 tr2. tr = tr1 @ (Accepted i, []) # tr2 \<and> server_run P crash required s tr1 s1
        \<and> cn_expected c = wd_credentials (sv_world s1))"

text \<open>It is logged in only if no login is required or its right LOGIN line came after that.\<close>

definition logged_in :: "bool \<Rightarrow> (event \<times> rstr list) list \<Rightarrow> nat \<Rightarrow> connection \<Rightarrow> bool" where
  "logged_in required tr i c =
     (\<not> has_auth required (cn_expected c)
      \<or> cn_expected c \<noteq> ([], []) \<and> (\<exists>l. (Received i l, [authenticated_reply]) \<in> set tr \<and> trim l = login_text (cn_expected c)))"

lemma run_connection:
  assumes "server_run P crash required s tr s'" "sv_connections s i = None"
  shows "sv_connections s' i = Some c \<Longrightarrow>
    accepted_in P crash required s tr i c \<and> (cn_authenticated c \<longrightarrow> logged_in required tr i c)"
  using assms
proof (induction arbitrary: c rule: server_run.induct)
  case (run_start s)
  then show ?case by simp
next
  case (run_step s tr s1 e rs s2)
  have later: "accepted_in P crash required s (tr @ [(e, rs)]) i c'" if "accepted_in P crash required s tr i c'" for c'
    using that unfolding accepted_in_def by (metis append_assoc append_Cons)
  have kept: "logged_in required (tr @ [(e, rs)]) i c'" if "logged_in required tr i c'" for c'
    using that by (auto simp: logged_in_def)
  consider (new) "sv_connections s1 i = None" "e = Accepted i" "rs = []" "c = accept required (wd_credentials (sv_world s1))"
    | (old) c0 where "sv_connections s1 i = Some c0" "c = c0 \<or> c = c0\<lparr>cn_open := False\<rparr>"
    | (line) c0 l w' where "sv_connections s1 i = Some c0" "e = Received i l"
        "serve_line P crash c0 l (sv_world s1) = (rs, c, w')"
    using step_connection [OF run_step.hyps(2) run_step.prems(1)] that by metis
  then show ?case
  proof cases
    case new
    have "accepted_in P crash required s (tr @ [(e, rs)]) i c"
      unfolding accepted_in_def using new run_step.hyps(1) by (intro exI [of _ tr] exI [of _ s1] exI [of _ "[]"]) (simp add: accept_def)
    then show ?thesis using new by (simp add: logged_in_def accept_def)
  next
    case old
    then have ex: "cn_expected c = cn_expected c0" "cn_authenticated c = cn_authenticated c0" by auto
    have "accepted_in P crash required s (tr @ [(e, rs)]) i c0 \<and> (cn_authenticated c0 \<longrightarrow> logged_in required (tr @ [(e, rs)]) i c0)"
      using run_step.IH [OF old(1)] run_step.prems(2) later kept by blast
    then show ?thesis using ex by (simp add: accepted_in_def logged_in_def)
  next
    case line
    have ex: "cn_expected c = cn_expected c0" using serve_line_keeps_credentials [OF line(3)] .
    have IH: "accepted_in P crash required s tr i c0" "cn_authenticated c0 \<longrightarrow> logged_in required tr i c0"
      using run_step.IH [OF line(1)] run_step.prems(2) by blast+
    have "logged_in required (tr @ [(e, rs)]) i c0" if "cn_authenticated c"
    proof (cases "cn_authenticated c0")
      case True
      then show ?thesis using IH(2) kept by blast
    next
      case False
      then show ?thesis using serve_line_logs_in [OF line(3) False that] line(2) by (auto simp: logged_in_def)
    qed
    then show ?thesis using later [OF IH(1)] ex by (simp add: accepted_in_def logged_in_def)
  qed
qed

text \<open>C34. Where a connection must log in, nothing is dispatched for it before it has: in every run of the server,
  with any other connections and any calls of the game in between, a line of the connection leaves the session
  and the disk as they are and is answered by one of the four login messages, unless an earlier line of the same
  connection was exactly LOGIN with the user and the password that were set when it was accepted.\<close>

theorem nothing_before_login:
  assumes "server_run P crash required s tr s'" "sv_connections s i = None" "sv_connections s' i = Some c"
    and "has_auth required (cn_expected c)"
    and "serve_line P crash c l (sv_world s') = (rs, c', w')"
  shows "accepted_in P crash required s tr i c \<and>
      (w' = sv_world s' \<and> set rs \<subseteq> {authenticated_reply, no_credentials, invalid_credentials, login_required}
       \<or> cn_expected c \<noteq> ([], []) \<and>
         (\<exists>l'. (Received i l', [authenticated_reply]) \<in> set tr \<and> trim l' = login_text (cn_expected c)))"
  using run_connection [OF assms(1,2,3)] serve_line_refuses [OF assms(5)] assms(4)
  by (auto simp: logged_in_def)

text \<open>A connection that has not logged in sends a command: the listener goes on.\<close>

definition guarded_world :: "unit world \<Rightarrow> unit world" where
  "guarded_world w = w\<lparr>wd_credentials := (''admin'', ''secret'')\<rparr>"

definition one_connection :: "unit world \<Rightarrow> unit server" where
  "one_connection w =
     set_connection 0 (accept True (''admin'', ''secret'')) (guarded_world w)
       \<lparr>sv_world = guarded_world w, sv_connections = Map.empty\<rparr>"

lemma first_connection:
  "server_run P crash True \<lparr>sv_world = guarded_world w, sv_connections = Map.empty\<rparr> [(Accepted 0, [])] (one_connection w)"
  using run_step [OF run_start [of P crash True "\<lparr>sv_world = guarded_world w, sv_connections = Map.empty\<rparr>"] accept_step]
  by (simp add: one_connection_def guarded_world_def)

lemma trim_ascii_word: "is_ascii s \<Longrightarrow> \<forall>b \<in> set (bytes_of s). \<not> is_whitespace b \<Longrightarrow> trim s = s"
  using trim_no_space [of s] utf8_chars_ascii [of s] chars_ascii [of s] by simp

lemma ascii_stop: "is_ascii ''stop''"
  by (simp add: is_ascii_def)

lemma trim_stop: "trim ''stop'' = ''stop''"
  by (rule trim_ascii_word [OF ascii_stop]) (simp add: bytes_of_def is_whitespace_def)

lemma stop_refused:
  "serve_line P crash (accept True (''admin'', ''secret'')) ''stop'' w =
     ([login_required], (accept True (''admin'', ''secret''))\<lparr>cn_authenticated := False, cn_open := False\<rparr>, w)"
  by (simp add: serve_line_def Let_def trim_stop accept_def has_auth_def login_line_def starts_with_iff
      valid_utf8_ascii [OF ascii_stop])

theorem nothing_before_login_witness:
  "\<forall>P crash w. accepted_in P crash True \<lparr>sv_world = guarded_world w, sv_connections = Map.empty\<rparr> [(Accepted 0, [])] 0
       (accept True (''admin'', ''secret'')) \<and> sv_world (one_connection w) = guarded_world w"
proof (intro allI)
  fix P crash w
  let ?c = "accept True (''admin'', ''secret'')"
  have c: "sv_connections (one_connection w) 0 = Some ?c" "has_auth True (cn_expected ?c)"
    by (simp_all add: one_connection_def set_connection_def accept_def has_auth_def)
  show "accepted_in P crash True \<lparr>sv_world = guarded_world w, sv_connections = Map.empty\<rparr> [(Accepted 0, [])] 0 ?c \<and>
      sv_world (one_connection w) = guarded_world w"
    using nothing_before_login [OF first_connection _ c stop_refused]
    by (simp add: one_connection_def set_connection_def)
qed

section \<open>Replies\<close>

text \<open>A trimmed text ends in no blank.\<close>

lemma utf8_ends_blank:
  assumes "utf8 (cs @ [c]) = s @ '' ''"
  shows "c = 32"
proof -
  have ne: "utf8_encode_char c \<noteq> []" by (simp add: utf8_encode_char_def)
  have "utf8 (cs @ [c]) = utf8 cs @ str_of (utf8_encode_char c)" by (simp add: utf8_def)
  then have "last (str_of (utf8_encode_char c)) = CHR '' ''"
    using assms ne by (metis last_append last_snoc map_is_Nil_conv str_of_def)
  then have "(char_of (last (utf8_encode_char c)) :: char) = CHR '' ''"
    using ne by (simp add: str_of_def last_map)
  then have "of_char (char_of (last (utf8_encode_char c)) :: char) = (32 :: nat)" by simp
  then have "last (utf8_encode_char c) mod 256 = 32" by simp
  then show ?thesis by (auto simp: utf8_encode_char_def split: if_splits)
qed

lemma trim_no_blank_end: "trim s \<noteq> t @ '' ''"
proof
  assume t: "trim s = t @ '' ''"
  let ?cs = "dropWhile is_whitespace (rev (dropWhile is_whitespace (chars s)))"
  have "trim s = utf8 (rev [])" if "?cs = []"
    unfolding trim_def by (rule arg_cong [where f = "\<lambda>x. utf8 (rev x)", OF that])
  then have "?cs \<noteq> []" using t by auto
  then obtain c cs where cs: "?cs = c # cs" by (cases ?cs) auto
  then have "\<not> is_whitespace c" by (metis dropWhile_eq_Cons_conv)
  moreover have "c = 32" using t cs utf8_ends_blank [of "rev cs" c t] by (simp add: trim_def)
  ultimately show False by (simp add: is_whitespace_def)
qed

text \<open>A user without a password can never log in: whatever line arrives, LOGIN with the empty password
  included, since the line is trimmed and then has no second part.  Every line of such a connection is refused.\<close>

theorem empty_password_locks_out:
  "cn_authenticated (fst (snd (serve_line P crash (accept required (u, [])) l w))) = (\<not> required \<and> u = [])"
proof (cases "has_auth required (u, [])")
  case True
  obtain rs c' w' where r: "serve_line P crash (accept required (u, [])) l w = (rs, c', w')" by (metis surj_pair)
  have "cn_expected (accept required (u, [])) = (u, [])" by (simp add: accept_def)
  then have "\<not> cn_authenticated c'"
    using serve_line_logs_in [OF r] True trim_no_blank_end [of l "''LOGIN '' @ u"]
    by (auto simp: accept_def login_text_def)
  then show ?thesis using r True by (auto simp: has_auth_def)
next
  case False
  then show ?thesis by (auto simp: serve_line_def Let_def accept_def has_auth_def split: prod.splits)
qed

text \<open>A line that the connection has to answer.\<close>

definition asks :: "rstr \<Rightarrow> bool" where
  "asks l = (valid_utf8 (bytes_of l) \<and> trim l \<noteq> [] \<and> trim l \<noteq> ''QUIT'' \<and> trim l \<noteq> ''EXIT'')"

lemma serve_line_dispatches:
  "asks l \<Longrightarrow> cn_authenticated c \<Longrightarrow>
     serve_line P crash c l w = (let (r, w') = guarded_dispatch P crash (trim l) [] w in ([r], c, w'))"
  by (simp add: asks_def serve_line_def Let_def)

text \<open>The lines one after the other, as the dispatcher answers them.\<close>

fun dispatched :: "'o platform \<Rightarrow> ('o world \<Rightarrow> rstr \<Rightarrow> rstr list \<Rightarrow> 'o world) \<Rightarrow> rstr list \<Rightarrow> 'o world
    \<Rightarrow> rstr list \<times> 'o world" where
  "dispatched P crash [] w = ([], w)"
| "dispatched P crash (l # ls) w =
     (let (r, w1) = guarded_dispatch P crash (trim l) [] w; (rs, w2) = dispatched P crash ls w1 in (r # rs, w2))"

lemma dispatched_length: "length (fst (dispatched P crash ls w)) = length ls"
proof (induction ls arbitrary: w)
  case (Cons l ls)
  show ?case using Cons.IH [of "snd (guarded_dispatch P crash (trim l) [] w)"]
    by (simp add: case_prod_unfold Let_def)
qed simp

lemma serve_client_dispatches:
  "\<forall>l \<in> set ls. asks l \<Longrightarrow> cn_authenticated c \<Longrightarrow> cn_open c \<Longrightarrow> serve_client P crash c ls w = dispatched P crash ls w"
  by (induction ls arbitrary: w) (auto simp: serve_line_dispatches Let_def split: prod.splits)


lemma trim_kept:
  assumes "is_ascii s" "s \<noteq> []" "\<not> is_whitespace (hd (bytes_of s))" "\<not> is_whitespace (last (bytes_of s))"
  shows "trim s = s"
proof -
  have d: "dropWhile P xs = xs" if "xs \<noteq> []" "\<not> P (hd xs)" for P and xs :: "nat list" using that by (cases xs) auto
  have "bytes_of s \<noteq> []" using assms(2) by (simp add: bytes_of_def)
  then have "trim s = utf8 (rev (rev (chars s)))"
    unfolding trim_def chars_ascii [OF assms(1)] using assms(3,4) by (simp add: d hd_rev)
  then show ?thesis by (simp add: utf8_chars_ascii [OF assms(1)])
qed


end
