(* ===== verification/CommandProps.thy ===== *)
theory CommandProps
  imports Commands ServerProps
begin

text \<open>
  What the commands do: every command leaves the guard's counter as it found it, a cursor runs its query a page at
  a time, and what goes wrong with the commands that are written as text.
\<close>

section \<open>The guard\<close>

definition depth_kept :: "('o world \<Rightarrow> 'o answer) \<Rightarrow> bool" where
  "depth_kept f = (\<forall>w r w'. f w = Some (r, w') \<longrightarrow> wd_depth w' = wd_depth w)"

lemma depth_keptD: "depth_kept f \<Longrightarrow> f w = Some (r, w') \<Longrightarrow> wd_depth w' = wd_depth w"
  by (simp add: depth_kept_def)

named_theorems depth_intros

lemma keeps_answer [depth_intros]: "answer r w = Some (r', w') \<Longrightarrow> wd_depth w' = wd_depth w"
  by (simp add: answer_def)

lemma keeps_on_session [depth_intros]: "on_session f w = Some (r', w') \<Longrightarrow> wd_depth w' = wd_depth w"
  by (auto simp: on_session_def)

lemma keeps_on_db [depth_intros]: "on_db f w = Some (r', w') \<Longrightarrow> wd_depth w' = wd_depth w"
  unfolding on_db_def by (rule keeps_on_session)

lemma keeps_with_depth: "depth_kept f \<Longrightarrow> depth_kept (with_depth f)"
  by (auto simp: depth_kept_def with_depth_def)

lemma keeps_sql_batch [depth_intros]: "sql_batch P s args w = Some (r', w') \<Longrightarrow> wd_depth w' = wd_depth w"
  unfolding sql_batch_def by (rule keeps_on_session)

lemma keeps_file_command:
  "file_command P lowered trimmed args w = Some a \<Longrightarrow> a = Some (r, w') \<Longrightarrow> wd_depth w' = wd_depth w"
  unfolding file_command_def Let_def
  by (auto simp: answer_def split: if_splits prod.splits dest: keeps_on_session keeps_on_db)

lemma keeps_network_command:
  "network_command P lowered trimmed args w = Some a \<Longrightarrow> a = Some (r, w') \<Longrightarrow> wd_depth w' = wd_depth w"
  unfolding network_command_def
  by (auto simp: answer_def handle_listen_def handle_live_patch_def connect_command_def register_command_def Let_def
      split: if_splits sum.splits option.splits dest: keeps_on_session)

lemma keeps_inspect_command:
  "inspect_command P lowered w = Some a \<Longrightarrow> a = Some (r, w') \<Longrightarrow> wd_depth w' = wd_depth w"
  unfolding inspect_command_def Let_def by (auto simp: answer_def split: if_splits)

lemma keeps_cursor_fetch:
  assumes "\<And>sql. depth_kept (again sql)" "handle_cursor_fetch again trimmed w = Some (r, w')"
  shows "wd_depth w' = wd_depth w"
  using assms(2) depth_keptD [OF assms(1)]
  by (auto simp: handle_cursor_fetch_def Let_def answer_def split: option.splits prod.splits dest!: depth_keptD [OF assms(1)])

lemma keeps_cursor_command:
  assumes again: "\<And>sql. depth_kept (again sql)"
  shows "cursor_command P again lowered trimmed args w = Some a \<Longrightarrow> a = Some (r, w') \<Longrightarrow> wd_depth w' = wd_depth w"
  unfolding cursor_command_def Let_def
  by (auto simp: answer_def handle_cursor_create_def handle_cursor_drop_def handle_prepare_def handle_execute_prepared_def Let_def
      split: if_splits option.splits list.splits
      dest: keeps_on_db keeps_sql_batch keeps_cursor_fetch [OF again] depth_keptD [OF again])

lemma first_answer_cases: "first_answer xs d = d \<or> Some (first_answer xs d) \<in> set xs"
  by (induction xs d rule: first_answer.induct) auto

lemma keeps_dispatch_command:
  assumes again: "\<And>sql. depth_kept (again sql)"
  shows "depth_kept (dispatch_command P again input args)"
proof -
  have "wd_depth w' = wd_depth w" if d: "dispatch_command P again input args w = Some (r, w')" for w r w'
  proof -
    let ?t = "trim input" let ?l = "to_lowercase (unicode_of P w) ?t"
    let ?cs = "[file_command P ?l ?t args w, network_command P ?l ?t args w, inspect_command P ?l w,
        cursor_command P again ?l ?t args w]"
    have d': "first_answer ?cs (sql_command P ?t args w) = Some (r, w')" using d by (simp add: dispatch_command_def Let_def)
    show ?thesis
    proof (rule disjE [OF first_answer_cases [of ?cs "sql_command P ?t args w"]])
      assume "first_answer ?cs (sql_command P ?t args w) = sql_command P ?t args w"
      then have "sql_command P ?t args w = Some (r, w')" using d' by simp
      then show ?thesis by (auto simp: sql_command_def answer_def split: option.splits dest: keeps_sql_batch)
    next
      assume "Some (first_answer ?cs (sql_command P ?t args w)) \<in> set ?cs"
      then have "Some (Some (r, w')) \<in> set ?cs" using d' by simp
      then consider "file_command P ?l ?t args w = Some (Some (r, w'))" | "network_command P ?l ?t args w = Some (Some (r, w'))"
        | "inspect_command P ?l w = Some (Some (r, w'))" | "cursor_command P again ?l ?t args w = Some (Some (r, w'))"
        by (simp only: list.set insert_iff empty_iff) metis
      then show ?thesis
      proof cases
        case 1 then show ?thesis by (rule keeps_file_command [OF _ refl])
      next
        case 2 then show ?thesis by (rule keeps_network_command [OF _ refl])
      next
        case 3 then show ?thesis by (rule keeps_inspect_command [OF _ refl])
      next
        case 4 then show ?thesis by (rule keeps_cursor_command [OF again _ refl])
      qed
    qed
  qed
  then show ?thesis by (simp add: depth_kept_def)
qed

lemma keeps_reentrant: "depth_kept (dispatch_reentrant P sql args)"
  unfolding depth_kept_def dispatch_reentrant_def by (blast dest: keeps_sql_batch)

lemma keeps_dispatch_inner: "depth_kept (dispatch_inner P input args)"
proof -
  have "depth_kept (dispatch_command P (\<lambda>sql. with_depth (dispatch_reentrant P sql [])) input args)"
    by (intro keeps_dispatch_command keeps_with_depth keeps_reentrant)
  then have "depth_kept (\<lambda>w. if 1 < wd_depth w then dispatch_reentrant P input args w
       else dispatch_command P (\<lambda>sql. with_depth (dispatch_reentrant P sql [])) input args w)"
    using keeps_reentrant [of P input args] by (simp add: depth_kept_def)
  then show ?thesis unfolding dispatch_inner_def by (rule keeps_with_depth)
qed

section \<open>Cursors\<close>

text \<open>A call at the top level, with a command that none of the earlier groups takes.\<close>

lemma dispatch_at_top:
  "wd_depth w = 0 \<Longrightarrow> dispatch_inner P input args w =
     map_option (\<lambda>(r, w'). (r, w'\<lparr>wd_depth := wd_depth w' - 1\<rparr>))
       (dispatch_command P (\<lambda>sql. with_depth (dispatch_reentrant P sql [])) input args (w\<lparr>wd_depth := 1\<rparr>))"
  by (simp add: dispatch_inner_def with_depth_def)

lemma lower_ascii: "is_ascii s \<Longrightarrow> to_ascii_lowercase s = s \<Longrightarrow> to_lowercase U s = s"
  by (simp add: to_lowercase_def)

definition plain_command :: "rstr \<Rightarrow> bool" where
  "plain_command s = (is_ascii s \<and> s \<noteq> [] \<and> \<not> is_whitespace (hd (bytes_of s)) \<and> \<not> is_whitespace (last (bytes_of s))
     \<and> to_ascii_lowercase s = s)"

lemma plain_commandD: "plain_command s \<Longrightarrow> trim s = s \<and> to_lowercase U s = s"
  by (simp add: plain_command_def trim_kept lower_ascii)

lemma cursor_words: "plain_command ''cursor fetch''" "plain_command ''cursor drop''" "plain_command ''cursor create''"
  by (simp_all add: plain_command_def is_ascii_def bytes_of_def is_whitespace_def to_ascii_lowercase_def ascii_lower_def)

lemma not_earlier:
  assumes "lowered \<in> {''cursor fetch'', ''cursor drop'', ''cursor create''}"
  shows "file_command P lowered trimmed args w = None" "network_command P lowered trimmed args w = None"
    "inspect_command P lowered w = None"
  using assms by (elim insertE emptyE; simp add: file_command_def network_command_def inspect_command_def is_command_def Let_def)+

lemma dispatch_cursor:
  assumes "wd_depth w = 0" "input \<in> {''cursor fetch'', ''cursor drop'', ''cursor create''}"
    and c: "cursor_command P (\<lambda>sql. with_depth (dispatch_reentrant P sql [])) input input args (w\<lparr>wd_depth := 1\<rparr>) = Some a"
  shows "dispatch_inner P input args w = map_option (\<lambda>(r, w'). (r, w'\<lparr>wd_depth := wd_depth w' - 1\<rparr>)) a"
proof -
  have "plain_command input" using assms(2) cursor_words by auto
  then have l: "trim input = input" "to_lowercase U input = input" for U using plain_commandD by blast+
  show ?thesis
    unfolding dispatch_at_top [OF assms(1)] dispatch_command_def Let_def l not_earlier [OF assms(2)] c by simp
qed

text \<open>The name of a cursor as one word.\<close>

definition word :: "rstr \<Rightarrow> bool" where
  "word n = (is_ascii n \<and> n \<noteq> [] \<and> (\<forall>b \<in> set (bytes_of n). \<not> is_whitespace b))"

lemma word_dec_nat: "word (dec_nat k)"
  using dec_nat_digits [of k] by (auto simp: word_def is_ascii_def bytes_of_def is_digit_def is_whitespace_def)

lemma splitn_ws_word: "\<forall>b \<in> set cs. \<not> is_whitespace b \<Longrightarrow> splitn_ws k acc (cs @ rest) = splitn_ws k (acc @ cs) rest"
  by (induction cs arbitrary: acc) auto

lemma two_words:
  assumes "word n" "word m"
  shows "splitn_whitespace 2 (trim (n @ '' '' @ m)) = [n, m]" "after_byte (''cursor fetch '' @ n @ '' '' @ m) 13 = Some (n @ '' '' @ m)"
proof -
  have a: "is_ascii (n @ '' '' @ m)" using assms by (auto simp: word_def is_ascii_def)
  have h: "hd (bytes_of (n @ '' '' @ m)) \<in> set (bytes_of n)" "last (bytes_of (n @ '' '' @ m)) \<in> set (bytes_of m)"
    using assms by (auto simp: word_def bytes_of_def last_map hd_map)
  have "trim (n @ '' '' @ m) = n @ '' '' @ m"
    by (rule trim_kept [OF a]) (use h assms in \<open>auto simp: word_def\<close>)
  moreover have "chars (n @ '' '' @ m) = bytes_of n @ 32 # bytes_of m" using chars_ascii [OF a] by (simp add: bytes_of_def)
  moreover have "splitn_ws 2 [] (bytes_of n @ 32 # bytes_of m) = [bytes_of n, bytes_of m]"
    using assms splitn_ws_word [of "bytes_of m" "Suc 0" "[]" "[]"]
    by (simp add: word_def splitn_ws_word is_whitespace_def)
  moreover have "utf8 (bytes_of s) = s" if "word s" for s
    using that utf8_chars_ascii [of s] chars_ascii [of s] by (simp add: word_def)
  ultimately show "splitn_whitespace 2 (trim (n @ '' '' @ m)) = [n, m]" using assms by (simp add: splitn_whitespace_def)
  have "\<not> is_continuation (hd n)" using assms(1)
    by (cases n) (auto simp: word_def is_ascii_def is_continuation_def is_cont_def)
  then show "after_byte (''cursor fetch '' @ n @ '' '' @ m) 13 = Some (n @ '' '' @ m)"
    using assms(1) by (cases n) (simp_all add: after_byte_def split_at_byte_def char_boundary_def word_def numeral_eq_Suc)
qed

lemma parse_dec_nat: "k < 2 ^ 64 \<Longrightarrow> parse_usize (dec_nat k) = Some k"
  using dec_nat_hd [of k] dec_nat_digits [of k] by (auto simp: parse_usize_def)

text \<open>The state after a page: the offset has moved.\<close>

definition move_cursor :: "rstr \<Rightarrow> nat \<Rightarrow> cursor_state \<Rightarrow> 'o world \<Rightarrow> 'o world" where
  "move_cursor n k c w =
     w\<lparr>wd_session := (wd_session w)\<lparr>se_db := (se_db (wd_session w))
       \<lparr>db_cursors := (db_cursors (se_db (wd_session w)))(n \<mapsto> c\<lparr>cur_offset := (cur_offset c + k) mod 2 ^ 64\<rparr>)\<rparr>\<rparr>\<rparr>"

lemma on_session_depth: "on_session f (w\<lparr>wd_depth := d\<rparr>) = map_option (\<lambda>(r, w'). (r, w'\<lparr>wd_depth := d\<rparr>)) (on_session f w)"
  by (cases "f (wd_session w)") (auto simp: on_session_def)

lemma sql_batch_depth:
  "sql_batch P s args (w\<lparr>wd_depth := d\<rparr>) = map_option (\<lambda>(r, w'). (r, w'\<lparr>wd_depth := d\<rparr>)) (sql_batch P s args w)"
  by (simp add: sql_batch_def env_of_def on_session_depth)

lemma reentrant_once:
  "with_depth (dispatch_reentrant P sql []) w = sql_batch P (split_sql (trim sql)) [] w"
proof (cases "sql_batch P (split_sql (trim sql)) [] w")
  case None
  then show ?thesis by (simp add: with_depth_def dispatch_reentrant_def sql_batch_depth)
next
  case (Some a)
  obtain r w' where a: "a = (r, w')" by fastforce
  have "wd_depth w' = wd_depth w" using keeps_sql_batch Some a by blast
  then have "w'\<lparr>wd_depth := wd_depth w\<rparr> = w'" by (metis world.surjective world.update_convs(3) old.unit.exhaust)
  then show ?thesis using Some a by (simp add: with_depth_def dispatch_reentrant_def sql_batch_depth)
qed

lemma page_text:
  "cur_offset c < 2 ^ 64 \<Longrightarrow> k < 2 ^ 64 \<Longrightarrow>
     cursor_page n k c = (cur_sql c @ '' LIMIT '' @ dec_nat k @ '' OFFSET '' @ dec_nat (cur_offset c),
       c\<lparr>cur_offset := (cur_offset c + k) mod 2 ^ 64\<rparr>)"
proof -
  assume b: "cur_offset c < 2 ^ 64" "k < 2 ^ 64"
  have "((cur_offset c + k) mod 2 ^ 64 + 2 ^ 64 - k) mod 2 ^ 64 = cur_offset c"
  proof (cases "cur_offset c + k < 2 ^ 64")
    case False
    then have "(cur_offset c + k) mod 2 ^ 64 = cur_offset c + k - 2 ^ 64"
      using b by (simp add: mod_if)
    then show ?thesis using False b by simp
  qed (use b in \<open>simp add: mod_if\<close>)
  then show ?thesis by (simp add: cursor_page_def Let_def)
qed

lemma move_cursor_depth:
  "w\<lparr>wd_depth := d, wd_session := (wd_session w)\<lparr>se_db := (se_db (wd_session w))
      \<lparr>db_cursors := (db_cursors (se_db (wd_session w)))(n \<mapsto> c\<lparr>cur_offset := (cur_offset c + k) mod 2 ^ 64\<rparr>)\<rparr>\<rparr>\<rparr>
     = (move_cursor n k c w)\<lparr>wd_depth := d\<rparr>"
  by (simp add: move_cursor_def)

text \<open>C38. Fetching from a cursor runs its query with the page as LIMIT and the cursor's place as OFFSET, and moves the
  cursor on by the page, so that pages follow each other without gap or overlap; it does so before the query runs
  and whatever becomes of it, and it is one level deep, past the commands and without the limit on the response.\<close>

theorem fetch_runs_the_page:
  assumes "wd_depth w = 0" "word n" "k < 2 ^ 64" "db_cursors (se_db (wd_session w)) n = Some c" "cur_offset c < 2 ^ 64"
  shows "dispatch_inner P ''cursor fetch'' [n, dec_nat k] w =
    sql_batch P (split_sql (trim (cur_sql c @ '' LIMIT '' @ dec_nat k @ '' OFFSET '' @ dec_nat (cur_offset c)))) []
      (move_cursor n k c w)"
proof -
  let ?again = "\<lambda>sql. with_depth (dispatch_reentrant P sql [])"
  let ?sql = "cur_sql c @ '' LIMIT '' @ dec_nat k @ '' OFFSET '' @ dec_nat (cur_offset c)"
  have "handle_cursor_fetch ?again (''cursor fetch '' @ join '' '' [n, dec_nat k]) (w\<lparr>wd_depth := 1\<rparr>)
      = sql_batch P (split_sql (trim ?sql)) [] ((move_cursor n k c w)\<lparr>wd_depth := 1\<rparr>)"
    using assms two_words [OF assms(2) word_dec_nat, of k]
    by (simp add: handle_cursor_fetch_def reentrant_once page_text parse_dec_nat nth_or_def Let_def move_cursor_depth [where d = "Suc 0", simplified])
  then have "cursor_command P ?again ''cursor fetch'' ''cursor fetch'' [n, dec_nat k] (w\<lparr>wd_depth := 1\<rparr>)
      = Some (sql_batch P (split_sql (trim ?sql)) [] ((move_cursor n k c w)\<lparr>wd_depth := 1\<rparr>))"
    by (simp add: cursor_command_def starts_with_iff)
  then have "dispatch_inner P ''cursor fetch'' [n, dec_nat k] w =
      map_option (\<lambda>(r, w'). (r, w'\<lparr>wd_depth := wd_depth w' - 1\<rparr>))
        (sql_batch P (split_sql (trim ?sql)) [] ((move_cursor n k c w)\<lparr>wd_depth := 1\<rparr>))"
    using dispatch_cursor [OF assms(1), of "''cursor fetch''"] by simp
  moreover have "sql_batch P (split_sql (trim ?sql)) [] (move_cursor n k c w) = Some (r, w') \<Longrightarrow> w'\<lparr>wd_depth := 0\<rparr> = w'" for r w'
    using keeps_sql_batch [of P "split_sql (trim ?sql)" "[]" "move_cursor n k c w" r w'] assms(1)
    by (simp add: move_cursor_def)
  ultimately show ?thesis
    by (cases "sql_batch P (split_sql (trim ?sql)) [] (move_cursor n k c w)") (auto simp: sql_batch_depth)
qed

text \<open>A cursor that stands at its second page.\<close>

definition big_cursor :: cursor_state where
  "big_cursor = \<lparr>cur_sql = ''SELECT * FROM t'', cur_offset = 100, cur_page_size = 100\<rparr>"

definition with_big_cursor :: "unit world \<Rightarrow> unit world" where
  "with_big_cursor w =
     w\<lparr>wd_depth := 0, wd_session := (wd_session w)\<lparr>se_db := (se_db (wd_session w))\<lparr>db_cursors := [''big'' \<mapsto> big_cursor]\<rparr>\<rparr>\<rparr>"

theorem fetch_runs_the_page_witness:
  "\<forall>P w. dispatch_inner P ''cursor fetch'' [''big'', dec_nat 100] (with_big_cursor w) =
     sql_batch P (split_sql (trim (''SELECT * FROM t'' @ '' LIMIT '' @ dec_nat 100 @ '' OFFSET '' @ dec_nat 100))) []
       (move_cursor ''big'' 100 big_cursor (with_big_cursor w))"
proof (intro allI)
  fix P w
  have "word ''big''" by (simp add: word_def is_ascii_def bytes_of_def is_whitespace_def)
  then show "dispatch_inner P ''cursor fetch'' [''big'', dec_nat 100] (with_big_cursor w) =
     sql_batch P (split_sql (trim (''SELECT * FROM t'' @ '' LIMIT '' @ dec_nat 100 @ '' OFFSET '' @ dec_nat 100))) []
       (move_cursor ''big'' 100 big_cursor (with_big_cursor w))"
    using fetch_runs_the_page [of "with_big_cursor w" "''big''" 100 big_cursor P]
    by (simp only: with_big_cursor_def) (simp add: big_cursor_def)
qed

text \<open>A name in mixed case is stored in lower case and looked up as written: the cursor is not found.\<close>

lemma mixed_case_cursor_lost:
  assumes "to_lowercase U n \<noteq> n" "db_cursors db n = None"
  shows "db_cursors (create_cursor U n sql page db) n = None"
  using assms by (simp add: create_cursor_def)

section \<open>Commands written as text\<close>

text \<open>Dropping a cursor without naming one slices past the end of the text.\<close>

lemma cursor_drop_panics:
  assumes "wd_depth w = 0"
  shows "dispatch_inner P ''cursor drop'' [] w = None"
proof -
  have "cursor_command P again ''cursor drop'' ''cursor drop'' [] (w\<lparr>wd_depth := 1\<rparr>) = Some None" for again
    by (simp add: cursor_command_def is_command_def handle_cursor_drop_def after_byte_def split_at_byte_def char_boundary_def)
  then show ?thesis using dispatch_cursor [OF assms, of "''cursor drop''"] by simp
qed

text \<open>Credentials written after the command are not read: both are empty afterwards, which asks for no login at all
  where the configuration does not require one.\<close>

lemma text_credentials_ignored:
  assumes "wd_depth w = 0"
  shows "dispatch_inner P ''set_credentials admin secret'' [] w =
    Some (said ''Credentials set'', w\<lparr>wd_credentials := ([], [])\<rparr>)"
proof -
  have "plain_command ''set_credentials admin secret''"
    by (simp add: plain_command_def is_ascii_def bytes_of_def is_whitespace_def to_ascii_lowercase_def ascii_lower_def)
  then have l: "trim ''set_credentials admin secret'' = ''set_credentials admin secret''"
    "to_lowercase U ''set_credentials admin secret'' = ''set_credentials admin secret''" for U
    using plain_commandD by blast+
  have f: "file_command P ''set_credentials admin secret'' t a v = None" for t a v
    by (simp add: file_command_def is_command_def)
  have n: "network_command P ''set_credentials admin secret'' t [] v = Some (answer (said ''Credentials set'') (v\<lparr>wd_credentials := ([], [])\<rparr>))" for t v
    by (simp add: network_command_def nth_or_def)
  have "w\<lparr>wd_credentials := ([], []), wd_depth := 0\<rparr> = w\<lparr>wd_credentials := ([], [])\<rparr>" using assms by simp
  then show ?thesis
    unfolding dispatch_at_top [OF assms] dispatch_command_def Let_def l f n by (simp add: answer_def)
qed

text \<open>A file name is taken from the text only after a command in all lower or all upper case.\<close>

lemma mixed_case_save_ignores_name: "command_args ''save '' ''SAVE '' ''Save base'' [] = []"
  by (simp add: command_args_def)

end
