(* ===== verification/HostApi.thy ===== *)
theory HostApi
  imports Server
begin

text \<open>
  \<open>ffi/dir.rs\<close>: the entry points of the game.  A buffer of the game is its bytes, or nothing where the pointer is
  null; a C string is the bytes before the first zero.
\<close>

section \<open>Writing a response\<close>

abbreviation nul :: char where
  "nul \<equiv> CHR 0x00"

definition c_string :: "char list \<Rightarrow> rstr" where
  "c_string = takeWhile (\<lambda>c. c \<noteq> nul)"

text \<open>The last character boundary at or before a length.\<close>

fun back_off :: "rstr \<Rightarrow> nat \<Rightarrow> nat" where
  "back_off s 0 = 0"
| "back_off s (Suc n) = (if char_boundary s (Suc n) then Suc n else back_off s n)"

definition write_output :: "nat \<Rightarrow> rstr \<Rightarrow> char list option \<Rightarrow> char list option \<times> bool" where
  "write_output room resp out =
     (let n = back_off resp (min (length resp) (room - 1))
      in (if 0 < n then map_option (\<lambda>b. take n resp @ [nul] @ drop (n + 1) b) out else out, n < length resp))"

definition overflow_response :: "nat \<Rightarrow> nat \<Rightarrow> rstr" where
  "overflow_response n room =
     error_response Exec (''Result exceeds output buffer ('' @ dec_nat n @ '' bytes > '' @ dec_nat room @ '' limit) '' @
       str_of [226, 128, 148] @ '' use '' @ [squote] @ ''cursor create <name> <query>'' @ [squote] @ '' + '' @ [squote] @
       ''cursor fetch <name> [limit]'' @ [squote] @ '' to page large results'')"

definition write_response :: "nat \<Rightarrow> rstr \<Rightarrow> char list option \<Rightarrow> char list option" where
  "write_response room resp out =
     (let (out1, truncated) = write_output room resp out
      in if truncated then fst (write_output room (overflow_response (length resp) room) out1) else out1)"

section \<open>The entry points\<close>

definition sql_handler :: "'o platform \<Rightarrow> rstr list \<Rightarrow> 'o world \<Rightarrow> 'o answer" where
  "sql_handler P payload =
     (case payload of [] \<Rightarrow> dispatch_inner P [] [] | input # args \<Rightarrow> dispatch_inner P input args)"

text \<open>A null pointer is an empty input; a text that is not UTF-8 is read with replacement characters.\<close>

definition rv_extension :: "'o platform \<Rightarrow> ('o world \<Rightarrow> rstr \<Rightarrow> rstr list \<Rightarrow> 'o world) \<Rightarrow> nat \<Rightarrow> rstr option
    \<Rightarrow> char list option \<Rightarrow> 'o world \<Rightarrow> char list option \<times> 'o world" where
  "rv_extension P crash room function out w =
     (let input = (case function of None \<Rightarrow> [] | Some s \<Rightarrow> from_utf8_lossy s);
          (r, w') = guarded_dispatch P crash input [] w
      in (write_response room r out, w'))"

text \<open>Arguments that are null or no UTF-8 are left out.\<close>

definition ffi_args :: "rstr option list option \<Rightarrow> rstr list" where
  "ffi_args argv =
     (case argv of
        None \<Rightarrow> []
      | Some ps \<Rightarrow> List.map_filter (\<lambda>p. Option.bind p (\<lambda>s. if valid_utf8 (bytes_of s) then Some s else None)) ps)"

text \<open>The call \<open>sql\<close> goes through the framework, which decodes the payload and calls \<open>sql_handler\<close>: a parameter.\<close>

definition rv_extension_args ::
    "'o platform \<Rightarrow> ('o world \<Rightarrow> rstr \<Rightarrow> rstr list \<Rightarrow> 'o world)
     \<Rightarrow> (rstr option list \<Rightarrow> char list \<Rightarrow> 'o world \<Rightarrow> int \<times> char list \<times> 'o world) \<Rightarrow> nat \<Rightarrow> rstr option
     \<Rightarrow> rstr option list option \<Rightarrow> char list option \<Rightarrow> 'o world \<Rightarrow> int \<times> char list option \<times> 'o world" where
  "rv_extension_args P crash handle_call room function argv out w =
     (case (out, function) of
        (Some b, Some f) \<Rightarrow>
          (if from_utf8_lossy f = ''sql''
           then (case argv of
                   None \<Rightarrow> (-1, out, w)
                 | Some ps \<Rightarrow> (case handle_call ps b w of (code, b', w') \<Rightarrow> (code, Some b', w')))
           else (case dispatch_inner P (from_utf8_lossy f) (ffi_args argv) w of
                   Some (r, w') \<Rightarrow> (0, write_response room r out, w')
                 | None \<Rightarrow>
                     (-1, write_response room command_failed out, crash w (from_utf8_lossy f) (ffi_args argv))))
      | _ \<Rightarrow> (-1, out, w))"

end
