(* ===== verification/HostProps.thy ===== *)
theory HostProps
  imports HostApi ServerProps SqlTextProps
begin

text \<open>
  What the game gets: the whole response or an error that says it did not fit, always whole characters; and what
  happens to arguments that are not UTF-8.
\<close>

section \<open>What the game reads\<close>

lemma back_off_le: "back_off s n \<le> n"
  by (induction n) auto

lemma back_off_full: "back_off s (length s) = length s"
  by (cases s) (simp_all add: char_boundary_def)

lemma back_off_boundary: "s \<noteq> [] \<longrightarrow> \<not> is_continuation (hd s) \<Longrightarrow> char_boundary s (back_off s n)"
  by (induction n) (auto simp: char_boundary_def hd_conv_nth)

text \<open>A text of ASCII start is never backed off to nothing.\<close>

lemma back_off_positive: "0 < n \<Longrightarrow> char_boundary s 1 \<Longrightarrow> 0 < back_off s n"
  by (induction n) auto

text \<open>Cutting a text at a boundary leaves whole characters.\<close>

lemma encode_tail: "b \<in> set (tl (utf8_encode_char c)) \<Longrightarrow> is_cont b"
  by (auto simp: utf8_encode_char_def is_cont_def split: if_splits)

lemma encode_continues:
  assumes "i < length (utf8_encode_char c)" "0 < i"
  shows "is_cont (utf8_encode_char c ! i)"
proof -
  have "utf8_encode_char c ! i = tl (utf8_encode_char c) ! (i - 1)" using assms by (cases "utf8_encode_char c") auto
  moreover have "i - 1 < length (tl (utf8_encode_char c))" using assms by simp
  ultimately show ?thesis using encode_tail nth_mem by metis
qed

lemma take_at_boundary:
  "char_boundary (utf8 cs) n \<Longrightarrow> \<exists>k. take n (utf8 cs) = utf8 (take k cs)"
proof (induction cs arbitrary: n)
  case (Cons c cs)
  let ?e = "str_of (utf8_encode_char c)"
  have u: "utf8 (c # cs) = ?e @ utf8 cs" by (simp add: utf8_def)
  consider "n = 0" | "0 < n" "n < length ?e" | "length ?e \<le> n" by linarith
  then show ?case
  proof cases
    case 1
    then show ?thesis by (intro exI [of _ 0]) simp
  next
    case 2
    have "is_continuation (?e ! n)"
      using encode_continues [of n c] 2 by (simp add: is_continuation_def is_cont_def str_of_def)
    then have False using Cons.prems 2 by (auto simp: u char_boundary_def nth_append)
    then show ?thesis ..
  next
    case 3
    then have "char_boundary (utf8 cs) (n - length ?e)"
      using Cons.prems by (auto simp: u char_boundary_def nth_append)
    then obtain k where "take (n - length ?e) (utf8 cs) = utf8 (take k cs)" using Cons.IH by blast
    then show ?thesis using 3 by (intro exI [of _ "Suc k"]) (simp add: u utf8_def)
  qed
qed (simp add: exI [of _ 0])

lemma cut_valid:
  assumes "rust_str s" "char_boundary s n"
  shows "valid_utf8 (bytes_of (take n s))"
proof -
  have s: "s = utf8 (chars s)" "\<forall>c \<in> set (chars s). is_scalar c" using rust_strD [OF assms(1)] by simp_all
  obtain k where "take n s = utf8 (take k (chars s))" using take_at_boundary assms(2) s(1) by metis
  then show ?thesis using s(2) valid_utf8_utf8 [of "take k (chars s)"] by (metis in_set_takeD)
qed

lemma c_string_written: "nul \<notin> set s \<Longrightarrow> c_string (s @ nul # r) = s"
  by (induction s) (auto simp: c_string_def)

lemma back_off_found: "0 < back_off s n \<Longrightarrow> char_boundary s (back_off s n)"
  by (induction n) (auto split: if_splits)

text \<open>What a call writes: a text of whole characters that fits, and a zero after it.\<close>

lemma write_output_some:
  assumes "2 \<le> room" and pos: "0 < back_off resp (min (length resp) (room - 1))"
  obtains n where "write_output room resp (Some b) = (Some (take n resp @ nul # drop (n + 1) b), n < length resp)"
      "0 < n" "n < room" "n \<le> length resp" "char_boundary resp n"
proof -
  let ?n = "back_off resp (min (length resp) (room - 1))"
  have "?n \<le> min (length resp) (room - 1)" by (rule back_off_le)
  then have n: "?n \<le> length resp" "?n < room" using assms(1) by linarith+
  have w: "write_output room resp (Some b) = (Some (take ?n resp @ nul # drop (?n + 1) b), ?n < length resp)"
    using pos by (simp add: write_output_def Let_def)
  show thesis using that [OF w pos n(2,1) back_off_found [OF pos]] .
qed

lemma write_output_whole:
  "resp \<noteq> [] \<Longrightarrow> length resp < room \<Longrightarrow>
     write_output room resp (Some b) = (Some (resp @ nul # drop (length resp + 1) b), False)"
  by (simp add: write_output_def back_off_full min_def)

lemma write_output_short: "room \<le> length resp \<Longrightarrow> 0 < room \<Longrightarrow> snd (write_output room resp out)"
  using back_off_le [of resp "min (length resp) (room - 1)"] by (simp add: write_output_def Let_def)

lemma write_output_length:
  assumes "length b = room" "2 \<le> room" "write_output room resp (Some b) = (out, t)"
  shows "\<exists>b'. out = Some b' \<and> length b' = room"
proof (cases "0 < back_off resp (min (length resp) (room - 1))")
  case True
  obtain n where "write_output room resp (Some b) = (Some (take n resp @ nul # drop (n + 1) b), n < length resp)"
      "n < room" "n \<le> length resp"
    using write_output_some [OF assms(2) True, of b] by blast
  then show ?thesis using assms by simp
next
  case False
  then show ?thesis using assms by (auto simp: write_output_def)
qed

text \<open>The error that replaces a response is a text of whole characters without a zero and starts in ASCII.\<close>

lemma rust_str_append: "rust_str a \<Longrightarrow> rust_str b \<Longrightarrow> rust_str (a @ b)"
  unfolding rust_str_def by (metis utf8_append set_append Un_iff)

lemma dec_nat_ascii: "is_ascii (dec_nat n)"
  using dec_nat_digits [of n] by (auto simp: is_ascii_def is_digit_def)

lemma dash_rust_str: "rust_str (str_of [226, 128, 148])"
  unfolding rust_str_def by (rule exI [of _ "[8212]"]) (simp add: is_scalar_def utf8_def utf8_encode_char_def)

lemma overflow_rust_str: "rust_str (overflow_response n room)"
  unfolding overflow_response_def error_response_def
  by (intro rust_str_append dash_rust_str ascii_rust_str [OF dec_nat_ascii])
    (rule ascii_rust_str, simp add: is_ascii_def squote_def)+

lemma overflow_start: "overflow_response n room \<noteq> []" "char_boundary (overflow_response n room) (Suc 0)"
  by (simp_all add: overflow_response_def error_response_def char_boundary_def is_continuation_def is_cont_def)

text \<open>The second write, over what the first one left.\<close>

lemma overflow_written:
  assumes "length b = room" "2 \<le> room"
  shows "\<exists>b' n. fst (write_output room (overflow_response k room) (Some b)) = Some b' \<and> length b' = room
    \<and> c_string b' = take n (overflow_response k room) \<and> 0 < n \<and> n < room \<and> valid_utf8 (bytes_of (c_string b'))"
proof -
  let ?o = "overflow_response k room"
  have d: "nul \<notin> set (dec_nat j)" for j using dec_nat_digits [of j] by (auto simp: is_digit_def)
  moreover have "of_char nul \<noteq> (of_char (char_of n :: char) :: nat)" if "0 < n" "n < 256" for n :: nat using that by simp
  then have "nul \<noteq> char_of n" if "0 < n" "n < 256" for n :: nat using that by metis
  ultimately have "nul \<notin> set ?o" by (simp add: overflow_response_def error_response_def squote_def str_of_def)
  then have no: "nul \<notin> set (take n ?o)" for n by (meson in_set_takeD)
  have "0 < back_off ?o (min (length ?o) (room - 1))"
    using assms overflow_start by (intro back_off_positive) auto
  then obtain n where n:
      "write_output room ?o (Some b) = (Some (take n ?o @ nul # drop (n + 1) b), n < length ?o)"
      "0 < n" "n < room" "n \<le> length ?o" "char_boundary ?o n"
    using write_output_some [OF assms(2)] by metis
  have c: "c_string (take n ?o @ nul # drop (n + 1) b) = take n ?o" by (rule c_string_written [OF no])
  then show ?thesis
    using n cut_valid [OF overflow_rust_str n(5)] assms(1)
    by (intro exI [of _ "take n ?o @ nul # drop (n + 1) b"] exI [of _ n]) (simp add: c)
qed

text \<open>C37. The game never reads a part of a result as if it were the whole: a response that fits, with the zero after
  it, is read back byte for byte; where it does not fit the game reads the start, at whole characters, of the error
  that says so, and never a byte of the response.  Nothing is written outside the buffer.\<close>

theorem game_reads_whole_or_error:
  assumes "resp \<noteq> []" "nul \<notin> set resp" "length b = room" "2 \<le> room"
  shows "\<exists>b'. write_response room resp (Some b) = Some b' \<and> length b' = room \<and>
    (if length resp < room then c_string b' = resp
     else \<exists>n. c_string b' = take n (overflow_response (length resp) room) \<and> 0 < n \<and> n < room
            \<and> valid_utf8 (bytes_of (c_string b')))"
proof (cases "length resp < room")
  case True
  then show ?thesis using assms(1,3) c_string_written [OF assms(2)] by (simp add: write_response_def write_output_whole)
next
  case False
  obtain out t where w: "write_output room resp (Some b) = (out, t)" by fastforce
  then have t using write_output_short [of room resp "Some b"] False assms(4) by simp
  obtain b1 where b1: "out = Some b1" "length b1 = room" using write_output_length [OF assms(3,4) w] by blast
  show ?thesis using overflow_written [OF b1(2) assms(4), of "length resp"] \<open>t\<close> False
    by (auto simp: write_response_def w b1(1))
qed

theorem game_reads_whole_or_error_witness:
  "\<exists>b'. write_response 4 ''abcd'' (Some ''....'') = Some b' \<and> length b' = 4 \<and>
     (\<exists>n. c_string b' = take n (overflow_response (length ''abcd'') 4) \<and> 0 < n \<and> n < 4 \<and> valid_utf8 (bytes_of (c_string b')))"
  using game_reads_whole_or_error [of "''abcd''" "''....''" 4] by simp

text \<open>An argument that is not UTF-8 is left out, and the arguments behind it move up: the second placeholder gets
  the third argument.\<close>

lemma bad_argument_shifts:
  "valid_utf8 (bytes_of a) \<Longrightarrow> \<not> valid_utf8 (bytes_of b) \<Longrightarrow> valid_utf8 (bytes_of c) \<Longrightarrow>
     ffi_args (Some [Some a, Some b, Some c]) = [a, c]"
  by (simp add: ffi_args_def List.map_filter_def)

end
