(* ===== verification/Preprocess.thy ===== *)
theory Preprocess
  imports SqlText
begin

text \<open>
  \<open>parser/preprocessor.rs\<close> and \<open>parser/dir.rs\<close>: the rewriting of a text before the SQL parser of the library
  reads it.  The passes work on bytes, one after the other, on the whole text; the power function of the math
  library is a parameter.
\<close>

section \<open>Comments\<close>

text \<open>What is left after a block comment has been opened.\<close>

fun after_block :: "rstr \<Rightarrow> rstr" where
  "after_block (a # b # s) = (if a = CHR ''*'' \<and> b = CHR ''/'' then s else after_block (b # s))"
| "after_block _ = []"

lemma length_after_block [termination_simp]: "length (after_block s) \<le> length s"
  by (induction s rule: after_block.induct) auto

function strip_comments :: "bool \<Rightarrow> rstr \<Rightarrow> rstr" where
  "strip_comments in_string [] = []"
| "strip_comments in_string (c # s) =
     (if c = squote
      then (if in_string \<and> starts_with s [squote] then c # squote # strip_comments in_string (tl s)
            else c # strip_comments (\<not> in_string) s)
      else if \<not> in_string \<and> starts_with (c # s) ''--''
      then strip_comments in_string (dropWhile (\<lambda>b. b \<noteq> CHR 0x0A) (c # s))
      else if \<not> in_string \<and> starts_with (c # s) ''/*'' then strip_comments in_string (after_block (tl s))
      else c # strip_comments in_string s)"
  by pat_completeness auto
termination
proof (relation "measure (\<lambda>(in_string, s). length s)", goal_cases)
  case (4 in_string c s)
  then have "dropWhile (\<lambda>b. b \<noteq> CHR 0x0A) (c # s) = dropWhile (\<lambda>b. b \<noteq> CHR 0x0A) s" by (auto simp: starts_with_iff)
  then show ?case by (simp add: length_dropWhile_le le_imp_less_Suc)
next
  case (5 in_string c s)
  have "length (after_block (tl s)) \<le> length (tl s)" by (rule length_after_block)
  then show ?case by (simp add: le_imp_less_Suc le_diff_conv)
qed (auto simp: le_imp_less_Suc le_diff_conv)

text \<open>A result that is no text is replaced by the input.\<close>

definition text_or :: "rstr \<Rightarrow> rstr \<Rightarrow> rstr" where
  "text_or out sql = (if valid_utf8 (bytes_of out) then out else sql)"

definition strip_sql_comments :: "rstr \<Rightarrow> rstr" where
  "strip_sql_comments sql = text_or (strip_comments False sql) sql"

section \<open>Scientific notation\<close>

definition ascii_word_byte :: "char \<Rightarrow> bool" where
  "ascii_word_byte c = (is_ascii_alphabetic (of_char c) \<or> is_ascii_digit (of_char c) \<or> c = CHR ''_'')"

text \<open>The bytes before a number, the last one first: no word, and no point before digits.\<close>

definition number_starts :: "rstr \<Rightarrow> bool" where
  "number_starts before = (case before of [] \<Rightarrow> True | p # _ \<Rightarrow> \<not> ascii_word_byte p)"

definition after_point :: "rstr \<Rightarrow> bool" where
  "after_point before = (case dropWhile is_digit before of [] \<Rightarrow> False | p # _ \<Rightarrow> p = CHR ''.'')"

definition parse_i32_digits :: "rstr \<Rightarrow> int" where
  "parse_i32_digits ds = (if ds = [] \<or> 2 ^ 31 \<le> digits_val ds then 0 else int (digits_val ds))"

text \<open>The number written out, where it is finite and its text is short.\<close>

definition expanded :: "(int \<Rightarrow> f64) \<Rightarrow> rstr \<Rightarrow> bool \<Rightarrow> rstr \<Rightarrow> rstr option" where
  "expanded pw mant neg ds =
     (let k = (if neg then - parse_i32_digits ds else parse_i32_digits ds);
          v = f64_mul (case parse_f64 mant of Some x \<Rightarrow> x | None \<Rightarrow> f64_zero) (pw k)
      in if f64_is_finite v \<and> f64_lt (f64_abs v) (f64_of_int (10 ^ 308))
         then (let t = (if f64_is_integral v \<and> f64_ge v (i64_as_f64 (word_of_int i64_min)) \<and>
                            f64_ge (i64_as_f64 (word_of_int i64_max)) v
                        then i64_to_string (f64_as_i64 v) else f64_to_string v)
               in if length t < 100 then Some t else None)
         else None)"

definition sci_text :: "(int \<Rightarrow> f64) \<Rightarrow> rstr \<Rightarrow> bool \<Rightarrow> rstr \<Rightarrow> rstr" where
  "sci_text pw mant neg ds =
     (case expanded pw mant neg ds of
        Some t \<Rightarrow> t
      | None \<Rightarrow> mant @ ''.0e'' @ (if neg then ''-'' else []) @ ds)"

definition exponent_follows :: "rstr \<Rightarrow> bool" where
  "exponent_follows r = (case r of c # _ \<Rightarrow> c = CHR ''e'' \<or> c = CHR ''E'' | [] \<Rightarrow> False)"

definition exponent_sign :: "rstr \<Rightarrow> bool \<times> rstr" where
  "exponent_sign r =
     (if starts_with r ''-'' then (True, tl r) else if starts_with r ''+'' then (False, tl r) else (False, r))"

lemma length_exponent_sign: "length (snd (exponent_sign r)) \<le> length r"
  by (simp add: exponent_sign_def)

text \<open>The bytes before are kept in reverse.\<close>

function fix_scan :: "(int \<Rightarrow> f64) \<Rightarrow> rstr \<Rightarrow> rstr \<Rightarrow> rstr" where
  "fix_scan pw before [] = []"
| "fix_scan pw before (c # s) =
     (if \<not> is_digit c then c # fix_scan pw (c # before) s
      else
        let mant = takeWhile is_digit (c # s); r = dropWhile is_digit s
        in if exponent_follows r \<and> number_starts before \<and> \<not> after_point before
           then (let (neg, r2) = exponent_sign (tl r); ds = takeWhile is_digit r2; r3 = dropWhile is_digit r2
                 in sci_text pw mant neg ds @
                    fix_scan pw (rev (take (length (c # s) - length r3) (c # s)) @ before) r3)
           else mant @ fix_scan pw (rev mant @ before) r)"
  by pat_completeness auto
termination
proof (relation "measure (\<lambda>(pw, before, s). length s)", goal_cases)
  case (3 pw before c s mant r x neg r2 ds r3)
  have "exponent_sign (tl r) = (neg, r2)" using 3 by simp
  then have "length r2 \<le> length (tl r)" using length_exponent_sign [of "tl r"] by simp
  moreover have "length r3 \<le> length r2" "length r \<le> length s" using 3 by (auto simp: length_dropWhile_le)
  ultimately have "length r3 \<le> length s" by simp
  then show ?case by simp
next
  case (4 pw before c s mant r)
  then show ?case by (simp add: length_dropWhile_le le_imp_less_Suc)
qed auto

definition fix_scientific_notation :: "(int \<Rightarrow> f64) \<Rightarrow> rstr \<Rightarrow> rstr" where
  "fix_scientific_notation pw s = text_or (fix_scan pw [] s) s"

section \<open>Type names\<close>

definition type_rules :: "(rstr \<times> rstr) list" where
  "type_rules =
     [(''STRINGS[]'', ''STRINGS''), (''FLOATS[]'', ''FLOATS''), ('' DATE)'', '' STRING)''), ('' DATE,'', '' STRING,''),
      ('' TIMESTAMP)'', '' STRING)''), ('' TIMESTAMP,'', '' STRING,''), ('' TIMESTAMP '', '' STRING ''),
      ('' DATETIME)'', '' STRING)''), ('' DATETIME,'', '' STRING,''), ('' DATETIME '', '' STRING '')]"

definition map_types :: "rstr \<Rightarrow> rstr" where
  "map_types s = fold (\<lambda>(p, q) t. replace_all t p q) type_rules s"

section \<open>Operands\<close>

text \<open>Backwards over whole characters: words, points and balanced parentheses; what is left of the reversed text.\<close>

fun left_scan :: "unicode \<Rightarrow> nat \<Rightarrow> uchar list \<Rightarrow> uchar list" where
  "left_scan U d [] = []"
| "left_scan U d (c # cs) =
     (if c = 41 then left_scan U (d + 1) cs
      else if c = 40 then (if 0 < d then left_scan U (d - 1) cs else c # cs)
      else if 0 < d \<or> is_alphanumeric U c \<or> c = 95 \<or> c = 46 then left_scan U d cs
      else c # cs)"

definition find_left_operand_start :: "unicode \<Rightarrow> rstr \<Rightarrow> nat" where
  "find_left_operand_start U s = length (utf8 (rev (left_scan U 0 (rev (chars s)))))"

text \<open>The length of a quoted operand behind its opening quote; a backslash takes the next byte with it.\<close>

fun quoted_length :: "rstr \<Rightarrow> nat" where
  "quoted_length [] = 0"
| "quoted_length (c # s) =
     (if c = CHR 0x5C then (case s of [] \<Rightarrow> 1 | _ # r \<Rightarrow> 2 + quoted_length r)
      else if c = squote then 1
      else 1 + quoted_length s)"

definition right_operand_length :: "unicode \<Rightarrow> rstr \<Rightarrow> nat option" where
  "right_operand_length U s =
     (if starts_with s [squote] then Some (1 + quoted_length (tl s))
      else let n = length (utf8 (takeWhile (\<lambda>c. is_alphanumeric U c \<or> c = 95 \<or> c = 46) (chars s)))
           in if n = 0 then None else Some n)"

text \<open>The end of the right operand of an operator of the given length.\<close>

definition right_end :: "unicode \<Rightarrow> nat \<Rightarrow> nat \<Rightarrow> rstr \<Rightarrow> nat option" where
  "right_end U w pos s =
     (let after = drop (pos + w) s; t = trim_start after; i = pos + w + (length after - length t)
      in map_option (\<lambda>n. i + n) (right_operand_length U t))"

definition text_slice :: "nat \<Rightarrow> nat \<Rightarrow> rstr \<Rightarrow> rstr" where
  "text_slice a b s = take (b - a) (drop a s)"

definition right_operand :: "nat \<Rightarrow> nat \<Rightarrow> nat \<Rightarrow> rstr \<Rightarrow> rstr" where
  "right_operand w pos e s = text_slice (pos + w + (length (drop (pos + w) s) - length (trim_start (drop (pos + w) s)))) e s"

text \<open>The text with a span replaced, and the place behind the replacement.\<close>

definition replace_span :: "nat \<Rightarrow> nat \<Rightarrow> rstr \<Rightarrow> rstr \<Rightarrow> rstr \<times> nat" where
  "replace_span a b rep s = (take a s @ rep @ drop b s, a + length rep)"

section \<open>Fuzzy match\<close>

fun find_pct :: "bool \<Rightarrow> nat \<Rightarrow> rstr \<Rightarrow> nat option" where
  "find_pct in_string i [] = None"
| "find_pct in_string i (c # s) =
     (let q = (if c = squote then \<not> in_string else in_string)
      in if \<not> q \<and> starts_with (c # s) ''%%'' then Some i else find_pct q (i + 1) s)"

definition find_unescaped_pct :: "rstr \<Rightarrow> nat \<Rightarrow> nat option" where
  "find_unescaped_pct s start = find_pct False start (drop start s)"

definition pct_step :: "unicode \<Rightarrow> rstr \<Rightarrow> nat \<Rightarrow> rstr \<times> nat" where
  "pct_step U s pos =
     (let e = length (trim_end (take pos s)); a = find_left_operand_start U (take e s)
      in if trim (text_slice a e s) = [] then (s, pos + 2)
         else case right_end U 2 pos s of
                None \<Rightarrow> (s, pos + 2)
              | Some b \<Rightarrow>
                  replace_span a b (''fuzzy_match('' @ text_slice a e s @ '','' @ right_operand 2 pos b s @ '')'') s)"

section \<open>MATCH\<close>

fun scan_match :: "rstr \<Rightarrow> bool \<Rightarrow> nat \<Rightarrow> rstr \<Rightarrow> nat option" where
  "scan_match before in_string i [] = None"
| "scan_match before in_string i (c # s) =
     (let q = (if c = squote then \<not> in_string else in_string)
      in if \<not> q \<and> starts_with (c # s) ''MATCH'' \<and> number_starts before \<and> number_starts (drop 4 s) then Some i
         else scan_match [c] q (i + 1) s)"

definition find_match_keyword :: "rstr \<Rightarrow> nat \<Rightarrow> nat option" where
  "find_match_keyword s start = scan_match (rev (take start s)) False start (drop start s)"

text \<open>The opening quote of a literal that ends at a position.\<close>

definition quote_before :: "rstr \<Rightarrow> nat \<Rightarrow> nat option" where
  "quote_before s e =
     find (\<lambda>k. s ! k = squote \<and> (k = 0 \<or> s ! (k - 1) \<noteq> CHR 0x5C)) (rev [0..<e - 1])"

definition literal_start :: "rstr \<Rightarrow> nat \<Rightarrow> nat \<Rightarrow> nat" where
  "literal_start s a e =
     (if 0 < e \<and> s ! (e - 1) = squote then (case quote_before s e of Some k \<Rightarrow> k | None \<Rightarrow> a) else a)"

definition left_of :: "unicode \<Rightarrow> rstr \<Rightarrow> nat \<Rightarrow> nat \<times> nat" where
  "left_of U s pos =
     (let e = length (trim_end (take pos s)); a = find_left_operand_start U (take e s)
      in (if trim (text_slice a e s) = [] then literal_start s a e else a, e))"

text \<open>Before NOT: the operand proper.\<close>

definition left_of_not :: "unicode \<Rightarrow> rstr \<Rightarrow> nat \<times> nat \<Rightarrow> nat \<times> nat" where
  "left_of_not U s span =
     (let e = length (trim_end (take (fst span) s)); a0 = find_left_operand_start U (take e s);
          a = (if a0 = e then literal_start s a0 e else a0)
      in if a < e \<and> trim (text_slice a e s) \<noteq> [] then (a, e) else span)"

definition match_step :: "unicode \<Rightarrow> rstr \<Rightarrow> nat \<Rightarrow> rstr \<times> nat" where
  "match_step U s pos =
     (let (a0, e0) = left_of U s pos; negate = (to_ascii_lowercase (trim (text_slice a0 e0 s)) = ''not'')
      in if trim (text_slice a0 e0 s) = [] then (s, pos + 5)
         else let (a, e) = (if negate then left_of_not U s (a0, e0) else (a0, e0))
              in case right_end U 5 pos s of
                   None \<Rightarrow> (s, pos + 5)
                 | Some b \<Rightarrow>
                     replace_span a b ((if negate then ''NOT '' else []) @ ''match_search('' @ text_slice a e s @ '','' @
                       right_operand 5 pos b s @ '')'') s)"

section \<open>The passes\<close>

text \<open>Each round ends further to the right, seen from the end of the text.\<close>

lemma replace_span_shorter:
  assumes "replace_span a b rep s = (s', i)" "pos < b" "pos < length s"
  shows "length s' - i < length s - pos"
  using assms by (auto simp: replace_span_def)

lemma right_end_later: "0 < w \<Longrightarrow> right_end U w pos s = Some b \<Longrightarrow> pos < b"
  by (auto simp: right_end_def Let_def)

lemma find_pct_bound: "find_pct q i s = Some k \<Longrightarrow> i \<le> k \<and> k < i + length s"
  by (induction q i s rule: find_pct.induct) (auto simp: Let_def split: if_splits)

lemma scan_match_bound: "scan_match p q i s = Some k \<Longrightarrow> i \<le> k \<and> k < i + length s"
  by (induction p q i s rule: scan_match.induct) (auto simp: Let_def split: if_splits)

lemma pct_step_shorter: "pos < length s \<Longrightarrow> pct_step U s pos = (s', i) \<Longrightarrow> length s' - i < length s - pos"
  by (auto simp: pct_step_def Let_def split: if_splits option.splits
      dest: right_end_later [of 2, simplified] elim: replace_span_shorter)

lemma match_step_shorter: "pos < length s \<Longrightarrow> match_step U s pos = (s', i) \<Longrightarrow> length s' - i < length s - pos"
  by (auto simp: match_step_def Let_def split: if_splits option.splits prod.splits
      dest: right_end_later [of 5, simplified] elim: replace_span_shorter)

lemma find_unescaped_pct_bound: "find_unescaped_pct s start = Some pos \<Longrightarrow> start \<le> pos \<and> pos < length s"
  using find_pct_bound [of False start "drop start s" pos] by (cases "start \<le> length s") (auto simp: find_unescaped_pct_def)

lemma find_match_keyword_bound: "find_match_keyword s start = Some pos \<Longrightarrow> start \<le> pos \<and> pos < length s"
  using scan_match_bound [of "rev (take start s)" False start "drop start s" pos]
  by (cases "start \<le> length s") (auto simp: find_match_keyword_def)

function rewrite_pct :: "unicode \<Rightarrow> rstr \<Rightarrow> nat \<Rightarrow> rstr" where
  "rewrite_pct U s start =
     (case find_unescaped_pct s start of
        None \<Rightarrow> s
      | Some pos \<Rightarrow> (case pct_step U s pos of (s', i) \<Rightarrow> rewrite_pct U s' i))"
  by pat_completeness auto
termination
proof (relation "measure (\<lambda>(U, s, start). length s - start)", goal_cases)
  case (2 U s start pos s' i)
  then have "start \<le> pos \<and> pos < length s" using find_unescaped_pct_bound by blast
  moreover from this have "length s' - i < length s - pos" using 2 pct_step_shorter [of pos s U s' i] by simp
  ultimately show ?case using diff_le_mono2 [of start pos "length s"] by simp
qed simp

function rewrite_match :: "unicode \<Rightarrow> rstr \<Rightarrow> nat \<Rightarrow> rstr" where
  "rewrite_match U s start =
     (case find_match_keyword s start of
        None \<Rightarrow> s
      | Some pos \<Rightarrow> (case match_step U s pos of (s', i) \<Rightarrow> rewrite_match U s' i))"
  by pat_completeness auto
termination
proof (relation "measure (\<lambda>(U, s, start). length s - start)", goal_cases)
  case (2 U s start pos s' i)
  then have "start \<le> pos \<and> pos < length s" using find_match_keyword_bound by blast
  moreover from this have "length s' - i < length s - pos" using 2 match_step_shorter [of pos s U s' i] by simp
  ultimately show ?case using diff_le_mono2 [of start pos "length s"] by simp
qed simp

declare rewrite_pct.simps [simp del] rewrite_match.simps [simp del]

definition preprocess :: "unicode \<Rightarrow> (int \<Rightarrow> f64) \<Rightarrow> rstr \<Rightarrow> rstr" where
  "preprocess U pw sql =
     rewrite_match U (rewrite_pct U (map_types (fix_scientific_notation pw (strip_sql_comments sql))) 0) 0"

text \<open>\<open>parse_sql\<close>: the parser of the library on the rewritten text.\<close>

definition parse_sql :: "unicode \<Rightarrow> (int \<Rightarrow> f64) \<Rightarrow> (rstr \<Rightarrow> rstr + 'o stmt list) \<Rightarrow> rstr \<Rightarrow> rstr + 'o stmt list" where
  "parse_sql U pw library sql = library (preprocess U pw sql)"

end
