(* ===== verification/PreprocessProps.thy ===== *)
theory PreprocessProps
  imports Preprocess
begin

text \<open>
  What the rewriting of \<open>parser/preprocessor.rs\<close> does to comments and literals: comments vanish and literals stay,
  whatever they hold; the later passes know no literals.
\<close>

section \<open>Texts with comments\<close>

datatype sql_part = Plain rstr | Quoted rstr | LineComment rstr | BlockComment rstr

abbreviation line_break :: char where
  "line_break \<equiv> CHR 0x0A"

definition doubled :: "rstr \<Rightarrow> rstr" where
  "doubled v = concat (map (\<lambda>c. if c = squote then [squote, squote] else [c]) v)"

fun written_part :: "sql_part \<Rightarrow> rstr" where
  "written_part (Plain t) = t"
| "written_part (Quoted v) = [squote] @ doubled v @ [squote]"
| "written_part (LineComment t) = ''--'' @ t @ [line_break]"
| "written_part (BlockComment t) = ''/*'' @ t @ ''*/''"

fun without_comment :: "sql_part \<Rightarrow> rstr" where
  "without_comment (LineComment t) = [line_break]"
| "without_comment (BlockComment t) = []"
| "without_comment p = written_part p"

text \<open>Plain text opens no literal and no comment, alone or with what follows.\<close>

fun plain_text :: "rstr \<Rightarrow> bool" where
  "plain_text [] = True"
| "plain_text [c] = (c \<noteq> squote \<and> c \<noteq> CHR ''-'' \<and> c \<noteq> CHR ''/'')"
| "plain_text (a # b # s) =
     (a \<noteq> squote \<and> \<not> (a = CHR ''-'' \<and> b = CHR ''-'') \<and> \<not> (a = CHR ''/'' \<and> b = CHR ''*'') \<and> plain_text (b # s))"

fun block_text :: "rstr \<Rightarrow> bool" where
  "block_text (a # b # s) = (\<not> (a = CHR ''*'' \<and> b = CHR ''/'') \<and> block_text (b # s))"
| "block_text _ = True"

fun part_ok :: "sql_part \<Rightarrow> bool" where
  "part_ok (Plain t) = (t \<noteq> [] \<and> plain_text t)"
| "part_ok (Quoted v) = True"
| "part_ok (LineComment t) = (line_break \<notin> set t)"
| "part_ok (BlockComment t) = block_text t"

text \<open>No literal directly behind another one.\<close>

fun literals_apart :: "sql_part list \<Rightarrow> bool" where
  "literals_apart [] = True"
| "literals_apart (p # ps) =
     ((case (p, ps) of (Quoted v, Quoted w # _) \<Rightarrow> False | _ \<Rightarrow> True) \<and> literals_apart ps)"

section \<open>One part\<close>

lemma squote_distinct [simp]:
  "squote \<noteq> CHR ''-''" "squote \<noteq> CHR ''/''" "squote \<noteq> line_break" "CHR ''-'' \<noteq> squote" "CHR ''/'' \<noteq> squote" "line_break \<noteq> squote"
  by (simp_all add: squote_def)

lemma strip_plain: "plain_text t \<Longrightarrow> strip_comments False (t @ rest) = t @ strip_comments False rest"
  by (induction t rule: plain_text.induct) auto

lemma strip_quoted_rest:
  "\<not> starts_with rest [squote] \<Longrightarrow>
     strip_comments True (doubled v @ squote # rest) = doubled v @ squote # strip_comments False rest"
  by (induction v) (auto simp: doubled_def)

lemma strip_quoted:
  "\<not> starts_with rest [squote] \<Longrightarrow>
     strip_comments False (written_part (Quoted v) @ rest) = written_part (Quoted v) @ strip_comments False rest"
  using strip_quoted_rest [of rest v] by simp

lemma strip_line:
  assumes "line_break \<notin> set t"
  shows "strip_comments False (written_part (LineComment t) @ rest) = line_break # strip_comments False rest"
proof -
  have "dropWhile (\<lambda>b. b \<noteq> line_break) (t @ line_break # rest) = line_break # rest" using assms by (induction t) auto
  then show ?thesis by simp
qed

lemma after_block_closes: "block_text t \<Longrightarrow> after_block (t @ ''*/'' @ rest) = rest"
  by (induction t rule: block_text.induct) auto

lemma strip_block: "block_text t \<Longrightarrow> strip_comments False (written_part (BlockComment t) @ rest) = strip_comments False rest"
  using after_block_closes [of t rest] by simp

section \<open>The whole text\<close>

lemma starts_quoted: "ps \<noteq> [] \<Longrightarrow> part_ok (hd ps) \<Longrightarrow> \<forall>v. hd ps \<noteq> Quoted v \<Longrightarrow> \<not> starts_with (concat (map written_part ps)) [squote]"
  by (cases ps; cases "hd ps") (auto elim: plain_text.elims)

lemma strip_parts:
  "\<forall>p \<in> set ps. part_ok p \<Longrightarrow> literals_apart ps \<Longrightarrow> strip_comments False (concat (map written_part ps)) = concat (map without_comment ps)"
proof (induction ps)
  case (Cons p ps)
  have "literals_apart ps" using Cons.prems(2) by simp
  then have IH: "strip_comments False (concat (map written_part ps)) = concat (map without_comment ps)"
    using Cons.IH Cons.prems(1) by simp
  show ?case
  proof (cases p)
    case (Plain t)
    then show ?thesis using Cons.prems(1) IH by (simp add: strip_plain)
  next
    case (Quoted v)
    have "ps = [] \<or> (\<forall>w. hd ps \<noteq> Quoted w)" using Cons.prems(2) Quoted by (cases ps; cases "hd ps") auto
    then have "\<not> starts_with (concat (map written_part ps)) [squote]"
      using starts_quoted [of ps] Cons.prems(1) by (cases "ps = []") auto
    then show ?thesis using strip_quoted [of "concat (map written_part ps)" v] Quoted IH by simp
  next
    case (LineComment t)
    then show ?thesis using strip_line [of t "concat (map written_part ps)"] Cons.prems(1) IH by simp
  next
    case (BlockComment t)
    then show ?thesis using strip_block [of t "concat (map written_part ps)"] Cons.prems(1) IH by simp
  qed
qed simp

text \<open>C40. Stripping comments takes out the comments and nothing else: of a text written as plain parts, literals and
  comments, a line comment leaves its line break, a block comment nothing, and every literal stays byte for byte,
  whatever looks like a comment or a quote in it.\<close>

theorem comments_vanish_literals_stay:
  assumes "\<forall>p \<in> set ps. part_ok p" "literals_apart ps" "valid_utf8 (bytes_of (concat (map without_comment ps)))"
  shows "strip_sql_comments (concat (map written_part ps)) = concat (map without_comment ps)"
  using strip_parts [OF assms(1,2)] assms(3) by (simp add: strip_sql_comments_def text_or_def)

theorem comments_vanish_literals_stay_witness:
  "strip_sql_comments (concat (map written_part [Plain ''SELECT '', Quoted ''a--b'', BlockComment '' x '', Plain '' '', LineComment ''y'']))
     = concat (map without_comment [Plain ''SELECT '', Quoted ''a--b'', BlockComment '' x '', Plain '' '', LineComment ''y''])"
proof (rule comments_vanish_literals_stay)
  show "valid_utf8 (bytes_of (concat (map without_comment
      [Plain ''SELECT '', Quoted ''a--b'', BlockComment '' x '', Plain '' '', LineComment ''y''])))"
    by (rule valid_utf8_ascii) (simp add: is_ascii_def doubled_def squote_def)
qed (simp_all add: squote_def)

section \<open>What goes wrong\<close>

text \<open>A block comment between two minus signs leaves a line comment behind for the parser.\<close>

lemma stripping_makes_a_comment: "strip_comments False ''1 -/**/- 2'' = ''1 -- 2''"
  by (simp add: squote_def)

text \<open>The pass over numbers knows no literals: in a literal with 3eggs it takes 3e for a number, and what it puts
  there never gives the literal back.\<close>

lemma literal_rewritten: "fix_scan pw [] (squote # ''3eggs'' @ [squote]) = squote # sci_text pw ''3'' False [] @ ''ggs'' @ [squote]"
  by (simp add: squote_def is_digit_def exponent_follows_def number_starts_def after_point_def exponent_sign_def
      ascii_word_byte_def is_ascii_alphabetic_def is_ascii_digit_def Let_def)

text \<open>An exponent of more than 31 bits is taken for 0.\<close>

lemma large_exponent_is_zero: "parse_i32_digits ''9999999999'' = 0"
  by (simp add: parse_i32_digits_def digits_val_def digit_val_def)

end
