(* ===== verification/Spec2Isabelle.thy ===== *)
theory Spec2Isabelle
  imports ValueProps TableProps StoreProps QueryProps TextProps DmlProps LookupProps SelectEffects WindowProps
    AggregateProps CteProps DateProps CorrProps SqfTextProps SqfLiteralProps SaveProps SqlTextProps CommandProps HostProps PreprocessProps
begin

text \<open>
  A3SQL: a model of the SQL engine under \<open>src/extension/src/\<close> and the theorems that make its parts
  correct, or that show where the code departs from what it means to do.

  \<^bold>\<open>The program.\<close> A3SQL is an in-memory SQL engine. Text is parsed by an external library;
  the statement tree goes to \<open>engine/execute.rs\<close>, which dispatches it to one executor per statement
  (\<open>engine/stmts/\<close>); executors evaluate expressions (\<open>engine/functions/\<close>), call the
  table layer (\<open>table.rs\<close>, \<open>table/\<close>, \<open>index.rs\<close>) and the database
  (\<open>database.rs\<close>, \<open>database/\<close>), and fire triggers (\<open>trigger.rs\<close>), whose
  bodies are parsed and executed again. \<open>engine/serialize/\<close> writes and reads the database as
  binary, CSV, JSON and SQL. \<open>engine/sqf/\<close> is a small expression language of its own behind the
  function \<open>SQF_EVAL\<close>; \<open>parser/\<close> prepares SQL for the library and reads SQF literals.
  Texts come in from the game (\<open>ffi/dir.rs\<close>) or from TCP clients (\<open>server.rs\<close>);
  \<open>dispatch.rs\<close> takes the commands among them, splits the others into statements
  (\<open>dispatch/sql.rs\<close>), and saves and loads files (\<open>dispatch/commands/io.rs\<close>).

  \<^bold>\<open>Conventions.\<close> A Rust string is the list of its UTF-8 bytes (\<open>rstr\<close>); an
  \<open>i64\<close> or \<open>u64\<close> is a 64-bit word, so arithmetic wraps where the code's does; an
  \<open>f64\<close> is its 64 bits, with the IEEE comparison, arithmetic and conversions written out in
  \<open>Float64\<close>. \<open>Result<T, EngineError>\<close> is a sum (\<open>eres\<close>), \<open>Result<T,
  String>\<close> is \<open>sres\<close>, a Rust panic is \<open>None\<close> (\<open>panicking\<close>), so
  every error return, index out of bounds and failed unwrap of the source is a branch of the model. A hash map
  whose order shows in no result is a partial function; where the order shows (tables by name) the code sorts.

  \<^bold>\<open>The theories.\<close>
  \<^item> \<open>A3Prelude\<close>: strings, decimal numbers, results, shared lemmas.  \<open>Utf8\<close>: the encoding and the
    characters of a string.  \<open>Float64\<close>: bits and order of \<open>f64\<close>.
  \<^item> \<open>EngineErrors\<close> (\<open>error.rs\<close>); \<open>DbValue\<close> (\<open>value.rs\<close>); \<open>ValueOps\<close> (\<open>eval/ops.rs\<close>,
    \<open>eval/cast.rs\<close>, parts of \<open>builtin.rs\<close>); \<open>SqlAst\<close> (the constructors of the parser library the code
    matches on); \<open>Eval\<close> (\<open>eval/expr.rs\<close>), whose environment record holds what an expression can reach
    outside its row: the scalar functions, subqueries, plugins; \<open>Dates\<close> and \<open>ScalarFunctions\<close> (the calendar
    and every function of \<open>builtin.rs\<close>); \<open>Corr\<close> (\<open>eval/corr.rs\<close>, \<open>eval/nondet.rs\<close>).
  \<^item> \<open>Keys\<close> (\<open>schema.rs\<close> and \<open>index.rs\<close>: key texts and their order), \<open>Trigrams\<close>, \<open>Index\<close>
    (\<open>index.rs\<close>: BTREE and TRIGRAM indexes behind one locale), \<open>TableOps\<close> (\<open>table.rs\<close>, \<open>row_ops.rs\<close>,
    \<open>schema.rs\<close>), \<open>TableInv\<close> (the invariant \<open>wf_table\<close> and that the operations keep it).
  \<^item> \<open>Database\<close> (\<open>database.rs\<close>, cursors, prepared statements, views, parse cache); \<open>Binary\<close> and
    \<open>BinaryRoundtrip\<close> (\<open>serialize/binary.rs\<close>); \<open>TextFormats\<close> (\<open>serialize.rs\<close>, \<open>csv.rs\<close>, \<open>json.rs\<close>).
  \<^item> \<open>Lookup\<close> (the index paths of \<open>builtin.rs\<close>), \<open>LookupKeys\<close>, \<open>LookupExact\<close> (when a path is exact);
    \<open>Aggregate\<close> (\<open>aggregate.rs\<close>), \<open>Window\<close> (\<open>stmts/select/window.rs\<close>), \<open>Sorting\<close> and \<open>SetOps\<close>
    (\<open>stmts/select/sort.rs\<close>, \<open>union.rs\<close>), \<open>Select\<close> (\<open>execute/select.rs\<close>), \<open>Joins\<close> (\<open>joins.rs\<close>,
    \<open>derived.rs\<close>), \<open>Cte\<close> (\<open>cte.rs\<close>); \<open>RowGroups\<close>, \<open>SelectRows\<close>, \<open>SelectReturns\<close>: lemmas of the stages.
  \<^item> \<open>Session\<close> (thread-local cells, \<open>execute/util.rs\<close>, \<open>trigger.rs\<close>), \<open>Dml\<close> and \<open>DmlUpdate\<close>
    (\<open>stmts/insert.rs\<close>, \<open>delete.rs\<close>, \<open>update.rs\<close>, \<open>merge.rs\<close>), \<open>Ddl\<close> (\<open>stmts/ddl/\<close>,
    \<open>transaction.rs\<close>), \<open>Execute\<close> (\<open>execute.rs\<close>).
  \<^item> \<open>ExecDepth\<close>: executors keep the trigger depth, and the recursion through bodies ends.
    \<open>ExecInvariant\<close>: the contract of the table layer as a locale, what the executors keep under it, and
    its interpretation by \<open>wf_table\<close> and \<open>typed_table\<close>; the sessions that tame statements reach.
  \<^item> \<open>SqfLexer\<close>, \<open>SqfDatabase\<close>, \<open>SqfParser\<close>, \<open>SqfEval\<close> (\<open>sqf/lexer.rs\<close>, \<open>database.rs\<close>, \<open>parser.rs\<close>,
    \<open>eval.rs\<close> and \<open>commands/\<close>); \<open>SqfLiteral\<close> (\<open>parser/sqf_literal.rs\<close>).
  \<^item> \<open>SaveFile\<close> (\<open>dispatch/commands/io.rs\<close>), on a disk that remembers the states a crash can leave behind;
    \<open>SqlText\<close> (\<open>dispatch/sql.rs\<close>); \<open>Preprocess\<close> (\<open>parser/preprocessor.rs\<close>, before the parser of the library); \<open>Commands\<close> (\<open>dispatch.rs\<close>, \<open>dispatch/commands.rs\<close>), on a \<open>world\<close> of session,
    disk and global cells; \<open>Server\<close> (\<open>server.rs\<close>: one line, one connection, and the step relation in which
    connections and the game take turns); \<open>HostApi\<close> (\<open>ffi/dir.rs\<close>).
  \<^item> The properties, with their witnesses, are in the theories whose names end in \<open>Props\<close> and in
    \<open>SelectEffects\<close>.

  \<^bold>\<open>State.\<close> \<open>table\<close> has the fields of the code's \<open>Table\<close>,
  \<open>database\<close> those of \<open>Database\<close>, \<open>session\<close> the database with the
  thread-local cells. An executor is a function from a session to a result and the session after it;
  \<open>xbind\<close> is the \<open>?\<close> operator. What an executor did before it failed stays, as in the
  code, which changes borrowed tables in place. \<open>world\<close> adds the disk, the credentials, the remote
  connection, the listener and the depth of the dispatcher; the step relation of the server runs on it, one
  dispatch under the lock of the database per step. The state that a panic leaves behind is not known to the
  model: the panic barriers of \<open>server.rs\<close> and \<open>ffi/dir.rs\<close> take it from a parameter.
  The state of the SQF evaluator is the cell of its random generator.

  \<^bold>\<open>Bounds.\<close> Trigger bodies are executed with the fuel \<open>max_trigger_depth\<close> =
  16, the code's \<open>MAX_DEPTH\<close>. It is enough: at that depth no body runs, so more fuel changes
  nothing and \<open>execute\<close> satisfies the recursive equation of the code
  (\<open>ExecProps.trigger_recursion_ends\<close>). A recursive WITH clause runs at most
  \<open>max_iters\<close> = 100 rounds, as in the code. The parser of SQF expressions has fuel twice the number
  of tokens plus two, proved enough for every list of tokens (\<open>SqfProps.parser_returns\<close>); that of
  SQF literals twice the length of the text plus two, enough as well
  (\<open>SqfLiteralProps.literal_parser_returns\<close>). Every other recursion is on data or on a measure, and
  total.

  \<^bold>\<open>What the properties say.\<close> Tables: insert, delete, update and the schema operations keep
  keys, indexes and types consistent, and insert is decided by the values alone. Indexes: a lookup is a scan,
  and no index path of a WHERE clause changes its rows. Values: comparison, hashing and keys agree; the text of
  the clock reads back. Database: transactions restore exactly. Files: the binary round trip, damage is refused,
  a save survives a crash at any point and stays in its directory. Queries: groups partition the rows, DISTINCT,
  frames, ranks, aggregates, ORDER BY is a stable sort, a join is the relational join, a recursive clause ends
  at a fixpoint; queries return and change nothing. Expressions: rewriting a correlated condition is evaluation
  in the outer scope, what the nondeterminism check lets pass is timeless. Statements: what every reachable
  session keeps, what INSERT and DELETE do to the rows, that triggers end. Text: arguments stay literals,
  splitting inverts joining, comments go and literals stay. Commands: a cursor runs its query page by page.
  Server: nothing is dispatched before a login, a client that is logged in gets its replies. Game: a response
  arrives whole or as an error. SQF: lexer and parser invert printing, the parser returns, exactly which
  operations panic. Some theorems state what the code does where that is not what it means to do; the manifest
  lists these as findings.

  \<^bold>\<open>Not modelled.\<close> EXPLAIN is a parameter of the dispatch (\<open>statement_host\<close>),
  as are the SELECT of a trigger body or of INSERT and the query texts of derived tables, which are executed
  again from their text; \<open>RAISE\<close> inside a trigger sets its flag through the same parameter. The
  commands call the SQL parser as a whole, a parameter; \<open>Preprocess.parse_sql\<close> is what the code
  puts there, over the parser of the library. The operating system (which calls fail, where links lead), the
  network, binding the listener, the loading of plugins, the framework behind the call \<open>sql\<close> of the
  game, the configuration file and the fuzz harness are parameters, I/O or glue. The parsers of SQL and JSON,
  the SQF macro preprocessor, the wiki data, the transcendental functions and the Unicode tables are external
  libraries and appear as parameters.
\<close>

end
